(* ===== verification/Vex_Prelude.thy ===== *)
theory Vex_Prelude
  imports Complex_Main "HOL-Library.Multiset"
begin

text \<open>
  Shared material of the development.

  \<^item> The outcome of a C++ operation: \<open>'a res\<close> is either a value or the way in which the code
    stops making progress (a null dereference, an access outside an array, a failed
    \<open>assert\<close>, a relocked mutex, a failed \<open>Check::check\<close>, a recursion that overflows the stack).
  \<^item> C++ floating point: \<open>float\<close> and \<open>double\<close> values are rational numbers, every
    arithmetic operation rounds its exact result to 24 or 53 significant bits, ties to even
    (\<open>f32\<close>, \<open>f64\<close>). The exponent range is not bounded: infinities, NaN and subnormal
    numbers do not arise, except for the divisions by zero, which the definitions that
    divide treat explicitly.
  \<^item> \<open>long long\<close> values are \<open>int\<close>: signed overflow is undefined behaviour in C++, so every
    defined execution computes the mathematical result. The conversion of a \<open>float\<close>
    to \<open>long long\<close> truncates, and an unrepresentable value gives the x86-64 result
    \<open>LLONG_MIN\<close> (\<open>ll_of_float\<close>).
\<close>

named_theorems vex_defs \<open>definitions of plain accessors and field updates\<close>
named_theorems res_simps \<open>evaluation of the outcome combinators\<close>

section \<open>Outcomes\<close>

datatype vex_error = NullDeref | OutOfBounds | AssertFailed | Deadlock | CheckFailed | StackOverflow | DivisionByZero

type_synonym 'a res = "vex_error + 'a"

definition bindE :: "'a res \<Rightarrow> ('a \<Rightarrow> 'b res) \<Rightarrow> 'b res" where
  "bindE r f = (case r of Inl e \<Rightarrow> Inl e | Inr x \<Rightarrow> f x)"

definition assertE :: "vex_error \<Rightarrow> bool \<Rightarrow> unit res" where
  "assertE e b = (if b then Inr () else Inl e)"

lemma bindE_Inr [simp, res_simps]: "bindE (Inr x) f = f x"
  by (simp add: bindE_def)

lemma bindE_Inl [simp, res_simps]: "bindE (Inl e) f = Inl e"
  by (simp add: bindE_def)

lemma bindE_eq_Inr: "bindE r f = Inr y \<longleftrightarrow> (\<exists>x. r = Inr x \<and> f x = Inr y)"
  by (cases r) auto

lemma bindE_assoc: "bindE (bindE r f) g = bindE r (\<lambda>x. bindE (f x) g)"
  by (cases r) auto

lemma assertE_eq_Inr [simp]: "assertE e b = Inr u \<longleftrightarrow> b"
  by (simp add: assertE_def)

section \<open>Lists\<close>

text \<open>An array access with its bounds check.\<close>

definition at_idx :: "'a list \<Rightarrow> nat \<Rightarrow> 'a res" where
  "at_idx xs i = (if i < length xs then Inr (xs ! i) else Inl OutOfBounds)"

lemma at_idx_Inr [simp]: "i < length xs \<Longrightarrow> at_idx xs i = Inr (xs ! i)"
  by (simp add: at_idx_def)

lemma at_idx_eq_Inr: "at_idx xs i = Inr x \<longleftrightarrow> i < length xs \<and> xs ! i = x"
  by (auto simp: at_idx_def)

text \<open>Removing the first occurrence, and all occurrences, of an element.\<close>

lemma mset_remove1_eq: "mset (remove1 x xs) = mset xs - {#x#}"
  by simp

lemma removeAll_filter: "removeAll x xs = filter (\<lambda>y. y \<noteq> x) xs"
  by (induction xs) auto

lemma last_in_set_butlast: "xs \<noteq> [] \<Longrightarrow> mset (butlast xs) = mset xs - {#last xs#}"
  by (metis add_mset_add_single add_mset_remove_trivial append_butlast_last_id
      mset.simps(2) mset_append mset_single_iff_right union_code)

section \<open>Rounding\<close>

definition round_half_even :: "rat \<Rightarrow> int" where
  "round_half_even x =
     (let f = \<lfloor>x\<rfloor>; d = x - of_int f
      in if d < 1 / 2 then f else if 1 / 2 < d then f + 1 else if even f then f else f + 1)"

function bit_length :: "int \<Rightarrow> int" where
  "bit_length n = (if n \<le> 0 then 0 else 1 + bit_length (n div 2))"
  by pat_completeness auto
termination
  by (relation "measure nat") auto

declare bit_length.simps [simp del]

definition pow2 :: "int \<Rightarrow> rat" where
  "pow2 e = (if 0 \<le> e then 2 ^ nat e else 1 / 2 ^ nat (- e))"

text \<open>The exponent \<open>e\<close> with \<open>2 ^ (p - 1) \<le> \<bar>x\<bar> / 2 ^ e < 2 ^ p\<close>.\<close>

definition fl_exp :: "nat \<Rightarrow> rat \<Rightarrow> int" where
  "fl_exp p x =
     (case quotient_of \<bar>x\<bar> of (a, b) \<Rightarrow>
        let k = bit_length a - bit_length b
        in if pow2 k \<le> \<bar>x\<bar> then k + 1 - int p else k - int p)"

definition fl :: "nat \<Rightarrow> rat \<Rightarrow> rat" where
  "fl p x =
     (if x = 0 then 0
      else let e = fl_exp p x in of_int (round_half_even (x / pow2 e)) * pow2 e)"

abbreviation f32 :: "rat \<Rightarrow> rat" where
  "f32 \<equiv> fl 24"

abbreviation f64 :: "rat \<Rightarrow> rat" where
  "f64 \<equiv> fl 53"

definition LLONG_MAX :: int where
  "LLONG_MAX = 9223372036854775807"

definition LLONG_MIN :: int where
  "LLONG_MIN = - 9223372036854775808"

definition trunc_int :: "rat \<Rightarrow> int" where
  "trunc_int x = (if 0 \<le> x then \<lfloor>x\<rfloor> else \<lceil>x\<rceil>)"

definition ll_of_float :: "rat \<Rightarrow> int" where
  "ll_of_float x =
     (let n = trunc_int x in if LLONG_MIN \<le> n \<and> n \<le> LLONG_MAX then n else LLONG_MIN)"

lemma round_half_even_error: "\<bar>of_int (round_half_even x) - x\<bar> \<le> 1 / 2"
proof -
  have lo: "of_int \<lfloor>x\<rfloor> \<le> x" and hi: "x < of_int \<lfloor>x\<rfloor> + 1"
    by linarith+
  show ?thesis
    unfolding round_half_even_def Let_def using lo hi by (auto simp: abs_le_iff)
qed

lemma round_half_even_int [simp]: "round_half_even (of_int n) = n"
  by (simp add: round_half_even_def)

lemma round_half_even_nonneg: "0 \<le> x \<Longrightarrow> 0 \<le> round_half_even x"
  by (simp add: round_half_even_def Let_def)

lemma round_half_even_mono: "x \<le> y \<Longrightarrow> round_half_even x \<le> round_half_even y"
proof -
  assume xy: "x \<le> y"
  then have fl: "\<lfloor>x\<rfloor> \<le> \<lfloor>y\<rfloor>"
    by (rule floor_mono)
  have up: "round_half_even x \<le> \<lfloor>x\<rfloor> + 1" and lo: "\<lfloor>y\<rfloor> \<le> round_half_even y"
    by (simp_all add: round_half_even_def Let_def)
  show ?thesis
  proof (cases "\<lfloor>x\<rfloor> = \<lfloor>y\<rfloor>")
    case True
    with xy show ?thesis
      by (auto simp: round_half_even_def Let_def)
  next
    case False
    with fl up lo show ?thesis by linarith
  qed
qed

lemma pow2_pos [simp]: "0 < pow2 e"
  by (simp add: pow2_def)

lemma pow2_nonzero [simp]: "pow2 e \<noteq> 0"
  using pow2_pos [of e] by linarith

lemma pow2_of_nat: "pow2 (int n) = 2 ^ n"
  by (simp add: pow2_def)

lemma pow2_powi: "pow2 e = 2 powi e"
  by (simp add: pow2_def power_int_def field_simps)

lemma pow2_add: "pow2 (a + b) = pow2 a * pow2 b"
  by (simp add: pow2_powi power_int_add)

lemma pow2_mono: "a \<le> b \<Longrightarrow> pow2 a \<le> pow2 b"
  unfolding pow2_powi by (rule power_int_increasing) simp_all

lemma pow2_strict_mono: "a < b \<Longrightarrow> pow2 a < pow2 b"
  unfolding pow2_powi by (rule power_int_strict_increasing) simp_all

lemma pow2_le_iff: "pow2 a \<le> pow2 b \<longleftrightarrow> a \<le> b"
  using pow2_mono pow2_strict_mono by (meson linorder_not_le)

lemma pow2_less_iff: "pow2 a < pow2 b \<longleftrightarrow> a < b"
  using pow2_le_iff [of b a] by linarith

lemma bit_length_nonneg: "0 \<le> bit_length n"
  by (induction n rule: bit_length.induct) (subst bit_length.simps, simp)

lemma bit_length_bounds:
  "0 < n \<Longrightarrow> pow2 (bit_length n - 1) \<le> of_int n \<and> of_int n < pow2 (bit_length n)"
proof (induction n rule: bit_length.induct)
  case (1 n)
  show ?case
  proof (cases "n div 2 = 0")
    case True
    with 1(2) have "n = 1" by linarith
    then show ?thesis
      by (simp add: bit_length.simps pow2_def)
  next
    case False
    let ?b = "bit_length (n div 2)"
    from 1 False have IH: "pow2 (?b - 1) \<le> of_int (n div 2)" "of_int (n div 2) < pow2 ?b"
      by auto
    have b: "bit_length n = 1 + ?b"
      using 1(2) by (subst bit_length.simps) simp
    have two: "pow2 (1 + e) = 2 * pow2 e" for e
      by (simp add: pow2_add pow2_def [of 1])
    have "2 * (n div 2) \<le> n" by linarith
    then have lo: "2 * of_int (n div 2) \<le> (of_int n :: rat)"
      by (metis of_int_le_iff of_int_mult of_int_numeral)
    have "pow2 ?b = of_int (2 ^ nat ?b)"
      using bit_length_nonneg by (simp add: pow2_def)
    with IH(2) have "n div 2 + 1 \<le> 2 ^ nat ?b"
      by (metis of_int_less_iff zless_imp_add1_zle)
    then have "n < 2 * 2 ^ nat ?b"
      by linarith
    then have "(of_int n :: rat) < of_int (2 * 2 ^ nat ?b)"
      by (rule of_int_less_iff [THEN iffD2])
    also have "\<dots> = 2 * pow2 ?b"
      using bit_length_nonneg by (simp add: pow2_def)
    finally have hi: "of_int n < 2 * pow2 ?b" .
    show ?thesis
      using IH(1) lo hi two [of "?b - 1"] two [of ?b] by (simp add: b algebra_simps)
  qed
qed

text \<open>The chosen exponent brings the significand into \<open>[2 ^ (p - 1), 2 ^ p)\<close>.\<close>

lemma quotient_of_pos:
  assumes "0 < x" and "quotient_of x = (a, b)"
  shows "0 < a" and "0 < b" and "x = of_int a / of_int b"
proof -
  from assms(2) show b: "0 < b" by (rule quotient_of_denom_pos)
  from assms(2) show x: "x = of_int a / of_int b" by (rule quotient_of_div)
  with b assms(1) show "0 < a" by (simp add: zero_less_divide_iff)
qed

lemma fl_exp_bounds:
  assumes "x \<noteq> 0"
  shows "pow2 (fl_exp p x + int p - 1) \<le> \<bar>x\<bar>" and "\<bar>x\<bar> < pow2 (fl_exp p x + int p)"
proof -
  obtain a b where q: "quotient_of \<bar>x\<bar> = (a, b)" by fastforce
  from assms have "0 < \<bar>x\<bar>" by simp
  note ab = quotient_of_pos [OF this q]
  define k where "k = bit_length a - bit_length b"
  note A = bit_length_bounds [OF ab(1)] and B = bit_length_bounds [OF ab(2)]
  have bpos: "(0::rat) < of_int b" using ab(2) by simp
  have "pow2 (k - 1) * of_int b \<le> pow2 (k - 1) * pow2 (bit_length b)"
    using B by (intro mult_left_mono) (simp_all add: less_imp_le)
  also have "\<dots> = pow2 (bit_length a - 1)"
    by (simp flip: pow2_add add: k_def)
  finally have lo: "pow2 (k - 1) \<le> \<bar>x\<bar>"
    using A ab(3) bpos by (simp add: pos_le_divide_eq)
  have "of_int a < pow2 (k + 1) * pow2 (bit_length b - 1)"
    using A by (simp flip: pow2_add add: k_def)
  also have "\<dots> \<le> pow2 (k + 1) * of_int b"
    using B by (intro mult_left_mono) (simp_all add: less_imp_le)
  finally have hi: "\<bar>x\<bar> < pow2 (k + 1)"
    using ab(3) bpos by (simp add: pos_divide_less_eq)
  have e: "fl_exp p x = (if pow2 k \<le> \<bar>x\<bar> then k + 1 - int p else k - int p)"
    by (simp add: fl_exp_def q k_def)
  show "pow2 (fl_exp p x + int p - 1) \<le> \<bar>x\<bar>" and "\<bar>x\<bar> < pow2 (fl_exp p x + int p)"
    using lo hi by (simp_all add: e)
qed

lemma fl_0 [simp]: "fl p 0 = 0"
  by (simp add: fl_def)

lemma fl_nonneg: "0 \<le> x \<Longrightarrow> 0 \<le> fl p x"
  using round_half_even_nonneg [of "x / pow2 (fl_exp p x)"]
  by (simp add: fl_def Let_def less_imp_le [OF pow2_pos])

lemma fl_relative_error: "\<bar>fl p x - x\<bar> \<le> \<bar>x\<bar> / 2 ^ p"
proof (cases "x = 0")
  case False
  let ?e = "fl_exp p x"
  have "fl p x - x = (of_int (round_half_even (x / pow2 ?e)) - x / pow2 ?e) * pow2 ?e"
    using False by (simp add: fl_def Let_def left_diff_distrib)
  then have "\<bar>fl p x - x\<bar> \<le> 1 / 2 * pow2 ?e"
    using round_half_even_error [of "x / pow2 ?e"]
    by (simp add: abs_mult mult_right_mono less_imp_le)
  also have "\<dots> = pow2 (?e + int p - 1) / 2 ^ p"
    using pow2_add [of "?e - 1" "int p"] pow2_add [of ?e "- 1"]
    by (simp add: pow2_of_nat pow2_def [of "- 1"] algebra_simps)
  also have "\<dots> \<le> \<bar>x\<bar> / 2 ^ p"
    using fl_exp_bounds(1) [OF False] by (intro divide_right_mono) simp_all
  finally show ?thesis .
qed simp

lemma fl_upper: "0 \<le> x \<Longrightarrow> fl p x \<le> x * (1 + 1 / 2 ^ p)"
proof -
  assume "0 \<le> x"
  then have "fl p x - x \<le> x / 2 ^ p" using fl_relative_error [of p x] by linarith
  then show ?thesis by (simp add: distrib_left)
qed

lemma fl_ge_half: "0 \<le> x \<Longrightarrow> 0 < p \<Longrightarrow> x / 2 \<le> fl p x"
proof -
  assume x: "0 \<le> x" and p: "0 < p"
  have "x / 2 ^ p \<le> x / 2 ^ 1"
    using x p by (intro divide_left_mono power_increasing) simp_all
  then have "x / 2 ^ p \<le> x / 2" by simp
  moreover have "x - fl p x \<le> x / 2 ^ p"
    using fl_relative_error [of p x] x by linarith
  ultimately show ?thesis by linarith
qed

text \<open>Integers of at most \<open>p\<close> bits are represented exactly.\<close>

lemma fl_of_int:
  assumes "\<bar>n\<bar> < 2 ^ p"
  shows "fl p (of_int n) = of_int n"
proof (cases "n = 0")
  case False
  let ?e = "fl_exp p (of_int n)"
  from False have nz: "(of_int n :: rat) \<noteq> 0" by simp
  have "pow2 (?e + int p - 1) \<le> \<bar>of_int n\<bar>"
    by (rule fl_exp_bounds(1) [OF nz])
  also have "\<dots> = of_int \<bar>n\<bar>" by simp
  also have "\<dots> < pow2 (int p)"
    using assms unfolding pow2_of_nat by (metis of_int_less_iff of_int_numeral of_int_power)
  finally have "?e \<le> 0"
    by (simp add: pow2_less_iff)
  then have "of_int n / pow2 ?e = (of_int (n * 2 ^ nat (- ?e)) :: rat)"
    by (simp add: pow2_def)
  then have "of_int (round_half_even (of_int n / pow2 ?e)) = of_int n / pow2 ?e"
    by (simp only: round_half_even_int)
  with nz show ?thesis
    by (simp add: fl_def Let_def)
qed simp

text \<open>Rounding is monotone and leaves rounded numbers unchanged.\<close>

lemma fl_pos_bounds:
  assumes "0 < x" "0 < p"
  shows "pow2 (fl_exp p x + int p - 1) \<le> fl p x" and "fl p x \<le> pow2 (fl_exp p x + int p)"
proof -
  let ?e = "fl_exp p x"
  have x: "x \<noteq> 0" "\<bar>x\<bar> = x" using assms by simp_all
  note b = fl_exp_bounds [OF x(1), of p, unfolded x(2)]
  have "of_int (2 ^ (p - 1)) * pow2 ?e = pow2 (?e + int p - 1)"
  proof -
    have "pow2 (?e + int p - 1) = pow2 (int (p - 1) + ?e)" using assms(2) by (simp add: of_nat_diff algebra_simps)
    then show ?thesis by (simp only: pow2_add pow2_of_nat of_int_power of_int_numeral)
  qed
  then have "of_int (2 ^ (p - 1)) \<le> x / pow2 ?e" using b(1) by (simp add: pos_le_divide_eq)
  from round_half_even_mono [OF this] have "2 ^ (p - 1) \<le> round_half_even (x / pow2 ?e)"
    by (simp only: round_half_even_int)
  then have "of_int (2 ^ (p - 1)) * pow2 ?e \<le> fl p x"
    using x(1) by (simp add: fl_def Let_def mult_right_mono less_imp_le [OF pow2_pos] del: of_int_power)
  with \<open>_ = pow2 (?e + int p - 1)\<close> show "pow2 (?e + int p - 1) \<le> fl p x" by simp
  have "of_int (2 ^ p) * pow2 ?e = pow2 (?e + int p)"
    using pow2_add [of "int p" ?e] by (simp add: pow2_of_nat algebra_simps)
  then have "x / pow2 ?e \<le> of_int (2 ^ p)" using b(2) by (simp add: pos_divide_le_eq)
  from round_half_even_mono [OF this] have "round_half_even (x / pow2 ?e) \<le> 2 ^ p"
    by (simp only: round_half_even_int)
  then have "fl p x \<le> of_int (2 ^ p) * pow2 ?e"
    using x(1) by (simp add: fl_def Let_def mult_right_mono less_imp_le [OF pow2_pos] del: of_int_power)
  with \<open>_ = pow2 (?e + int p)\<close> show "fl p x \<le> pow2 (?e + int p)" by simp
qed

lemma fl_mono:
  assumes "0 \<le> x" "x \<le> y" "0 < p"
  shows "fl p x \<le> fl p y"
proof (cases "x = 0")
  case True
  then show ?thesis using fl_nonneg [of y p] assms by simp
next
  case False
  then have pos: "0 < x" "0 < y" using assms by auto
  note bx = fl_exp_bounds [of x p] and "by" = fl_exp_bounds [of y p]
  have "pow2 (fl_exp p x + int p - 1) < pow2 (fl_exp p y + int p)"
    using bx(1) "by"(2) pos assms(2) by simp
  then have le: "fl_exp p x \<le> fl_exp p y" by (simp add: pow2_less_iff)
  show ?thesis
  proof (cases "fl_exp p x = fl_exp p y")
    case True
    have "x / pow2 (fl_exp p y) \<le> y / pow2 (fl_exp p y)"
      using assms(2) by (intro divide_right_mono) (simp_all add: less_imp_le)
    from round_half_even_mono [OF this] show ?thesis
      using pos True by (simp add: fl_def Let_def mult_right_mono less_imp_le [OF pow2_pos])
  next
    case False
    have "fl p x \<le> pow2 (fl_exp p x + int p)" by (rule fl_pos_bounds(2) [OF pos(1) assms(3)])
    also have "\<dots> \<le> pow2 (fl_exp p y + int p - 1)" using le False by (intro pow2_mono) simp
    also have "\<dots> \<le> fl p y" by (rule fl_pos_bounds(1) [OF pos(2) assms(3)])
    finally show ?thesis .
  qed
qed

lemma fl_dyadic:
  assumes "0 < m" "m < 2 ^ p"
  shows "fl p (of_int m * pow2 e) = of_int m * pow2 e"
proof -
  let ?x = "of_int m * pow2 e :: rat" let ?f = "fl_exp p ?x"
  have x: "?x \<noteq> 0" "\<bar>?x\<bar> = ?x" using assms(1) by (simp_all add: abs_mult abs_of_pos)
  have "pow2 (?f + int p - 1) \<le> ?x" using fl_exp_bounds(1) [OF x(1), of p] x(2) by simp
  also have "of_int m < (of_int (2 ^ p) :: rat)" using assms(2) by (simp only: of_int_less_iff)
  then have "?x < 2 ^ p * pow2 e" by simp
  also have "\<dots> = pow2 (int p + e)" by (simp add: pow2_add pow2_of_nat)
  finally have "?f \<le> e" by (simp add: pow2_less_iff)
  have "pow2 (e - f) = pow2 e / pow2 f" for f
    using pow2_add [of "e - f" f] by (simp add: eq_divide_eq)
  then have "?x / pow2 ?f = of_int m * pow2 (e - ?f)" by simp
  also have "\<dots> = of_int (m * 2 ^ nat (e - ?f))" using \<open>?f \<le> e\<close> by (simp add: pow2_def)
  finally have "?x / pow2 ?f = of_int (m * 2 ^ nat (e - ?f))" .
  then have "of_int (round_half_even (?x / pow2 ?f)) = ?x / pow2 ?f" by (simp only: round_half_even_int)
  with x(1) show ?thesis by (simp add: fl_def Let_def)
qed

lemma fl_idem:
  assumes "0 \<le> x" "0 < p"
  shows "fl p (fl p x) = fl p x"
proof (cases "x = 0")
  case False
  then have pos: "0 < x" using assms by simp
  let ?e = "fl_exp p x" let ?m = "round_half_even (x / pow2 ?e)"
  have fx: "fl p x = of_int ?m * pow2 ?e" using False by (simp add: fl_def Let_def)
  have hi: "of_int ?m * pow2 ?e \<le> of_int (2 ^ p) * pow2 ?e"
    using fl_pos_bounds(2) [OF pos assms(2)] pow2_add [of "int p" ?e]
    by (simp add: fx pow2_of_nat algebra_simps)
  have lo: "0 < of_int ?m * pow2 ?e"
    using fl_pos_bounds(1) [OF pos assms(2)] pow2_pos less_le_trans unfolding fx by blast
  have m: "0 < ?m" "?m \<le> 2 ^ p"
    using lo hi not_less_iff_gr_or_eq [of "pow2 ?e" 0] pow2_pos [of ?e]
    by (simp_all add: zero_less_mult_iff less_imp_le del: of_int_power pow2_pos)
  show ?thesis
  proof (cases "?m = 2 ^ p")
    case True
    then have "fl p x = of_int 1 * pow2 (int p + ?e)" by (simp add: fx pow2_add pow2_of_nat)
    moreover have "fl p (of_int 1 * pow2 (int p + ?e)) = of_int 1 * pow2 (int p + ?e)"
      using assms(2) by (intro fl_dyadic) simp_all
    ultimately show ?thesis by simp
  next
    case False
    then show ?thesis using fl_dyadic [of ?m p ?e] m fx by simp
  qed
qed simp

lemma trunc_int_of_int [simp]: "trunc_int (of_int n) = n"
  by (simp add: trunc_int_def)

lemma trunc_int_nonneg: "0 \<le> x \<Longrightarrow> 0 \<le> trunc_int x"
  by (simp add: trunc_int_def)

end
