(* ===== verification/Vex_Timers.thy ===== *)
theory Vex_Timers
  imports Vex_Prelude
begin

text \<open>
  The per-thread clocks (\<open>src/src/vex/threads/Timers.h\<close> and \<open>Timers.cpp\<close>).

  The record has the fields of class \<open>Timers\<close>. A method that reads a clock takes the value it
  reads as an argument: \<open>cpu\<close> for \<open>getVirtualTime()\<close> and \<open>rt\<close> for
  \<open>Time::getRealTime()\<close>. The static member \<open>globalScalingFactor\<close> is the argument
  \<open>g\<close>. Scaled times go through single precision arithmetic exactly as the usual
  arithmetic conversions of C++ prescribe.
\<close>

section \<open>State\<close>

record timers =
  virtualTime :: int
  estimatedRealTime :: int
  lastCPUTime :: int
  lastRealTime :: int
  localTimeSinceLastResume :: int
  resumedLastAt :: int
  resumedLastAtReal :: int
  lastTimeInHandler :: int
  lastRealTimeInHandler :: int
  lastTimePerStateERT :: int
  virtualTimeAtSimulationStart :: int
  ioWaitingTime :: int
  monitorWaitingTime :: int
  dontUpdateToGlobalTime :: bool
  virtualTimeSpeedup :: rat
  timeout :: int
  threadStillBlocked :: int

definition MAXIMUM_CONSECUTIVE_TIMESLICES_AS_BLOCKED_IN_MONITOR :: int where
  "MAXIMUM_CONSECUTIVE_TIMESLICES_AS_BLOCKED_IN_MONITOR = 10"

definition LONG_MAX :: int where
  "LONG_MAX = LLONG_MAX"

text \<open>\<open>resetCounters\<close> leaves \<open>lastCPUTime\<close>, \<open>virtualTimeAtSimulationStart\<close> and
  \<open>threadStillBlocked\<close> as they are.\<close>

definition Timers_resetCounters :: "int \<Rightarrow> timers \<Rightarrow> timers" where
  "Timers_resetCounters rt t =
     t\<lparr>timeout := -1, virtualTime := 0, resumedLastAt := 0, estimatedRealTime := 0,
       virtualTimeSpeedup := 1, lastRealTime := rt, resumedLastAtReal := rt,
       lastTimePerStateERT := 0, localTimeSinceLastResume := 0, lastTimeInHandler := 0,
       lastRealTimeInHandler := rt, dontUpdateToGlobalTime := False,
       ioWaitingTime := 0, monitorWaitingTime := 0\<rparr>"

text \<open>The constructor runs on uninitialised storage \<open>raw\<close>.\<close>

definition Timers_Timers :: "int \<Rightarrow> timers \<Rightarrow> timers" where
  "Timers_Timers rt raw = (Timers_resetCounters rt raw)\<lparr>lastCPUTime := 0\<rparr>"

section \<open>Operations of Timers.h\<close>

definition Timers_setVirtualTime :: "int \<Rightarrow> timers \<Rightarrow> timers" where
  [vex_defs]: "Timers_setVirtualTime v t = t\<lparr>virtualTime := v\<rparr>"

definition Timers_setEstimatedRealTime :: "int \<Rightarrow> timers \<Rightarrow> timers" where
  [vex_defs]: "Timers_setEstimatedRealTime v t = t\<lparr>estimatedRealTime := v\<rparr>"

definition Timers_setSynchronizationBarrierTime :: "int \<Rightarrow> timers \<Rightarrow> timers" where
  [vex_defs]: "Timers_setSynchronizationBarrierTime slot t =
     t\<lparr>estimatedRealTime := estimatedRealTime t + slot\<rparr>"

definition Timers_clearSynchronizationBarrierTime :: "int \<Rightarrow> timers \<Rightarrow> timers" where
  [vex_defs]: "Timers_clearSynchronizationBarrierTime slot t =
     t\<lparr>estimatedRealTime := estimatedRealTime t - slot\<rparr>"

definition Timers_leapForwardTo :: "int \<Rightarrow> timers \<Rightarrow> timers" where
  "Timers_leapForwardTo currentTime t =
     (if estimatedRealTime t < currentTime then t\<lparr>estimatedRealTime := currentTime\<rparr> else t)"

definition Timers_leapToGlobalTime :: "int \<Rightarrow> timers \<Rightarrow> timers" where
  "Timers_leapToGlobalTime currentVirtualTime t =
     (if \<not> dontUpdateToGlobalTime t then t\<lparr>estimatedRealTime := currentVirtualTime\<rparr> else t)"

definition Timers_addElapsedTime :: "int \<Rightarrow> timers \<Rightarrow> timers \<times> int" where
  "Timers_addElapsedTime time t =
     (t\<lparr>virtualTime := virtualTime t + time, estimatedRealTime := estimatedRealTime t + time\<rparr>,
      virtualTime t + time)"

definition Timers_addGlobalTime :: "int \<Rightarrow> timers \<Rightarrow> timers" where
  "Timers_addGlobalTime timeAdded t =
     (let t' = fst (Timers_addElapsedTime timeAdded t)
      in t'\<lparr>localTimeSinceLastResume := localTimeSinceLastResume t' + timeAdded\<rparr>)"

text \<open>\<open>timeDiff * virtualTimeSpeedup * globalScalingFactor\<close>: the \<open>long long\<close> operand is
  converted to \<open>float\<close>, and both products are rounded to \<open>float\<close>.\<close>

definition scale_float :: "rat \<Rightarrow> timers \<Rightarrow> int \<Rightarrow> rat" where
  "scale_float g t d = f32 (f32 (f32 (of_int d) * virtualTimeSpeedup t) * g)"

definition Timers_addLocalTime :: "rat \<Rightarrow> int \<Rightarrow> timers \<Rightarrow> timers" where
  "Timers_addLocalTime g timeDiff t =
     (let timeAdded = ll_of_float (scale_float g t timeDiff);
          t' = fst (Timers_addElapsedTime timeAdded t)
      in t'\<lparr>localTimeSinceLastResume := localTimeSinceLastResume t' + timeAdded\<rparr>)"

definition Timers_addLocalIoTime :: "int \<Rightarrow> timers \<Rightarrow> timers" where
  "Timers_addLocalIoTime timeDiff t =
     (let timeAdded = ll_of_float (f32 (f32 (of_int timeDiff) * virtualTimeSpeedup t))
      in t\<lparr>estimatedRealTime := estimatedRealTime t + timeAdded,
           localTimeSinceLastResume := localTimeSinceLastResume t + timeAdded\<rparr>)"

definition Timers_beforeCurrentGlobalTime :: "int \<Rightarrow> timers \<Rightarrow> bool" where
  "Timers_beforeCurrentGlobalTime currentVirtualTime t =
     (if currentVirtualTime > estimatedRealTime t then True else False)"

definition Timers_setLastCPUTime :: "int \<Rightarrow> timers \<Rightarrow> timers" where
  [vex_defs]: "Timers_setLastCPUTime v t = t\<lparr>lastCPUTime := v\<rparr>"

definition Timers_updateCpuTimeClock :: "int \<Rightarrow> timers \<Rightarrow> timers" where
  [vex_defs]: "Timers_updateCpuTimeClock cpu t = t\<lparr>lastCPUTime := cpu\<rparr>"

definition Timers_setCpuTimeClockAfterIo :: "int \<Rightarrow> int \<Rightarrow> timers \<Rightarrow> timers" where
  [vex_defs]: "Timers_setCpuTimeClockAfterIo cpu ioDelay t = t\<lparr>lastCPUTime := cpu + ioDelay\<rparr>"

definition Timers_updateCpuTimeAddingSimulatedVirtualTime :: "timers \<Rightarrow> timers" where
  [vex_defs]: "Timers_updateCpuTimeAddingSimulatedVirtualTime t =
     t\<lparr>lastCPUTime := lastCPUTime t + (virtualTime t - virtualTimeAtSimulationStart t)\<rparr>"

definition Timers_setLastRealTime :: "int \<Rightarrow> timers \<Rightarrow> timers" where
  [vex_defs]: "Timers_setLastRealTime v t = t\<lparr>lastRealTime := v\<rparr>"

definition Timers_setLocalTime :: "int \<Rightarrow> timers \<Rightarrow> timers" where
  [vex_defs]: "Timers_setLocalTime v t = t\<lparr>localTimeSinceLastResume := v\<rparr>"

definition Timers_setResumedLastAt :: "int \<Rightarrow> timers \<Rightarrow> timers" where
  [vex_defs]: "Timers_setResumedLastAt v t = t\<lparr>resumedLastAt := v\<rparr>"

definition Timers_updateLastResumedTo :: "int \<Rightarrow> timers \<Rightarrow> timers" where
  [vex_defs]: "Timers_updateLastResumedTo realHandlerTime t =
     t\<lparr>lastTimeInHandler := estimatedRealTime t, lastRealTimeInHandler := realHandlerTime\<rparr>"

definition Timers_updateTimesAfterResuming :: "int \<Rightarrow> int \<Rightarrow> timers \<Rightarrow> timers" where
  "Timers_updateTimesAfterResuming resumingVirtualTime rt t =
     (let r = (if dontUpdateToGlobalTime t then estimatedRealTime t else resumingVirtualTime)
      in t\<lparr>resumedLastAt := r, resumedLastAtReal := rt, lastTimeInHandler := r,
           lastRealTimeInHandler := rt, localTimeSinceLastResume := 0\<rparr>)"

definition Timers_setLastTimePerStateERT :: "int \<Rightarrow> timers \<Rightarrow> timers" where
  [vex_defs]: "Timers_setLastTimePerStateERT v t = t\<lparr>lastTimePerStateERT := v\<rparr>"

definition Timers_logStartingVirtualTime :: "timers \<Rightarrow> timers" where
  [vex_defs]: "Timers_logStartingVirtualTime t = t\<lparr>virtualTimeAtSimulationStart := virtualTime t\<rparr>"

definition Timers_updateIoWaitingTimeFrom :: "int \<Rightarrow> int \<Rightarrow> timers \<Rightarrow> timers" where
  "Timers_updateIoWaitingTimeFrom startingWaiting actualIoDuration t =
     (let leap = estimatedRealTime t - startingWaiting
      in if leap > 0
         then if leap > actualIoDuration
              then t\<lparr>ioWaitingTime := ioWaitingTime t + actualIoDuration\<rparr>
              else t\<lparr>ioWaitingTime := ioWaitingTime t + leap\<rparr>
         else t)"

definition Timers_updateWaitingTimeFrom :: "int \<Rightarrow> timers \<Rightarrow> timers" where
  "Timers_updateWaitingTimeFrom startingWaiting t =
     (let leap = estimatedRealTime t - startingWaiting
      in if leap > 0 then t\<lparr>monitorWaitingTime := monitorWaitingTime t + leap\<rparr> else t)"

definition Timers_setDontUpdateToGlobalTime :: "bool \<Rightarrow> timers \<Rightarrow> timers" where
  [vex_defs]: "Timers_setDontUpdateToGlobalTime v t = t\<lparr>dontUpdateToGlobalTime := v\<rparr>"

definition Timers_setTimeScalingFactor :: "rat \<Rightarrow> timers \<Rightarrow> timers" where
  [vex_defs]: "Timers_setTimeScalingFactor v t = t\<lparr>virtualTimeSpeedup := v\<rparr>"

definition Timers_setGlobalScalingFactor :: "rat \<Rightarrow> rat \<Rightarrow> rat" where
  "Timers_setGlobalScalingFactor new g = (if new > 0 then new else g)"

definition Timers_setTimeout :: "int \<Rightarrow> timers \<Rightarrow> timers" where
  [vex_defs]: "Timers_setTimeout v t = t\<lparr>timeout := v\<rparr>"

definition Timers_setTimeoutFlagToDenotePossiblyResumingThread :: "timers \<Rightarrow> timers" where
  [vex_defs]: "Timers_setTimeoutFlagToDenotePossiblyResumingThread t =
     t\<lparr>timeout := 0,
       threadStillBlocked := MAXIMUM_CONSECUTIVE_TIMESLICES_AS_BLOCKED_IN_MONITOR\<rparr>"

definition Timers_rollbackFromTimeOutValue :: "timers \<Rightarrow> timers" where
  [vex_defs]: "Timers_rollbackFromTimeOutValue t =
     t\<lparr>estimatedRealTime := estimatedRealTime t - timeout t, timeout := -1\<rparr>"

definition Timers_getCurrentVirtualTimestampOfRunningThread :: "timers \<Rightarrow> int" where
  [vex_defs]: "Timers_getCurrentVirtualTimestampOfRunningThread t =
     resumedLastAt t + localTimeSinceLastResume t"

definition Timers_getCurrentTimeDifferenceFromLastUpdatedRealTime :: "int \<Rightarrow> timers \<Rightarrow> int" where
  [vex_defs]: "Timers_getCurrentTimeDifferenceFromLastUpdatedRealTime rt t = rt - lastRealTime t"

definition Timers_maximumPossibleIoTimeExpired :: "int \<Rightarrow> timers \<Rightarrow> bool" where
  "Timers_maximumPossibleIoTimeExpired rt t =
     (Timers_getCurrentTimeDifferenceFromLastUpdatedRealTime rt t > 500000000)"

definition Timers_setBlockingTimeToLastResumedTime :: "timers \<Rightarrow> timers" where
  "Timers_setBlockingTimeToLastResumedTime t =
     t\<lparr>estimatedRealTime := resumedLastAt t, resumedLastAt := estimatedRealTime t\<rparr>"

definition Timers_unsetBlockingTimeToLastResumedTime :: "timers \<Rightarrow> timers" where
  "Timers_unsetBlockingTimeToLastResumedTime t =
     t\<lparr>estimatedRealTime := resumedLastAt t, resumedLastAt := estimatedRealTime t\<rparr>"

definition Timers_isThreadStillBlockedInMonitor :: "timers \<Rightarrow> timers \<times> bool" where
  "Timers_isThreadStillBlockedInMonitor t =
     (if timeout t = 0
      then (t\<lparr>threadStillBlocked := threadStillBlocked t - 1\<rparr>, threadStillBlocked t > 0)
      else (t, False))"


section \<open>Operations of Timers.cpp\<close>

text \<open>\<open>log10\<close> is the double precision function of the C library.\<close>

definition Timers_hasTimeoutExpiredInRealTime ::
  "(rat \<Rightarrow> rat) \<Rightarrow> int \<Rightarrow> int \<Rightarrow> int \<Rightarrow> timers \<Rightarrow> bool" where
  "Timers_hasTimeoutExpiredInRealTime log10 rt minimumMaybeAliveTime remainingTimeToExpireTimeout t =
     (if timeout t \<le> 0 then True
      else let difference = estimatedRealTime t - minimumMaybeAliveTime
        in if difference < 0 then True
           else let factor = (if difference > 100000000
                              then f64 (f64 (100 * log10 (f64 (of_int difference))) - 7)
                              else 1)
             in f64 (of_int (Timers_getCurrentTimeDifferenceFromLastUpdatedRealTime rt t))
                  > f64 (factor * f64 (of_int remainingTimeToExpireTimeout)))"

text \<open>\<open>a \<ge> n / d\<close> on floats; \<open>n / 0\<close> is an infinity of the sign of \<open>n\<close>, or NaN.\<close>

definition float_ge_div :: "rat \<Rightarrow> rat \<Rightarrow> rat \<Rightarrow> bool" where
  "float_ge_div a n d = (if d = 0 then n < 0 else a \<ge> f32 (n / d))"

text \<open>\<open>(long long)(n / d)\<close>; the conversion of an infinity or NaN is \<open>LLONG_MIN\<close>.\<close>

definition ll_of_div :: "rat \<Rightarrow> rat \<Rightarrow> int" where
  "ll_of_div n d = (if d = 0 then LLONG_MIN else ll_of_float (f32 (n / d)))"

definition Timers_updateTimesBeforeWaitingWithTimeout :: "rat \<Rightarrow> int \<Rightarrow> timers \<Rightarrow> timers" where
  "Timers_updateTimesBeforeWaitingWithTimeout g to t =
     (let t1 = t\<lparr>timeout := to\<rparr>
      in if to = 0
         then t1\<lparr>threadStillBlocked := MAXIMUM_CONSECUTIVE_TIMESLICES_AS_BLOCKED_IN_MONITOR\<rparr>
         else if float_ge_div (f32 (of_int to)) (f32 (of_int (LONG_MAX - estimatedRealTime t)))
                   (f32 (virtualTimeSpeedup t * g))
              then t1\<lparr>estimatedRealTime := LONG_MAX\<rparr>
              else t1\<lparr>estimatedRealTime :=
                     ll_of_float (f32 (f32 (of_int (estimatedRealTime t)) + scale_float g t to))\<rparr>)"

definition Timers_updateThreadLocalTimeSinceLastResumeTo :: "rat \<Rightarrow> int \<Rightarrow> timers \<Rightarrow> timers" where
  "Timers_updateThreadLocalTimeSinceLastResumeTo g presetTime t =
     (let timeDiff = presetTime - lastCPUTime t
      in if timeDiff > 0 then Timers_addLocalTime g timeDiff t else t)"

definition Timers_updateThreadLocalTimeSinceLastResumeToRealTime :: "rat \<Rightarrow> int \<Rightarrow> timers \<Rightarrow> timers" where
  "Timers_updateThreadLocalTimeSinceLastResumeToRealTime g presetTime t =
     (let timeDiff = presetTime - lastRealTime t
      in if timeDiff > 0 then Timers_addLocalTime g timeDiff t else t)"

definition Timers_updateCurrentLocalTime :: "rat \<Rightarrow> int \<Rightarrow> timers \<Rightarrow> timers" where
  "Timers_updateCurrentLocalTime g cpu t = Timers_updateThreadLocalTimeSinceLastResumeTo g cpu t"

definition Timers_updateClocks :: "int \<Rightarrow> int \<Rightarrow> timers \<Rightarrow> timers \<times> int" where
  "Timers_updateClocks cpu rt t = (t\<lparr>lastCPUTime := cpu, lastRealTime := rt\<rparr>, cpu)"

definition Timers_updateRealTimeClock :: "int \<Rightarrow> timers \<Rightarrow> timers" where
  [vex_defs]: "Timers_updateRealTimeClock rt t = t\<lparr>lastRealTime := rt\<rparr>"

definition Timers_leapForwardBy :: "int \<Rightarrow> timers \<Rightarrow> timers \<times> int" where
  "Timers_leapForwardBy time t =
     (t\<lparr>estimatedRealTime := estimatedRealTime t + time\<rparr>, estimatedRealTime t + time)"

definition Timers_leapTo :: "int \<Rightarrow> timers \<Rightarrow> timers \<times> int" where
  "Timers_leapTo time t =
     (let t' = (if estimatedRealTime t < time then t\<lparr>estimatedRealTime := time\<rparr> else t)
      in (t', estimatedRealTime t'))"

definition Timers_getAndResetLocalTime :: "timers \<Rightarrow> timers \<times> int" where
  "Timers_getAndResetLocalTime t =
     (t\<lparr>localTimeSinceLastResume := 0\<rparr>, localTimeSinceLastResume t)"

definition Timers_getTimeDifferenceUntil :: "rat \<Rightarrow> int \<Rightarrow> timers \<Rightarrow> timers \<times> int" where
  "Timers_getTimeDifferenceUntil g startingTime t =
     (let (t', lt) = Timers_getAndResetLocalTime t
      in (t', ll_of_float (f32 (scale_float g t (startingTime - lastCPUTime t) + f32 (of_int lt)))))"

text \<open>CPU time the thread consumed since the signal handler last ran, without its scaling.\<close>

definition cpuTimeDifferenceSinceLastResume :: "rat \<Rightarrow> timers \<Rightarrow> int" where
  "cpuTimeDifferenceSinceLastResume g t =
     ll_of_div (f32 (of_int (estimatedRealTime t - lastTimeInHandler t))) (f32 (virtualTimeSpeedup t * g))"

definition Timers_getDifferenceBetweenCpuAndRealTimeSinceLastSignalling :: "rat \<Rightarrow> int \<Rightarrow> timers \<Rightarrow> int" where
  "Timers_getDifferenceBetweenCpuAndRealTimeSinceLastSignalling g realTime t =
     realTime - lastRealTimeInHandler t - cpuTimeDifferenceSinceLastResume g t"

definition Timers_doesTheDifferenceBetweenCpuAndRealTimeIndicateLackOfProgress ::
  "rat \<Rightarrow> int \<Rightarrow> rat \<Rightarrow> timers \<Rightarrow> bool" where
  "Timers_doesTheDifferenceBetweenCpuAndRealTimeIndicateLackOfProgress g realTime pct t =
     (f32 (of_int (cpuTimeDifferenceSinceLastResume g t))
        < f32 (pct * f32 (of_int (realTime - lastRealTimeInHandler t))))"

definition Timers_getDifferenceBetweenCpuAndRealTime :: "rat \<Rightarrow> int \<Rightarrow> rat \<Rightarrow> timers \<Rightarrow> int" where
  "Timers_getDifferenceBetweenCpuAndRealTime g realTime pct t =
     ll_of_float (f32 (f32 (pct * f32 (of_int (realTime - lastRealTimeInHandler t)))
                       - f32 (of_int (cpuTimeDifferenceSinceLastResume g t))))"

section \<open>Properties\<close>

lemmas timers_ops = Timers_leapForwardTo_def Timers_leapToGlobalTime_def Timers_addElapsedTime_def
  Timers_addGlobalTime_def Timers_leapForwardBy_def Timers_leapTo_def Timers_getAndResetLocalTime_def
  Timers_updateIoWaitingTimeFrom_def Timers_updateWaitingTimeFrom_def
  Timers_updateTimesAfterResuming_def Timers_updateClocks_def

text \<open>The estimated real time never moves backwards under the leaping operations.\<close>

lemma leapForwardTo_ert [simp]:
  "estimatedRealTime (Timers_leapForwardTo c t) = max (estimatedRealTime t) c"
  by (simp add: Timers_leapForwardTo_def)

lemma leapTo_ert [simp]: "estimatedRealTime (fst (Timers_leapTo c t)) = max (estimatedRealTime t) c"
  by (simp add: Timers_leapTo_def)

lemma leapTo_leapForwardTo: "fst (Timers_leapTo c t) = Timers_leapForwardTo c t"
  by (simp add: Timers_leapTo_def Timers_leapForwardTo_def)

lemma leapForwardTo_frame [simp]:
  "resumedLastAt (Timers_leapForwardTo c t) = resumedLastAt t"
  "localTimeSinceLastResume (Timers_leapForwardTo c t) = localTimeSinceLastResume t"
  "virtualTime (Timers_leapForwardTo c t) = virtualTime t"
  "ioWaitingTime (Timers_leapForwardTo c t) = ioWaitingTime t"
  "monitorWaitingTime (Timers_leapForwardTo c t) = monitorWaitingTime t"
  "timeout (Timers_leapForwardTo c t) = timeout t"
  "dontUpdateToGlobalTime (Timers_leapForwardTo c t) = dontUpdateToGlobalTime t"
  by (simp_all add: Timers_leapForwardTo_def)

lemma updateIoWaitingTimeFrom_frame [simp]:
  "estimatedRealTime (Timers_updateIoWaitingTimeFrom s d t) = estimatedRealTime t"
  "resumedLastAt (Timers_updateIoWaitingTimeFrom s d t) = resumedLastAt t"
  "localTimeSinceLastResume (Timers_updateIoWaitingTimeFrom s d t) = localTimeSinceLastResume t"
  "monitorWaitingTime (Timers_updateIoWaitingTimeFrom s d t) = monitorWaitingTime t"
  by (simp_all add: Timers_updateIoWaitingTimeFrom_def Let_def)

lemma updateWaitingTimeFrom_frame [simp]:
  "estimatedRealTime (Timers_updateWaitingTimeFrom s t) = estimatedRealTime t"
  "resumedLastAt (Timers_updateWaitingTimeFrom s t) = resumedLastAt t"
  "localTimeSinceLastResume (Timers_updateWaitingTimeFrom s t) = localTimeSinceLastResume t"
  "ioWaitingTime (Timers_updateWaitingTimeFrom s t) = ioWaitingTime t"
  by (simp_all add: Timers_updateWaitingTimeFrom_def Let_def)

lemma updateWaitingTimeFrom_waiting [simp]:
  "monitorWaitingTime (Timers_updateWaitingTimeFrom s t) =
     monitorWaitingTime t + max 0 (estimatedRealTime t - s)"
  by (simp add: Timers_updateWaitingTimeFrom_def Let_def)

text \<open>The I/O waiting time grows by the leap, bounded by the measured duration.\<close>

lemma updateIoWaitingTimeFrom_waiting:
  "0 \<le> d \<Longrightarrow> ioWaitingTime (Timers_updateIoWaitingTimeFrom s d t) =
     ioWaitingTime t + max 0 (min (estimatedRealTime t - s) d)"
  by (simp add: Timers_updateIoWaitingTimeFrom_def Let_def)

text \<open>Time accounting: \<open>addLocalTime\<close> moves the three clocks by the same amount.\<close>

definition timeAdded :: "rat \<Rightarrow> timers \<Rightarrow> int \<Rightarrow> int" where
  "timeAdded g t d = ll_of_float (scale_float g t d)"

lemma addLocalTime_eq:
  "Timers_addLocalTime g d t =
     t\<lparr>virtualTime := virtualTime t + timeAdded g t d,
       estimatedRealTime := estimatedRealTime t + timeAdded g t d,
       localTimeSinceLastResume := localTimeSinceLastResume t + timeAdded g t d\<rparr>"
  by (simp add: Timers_addLocalTime_def Timers_addElapsedTime_def timeAdded_def Let_def)

lemma scale_float_nonneg:
  "0 \<le> d \<Longrightarrow> 0 \<le> virtualTimeSpeedup t \<Longrightarrow> 0 \<le> g \<Longrightarrow> 0 \<le> scale_float g t d"
  unfolding scale_float_def by (intro fl_nonneg mult_nonneg_nonneg) simp_all

lemma scale_float_unscaled:
  assumes "\<bar>d\<bar> < 2 ^ 24" and "virtualTimeSpeedup t = 1"
  shows "scale_float 1 t d = of_int d"
  using fl_of_int [OF assms(1)] by (simp add: scale_float_def assms(2))

lemma ll_of_float_small: "\<bar>n\<bar> < 2 ^ 24 \<Longrightarrow> ll_of_float (of_int n) = n"
  by (simp add: ll_of_float_def LLONG_MIN_def LLONG_MAX_def abs_less_iff Let_def)

lemma timeAdded_unscaled:
  "\<bar>d\<bar> < 2 ^ 24 \<Longrightarrow> virtualTimeSpeedup t = 1 \<Longrightarrow> timeAdded 1 t d = d"
  by (simp add: timeAdded_def scale_float_unscaled ll_of_float_small)

lemma swap_blocking_time:
  "Timers_unsetBlockingTimeToLastResumedTime (Timers_setBlockingTimeToLastResumedTime t) = t"
  by (simp add: Timers_setBlockingTimeToLastResumedTime_def Timers_unsetBlockingTimeToLastResumedTime_def)


text \<open>
  A running thread's timestamp is consistent when its estimated real time is the time of its
  last resumption plus the local time it has accumulated since.
\<close>

definition timestamp_consistent :: "timers \<Rightarrow> bool" where
  "timestamp_consistent t \<longleftrightarrow>
     estimatedRealTime t = Timers_getCurrentVirtualTimestampOfRunningThread t"

lemma addLocalTime_consistent:
  "timestamp_consistent (Timers_addLocalTime g d t) \<longleftrightarrow> timestamp_consistent t"
  by (auto simp: timestamp_consistent_def addLocalTime_eq vex_defs)

lemma addLocalTime_lastCPUTime [simp]: "lastCPUTime (Timers_addLocalTime g d t) = lastCPUTime t"
  by (simp add: addLocalTime_eq)


text \<open>A concrete thread, for witnesses.\<close>

definition example_timers :: timers where
  "example_timers =
     \<lparr>virtualTime = 0, estimatedRealTime = 0, lastCPUTime = 0, lastRealTime = 0,
      localTimeSinceLastResume = 0, resumedLastAt = 0, resumedLastAtReal = 0,
      lastTimeInHandler = 0, lastRealTimeInHandler = 0, lastTimePerStateERT = 0,
      virtualTimeAtSimulationStart = 0, ioWaitingTime = 0, monitorWaitingTime = 0,
      dontUpdateToGlobalTime = False, virtualTimeSpeedup = 1, timeout = -1,
      threadStillBlocked = 0\<rparr>"


text \<open>
  C40. Precision of time scaling: the time that \<open>addLocalTime\<close> computes in single precision,
  before its conversion to \<open>long long\<close>, differs from the exact product of the measured time
  and the two factors by at most the relative error of three roundings.
\<close>

theorem scaled_time_relative_error:
  "\<bar>scale_float g t d - of_int d * virtualTimeSpeedup t * g\<bar>
     \<le> ((1 + 1 / 2 ^ 24) ^ 3 - 1) * \<bar>of_int d * virtualTimeSpeedup t * g\<bar>"
proof -
  define u :: rat where "u = 1 / 2 ^ 24"
  have rnd: "\<bar>f32 y - z\<bar> \<le> ((1 + u) * (1 + k) - 1) * \<bar>z\<bar>"
    if "\<bar>y - z\<bar> \<le> k * \<bar>z\<bar>" for y z k
  proof -
    have "\<bar>y\<bar> \<le> (1 + k) * \<bar>z\<bar>" using that by (simp add: algebra_simps)
    then have "u * \<bar>y\<bar> \<le> u * ((1 + k) * \<bar>z\<bar>)" by (intro mult_left_mono) (simp_all add: u_def)
    moreover have "\<bar>f32 y - y\<bar> \<le> u * \<bar>y\<bar>" using fl_relative_error [of 24 y] by (simp add: u_def)
    ultimately have "\<bar>f32 y - z\<bar> \<le> u * ((1 + k) * \<bar>z\<bar>) + k * \<bar>z\<bar>" using that by linarith
    then show ?thesis by (simp add: algebra_simps)
  qed
  have scale: "\<bar>y * c - z * c\<bar> \<le> k * \<bar>z * c\<bar>" if "\<bar>y - z\<bar> \<le> k * \<bar>z\<bar>" for y z c k :: rat
    using mult_right_mono [OF that abs_ge_zero [of c]]
    by (simp add: abs_mult flip: left_diff_distrib mult.assoc)
  have "\<bar>f32 (of_int d) - of_int d\<bar> \<le> ((1 + u) * (1 + 0) - 1) * \<bar>of_int d\<bar>"
    by (rule rnd) simp
  from rnd [OF scale [OF rnd [OF scale [OF this]]]]
  show ?thesis
    by (simp add: scale_float_def u_def power3_eq_cube mult.assoc)
qed

text \<open>
  Exactness: without acceleration (both factors 1) every time difference below \<open>2 ^ 24\<close>
  nanoseconds is added to the virtual time, the estimated real time and the local time as it is.
\<close>

theorem addLocalTime_exact_below_2_24:
  assumes "0 \<le> d" and "d < 2 ^ 24" and "virtualTimeSpeedup t = 1"
  shows "Timers_addLocalTime 1 d t =
     t\<lparr>virtualTime := virtualTime t + d, estimatedRealTime := estimatedRealTime t + d,
       localTimeSinceLastResume := localTimeSinceLastResume t + d\<rparr>"
  using assms by (simp add: addLocalTime_eq timeAdded_unscaled)

theorem addLocalTime_exact_below_2_24_witness:
  "Timers_addLocalTime 1 16777215 example_timers =
     example_timers\<lparr>virtualTime := 16777215, estimatedRealTime := 16777215,
       localTimeSinceLastResume := 16777215\<rparr>"
  using addLocalTime_exact_below_2_24 [of 16777215 example_timers] by (simp add: example_timers_def)

text \<open>
  The bound is sharp: with both factors 1 a measured difference of \<open>2 ^ 24 + 1\<close> ns (16.8 ms)
  is added as \<open>2 ^ 24\<close> ns. The nanosecond is lost, because \<open>timeDiff * virtualTimeSpeedup\<close>
  is a single precision product.
\<close>

theorem addLocalTime_loses_time:
  "localTimeSinceLastResume (Timers_addLocalTime 1 16777217 example_timers) = 16777216"
  by code_simp

text \<open>
  A timed wait can move the estimated real time backwards: at \<open>2 ^ 24 + 1\<close> ns, waiting with
  a timeout of 1 ns and no acceleration leaves the timestamp at \<open>2 ^ 24\<close> ns, since the compound
  assignment adds in single precision.
\<close>

theorem timed_wait_moves_time_backwards:
  "let t = example_timers\<lparr>estimatedRealTime := 16777217\<rparr>
   in estimatedRealTime (Timers_updateTimesBeforeWaitingWithTimeout 1 1 t) < estimatedRealTime t"
  by code_simp

text \<open>
  Within the exact range a timed wait advances the timestamp by its timeout: unscaled, with
  timestamp, timeout and sum below \<open>2 ^ 24\<close> ns, \<open>updateTimesBeforeWaitingWithTimeout\<close> stores the
  timeout and adds it; a zero timeout keeps the timestamp and arms the blocked counter.
\<close>

lemma far_from_LONG_MAX:
  assumes "0 < to" and "0 \<le> e" and "e + to < 2 ^ 24"
  shows "\<not> f32 (f32 (of_int (LONG_MAX - e))) \<le> f32 (of_int to)"
proof -
  let ?y = "of_int (LONG_MAX - e) :: rat"
  have y: "2 ^ 27 \<le> ?y"
    using assms of_int_le_iff [where 'a = rat, of "2 ^ 27" "LONG_MAX - e"]
    by (simp add: LONG_MAX_def LLONG_MAX_def)
  then have "?y / 2 \<le> f32 ?y" and "f32 ?y / 2 \<le> f32 (f32 ?y)"
    by (intro fl_ge_half fl_nonneg; simp)+
  with y have "2 ^ 25 \<le> f32 (f32 ?y)"
    by simp
  moreover have "f32 (of_int to) = of_int to"
    using assms by (intro fl_of_int) simp
  moreover have "(of_int to :: rat) < of_int (2 ^ 24)"
    using assms unfolding of_int_less_iff by simp
  ultimately show ?thesis
    by simp
qed

theorem timed_wait_exact:
  assumes "0 \<le> to" and "0 \<le> estimatedRealTime t" and "estimatedRealTime t + to < 2 ^ 24"
    and "virtualTimeSpeedup t = 1"
  shows "timeout (Timers_updateTimesBeforeWaitingWithTimeout 1 to t) = to \<and>
     estimatedRealTime (Timers_updateTimesBeforeWaitingWithTimeout 1 to t) = estimatedRealTime t + to"
proof -
  have one: "f32 (1::rat) = 1"
    using fl_of_int [of 1 24] by simp
  have s: "scale_float 1 t to = of_int to" and e: "f32 (of_int (estimatedRealTime t)) = of_int (estimatedRealTime t)"
    using assms by (simp_all add: scale_float_unscaled fl_of_int)
  have sum: "f32 (of_int (estimatedRealTime t) + of_int to) = of_int (estimatedRealTime t + to)"
    using fl_of_int [of "estimatedRealTime t + to" 24] assms by simp
  have "timeout (Timers_updateTimesBeforeWaitingWithTimeout 1 to t) = to"
    by (simp add: Timers_updateTimesBeforeWaitingWithTimeout_def Let_def)
  moreover have "estimatedRealTime (Timers_updateTimesBeforeWaitingWithTimeout 1 to t) = estimatedRealTime t + to"
    using assms far_from_LONG_MAX [of to "estimatedRealTime t"] one
      ll_of_float_small [of "estimatedRealTime t + to"]
    by (simp add: Timers_updateTimesBeforeWaitingWithTimeout_def Let_def float_ge_div_def s e sum)
  ultimately show ?thesis by blast
qed

theorem timed_wait_exact_witness:
  "timeout (Timers_updateTimesBeforeWaitingWithTimeout 1 5000 example_timers) = 5000 \<and>
   estimatedRealTime (Timers_updateTimesBeforeWaitingWithTimeout 1 5000 example_timers) = 5000"
  using timed_wait_exact [of 5000 example_timers] by (simp add: example_timers_def)

text \<open>
  The timeout of a blocking I/O operation is charged and rolled back exactly:
  \<open>rollbackFromTimeOutValue\<close> after \<open>leapForwardBy(getTimeout())\<close> restores the timestamp and
  clears the timeout.
\<close>

theorem rollback_undoes_timeout_leap:
  "Timers_rollbackFromTimeOutValue (fst (Timers_leapForwardBy (timeout t) t)) = t\<lparr>timeout := -1\<rparr>"
  by (simp add: Timers_leapForwardBy_def vex_defs)

end
