(* ===== verification/Vex_Statistics.thy ===== *)
theory Vex_Statistics
  imports Vex_Prelude "HOL-Library.Word"
begin

text \<open>
  Thread state codes (\<open>src/src/vex/Constants.h\<close>), the per-thread transition statistics
  (\<open>threads/Statistics.h\<close>, \<open>Statistics.cpp\<close>) and their aggregation over threads
  (\<open>threads/AggregateStateCounters.cpp\<close>).

  The two-dimensional array \<open>unsigned int StateTransitionMatrix[25][25]\<close> is a function of two state
  codes with values in \<open>32 word\<close>; \<open>code_number_bounds\<close> shows that every code is a valid index.
\<close>

section \<open>State codes\<close>

datatype Code =
    UNKNOWN_STATE | RUNNING | WAITING | SUSPENDED | LEARNING_IO | IN_IO | TIMED_WAITING
  | IN_NATIVE | IN_MODEL | REGISTERING | SUSPENDED_SELF | NATIVE_WAITING | IN_IO_STALE
  | NATIVE_IO_WAITING | IN_IO_INVALIDATION | RECOVERED_AFTER_FAILED_IO | AWAKING_FROM_WAITING
  | WAITING_INTERNAL_SOCKET_READ | VEX_ZOMBIE | CUSTOM1 | CUSTOM2 | CUSTOM3
  | IN_MODEL_WAITING | AFTER_MODEL_SIM_WAITING_FOR_REAL_CODE | IN_SYSTEM_CALL

definition all_codes :: "Code list" where
  "all_codes =
     [UNKNOWN_STATE, RUNNING, WAITING, SUSPENDED, LEARNING_IO, IN_IO, TIMED_WAITING, IN_NATIVE,
      IN_MODEL, REGISTERING, SUSPENDED_SELF, NATIVE_WAITING, IN_IO_STALE, NATIVE_IO_WAITING,
      IN_IO_INVALIDATION, RECOVERED_AFTER_FAILED_IO, AWAKING_FROM_WAITING,
      WAITING_INTERNAL_SOCKET_READ, VEX_ZOMBIE, CUSTOM1, CUSTOM2, CUSTOM3, IN_MODEL_WAITING,
      AFTER_MODEL_SIM_WAITING_FOR_REAL_CODE, IN_SYSTEM_CALL]"

fun code_number :: "Code \<Rightarrow> nat" where
  "code_number UNKNOWN_STATE = 0"
| "code_number RUNNING = 1"
| "code_number WAITING = 2"
| "code_number SUSPENDED = 3"
| "code_number LEARNING_IO = 4"
| "code_number IN_IO = 5"
| "code_number TIMED_WAITING = 6"
| "code_number IN_NATIVE = 7"
| "code_number IN_MODEL = 8"
| "code_number REGISTERING = 9"
| "code_number SUSPENDED_SELF = 10"
| "code_number NATIVE_WAITING = 11"
| "code_number IN_IO_STALE = 12"
| "code_number NATIVE_IO_WAITING = 13"
| "code_number IN_IO_INVALIDATION = 14"
| "code_number RECOVERED_AFTER_FAILED_IO = 15"
| "code_number AWAKING_FROM_WAITING = 16"
| "code_number WAITING_INTERNAL_SOCKET_READ = 17"
| "code_number VEX_ZOMBIE = 18"
| "code_number CUSTOM1 = 19"
| "code_number CUSTOM2 = 20"
| "code_number CUSTOM3 = 21"
| "code_number IN_MODEL_WAITING = 22"
| "code_number AFTER_MODEL_SIM_WAITING_FOR_REAL_CODE = 23"
| "code_number IN_SYSTEM_CALL = 24"

definition POSSIBLE_THREADSTATES :: nat where
  "POSSIBLE_THREADSTATES = 25"

section \<open>Statistics\<close>

record statistics =
  totalTimePerState :: "Code \<Rightarrow> int"
  invocationPoints :: "64 word"
  stateTransitions :: "Code \<Rightarrow> Code \<Rightarrow> 32 word"

definition Statistics_clearTransitionCounters :: "statistics \<Rightarrow> statistics" where
  "Statistics_clearTransitionCounters st =
     st\<lparr>stateTransitions := (\<lambda>i j. 0), totalTimePerState := (\<lambda>i. 0)\<rparr>"

definition Statistics_Statistics :: statistics where
  "Statistics_Statistics = Statistics_clearTransitionCounters
     \<lparr>totalTimePerState = (\<lambda>i. 0), invocationPoints = 0, stateTransitions = (\<lambda>i j. 0)\<rparr>"

definition Statistics_logTransition :: "Code \<Rightarrow> Code \<Rightarrow> statistics \<Rightarrow> statistics" where
  "Statistics_logTransition cur nxt st =
     st\<lparr>stateTransitions := (stateTransitions st)(cur := (stateTransitions st cur)
                               (nxt := stateTransitions st cur nxt + 1))\<rparr>"

definition Statistics_logTransition_duration :: "Code \<Rightarrow> Code \<Rightarrow> int \<Rightarrow> statistics \<Rightarrow> statistics" where
  "Statistics_logTransition_duration cur nxt duration st =
     Statistics_logTransition cur nxt
       (st\<lparr>totalTimePerState := (totalTimePerState st)(cur := totalTimePerState st cur + duration)\<rparr>)"

definition Statistics_setInvocationPoints :: "64 word \<Rightarrow> statistics \<Rightarrow> statistics" where
  [vex_defs]: "Statistics_setInvocationPoints points st = st\<lparr>invocationPoints := points\<rparr>"

definition Statistics_addInvocationPoints :: "statistics \<Rightarrow> statistics" where
  [vex_defs]: "Statistics_addInvocationPoints st = st\<lparr>invocationPoints := invocationPoints st + 1\<rparr>"

section \<open>Aggregation\<close>

record aggregate =
  totalInvocationPoints :: "64 word"
  aggregateStateTransitions :: "Code \<Rightarrow> Code \<Rightarrow> 32 word"
  aggregateTotalTimePerState :: "Code \<Rightarrow> int"

definition AggregateStateCounters_AggregateStateCounters :: aggregate where
  "AggregateStateCounters_AggregateStateCounters =
     \<lparr>totalInvocationPoints = 0, aggregateStateTransitions = (\<lambda>i j. 0),
      aggregateTotalTimePerState = (\<lambda>i. 0)\<rparr>"

definition AggregateStateCounters_addTransitionsOf :: "statistics \<Rightarrow> aggregate \<Rightarrow> aggregate" where
  "AggregateStateCounters_addTransitionsOf st ag =
     \<lparr>totalInvocationPoints = totalInvocationPoints ag + invocationPoints st,
      aggregateStateTransitions = (\<lambda>i j. aggregateStateTransitions ag i j + stateTransitions st i j),
      aggregateTotalTimePerState = (\<lambda>i. aggregateTotalTimePerState ag i + totalTimePerState st i)\<rparr>"

definition AggregateStateCounters_clear :: "aggregate \<Rightarrow> aggregate" where
  "AggregateStateCounters_clear ag =
     ag\<lparr>aggregateStateTransitions := (\<lambda>i j. 0), aggregateTotalTimePerState := (\<lambda>i. 0)\<rparr>"

text \<open>The columns of the printed table: how often each state was entered, and the percentage
  of time spent in it (\<open>totalTimeInAllStates\<close> starts at 1).\<close>

definition totalOccurencesPerState :: "aggregate \<Rightarrow> Code \<Rightarrow> 32 word" where
  "totalOccurencesPerState ag i = sum_list (map (\<lambda>j. aggregateStateTransitions ag j i) all_codes)"

definition totalTimeInAllStates :: "aggregate \<Rightarrow> int" where
  "totalTimeInAllStates ag = 1 + sum_list (map (aggregateTotalTimePerState ag) all_codes)"

definition timePercentPerState :: "aggregate \<Rightarrow> Code \<Rightarrow> int" where
  "timePercentPerState ag i =
     (let n = 100 * aggregateTotalTimePerState ag i; d = totalTimeInAllStates ag
      in sgn n * sgn d * (\<bar>n\<bar> div \<bar>d\<bar>))"

section \<open>Lemmas\<close>

lemma set_all_codes: "set all_codes = UNIV"
proof -
  have "c \<in> set all_codes" for c
    by (cases c) (simp_all add: all_codes_def)
  then show ?thesis by blast
qed

lemma distinct_all_codes: "distinct all_codes"
  by (simp add: all_codes_def)

text \<open>Every state code is an index of the arrays of \<open>POSSIBLE_THREADSTATES\<close> entries, and
  distinct codes are distinct indices.\<close>

lemma code_number_bounds: "code_number c < POSSIBLE_THREADSTATES"
  by (cases c) (simp_all add: POSSIBLE_THREADSTATES_def)

lemma code_number_all: "map code_number all_codes = [0..<POSSIBLE_THREADSTATES]"
  by (simp add: all_codes_def POSSIBLE_THREADSTATES_def upt_rec)

lemma code_number_inj: "code_number a = code_number b \<Longrightarrow> a = b"
proof -
  assume eq: "code_number a = code_number b"
  have "distinct (map code_number all_codes)"
    by (simp add: code_number_all)
  then have "inj_on code_number (set all_codes)"
    by (simp add: distinct_map)
  with eq show ?thesis
    by (simp add: set_all_codes inj_on_def)
qed

instantiation Code :: linorder
begin

definition less_eq_Code :: "Code \<Rightarrow> Code \<Rightarrow> bool" where
  "less_eq_Code a b \<longleftrightarrow> code_number a \<le> code_number b"

definition less_Code :: "Code \<Rightarrow> Code \<Rightarrow> bool" where
  "less_Code a b \<longleftrightarrow> code_number a < code_number b"

instance
  by intro_classes (auto simp: less_eq_Code_def less_Code_def intro: code_number_inj)

end

text \<open>A sum over all state codes in which one summand changes.\<close>

lemma sum_codes_upd:
  fixes f :: "Code \<Rightarrow> 'a::ab_group_add"
  shows "sum_list (map (f(c := f c + d)) all_codes) = sum_list (map f all_codes) + d"
proof -
  have "sum_list (map (f(c := f c + d)) xs) = sum_list (map f xs) + (if c \<in> set xs then d else 0)"
    if "distinct xs" for xs
    using that
  proof (induction xs)
    case (Cons x xs)
    then show ?case
      by (cases "c = x") (simp_all add: add.commute add.left_commute)
  qed simp
  from this [OF distinct_all_codes] show ?thesis
    by (simp add: set_all_codes)
qed

text \<open>How often a state was entered and left, according to the matrix.\<close>

definition entered :: "statistics \<Rightarrow> Code \<Rightarrow> 32 word" where
  "entered st s = sum_list (map (\<lambda>i. stateTransitions st i s) all_codes)"

definition left_count :: "statistics \<Rightarrow> Code \<Rightarrow> 32 word" where
  "left_count st s = sum_list (map (\<lambda>j. stateTransitions st s j) all_codes)"

lemma left_count_logTransition:
  "left_count (Statistics_logTransition cur nxt st) s =
     left_count st s + (if s = cur then 1 else 0)"
  using sum_codes_upd [of "stateTransitions st cur" nxt 1]
  by (simp add: left_count_def Statistics_logTransition_def fun_upd_def)

lemma entered_logTransition:
  "entered (Statistics_logTransition cur nxt st) s = entered st s + (if s = nxt then 1 else 0)"
proof (cases "s = nxt")
  case True
  have "(\<lambda>i. ((stateTransitions st)(cur := (stateTransitions st cur)
           (nxt := stateTransitions st cur nxt + 1))) i nxt)
      = (\<lambda>i. stateTransitions st i nxt)(cur := stateTransitions st cur nxt + 1)"
    by auto
  with True sum_codes_upd [of "\<lambda>i. stateTransitions st i nxt" cur 1] show ?thesis
    by (simp add: entered_def Statistics_logTransition_def)
next
  case False
  then have "(\<lambda>i. ((stateTransitions st)(cur := (stateTransitions st cur)
           (nxt := stateTransitions st cur nxt + 1))) i s) = (\<lambda>i. stateTransitions st i s)"
    by auto
  with False show ?thesis
    by (simp add: entered_def Statistics_logTransition_def)
qed

lemma logTransition_times [simp]:
  "totalTimePerState (Statistics_logTransition cur nxt st) = totalTimePerState st"
  by (simp add: Statistics_logTransition_def)

lemma time_conserved:
  "sum_list (map (totalTimePerState (Statistics_logTransition_duration cur nxt d st)) all_codes) =
   sum_list (map (totalTimePerState st) all_codes) + d"
  using sum_codes_upd [of "totalTimePerState st" cur d]
  by (simp add: Statistics_logTransition_duration_def)

lemma duration_flow [simp]:
  "entered (Statistics_logTransition_duration cur nxt d st) s = entered st s + (if s = nxt then 1 else 0)"
  "left_count (Statistics_logTransition_duration cur nxt d st) s = left_count st s + (if s = cur then 1 else 0)"
  unfolding Statistics_logTransition_duration_def entered_logTransition left_count_logTransition
  by (simp_all add: entered_def left_count_def)

text \<open>
  Aggregating the statistics of a list of threads adds up every cell: the aggregate of a run
  that registers the threads one by one holds, for every pair of states, the sum (modulo
  \<open>2 ^ 32\<close>) of the threads' transition counts, the sum of their times per state and the sum
  of their invocation points, whatever the order of the threads.
\<close>

theorem aggregate_sums:
  "fold AggregateStateCounters_addTransitionsOf sts AggregateStateCounters_AggregateStateCounters =
     \<lparr>totalInvocationPoints = sum_list (map invocationPoints sts),
      aggregateStateTransitions = (\<lambda>i j. sum_list (map (\<lambda>st. stateTransitions st i j) sts)),
      aggregateTotalTimePerState = (\<lambda>i. sum_list (map (\<lambda>st. totalTimePerState st i) sts))\<rparr>"
proof (induction sts rule: rev_induct)
  case Nil
  then show ?case
    by (simp add: AggregateStateCounters_AggregateStateCounters_def)
next
  case (snoc st sts)
  then show ?case
    by (simp add: AggregateStateCounters_addTransitionsOf_def)
qed

end
