(* ===== verification/Vex_Thread.thy ===== *)
theory Vex_Thread
  imports Vex_Timers Vex_Statistics
begin

text \<open>
  The state of a simulated thread: class \<open>VexThreadState\<close> (\<open>threads/ThreadState.h\<close>,
  \<open>ThreadState.cpp\<close>) with its parts \<open>Timers\<close>, \<open>Statistics\<close>, \<open>IoHandler\<close>
  (\<open>threads/IoHandler.h\<close>) and \<open>Scheduling\<close> (\<open>threads/Scheduling.h\<close>,
  \<open>Scheduling.cpp\<close>).

  A pointer to a \<open>ThreadManager\<close> is an optional manager number, \<open>None\<close> for \<open>NULL\<close>.
  The unsigned counters of \<open>IoHandler\<close> are machine words; \<open>long long\<close> products with an
  unsigned operand are computed modulo \<open>2 ^ 64\<close> and read back as signed.
\<close>

section \<open>IoHandler\<close>

record io_handler =
  timesIoPredictionWasAddedToEstimatedTime :: "64 word"
  stackDepth :: "32 word"
  ioInvocationPointHashValue :: int
  ioFinishedBeforeLogging :: bool
  lastIoPrediction :: int
  stackTraceHash :: int
  possiblyBlockingIo :: bool
  ignoringIo :: bool
  recognizingIoAsCached :: bool
  ioCpuTime :: int

text \<open>The constructor leaves \<open>possiblyBlockingIo\<close> and \<open>ioCpuTime\<close> uninitialised.\<close>

definition IoHandler_IoHandler :: "io_handler \<Rightarrow> io_handler" where
  "IoHandler_IoHandler raw =
     raw\<lparr>stackDepth := 0, ioInvocationPointHashValue := 0,
       timesIoPredictionWasAddedToEstimatedTime := 1, lastIoPrediction := 0, stackTraceHash := 0,
       ioFinishedBeforeLogging := False, ignoringIo := False, recognizingIoAsCached := False\<rparr>"

definition IoHandler_invalidIoInvocationPoint :: "int \<Rightarrow> io_handler \<Rightarrow> bool" where
  "IoHandler_invalidIoInvocationPoint hash io = (stackDepth io = 0 \<and> hash \<noteq> 1)"

definition IoHandler_addPredictionToEstimatedRealTime :: "io_handler \<Rightarrow> io_handler" where
  "IoHandler_addPredictionToEstimatedRealTime io =
     io\<lparr>timesIoPredictionWasAddedToEstimatedTime := 1\<rparr>"

definition IoHandler_ignoreNextIo :: "io_handler \<Rightarrow> io_handler" where
  [vex_defs]: "IoHandler_ignoreNextIo io = io\<lparr>ignoringIo := True\<rparr>"

definition IoHandler_recognizedCallAsCached :: "io_handler \<Rightarrow> io_handler" where
  [vex_defs]: "IoHandler_recognizedCallAsCached io = io\<lparr>recognizingIoAsCached := True\<rparr>"

definition IoHandler_resetIoStateFlags :: "io_handler \<Rightarrow> io_handler" where
  [vex_defs]: "IoHandler_resetIoStateFlags io = io\<lparr>recognizingIoAsCached := False, ignoringIo := False\<rparr>"

definition IoHandler_enteringMethod :: "int \<Rightarrow> io_handler \<Rightarrow> io_handler" where
  "IoHandler_enteringMethod methodId io =
     io\<lparr>stackDepth := stackDepth io + 1, stackTraceHash := stackTraceHash io + methodId\<rparr>"

definition IoHandler_exitingMethod :: "int \<Rightarrow> io_handler \<Rightarrow> io_handler" where
  "IoHandler_exitingMethod methodId io =
     io\<lparr>stackDepth := stackDepth io - 1, stackTraceHash := stackTraceHash io - methodId\<rparr>"

definition IoHandler_setIoPredictionInfo :: "int \<Rightarrow> io_handler \<Rightarrow> io_handler" where
  [vex_defs]: "IoHandler_setIoPredictionInfo prediction io = io\<lparr>lastIoPrediction := prediction\<rparr>"

definition IoHandler_notifyAboutPossiblyBlockingIo :: "bool \<Rightarrow> io_handler \<Rightarrow> io_handler" where
  [vex_defs]: "IoHandler_notifyAboutPossiblyBlockingIo b io = io\<lparr>possiblyBlockingIo := b\<rparr>"

definition IoHandler_extendPredictionPeriod :: "io_handler \<Rightarrow> io_handler \<times> int" where
  "IoHandler_extendPredictionPeriod io =
     (let n = 2 * timesIoPredictionWasAddedToEstimatedTime io
      in (io\<lparr>timesIoPredictionWasAddedToEstimatedTime := n\<rparr>,
          sint (n * word_of_int (lastIoPrediction io))))"

definition IoHandler_getTotalTimePredicted :: "io_handler \<Rightarrow> int" where
  "IoHandler_getTotalTimePredicted io =
     sint ((2 * timesIoPredictionWasAddedToEstimatedTime io - 1) * word_of_int (lastIoPrediction io))"

section \<open>Scheduling flags\<close>

datatype suspend_flag =
    CLEAR_SUSPENDFLAG | TO_BE_SUSPENDED | TO_KEEP_ON_RUNNING | TO_BE_DISREGARDED | RESUMING_SUSPENDFLAG

definition MAXIMUM_CONSECUTIVE_TIMESLICES_AS_NATIVE_WAITING :: int where
  "MAXIMUM_CONSECUTIVE_TIMESLICES_AS_NATIVE_WAITING = 5"

record scheduling =
  localManagerId :: nat
  threadCurrentlyControllingManager :: "nat option"
  previouslyControllingManager :: "nat option"
  forceSuspend :: bool
  schedInVex :: bool
  awakeningFromJoin :: bool
  suspendFlag :: suspend_flag
  vtfInvocationsSinceLastResume :: int
  waitingInNativeVTFcode :: int
  awaken :: bool
  simulatingModel :: bool
  currentlyPolledForWhetherItIsNativeWaiting :: bool
  consecutiveTimeslots :: nat
  consecutiveTimesFoundNativeWaiting :: int
  doNotSuspendUntil :: int

text \<open>The constructor leaves \<open>consecutiveTimesFoundNativeWaiting\<close> uninitialised.\<close>

definition Scheduling_Scheduling :: "scheduling \<Rightarrow> scheduling" where
  "Scheduling_Scheduling raw =
     raw\<lparr>suspendFlag := CLEAR_SUSPENDFLAG, awaken := False, vtfInvocationsSinceLastResume := 0,
       forceSuspend := True, localManagerId := 0, waitingInNativeVTFcode := 0,
       consecutiveTimeslots := 0, simulatingModel := False,
       threadCurrentlyControllingManager := None, previouslyControllingManager := None,
       schedInVex := False, currentlyPolledForWhetherItIsNativeWaiting := False,
       awakeningFromJoin := False, doNotSuspendUntil := 0\<rparr>"

definition Scheduling_isSuspendingAllowed :: "int \<Rightarrow> scheduling \<Rightarrow> bool" where
  "Scheduling_isSuspendingAllowed rt sc = (doNotSuspendUntil sc < rt)"

definition Scheduling_haltSuspendForAwhile :: "int \<Rightarrow> scheduling \<Rightarrow> scheduling" where
  "Scheduling_haltSuspendForAwhile rt sc = sc\<lparr>doNotSuspendUntil := rt + 3000000\<rparr>"

definition Scheduling_setAwaken :: "bool \<Rightarrow> scheduling \<Rightarrow> scheduling" where
  [vex_defs]: "Scheduling_setAwaken b sc = sc\<lparr>awaken := b\<rparr>"

definition Scheduling_onThreadResumeByManager :: "nat \<Rightarrow> scheduling \<Rightarrow> scheduling" where
  "Scheduling_onThreadResumeByManager managerId sc =
     sc\<lparr>awaken := True, vtfInvocationsSinceLastResume := 0, localManagerId := managerId,
       consecutiveTimeslots := 0\<rparr>"

definition Scheduling_setAwakeningFromJoin :: "bool \<Rightarrow> scheduling \<Rightarrow> scheduling" where
  [vex_defs]: "Scheduling_setAwakeningFromJoin b sc = sc\<lparr>awakeningFromJoin := b\<rparr>"

definition Scheduling_increaseVtfInvocationsSinceLastResume :: "scheduling \<Rightarrow> scheduling" where
  [vex_defs]: "Scheduling_increaseVtfInvocationsSinceLastResume sc =
     sc\<lparr>vtfInvocationsSinceLastResume := vtfInvocationsSinceLastResume sc + 1\<rparr>"

definition Scheduling_setThreadCurrentlyControllingManager :: "nat option \<Rightarrow> scheduling \<Rightarrow> scheduling" where
  [vex_defs]: "Scheduling_setThreadCurrentlyControllingManager m sc =
     sc\<lparr>threadCurrentlyControllingManager := m\<rparr>"

definition Scheduling_releaseThreadFromItsControllingManager :: "scheduling \<Rightarrow> scheduling" where
  "Scheduling_releaseThreadFromItsControllingManager sc =
     sc\<lparr>waitingInNativeVTFcode := 0,
       previouslyControllingManager := threadCurrentlyControllingManager sc,
       threadCurrentlyControllingManager := None,
       consecutiveTimesFoundNativeWaiting := MAXIMUM_CONSECUTIVE_TIMESLICES_AS_NATIVE_WAITING\<rparr>"

definition Scheduling_getAndResetForcedSuspendFlag :: "scheduling \<Rightarrow> scheduling \<times> bool" where
  "Scheduling_getAndResetForcedSuspendFlag sc = (sc\<lparr>forceSuspend := False\<rparr>, forceSuspend sc)"

definition Scheduling_forceThreadSuspend :: "scheduling \<Rightarrow> scheduling" where
  [vex_defs]: "Scheduling_forceThreadSuspend sc = sc\<lparr>forceSuspend := True\<rparr>"

section \<open>VexThreadState\<close>

record vex_thread =
  jthreadId :: int
  currentState :: Code
  previousState :: Code
  timedWaitingObjectId :: int
  timedOut :: bool
  waitingInRealTime :: bool
  alreadyUnparked :: bool
  parked :: bool
  afterInterruptedTimedParking :: bool
  inVex :: bool
  thr_timers :: timers
  ioHandler :: io_handler
  scheduling_of :: scheduling
  stats :: statistics

definition upd_timers :: "(timers \<Rightarrow> timers) \<Rightarrow> vex_thread \<Rightarrow> vex_thread" where
  "upd_timers f s = s\<lparr>thr_timers := f (thr_timers s)\<rparr>"

definition upd_sched :: "(scheduling \<Rightarrow> scheduling) \<Rightarrow> vex_thread \<Rightarrow> vex_thread" where
  "upd_sched f s = s\<lparr>scheduling_of := f (scheduling_of s)\<rparr>"

definition upd_io :: "(io_handler \<Rightarrow> io_handler) \<Rightarrow> vex_thread \<Rightarrow> vex_thread" where
  "upd_io f s = s\<lparr>ioHandler := f (ioHandler s)\<rparr>"

definition upd_stats :: "(statistics \<Rightarrow> statistics) \<Rightarrow> vex_thread \<Rightarrow> vex_thread" where
  "upd_stats f s = s\<lparr>stats := f (stats s)\<rparr>"

text \<open>\<open>init()\<close>; \<open>timedWaitingObjectId\<close> and \<open>inVex\<close> are left uninitialised.\<close>

definition VexThreadState_init :: "int \<Rightarrow> vex_thread \<Rightarrow> vex_thread" where
  "VexThreadState_init rt raw =
     raw\<lparr>currentState := REGISTERING, previousState := UNKNOWN_STATE, jthreadId := 0,
       thr_timers := Timers_Timers rt (thr_timers raw),
       ioHandler := IoHandler_IoHandler (ioHandler raw),
       scheduling_of := Scheduling_Scheduling (scheduling_of raw),
       stats := Statistics_Statistics,
       alreadyUnparked := False, parked := False, afterInterruptedTimedParking := False,
       waitingInRealTime := False, timedOut := True\<rparr>"

abbreviation ert :: "vex_thread \<Rightarrow> int" where
  "ert s \<equiv> estimatedRealTime (thr_timers s)"

subsection \<open>State predicates\<close>

definition isRegistering :: "vex_thread \<Rightarrow> bool" where
  "isRegistering s = (currentState s = REGISTERING)"

definition isSuspended :: "vex_thread \<Rightarrow> bool" where
  "isSuspended s = (currentState s = SUSPENDED)"

definition inIoLearningPhase :: "vex_thread \<Rightarrow> bool" where
  "inIoLearningPhase s = (currentState s = LEARNING_IO)"

definition inIoPredictionPhase :: "vex_thread \<Rightarrow> bool" where
  "inIoPredictionPhase s = (currentState s = IN_IO)"

definition isInAnyIo :: "vex_thread \<Rightarrow> bool" where
  "isInAnyIo s = (inIoLearningPhase s \<or> inIoPredictionPhase s)"

definition isDefinitelyActiveInIo :: "vex_thread \<Rightarrow> bool" where
  "isDefinitelyActiveInIo s = (isInAnyIo s \<and> \<not> possiblyBlockingIo (ioHandler s))"

definition isInPossiblyBlockingIo :: "vex_thread \<Rightarrow> bool" where
  "isInPossiblyBlockingIo s = (isInAnyIo s \<and> possiblyBlockingIo (ioHandler s))"

definition isNativeWaiting :: "vex_thread \<Rightarrow> bool" where
  "isNativeWaiting s = (currentState s = NATIVE_WAITING)"

definition isRunning :: "vex_thread \<Rightarrow> bool" where
  "isRunning s = (currentState s = RUNNING \<or> currentState s = IN_SYSTEM_CALL)"

definition isWaitingRealCodeToCompleteAfterModelSimulation :: "vex_thread \<Rightarrow> bool" where
  "isWaitingRealCodeToCompleteAfterModelSimulation s =
     (currentState s = AFTER_MODEL_SIM_WAITING_FOR_REAL_CODE)"

definition isSimulatingModel :: "vex_thread \<Rightarrow> bool" where
  "isSimulatingModel s = (currentState s = IN_MODEL \<or> currentState s = IN_MODEL_WAITING)"

definition isActiveInModel :: "vex_thread \<Rightarrow> bool" where
  "isActiveInModel s = (currentState s = IN_MODEL)"

definition isWaiting :: "vex_thread \<Rightarrow> bool" where
  "isWaiting s = (currentState s = WAITING)"

definition isTimedWaiting :: "vex_thread \<Rightarrow> bool" where
  "isTimedWaiting s =
     (if currentState s = WAITING \<and> timeout (thr_timers s) > 0 then True else False)"

definition isModelTimedWaiting :: "vex_thread \<Rightarrow> bool" where
  "isModelTimedWaiting s =
     (if currentState s = IN_MODEL \<and> timeout (thr_timers s) > 0 then True else False)"

definition isSomewhereInVex :: "vex_thread \<Rightarrow> bool" where
  "isSomewhereInVex s = (inVex s \<and> \<not> isWaiting s)"

definition isDefinitelyActive :: "vex_thread \<Rightarrow> bool" where
  "isDefinitelyActive s =
     (isDefinitelyActiveInIo s \<or> isRegistering s \<or> isSuspended s \<or> isRunning s
      \<or> awaken (scheduling_of s) \<or> awakeningFromJoin (scheduling_of s) \<or> isSomewhereInVex s)"

definition maybeActive :: "vex_thread \<Rightarrow> vex_thread \<times> bool" where
  "maybeActive s =
     (let (s1, blocked) =
            (if currentState s = WAITING
             then let (t, b) = Timers_isThreadStillBlockedInMonitor (thr_timers s)
                  in (s\<lparr>thr_timers := t\<rparr>, b)
             else (s, False))
      in (s1, blocked \<or> (isActiveInModel s1 \<and> timeout (thr_timers s1) = -1)))"

definition isInTransitionFromOneStateToTheNextBeforeVexKnowsAboutIt :: "vex_thread \<Rightarrow> bool" where
  "isInTransitionFromOneStateToTheNextBeforeVexKnowsAboutIt s =
     (awakeningFromJoin (scheduling_of s) \<or> isRegistering s \<or> awaken (scheduling_of s)
      \<or> isWaitingRealCodeToCompleteAfterModelSimulation s)"

definition isInTransitionFromOneStateToTheNextBeforeVexKnowsAboutIt2 :: "vex_thread \<Rightarrow> bool" where
  "isInTransitionFromOneStateToTheNextBeforeVexKnowsAboutIt2 s =
     (isRegistering s \<or> awaken (scheduling_of s) \<or> isWaitingRealCodeToCompleteAfterModelSimulation s
      \<or> isRunning s \<or> (isNativeWaiting s \<and> waitingInNativeVTFcode (scheduling_of s) \<noteq> 0)
      \<or> awakeningFromJoin (scheduling_of s))"

definition isBlocked :: "vex_thread \<Rightarrow> bool" where
  "isBlocked s =
     (currentState s = WAITING \<or> isNativeWaiting s
      \<or> ((inIoLearningPhase s \<or> inIoPredictionPhase s) \<and> possiblyBlockingIo (ioHandler s)))"

definition isActiveInIo :: "int \<Rightarrow> vex_thread \<Rightarrow> bool" where
  "isActiveInIo rt s =
     (if inIoLearningPhase s \<or> inIoPredictionPhase s
      then if possiblyBlockingIo (ioHandler s) \<and> Timers_maximumPossibleIoTimeExpired rt (thr_timers s)
           then False else True
      else False)"

subsection \<open>State transitions\<close>

definition VexThreadState_setRegistering :: "vex_thread \<Rightarrow> vex_thread" where
  "VexThreadState_setRegistering s =
     (upd_timers (Timers_setLastTimePerStateERT (ert s)) s)\<lparr>currentState := REGISTERING\<rparr>"

definition VexThreadState_setNewState :: "Code \<Rightarrow> vex_thread \<Rightarrow> vex_thread" where
  "VexThreadState_setNewState new s =
     (let s1 = s\<lparr>previousState := currentState s\<rparr>;
          s2 = upd_stats (Statistics_logTransition_duration (currentState s) new
                            (ert s - lastTimePerStateERT (thr_timers s))) s1;
          s3 = upd_timers (Timers_setLastTimePerStateERT (ert s)) s2
      in s3\<lparr>currentState := new\<rparr>)"

definition VexThreadState_setSuspended :: "vex_thread \<Rightarrow> vex_thread" where
  "VexThreadState_setSuspended s =
     upd_sched (Scheduling_setAwaken False) (VexThreadState_setNewState SUSPENDED s)"

definition VexThreadState_setWaiting :: "vex_thread \<Rightarrow> vex_thread" where
  "VexThreadState_setWaiting s =
     VexThreadState_setNewState WAITING (s\<lparr>timedOut := True, afterInterruptedTimedParking := False\<rparr>)"

definition VexThreadState_setNativeWaiting :: "vex_thread \<Rightarrow> vex_thread" where
  "VexThreadState_setNativeWaiting s =
     upd_sched Scheduling_releaseThreadFromItsControllingManager
       (VexThreadState_setNewState NATIVE_WAITING s)"

definition VexThreadState_setTimedWaiting :: "rat \<Rightarrow> int \<Rightarrow> vex_thread \<Rightarrow> vex_thread" where
  "VexThreadState_setTimedWaiting g to s =
     (let s1 = VexThreadState_setNewState WAITING s;
          s2 = s1\<lparr>timedOut := True, afterInterruptedTimedParking := False\<rparr>;
          s3 = upd_sched (Scheduling_setAwaken False) s2
      in upd_timers (Timers_updateTimesBeforeWaitingWithTimeout g to) s3)"

definition VexThreadState_setRunning :: "vex_thread \<Rightarrow> vex_thread" where
  "VexThreadState_setRunning s = VexThreadState_setNewState RUNNING s"

definition VexThreadState_setLearningIo :: "vex_thread \<Rightarrow> vex_thread" where
  "VexThreadState_setLearningIo s = VexThreadState_setNewState LEARNING_IO s"

definition VexThreadState_setInIo :: "vex_thread \<Rightarrow> vex_thread" where
  "VexThreadState_setInIo s = VexThreadState_setNewState IN_IO s"

definition VexThreadState_setInSystemCall :: "vex_thread \<Rightarrow> vex_thread" where
  "VexThreadState_setInSystemCall s = VexThreadState_setNewState IN_SYSTEM_CALL s"

definition VexThreadState_waitForRealCodeToComplete :: "vex_thread \<Rightarrow> vex_thread" where
  "VexThreadState_waitForRealCodeToComplete s =
     upd_timers Timers_setBlockingTimeToLastResumedTime
       (VexThreadState_setNewState AFTER_MODEL_SIM_WAITING_FOR_REAL_CODE s)"

definition VexThreadState_setInModelSimulation :: "vex_thread \<Rightarrow> vex_thread" where
  "VexThreadState_setInModelSimulation s = VexThreadState_setNewState IN_MODEL s"

definition VexThreadState_setInModelWaiting :: "vex_thread \<Rightarrow> vex_thread" where
  "VexThreadState_setInModelWaiting s = VexThreadState_setNewState IN_MODEL_WAITING s"

definition VexThreadState_setDead :: "vex_thread \<Rightarrow> vex_thread" where
  "VexThreadState_setDead s = VexThreadState_setNewState VEX_ZOMBIE s"

definition VexThreadState_setJoinWaitCompleted :: "vex_thread \<Rightarrow> vex_thread" where
  "VexThreadState_setJoinWaitCompleted s = VexThreadState_setNewState AWAKING_FROM_WAITING s"

definition VexThreadState_setInIoStale :: "vex_thread \<Rightarrow> vex_thread" where
  "VexThreadState_setInIoStale s = upd_stats (Statistics_logTransition (currentState s) IN_IO_STALE) s"

definition VexThreadState_setInIoInvalidation :: "vex_thread \<Rightarrow> vex_thread" where
  "VexThreadState_setInIoInvalidation s =
     upd_stats (Statistics_logTransition (currentState s) IN_IO_INVALIDATION) s"

definition VexThreadState_setRecoveredAfterFailedIO :: "vex_thread \<Rightarrow> vex_thread" where
  "VexThreadState_setRecoveredAfterFailedIO s =
     upd_stats (Statistics_logTransition (currentState s) RECOVERED_AFTER_FAILED_IO) s"

definition VexThreadState_setCustom1 :: "vex_thread \<Rightarrow> vex_thread" where
  "VexThreadState_setCustom1 s = upd_stats (Statistics_logTransition (currentState s) CUSTOM1) s"

definition VexThreadState_setCustom2 :: "vex_thread \<Rightarrow> vex_thread" where
  "VexThreadState_setCustom2 s = upd_stats (Statistics_logTransition (currentState s) CUSTOM2) s"

definition VexThreadState_setCustom3 :: "vex_thread \<Rightarrow> vex_thread" where
  "VexThreadState_setCustom3 s = upd_stats (Statistics_logTransition (currentState s) CUSTOM3) s"

subsection \<open>Parking\<close>

definition VexThreadState_getAndSetUnparkedState :: "vex_thread \<Rightarrow> vex_thread \<times> bool" where
  "VexThreadState_getAndSetUnparkedState s =
     (if alreadyUnparked s then (s\<lparr>alreadyUnparked := False, parked := False\<rparr>, True)
      else (s\<lparr>parked := True, timedWaitingObjectId := 0\<rparr>, False))"

definition VexThreadState_getAndSetParkedState :: "vex_thread \<Rightarrow> vex_thread \<times> bool" where
  "VexThreadState_getAndSetParkedState s =
     (if parked s then (s\<lparr>alreadyUnparked := False, parked := False\<rparr>, True)
      else (s\<lparr>alreadyUnparked := True\<rparr>, False))"

definition VexThreadState_setUnparked :: "bool \<Rightarrow> vex_thread \<Rightarrow> vex_thread" where
  [vex_defs]: "VexThreadState_setUnparked v s = s\<lparr>alreadyUnparked := v\<rparr>"

subsection \<open>Entry points and I/O\<close>

definition VexThreadState_setWaitingObjectId :: "int \<Rightarrow> vex_thread \<Rightarrow> vex_thread" where
  "VexThreadState_setWaitingObjectId oid s = (if oid > 0 then s\<lparr>timedWaitingObjectId := oid\<rparr> else s)"

definition VexThreadState_addInvocationPoints :: "vex_thread \<Rightarrow> vex_thread" where
  "VexThreadState_addInvocationPoints s =
     upd_sched Scheduling_increaseVtfInvocationsSinceLastResume (upd_stats Statistics_addInvocationPoints s)"

definition VexThreadState_onEntry :: "int \<Rightarrow> vex_thread \<Rightarrow> vex_thread" where
  "VexThreadState_onEntry methodId s =
     upd_sched Scheduling_increaseVtfInvocationsSinceLastResume (upd_io (IoHandler_enteringMethod methodId) s)"

definition VexThreadState_onExit :: "int \<Rightarrow> vex_thread \<Rightarrow> vex_thread" where
  "VexThreadState_onExit methodId s =
     upd_sched Scheduling_increaseVtfInvocationsSinceLastResume (upd_io (IoHandler_exitingMethod methodId) s)"

definition VexThreadState_onIoEntry :: "bool \<Rightarrow> vex_thread \<Rightarrow> vex_thread" where
  "VexThreadState_onIoEntry blocking s =
     upd_sched Scheduling_increaseVtfInvocationsSinceLastResume
       (upd_io (IoHandler_notifyAboutPossiblyBlockingIo blocking) (upd_timers (Timers_setTimeout (-1)) s))"

definition VexThreadState_setIoAndCheckIfOperationShouldBlockSimulationProgress ::
  "bool \<Rightarrow> vex_thread \<Rightarrow> vex_thread \<times> bool" where
  "VexThreadState_setIoAndCheckIfOperationShouldBlockSimulationProgress learning s =
     (if learning
      then let s1 = VexThreadState_setLearningIo s
           in if timeout (thr_timers s1) \<noteq> -1
              then (upd_timers (fst \<circ> Timers_leapForwardBy (timeout (thr_timers s1))) s1, True)
              else (s1, False)
      else (VexThreadState_setInIo s, True))"

definition VexThreadState_addPredictionToEstimatedRealTime :: "vex_thread \<Rightarrow> vex_thread" where
  "VexThreadState_addPredictionToEstimatedRealTime s =
     upd_io IoHandler_addPredictionToEstimatedRealTime
       (upd_timers (fst \<circ> Timers_addElapsedTime (lastIoPrediction (ioHandler s))) s)"

definition VexThreadState_invalidateIoPrediction :: "vex_thread \<Rightarrow> vex_thread" where
  "VexThreadState_invalidateIoPrediction s =
     (let (io, extra) = IoHandler_extendPredictionPeriod (ioHandler s)
      in VexThreadState_setInIoInvalidation
           (upd_timers (fst \<circ> Timers_leapForwardBy extra) (s\<lparr>ioHandler := io\<rparr>)))"

definition VexThreadState_updateEstimatedRealTimeAfterIoPrediction :: "int \<Rightarrow> vex_thread \<Rightarrow> vex_thread" where
  "VexThreadState_updateEstimatedRealTimeAfterIoPrediction actualIoDuration s =
     upd_timers (fst \<circ> Timers_leapForwardBy
       (actualIoDuration - IoHandler_getTotalTimePredicted (ioHandler s))) s"

definition VexThreadState_getPredictionError :: "int \<Rightarrow> vex_thread \<Rightarrow> int" where
  "VexThreadState_getPredictionError currentRealTime s =
     currentRealTime - lastRealTime (thr_timers s) - IoHandler_getTotalTimePredicted (ioHandler s)"

definition VexThreadState_isIoPredictionStillValid :: "int \<Rightarrow> vex_thread \<Rightarrow> bool" where
  "VexThreadState_isIoPredictionStillValid currentRealTime s =
     (if VexThreadState_getPredictionError currentRealTime s > 0 then False else True)"

text \<open>The order of the runnable queue: \<open>lhs\<close> comes after \<open>rhs\<close>.\<close>

definition threadStatePtr_compare :: "vex_thread \<Rightarrow> vex_thread \<Rightarrow> bool" where
  "threadStatePtr_compare lhs rhs = (if ert lhs > ert rhs then True else False)"


section \<open>Accounting of states and times\<close>

text \<open>
  The state changes a thread makes. \<open>clocks\<close> stands for every operation on the thread's timers
  that does not itself log a transition: it may move any clock, but not
  \<open>lastTimePerStateERT\<close>, which only \<open>setNewState\<close> and \<open>setRegistering\<close> write.
\<close>

inductive state_change :: "vex_thread \<Rightarrow> vex_thread \<Rightarrow> bool" where
  suspended: "state_change s (VexThreadState_setSuspended s)"
| waiting: "state_change s (VexThreadState_setWaiting s)"
| native_waiting: "state_change s (VexThreadState_setNativeWaiting s)"
| timed_waiting: "state_change s (VexThreadState_setTimedWaiting g to s)"
| running: "state_change s (VexThreadState_setRunning s)"
| learning_io: "state_change s (VexThreadState_setLearningIo s)"
| in_io: "state_change s (VexThreadState_setInIo s)"
| system_call: "state_change s (VexThreadState_setInSystemCall s)"
| real_code: "state_change s (VexThreadState_waitForRealCodeToComplete s)"
| model: "state_change s (VexThreadState_setInModelSimulation s)"
| model_waiting: "state_change s (VexThreadState_setInModelWaiting s)"
| dead: "state_change s (VexThreadState_setDead s)"
| join_completed: "state_change s (VexThreadState_setJoinWaitCompleted s)"
| clocks: "lastTimePerStateERT t = lastTimePerStateERT (thr_timers s) \<Longrightarrow>
     state_change s (s\<lparr>thr_timers := t\<rparr>)"
| sched: "state_change s (upd_sched f s)"

definition time_in_states :: "vex_thread \<Rightarrow> int" where
  "time_in_states s = sum_list (map (totalTimePerState (stats s)) all_codes)"

definition indicator_code :: "Code \<Rightarrow> Code \<Rightarrow> 32 word" where
  "indicator_code a b = (if a = b then 1 else 0)"

text \<open>The thread's books balance: its time is distributed over the states, and every state was
  entered as often as it was left, up to the first and the current state.\<close>

definition accounted :: "vex_thread \<Rightarrow> bool" where
  "accounted s \<longleftrightarrow>
     time_in_states s = lastTimePerStateERT (thr_timers s) \<and>
     (\<forall>c. entered (stats s) c + indicator_code c REGISTERING =
          left_count (stats s) c + indicator_code c (currentState s))"

lemmas upd_defs = upd_timers_def upd_sched_def upd_io_def upd_stats_def

lemma setNewState_simps [simp]:
  "currentState (VexThreadState_setNewState c s) = c"
  "previousState (VexThreadState_setNewState c s) = currentState s"
  "ert (VexThreadState_setNewState c s) = ert s"
  "lastTimePerStateERT (thr_timers (VexThreadState_setNewState c s)) = ert s"
  "scheduling_of (VexThreadState_setNewState c s) = scheduling_of s"
  "stats (VexThreadState_setNewState c s) = Statistics_logTransition_duration (currentState s) c
     (ert s - lastTimePerStateERT (thr_timers s)) (stats s)"
  by (simp_all add: VexThreadState_setNewState_def upd_defs vex_defs Let_def)

lemma accounted_cong:
  "stats s' = stats s \<Longrightarrow> currentState s' = currentState s \<Longrightarrow>
   lastTimePerStateERT (thr_timers s') = lastTimePerStateERT (thr_timers s) \<Longrightarrow>
   accounted s' \<longleftrightarrow> accounted s"
  by (simp add: accounted_def time_in_states_def)

lemma accounted_setNewState: "accounted s \<Longrightarrow> accounted (VexThreadState_setNewState c s)"
  by (auto simp: accounted_def time_in_states_def time_conserved indicator_code_def)

lemma updateTimesBeforeWaitingWithTimeout_state [simp]:
  "lastTimePerStateERT (Timers_updateTimesBeforeWaitingWithTimeout g to t) = lastTimePerStateERT t"
  by (simp add: Timers_updateTimesBeforeWaitingWithTimeout_def Let_def)

lemma state_change_accounted: "state_change s s' \<Longrightarrow> accounted s \<Longrightarrow> accounted s'"
proof (induction rule: state_change.induct)
  case (waiting s)
  let ?s = "s\<lparr>timedOut := True, afterInterruptedTimedParking := False\<rparr>"
  from waiting have "accounted ?s" by (simp add: accounted_cong [of ?s s])
  then show ?case by (simp add: VexThreadState_setWaiting_def accounted_setNewState)
next
  case (timed_waiting s g to)
  then have "accounted (VexThreadState_setNewState WAITING s)" by (rule accounted_setNewState)
  then show ?case
    by (subst accounted_cong [of _ "VexThreadState_setNewState WAITING s"])
      (simp_all add: VexThreadState_setTimedWaiting_def upd_defs Let_def)
next
  case (real_code s)
  then have "accounted (VexThreadState_setNewState AFTER_MODEL_SIM_WAITING_FOR_REAL_CODE s)"
    by (rule accounted_setNewState)
  then show ?case
    by (subst accounted_cong [of _ "VexThreadState_setNewState AFTER_MODEL_SIM_WAITING_FOR_REAL_CODE s"])
      (simp_all add: VexThreadState_waitForRealCodeToComplete_def upd_defs
        Timers_setBlockingTimeToLastResumedTime_def)
next
  case (suspended s)
  then have "accounted (VexThreadState_setNewState SUSPENDED s)" by (rule accounted_setNewState)
  then show ?case
    by (subst accounted_cong [of _ "VexThreadState_setNewState SUSPENDED s"])
      (simp_all add: VexThreadState_setSuspended_def upd_defs)
next
  case (native_waiting s)
  then have "accounted (VexThreadState_setNewState NATIVE_WAITING s)" by (rule accounted_setNewState)
  then show ?case
    by (subst accounted_cong [of _ "VexThreadState_setNewState NATIVE_WAITING s"])
      (simp_all add: VexThreadState_setNativeWaiting_def upd_defs)
next
  case (clocks t s)
  then show ?case by (subst accounted_cong [of _ s]) simp_all
next
  case (sched s f)
  then show ?case by (subst accounted_cong [of _ s]) (simp_all add: upd_sched_def)
qed (simp_all add: accounted_setNewState VexThreadState_setRunning_def VexThreadState_setLearningIo_def
  VexThreadState_setInIo_def VexThreadState_setInSystemCall_def VexThreadState_setInModelSimulation_def
  VexThreadState_setInModelWaiting_def VexThreadState_setDead_def VexThreadState_setJoinWaitCompleted_def)

lemma sum_list_zero_codes [simp]: "(\<Sum>i\<leftarrow>xs. 0) = (0::'a::monoid_add)"
  by (induction xs) simp_all

lemma init_accounted: "accounted (VexThreadState_init rt raw)"
  by (simp add: accounted_def time_in_states_def VexThreadState_init_def Timers_Timers_def
      Timers_resetCounters_def Statistics_Statistics_def Statistics_clearTransitionCounters_def
      entered_def left_count_def)


section \<open>I/O predictions\<close>

lemma sint_prod_small:
  assumes "0 \<le> p" and "2 ^ Suc k * p < 2 ^ 63"
  shows "sint (2 ^ k * word_of_int p :: 64 word) = 2 ^ k * p"
    and "sint ((2 ^ Suc k - 1) * word_of_int p :: 64 word) = (2 ^ Suc k - 1) * p"
proof -
  have small: "sint (word_of_int x :: 64 word) = x" if "0 \<le> x" "x < 2 ^ 63" for x
    using that by (simp add: int_word_sint)
  have le: "2 ^ k * p \<le> 2 ^ Suc k * p" "(2 ^ Suc k - 1) * p \<le> 2 ^ Suc k * p"
    using assms(1) by (intro mult_right_mono; simp)+
  have nonneg: "0 \<le> 2 ^ k * p" "0 \<le> (2 ^ Suc k - 1) * p"
    using assms(1) by (intro mult_nonneg_nonneg; simp)+
  have "sint (word_of_int (2 ^ k * p) :: 64 word) = 2 ^ k * p"
    by (rule small [OF nonneg(1) le_less_trans [OF le(1) assms(2)]])
  moreover have "sint (word_of_int ((2 ^ Suc k - 1) * p) :: 64 word) = (2 ^ Suc k - 1) * p"
    by (rule small [OF nonneg(2) le_less_trans [OF le(2) assms(2)]])
  ultimately show "sint (2 ^ k * word_of_int p :: 64 word) = 2 ^ k * p"
    and "sint ((2 ^ Suc k - 1) * word_of_int p :: 64 word) = (2 ^ Suc k - 1) * p"
    by (simp_all only: of_int_mult of_int_power of_int_numeral of_int_diff of_int_1)
qed

text \<open>A prediction of \<open>p\<close> nanoseconds, extended \<open>k\<close> times.\<close>

definition predicting :: "nat \<Rightarrow> int \<Rightarrow> vex_thread \<Rightarrow> bool" where
  "predicting k p s \<longleftrightarrow> lastIoPrediction (ioHandler s) = p \<and>
     timesIoPredictionWasAddedToEstimatedTime (ioHandler s) = 2 ^ k"

lemma predicting_start:
  "predicting 0 (lastIoPrediction (ioHandler s)) (VexThreadState_addPredictionToEstimatedRealTime s) \<and>
   ert (VexThreadState_addPredictionToEstimatedRealTime s) = ert s + lastIoPrediction (ioHandler s)"
  by (simp add: predicting_def VexThreadState_addPredictionToEstimatedRealTime_def upd_defs
      IoHandler_addPredictionToEstimatedRealTime_def Timers_addElapsedTime_def)

lemma predicting_invalidate:
  assumes "predicting k p s" and "0 \<le> p" and "2 ^ Suc (Suc k) * p < 2 ^ 63"
  shows "predicting (Suc k) p (VexThreadState_invalidateIoPrediction s)"
    and "ert (VexThreadState_invalidateIoPrediction s) = ert s + 2 ^ Suc k * p"
proof -
  have "sint (2 * 2 ^ k * word_of_int p :: 64 word) = 2 ^ Suc k * p"
    using sint_prod_small(1) [OF assms(2,3)] by simp
  with assms(1) show "predicting (Suc k) p (VexThreadState_invalidateIoPrediction s)"
    and "ert (VexThreadState_invalidateIoPrediction s) = ert s + 2 ^ Suc k * p"
    by (simp_all add: predicting_def VexThreadState_invalidateIoPrediction_def upd_defs Let_def
        IoHandler_extendPredictionPeriod_def VexThreadState_setInIoInvalidation_def
        Timers_leapForwardBy_def)
qed

lemma predicting_total:
  assumes "predicting k p s" and "0 \<le> p" and "2 ^ Suc k * p < 2 ^ 63"
  shows "IoHandler_getTotalTimePredicted (ioHandler s) = (2 ^ Suc k - 1) * p"
  using sint_prod_small(2) [OF assms(2,3)] assms(1)
  by (simp add: predicting_def IoHandler_getTotalTimePredicted_def)

lemma predicting_iterate:
  assumes "0 \<le> p" and "lastIoPrediction (ioHandler s) = p" and "2 ^ Suc k * p < 2 ^ 63"
  shows "predicting k p ((VexThreadState_invalidateIoPrediction ^^ k)
           (VexThreadState_addPredictionToEstimatedRealTime s)) \<and>
         ert ((VexThreadState_invalidateIoPrediction ^^ k)
           (VexThreadState_addPredictionToEstimatedRealTime s)) = ert s + (2 ^ Suc k - 1) * p"
  using assms(3)
proof (induction k)
  case 0
  then show ?case
    using predicting_start [of s] assms(2) by simp
next
  case (Suc k)
  let ?s = "(VexThreadState_invalidateIoPrediction ^^ k) (VexThreadState_addPredictionToEstimatedRealTime s)"
  have "2 ^ Suc k * p \<le> 2 ^ Suc (Suc k) * p"
    using assms(1) by (intro mult_right_mono) simp_all
  with Suc have IH: "predicting k p ?s" "ert ?s = ert s + (2 ^ Suc k - 1) * p"
    by auto
  from predicting_invalidate [OF IH(1) assms(1) Suc.prems] IH(2) show ?case
    by (simp add: algebra_simps)
qed

text \<open>
  C31. Predicting the duration of an I/O operation is neutral once the operation is measured:
  adding a prediction to the timestamp, extending it any number of times because it expired, and
  finally correcting with the actual duration leaves the timestamp exactly the actual duration
  after its value before the operation, as long as the extended prediction fits in 63 bits.
\<close>

theorem io_prediction_corrected:
  assumes "0 \<le> lastIoPrediction (ioHandler s)"
    and "2 ^ Suc k * lastIoPrediction (ioHandler s) < 2 ^ 63"
  shows "ert (VexThreadState_updateEstimatedRealTimeAfterIoPrediction actual
           ((VexThreadState_invalidateIoPrediction ^^ k)
             (VexThreadState_addPredictionToEstimatedRealTime s))) = ert s + actual"
proof -
  note it = predicting_iterate [OF assms(1) refl assms(2)]
  from it predicting_total [OF _ assms] show ?thesis
    by (simp add: VexThreadState_updateEstimatedRealTimeAfterIoPrediction_def upd_defs
        Timers_leapForwardBy_def)
qed

definition example_io :: io_handler where
  "example_io =
     \<lparr>timesIoPredictionWasAddedToEstimatedTime = 1, stackDepth = 0, ioInvocationPointHashValue = 0,
      ioFinishedBeforeLogging = False, lastIoPrediction = 0, stackTraceHash = 0,
      possiblyBlockingIo = False, ignoringIo = False, recognizingIoAsCached = False, ioCpuTime = 0\<rparr>"

definition example_sched :: scheduling where
  "example_sched =
     \<lparr>localManagerId = 0, threadCurrentlyControllingManager = None,
      previouslyControllingManager = None, forceSuspend = True, schedInVex = False,
      awakeningFromJoin = False, suspendFlag = CLEAR_SUSPENDFLAG, vtfInvocationsSinceLastResume = 0,
      waitingInNativeVTFcode = 0, awaken = False, simulatingModel = False,
      currentlyPolledForWhetherItIsNativeWaiting = False, consecutiveTimeslots = 0,
      consecutiveTimesFoundNativeWaiting = 0, doNotSuspendUntil = 0\<rparr>"

definition example_thread :: vex_thread where
  "example_thread =
     \<lparr>jthreadId = 1, currentState = RUNNING, previousState = UNKNOWN_STATE,
      timedWaitingObjectId = 0, timedOut = True, waitingInRealTime = False, alreadyUnparked = False,
      parked = False, afterInterruptedTimedParking = False, inVex = False,
      thr_timers = example_timers, ioHandler = example_io, scheduling_of = example_sched,
      stats = Statistics_Statistics\<rparr>"

theorem io_prediction_corrected_witness:
  "ert (VexThreadState_updateEstimatedRealTimeAfterIoPrediction 950
      ((VexThreadState_invalidateIoPrediction ^^ 2) (VexThreadState_addPredictionToEstimatedRealTime
         (example_thread\<lparr>ioHandler := example_io\<lparr>lastIoPrediction := 100\<rparr>\<rparr>)))) = 950"
  using io_prediction_corrected [of "example_thread\<lparr>ioHandler := example_io\<lparr>lastIoPrediction := 100\<rparr>\<rparr>" 2 950]
  by (simp add: example_thread_def example_timers_def)


text \<open>
  A prediction extended \<open>k\<close> times stays valid for \<open>2 ^ (k + 1) - 1\<close> times its length of
  real time after the operation started, and expires after that, so each extension doubles
  the remaining budget.
\<close>

theorem io_prediction_validity_window:
  assumes "0 \<le> lastIoPrediction (ioHandler s)"
    and "2 ^ Suc k * lastIoPrediction (ioHandler s) < 2 ^ 63"
    and "s' = (VexThreadState_invalidateIoPrediction ^^ k)
           (VexThreadState_addPredictionToEstimatedRealTime s)"
  shows "VexThreadState_isIoPredictionStillValid now s' \<longleftrightarrow>
     now - lastRealTime (thr_timers s') \<le> (2 ^ Suc k - 1) * lastIoPrediction (ioHandler s)"
proof -
  from predicting_iterate [OF assms(1) refl assms(2)]
  have "IoHandler_getTotalTimePredicted (ioHandler s') = (2 ^ Suc k - 1) * lastIoPrediction (ioHandler s)"
    unfolding assms(3) by (intro predicting_total [OF _ assms(1,2)]) simp
  then show ?thesis
    by (auto simp: VexThreadState_isIoPredictionStillValid_def VexThreadState_getPredictionError_def)
qed

theorem io_prediction_validity_window_witness:
  "VexThreadState_isIoPredictionStillValid 700 ((VexThreadState_invalidateIoPrediction ^^ 2)
      (VexThreadState_addPredictionToEstimatedRealTime
         (example_thread\<lparr>ioHandler := example_io\<lparr>lastIoPrediction := 100\<rparr>\<rparr>))) \<longleftrightarrow>
   700 - lastRealTime (thr_timers ((VexThreadState_invalidateIoPrediction ^^ 2)
      (VexThreadState_addPredictionToEstimatedRealTime
         (example_thread\<lparr>ioHandler := example_io\<lparr>lastIoPrediction := 100\<rparr>\<rparr>)))) \<le> 700"
  using io_prediction_validity_window
    [of "example_thread\<lparr>ioHandler := example_io\<lparr>lastIoPrediction := 100\<rparr>\<rparr>" 2, OF _ _ refl, of 700]
  by simp

section \<open>Parking\<close>

text \<open>The contract of \<open>LockSupport\<close>: at most one permit; \<open>park\<close> consumes it or blocks,
  \<open>unpark\<close> wakes the blocked thread or leaves the permit.\<close>

datatype park_state = NoPermit | Permit | Parked

fun spec_park :: "park_state \<Rightarrow> park_state \<times> bool" where
  "spec_park Permit = (NoPermit, True)"
| "spec_park NoPermit = (Parked, False)"
| "spec_park Parked = (Parked, False)"

fun spec_unpark :: "park_state \<Rightarrow> park_state \<times> bool" where
  "spec_unpark Parked = (NoPermit, True)"
| "spec_unpark NoPermit = (Permit, False)"
| "spec_unpark Permit = (Permit, False)"

text \<open>What the event handlers rely on: an implementation of the two calls that simulates the
  contract, so that no wake-up is lost.\<close>

locale park_permit =
  fixes park :: "'s \<Rightarrow> 's \<times> bool"
    and unpark :: "'s \<Rightarrow> 's \<times> bool"
    and abs_park :: "'s \<Rightarrow> park_state"
    and park_inv :: "'s \<Rightarrow> bool"
  assumes park_refines: "park_inv s \<Longrightarrow> map_prod abs_park id (park s) = spec_park (abs_park s)"
    and unpark_refines: "park_inv s \<Longrightarrow> map_prod abs_park id (unpark s) = spec_unpark (abs_park s)"
    and park_keeps: "park_inv s \<Longrightarrow> park_inv (fst (park s))"
    and unpark_keeps: "park_inv s \<Longrightarrow> park_inv (fst (unpark s))"
begin

fun run_parks :: "bool list \<Rightarrow> 's \<Rightarrow> bool list" where
  "run_parks [] s = []"
| "run_parks (b # bs) s =
     (let (s', r) = (if b then park s else unpark s) in r # run_parks bs s')"

fun run_spec :: "bool list \<Rightarrow> park_state \<Rightarrow> bool list" where
  "run_spec [] a = []"
| "run_spec (b # bs) a =
     (let (a', r) = (if b then spec_park a else spec_unpark a) in r # run_spec bs a')"

lemma run_refines: "park_inv s \<Longrightarrow> run_parks bs s = run_spec bs (abs_park s)"
proof (induction bs arbitrary: s)
  case (Cons b bs)
  obtain s' r where step: "(if b then park s else unpark s) = (s', r)"
    by fastforce
  have "map_prod abs_park id (s', r) = (if b then spec_park (abs_park s) else spec_unpark (abs_park s))"
    using step park_refines [OF Cons.prems] unpark_refines [OF Cons.prems] by (metis (full_types))
  then have "(if b then spec_park (abs_park s) else spec_unpark (abs_park s)) = (abs_park s', r)"
    by simp
  moreover have "park_inv s'"
    using step park_keeps [OF Cons.prems] unpark_keeps [OF Cons.prems] by (metis fst_conv)
  ultimately show ?case
    using Cons.IH [of s'] step by (cases b) simp_all
qed simp

lemma no_lost_wakeup:
  assumes "park_inv s"
  shows "snd (unpark (fst (park s))) \<or> snd (park s)"
    and "abs_park s \<noteq> Parked \<Longrightarrow> snd (park (fst (unpark s)))"
proof -
  have p: "abs_park (fst (park s)) = fst (spec_park (abs_park s))" "snd (park s) = snd (spec_park (abs_park s))"
    using park_refines [OF assms] by (metis fst_map_prod snd_map_prod id_apply)+
  have u: "abs_park (fst (unpark s)) = fst (spec_unpark (abs_park s))"
    using unpark_refines [OF assms] by (metis fst_map_prod)
  have pu: "snd (unpark (fst (park s))) = snd (spec_unpark (abs_park (fst (park s))))"
    using unpark_refines [OF park_keeps [OF assms]] by (metis snd_map_prod id_apply)
  have up: "snd (park (fst (unpark s))) = snd (spec_park (abs_park (fst (unpark s))))"
    using park_refines [OF unpark_keeps [OF assms]] by (metis snd_map_prod id_apply)
  show "snd (unpark (fst (park s))) \<or> snd (park s)"
    by (cases "abs_park s") (simp_all add: p pu)
  show "abs_park s \<noteq> Parked \<Longrightarrow> snd (park (fst (unpark s)))"
    by (cases "abs_park s") (simp_all add: u up)
qed

end

definition park_state_of :: "vex_thread \<Rightarrow> park_state" where
  "park_state_of s = (if parked s then Parked else if alreadyUnparked s then Permit else NoPermit)"

definition park_wf :: "vex_thread \<Rightarrow> bool" where
  "park_wf s \<longleftrightarrow> \<not> (parked s \<and> alreadyUnparked s)"

interpretation vex_park: park_permit
  VexThreadState_getAndSetUnparkedState VexThreadState_getAndSetParkedState park_state_of park_wf
  by unfold_locales
    (auto simp: VexThreadState_getAndSetUnparkedState_def VexThreadState_getAndSetParkedState_def
      park_state_of_def park_wf_def)

text \<open>
  Parking implements the \<open>LockSupport\<close> permit without lost wake-ups: from any state in which
  a thread is not both parked and unparked, an \<open>unpark\<close> that follows a \<open>park\<close> that blocked
  reports that the thread is to be woken, and a \<open>park\<close> that follows an \<open>unpark\<close> of a thread that
  was not parked does not block.
\<close>

theorem parking_loses_no_wakeup:
  assumes "\<not> (parked s \<and> alreadyUnparked s)"
  shows "(snd (VexThreadState_getAndSetParkedState (fst (VexThreadState_getAndSetUnparkedState s)))
            \<or> snd (VexThreadState_getAndSetUnparkedState s)) \<and>
         (parked s \<or> snd (VexThreadState_getAndSetUnparkedState (fst (VexThreadState_getAndSetParkedState s))))"
  using vex_park.no_lost_wakeup [of s] assms
  by (cases "parked s"; cases "alreadyUnparked s") (simp_all add: park_wf_def park_state_of_def)

theorem parking_loses_no_wakeup_witness:
  "snd (VexThreadState_getAndSetParkedState (fst (VexThreadState_getAndSetUnparkedState example_thread)))
   \<and> snd (VexThreadState_getAndSetUnparkedState (fst (VexThreadState_getAndSetParkedState example_thread)))"
  using parking_loses_no_wakeup [of example_thread]
  by (simp add: example_thread_def VexThreadState_getAndSetUnparkedState_def)

end
