(* ===== verification/Vex_Timeline.thy ===== *)
theory Vex_Timeline
  imports Vex_Thread
begin

text \<open>
  Virtual time (\<open>src/src/vex/timer/VirtualTimeline.h\<close>, \<open>VirtualTimeline.cpp\<close>): the
  single timeline, the timeline with one local time per core, its variant that disables idle
  cores, the controllers through which thread managers commit a thread's progress, and the
  decorator that logs every commit.

  A timeline carries its mutex. \<open>pthread_mutex_init(&mutex, NULL)\<close> gives a non-recursive mutex, so
  locking it again from an operation that already holds it never returns (\<open>Deadlock\<close>). The two
  multicore classes share the record \<open>multicore\<close>, which extends \<open>timeline\<close> as the classes
  extend \<open>VirtualTimeline\<close>; the field \<open>disabling\<close> is the dynamic type on which the virtual
  calls dispatch. The arrays have \<open>processors\<close> elements, and \<open>processors\<close> is their length.
\<close>

section \<open>The single timeline\<close>

record timeline =
  mutex_held :: bool
  globalVirtualTime :: int
  unknownParallelTime :: int

text \<open>\<open>pthread_mutex_lock\<close>, the critical section and \<open>pthread_mutex_unlock\<close>.\<close>

definition with_mutex ::
  "('a timeline_scheme \<Rightarrow> ('a timeline_scheme \<times> 'r) res) \<Rightarrow> 'a timeline_scheme
     \<Rightarrow> ('a timeline_scheme \<times> 'r) res" where
  "with_mutex body vt =
     (if mutex_held vt then Inl Deadlock
      else bindE (body (vt\<lparr>mutex_held := True\<rparr>)) (\<lambda>(vt', r). Inr (vt'\<lparr>mutex_held := False\<rparr>, r)))"

definition VirtualTimeline_reset :: "'a timeline_scheme \<Rightarrow> 'a timeline_scheme" where
  "VirtualTimeline_reset vt = vt\<lparr>globalVirtualTime := 0, unknownParallelTime := 0\<rparr>"

definition VirtualTimeline_VirtualTimeline :: timeline where
  "VirtualTimeline_VirtualTimeline =
     VirtualTimeline_reset \<lparr>mutex_held = False, globalVirtualTime = 0, unknownParallelTime = 0\<rparr>"

definition VirtualTimeline_leapForwardTo :: "int \<Rightarrow> 'a timeline_scheme \<Rightarrow> ('a timeline_scheme \<times> unit) res" where
  "VirtualTimeline_leapForwardTo forwardTime = with_mutex (\<lambda>vt.
     let vt1 = (if forwardTime + unknownParallelTime vt > globalVirtualTime vt
                then vt\<lparr>globalVirtualTime := forwardTime + unknownParallelTime vt\<rparr> else vt)
     in Inr (vt1\<lparr>unknownParallelTime := 0\<rparr>, ()))"

definition VirtualTimeline_addTimeOfUnknownRealTimeDurationAndSynchronize ::
  "int \<Rightarrow> 'a timeline_scheme \<Rightarrow> ('a timeline_scheme \<times> unit) res" where
  "VirtualTimeline_addTimeOfUnknownRealTimeDurationAndSynchronize forwardTime = with_mutex (\<lambda>vt.
     Inr (vt\<lparr>globalVirtualTime := globalVirtualTime vt + forwardTime\<rparr>, ()))"

definition VirtualTimeline_addTimeOfThreadExecutingAtUnknownTime ::
  "int \<Rightarrow> 'a timeline_scheme \<Rightarrow> ('a timeline_scheme \<times> unit) res" where
  "VirtualTimeline_addTimeOfThreadExecutingAtUnknownTime forwardTime = with_mutex (\<lambda>vt.
     Inr (vt\<lparr>globalVirtualTime := globalVirtualTime vt + forwardTime,
             unknownParallelTime := unknownParallelTime vt + forwardTime\<rparr>, ()))"

section \<open>The multicore timelines\<close>

record multicore = timeline +
  localCoreVirtualTimes :: "int list"
  localCoreActive :: "bool list"
  disabling :: bool

definition MulticoreVirtualTimeline_MulticoreVirtualTimeline :: "nat \<Rightarrow> multicore" where
  "MulticoreVirtualTimeline_MulticoreVirtualTimeline schedulers =
     \<lparr>mutex_held = False, globalVirtualTime = 0, unknownParallelTime = 0,
      localCoreVirtualTimes = replicate schedulers 0, localCoreActive = [], disabling = False\<rparr>"

definition DisablingMulticoreVirtualTimeline_DisablingMulticoreVirtualTimeline :: "nat \<Rightarrow> multicore" where
  "DisablingMulticoreVirtualTimeline_DisablingMulticoreVirtualTimeline schedulers =
     (MulticoreVirtualTimeline_MulticoreVirtualTimeline schedulers)
       \<lparr>localCoreActive := replicate schedulers False, disabling := True\<rparr>"

definition MulticoreVirtualTimeline_reset :: "multicore \<Rightarrow> (multicore \<times> unit) res" where
  "MulticoreVirtualTimeline_reset = with_mutex (\<lambda>vt.
     Inr (vt\<lparr>globalVirtualTime := 0,
             localCoreVirtualTimes := map (\<lambda>_. 0) (localCoreVirtualTimes vt)\<rparr>, ()))"

definition DisablingMulticoreVirtualTimeline_reset :: "multicore \<Rightarrow> (multicore \<times> unit) res" where
  "DisablingMulticoreVirtualTimeline_reset = with_mutex (\<lambda>vt.
     Inr (vt\<lparr>globalVirtualTime := 0,
             localCoreVirtualTimes := map (\<lambda>_. 0) (localCoreVirtualTimes vt),
             localCoreActive := map (\<lambda>_. False) (localCoreActive vt)\<rparr>, ()))"

definition MulticoreVirtualTimeline_updateGlobalTimeTo :: "int \<Rightarrow> multicore \<Rightarrow> multicore" where
  "MulticoreVirtualTimeline_updateGlobalTimeTo time vt =
     (if globalVirtualTime vt < time then vt\<lparr>globalVirtualTime := time\<rparr> else vt)"

text \<open>The loop over the cores: the least local time of an active core, \<open>LLONG_MAX\<close> without one.\<close>

definition min_active :: "multicore \<Rightarrow> int" where
  "min_active vt =
     fold (\<lambda>(active, v) m. if active \<and> v < m then v else m)
       (zip (localCoreActive vt) (localCoreVirtualTimes vt)) LLONG_MAX"

definition DisablingMulticoreVirtualTimeline_updateGlobalTimeTo :: "int \<Rightarrow> multicore \<Rightarrow> multicore" where
  "DisablingMulticoreVirtualTimeline_updateGlobalTimeTo time vt =
     (if min_active vt \<noteq> LLONG_MAX then vt\<lparr>globalVirtualTime := min_active vt\<rparr> else vt)"

text \<open>The virtual call.\<close>

definition updateGlobalTimeTo :: "int \<Rightarrow> multicore \<Rightarrow> multicore" where
  "updateGlobalTimeTo time vt =
     (if disabling vt then DisablingMulticoreVirtualTimeline_updateGlobalTimeTo time vt
      else MulticoreVirtualTimeline_updateGlobalTimeTo time vt)"

text \<open>\<open>if (localCoreVirtualTimes[id] < time) localCoreVirtualTimes[id] = time;\<close>\<close>

definition raise_local :: "int \<Rightarrow> nat \<Rightarrow> multicore \<Rightarrow> multicore res" where
  "raise_local time core vt =
     bindE (at_idx (localCoreVirtualTimes vt) core) (\<lambda>v.
       Inr (if v < time then vt\<lparr>localCoreVirtualTimes := (localCoreVirtualTimes vt)[core := time]\<rparr> else vt))"

definition MulticoreVirtualTimeline_leapForwardTo :: "int \<Rightarrow> nat \<Rightarrow> multicore \<Rightarrow> (multicore \<times> unit) res" where
  "MulticoreVirtualTimeline_leapForwardTo time localTimelineId = with_mutex (\<lambda>vt.
     bindE (raise_local time localTimelineId vt) (\<lambda>vt1.
     bindE (at_idx (localCoreVirtualTimes vt1) localTimelineId) (\<lambda>v.
       Inr (updateGlobalTimeTo v vt1, ()))))"

fun max_scan :: "int \<Rightarrow> int list \<Rightarrow> int" where
  "max_scan m [] = m"
| "max_scan m (v # vs) = max_scan (if v > m then v else m) vs"

definition MulticoreVirtualTimeline_addTimeOfUnknownRealTimeDurationAndSynchronize ::
  "int \<Rightarrow> multicore \<Rightarrow> (multicore \<times> unit) res" where
  "MulticoreVirtualTimeline_addTimeOfUnknownRealTimeDurationAndSynchronize forwardTime = with_mutex (\<lambda>vt.
     case localCoreVirtualTimes vt of
       [] \<Rightarrow> Inl OutOfBounds
     | v # vs \<Rightarrow>
         let m = max_scan v vs + forwardTime;
             vt1 = vt\<lparr>localCoreVirtualTimes := map (\<lambda>_. m) (localCoreVirtualTimes vt)\<rparr>
         in Inr (updateGlobalTimeTo m vt1, ()))"

text \<open>The index of the first least element; \<open>m\<close> and \<open>k\<close> are the minimum so far and its index,
  \<open>i\<close> the index of the next element.\<close>

fun min_scan :: "int \<Rightarrow> nat \<Rightarrow> nat \<Rightarrow> int list \<Rightarrow> nat" where
  "min_scan m k i [] = k"
| "min_scan m k i (v # vs) = (if m > v then min_scan v i (Suc i) vs else min_scan m k (Suc i) vs)"

definition MulticoreVirtualTimeline_addTimeOfThreadExecutingAtUnknownTime ::
  "int \<Rightarrow> multicore \<Rightarrow> (multicore \<times> unit) res" where
  "MulticoreVirtualTimeline_addTimeOfThreadExecutingAtUnknownTime forwardTime = with_mutex (\<lambda>vt.
     case localCoreVirtualTimes vt of
       [] \<Rightarrow> Inl OutOfBounds
     | v # vs \<Rightarrow>
         let k = min_scan v 0 1 vs;
             t = localCoreVirtualTimes vt ! k + forwardTime;
             vt1 = vt\<lparr>localCoreVirtualTimes := (localCoreVirtualTimes vt)[k := t]\<rparr>
         in Inr (updateGlobalTimeTo t vt1, ()))"

definition DisablingMulticoreVirtualTimeline_disableLocalTimeline ::
  "nat \<Rightarrow> multicore \<Rightarrow> (multicore \<times> bool) res" where
  "DisablingMulticoreVirtualTimeline_disableLocalTimeline localTimelineId = with_mutex (\<lambda>vt.
     bindE (at_idx (localCoreActive vt) localTimelineId) (\<lambda>_.
       let vt1 = vt\<lparr>localCoreActive := (localCoreActive vt)[localTimelineId := False]\<rparr>
       in Inr (vt1, \<not> list_ex (\<lambda>b. b) (localCoreActive vt1))))"

definition MulticoreVirtualTimeline_disableLocalTimeline ::
  "nat \<Rightarrow> multicore \<Rightarrow> (multicore \<times> bool) res" where
  "MulticoreVirtualTimeline_disableLocalTimeline localTimelineId vt = Inr (vt, False)"

definition disableLocalTimeline :: "nat \<Rightarrow> multicore \<Rightarrow> (multicore \<times> bool) res" where
  "disableLocalTimeline localTimelineId vt =
     (if disabling vt then DisablingMulticoreVirtualTimeline_disableLocalTimeline localTimelineId vt
      else MulticoreVirtualTimeline_disableLocalTimeline localTimelineId vt)"

definition MulticoreVirtualTimeline_shouldBlockCoreProgress ::
  "int \<Rightarrow> nat \<Rightarrow> multicore \<Rightarrow> (multicore \<times> bool) res" where
  "MulticoreVirtualTimeline_shouldBlockCoreProgress schedulerTimeslot localTimelineId = with_mutex (\<lambda>vt.
     bindE (at_idx (localCoreVirtualTimes vt) localTimelineId) (\<lambda>v.
       if v - globalVirtualTime vt > schedulerTimeslot
       then bindE (disableLocalTimeline localTimelineId vt) (\<lambda>(vt1, allDisabled). Inr (vt1, \<not> allDisabled))
       else Inr (vt, False)))"

definition MulticoreVirtualTimeline_getLocalTimelineActivationTime ::
  "int \<Rightarrow> nat \<Rightarrow> multicore \<Rightarrow> (multicore \<times> int) res" where
  "MulticoreVirtualTimeline_getLocalTimelineActivationTime threadTime localTimelineId vt =
     bindE (with_mutex (\<lambda>vt. bindE (raise_local threadTime localTimelineId vt) (\<lambda>vt1.
              Inr (updateGlobalTimeTo threadTime vt1, ()))) vt) (\<lambda>(vt2, _).
     bindE (at_idx (localCoreVirtualTimes vt2) localTimelineId) (\<lambda>v. Inr (vt2, v)))"

definition DisablingMulticoreVirtualTimeline_getLocalTimelineActivationTime ::
  "int \<Rightarrow> nat \<Rightarrow> multicore \<Rightarrow> (multicore \<times> int) res" where
  "DisablingMulticoreVirtualTimeline_getLocalTimelineActivationTime threadTime localTimelineId vt =
     bindE (with_mutex (\<lambda>vt.
       bindE (at_idx (localCoreActive vt) localTimelineId) (\<lambda>_.
       bindE (raise_local threadTime localTimelineId
                (vt\<lparr>localCoreActive := (localCoreActive vt)[localTimelineId := True]\<rparr>)) (\<lambda>vt1.
         Inr (updateGlobalTimeTo threadTime vt1, ())))) vt) (\<lambda>(vt2, _).
     bindE (at_idx (localCoreVirtualTimes vt2) localTimelineId) (\<lambda>v. Inr (vt2, v)))"

definition getLocalTimelineActivationTime :: "int \<Rightarrow> nat \<Rightarrow> multicore \<Rightarrow> (multicore \<times> int) res" where
  "getLocalTimelineActivationTime threadTime core vt =
     (if disabling vt then DisablingMulticoreVirtualTimeline_getLocalTimelineActivationTime threadTime core vt
      else MulticoreVirtualTimeline_getLocalTimelineActivationTime threadTime core vt)"

definition MulticoreVirtualTimeline_getUpdatedGlobalTime :: "multicore \<Rightarrow> (multicore \<times> int) res" where
  "MulticoreVirtualTimeline_getUpdatedGlobalTime vt = Inr (vt, globalVirtualTime vt)"

definition DisablingMulticoreVirtualTimeline_getUpdatedGlobalTime :: "multicore \<Rightarrow> (multicore \<times> int) res" where
  "DisablingMulticoreVirtualTimeline_getUpdatedGlobalTime vt =
     bindE (with_mutex (\<lambda>vt.
       Inr (if min_active vt \<noteq> LLONG_MAX then vt\<lparr>globalVirtualTime := min_active vt\<rparr> else vt, ())) vt)
     (\<lambda>(vt1, _). Inr (vt1, globalVirtualTime vt1))"

definition getUpdatedGlobalTime :: "multicore \<Rightarrow> (multicore \<times> int) res" where
  "getUpdatedGlobalTime vt =
     (if disabling vt then DisablingMulticoreVirtualTimeline_getUpdatedGlobalTime vt
      else MulticoreVirtualTimeline_getUpdatedGlobalTime vt)"


section \<open>Snapshots\<close>

record snapshot =
  snap_globalTime :: int
  snap_localTime :: int
  snap_localTimelineId :: nat

definition VirtualTimeSnapshot_assign :: "int \<Rightarrow> snapshot" where
  "VirtualTimeSnapshot_assign time =
     \<lparr>snap_globalTime = time, snap_localTime = time, snap_localTimelineId = 0\<rparr>"

definition VirtualTimeSnapshot_set :: "int \<Rightarrow> int \<Rightarrow> nat \<Rightarrow> snapshot" where
  "VirtualTimeSnapshot_set globalTime localTime core =
     \<lparr>snap_globalTime = globalTime, snap_localTime = localTime, snap_localTimelineId = core\<rparr>"

definition VirtualTimeSnapshot_minus_assign :: "snapshot \<Rightarrow> snapshot \<Rightarrow> snapshot res" where
  "VirtualTimeSnapshot_minus_assign lhs rhs =
     (if snap_localTimelineId lhs = snap_localTimelineId rhs
      then Inr (lhs\<lparr>snap_globalTime := snap_globalTime lhs - snap_globalTime rhs,
                    snap_localTime := snap_localTime lhs - snap_localTime rhs\<rparr>)
      else Inl AssertFailed)"

section \<open>Controllers\<close>

text \<open>
  A commit of a thread's progress changes the timeline and the thread. The reads of the wall
  clock in \<open>updateTimesAfterResuming\<close> are the argument \<open>rt\<close>. \<open>assert(false)\<close> stops the
  program.
\<close>

type_synonym 'tl commit_result = "('tl \<times> vex_thread) res"

definition on_timeline ::
  "('tl \<Rightarrow> ('tl \<times> unit) res) \<Rightarrow> 'tl \<Rightarrow> vex_thread \<Rightarrow> 'tl commit_result" where
  "on_timeline f vt s = bindE (f vt) (\<lambda>(vt', _). Inr (vt', s))"

subsection \<open>SingleVirtualTimelineController\<close>

definition Single_commitCpuTimeProgress :: "timeline \<Rightarrow> vex_thread \<Rightarrow> timeline commit_result" where
  "Single_commitCpuTimeProgress vt s =
     on_timeline (VirtualTimeline_leapForwardTo
       (Timers_getCurrentVirtualTimestampOfRunningThread (thr_timers s))) vt s"

definition Single_commitIoTimeProgress :: "int \<Rightarrow> timeline \<Rightarrow> vex_thread \<Rightarrow> timeline commit_result" where
  "Single_commitIoTimeProgress actualIoDuration vt s =
     (let s1 = upd_timers (Timers_updateIoWaitingTimeFrom (globalVirtualTime vt) actualIoDuration) s
      in on_timeline (VirtualTimeline_leapForwardTo (ert s1)) vt s1)"

definition Single_commitTimedWaitingProgress :: "timeline \<Rightarrow> vex_thread \<Rightarrow> timeline commit_result" where
  "Single_commitTimedWaitingProgress vt s =
     (let s1 = upd_timers (Timers_updateWaitingTimeFrom (globalVirtualTime vt)) s
      in on_timeline (VirtualTimeline_leapForwardTo (ert s1)) vt s1)"

definition Single_commitNativeWaitingProgress :: "timeline \<Rightarrow> vex_thread \<Rightarrow> timeline commit_result" where
  "Single_commitNativeWaitingProgress vt s =
     on_timeline (VirtualTimeline_addTimeOfThreadExecutingAtUnknownTime
       (localTimeSinceLastResume (thr_timers s))) vt s"

definition Single_commitBackgroundLoadExecutionTime :: "int \<Rightarrow> timeline \<Rightarrow> (timeline \<times> unit) res" where
  "Single_commitBackgroundLoadExecutionTime backgroundLoadExecutionTime vt =
     VirtualTimeline_addTimeOfUnknownRealTimeDurationAndSynchronize backgroundLoadExecutionTime vt"

definition Single_commitModelSimulationProgress :: "timeline \<Rightarrow> vex_thread \<Rightarrow> timeline commit_result" where
  "Single_commitModelSimulationProgress vt s =
     (if \<not> isModelTimedWaiting s
      then on_timeline (VirtualTimeline_leapForwardTo
             (Timers_getCurrentVirtualTimestampOfRunningThread (thr_timers s))) vt s
      else Inr (vt, s))"

definition Single_commitTimedOutIoProgress :: "timeline \<Rightarrow> vex_thread \<Rightarrow> timeline commit_result" where
  "Single_commitTimedOutIoProgress vt s = Inl AssertFailed"

definition Single_updateResumingSuspendedThreadTimestamp :: "timeline \<Rightarrow> vex_thread \<Rightarrow> vex_thread" where
  "Single_updateResumingSuspendedThreadTimestamp vt s =
     upd_timers (Timers_leapForwardTo (globalVirtualTime vt)) s"

definition Single_updateResumingSuspendedThreadResumedLastTimestamp ::
  "int \<Rightarrow> timeline \<Rightarrow> vex_thread \<Rightarrow> vex_thread" where
  "Single_updateResumingSuspendedThreadResumedLastTimestamp rt vt s =
     upd_timers (Timers_updateTimesAfterResuming (globalVirtualTime vt) rt) s"

definition Single_updateTimedOutWaitingThreadTimestamp :: "timeline \<Rightarrow> vex_thread \<Rightarrow> vex_thread" where
  "Single_updateTimedOutWaitingThreadTimestamp vt s =
     upd_timers (Timers_leapForwardTo (globalVirtualTime vt)) s"

definition Single_updateInterruptedWaitingThreadTimestamp :: "int \<Rightarrow> timeline \<Rightarrow> vex_thread \<Rightarrow> vex_thread" where
  "Single_updateInterruptedWaitingThreadTimestamp interruptTime vt s =
     (if interruptTime = 0 \<and> \<not> dontUpdateToGlobalTime (thr_timers s)
      then upd_timers (Timers_setEstimatedRealTime (globalVirtualTime vt)) s
      else upd_timers (Timers_setEstimatedRealTime interruptTime) s)"

text \<open>The three updates of \<open>updateBlockedThreadTimestamp\<close>.\<close>

definition block_at :: "int \<Rightarrow> timers \<Rightarrow> timers" where
  "block_at now t =
     fst (Timers_getAndResetLocalTime (Timers_setResumedLastAt now (Timers_leapForwardTo now t)))"

definition Single_updateBlockedThreadTimestamp :: "timeline \<Rightarrow> vex_thread \<Rightarrow> vex_thread" where
  "Single_updateBlockedThreadTimestamp vt s = upd_timers (block_at (globalVirtualTime vt)) s"

definition Single_getHowFarAheadInVirtualTimeTheThreadIs :: "timeline \<Rightarrow> vex_thread \<Rightarrow> int" where
  "Single_getHowFarAheadInVirtualTimeTheThreadIs vt s = ert s - globalVirtualTime vt"

definition Single_getCurrentTimeSnapshot :: "timeline \<Rightarrow> snapshot" where
  "Single_getCurrentTimeSnapshot vt = VirtualTimeSnapshot_assign (globalVirtualTime vt)"

subsection \<open>PassiveVirtualTimelineController\<close>

definition passive_add_local :: "timeline \<Rightarrow> vex_thread \<Rightarrow> timeline commit_result" where
  "passive_add_local vt s =
     (let (t, lt) = Timers_getAndResetLocalTime (thr_timers s)
      in bindE (VirtualTimeline_addTimeOfUnknownRealTimeDurationAndSynchronize lt vt) (\<lambda>(vt1, _).
           Inr (vt1, s\<lparr>thr_timers := Timers_setEstimatedRealTime (globalVirtualTime vt1) t\<rparr>)))"

definition Passive_commitCpuTimeProgress :: "timeline \<Rightarrow> vex_thread \<Rightarrow> timeline commit_result" where
  "Passive_commitCpuTimeProgress vt s = passive_add_local vt s"

definition Passive_commitIoTimeProgress :: "int \<Rightarrow> timeline \<Rightarrow> vex_thread \<Rightarrow> timeline commit_result" where
  "Passive_commitIoTimeProgress actualIoDuration vt s =
     passive_add_local vt
       (upd_timers (Timers_updateIoWaitingTimeFrom (globalVirtualTime vt) actualIoDuration) s)"

subsection \<open>MultipleVirtualTimelinesController\<close>

text \<open>The controller of core \<open>core\<close>.\<close>

definition Multiple_commitCpuTimeProgress :: "nat \<Rightarrow> multicore \<Rightarrow> vex_thread \<Rightarrow> multicore commit_result" where
  "Multiple_commitCpuTimeProgress core vt s =
     on_timeline (MulticoreVirtualTimeline_leapForwardTo
       (Timers_getCurrentVirtualTimestampOfRunningThread (thr_timers s)) core) vt s"

definition Multiple_commitIoTimeProgress :: "nat \<Rightarrow> int \<Rightarrow> multicore \<Rightarrow> vex_thread \<Rightarrow> multicore commit_result" where
  "Multiple_commitIoTimeProgress core actualIoDuration vt s =
     bindE (at_idx (localCoreVirtualTimes vt) core) (\<lambda>now.
       let s1 = upd_timers (Timers_updateIoWaitingTimeFrom now actualIoDuration) s
       in on_timeline (MulticoreVirtualTimeline_leapForwardTo (ert s1) core) vt s1)"

definition Multiple_commitTimedWaitingProgress :: "nat \<Rightarrow> multicore \<Rightarrow> vex_thread \<Rightarrow> multicore commit_result" where
  "Multiple_commitTimedWaitingProgress core vt s =
     bindE (at_idx (localCoreVirtualTimes vt) core) (\<lambda>now.
       let s1 = upd_timers (Timers_updateWaitingTimeFrom now) s
       in on_timeline (MulticoreVirtualTimeline_leapForwardTo (ert s1) core) vt s1)"

definition Multiple_commitNativeWaitingProgress :: "nat \<Rightarrow> multicore \<Rightarrow> vex_thread \<Rightarrow> multicore commit_result" where
  "Multiple_commitNativeWaitingProgress core vt s =
     on_timeline (MulticoreVirtualTimeline_addTimeOfThreadExecutingAtUnknownTime
       (localTimeSinceLastResume (thr_timers s))) vt s"

definition Multiple_commitBackgroundLoadExecutionTime :: "int \<Rightarrow> multicore \<Rightarrow> (multicore \<times> unit) res" where
  "Multiple_commitBackgroundLoadExecutionTime backgroundLoadExecutionTime vt =
     MulticoreVirtualTimeline_addTimeOfThreadExecutingAtUnknownTime backgroundLoadExecutionTime vt"

definition Multiple_commitModelSimulationProgress :: "nat \<Rightarrow> multicore \<Rightarrow> vex_thread \<Rightarrow> multicore commit_result" where
  "Multiple_commitModelSimulationProgress core vt s =
     (if \<not> isModelTimedWaiting s
      then bindE (MulticoreVirtualTimeline_leapForwardTo (ert s) core vt) (\<lambda>(vt1, _).
           bindE (at_idx (localCoreVirtualTimes vt1) core) (\<lambda>now.
             Inr (vt1, upd_timers (Timers_leapForwardTo now) s)))
      else Inr (vt, s))"

definition Multiple_commitTimedOutIoProgress :: "nat \<Rightarrow> multicore \<Rightarrow> vex_thread \<Rightarrow> multicore commit_result" where
  "Multiple_commitTimedOutIoProgress core vt s = Inl AssertFailed"

definition Multiple_updateResumingSuspendedThreadTimestamp ::
  "nat \<Rightarrow> multicore \<Rightarrow> vex_thread \<Rightarrow> multicore commit_result" where
  "Multiple_updateResumingSuspendedThreadTimestamp core vt s =
     bindE (at_idx (localCoreVirtualTimes vt) core) (\<lambda>now.
       let s1 = upd_timers (Timers_leapForwardTo now) s
       in if now \<noteq> ert s1
          then on_timeline (MulticoreVirtualTimeline_leapForwardTo (ert s1) core) vt s1
          else Inr (vt, s1))"

definition Multiple_updateResumingSuspendedThreadResumedLastTimestamp ::
  "nat \<Rightarrow> int \<Rightarrow> multicore \<Rightarrow> vex_thread \<Rightarrow> multicore commit_result" where
  "Multiple_updateResumingSuspendedThreadResumedLastTimestamp core rt vt s =
     bindE (getLocalTimelineActivationTime (ert s) core vt) (\<lambda>(vt1, activationTime).
       Inr (vt1, upd_timers (Timers_updateTimesAfterResuming activationTime rt \<circ>
                             Timers_leapForwardTo activationTime) s))"

definition Multiple_updateInterruptedWaitingThreadTimestamp ::
  "nat \<Rightarrow> int \<Rightarrow> multicore \<Rightarrow> vex_thread \<Rightarrow> multicore commit_result" where
  "Multiple_updateInterruptedWaitingThreadTimestamp core interruptTime vt s =
     (if interruptTime = 0 \<and> \<not> dontUpdateToGlobalTime (thr_timers s)
      then bindE (at_idx (localCoreVirtualTimes vt) core) (\<lambda>now.
             Inr (vt, upd_timers (Timers_setEstimatedRealTime now) s))
      else Inr (vt, upd_timers (Timers_setEstimatedRealTime interruptTime) s))"

definition Multiple_updateTimedOutWaitingThreadTimestamp ::
  "nat \<Rightarrow> multicore \<Rightarrow> vex_thread \<Rightarrow> multicore commit_result" where
  "Multiple_updateTimedOutWaitingThreadTimestamp core vt s =
     bindE (at_idx (localCoreVirtualTimes vt) core) (\<lambda>now.
       Inr (vt, upd_timers (Timers_leapForwardTo now) s))"

definition Multiple_updateBlockedThreadTimestamp :: "multicore \<Rightarrow> vex_thread \<Rightarrow> multicore commit_result" where
  "Multiple_updateBlockedThreadTimestamp vt s =
     bindE (getUpdatedGlobalTime vt) (\<lambda>(vt1, now). Inr (vt1, upd_timers (block_at now) s))"

definition Multiple_getHowFarAheadInVirtualTimeTheThreadIs :: "multicore \<Rightarrow> vex_thread \<Rightarrow> int" where
  "Multiple_getHowFarAheadInVirtualTimeTheThreadIs vt s = ert s - globalVirtualTime vt"

definition Multiple_shouldBlockCoreProgress :: "nat \<Rightarrow> int \<Rightarrow> multicore \<Rightarrow> (multicore \<times> bool) res" where
  "Multiple_shouldBlockCoreProgress core schedulerTimeslot vt =
     MulticoreVirtualTimeline_shouldBlockCoreProgress schedulerTimeslot core vt"

definition Multiple_disableCore :: "nat \<Rightarrow> multicore \<Rightarrow> (multicore \<times> bool) res" where
  "Multiple_disableCore core vt = disableLocalTimeline core vt"

definition Multiple_getCurrentTimeSnapshot :: "nat \<Rightarrow> multicore \<Rightarrow> snapshot res" where
  "Multiple_getCurrentTimeSnapshot core vt =
     bindE (at_idx (localCoreVirtualTimes vt) core) (\<lambda>now.
       Inr (VirtualTimeSnapshot_set (globalVirtualTime vt) now core))"


section \<open>The controller interface\<close>

text \<open>The committing methods of \<open>VirtualTimelineController\<close>, and the two implementations of
  the interface as functions of the call.\<close>

datatype commit = Cpu | Io int | TimedWaiting | NativeWaiting | ModelSimulation | TimedOutIo | Background int

fun single_commit :: "commit \<Rightarrow> timeline \<Rightarrow> vex_thread \<Rightarrow> timeline commit_result" where
  "single_commit Cpu vt s = Single_commitCpuTimeProgress vt s"
| "single_commit (Io d) vt s = Single_commitIoTimeProgress d vt s"
| "single_commit TimedWaiting vt s = Single_commitTimedWaitingProgress vt s"
| "single_commit NativeWaiting vt s = Single_commitNativeWaitingProgress vt s"
| "single_commit ModelSimulation vt s = Single_commitModelSimulationProgress vt s"
| "single_commit TimedOutIo vt s = Single_commitTimedOutIoProgress vt s"
| "single_commit (Background d) vt s = on_timeline (Single_commitBackgroundLoadExecutionTime d) vt s"

fun multiple_commit :: "nat \<times> commit \<Rightarrow> multicore \<Rightarrow> vex_thread \<Rightarrow> multicore commit_result" where
  "multiple_commit (core, Cpu) vt s = Multiple_commitCpuTimeProgress core vt s"
| "multiple_commit (core, Io d) vt s = Multiple_commitIoTimeProgress core d vt s"
| "multiple_commit (core, TimedWaiting) vt s = Multiple_commitTimedWaitingProgress core vt s"
| "multiple_commit (core, NativeWaiting) vt s = Multiple_commitNativeWaitingProgress core vt s"
| "multiple_commit (core, ModelSimulation) vt s = Multiple_commitModelSimulationProgress core vt s"
| "multiple_commit (core, TimedOutIo) vt s = Multiple_commitTimedOutIoProgress core vt s"
| "multiple_commit (core, Background d) vt s = on_timeline (Multiple_commitBackgroundLoadExecutionTime d) vt s"

text \<open>The logging decorator \<open>StatisticsEnabledVirtualTimelineController\<close>: a snapshot before, the
  commit of the wrapped controller, a snapshot after, and one call of the logger with both.\<close>

definition StatisticsEnabled_commit ::
  "('c \<Rightarrow> 'tl \<Rightarrow> vex_thread \<Rightarrow> 'tl commit_result) \<Rightarrow> ('c \<Rightarrow> 'tl \<Rightarrow> snapshot res) \<Rightarrow> 'c
     \<Rightarrow> ('c \<times> snapshot \<times> snapshot) list \<Rightarrow> 'tl \<Rightarrow> vex_thread
     \<Rightarrow> (('c \<times> snapshot \<times> snapshot) list \<times> 'tl \<times> vex_thread) res" where
  "StatisticsEnabled_commit ctrl snap c lg vt s =
     bindE (snap c vt) (\<lambda>before.
     bindE (ctrl c vt s) (\<lambda>(vt1, s1).
     bindE (snap c vt1) (\<lambda>after. Inr (lg @ [(c, before, after)], vt1, s1))))"

text \<open>A sequence of commits by any threads.\<close>

fun run_commits :: "('c \<Rightarrow> 'tl \<Rightarrow> vex_thread \<Rightarrow> 'tl commit_result) \<Rightarrow> ('c \<times> vex_thread) list \<Rightarrow> 'tl \<Rightarrow> 'tl res" where
  "run_commits ctrl [] vt = Inr vt"
| "run_commits ctrl ((c, s) # cs) vt = bindE (ctrl c vt s) (\<lambda>(vt', _). run_commits ctrl cs vt')"

fun run_logged :: "('c \<Rightarrow> 'tl \<Rightarrow> vex_thread \<Rightarrow> 'tl commit_result) \<Rightarrow> ('c \<Rightarrow> 'tl \<Rightarrow> snapshot res) \<Rightarrow> ('c \<times> vex_thread) list
    \<Rightarrow> ('c \<times> snapshot \<times> snapshot) list \<Rightarrow> 'tl \<Rightarrow> (('c \<times> snapshot \<times> snapshot) list \<times> 'tl) res" where
  "run_logged ctrl snap [] lg vt = Inr (lg, vt)"
| "run_logged ctrl snap ((c, s) # cs) lg vt =
     bindE (StatisticsEnabled_commit ctrl snap c lg vt s) (\<lambda>(lg', vt', _). run_logged ctrl snap cs lg' vt')"

definition logged_progress :: "('c \<times> snapshot \<times> snapshot) list \<Rightarrow> int" where
  "logged_progress lg = sum_list (map (\<lambda>(_, before, after). snap_globalTime after - snap_globalTime before) lg)"

text \<open>What the thread managers rely on: a commit that carries non-negative progress succeeds,
  leaves the timeline usable and never moves the global time backwards.\<close>

locale timeline_controller =
  fixes ctrl :: "'c \<Rightarrow> 'tl \<Rightarrow> vex_thread \<Rightarrow> 'tl commit_result"
    and gvt :: "'tl \<Rightarrow> int"
    and ready :: "'tl \<Rightarrow> bool"
    and forward :: "'c \<Rightarrow> vex_thread \<Rightarrow> bool"
  assumes commit_forward: "ready vt \<Longrightarrow> forward c s \<Longrightarrow>
     \<exists>vt' s'. ctrl c vt s = Inr (vt', s') \<and> ready vt' \<and> gvt vt \<le> gvt vt'"
begin

lemma run_commits_forward:
  "ready vt \<Longrightarrow> list_all (\<lambda>(c, s). forward c s) cs \<Longrightarrow>
   \<exists>vt'. run_commits ctrl cs vt = Inr vt' \<and> ready vt' \<and> gvt vt \<le> gvt vt'"
proof (induction cs arbitrary: vt)
  case (Cons x cs)
  obtain c s where x: "x = (c, s)" by fastforce
  with Cons.prems obtain vt1 s1 where 1: "ctrl c vt s = Inr (vt1, s1)" "ready vt1" "gvt vt \<le> gvt vt1"
    using commit_forward by fastforce
  with Cons obtain vt' where "run_commits ctrl cs vt1 = Inr vt'" "ready vt'" "gvt vt1 \<le> gvt vt'"
    by fastforce
  with 1 x show ?case by auto
qed auto

end

text \<open>A logged run: the lg is a telescope of snapshots.\<close>

locale logged_controller = timeline_controller ctrl gvt ready forward
  for ctrl :: "'c \<Rightarrow> 'tl \<Rightarrow> vex_thread \<Rightarrow> 'tl commit_result" and gvt and ready and forward +
  fixes snap :: "'c \<Rightarrow> 'tl \<Rightarrow> snapshot res"
  assumes snap_gvt: "ready vt \<Longrightarrow> forward c s \<Longrightarrow> \<exists>sn. snap c vt = Inr sn \<and> snap_globalTime sn = gvt vt"
begin

lemma logged_step:
  assumes "ready vt" and "forward c s"
  shows "\<exists>vt' s' b a. ctrl c vt s = Inr (vt', s') \<and>
     StatisticsEnabled_commit ctrl snap c lg vt s = Inr (lg @ [(c, b, a)], vt', s') \<and>
     ready vt' \<and> snap_globalTime a - snap_globalTime b = gvt vt' - gvt vt"
proof -
  obtain vt' s' where 1: "ctrl c vt s = Inr (vt', s')" "ready vt'"
    using commit_forward [OF assms] by blast
  obtain b where 2: "snap c vt = Inr b" "snap_globalTime b = gvt vt"
    using snap_gvt [OF assms] by blast
  obtain a where 3: "snap c vt' = Inr a" "snap_globalTime a = gvt vt'"
    using snap_gvt [OF 1(2) assms(2)] by blast
  have "StatisticsEnabled_commit ctrl snap c lg vt s = Inr (lg @ [(c, b, a)], vt', s')"
    by (simp add: StatisticsEnabled_commit_def 1 2 3)
  with 1 2 3 show ?thesis by auto
qed

lemma run_logged_refines:
  "ready vt \<Longrightarrow> list_all (\<lambda>(c, s). forward c s) cs \<Longrightarrow>
   \<exists>lg' vt'. run_logged ctrl snap cs lg vt = Inr (lg @ lg', vt') \<and> run_commits ctrl cs vt = Inr vt' \<and>
     map fst lg' = map fst cs \<and> logged_progress lg' = gvt vt' - gvt vt"
proof (induction cs arbitrary: vt lg)
  case (Cons x cs)
  obtain c s where x: "x = (c, s)" by fastforce
  with Cons.prems logged_step [of vt c s lg] obtain vt1 s1 b a where
    1: "ctrl c vt s = Inr (vt1, s1)" "ready vt1"
      "StatisticsEnabled_commit ctrl snap c lg vt s = Inr (lg @ [(c, b, a)], vt1, s1)"
      "snap_globalTime a - snap_globalTime b = gvt vt1 - gvt vt"
    by auto
  with Cons.IH [of vt1 "lg @ [(c, b, a)]"] Cons.prems obtain lg' vt' where
    2: "run_logged ctrl snap cs (lg @ [(c, b, a)]) vt1 = Inr ((lg @ [(c, b, a)]) @ lg', vt')"
      "run_commits ctrl cs vt1 = Inr vt'" "map fst lg' = map fst cs" "logged_progress lg' = gvt vt' - gvt vt1"
    by auto
  have "run_logged ctrl snap (x # cs) lg vt = Inr (lg @ (c, b, a) # lg', vt')"
    by (simp add: x 1 2)
  moreover have "logged_progress ((c, b, a) # lg') = gvt vt' - gvt vt"
    using 1(4) 2(4) by (simp add: logged_progress_def)
  ultimately show ?case
    using 1(1) 2(2,3) x by (intro exI [of _ "(c, b, a) # lg'"] exI [of _ vt']) simp
qed (simp add: logged_progress_def)

end

section \<open>Laws of the timelines\<close>

lemma with_mutex_free:
  "\<not> mutex_held vt \<Longrightarrow> with_mutex f vt =
     bindE (f (vt\<lparr>mutex_held := True\<rparr>)) (\<lambda>(vt', r). Inr (vt'\<lparr>mutex_held := False\<rparr>, r))"
  by (simp add: with_mutex_def)

lemma with_mutex_held: "mutex_held vt \<Longrightarrow> with_mutex f vt = Inl Deadlock"
  by (simp add: with_mutex_def)

lemma leap_eq:
  "\<not> mutex_held (vt :: 'a timeline_scheme) \<Longrightarrow> VirtualTimeline_leapForwardTo f vt =
     Inr (vt\<lparr>globalVirtualTime := max (globalVirtualTime vt) (f + unknownParallelTime vt),
             unknownParallelTime := 0\<rparr>, ())"
  by (simp add: VirtualTimeline_leapForwardTo_def with_mutex_free Let_def max_def)

lemma add_unknown_eq:
  "\<not> mutex_held (vt :: 'a timeline_scheme) \<Longrightarrow> VirtualTimeline_addTimeOfThreadExecutingAtUnknownTime f vt =
     Inr (vt\<lparr>globalVirtualTime := globalVirtualTime vt + f,
             unknownParallelTime := unknownParallelTime vt + f\<rparr>, ())"
  by (simp add: VirtualTimeline_addTimeOfThreadExecutingAtUnknownTime_def with_mutex_free)

lemma add_sync_eq:
  "\<not> mutex_held (vt :: 'a timeline_scheme) \<Longrightarrow> VirtualTimeline_addTimeOfUnknownRealTimeDurationAndSynchronize f vt =
     Inr (vt\<lparr>globalVirtualTime := globalVirtualTime vt + f\<rparr>, ())"
  by (simp add: VirtualTimeline_addTimeOfUnknownRealTimeDurationAndSynchronize_def with_mutex_free)

lemmas single_commits = Single_commitCpuTimeProgress_def Single_commitIoTimeProgress_def
  Single_commitTimedWaitingProgress_def Single_commitNativeWaitingProgress_def
  Single_commitModelSimulationProgress_def Single_commitTimedOutIoProgress_def
  Single_commitBackgroundLoadExecutionTime_def on_timeline_def

text \<open>A commit moves time forward when the local time it adds is not negative.\<close>

fun forward_commit :: "commit \<Rightarrow> vex_thread \<Rightarrow> bool" where
  "forward_commit NativeWaiting s = (0 \<le> localTimeSinceLastResume (thr_timers s))"
| "forward_commit (Background d) s = (0 \<le> d)"
| "forward_commit TimedOutIo s = False"
| "forward_commit _ s = True"

interpretation single: timeline_controller single_commit globalVirtualTime
  "\<lambda>vt. \<not> mutex_held vt" forward_commit
proof
  fix vt c s
  assume "\<not> mutex_held (vt :: timeline)" and "forward_commit c s"
  then show "\<exists>vt' s'. single_commit c vt s = Inr (vt', s') \<and> \<not> mutex_held vt'
      \<and> globalVirtualTime vt \<le> globalVirtualTime vt'"
    by (cases c) (auto simp: single_commits leap_eq add_unknown_eq add_sync_eq Let_def)
qed

interpretation single: logged_controller single_commit globalVirtualTime
  "\<lambda>vt. \<not> mutex_held vt" forward_commit "\<lambda>_ vt. Inr (Single_getCurrentTimeSnapshot vt)"
  by unfold_locales (simp add: Single_getCurrentTimeSnapshot_def VirtualTimeSnapshot_assign_def)


subsection \<open>Laws of the multicore timelines\<close>

text \<open>A timeline of \<open>n\<close> cores between two operations; for the plain class only.\<close>

definition mc_ready :: "nat \<Rightarrow> multicore \<Rightarrow> bool" where
  "mc_ready n vt \<longleftrightarrow> \<not> mutex_held vt \<and> \<not> disabling vt \<and> length (localCoreVirtualTimes vt) = n"

lemma updateGlobalTimeTo_simps [simp]:
  "mutex_held (updateGlobalTimeTo t vt) = mutex_held vt"
  "disabling (updateGlobalTimeTo t vt) = disabling vt"
  "localCoreVirtualTimes (updateGlobalTimeTo t vt) = localCoreVirtualTimes vt"
  "localCoreActive (updateGlobalTimeTo t vt) = localCoreActive vt"
  "\<not> disabling vt \<Longrightarrow> globalVirtualTime (updateGlobalTimeTo t vt) = max (globalVirtualTime vt) t"
  by (simp_all add: updateGlobalTimeTo_def MulticoreVirtualTimeline_updateGlobalTimeTo_def
      DisablingMulticoreVirtualTimeline_updateGlobalTimeTo_def)

lemma mc_leap:
  assumes "mc_ready n vt" and "core < n"
  shows "\<exists>vt'. MulticoreVirtualTimeline_leapForwardTo time core vt = Inr (vt', ()) \<and> mc_ready n vt' \<and>
     globalVirtualTime vt \<le> globalVirtualTime vt' \<and>
     localCoreVirtualTimes vt' = (localCoreVirtualTimes vt)[core := max (localCoreVirtualTimes vt ! core) time]"
  using assms
  by (auto simp: MulticoreVirtualTimeline_leapForwardTo_def with_mutex_free mc_ready_def raise_local_def
      max_def list_update_id)

lemma min_scan_spec:
  "min_scan m k i vs = k \<and> (\<forall>v \<in> set vs. m \<le> v) \<or>
   (\<exists>j < length vs. min_scan m k i vs = i + j \<and> vs ! j < m \<and> (\<forall>v \<in> set vs. vs ! j \<le> v))"
proof (induction vs arbitrary: m k i)
  case (Cons a vs)
  show ?case
  proof (cases "m > a")
    case True
    with Cons.IH [of a i "Suc i"] show ?thesis
      by (auto intro: exI [of _ 0] exI [of _ "Suc _"])
  next
    case False
    with Cons.IH [of m k "Suc i"] show ?thesis
      by (auto intro: exI [of _ "Suc _"])
  qed
qed simp

lemma min_scan_least:
  "min_scan v 0 1 vs < length (v # vs) \<and> (\<forall>w \<in> set (v # vs). (v # vs) ! min_scan v 0 1 vs \<le> w)"
  using min_scan_spec [of v 0 1 vs] by auto

lemma max_scan_Max: "max_scan m vs = Max (set (m # vs))"
proof -
  have "max_scan m vs = fold max vs m"
    by (induction vs arbitrary: m) (simp_all add: max_def)
  then show ?thesis
    by (simp only: Max.set_eq_fold)
qed

lemma mc_add_unknown:
  assumes "mc_ready n vt" and "0 < n" and "0 \<le> d"
  shows "\<exists>vt'. MulticoreVirtualTimeline_addTimeOfThreadExecutingAtUnknownTime d vt = Inr (vt', ()) \<and>
     mc_ready n vt' \<and> globalVirtualTime vt \<le> globalVirtualTime vt'"
  using assms
  by (cases "localCoreVirtualTimes vt")
    (auto simp: MulticoreVirtualTimeline_addTimeOfThreadExecutingAtUnknownTime_def with_mutex_free
      mc_ready_def Let_def split: nat.split)

lemmas multiple_commits = Multiple_commitCpuTimeProgress_def Multiple_commitIoTimeProgress_def
  Multiple_commitTimedWaitingProgress_def Multiple_commitNativeWaitingProgress_def
  Multiple_commitModelSimulationProgress_def Multiple_commitTimedOutIoProgress_def
  Multiple_commitBackgroundLoadExecutionTime_def on_timeline_def

definition mc_forward :: "nat \<Rightarrow> nat \<times> commit \<Rightarrow> vex_thread \<Rightarrow> bool" where
  "mc_forward n cc s \<longleftrightarrow> fst cc < n \<and> forward_commit (snd cc) s"

lemma multiple_commit_forward:
  assumes ready: "mc_ready n vt" and fwd: "mc_forward n cc s"
  shows "\<exists>vt' s'. multiple_commit cc vt s = Inr (vt', s') \<and> mc_ready n vt'
      \<and> globalVirtualTime vt \<le> globalVirtualTime vt'"
proof -
  obtain core c where cc: "cc = (core, c)" by fastforce
  with fwd have core: "core < n" and c: "forward_commit c s"
    by (auto simp: mc_forward_def)
  then have len: "core < length (localCoreVirtualTimes vt)" and pos: "0 < n"
    using ready by (auto simp: mc_ready_def)
  note leap = mc_leap [OF ready core]
  show ?thesis
  proof (cases c)
    case Cpu
    from leap [of "Timers_getCurrentVirtualTimestampOfRunningThread (thr_timers s)"] Cpu cc show ?thesis
      by (auto simp: multiple_commits)
  next
    case (Io d)
    from leap [of "ert s"] Io cc len show ?thesis
      by (auto simp: multiple_commits Let_def upd_timers_def)
  next
    case TimedWaiting
    from leap [of "ert s"] TimedWaiting cc len show ?thesis
      by (auto simp: multiple_commits Let_def upd_timers_def)
  next
    case NativeWaiting
    with c have "0 \<le> localTimeSinceLastResume (thr_timers s)" by simp
    from mc_add_unknown [OF ready pos this] NativeWaiting cc show ?thesis
      by (auto simp: multiple_commits)
  next
    case ModelSimulation
    from leap [of "ert s"] obtain vt' where
      "MulticoreVirtualTimeline_leapForwardTo (ert s) core vt = Inr (vt', ())" "mc_ready n vt'"
      "globalVirtualTime vt \<le> globalVirtualTime vt'" by blast
    with ModelSimulation cc core ready show ?thesis
      by (auto simp: multiple_commits mc_ready_def)
  next
    case (Background d)
    with c have "0 \<le> d" by simp
    from mc_add_unknown [OF ready pos this] Background cc show ?thesis
      by (auto simp: multiple_commits)
  qed (use c in auto)
qed

interpretation multiple: logged_controller multiple_commit globalVirtualTime "mc_ready n" "mc_forward n"
  "\<lambda>cc vt. Multiple_getCurrentTimeSnapshot (fst cc) vt" for n
  by unfold_locales
    (rule multiple_commit_forward, assumption+,
     auto simp: Multiple_getCurrentTimeSnapshot_def VirtualTimeSnapshot_set_def mc_forward_def mc_ready_def)

text \<open>The least active time of the disabling timeline.\<close>

lemma Min_insert_min:
  "finite S \<Longrightarrow> Min (insert (min v m) S) = Min (insert m (insert v S))"
  by (cases "S = {}") (simp_all add: min.assoc min.commute min.left_commute)

lemma fold_min_active:
  "fold (\<lambda>(active, v) m. if active \<and> v < m then v else m) ps m =
     Min (insert m (snd ` {p \<in> set ps. fst p}))"
proof (induction ps arbitrary: m)
  case (Cons p ps)
  obtain a v where p: "p = (a, v)" by fastforce
  let ?m = "if a then min v m else m"
  let ?S = "snd ` {p \<in> set ps. fst p}"
  have "snd ` {q \<in> set (p # ps). fst q} = (if a then insert v ?S else ?S)"
    using p by (auto simp: image_def)
  moreover have "Min (insert ?m ?S) = Min (insert m (if a then insert v ?S else ?S))"
    using Min_insert_min [of ?S v m] by simp
  moreover have "(if a \<and> v < m then v else m) = ?m"
    by (auto simp: min_def)
  ultimately show ?case
    using p Cons.IH [of ?m] by simp
qed simp

definition active_times :: "multicore \<Rightarrow> int set" where
  "active_times vt = {localCoreVirtualTimes vt ! i | i.
     i < length (localCoreVirtualTimes vt) \<and> i < length (localCoreActive vt) \<and> localCoreActive vt ! i}"

lemma active_times_zip:
  "snd ` {p \<in> set (zip (localCoreActive vt) (localCoreVirtualTimes vt)). fst p} = active_times vt"
  by (auto simp: active_times_def set_zip image_def)

lemma min_active_Min: "min_active vt = Min (insert LLONG_MAX (active_times vt))"
  by (simp add: min_active_def fold_min_active active_times_zip)


section \<open>Properties\<close>







text \<open>
  The time of native waiting threads is counted exactly once: after any number of commits of
  threads that ran at an unknown time, a commit up to \<open>f\<close> sets the global time to the later of
  \<open>f\<close> and the time before those commits, plus their total, and clears the pending time.
\<close>

theorem native_waiting_time_counted_once:
  assumes "\<not> mutex_held vt" and "unknownParallelTime vt = 0"
  shows "\<exists>vt'. run_commits (\<lambda>d vt s. on_timeline (VirtualTimeline_addTimeOfThreadExecutingAtUnknownTime d) vt s)
            (map (\<lambda>d. (d, s)) ds) vt = Inr vt' \<and>
       VirtualTimeline_leapForwardTo f vt' =
         Inr (vt\<lparr>globalVirtualTime := max (globalVirtualTime vt) f + sum_list ds\<rparr>, ())"
proof -
  let ?run = "\<lambda>ds. run_commits (\<lambda>d vt s. on_timeline (VirtualTimeline_addTimeOfThreadExecutingAtUnknownTime d) vt s)
      (map (\<lambda>d. (d, s)) ds)"
  have run: "?run ds vt = Inr (vt\<lparr>globalVirtualTime := globalVirtualTime vt + sum_list ds,
      unknownParallelTime := unknownParallelTime vt + sum_list ds\<rparr>)" if "\<not> mutex_held vt" for vt ds
    using that
    by (induction ds arbitrary: vt) (simp_all add: on_timeline_def add_unknown_eq add.assoc)
  show ?thesis
    using assms by (simp add: run leap_eq max_add_distrib_left)
qed

theorem native_waiting_time_counted_once_witness:
  "\<exists>vt'. run_commits (\<lambda>d vt s. on_timeline (VirtualTimeline_addTimeOfThreadExecutingAtUnknownTime d) vt s)
          (map (\<lambda>d. (d, example_thread)) [3, 4]) VirtualTimeline_VirtualTimeline = Inr vt' \<and>
     VirtualTimeline_leapForwardTo 10 vt' =
       Inr (VirtualTimeline_VirtualTimeline\<lparr>globalVirtualTime := 17\<rparr>, ())"
  using native_waiting_time_counted_once [of VirtualTimeline_VirtualTimeline example_thread "[3, 4]" 10]
  by (simp add: VirtualTimeline_VirtualTimeline_def VirtualTimeline_reset_def)

text \<open>
  Background load synchronises the cores: \<open>addTimeOfUnknownRealTimeDurationAndSynchronize\<close> moves
  every core of a multicore timeline to the latest local time plus the load, and the global
  virtual time at least there.
\<close>

theorem background_load_synchronizes_cores:
  assumes "mc_ready n vt" and "0 < n"
  shows "\<exists>vt'. MulticoreVirtualTimeline_addTimeOfUnknownRealTimeDurationAndSynchronize d vt = Inr (vt', ()) \<and>
     localCoreVirtualTimes vt' = replicate n (Max (set (localCoreVirtualTimes vt)) + d) \<and>
     globalVirtualTime vt' = max (globalVirtualTime vt) (Max (set (localCoreVirtualTimes vt)) + d)"
proof -
  from assms obtain v vs where vs: "localCoreVirtualTimes vt = v # vs"
    by (cases "localCoreVirtualTimes vt") (auto simp: mc_ready_def)
  from assms vs show ?thesis
    by (auto simp: MulticoreVirtualTimeline_addTimeOfUnknownRealTimeDurationAndSynchronize_def with_mutex_free
        mc_ready_def Let_def max_scan_Max map_replicate_const)
qed

theorem background_load_synchronizes_cores_witness:
  "\<exists>vt'. MulticoreVirtualTimeline_addTimeOfUnknownRealTimeDurationAndSynchronize 5
       ((MulticoreVirtualTimeline_MulticoreVirtualTimeline 2)\<lparr>localCoreVirtualTimes := [30, 40]\<rparr>) = Inr (vt', ()) \<and>
     localCoreVirtualTimes vt' = [45, 45] \<and> globalVirtualTime vt' = 45"
  using background_load_synchronizes_cores
    [of 2 "(MulticoreVirtualTimeline_MulticoreVirtualTimeline 2)\<lparr>localCoreVirtualTimes := [30, 40]\<rparr>" 5]
  by (simp add: mc_ready_def MulticoreVirtualTimeline_MulticoreVirtualTimeline_def numeral_2_eq_2)

text \<open>
  On the strictly synchronised timeline the global virtual time is the oldest local time of an
  active core: that is what \<open>getUpdatedGlobalTime\<close> returns and stores whenever some core is active
  and the local times have not reached \<open>LLONG_MAX\<close>; without an active core the global time stays.
\<close>

theorem strict_global_time_is_oldest_active:
  assumes "disabling vt" and "\<not> mutex_held vt" and "\<forall>t \<in> active_times vt. t < LLONG_MAX"
  shows "getUpdatedGlobalTime vt =
     (if active_times vt = {} then Inr (vt, globalVirtualTime vt)
      else Inr (vt\<lparr>globalVirtualTime := Min (active_times vt)\<rparr>, Min (active_times vt)))"
proof -
  have fin: "finite (active_times vt)"
    by (simp add: active_times_def)
  have "min_active vt = (if active_times vt = {} then LLONG_MAX else Min (active_times vt))"
    using assms(3) fin by (auto simp: min_active_Min min_def) (meson Min_in leD)
  moreover have "active_times vt \<noteq> {} \<Longrightarrow> Min (active_times vt) \<noteq> LLONG_MAX"
    using assms(3) fin Min_in [of "active_times vt"] by fastforce
  moreover have "min_active (vt\<lparr>mutex_held := True\<rparr>) = min_active vt"
    by (simp add: min_active_def)
  moreover have "vt\<lparr>mutex_held := False\<rparr> = vt"
    using assms(2) by simp
  ultimately show ?thesis
    using assms(1,2)
    by (simp add: getUpdatedGlobalTime_def DisablingMulticoreVirtualTimeline_getUpdatedGlobalTime_def
        with_mutex_free)
qed

text \<open>A strict timeline of two cores, the second of which is active and ahead.\<close>

definition example_strict :: multicore where
  "example_strict =
     (DisablingMulticoreVirtualTimeline_DisablingMulticoreVirtualTimeline 2)
       \<lparr>localCoreVirtualTimes := [0, 500], localCoreActive := [False, True]\<rparr>"

theorem strict_global_time_is_oldest_active_witness:
  "getUpdatedGlobalTime example_strict = Inr (example_strict\<lparr>globalVirtualTime := 500\<rparr>, 500)"
proof -
  have act: "active_times example_strict = {500}"
    by (auto simp: active_times_def example_strict_def less_Suc_eq nth_Cons')
  show ?thesis
    using strict_global_time_is_oldest_active [of example_strict]
    by (simp add: act LLONG_MAX_def) (simp add: example_strict_def
        DisablingMulticoreVirtualTimeline_DisablingMulticoreVirtualTimeline_def
        MulticoreVirtualTimeline_MulticoreVirtualTimeline_def)
qed

text \<open>
  \<open>shouldBlockCoreProgress\<close> deadlocks on the strict timeline: it holds the timeline's mutex when
  it calls the virtual \<open>disableLocalTimeline\<close>, whose override locks the same non-recursive mutex.
  This happens for every core that is more than a timeslot ahead of the global virtual time.
\<close>

theorem strict_shouldBlockCoreProgress_deadlocks:
  assumes "disabling vt" and "core < length (localCoreVirtualTimes vt)"
    and "localCoreVirtualTimes vt ! core - globalVirtualTime vt > slot"
  shows "MulticoreVirtualTimeline_shouldBlockCoreProgress slot core vt = Inl Deadlock"
proof (cases "mutex_held vt")
  case True
  then show ?thesis
    by (simp add: MulticoreVirtualTimeline_shouldBlockCoreProgress_def with_mutex_held)
next
  case False
  with assms show ?thesis
    by (simp add: MulticoreVirtualTimeline_shouldBlockCoreProgress_def with_mutex_free
        disableLocalTimeline_def DisablingMulticoreVirtualTimeline_disableLocalTimeline_def with_mutex_held)
qed

theorem strict_shouldBlockCoreProgress_deadlocks_witness:
  "MulticoreVirtualTimeline_shouldBlockCoreProgress 100 1 example_strict = Inl Deadlock"
  by (rule strict_shouldBlockCoreProgress_deadlocks)
    (simp_all add: example_strict_def DisablingMulticoreVirtualTimeline_DisablingMulticoreVirtualTimeline_def
      MulticoreVirtualTimeline_MulticoreVirtualTimeline_def)

text \<open>
  On the loosely synchronised timeline \<open>shouldBlockCoreProgress\<close> answers whether the core is more
  than a timeslot ahead of the global virtual time, and changes nothing.
\<close>

theorem loose_shouldBlockCoreProgress:
  assumes "mc_ready n vt" and "core < n"
  shows "MulticoreVirtualTimeline_shouldBlockCoreProgress slot core vt =
     Inr (vt, localCoreVirtualTimes vt ! core - globalVirtualTime vt > slot)"
proof -
  from assms have "vt\<lparr>mutex_held := False\<rparr> = vt" by (simp add: mc_ready_def)
  with assms show ?thesis
    by (simp add: MulticoreVirtualTimeline_shouldBlockCoreProgress_def with_mutex_free mc_ready_def
        disableLocalTimeline_def MulticoreVirtualTimeline_disableLocalTimeline_def)
qed

theorem loose_shouldBlockCoreProgress_witness:
  "MulticoreVirtualTimeline_shouldBlockCoreProgress 100 1
     ((MulticoreVirtualTimeline_MulticoreVirtualTimeline 2)\<lparr>localCoreVirtualTimes := [0, 500]\<rparr>) =
   Inr ((MulticoreVirtualTimeline_MulticoreVirtualTimeline 2)\<lparr>localCoreVirtualTimes := [0, 500]\<rparr>, True)"
  using loose_shouldBlockCoreProgress [of 2 "(MulticoreVirtualTimeline_MulticoreVirtualTimeline 2)
      \<lparr>localCoreVirtualTimes := [0, 500]\<rparr>" 1 100]
  by (simp add: mc_ready_def MulticoreVirtualTimeline_MulticoreVirtualTimeline_def)

end
