(* ===== verification/Vex_PQueue.thy ===== *)
theory Vex_PQueue
  imports Vex_Prelude
begin

text \<open>
  The priority queue of \<open>ds/AdaptiblePQueue.h\<close>: \<open>std::priority_queue\<close> with access to the
  underlying container, so that the heap can be searched, erased from and rebuilt.

  The container is a list, the comparison an argument \<open>cmp\<close>, where \<open>cmp a b\<close> says that \<open>a\<close> is
  served after \<open>b\<close>. The heap algorithms are those of the C++ library the program is built with:
  \<open>push_heap\<close> lifts a hole towards the root, \<open>pop_heap\<close> and \<open>make_heap\<close> sink a hole to a leaf
  and lift the value from there. The order of the container is visible to the clients, which
  iterate over it, so the algorithms are modelled with their element moves.

  The lemmas show that each operation yields a heap with the expected elements, for every
  comparison that is a strict weak order.
\<close>

section \<open>Heap algorithms\<close>

function push_hole :: "('a \<Rightarrow> 'a \<Rightarrow> bool) \<Rightarrow> 'a list \<Rightarrow> nat \<Rightarrow> nat \<Rightarrow> 'a \<Rightarrow> 'a list" where
  "push_hole cmp xs hole topIndex v =
     (let parent = (hole - 1) div 2
      in if topIndex < hole \<and> cmp (xs ! parent) v
         then push_hole cmp (xs[hole := xs ! parent]) parent topIndex v
         else xs[hole := v])"
  by pat_completeness auto
termination by (relation "measure (\<lambda>(_, _, hole, _, _). hole)") auto

declare push_hole.simps [simp del]

function sink_hole :: "('a \<Rightarrow> 'a \<Rightarrow> bool) \<Rightarrow> 'a list \<Rightarrow> nat \<Rightarrow> nat \<Rightarrow> 'a list \<times> nat" where
  "sink_hole cmp xs hole len =
     (if hole < (len - 1) div 2
      then let second = 2 * (hole + 1);
               child = (if cmp (xs ! second) (xs ! (second - 1)) then second - 1 else second)
           in sink_hole cmp (xs[hole := xs ! child]) child len
      else if even len \<and> 2 \<le> len \<and> hole = (len - 2) div 2
      then (xs[hole := xs ! (2 * hole + 1)], 2 * hole + 1)
      else (xs, hole))"
  by pat_completeness auto
termination by (relation "measure (\<lambda>(_, _, hole, len). len - hole)") (auto simp: Let_def)

declare sink_hole.simps [simp del]

definition adjust_heap :: "('a \<Rightarrow> 'a \<Rightarrow> bool) \<Rightarrow> 'a list \<Rightarrow> nat \<Rightarrow> 'a \<Rightarrow> 'a list" where
  "adjust_heap cmp xs topIndex v =
     (let (ys, hole) = sink_hole cmp xs topIndex (length xs) in push_hole cmp ys hole topIndex v)"

primrec heapify :: "('a \<Rightarrow> 'a \<Rightarrow> bool) \<Rightarrow> nat \<Rightarrow> 'a list \<Rightarrow> 'a list" where
  "heapify cmp 0 xs = xs"
| "heapify cmp (Suc parent) xs = heapify cmp parent (adjust_heap cmp xs parent (xs ! parent))"

definition make_heap :: "('a \<Rightarrow> 'a \<Rightarrow> bool) \<Rightarrow> 'a list \<Rightarrow> 'a list" where
  "make_heap cmp xs = heapify cmp (length xs div 2) xs"

definition push_heap :: "('a \<Rightarrow> 'a \<Rightarrow> bool) \<Rightarrow> 'a list \<Rightarrow> 'a list" where
  "push_heap cmp xs = push_hole cmp xs (length xs - 1) 0 (last xs)"

definition pop_heap :: "('a \<Rightarrow> 'a \<Rightarrow> bool) \<Rightarrow> 'a list \<Rightarrow> 'a list" where
  "pop_heap cmp xs =
     (if length xs > 1 then adjust_heap cmp (butlast xs) 0 (last xs) @ [hd xs] else xs)"

section \<open>AdaptiblePQueue\<close>

definition pq_push :: "('a \<Rightarrow> 'a \<Rightarrow> bool) \<Rightarrow> 'a \<Rightarrow> 'a list \<Rightarrow> 'a list" where
  "pq_push cmp x c = push_heap cmp (c @ [x])"

definition pq_top :: "'a list \<Rightarrow> 'a option" where
  "pq_top c = (case c of [] \<Rightarrow> None | x # _ \<Rightarrow> Some x)"

definition pq_pop :: "('a \<Rightarrow> 'a \<Rightarrow> bool) \<Rightarrow> 'a list \<Rightarrow> 'a list" where
  "pq_pop cmp c = butlast (pop_heap cmp c)"

definition AdaptiblePQueue_update :: "('a \<Rightarrow> 'a \<Rightarrow> bool) \<Rightarrow> 'a list \<Rightarrow> 'a list" where
  "AdaptiblePQueue_update cmp c = make_heap cmp c"

fun AdaptiblePQueue_find :: "'a \<Rightarrow> 'a list \<Rightarrow> bool" where
  "AdaptiblePQueue_find state [] = False"
| "AdaptiblePQueue_find state (x # it) = (if x = state then True else AdaptiblePQueue_find state it)"

fun erase_first :: "'a \<Rightarrow> 'a list \<Rightarrow> 'a list" where
  "erase_first state [] = []"
| "erase_first state (x # it) = (if x = state then it else x # erase_first state it)"

definition AdaptiblePQueue_erase :: "('a \<Rightarrow> 'a \<Rightarrow> bool) \<Rightarrow> 'a \<Rightarrow> 'a list \<Rightarrow> 'a list" where
  "AdaptiblePQueue_erase cmp state c = AdaptiblePQueue_update cmp (erase_first state c)"

fun erase_every :: "'a \<Rightarrow> 'a list \<Rightarrow> 'a list" where
  "erase_every state [] = []"
| "erase_every state (x # it) = (if x = state then erase_every state it else x # erase_every state it)"

definition AdaptiblePQueue_eraseAll :: "('a \<Rightarrow> 'a \<Rightarrow> bool) \<Rightarrow> 'a \<Rightarrow> 'a list \<Rightarrow> 'a list" where
  "AdaptiblePQueue_eraseAll cmp state c = AdaptiblePQueue_update cmp (erase_every state c)"

section \<open>Heap order\<close>

text \<open>\<open>heap_from cmp t xs\<close>: every element whose parent has an index of at least \<open>t\<close> is not
  served before its parent.\<close>

definition heap_from :: "('a \<Rightarrow> 'a \<Rightarrow> bool) \<Rightarrow> nat \<Rightarrow> 'a list \<Rightarrow> bool" where
  "heap_from cmp t xs \<longleftrightarrow>
     (\<forall>i < length xs. 0 < i \<and> t \<le> (i - 1) div 2 \<longrightarrow> \<not> cmp (xs ! ((i - 1) div 2)) (xs ! i))"

definition is_heap :: "('a \<Rightarrow> 'a \<Rightarrow> bool) \<Rightarrow> 'a list \<Rightarrow> bool" where
  "is_heap cmp xs = heap_from cmp 0 xs"

definition strict_weak :: "('a \<Rightarrow> 'a \<Rightarrow> bool) \<Rightarrow> bool" where
  "strict_weak cmp \<longleftrightarrow>
     (\<forall>a b. cmp a b \<longrightarrow> \<not> cmp b a) \<and> (\<forall>a b c. \<not> cmp a b \<longrightarrow> \<not> cmp b c \<longrightarrow> \<not> cmp a c)"

lemma find_set [simp]: "AdaptiblePQueue_find x xs \<longleftrightarrow> x \<in> set xs"
  by (induction xs) auto

lemma erase_first_remove1 [simp]: "erase_first x xs = remove1 x xs"
  by (induction xs) auto

lemma erase_every_removeAll [simp]: "erase_every x xs = removeAll x xs"
  by (induction xs) auto

lemma mset_move:
  "i < length xs \<Longrightarrow> j < length xs \<Longrightarrow> i \<noteq> j \<Longrightarrow> mset (xs[i := xs ! j, j := v]) = mset (xs[i := v])"
  by (simp add: mset_update nth_list_update)

lemma length_push_hole [simp]: "length (push_hole cmp xs hole topIndex v) = length xs"
  by (induction cmp xs hole topIndex v rule: push_hole.induct) (subst push_hole.simps, simp add: Let_def)

lemma mset_push_hole:
  "hole < length xs \<Longrightarrow> mset (push_hole cmp xs hole topIndex v) = mset (xs[hole := v])"
proof (induction cmp xs hole topIndex v rule: push_hole.induct)
  case (1 cmp xs hole topIndex v)
  let ?p = "(hole - 1) div 2"
  have p: "?p < length xs" "topIndex < hole \<Longrightarrow> ?p \<noteq> hole"
    using "1.prems" by auto
  show ?case
    using "1.IH" [OF refl] p "1.prems"
    by (subst push_hole.simps) (auto simp: Let_def mset_move)
qed

text \<open>The lifting phase: all edges away from the hole are in order, and the children of the hole
  are in order both below the value to be stored and below the parent of the hole.\<close>

definition hole_inv :: "('a \<Rightarrow> 'a \<Rightarrow> bool) \<Rightarrow> nat \<Rightarrow> 'a list \<Rightarrow> nat \<Rightarrow> 'a \<Rightarrow> bool" where
  "hole_inv cmp t xs hole v \<longleftrightarrow>
     (\<forall>i < length xs. 0 < i \<and> t \<le> (i - 1) div 2 \<and> i \<noteq> hole \<longrightarrow>
        (if (i - 1) div 2 = hole
         then \<not> cmp v (xs ! i) \<and> (0 < hole \<and> t \<le> (hole - 1) div 2 \<longrightarrow> \<not> cmp (xs ! ((hole - 1) div 2)) (xs ! i))
         else \<not> cmp (xs ! ((i - 1) div 2)) (xs ! i)))"

lemma strict_weakD:
  assumes "strict_weak cmp"
  shows "cmp a b \<Longrightarrow> \<not> cmp b a" and "\<not> cmp a b \<Longrightarrow> \<not> cmp b c \<Longrightarrow> \<not> cmp a c" and "\<not> cmp a a"
  using assms unfolding strict_weak_def by blast+

text \<open>The hole stays below the index it started from.\<close>

function in_subtree :: "nat \<Rightarrow> nat \<Rightarrow> bool" where
  "in_subtree t h = (if t < h then in_subtree t ((h - 1) div 2) else h = t)"
  by pat_completeness auto
termination by (relation "measure snd") auto

declare in_subtree.simps [simp del]

lemma in_subtree_ge: "in_subtree t h \<Longrightarrow> t \<le> h"
  by (subst (asm) in_subtree.simps) (simp split: if_splits)

lemma in_subtree_root [simp]: "in_subtree t t"
  by (subst in_subtree.simps) simp

lemma in_subtree_parent: "in_subtree t h \<Longrightarrow> t < h \<Longrightarrow> in_subtree t ((h - 1) div 2)"
  by (subst (asm) in_subtree.simps) auto

lemma in_subtree_child: "in_subtree t h \<Longrightarrow> c = 2 * h + 1 \<or> c = 2 * h + 2 \<Longrightarrow> in_subtree t c"
  by (subst in_subtree.simps) (auto dest: in_subtree_ge)

lemma hole_inv_lift:
  assumes sw: "strict_weak cmp" and inv: "hole_inv cmp t xs hole v"
    and hole: "hole < length xs" "0 < hole" and less: "cmp (xs ! ((hole - 1) div 2)) v"
    and t: "t \<le> (hole - 1) div 2"
  shows "hole_inv cmp t (xs[hole := xs ! ((hole - 1) div 2)]) ((hole - 1) div 2) v"
proof -
  let ?p = "(hole - 1) div 2" and ?ys = "xs[hole := xs ! ((hole - 1) div 2)]"
  have p: "?p < hole" "(?p - 1) div 2 < hole" using hole(2) by linarith+
  have v: "\<not> cmp v (xs ! ?p)" using strict_weakD(1) [OF sw less] .
  have edge: "\<not> cmp (xs ! ((i - 1) div 2)) (xs ! i)"
    if "i < length xs" "0 < i" "t \<le> (i - 1) div 2" "i \<noteq> hole" "(i - 1) div 2 \<noteq> hole" for i
    using inv that unfolding hole_inv_def by metis
  have child: "\<not> cmp (xs ! ?p) (xs ! i)"
    if "i < length xs" "0 < i" "(i - 1) div 2 = hole" "t \<le> hole" for i
  proof -
    have "i \<noteq> hole" using that hole by auto
    then show ?thesis using inv that hole t unfolding hole_inv_def by auto
  qed
  show ?thesis
    unfolding hole_inv_def
  proof (intro allI impI)
    fix i
    assume i: "i < length ?ys" and c: "0 < i \<and> t \<le> (i - 1) div 2 \<and> i \<noteq> ?p"
    show "if (i - 1) div 2 = ?p
          then \<not> cmp v (?ys ! i) \<and> (0 < ?p \<and> t \<le> (?p - 1) div 2 \<longrightarrow> \<not> cmp (?ys ! ((?p - 1) div 2)) (?ys ! i))
          else \<not> cmp (?ys ! ((i - 1) div 2)) (?ys ! i)"
    proof (cases "(i - 1) div 2 = ?p")
      case True
      have le: "\<not> cmp (xs ! ?p) (?ys ! i)"
        using edge [of i] i c True p strict_weakD(3) [OF sw] by (cases "i = hole") auto
      have up: "\<not> cmp (xs ! ((?p - 1) div 2)) (xs ! ?p)" if "0 < ?p" "t \<le> (?p - 1) div 2"
        using edge [OF _ that] p hole by simp
      show ?thesis
        using p True strict_weakD(2) [OF sw v le] strict_weakD(2) [OF sw up le] by simp
    next
      case False
      then have ne: "i \<noteq> hole" by auto
      have "\<not> cmp (?ys ! ((i - 1) div 2)) (xs ! i)"
      proof (cases "(i - 1) div 2 = hole")
        case True
        with child [of i] i c hole show ?thesis by simp
      next
        case False
        with edge [of i] i c ne show ?thesis by simp
      qed
      then show ?thesis using False ne by simp
    qed
  qed
qed

lemma push_hole_heap:
  "strict_weak cmp \<Longrightarrow> hole_inv cmp t xs hole v \<Longrightarrow> hole < length xs \<Longrightarrow> in_subtree t hole \<Longrightarrow>
   heap_from cmp t (push_hole cmp xs hole t v)"
proof (induction cmp xs hole t v rule: push_hole.induct)
  case (1 cmp xs hole t v)
  let ?p = "(hole - 1) div 2"
  show ?case
  proof (cases "t < hole \<and> cmp (xs ! ?p) v")
    case True
    then have sub: "in_subtree t ?p" using "1.prems" in_subtree_parent by blast
    have "hole_inv cmp t (xs[hole := xs ! ?p]) ?p v"
      using hole_inv_lift [OF "1.prems"(1-3)] True in_subtree_ge [OF sub] by auto
    then have "heap_from cmp t (push_hole cmp (xs[hole := xs ! ?p]) ?p t v)"
      using "1.IH" [OF refl True "1.prems"(1)] "1.prems"(3) sub by auto
    then show ?thesis using True by (subst push_hole.simps) (simp add: Let_def)
  next
    case False
    have "heap_from cmp t (xs[hole := v])"
      unfolding heap_from_def
    proof (intro allI impI)
      fix i
      assume i: "i < length (xs[hole := v])" and c: "0 < i \<and> t \<le> (i - 1) div 2"
      consider "i = hole" | "i \<noteq> hole" "(i - 1) div 2 = hole" | "i \<noteq> hole" "(i - 1) div 2 \<noteq> hole"
        by blast
      then show "\<not> cmp (xs[hole := v] ! ((i - 1) div 2)) (xs[hole := v] ! i)"
      proof cases
        case 1
        then have "t < hole" using c by auto
        then show ?thesis using False 1 c i by auto
      qed (use "1.prems"(2) i c in \<open>auto simp: hole_inv_def\<close>)
    qed
    then show ?thesis using False by (subst push_hole.simps) (auto simp: Let_def)
  qed
qed

lemma heap_from_Suc: "heap_from cmp t xs \<Longrightarrow> heap_from cmp (Suc t) xs"
  by (auto simp: heap_from_def)

text \<open>The sinking phase: the child pulled up is at least as urgent as its sibling. While the hole
  still holds the value it had, the list is a heap again after the first pull.\<close>

lemma heap_from_pull:
  assumes sw: "strict_weak cmp" and below: "heap_from cmp (Suc t) xs"
    and here: "h = t \<or> heap_from cmp t xs" and h: "in_subtree t h"
    and c: "c < length xs" "0 < c" "(c - 1) div 2 = h"
    and sib: "\<And>i. i < length xs \<Longrightarrow> 0 < i \<Longrightarrow> (i - 1) div 2 = h \<Longrightarrow> \<not> cmp (xs ! c) (xs ! i)"
  shows "heap_from cmp t (xs[h := xs ! c])"
  unfolding heap_from_def
proof (intro allI impI)
  fix i
  assume i: "i < length (xs[h := xs ! c])" and p: "0 < i \<and> t \<le> (i - 1) div 2"
  have hc: "h < c" "h < length xs" using c by linarith+
  consider "i = h" | "i \<noteq> h" "(i - 1) div 2 = h" | "i \<noteq> h" "(i - 1) div 2 \<noteq> h" by blast
  then show "\<not> cmp (xs[h := xs ! c] ! ((i - 1) div 2)) (xs[h := xs ! c] ! i)"
  proof cases
    case 1
    then have "h \<noteq> t" using p by auto
    with here have heap: "heap_from cmp t xs" by simp
    have "\<not> cmp (xs ! ((h - 1) div 2)) (xs ! h)" "\<not> cmp (xs ! h) (xs ! c)"
      using heap i p c hc 1 in_subtree_ge [OF h] unfolding heap_from_def by auto
    then have "\<not> cmp (xs ! ((h - 1) div 2)) (xs ! c)" using strict_weakD(2) [OF sw] by blast
    moreover have "(h - 1) div 2 \<noteq> h" using 1 p by auto
    ultimately show ?thesis using 1 hc by simp
  next
    case 2
    then show ?thesis using sib [of i] i p hc by simp
  next
    case 3
    then have "\<not> cmp (xs ! ((i - 1) div 2)) (xs ! i)"
      using here below i p by (cases "h = t") (auto simp: heap_from_def)
    with 3 show ?thesis by simp
  qed
qed

definition sunk :: "('a \<Rightarrow> 'a \<Rightarrow> bool) \<Rightarrow> nat \<Rightarrow> 'a list \<Rightarrow> nat \<Rightarrow> 'a list \<Rightarrow> nat \<Rightarrow> bool" where
  "sunk cmp t xs h ys h' \<longleftrightarrow>
     length ys = length xs \<and> h' < length xs \<and> in_subtree t h' \<and> (h' = t \<or> heap_from cmp t ys) \<and>
     heap_from cmp (Suc t) ys \<and> (\<forall>v. mset (ys[h' := v]) = mset (xs[h := v]))"

lemma sunk_pull:
  assumes "strict_weak cmp" "sunk cmp t xs h xs h"
    and c: "c < length xs" "c = 2 * h + 1 \<or> c = 2 * h + 2"
    and sib: "\<And>i. i < length xs \<Longrightarrow> i = 2 * h + 1 \<or> i = 2 * h + 2 \<Longrightarrow> \<not> cmp (xs ! c) (xs ! i)"
  shows "sunk cmp t xs h (xs[h := xs ! c]) c"
proof -
  have "heap_from cmp t (xs[h := xs ! c])"
  proof (rule heap_from_pull)
    show "\<not> cmp (xs ! c) (xs ! i)" if "i < length xs" "0 < i" "(i - 1) div 2 = h" for i
    proof -
      have "i = 2 * h + 1 \<or> i = 2 * h + 2" using that(2,3) by presburger
      then show ?thesis by (rule sib [OF that(1)])
    qed
  qed (use assms in \<open>auto simp: sunk_def\<close>)
  then show ?thesis
    using assms in_subtree_child [of t h c] by (auto simp: sunk_def mset_move heap_from_Suc)
qed

lemma sink_hole_spec:
  "sink_hole cmp xs h len = (ys, h') \<Longrightarrow> strict_weak cmp \<Longrightarrow> len = length xs \<Longrightarrow> sunk cmp t xs h xs h \<Longrightarrow>
   sunk cmp t xs h ys h' \<and> length xs \<le> 2 * h' + 1"
proof (induction cmp xs h len arbitrary: ys h' rule: sink_hole.induct)
  case (1 cmp xs h len)
  show ?case
  proof (cases "h < (len - 1) div 2")
    case True
    define second where "second = 2 * (h + 1)"
    define c where "c = (if cmp (xs ! second) (xs ! (second - 1)) then second - 1 else second)"
    have c: "c < length xs" "c = 2 * h + 1 \<or> c = 2 * h + 2"
      using True "1.prems"(3) by (auto simp: c_def second_def)
    have sib: "\<not> cmp (xs ! c) (xs ! i)" if "i = 2 * h + 1 \<or> i = 2 * h + 2" for i
      using that strict_weakD(1,3) [OF "1.prems"(2)] by (auto simp: c_def second_def)
    have pull: "sunk cmp t xs h (xs[h := xs ! c]) c"
      by (rule sunk_pull [OF "1.prems"(2,4) c sib])
    then have "sunk cmp t (xs[h := xs ! c]) c (xs[h := xs ! c]) c" by (simp add: sunk_def)
    moreover have "sink_hole cmp xs h len = sink_hole cmp (xs[h := xs ! c]) c len"
      by (subst sink_hole.simps) (simp only: True if_True Let_def c_def second_def)
    ultimately have "sunk cmp t (xs[h := xs ! c]) c ys h' \<and> length xs \<le> 2 * h' + 1"
      using "1.IH" [OF True second_def c_def] "1.prems"(1,2,3)
      by simp
    then show ?thesis using pull by (simp add: sunk_def)
  next
    case False
    show ?thesis
    proof (cases "even len \<and> 2 \<le> len \<and> h = (len - 2) div 2")
      case True
      then have res: "ys = xs[h := xs ! (2 * h + 1)]" "h' = 2 * h + 1"
        using "1.prems"(1) False by (subst (asm) sink_hole.simps, simp)+
      have len: "len = 2 * h + 2" using True by auto
      have "sunk cmp t xs h (xs[h := xs ! (2 * h + 1)]) (2 * h + 1)"
        using len "1.prems"(3) strict_weakD(3) [OF "1.prems"(2)]
        by (intro sunk_pull [OF "1.prems"(2,4)]) auto
      then show ?thesis using len "1.prems"(3) by (simp add: res)
    next
      case no: False
      then have res: "ys = xs" "h' = h"
        using "1.prems"(1) False by (subst (asm) sink_hole.simps, simp)+
      have "length xs \<le> 2 * h + 1" using False no "1.prems"(3,4) by (auto simp: sunk_def elim: oddE evenE)
      then show ?thesis using "1.prems"(4) by (simp add: res)
    qed
  qed
qed

lemma adjust_heap_spec:
  assumes sw: "strict_weak cmp" and below: "heap_from cmp (Suc t) xs" and t: "t < length xs"
  shows "heap_from cmp t (adjust_heap cmp xs t v)"
    and "mset (adjust_heap cmp xs t v) = mset (xs[t := v])"
    and "length (adjust_heap cmp xs t v) = length xs"
proof -
  obtain ys h where sink: "sink_hole cmp xs t (length xs) = (ys, h)" by fastforce
  have *: "sunk cmp t xs t ys h" "length xs \<le> 2 * h + 1"
    using sink_hole_spec [OF sink sw refl, of t] below t by (auto simp: sunk_def)
  have "hole_inv cmp t ys h v"
    unfolding hole_inv_def
  proof (intro allI impI)
    fix i assume i: "i < length ys" "0 < i \<and> t \<le> (i - 1) div 2 \<and> i \<noteq> h"
    then have leaf: "(i - 1) div 2 \<noteq> h" using * by (auto simp: sunk_def)
    have "\<not> cmp (ys ! ((i - 1) div 2)) (ys ! i)"
      using * i leaf by (cases "h = t") (auto simp: sunk_def heap_from_def)
    with leaf show "if (i - 1) div 2 = h
      then \<not> cmp v (ys ! i) \<and> (0 < h \<and> t \<le> (h - 1) div 2 \<longrightarrow> \<not> cmp (ys ! ((h - 1) div 2)) (ys ! i))
      else \<not> cmp (ys ! ((i - 1) div 2)) (ys ! i)" by simp
  qed
  then show "heap_from cmp t (adjust_heap cmp xs t v)"
    using push_hole_heap [OF sw, of t ys h v] * by (simp add: adjust_heap_def sink sunk_def)
  show "mset (adjust_heap cmp xs t v) = mset (xs[t := v])"
    using * by (simp add: adjust_heap_def sink sunk_def mset_push_hole)
  show "length (adjust_heap cmp xs t v) = length xs"
    using * by (simp add: adjust_heap_def sink sunk_def)
qed

lemma length_sink_hole: "sink_hole cmp xs h len = (ys, h') \<Longrightarrow> length ys = length xs"
proof (induction cmp xs h len arbitrary: ys h' rule: sink_hole.induct)
  case (1 cmp xs h len)
  show ?case
  proof (cases "h < (len - 1) div 2")
    case True
    note step = "1.prems" [unfolded sink_hole.simps [of cmp xs h len], simplified True if_True Let_def]
    show ?thesis using "1.IH" [OF True refl refl, of ys h'] step by simp
  next
    case False
    then show ?thesis
      using "1.prems" by (subst (asm) sink_hole.simps) (simp only: if_False split: if_splits, auto)
  qed
qed

lemma length_pq_pop [simp]: "length (pq_pop cmp c) = length c - 1"
proof -
  have "length (adjust_heap cmp xs t v) = length xs" for xs t v
    by (simp add: adjust_heap_def length_sink_hole split: prod.split)
  then show ?thesis by (simp add: pq_pop_def pop_heap_def)
qed

lemma heapify_spec:
  "strict_weak cmp \<Longrightarrow> n \<le> length xs \<Longrightarrow> heap_from cmp n xs \<Longrightarrow>
   is_heap cmp (heapify cmp n xs) \<and> mset (heapify cmp n xs) = mset xs"
proof (induction n arbitrary: xs)
  case (Suc n)
  note a = adjust_heap_spec [OF Suc.prems(1,3), of "xs ! n"]
  show ?case using Suc.IH [OF Suc.prems(1), of "adjust_heap cmp xs n (xs ! n)"] Suc.prems(2) a by simp
qed (simp add: is_heap_def)

lemma make_heap_spec:
  assumes "strict_weak cmp"
  shows "is_heap cmp (make_heap cmp xs)" and "mset (make_heap cmp xs) = mset xs"
proof -
  have "heap_from cmp (length xs div 2) xs" by (auto simp: heap_from_def)
  then have "is_heap cmp (make_heap cmp xs) \<and> mset (make_heap cmp xs) = mset xs"
    unfolding make_heap_def by (intro heapify_spec assms) auto
  then show "is_heap cmp (make_heap cmp xs)" "mset (make_heap cmp xs) = mset xs" by simp_all
qed

lemma push_spec:
  assumes sw: "strict_weak cmp" and heap: "is_heap cmp c"
  shows "is_heap cmp (pq_push cmp x c)" and "mset (pq_push cmp x c) = add_mset x (mset c)"
proof -
  have "in_subtree 0 n" for n
    by (induction n rule: less_induct) (subst in_subtree.simps, simp)
  moreover have "hole_inv cmp 0 (c @ [x]) (length c) x"
    using heap by (auto simp: hole_inv_def is_heap_def heap_from_def nth_append)
  ultimately show "is_heap cmp (pq_push cmp x c)"
    using push_hole_heap [OF sw, of 0 "c @ [x]" "length c" x]
    by (simp add: is_heap_def pq_push_def push_heap_def)
  show "mset (pq_push cmp x c) = add_mset x (mset c)"
    by (simp add: pq_push_def push_heap_def mset_push_hole list_update_append)
qed

lemma pop_spec:
  assumes sw: "strict_weak cmp" and heap: "is_heap cmp c" and ne: "c \<noteq> []"
  shows "is_heap cmp (pq_pop cmp c)" and "mset (pq_pop cmp c) = mset c - {#hd c#}"
proof -
  have "is_heap cmp (pq_pop cmp c) \<and> mset (pq_pop cmp c) = mset c - {#hd c#}"
  proof (cases "length c > 1")
    case True
    have len: "0 < length (butlast c)" using True by simp
    have below: "heap_from cmp (Suc 0) (butlast c)"
      using heap by (auto simp: is_heap_def heap_from_def nth_butlast)
    obtain a r where c: "c = a # r" "r \<noteq> []" using True by (cases c) auto
    have "mset ((butlast c)[0 := last c]) = mset (last r # butlast r)" using c by simp
    also have "\<dots> = mset r"
      using c(2) by (metis append_butlast_last_id mset_rev rev.simps(2) rev_rev_ident mset_append union_commute mset.simps(2) mset_single_iff_right union_mset_add_mset_right)
    finally show ?thesis
      using adjust_heap_spec [OF sw below len, of "last c"] True c
      by (simp add: pq_pop_def pop_heap_def is_heap_def)
  next
    case False
    then obtain a where "c = [a]" using ne by (cases c) auto
    then show ?thesis by (simp add: pq_pop_def pop_heap_def is_heap_def heap_from_def)
  qed
  then show "is_heap cmp (pq_pop cmp c)" "mset (pq_pop cmp c) = mset c - {#hd c#}" by simp_all
qed

lemma heap_root:
  assumes sw: "strict_weak cmp" and heap: "is_heap cmp c"
  shows "i < length c \<Longrightarrow> \<not> cmp (c ! 0) (c ! i)"
proof (induction i rule: less_induct)
  case (less i)
  show ?case
  proof (cases "i = 0")
    case True
    then show ?thesis using strict_weakD(3) [OF sw] by simp
  next
    case False
    have "\<not> cmp (c ! 0) (c ! ((i - 1) div 2))" using False less by auto
    moreover have "\<not> cmp (c ! ((i - 1) div 2)) (c ! i)"
      using heap less.prems False by (auto simp: is_heap_def heap_from_def)
    ultimately show ?thesis by (rule strict_weakD(2) [OF sw])
  qed
qed

lemma top_spec:
  assumes "strict_weak cmp" "is_heap cmp c"
  shows "pq_top c = Some x \<Longrightarrow> x \<in># mset c \<and> (\<forall>y \<in># mset c. \<not> cmp x y)"
    and "pq_top c = None \<longleftrightarrow> mset c = {#}"
proof -
  assume "pq_top c = Some x"
  then obtain r where "c = x # r" by (cases c) (simp_all add: pq_top_def)
  then show "x \<in># mset c \<and> (\<forall>y \<in># mset c. \<not> cmp x y)"
    using heap_root [OF assms] by (metis in_set_conv_nth list.set_intros(1) nth_Cons_0 set_mset_mset)
qed (cases c; simp add: pq_top_def)

section \<open>What the schedulers rely on\<close>

text \<open>A queue whose front is an element that no other element precedes.\<close>

locale served_queue =
  fixes after :: "'a \<Rightarrow> 'a \<Rightarrow> bool"
    and enqueue :: "'a \<Rightarrow> 'q \<Rightarrow> 'q"
    and dequeue :: "'q \<Rightarrow> 'q"
    and front :: "'q \<Rightarrow> 'a option"
    and contents :: "'q \<Rightarrow> 'a multiset"
    and ok :: "'q \<Rightarrow> bool"
  assumes front_None: "ok q \<Longrightarrow> front q = None \<longleftrightarrow> contents q = {#}"
    and front_Some: "ok q \<Longrightarrow> front q = Some x \<Longrightarrow> x \<in># contents q \<and> (\<forall>y \<in># contents q. \<not> after x y)"
    and dequeue_ok: "ok q \<Longrightarrow> front q = Some x \<Longrightarrow> ok (dequeue q) \<and> contents (dequeue q) = contents q - {#x#}"
    and enqueue_ok: "ok q \<Longrightarrow> ok (enqueue x q) \<and> contents (enqueue x q) = add_mset x (contents q)"
begin

fun serve :: "nat \<Rightarrow> 'q \<Rightarrow> 'a list" where
  "serve 0 q = []"
| "serve (Suc n) q = (case front q of None \<Rightarrow> [] | Some x \<Rightarrow> x # serve n (dequeue q))"

lemma serve_contents: "ok q \<Longrightarrow> mset (serve n q) \<subseteq># contents q"
proof (induction n arbitrary: q)
  case (Suc n)
  show ?case
  proof (cases "front q")
    case (Some x)
    then show ?thesis
      using Suc.IH [of "dequeue q"] dequeue_ok [OF Suc.prems Some] front_Some [OF Suc.prems Some]
      by (auto simp: insert_subset_eq_iff)
  qed simp
qed simp

lemma serve_all: "ok q \<Longrightarrow> size (contents q) \<le> n \<Longrightarrow> mset (serve n q) = contents q"
proof (induction n arbitrary: q)
  case (Suc n)
  show ?case
  proof (cases "front q")
    case None
    then show ?thesis using front_None [OF Suc.prems(1)] by simp
  next
    case (Some x)
    then show ?thesis
      using Suc.IH [of "dequeue q"] dequeue_ok [OF Suc.prems(1) Some] front_Some [OF Suc.prems(1) Some] Suc.prems(2)
      by (auto simp: size_Diff_singleton)
  qed
qed simp

lemma serve_sorted: "ok q \<Longrightarrow> sorted_wrt (\<lambda>a b. \<not> after a b) (serve n q)"
proof (induction n arbitrary: q)
  case (Suc n)
  show ?case
  proof (cases "front q")
    case (Some x)
    note d = dequeue_ok [OF Suc.prems Some]
    have "\<not> after x y" if "y \<in> set (serve n (dequeue q))" for y
      using that serve_contents [of "dequeue q" n] d front_Some [OF Suc.prems Some]
      by (metis in_diffD mset_subset_eqD set_mset_mset)
    then show ?thesis using Some Suc.IH [of "dequeue q"] d by simp
  qed simp
qed simp

lemma serve_complete:
  "ok q \<Longrightarrow> n = size (contents q) \<Longrightarrow>
   mset (serve n q) = contents q \<and> sorted_wrt (\<lambda>a b. \<not> after a b) (serve n q)"
  using serve_all serve_sorted by simp

end

locale weak_order =
  fixes cmp :: "'a \<Rightarrow> 'a \<Rightarrow> bool"
  assumes weak: "strict_weak cmp"
begin

lemma pop_top:
  "is_heap cmp c \<Longrightarrow> pq_top c = Some x \<Longrightarrow> is_heap cmp (pq_pop cmp c) \<and> mset (pq_pop cmp c) = mset c - {#x#}"
  using pop_spec [OF weak, of c] by (cases c) (simp_all add: pq_top_def)

lemma update_heap: "is_heap cmp (AdaptiblePQueue_update cmp c) \<and> mset (AdaptiblePQueue_update cmp c) = mset c"
  using make_heap_spec [OF weak] by (simp add: AdaptiblePQueue_update_def)

lemma erase_heap:
  "is_heap cmp (AdaptiblePQueue_erase cmp x c) \<and> mset (AdaptiblePQueue_erase cmp x c) = mset c - {#x#}"
  using update_heap by (simp add: AdaptiblePQueue_erase_def)

lemma eraseAll_heap:
  "is_heap cmp (AdaptiblePQueue_eraseAll cmp x c) \<and>
   mset (AdaptiblePQueue_eraseAll cmp x c) = filter_mset (\<lambda>y. y \<noteq> x) (mset c)"
  using update_heap by (simp add: AdaptiblePQueue_eraseAll_def removeAll_filter)

end

sublocale weak_order \<subseteq> pq: served_queue cmp "pq_push cmp" "pq_pop cmp" pq_top mset "is_heap cmp"
proof unfold_locales
  fix q :: "'a list" and x
  assume q: "is_heap cmp q"
  show "(pq_top q = None) = (mset q = {#})" by (rule top_spec(2) [OF weak q])
  show "is_heap cmp (pq_push cmp x q) \<and> mset (pq_push cmp x q) = add_mset x (mset q)"
    using push_spec [OF weak q] by simp
  assume x: "pq_top q = Some x"
  show "x \<in># mset q \<and> (\<forall>y \<in># mset q. \<not> cmp x y)" by (rule top_spec(1) [OF weak q x])
  show "is_heap cmp (pq_pop cmp q) \<and> mset (pq_pop cmp q) = mset q - {#x#}" by (rule pop_top [OF q x])
qed

text \<open>The order of integers stands for every order by a key.\<close>

lemma strict_weak_key: "strict_weak (\<lambda>a b. (key a :: int) > key b)"
  by (auto simp: strict_weak_def)

end
