(* ===== verification/Vex_ThreadQueue.thy ===== *)
theory Vex_ThreadQueue
  imports Vex_PQueue Vex_Thread
begin

text \<open>
  The queue of runnable threads, class \<open>ThreadQueue\<close> (\<open>ds/ThreadQueue.cpp\<close>): the heap of
  \<open>Vex_PQueue\<close> over pointers to thread states, ordered by estimated real time, behind a mutex.

  A \<open>VexThreadState *\<close> is a number, the thread states are a store from pointers to records,
  since the queue, the managers and the threads share them; \<open>NULL\<close> results are \<open>None\<close>. Locking
  the default mutex while it is held never returns, which is the error \<open>Deadlock\<close>; the assertions
  of \<open>push\<close> are enabled. Debug logging is left out.
\<close>

section \<open>The queue\<close>

type_synonym thread_ptr = nat
type_synonym thread_store = "thread_ptr \<Rightarrow> vex_thread"

record thread_queue =
  threadsQueue :: "thread_ptr list"
  queue_mutex :: bool

definition thread_order :: "thread_store \<Rightarrow> thread_ptr \<Rightarrow> thread_ptr \<Rightarrow> bool" where
  "thread_order st lhs rhs = threadStatePtr_compare (st lhs) (st rhs)"

definition ThreadQueue_ThreadQueue :: thread_queue where
  "ThreadQueue_ThreadQueue = \<lparr>threadsQueue = [], queue_mutex = False\<rparr>"

definition ThreadQueue_lockMutex :: "thread_queue \<Rightarrow> thread_queue res" where
  "ThreadQueue_lockMutex q = (if queue_mutex q then Inl Deadlock else Inr (q\<lparr>queue_mutex := True\<rparr>))"

definition ThreadQueue_unlockMutex :: "thread_queue \<Rightarrow> thread_queue" where
  "ThreadQueue_unlockMutex q = q\<lparr>queue_mutex := False\<rparr>"

definition ThreadQueue_push :: "thread_store \<Rightarrow> thread_ptr \<Rightarrow> thread_queue \<Rightarrow> thread_queue res" where
  "ThreadQueue_push st state q0 =
     bindE (ThreadQueue_lockMutex q0) (\<lambda>q.
     bindE (assertE AssertFailed (virtualTimeSpeedup (thr_timers (st state)) \<noteq> 1
              \<or> AdaptiblePQueue_find state (threadsQueue q) = False)) (\<lambda>_.
     let q1 = q\<lparr>threadsQueue := pq_push (thread_order st) state (threadsQueue q)\<rparr>
     in bindE (assertE AssertFailed (virtualTimeSpeedup (thr_timers (st state)) \<noteq> 1
              \<or> AdaptiblePQueue_find state (threadsQueue q1) = True)) (\<lambda>_.
     Inr (ThreadQueue_unlockMutex q1))))"

definition ThreadQueue_top :: "thread_queue \<Rightarrow> (thread_queue \<times> thread_ptr option) res" where
  "ThreadQueue_top q0 =
     bindE (ThreadQueue_lockMutex q0) (\<lambda>q.
     case pq_top (threadsQueue q) of
       None \<Rightarrow> Inr (ThreadQueue_unlockMutex q, None)
     | Some state \<Rightarrow> Inr (ThreadQueue_unlockMutex q, Some state))"

definition ThreadQueue_getNext :: "thread_store \<Rightarrow> thread_queue \<Rightarrow> (thread_queue \<times> thread_ptr option) res" where
  "ThreadQueue_getNext st q0 =
     bindE (ThreadQueue_lockMutex q0) (\<lambda>q.
     case pq_top (threadsQueue q) of
       None \<Rightarrow> Inr (ThreadQueue_unlockMutex q, None)
     | Some state \<Rightarrow>
         Inr (ThreadQueue_unlockMutex (q\<lparr>threadsQueue := pq_pop (thread_order st) (threadsQueue q)\<rparr>), Some state))"

definition ThreadQueue_getNextIfEqualsElseReturnTop ::
  "thread_store \<Rightarrow> thread_ptr option \<Rightarrow> nat option \<Rightarrow> thread_queue \<Rightarrow> (thread_queue \<times> thread_ptr option) res" where
  "ThreadQueue_getNextIfEqualsElseReturnTop st lockedState requestingManager q0 =
     bindE (ThreadQueue_lockMutex q0) (\<lambda>q.
     case pq_top (threadsQueue q) of
       None \<Rightarrow> Inr (ThreadQueue_unlockMutex q, None)
     | Some state \<Rightarrow>
         if Some state = lockedState
         then if isRunning (st state) then Inr (ThreadQueue_unlockMutex q, None)
              else if inIoPredictionPhase (st state) then Inr (ThreadQueue_unlockMutex q, Some state)
              else if isWaitingRealCodeToCompleteAfterModelSimulation (st state)
              then if threadCurrentlyControllingManager (scheduling_of (st state)) \<noteq> requestingManager
                   then Inr (ThreadQueue_unlockMutex q, None)
                   else Inr (ThreadQueue_unlockMutex q, Some state)
              else Inr (ThreadQueue_unlockMutex
                     (q\<lparr>threadsQueue := pq_pop (thread_order st) (threadsQueue q)\<rparr>), Some state)
         else Inr (ThreadQueue_unlockMutex q, Some state))"

definition ThreadQueue_getNext_manager ::
  "thread_store \<Rightarrow> nat option \<Rightarrow> thread_queue \<Rightarrow> (thread_queue \<times> thread_ptr option) res" where
  "ThreadQueue_getNext_manager st requestingManager q0 =
     bindE (ThreadQueue_lockMutex q0) (\<lambda>q.
     case pq_top (threadsQueue q) of
       None \<Rightarrow> Inr (ThreadQueue_unlockMutex q, None)
     | Some state \<Rightarrow>
         if isRunning (st state) then Inr (ThreadQueue_unlockMutex q, None)
         else if inIoPredictionPhase (st state) then Inr (ThreadQueue_unlockMutex q, Some state)
         else if isWaitingRealCodeToCompleteAfterModelSimulation (st state)
         then if threadCurrentlyControllingManager (scheduling_of (st state)) \<noteq> requestingManager
              then Inr (ThreadQueue_unlockMutex q, None)
              else Inr (ThreadQueue_unlockMutex q, Some state)
         else Inr (ThreadQueue_unlockMutex
                (q\<lparr>threadsQueue := pq_pop (thread_order st) (threadsQueue q)\<rparr>), Some state))"

definition ThreadQueue_empty :: "thread_queue \<Rightarrow> (thread_queue \<times> bool) res" where
  "ThreadQueue_empty q0 =
     bindE (ThreadQueue_lockMutex q0) (\<lambda>q. Inr (ThreadQueue_unlockMutex q, threadsQueue q = []))"

definition ThreadQueue_size :: "thread_queue \<Rightarrow> (thread_queue \<times> nat) res" where
  "ThreadQueue_size q0 =
     bindE (ThreadQueue_lockMutex q0) (\<lambda>q. Inr (ThreadQueue_unlockMutex q, length (threadsQueue q)))"

text \<open>The iterator after \<open>state\<close>, moved over the threads inside a model; \<open>None\<close> is \<open>end()\<close>.\<close>

fun next_outside_model :: "thread_store \<Rightarrow> thread_ptr list \<Rightarrow> thread_ptr option" where
  "next_outside_model st [] = None"
| "next_outside_model st (x # it) =
     (if isSimulatingModel (st x) \<or> isWaitingRealCodeToCompleteAfterModelSimulation (st x)
      then next_outside_model st it else Some x)"

fun leap_target :: "thread_store \<Rightarrow> thread_ptr \<Rightarrow> thread_ptr list \<Rightarrow> thread_ptr option" where
  "leap_target st state [] = None"
| "leap_target st state (x # it) =
     (if state = x
      then case next_outside_model st it of Some y \<Rightarrow> Some y | None \<Rightarrow> Some (last (x # it))
      else leap_target st state it)"

definition ThreadQueue_setThreadToNextBiggestErt ::
  "thread_ptr \<Rightarrow> thread_store \<times> thread_queue \<Rightarrow> (thread_store \<times> thread_queue) res" where
  "ThreadQueue_setThreadToNextBiggestErt state s =
     (let (st, q0) = s in
      bindE (ThreadQueue_lockMutex q0) (\<lambda>q.
      case leap_target st state (threadsQueue q) of
        None \<Rightarrow> Inr (st, ThreadQueue_unlockMutex q)
      | Some x \<Rightarrow>
          let nextErtTimePlusOne = ert (st x) + 1;
              st1 = st(state := upd_timers (fst \<circ> Timers_leapTo nextErtTimePlusOne) (st state))
          in Inr (st1, ThreadQueue_unlockMutex
                 (q\<lparr>threadsQueue := AdaptiblePQueue_update (thread_order st1) (threadsQueue q)\<rparr>))))"

definition ThreadQueue_isNextRunnableThreadBefore ::
  "thread_store \<Rightarrow> int \<Rightarrow> thread_queue \<Rightarrow> (thread_queue \<times> bool) res" where
  "ThreadQueue_isNextRunnableThreadBefore st timestamp q0 =
     bindE (ThreadQueue_lockMutex q0) (\<lambda>q.
     case pq_top (threadsQueue q) of
       None \<Rightarrow> Inr (ThreadQueue_unlockMutex q, False)
     | Some nextRunnable \<Rightarrow> Inr (ThreadQueue_unlockMutex q, timestamp > ert (st nextRunnable)))"

definition ThreadQueue_update :: "thread_store \<Rightarrow> thread_queue \<Rightarrow> thread_queue res" where
  "ThreadQueue_update st q0 =
     bindE (ThreadQueue_lockMutex q0) (\<lambda>q.
     Inr (ThreadQueue_unlockMutex (q\<lparr>threadsQueue := AdaptiblePQueue_update (thread_order st) (threadsQueue q)\<rparr>)))"

definition ThreadQueue_erase :: "thread_store \<Rightarrow> thread_ptr \<Rightarrow> thread_queue \<Rightarrow> thread_queue res" where
  "ThreadQueue_erase st state q0 =
     bindE (ThreadQueue_lockMutex q0) (\<lambda>q.
     Inr (ThreadQueue_unlockMutex
       (q\<lparr>threadsQueue := AdaptiblePQueue_erase (thread_order st) state (threadsQueue q)\<rparr>)))"

definition ThreadQueue_find :: "thread_ptr \<Rightarrow> thread_queue \<Rightarrow> (thread_queue \<times> bool) res" where
  "ThreadQueue_find state q0 =
     bindE (ThreadQueue_lockMutex q0) (\<lambda>q.
     Inr (ThreadQueue_unlockMutex q, AdaptiblePQueue_find state (threadsQueue q)))"

fun highest_time :: "thread_store \<Rightarrow> thread_ptr list \<Rightarrow> int \<Rightarrow> int" where
  "highest_time st [] highestRunnableTime = highestRunnableTime"
| "highest_time st (state # it) highestRunnableTime =
     highest_time st it
       (if ert (st state) > highestRunnableTime \<and> (isSuspended (st state) \<or> isNativeWaiting (st state))
        then ert (st state) else highestRunnableTime)"

definition ThreadQueue_getHighestRunnableTime ::
  "thread_store \<Rightarrow> thread_ptr \<Rightarrow> thread_queue \<Rightarrow> (thread_queue \<times> int) res" where
  "ThreadQueue_getHighestRunnableTime st askingThread q0 =
     bindE (ThreadQueue_lockMutex q0) (\<lambda>q.
     Inr (ThreadQueue_unlockMutex q, highest_time st (threadsQueue q) (ert (st askingThread))))"

function ThreadQueue_recursivelyUpdatePendingIoRequests ::
  "int \<Rightarrow> thread_ptr \<Rightarrow> thread_store \<times> thread_ptr list \<Rightarrow> thread_store \<times> thread_ptr list" where
  "ThreadQueue_recursivelyUpdatePendingIoRequests currentRealTime state (st, c) =
     (let (st1, c1) =
        (case pq_top c of
           None \<Rightarrow> (st, c)
         | Some nextThread \<Rightarrow>
             if inIoPredictionPhase (st nextThread)
                \<and> \<not> VexThreadState_isIoPredictionStillValid currentRealTime (st nextThread)
             then let (st2, c2) = ThreadQueue_recursivelyUpdatePendingIoRequests currentRealTime nextThread
                                    (st, pq_pop (thread_order st) c)
                  in (st2, pq_push (thread_order st2) nextThread c2)
             else (st, c))
      in (st1(state := VexThreadState_invalidateIoPrediction (st1 state)), c1))"
  by pat_completeness auto
termination
  by (relation "measure (\<lambda>(_, _, _, c). length c)") (auto simp: pq_top_def split: list.splits)

declare ThreadQueue_recursivelyUpdatePendingIoRequests.simps [simp del]

definition ThreadQueue_invalidateExpiredIoPredictions ::
  "int \<Rightarrow> thread_store \<times> thread_queue \<Rightarrow> (thread_store \<times> thread_queue) res" where
  "ThreadQueue_invalidateExpiredIoPredictions currentRealTime s =
     (let (st, q0) = s in
      bindE (ThreadQueue_lockMutex q0) (\<lambda>q.
      case pq_top (threadsQueue q) of
        None \<Rightarrow> Inr (st, ThreadQueue_unlockMutex q)
      | Some state \<Rightarrow>
          let (st1, c1) = ThreadQueue_recursivelyUpdatePendingIoRequests currentRealTime state
                            (st, pq_pop (thread_order st) (threadsQueue q))
          in Inr (st1, ThreadQueue_unlockMutex (q\<lparr>threadsQueue := pq_push (thread_order st1) state c1\<rparr>))))"

section \<open>Order of service\<close>

lemma thread_order_weak: "strict_weak (thread_order st)"
  by (auto simp: strict_weak_def thread_order_def threadStatePtr_compare_def)

interpretation runnable: weak_order "thread_order st" for st
  by unfold_locales (rule thread_order_weak)

lemma not_thread_order [simp]: "\<not> thread_order st a b \<longleftrightarrow> ert (st a) \<le> ert (st b)"
  by (auto simp: thread_order_def threadStatePtr_compare_def)

definition tq_ok :: "thread_store \<Rightarrow> thread_queue \<Rightarrow> bool" where
  "tq_ok st q \<longleftrightarrow>
     \<not> queue_mutex q \<and> is_heap (thread_order st) (threadsQueue q) \<and> distinct (threadsQueue q)"

lemmas tq_defs = ThreadQueue_lockMutex_def ThreadQueue_unlockMutex_def

lemma distinct_mset: "mset ys = mset xs \<Longrightarrow> distinct ys = distinct xs"
  by (rule mset_eq_imp_distinct_iff)

lemma distinct_mset_Cons: "mset ys = add_mset x (mset xs) \<Longrightarrow> distinct ys \<longleftrightarrow> x \<notin> set xs \<and> distinct xs"
  using distinct_mset [of ys "x # xs"] by simp

lemma distinct_mset_remove: "mset ys = mset xs - {#x#} \<Longrightarrow> distinct xs \<Longrightarrow> distinct ys \<and> set ys = set xs - {x}"
  using distinct_mset [of ys "remove1 x xs"] mset_eq_setD [of ys "remove1 x xs"] by simp

lemma is_heap_cong:
  assumes "\<And>p. p \<in> set c \<Longrightarrow> ert (st' p) = ert (st p)"
  shows "is_heap (thread_order st') c = is_heap (thread_order st) c"
proof -
  have "thread_order st' (c ! ((i - 1) div 2)) (c ! i) = thread_order st (c ! ((i - 1) div 2)) (c ! i)"
    if "i < length c" for i
  proof -
    have "(i - 1) div 2 < length c" using that by linarith
    then show ?thesis using assms that by (simp add: thread_order_def threadStatePtr_compare_def)
  qed
  then show ?thesis unfolding is_heap_def heap_from_def by auto
qed

lemma top_hd: "pq_top c = Some p \<Longrightarrow> c \<noteq> [] \<and> hd c = p"
  by (cases c) (simp_all add: pq_top_def)

lemma push_ok:
  assumes "tq_ok st q" "virtualTimeSpeedup (thr_timers (st p)) = 1"
  shows "p \<in> set (threadsQueue q) \<Longrightarrow> ThreadQueue_push st p q = Inl AssertFailed"
    and "p \<notin> set (threadsQueue q) \<Longrightarrow>
      \<exists>q'. ThreadQueue_push st p q = Inr q' \<and> tq_ok st q' \<and>
           mset (threadsQueue q') = add_mset p (mset (threadsQueue q))"
proof -
  note heap = assms(1) [unfolded tq_ok_def]
  let ?c = "pq_push (thread_order st) p (threadsQueue q)"
  have c: "is_heap (thread_order st) ?c \<and> mset ?c = add_mset p (mset (threadsQueue q))"
    using runnable.pq.enqueue_ok heap by blast
  then have "p \<in> set ?c" by (metis set_mset_mset union_single_eq_member)
  then show "p \<in> set (threadsQueue q) \<Longrightarrow> ThreadQueue_push st p q = Inl AssertFailed"
    and "p \<notin> set (threadsQueue q) \<Longrightarrow>
      \<exists>q'. ThreadQueue_push st p q = Inr q' \<and> tq_ok st q' \<and>
           mset (threadsQueue q') = add_mset p (mset (threadsQueue q))"
    using heap c assms(2) distinct_mset_Cons [of ?c]
    by (simp_all add: ThreadQueue_push_def tq_defs tq_ok_def assertE_def)
qed

lemma pop_ok:
  assumes "tq_ok st q" "pq_top (threadsQueue q) = Some p"
  shows "tq_ok st (q\<lparr>threadsQueue := pq_pop (thread_order st) (threadsQueue q), queue_mutex := False\<rparr>)"
    and "mset (pq_pop (thread_order st) (threadsQueue q)) = mset (threadsQueue q) - {#p#}"
  using assms runnable.pop_top [of st "threadsQueue q" p]
    distinct_mset_remove [of "pq_pop (thread_order st) (threadsQueue q)" "threadsQueue q" p]
  by (auto simp: tq_ok_def)

lemma top_earliest:
  "tq_ok st q \<Longrightarrow> pq_top (threadsQueue q) = Some p \<Longrightarrow>
   p \<in> set (threadsQueue q) \<and> (\<forall>r \<in> set (threadsQueue q). ert (st p) \<le> ert (st r))"
  using runnable.pq.front_Some [of st "threadsQueue q" p] by (simp add: tq_ok_def)

lemma top_None: "pq_top c = None \<longleftrightarrow> c = []"
  by (cases c) (simp_all add: pq_top_def)

text \<open>What the recursion over the expired predictions at the head of the queue changes.\<close>

definition invalidated :: "int \<Rightarrow> thread_ptr list \<Rightarrow> thread_store \<Rightarrow> thread_store \<Rightarrow> bool" where
  "invalidated rt c st st' \<longleftrightarrow>
     (\<forall>p. st' p = st p \<or>
        p \<in> set c \<and> inIoPredictionPhase (st p) \<and> \<not> VexThreadState_isIoPredictionStillValid rt (st p)
        \<and> st' p = VexThreadState_invalidateIoPrediction (st p))"

lemma recursive_update_ok:
  "ThreadQueue_recursivelyUpdatePendingIoRequests rt state (st, c) = (st', c') \<Longrightarrow>
   is_heap (thread_order st) c \<Longrightarrow> distinct c \<Longrightarrow> state \<notin> set c \<Longrightarrow>
   is_heap (thread_order st') c' \<and> mset c' = mset c \<and>
   st' state = VexThreadState_invalidateIoPrediction (st state) \<and> invalidated rt c st (st'(state := st state))"
proof (induction rt state "(st, c)" arbitrary: st c st' c'
    rule: ThreadQueue_recursivelyUpdatePendingIoRequests.induct)
  case (1 rt state st c)
  let ?inv = "VexThreadState_invalidateIoPrediction"
  let ?rec = "ThreadQueue_recursivelyUpdatePendingIoRequests rt"
  note unf = "1.prems"(1) [unfolded ThreadQueue_recursivelyUpdatePendingIoRequests.simps [of rt state st c]]
  have finish: ?case
    if eq: "st' = sa(state := ?inv (sa state))" "c' = ca" and heap: "is_heap (thread_order sa) ca"
      and ms: "mset ca = mset c" and sa: "sa state = st state" and inv: "invalidated rt c st sa" for sa ca
  proof -
    have "p \<in> set ca \<Longrightarrow> p \<noteq> state" for p using "1.prems"(4) mset_eq_setD [OF ms] by auto
    then have "is_heap (thread_order st') ca = is_heap (thread_order sa) ca"
      unfolding eq by (intro is_heap_cong) simp
    then have "is_heap (thread_order st') c'" using heap eq by simp
    moreover have "st'(state := st state) = sa" using eq sa by auto
    ultimately show ?thesis using eq ms sa inv by simp
  qed
  show ?case
  proof (cases "pq_top c")
    case None
    then show ?thesis using unf "1.prems" by (intro finish) (auto simp: invalidated_def)
  next
    case (Some n)
    show ?thesis
    proof (cases "inIoPredictionPhase (st n) \<and> \<not> VexThreadState_isIoPredictionStillValid rt (st n)")
      case False
      then show ?thesis using unf "1.prems" Some by (intro finish) (auto simp: invalidated_def)
    next
      case True
      let ?c0 = "pq_pop (thread_order st) c"
      obtain s2 c2 where r: "?rec n (st, ?c0) = (s2, c2)" by fastforce
      have n: "n \<in> set c" using top_hd [OF Some] by (metis hd_in_set)
      have p: "is_heap (thread_order st) ?c0" "mset ?c0 = mset c - {#n#}"
        using runnable.pop_top [OF "1.prems"(2) Some] by simp_all
      have d: "distinct ?c0" "set ?c0 = set c - {n}"
        using distinct_mset_remove [OF p(2) "1.prems"(3)] by simp_all
      have ih: "is_heap (thread_order s2) c2" "mset c2 = mset ?c0" "s2 n = ?inv (st n)"
        "invalidated rt ?c0 st (s2(n := st n))"
        using "1.hyps" [OF Some True r p(1) d(1)] d(2) by simp_all
      have "state \<noteq> n" using n "1.prems"(4) by auto
      then have "s2 state = st state"
        using ih(4) "1.prems"(4) d(2) unfolding invalidated_def by (metis DiffE fun_upd_apply)
      moreover have "invalidated rt c st s2"
        using ih(3,4) d(2) n True unfolding invalidated_def by (metis DiffE fun_upd_apply)
      moreover have "is_heap (thread_order s2) (pq_push (thread_order s2) n c2)"
        "mset (pq_push (thread_order s2) n c2) = mset c"
        using runnable.pq.enqueue_ok [OF ih(1), of n] ih(2) p(2) n by simp_all
      ultimately show ?thesis
        using unf Some True r by (intro finish [of s2 "pq_push (thread_order s2) n c2"]) (auto simp: Let_def)
    qed
  qed
qed

lemma invalidate_ok:
  assumes "tq_ok st q"
  shows "\<exists>st' q'. ThreadQueue_invalidateExpiredIoPredictions rt (st, q) = Inr (st', q') \<and> tq_ok st' q' \<and>
    mset (threadsQueue q') = mset (threadsQueue q) \<and>
    (case pq_top (threadsQueue q) of
       None \<Rightarrow> st' = st
     | Some p \<Rightarrow> st' p = VexThreadState_invalidateIoPrediction (st p) \<and>
                 invalidated rt (threadsQueue q) st (st'(p := st p)))"
proof (cases "pq_top (threadsQueue q)")
  case None
  then show ?thesis
    using assms by (simp add: ThreadQueue_invalidateExpiredIoPredictions_def tq_defs tq_ok_def)
next
  case (Some p)
  let ?c = "threadsQueue q" let ?rest = "pq_pop (thread_order st) ?c"
  obtain s1 c1 where r: "ThreadQueue_recursivelyUpdatePendingIoRequests rt p (st, ?rest) = (s1, c1)" by fastforce
  have heap: "is_heap (thread_order st) ?c" "distinct ?c" "\<not> queue_mutex q"
    using assms by (simp_all add: tq_ok_def)
  have p: "is_heap (thread_order st) ?rest" "mset ?rest = mset ?c - {#p#}"
    using runnable.pop_top [OF heap(1) Some] by simp_all
  have d: "distinct ?rest" "set ?rest = set ?c - {p}"
    using distinct_mset_remove [OF p(2) heap(2)] by simp_all
  have in_c: "p \<in> set ?c" using top_hd [OF Some] by (metis hd_in_set)
  have rec: "is_heap (thread_order s1) c1" "mset c1 = mset ?rest"
    "s1 p = VexThreadState_invalidateIoPrediction (st p)" "invalidated rt ?rest st (s1(p := st p))"
    using recursive_update_ok [OF r p(1) d(1)] d(2) by simp_all
  have push: "is_heap (thread_order s1) (pq_push (thread_order s1) p c1)"
    "mset (pq_push (thread_order s1) p c1) = mset ?c"
    using runnable.pq.enqueue_ok [OF rec(1), of p] rec(2) p(2) in_c by simp_all
  have "invalidated rt ?c st (s1(p := st p))"
    using rec(4) d(2) unfolding invalidated_def by blast
  then show ?thesis
    using Some r push rec(3) heap distinct_mset [OF push(2)]
    by (simp add: ThreadQueue_invalidateExpiredIoPredictions_def tq_defs tq_ok_def)
qed

lemma setThreadToNextBiggestErt_ok:
  assumes "tq_ok st q"
  shows "\<exists>st' q'. ThreadQueue_setThreadToNextBiggestErt p (st, q) = Inr (st', q') \<and> tq_ok st' q' \<and>
    mset (threadsQueue q') = mset (threadsQueue q)"
  using assms runnable.update_heap distinct_mset
  by (auto simp: ThreadQueue_setThreadToNextBiggestErt_def tq_defs tq_ok_def Let_def split: option.splits)

text \<open>
  The life of a queue: the managers' operations on it, threads that are not in the queue changing
  in any way, and changes of queued threads' timestamps that are followed by \<open>update()\<close>.
\<close>

inductive queue_step :: "thread_store \<times> thread_queue \<Rightarrow> thread_store \<times> thread_queue \<Rightarrow> bool" where
  push: "virtualTimeSpeedup (thr_timers (st p)) = 1 \<Longrightarrow> ThreadQueue_push st p q = Inr q' \<Longrightarrow>
    queue_step (st, q) (st, q')"
| getNext: "ThreadQueue_getNext st q = Inr (q', r) \<Longrightarrow> queue_step (st, q) (st, q')"
| getNext_manager: "ThreadQueue_getNext_manager st man q = Inr (q', r) \<Longrightarrow> queue_step (st, q) (st, q')"
| getNextIfEquals: "ThreadQueue_getNextIfEqualsElseReturnTop st l man q = Inr (q', r) \<Longrightarrow>
    queue_step (st, q) (st, q')"
| setNextBiggest: "ThreadQueue_setThreadToNextBiggestErt p (st, q) = Inr (st', q') \<Longrightarrow>
    queue_step (st, q) (st', q')"
| erase: "ThreadQueue_erase st p q = Inr q' \<Longrightarrow> queue_step (st, q) (st, q')"
| invalidate: "ThreadQueue_invalidateExpiredIoPredictions rt (st, q) = Inr (st', q') \<Longrightarrow>
    queue_step (st, q) (st', q')"
| others: "(\<And>p. p \<in> set (threadsQueue q) \<Longrightarrow> ert (st' p) = ert (st p)) \<Longrightarrow> queue_step (st, q) (st', q)"
| reordered: "ThreadQueue_update st' q = Inr q' \<Longrightarrow> queue_step (st, q) (st', q')"

lemma getNext_cases:
  assumes "tq_ok st q"
  shows "ThreadQueue_getNext st q = Inr (q', r) \<Longrightarrow>
      q' = q \<or> q' = q\<lparr>threadsQueue := pq_pop (thread_order st) (threadsQueue q), queue_mutex := False\<rparr> \<and> pq_top (threadsQueue q) = r \<and> r \<noteq> None"
    and "ThreadQueue_getNext_manager st man q = Inr (q', r) \<Longrightarrow>
      q' = q \<or> q' = q\<lparr>threadsQueue := pq_pop (thread_order st) (threadsQueue q), queue_mutex := False\<rparr> \<and> pq_top (threadsQueue q) = r \<and> r \<noteq> None"
    and "ThreadQueue_getNextIfEqualsElseReturnTop st l man q = Inr (q', r) \<Longrightarrow>
      q' = q \<or> q' = q\<lparr>threadsQueue := pq_pop (thread_order st) (threadsQueue q), queue_mutex := False\<rparr> \<and> pq_top (threadsQueue q) = r \<and> r \<noteq> None"
  using assms
  by (auto simp: ThreadQueue_getNext_def ThreadQueue_getNext_manager_def
      ThreadQueue_getNextIfEqualsElseReturnTop_def tq_defs tq_ok_def
      split: option.splits if_splits intro!: thread_queue.equality)

lemma queue_step_ok: "queue_step s s' \<Longrightarrow> tq_ok (fst s) (snd s) \<Longrightarrow> tq_ok (fst s') (snd s')"
proof (induction rule: queue_step.induct)
  case (push st p q q')
  then show ?case using push_ok [of st q p] by (cases "p \<in> set (threadsQueue q)") auto
next
  case (getNext st q q' r)
  then show ?case using getNext_cases(1) [of st q q' r] pop_ok(1) [of st q] by auto
next
  case (getNext_manager st man q q' r)
  then show ?case using getNext_cases(2) [of st q man q' r] pop_ok(1) [of st q] by auto
next
  case (getNextIfEquals st l man q q' r)
  then show ?case using getNext_cases(3) [of st q l man q' r] pop_ok(1) [of st q] by auto
next
  case (setNextBiggest p st q st' q')
  then show ?case using setThreadToNextBiggestErt_ok [of st q p] by auto
next
  case (erase st p q q')
  let ?e = "AdaptiblePQueue_erase (thread_order st) p (threadsQueue q)"
  have q': "q' = q\<lparr>threadsQueue := ?e, queue_mutex := False\<rparr>"
    using erase by (simp add: ThreadQueue_erase_def tq_defs split: if_splits)
  have "distinct ?e"
    using distinct_mset_remove [of ?e "threadsQueue q" p] runnable.erase_heap [of st p "threadsQueue q"] erase.prems
    by (simp add: tq_ok_def)
  then show ?case using runnable.erase_heap [of st p "threadsQueue q"] by (simp add: q' tq_ok_def)
next
  case (invalidate rt st q st' q')
  then show ?case using invalidate_ok [of st q rt] by auto
next
  case (others q st' st)
  then show ?case using is_heap_cong [of "threadsQueue q" st' st] by (simp add: tq_ok_def)
next
  case (reordered st' q q' st)
  let ?u = "AdaptiblePQueue_update (thread_order st') (threadsQueue q)"
  have q': "q' = q\<lparr>threadsQueue := ?u, queue_mutex := False\<rparr>"
    using reordered by (simp add: ThreadQueue_update_def tq_defs split: if_splits)
  have "distinct ?u"
    using distinct_mset [of ?u "threadsQueue q"] runnable.update_heap [of st' "threadsQueue q"] reordered.prems
    by (simp add: tq_ok_def)
  then show ?case using runnable.update_heap [of st' "threadsQueue q"] by (simp add: q' tq_ok_def)
qed

lemma queue_reachable_ok:
  "queue_step\<^sup>*\<^sup>* (st0, ThreadQueue_ThreadQueue) (st, q) \<Longrightarrow> tq_ok st q"
proof -
  have "queue_step\<^sup>*\<^sup>* s s' \<Longrightarrow> tq_ok (fst s) (snd s) \<Longrightarrow> tq_ok (fst s') (snd s')" for s s'
    by (induction rule: rtranclp_induct) (auto intro: queue_step_ok)
  moreover have "tq_ok st0 ThreadQueue_ThreadQueue"
    by (simp add: tq_ok_def ThreadQueue_ThreadQueue_def is_heap_def heap_from_def)
  ultimately show "queue_step\<^sup>*\<^sup>* (st0, ThreadQueue_ThreadQueue) (st, q) \<Longrightarrow> tq_ok st q" by fastforce
qed

section \<open>Properties\<close>

fun drain :: "nat \<Rightarrow> thread_store \<Rightarrow> thread_queue \<Rightarrow> thread_ptr list res" where
  "drain 0 st q = Inr []"
| "drain (Suc n) st q =
     bindE (ThreadQueue_getNext st q) (\<lambda>(q', r).
     case r of None \<Rightarrow> Inr [] | Some p \<Rightarrow> bindE (drain n st q') (\<lambda>ps. Inr (p # ps)))"

lemma drain_serve: "tq_ok st q \<Longrightarrow> drain n st q = Inr (runnable.pq.serve st n (threadsQueue q))"
proof (induction n arbitrary: q)
  case (Suc n)
  show ?case
  proof (cases "pq_top (threadsQueue q)")
    case None
    then show ?thesis using Suc.prems by (simp add: ThreadQueue_getNext_def tq_defs tq_ok_def)
  next
    case (Some p)
    have "ThreadQueue_getNext st q =
        Inr (q\<lparr>threadsQueue := pq_pop (thread_order st) (threadsQueue q), queue_mutex := False\<rparr>, Some p)"
      using Some Suc.prems by (simp add: ThreadQueue_getNext_def tq_defs tq_ok_def)
    then show ?thesis using Suc.IH [OF pop_ok(1) [OF Suc.prems Some]] Some by simp
  qed
qed simp

definition example_store :: thread_store where
  "example_store p = example_thread\<lparr>currentState := SUSPENDED, thr_timers := example_timers\<lparr>estimatedRealTime :=
     (if p = 0 then 5 else if p = 1 then 30 else if p = 2 then 10 else 20)\<rparr>\<rparr>"

definition example_queue :: thread_queue where
  "example_queue = \<lparr>threadsQueue = [0, 1, 2], queue_mutex = False\<rparr>"

text \<open>
  C12. Runnable threads are served in the order of their virtual timestamps. Whatever sequence of
  queue operations, timestamp changes outside the queue and reordering updates produced a queue,
  emptying it with \<open>getNext()\<close> never fails, returns every queued thread exactly once and returns
  them by increasing estimated real time.
\<close>

theorem runnable_threads_served_in_virtual_time_order:
  assumes "queue_step\<^sup>*\<^sup>* (st0, ThreadQueue_ThreadQueue) (st, q)"
  shows "\<exists>ps. drain (length (threadsQueue q)) st q = Inr ps \<and>
    mset ps = mset (threadsQueue q) \<and> sorted_wrt (\<lambda>a b. ert (st a) \<le> ert (st b)) ps"
proof -
  have ok: "tq_ok st q" using assms by (rule queue_reachable_ok)
  then show ?thesis
    using drain_serve [OF ok] runnable.pq.serve_complete [of st "threadsQueue q"] by (simp add: tq_ok_def)
qed

lemma example_pushes:
  "ThreadQueue_push example_store 0 ThreadQueue_ThreadQueue = Inr \<lparr>threadsQueue = [0], queue_mutex = False\<rparr>"
  "ThreadQueue_push example_store 1 \<lparr>threadsQueue = [0], queue_mutex = False\<rparr> =
     Inr \<lparr>threadsQueue = [0, 1], queue_mutex = False\<rparr>"
  "ThreadQueue_push example_store 2 \<lparr>threadsQueue = [0, 1], queue_mutex = False\<rparr> = Inr example_queue"
  by code_simp+

lemma example_queue_reachable:
  "queue_step\<^sup>*\<^sup>* (example_store, ThreadQueue_ThreadQueue) (example_store, example_queue)"
proof -
  have s: "virtualTimeSpeedup (thr_timers (example_store p)) = 1" for p
    by (simp add: example_store_def example_timers_def)
  note e = example_pushes [THEN queue_step.push [OF s]]
  show ?thesis using e by (meson converse_rtranclp_into_rtranclp r_into_rtranclp)
qed

theorem runnable_threads_served_in_virtual_time_order_witness:
  "\<exists>ps. drain 3 example_store example_queue = Inr ps \<and> mset ps = {#0, 1, 2#} \<and>
     sorted_wrt (\<lambda>a b. ert (example_store a) \<le> ert (example_store b)) ps"
  using runnable_threads_served_in_virtual_time_order [OF example_queue_reachable]
  by (simp add: example_queue_def numeral_3_eq_3 add_mset_commute)

text \<open>
  The scheduling decision of a manager. On a queue reached by any sequence of operations,
  \<open>getNext(manager)\<close> returns without holding the mutex. It offers no thread but the earliest one.
  It takes that thread out of the queue only if the thread is neither running, nor inside a
  predicted I/O, nor completing real code behind a model; a running earliest thread blocks every
  manager, one in I/O is offered but stays queued, and one completing real code is offered, and
  stays queued, only for the manager that controls it.
\<close>

theorem manager_takes_earliest_eligible_thread:
  assumes "queue_step\<^sup>*\<^sup>* (st0, ThreadQueue_ThreadQueue) (st, q)"
  shows "\<exists>q' r. ThreadQueue_getNext_manager st man q = Inr (q', r) \<and> \<not> queue_mutex q' \<and>
    (case r of
       None \<Rightarrow> threadsQueue q' = threadsQueue q \<and>
         (threadsQueue q = [] \<or> (\<exists>p \<in> set (threadsQueue q). (\<forall>s \<in> set (threadsQueue q). ert (st p) \<le> ert (st s)) \<and>
            (isRunning (st p) \<or> isWaitingRealCodeToCompleteAfterModelSimulation (st p)
               \<and> threadCurrentlyControllingManager (scheduling_of (st p)) \<noteq> man)))
     | Some p \<Rightarrow> p \<in> set (threadsQueue q) \<and> (\<forall>s \<in> set (threadsQueue q). ert (st p) \<le> ert (st s)) \<and>
         \<not> isRunning (st p) \<and>
         (isWaitingRealCodeToCompleteAfterModelSimulation (st p) \<longrightarrow>
            threadCurrentlyControllingManager (scheduling_of (st p)) = man) \<and>
         (if inIoPredictionPhase (st p) \<or> isWaitingRealCodeToCompleteAfterModelSimulation (st p)
          then threadsQueue q' = threadsQueue q
          else mset (threadsQueue q') = mset (threadsQueue q) - {#p#}))"
proof -
  have ok: "tq_ok st q" using assms by (rule queue_reachable_ok)
  show ?thesis
  proof (cases "pq_top (threadsQueue q)")
    case None
    then have "threadsQueue q = []" by (simp add: top_None)
    then show ?thesis
      using ok by (simp add: ThreadQueue_getNext_manager_def tq_defs tq_ok_def pq_top_def)
  next
    case (Some p)
    show ?thesis
      using ok Some top_earliest [OF ok Some] pop_ok(2) [OF ok Some]
      by (auto simp: ThreadQueue_getNext_manager_def tq_defs tq_ok_def isWaitingRealCodeToCompleteAfterModelSimulation_def
          inIoPredictionPhase_def)
  qed
qed

theorem manager_takes_earliest_eligible_thread_witness:
  "\<exists>q' r. ThreadQueue_getNext_manager example_store (Some 1) example_queue = Inr (q', r) \<and> \<not> queue_mutex q'"
  using manager_takes_earliest_eligible_thread [OF example_queue_reachable, of "Some 1"] by blast

text \<open>
  C30. Invalidating expired I/O predictions keeps the queue: on a reachable queue the call returns
  with the mutex free and the same threads queued, again in order for the new timestamps, so that
  the next \<open>top()\<close> is the earliest. The thread that was on top has its prediction extended once;
  any other thread is either untouched or was in I/O with an expired prediction, and is then
  extended exactly once.
\<close>

theorem invalidating_io_predictions_keeps_queue:
  assumes "queue_step\<^sup>*\<^sup>* (st0, ThreadQueue_ThreadQueue) (st, q)" and "threadsQueue q = p # rest"
  shows "\<exists>st' q'. ThreadQueue_invalidateExpiredIoPredictions rt (st, q) = Inr (st', q') \<and>
    \<not> queue_mutex q' \<and> mset (threadsQueue q') = mset (threadsQueue q) \<and>
    (\<forall>s \<in> set (threadsQueue q'). ert (st' (hd (threadsQueue q'))) \<le> ert (st' s)) \<and>
    st' p = VexThreadState_invalidateIoPrediction (st p) \<and>
    (\<forall>s. s \<noteq> p \<longrightarrow> st' s = st s \<or>
        s \<in> set (threadsQueue q) \<and> inIoPredictionPhase (st s) \<and>
        \<not> VexThreadState_isIoPredictionStillValid rt (st s) \<and>
        st' s = VexThreadState_invalidateIoPrediction (st s))"
proof -
  have ok: "tq_ok st q" using assms(1) by (rule queue_reachable_ok)
  have p: "pq_top (threadsQueue q) = Some p" using assms(2) by (simp add: pq_top_def)
  obtain st' q' where r: "ThreadQueue_invalidateExpiredIoPredictions rt (st, q) = Inr (st', q')"
    and ok': "tq_ok st' q'" "mset (threadsQueue q') = mset (threadsQueue q)"
    and inv: "st' p = VexThreadState_invalidateIoPrediction (st p)"
      "invalidated rt (threadsQueue q) st (st'(p := st p))"
    using invalidate_ok [OF ok, of rt] p by auto
  have "threadsQueue q' \<noteq> []" using ok'(2) assms(2) by auto
  then have "pq_top (threadsQueue q') = Some (hd (threadsQueue q'))"
    by (cases "threadsQueue q'") (simp_all add: pq_top_def)
  then have "\<forall>s \<in> set (threadsQueue q'). ert (st' (hd (threadsQueue q'))) \<le> ert (st' s)"
    using top_earliest [OF ok'(1)] by blast
  moreover have "\<not> queue_mutex q'" using ok' by (simp add: tq_ok_def)
  ultimately show ?thesis using r ok'(2) inv unfolding invalidated_def by (metis fun_upd_other)
qed

theorem invalidating_io_predictions_keeps_queue_witness:
  "\<exists>st' q'. ThreadQueue_invalidateExpiredIoPredictions 7 (example_store, example_queue) = Inr (st', q') \<and>
     \<not> queue_mutex q' \<and> mset (threadsQueue q') = mset [0, 1, 2]"
  using invalidating_io_predictions_keeps_queue [OF example_queue_reachable, of 0 "[1, 2]" 7]
  by (fastforce simp: example_queue_def)

lemma next_outside_model_set: "next_outside_model st xs = Some y \<Longrightarrow> y \<in> set xs"
  by (induction xs) (auto split: if_splits)

lemma leap_target_hd: "\<exists>y \<in> set (p # rest). leap_target st p (p # rest) = Some y"
  using next_outside_model_set [of st rest] by (auto split: option.split)

text \<open>
  Pushing a blocked model thread back: when \<open>setThreadToNextBiggestErt\<close> is called, on a
  reachable queue, for the thread on top, the call returns with the mutex free and the same threads
  queued, changes no other thread, and moves the thread strictly forward in virtual time, past at
  least one queued thread's timestamp, so that the same thread cannot block the queue forever.
\<close>

theorem blocked_model_thread_moves_forward:
  assumes "queue_step\<^sup>*\<^sup>* (st0, ThreadQueue_ThreadQueue) (st, q)" and "threadsQueue q = p # rest"
  shows "\<exists>st' q'. ThreadQueue_setThreadToNextBiggestErt p (st, q) = Inr (st', q') \<and>
    \<not> queue_mutex q' \<and> mset (threadsQueue q') = mset (threadsQueue q) \<and>
    (\<forall>s. s \<noteq> p \<longrightarrow> st' s = st s) \<and> ert (st p) < ert (st' p) \<and>
    (\<exists>s \<in> set (threadsQueue q). ert (st' p) = ert (st s) + 1)"
proof -
  have ok: "tq_ok st q" using assms(1) by (rule queue_reachable_ok)
  obtain y where y: "y \<in> set (threadsQueue q)" "leap_target st p (threadsQueue q) = Some y"
    using leap_target_hd [of p rest st] assms(2) by metis
  have "ert (st p) \<le> ert (st y)"
    using top_earliest [OF ok, of p] y(1) assms(2) by (auto simp: pq_top_def)
  then have max: "max (ert (st p)) (ert (st y) + 1) = ert (st y) + 1" by simp
  let ?st = "st(p := upd_timers (fst \<circ> Timers_leapTo (ert (st y) + 1)) (st p))"
  let ?q = "q\<lparr>threadsQueue := AdaptiblePQueue_update (thread_order ?st) (threadsQueue q), queue_mutex := False\<rparr>"
  have r: "ThreadQueue_setThreadToNextBiggestErt p (st, q) = Inr (?st, ?q)"
    using y(2) ok by (simp add: ThreadQueue_setThreadToNextBiggestErt_def tq_defs tq_ok_def Let_def)
  have "ert (?st p) = ert (st y) + 1" using max by (simp add: upd_timers_def)
  then show ?thesis
    using r y(1) \<open>ert (st p) \<le> ert (st y)\<close> runnable.update_heap [of ?st "threadsQueue q"]
    by (intro exI [of _ ?st] exI [of _ ?q]) auto
qed

theorem blocked_model_thread_moves_forward_witness:
  "\<exists>st' q'. ThreadQueue_setThreadToNextBiggestErt 0 (example_store, example_queue) = Inr (st', q') \<and>
     5 < ert (st' 0)"
  using blocked_model_thread_moves_forward [OF example_queue_reachable, of 0 "[1, 2]"]
  by (auto simp: example_queue_def example_store_def)

text \<open>
  The thread that \<open>setThreadToNextBiggestErt\<close> leaps over is the next one in the array of the
  heap, not the one with the next highest timestamp. In the reachable queue of threads with
  timestamps 5, 30 and 10, whose array is in this order, the thread at 5 is moved to 31 although
  the next highest timestamp is 10.
\<close>

theorem setThreadToNextBiggestErt_skips_next_timestamp:
  "queue_step\<^sup>*\<^sup>* (example_store, ThreadQueue_ThreadQueue) (example_store, example_queue) \<and>
   map (\<lambda>p. ert (example_store p)) (threadsQueue example_queue) = [5, 30, 10] \<and>
   (case ThreadQueue_setThreadToNextBiggestErt 0 (example_store, example_queue) of
      Inl e \<Rightarrow> False
    | Inr (st', q') \<Rightarrow> map (\<lambda>p. ert (st' p)) [0, 1, 2] = [31, 30, 10] \<and> threadsQueue q' = [2, 1, 0])"
proof (intro conjI)
  show "map (\<lambda>p. ert (example_store p)) (threadsQueue example_queue) = [5, 30, 10]" by code_simp
  show "case ThreadQueue_setThreadToNextBiggestErt 0 (example_store, example_queue) of
      Inl e \<Rightarrow> False
    | Inr (st', q') \<Rightarrow> map (\<lambda>p. ert (st' p)) [0, 1, 2] = [31, 30, 10] \<and> threadsQueue q' = [2, 1, 0]" by code_simp
qed (rule example_queue_reachable)

lemma highest_time_Max:
  "highest_time st xs h =
     Max (set (h # map (\<lambda>p. ert (st p)) (filter (\<lambda>p. isSuspended (st p) \<or> isNativeWaiting (st p)) xs)))"
  unfolding Max.set_eq_fold
  by (induction xs arbitrary: h) (auto simp: max_def)

text \<open>
  A yielding thread is sent to the greatest timestamp among its own and those of the suspended
  and native waiting threads of the queue, whatever the order of the heap.
\<close>

theorem highest_runnable_time_is_maximum:
  assumes "\<not> queue_mutex q"
  shows "ThreadQueue_getHighestRunnableTime st asking q =
    Inr (q, Max (set (ert (st asking) # map (\<lambda>p. ert (st p))
      (filter (\<lambda>p. isSuspended (st p) \<or> isNativeWaiting (st p)) (threadsQueue q)))))"
  using assms
  by (simp add: ThreadQueue_getHighestRunnableTime_def tq_defs highest_time_Max)

theorem highest_runnable_time_is_maximum_witness:
  "ThreadQueue_getHighestRunnableTime example_store 0 example_queue = Inr (example_queue, 30)"
  using highest_runnable_time_is_maximum [of example_queue example_store 0]
  by (simp add: example_queue_def example_store_def isSuspended_def)

end
