(* ===== verification/Vex_Registries.thy ===== *)
theory Vex_Registries
  imports Vex_Thread
begin

text \<open>
  The registries of simulated monitors: \<open>registries/LockRegistry.h\<close>, \<open>LockRegistry.cpp\<close> (which
  thread may enter a lock, plain and reentrant) and \<open>registries/ObjectRegistry.h\<close>,
  \<open>ObjectRegistry.cpp\<close> (which threads wait on an object), with the operations of
  \<open>VexThreadState\<close> that clear a waiting record when a thread is interrupted.

  A registry is a finite map from identifiers to records, thread pointers and thread identifiers
  are numbers. The mutex of a lock registry is explicit, and locking it while held is the error
  \<open>Deadlock\<close>. Printing is left out.
\<close>

section \<open>LockRegistry\<close>

record lock_info =
  threadsContendedOnLock :: "nat list"
  monitorLocked :: bool

record reentrant_info = lock_info +
  owner :: "nat option"
  counter :: int

definition LockRegistryInfo :: lock_info where
  "LockRegistryInfo = \<lparr>threadsContendedOnLock = [], monitorLocked = True\<rparr>"

definition LockRegistryInfo_enterMonitor :: "lock_info \<Rightarrow> lock_info" where
  [vex_defs]: "LockRegistryInfo_enterMonitor i = i\<lparr>monitorLocked := True\<rparr>"

definition LockRegistryInfo_releaseMonitor :: "lock_info \<Rightarrow> lock_info" where
  [vex_defs]: "LockRegistryInfo_releaseMonitor i = i\<lparr>monitorLocked := False\<rparr>"

definition LockRegistryInfo_isMonitorFree :: "'a lock_info_scheme \<Rightarrow> bool" where
  [vex_defs]: "LockRegistryInfo_isMonitorFree i = (\<not> monitorLocked i)"

definition LockRegistryInfo_blockOnMonitor ::
  "nat \<Rightarrow> 'a lock_info_scheme \<Rightarrow> 'a lock_info_scheme" where
  [vex_defs]: "LockRegistryInfo_blockOnMonitor state i =
     i\<lparr>threadsContendedOnLock := threadsContendedOnLock i @ [state]\<rparr>"

definition ReentrantLockRegistryInfo :: "nat \<Rightarrow> reentrant_info" where
  "ReentrantLockRegistryInfo state =
     \<lparr>threadsContendedOnLock = [], monitorLocked = True, owner = Some state, counter = 1\<rparr>"

definition ReentrantLockRegistryInfo_enterMonitor :: "nat \<Rightarrow> reentrant_info \<Rightarrow> reentrant_info" where
  [vex_defs]: "ReentrantLockRegistryInfo_enterMonitor state i =
     i\<lparr>monitorLocked := True, owner := Some state, counter := counter i + 1\<rparr>"

definition ReentrantLockRegistryInfo_releaseMonitor :: "reentrant_info \<Rightarrow> reentrant_info \<times> bool" where
  [vex_defs]: "ReentrantLockRegistryInfo_releaseMonitor i =
     (let i1 = i\<lparr>counter := counter i - 1\<rparr>
      in if counter i1 = 0 then (i1\<lparr>monitorLocked := False, owner := None\<rparr>, True) else (i1, False))"

definition ReentrantLockRegistryInfo_setNextOwner :: "nat \<Rightarrow> reentrant_info \<Rightarrow> reentrant_info" where
  [vex_defs]: "ReentrantLockRegistryInfo_setNextOwner state i = i\<lparr>owner := Some state, counter := 1\<rparr>"

definition ReentrantLockRegistryInfo_isCurrentOwnerThread :: "nat \<Rightarrow> reentrant_info \<Rightarrow> bool" where
  [vex_defs]: "ReentrantLockRegistryInfo_isCurrentOwnerThread state i = (Some state = owner i)"

record 'i lock_registry =
  lock_infos :: "int \<Rightarrow> 'i option"
  registry_mutex :: bool

definition LockRegistry_LockRegistry :: "'i lock_registry" where
  "LockRegistry_LockRegistry = \<lparr>lock_infos = Map.empty, registry_mutex = False\<rparr>"

definition lockRegistryMutex :: "'i lock_registry \<Rightarrow> 'i lock_registry res" where
  "lockRegistryMutex r = (if registry_mutex r then Inl Deadlock else Inr (r\<lparr>registry_mutex := True\<rparr>))"

definition unlockRegistryMutex :: "'i lock_registry \<Rightarrow> 'i lock_registry" where
  "unlockRegistryMutex r = r\<lparr>registry_mutex := False\<rparr>"

definition put_info :: "int \<Rightarrow> 'i \<Rightarrow> 'i lock_registry \<Rightarrow> 'i lock_registry" where
  "put_info lockId i r = r\<lparr>lock_infos := (lock_infos r)(lockId \<mapsto> i)\<rparr>"

definition LockRegistry_tryAcquiringLock ::
  "nat \<Rightarrow> int \<Rightarrow> lock_info lock_registry \<Rightarrow> (lock_info lock_registry \<times> bool) res" where
  "LockRegistry_tryAcquiringLock state lockId r0 =
     bindE (lockRegistryMutex r0) (\<lambda>r.
     case lock_infos r lockId of
       Some i \<Rightarrow>
         if LockRegistryInfo_isMonitorFree i
         then Inr (unlockRegistryMutex (put_info lockId (LockRegistryInfo_enterMonitor i) r), True)
         else Inr (unlockRegistryMutex (put_info lockId (LockRegistryInfo_blockOnMonitor state i) r), False)
     | None \<Rightarrow> Inr (unlockRegistryMutex (put_info lockId LockRegistryInfo r), True))"

definition LockRegistry_releaseAndGetNext ::
  "int \<Rightarrow> lock_info lock_registry \<Rightarrow> (lock_info lock_registry \<times> nat option) res" where
  "LockRegistry_releaseAndGetNext lockId r0 =
     bindE (lockRegistryMutex r0) (\<lambda>r.
     case lock_infos r lockId of
       Some i \<Rightarrow>
         if threadsContendedOnLock i = []
         then Inr (unlockRegistryMutex (put_info lockId (LockRegistryInfo_releaseMonitor i) r), None)
         else Inr (unlockRegistryMutex (put_info lockId
                     (i\<lparr>threadsContendedOnLock := butlast (threadsContendedOnLock i)\<rparr>) r),
                   Some (last (threadsContendedOnLock i)))
     | None \<Rightarrow> Inr (unlockRegistryMutex r, None))"

definition ReentrantLockRegistry_tryAcquiringLock ::
  "nat \<Rightarrow> int \<Rightarrow> reentrant_info lock_registry \<Rightarrow> (reentrant_info lock_registry \<times> bool) res" where
  "ReentrantLockRegistry_tryAcquiringLock state lockId r0 =
     bindE (lockRegistryMutex r0) (\<lambda>r.
     case lock_infos r lockId of
       Some i \<Rightarrow>
         if LockRegistryInfo_isMonitorFree i \<or> ReentrantLockRegistryInfo_isCurrentOwnerThread state i
         then Inr (unlockRegistryMutex (put_info lockId (ReentrantLockRegistryInfo_enterMonitor state i) r), True)
         else Inr (unlockRegistryMutex (put_info lockId (LockRegistryInfo_blockOnMonitor state i) r), False)
     | None \<Rightarrow> Inr (unlockRegistryMutex (put_info lockId (ReentrantLockRegistryInfo state) r), True))"

definition ReentrantLockRegistry_releaseAndGetNext ::
  "int \<Rightarrow> reentrant_info lock_registry \<Rightarrow> (reentrant_info lock_registry \<times> nat option) res" where
  "ReentrantLockRegistry_releaseAndGetNext lockId r0 =
     bindE (lockRegistryMutex r0) (\<lambda>r.
     case lock_infos r lockId of
       Some i \<Rightarrow>
         let (i1, released) = ReentrantLockRegistryInfo_releaseMonitor i
         in if released \<and> threadsContendedOnLock i1 \<noteq> []
            then let state = last (threadsContendedOnLock i1);
                     i2 = i1\<lparr>threadsContendedOnLock := butlast (threadsContendedOnLock i1)\<rparr>
                 in Inr (unlockRegistryMutex (put_info lockId (ReentrantLockRegistryInfo_setNextOwner state i2) r),
                         Some state)
            else Inr (unlockRegistryMutex (put_info lockId i1 r), None)
     | None \<Rightarrow> Inl AssertFailed)"

section \<open>ObjectRegistry\<close>

record object_info =
  threadsWaiting :: "int list"
  monitorFree :: bool

type_synonym object_registry = "int \<Rightarrow> object_info option"

definition ObjectRegistryInfo :: object_info where
  "ObjectRegistryInfo = \<lparr>threadsWaiting = [], monitorFree = True\<rparr>"

definition ObjectRegistryInfo_releaseMonitor :: "object_info \<Rightarrow> object_info" where
  [vex_defs]: "ObjectRegistryInfo_releaseMonitor i = i\<lparr>monitorFree := True\<rparr>"

definition ObjectRegistryInfo_enterMonitor :: "object_info \<Rightarrow> object_info" where
  [vex_defs]: "ObjectRegistryInfo_enterMonitor i = i\<lparr>monitorFree := False\<rparr>"

definition ObjectRegistry_ObjectRegistry :: object_registry where
  "ObjectRegistry_ObjectRegistry = Map.empty"

definition ObjectRegistry_findNext :: "int \<Rightarrow> object_registry \<Rightarrow> int" where
  "ObjectRegistry_findNext objectId r =
     (case r objectId of
        Some i \<Rightarrow> if threadsWaiting i = [] then 0 else last (threadsWaiting i)
      | None \<Rightarrow> 0)"

definition ObjectRegistry_getNext :: "int \<Rightarrow> object_registry \<Rightarrow> object_registry \<times> int" where
  "ObjectRegistry_getNext objectId r =
     (case r objectId of
        Some i \<Rightarrow>
          if threadsWaiting i = [] then (r, 0)
          else (r(objectId \<mapsto> i\<lparr>threadsWaiting := butlast (threadsWaiting i)\<rparr>), last (threadsWaiting i))
      | None \<Rightarrow> (r, 0))"

fun erase_record :: "int \<Rightarrow> int list \<Rightarrow> int list" where
  "erase_record threadId [] = []"
| "erase_record threadId (x # it) = (if threadId = x then it else x # erase_record threadId it)"

definition ObjectRegistry_erase :: "int \<Rightarrow> int \<Rightarrow> object_registry \<Rightarrow> object_registry" where
  "ObjectRegistry_erase objectId threadId r =
     (case r objectId of
        Some i \<Rightarrow>
          if threadsWaiting i = [] then r
          else r(objectId \<mapsto> i\<lparr>threadsWaiting := erase_record threadId (threadsWaiting i)\<rparr>)
      | None \<Rightarrow> r)"

definition ObjectRegistry_insert :: "int \<Rightarrow> int \<Rightarrow> object_registry \<Rightarrow> object_registry" where
  "ObjectRegistry_insert objectId threadId r =
     (case r objectId of
        Some i \<Rightarrow> r(objectId \<mapsto> ObjectRegistryInfo_releaseMonitor
                     (i\<lparr>threadsWaiting := threadsWaiting i @ [threadId]\<rparr>))
      | None \<Rightarrow> r(objectId \<mapsto> ObjectRegistryInfo_releaseMonitor
                     (ObjectRegistryInfo\<lparr>threadsWaiting := [threadId]\<rparr>)))"

definition ObjectRegistry_empty :: "int \<Rightarrow> object_registry \<Rightarrow> bool" where
  "ObjectRegistry_empty objectId r =
     (case r objectId of
        Some i \<Rightarrow> if threadsWaiting i = [] then True else False
      | None \<Rightarrow> True)"

definition ObjectRegistry_getObjectRegistryInfo :: "int \<Rightarrow> object_registry \<Rightarrow> object_registry \<times> object_info" where
  "ObjectRegistry_getObjectRegistryInfo objectId r =
     (case r objectId of
        Some i \<Rightarrow> (r, i)
      | None \<Rightarrow> (r(objectId \<mapsto> ObjectRegistryInfo), ObjectRegistryInfo))"

definition ObjectRegistry_isObjectFree :: "int \<Rightarrow> object_registry \<Rightarrow> object_registry \<times> bool" where
  "ObjectRegistry_isObjectFree objectId r =
     (case r objectId of
        Some i \<Rightarrow> (r, monitorFree i)
      | None \<Rightarrow> (r(objectId \<mapsto> ObjectRegistryInfo), monitorFree ObjectRegistryInfo))"

text \<open>The keys of the registry are of type \<open>int\<close>, the identifiers of objects of type \<open>long\<close>; the callers
  convert them. The registry argument of the thread operations may be \<open>NULL\<close>.\<close>

definition int_of_long :: "int \<Rightarrow> int" where
  "int_of_long x = (x + 2147483648) mod 4294967296 - 2147483648"

definition VexThreadState_eraseWaitingObjectIdFromRegistry ::
  "vex_thread \<Rightarrow> object_registry option \<Rightarrow> object_registry option" where
  "VexThreadState_eraseWaitingObjectIdFromRegistry s reg =
     (case reg of
        Some r \<Rightarrow> if timedWaitingObjectId s \<noteq> 0
                  then Some (ObjectRegistry_erase (int_of_long (timedWaitingObjectId s)) (jthreadId s) r) else reg
      | None \<Rightarrow> reg)"

definition VexThreadState_beforeThreadInterruptAt ::
  "vex_thread \<Rightarrow> object_registry option \<Rightarrow> vex_thread \<times> object_registry option" where
  "VexThreadState_beforeThreadInterruptAt s reg =
     (let reg1 = VexThreadState_eraseWaitingObjectIdFromRegistry s reg;
          s1 = (if parked s
                then (if timeout (thr_timers s) > 0 then s\<lparr>afterInterruptedTimedParking := True\<rparr> else s)\<lparr>parked := False\<rparr>
                else s);
          s2 = (if timeout (thr_timers s1) < 0
                then upd_timers Timers_setTimeoutFlagToDenotePossiblyResumingThread s1 else s1);
          s3 = VexThreadState_setSuspended s2
      in (s3\<lparr>timedOut := False\<rparr>, reg1))"

section \<open>Mutual exclusion\<close>

text \<open>
  The use of a lock registry: threads that were told that they acquired a lock, or were returned by
  the release of it, hold the lock until they release it. \<open>H l\<close> is the set of holders of \<open>l\<close>.
\<close>

inductive lock_step ::
  "(nat \<Rightarrow> int \<Rightarrow> 'r \<Rightarrow> ('r \<times> bool) res) \<Rightarrow> (int \<Rightarrow> 'r \<Rightarrow> ('r \<times> nat option) res) \<Rightarrow>
   'r \<times> (int \<Rightarrow> nat set) \<Rightarrow> 'r \<times> (int \<Rightarrow> nat set) \<Rightarrow> bool"
  for try_acquire release_next where
  acquired: "try_acquire t l r = Inr (r', True) \<Longrightarrow>
    lock_step try_acquire release_next (r, H) (r', H(l := insert t (H l)))"
| blocked: "try_acquire t l r = Inr (r', False) \<Longrightarrow> lock_step try_acquire release_next (r, H) (r', H)"
| released: "t \<in> H l \<Longrightarrow> release_next l r = Inr (r', None) \<Longrightarrow>
    lock_step try_acquire release_next (r, H) (r', H(l := H l - {t}))"
| handed_over: "t \<in> H l \<Longrightarrow> release_next l r = Inr (r', Some u) \<Longrightarrow>
    lock_step try_acquire release_next (r, H) (r', H(l := insert u (H l - {t})))"

definition exclusive :: "bool \<Rightarrow> nat set \<Rightarrow> bool" where
  "exclusive b S = (if b then \<exists>t. S = {t} else S = {})"

lemma exclusive_member: "exclusive b S \<Longrightarrow> t \<in> S \<Longrightarrow> b \<and> S = {t}"
  by (auto simp: exclusive_def split: if_splits)

text \<open>What the monitor events rely on: an acquisition succeeds exactly on a free lock, and a release
  frees the lock or hands it to a waiting thread.\<close>

locale lock_service =
  fixes try_acquire :: "nat \<Rightarrow> int \<Rightarrow> 'r \<Rightarrow> ('r \<times> bool) res"
    and release_next :: "int \<Rightarrow> 'r \<Rightarrow> ('r \<times> nat option) res"
    and held :: "'r \<Rightarrow> int \<Rightarrow> bool"
    and waiters :: "'r \<Rightarrow> int \<Rightarrow> nat list"
    and ok :: "'r \<Rightarrow> bool"
  assumes acquire_law: "ok r \<Longrightarrow> \<exists>r'. try_acquire t l r = Inr (r', \<not> held r l) \<and> ok r' \<and>
      held r' = (held r)(l := True) \<and> waiters r' = (waiters r)(l := waiters r l @ (if held r l then [t] else []))"
    and release_law: "ok r \<Longrightarrow> held r l \<Longrightarrow>
      \<exists>r'. release_next l r = Inr (r', if waiters r l = [] then None else Some (last (waiters r l))) \<and>
        ok r' \<and> held r' = (held r)(l := waiters r l \<noteq> []) \<and> waiters r' = (waiters r)(l := butlast (waiters r l))"
    and waiters_held: "ok r \<Longrightarrow> waiters r l \<noteq> [] \<Longrightarrow> held r l"
begin

definition session_inv :: "'r \<times> (int \<Rightarrow> nat set) \<Rightarrow> bool" where
  "session_inv s \<longleftrightarrow> ok (fst s) \<and> (\<forall>l. exclusive (held (fst s) l) (snd s l))"

lemma lock_step_inv: "lock_step try_acquire release_next s s' \<Longrightarrow> session_inv s \<Longrightarrow> session_inv s'"
proof (induction rule: lock_step.induct)
  case (acquired t l r r' H)
  then have "\<not> held r l" "held r' = (held r)(l := True)" "ok r'"
    using acquire_law [of r t l] by (auto simp: session_inv_def)
  then show ?case using acquired.prems by (auto simp: session_inv_def exclusive_def)
next
  case (blocked t l r r' H)
  then have "held r l" "held r' = (held r)(l := True)" "ok r'"
    using acquire_law [of r t l] by (auto simp: session_inv_def)
  then show ?case using blocked.prems by (auto simp: session_inv_def fun_upd_idem)
next
  case (released t H l r r')
  then have held: "held r l" and "H l = {t}"
    using exclusive_member [of "held r l" "H l" t] by (simp_all add: session_inv_def)
  moreover have "held r' = (held r)(l := False)" "ok r'"
    using released held release_law [of r l] by (auto simp: session_inv_def split: if_splits)
  ultimately show ?case using released.prems by (auto simp: session_inv_def exclusive_def)
next
  case (handed_over t H l r r' u)
  then have held: "held r l" and "H l = {t}"
    using exclusive_member [of "held r l" "H l" t] by (simp_all add: session_inv_def)
  moreover have "held r' = (held r)(l := True)" "ok r'"
    using handed_over held release_law [of r l] by (auto simp: session_inv_def split: if_splits)
  ultimately show ?case using handed_over.prems by (auto simp: session_inv_def exclusive_def)
qed

lemma session_exclusive:
  assumes "(lock_step try_acquire release_next)\<^sup>*\<^sup>* (r0, \<lambda>_. {}) (r, H)" "ok r0" "\<And>l. \<not> held r0 l"
  shows "(\<exists>t. H l \<subseteq> {t}) \<and> (waiters r l \<noteq> [] \<longrightarrow> (\<exists>t. H l = {t}))"
proof -
  have "session_inv (r0, \<lambda>_. {})" using assms(2,3) by (simp add: session_inv_def exclusive_def)
  with assms(1) have "session_inv (r, H)"
    by (induction rule: rtranclp_induct) (auto intro: lock_step_inv)
  then have "ok r" "exclusive (held r l) (H l)" by (simp_all add: session_inv_def)
  then show ?thesis using waiters_held [of r l] by (auto simp: exclusive_def split: if_splits)
qed

end

definition lock_held :: "lock_info lock_registry \<Rightarrow> int \<Rightarrow> bool" where
  "lock_held r l = (case lock_infos r l of Some i \<Rightarrow> monitorLocked i | None \<Rightarrow> False)"

definition lock_waiters :: "lock_info lock_registry \<Rightarrow> int \<Rightarrow> nat list" where
  "lock_waiters r l = (case lock_infos r l of Some i \<Rightarrow> threadsContendedOnLock i | None \<Rightarrow> [])"

definition lock_registry_ok :: "lock_info lock_registry \<Rightarrow> bool" where
  "lock_registry_ok r \<longleftrightarrow> \<not> registry_mutex r \<and> (\<forall>l. lock_waiters r l \<noteq> [] \<longrightarrow> lock_held r l)"

lemmas registry_ops = lockRegistryMutex_def unlockRegistryMutex_def put_info_def

lemma LockRegistry_try_law:
  assumes "lock_registry_ok r"
  shows "\<exists>r'. LockRegistry_tryAcquiringLock t l r = Inr (r', \<not> lock_held r l) \<and> lock_registry_ok r' \<and>
     lock_held r' = (lock_held r)(l := True) \<and>
     lock_waiters r' = (lock_waiters r)(l := lock_waiters r l @ (if lock_held r l then [t] else []))"
  using assms
  by (cases "lock_infos r l")
    (auto simp: LockRegistry_tryAcquiringLock_def registry_ops lock_registry_ok_def lock_held_def
      lock_waiters_def LockRegistryInfo_def vex_defs fun_eq_iff)

lemma LockRegistry_release_law:
  assumes "lock_registry_ok r" "lock_held r l"
  shows "\<exists>r'. LockRegistry_releaseAndGetNext l r =
       Inr (r', if lock_waiters r l = [] then None else Some (last (lock_waiters r l))) \<and>
     lock_registry_ok r' \<and> lock_held r' = (lock_held r)(l := lock_waiters r l \<noteq> []) \<and>
     lock_waiters r' = (lock_waiters r)(l := butlast (lock_waiters r l))"
  using assms
  by (cases "lock_infos r l")
    (auto simp: LockRegistry_releaseAndGetNext_def registry_ops lock_registry_ok_def lock_held_def
      lock_waiters_def vex_defs fun_eq_iff)

interpretation plain_lock: lock_service
  LockRegistry_tryAcquiringLock LockRegistry_releaseAndGetNext lock_held lock_waiters lock_registry_ok
  by unfold_locales (rule LockRegistry_try_law, assumption, rule LockRegistry_release_law, assumption+,
      simp add: lock_registry_ok_def)

text \<open>
  C29. The plain lock registry gives mutual exclusion and abandons nobody: in every session of
  acquisitions and releases that starts with the empty registry, at most one thread holds a lock,
  and while threads are blocked on a lock exactly one thread holds it, whose release will hand the
  lock on.
\<close>

theorem plain_lock_mutual_exclusion:
  assumes "(lock_step LockRegistry_tryAcquiringLock LockRegistry_releaseAndGetNext)\<^sup>*\<^sup>*
             (LockRegistry_LockRegistry, \<lambda>_. {}) (r, H)"
  shows "(\<exists>t. H l \<subseteq> {t}) \<and>
    (\<forall>i. lock_infos r l = Some i \<and> threadsContendedOnLock i \<noteq> [] \<longrightarrow> (\<exists>t. H l = {t}))"
  using plain_lock.session_exclusive [OF assms, of l]
  by (auto simp: lock_registry_ok_def lock_held_def lock_waiters_def LockRegistry_LockRegistry_def)

theorem plain_lock_mutual_exclusion_witness:
  "\<exists>r. (lock_step LockRegistry_tryAcquiringLock LockRegistry_releaseAndGetNext)\<^sup>*\<^sup>*
          (LockRegistry_LockRegistry, \<lambda>_. {}) (r, (\<lambda>_. {})(7 := {1})) \<and>
       (\<exists>t. ((\<lambda>_. {})(7 := {1::nat})) (7::int) \<subseteq> {t})"
proof -
  obtain r where "LockRegistry_tryAcquiringLock 1 7 LockRegistry_LockRegistry = Inr (r, True)"
    by (simp add: LockRegistry_tryAcquiringLock_def LockRegistry_LockRegistry_def registry_ops)
  then have "lock_step LockRegistry_tryAcquiringLock LockRegistry_releaseAndGetNext
     (LockRegistry_LockRegistry, \<lambda>_. {}) (r, (\<lambda>_. {})(7 := insert 1 ((\<lambda>_. {}) (7::int))))"
    by (rule lock_step.acquired)
  then have "(lock_step LockRegistry_tryAcquiringLock LockRegistry_releaseAndGetNext)\<^sup>*\<^sup>*
          (LockRegistry_LockRegistry, \<lambda>_. {}) (r, (\<lambda>_. {})(7 := {1}))" by auto
  with plain_lock_mutual_exclusion [OF this, of 7] show ?thesis by blast
qed

text \<open>
  The reentrant registry does not give mutual exclusion. After thread 1 hands lock 7 over to
  the waiting thread 2, the lock is still marked free, because \<open>releaseMonitor\<close> clears
  \<open>monitorLocked\<close> and \<open>setNextOwner\<close> does not set it; so thread 3 acquires the lock that thread 2
  holds.
\<close>

theorem reentrant_lock_two_holders:
  "\<exists>r. (lock_step ReentrantLockRegistry_tryAcquiringLock ReentrantLockRegistry_releaseAndGetNext)\<^sup>*\<^sup>*
         (LockRegistry_LockRegistry, \<lambda>_. {}) (r, (\<lambda>_. {})(7 := {2, 3}))"
proof -
  let ?step = "lock_step ReentrantLockRegistry_tryAcquiringLock ReentrantLockRegistry_releaseAndGetNext"
  let ?reg = "\<lambda>i. \<lparr>lock_infos = [7 \<mapsto> i], registry_mutex = False\<rparr>"
  let ?a = "\<lparr>threadsContendedOnLock = [], monitorLocked = True, owner = Some 1, counter = 1\<rparr>"
  let ?b = "\<lparr>threadsContendedOnLock = [2], monitorLocked = True, owner = Some 1, counter = 1\<rparr>"
  let ?c = "\<lparr>threadsContendedOnLock = [], monitorLocked = False, owner = Some 2, counter = 1\<rparr>"
  let ?d = "\<lparr>threadsContendedOnLock = [], monitorLocked = True, owner = Some 3, counter = 2\<rparr>"
  note ops = ReentrantLockRegistry_tryAcquiringLock_def ReentrantLockRegistry_releaseAndGetNext_def
    ReentrantLockRegistryInfo_def LockRegistry_LockRegistry_def registry_ops vex_defs
  have "ReentrantLockRegistry_tryAcquiringLock 1 7 LockRegistry_LockRegistry = Inr (?reg ?a, True)"
    "ReentrantLockRegistry_tryAcquiringLock 2 7 (?reg ?a) = Inr (?reg ?b, False)"
    "ReentrantLockRegistry_releaseAndGetNext 7 (?reg ?b) = Inr (?reg ?c, Some 2)"
    "ReentrantLockRegistry_tryAcquiringLock 3 7 (?reg ?c) = Inr (?reg ?d, True)"
    by (simp_all add: ops)
  note calls = this
  let ?H = "\<lambda>S. (\<lambda>_. {})((7::int) := S)"
  have "?step (LockRegistry_LockRegistry, \<lambda>_. {}) (?reg ?a, (\<lambda>_. {})(7 := insert 1 ((\<lambda>_. {}) (7::int))))"
    by (rule lock_step.acquired, rule calls(1))
  moreover have "?step (?reg ?a, ?H {1}) (?reg ?b, ?H {1})"
    by (rule lock_step.blocked, rule calls(2))
  moreover have "?step (?reg ?b, ?H {1}) (?reg ?c, (?H {1})(7 := insert 2 (?H {1} 7 - {1})))"
    by (rule lock_step.handed_over, simp, rule calls(3))
  moreover have "?step (?reg ?c, ?H {2}) (?reg ?d, (?H {2})(7 := insert 3 (?H {2} 7)))"
    by (rule lock_step.acquired, rule calls(4))
  ultimately have "?step\<^sup>*\<^sup>* (LockRegistry_LockRegistry, \<lambda>_. {}) (?reg ?d, ?H {3, 2})"
    by (simp add: converse_rtranclp_into_rtranclp)
  then show ?thesis by (auto simp: insert_commute)
qed

text \<open>Repeated calls by one thread: \<open>n\<close> acquisitions that must succeed, \<open>n\<close> releases that hand the
  lock to nobody.\<close>

primrec acquire_times :: "nat \<Rightarrow> nat \<Rightarrow> int \<Rightarrow> reentrant_info lock_registry \<Rightarrow> reentrant_info lock_registry res" where
  "acquire_times 0 t l r = Inr r"
| "acquire_times (Suc n) t l r =
     bindE (ReentrantLockRegistry_tryAcquiringLock t l r) (\<lambda>(r', b).
       if b then acquire_times n t l r' else Inl CheckFailed)"

primrec release_times :: "nat \<Rightarrow> int \<Rightarrow> reentrant_info lock_registry \<Rightarrow> reentrant_info lock_registry res" where
  "release_times 0 l r = Inr r"
| "release_times (Suc n) l r =
     bindE (ReentrantLockRegistry_releaseAndGetNext l r) (\<lambda>(r', u).
       if u = None then release_times n l r' else Inl CheckFailed)"

definition reentrant_at :: "nat \<Rightarrow> int \<Rightarrow> int \<Rightarrow> (int \<Rightarrow> reentrant_info option) \<Rightarrow> reentrant_info lock_registry" where
  "reentrant_at t l n m =
     \<lparr>lock_infos = m(l \<mapsto> \<lparr>threadsContendedOnLock = [], monitorLocked = 0 < n,
        owner = (if 0 < n then Some t else None), counter = n\<rparr>), registry_mutex = False\<rparr>"

lemma reentrant_try: "0 \<le> n \<Longrightarrow>
  ReentrantLockRegistry_tryAcquiringLock t l (reentrant_at t l n m) = Inr (reentrant_at t l (n + 1) m, True)"
  by (simp add: ReentrantLockRegistry_tryAcquiringLock_def reentrant_at_def registry_ops vex_defs)

lemma reentrant_release: "0 < n \<Longrightarrow>
  ReentrantLockRegistry_releaseAndGetNext l (reentrant_at t l n m) = Inr (reentrant_at t l (n - 1) m, None)"
  by (auto simp: ReentrantLockRegistry_releaseAndGetNext_def reentrant_at_def registry_ops vex_defs)

lemma acquire_times_at: "0 \<le> n \<Longrightarrow>
  acquire_times k t l (reentrant_at t l n m) = Inr (reentrant_at t l (n + int k) m)"
  by (induction k arbitrary: n) (simp_all add: reentrant_try algebra_simps)

lemma release_times_at: "int k \<le> n \<Longrightarrow>
  release_times k l (reentrant_at t l n m) = Inr (reentrant_at t l (n - int k) m)"
  by (induction k arbitrary: n) (simp_all add: reentrant_release algebra_simps)

text \<open>
  Reentrance: a thread that finds a lock unregistered can acquire it any number \<open>n + 1\<close> of
  times. After \<open>k\<close> releases another thread that tries the lock acquires it exactly if all
  acquisitions have been released, and is blocked otherwise; none of the calls fails.
\<close>

theorem reentrant_lock_needs_matching_releases:
  assumes "\<not> registry_mutex r" "lock_infos r l = None" "k \<le> Suc n" "u \<noteq> t"
  shows "\<exists>r'. bindE (acquire_times (Suc n) t l r) (\<lambda>r1.
      bindE (release_times k l r1) (\<lambda>r2. ReentrantLockRegistry_tryAcquiringLock u l r2)) = Inr (r', k = Suc n)"
proof -
  have first: "ReentrantLockRegistry_tryAcquiringLock t l r = Inr (reentrant_at t l 1 (lock_infos r), True)"
    using assms(1,2)
    by (simp add: ReentrantLockRegistry_tryAcquiringLock_def reentrant_at_def registry_ops ReentrantLockRegistryInfo_def)
  have "acquire_times (Suc n) t l r = Inr (reentrant_at t l (1 + int n) (lock_infos r))"
    by (simp add: first acquire_times_at)
  moreover have "release_times k l (reentrant_at t l (1 + int n) (lock_infos r)) =
      Inr (reentrant_at t l (1 + int n - int k) (lock_infos r))"
    using assms(3) by (intro release_times_at) simp
  moreover have "\<exists>r'. ReentrantLockRegistry_tryAcquiringLock u l (reentrant_at t l (1 + int n - int k) (lock_infos r)) =
      Inr (r', k = Suc n)"
    using assms(3,4)
    by (auto simp: ReentrantLockRegistry_tryAcquiringLock_def reentrant_at_def registry_ops vex_defs)
  ultimately show ?thesis by simp
qed

theorem reentrant_lock_needs_matching_releases_witness:
  "\<exists>r'. bindE (acquire_times 3 1 7 LockRegistry_LockRegistry) (\<lambda>r1.
      bindE (release_times 2 7 r1) (\<lambda>r2. ReentrantLockRegistry_tryAcquiringLock 5 7 r2)) = Inr (r', False)"
  using reentrant_lock_needs_matching_releases [of LockRegistry_LockRegistry 7 2 2 5 1]
  by (simp add: LockRegistry_LockRegistry_def numeral_3_eq_3 numeral_2_eq_2)

section \<open>Waiting threads\<close>

text \<open>The abstract view of an object registry: a stack of waiting threads per object.\<close>

definition waiting :: "object_registry \<Rightarrow> int \<Rightarrow> int list" where
  "waiting r o1 = (case r o1 of Some i \<Rightarrow> threadsWaiting i | None \<Rightarrow> [])"

datatype registry_op = Insert int int | GetNext int | FindNext int | Erase int int | IsEmpty int | IsFree int

fun run_op :: "registry_op \<Rightarrow> object_registry \<Rightarrow> object_registry \<times> int" where
  "run_op (Insert o1 t) r = (ObjectRegistry_insert o1 t r, 0)"
| "run_op (GetNext o1) r = ObjectRegistry_getNext o1 r"
| "run_op (FindNext o1) r = (r, ObjectRegistry_findNext o1 r)"
| "run_op (Erase o1 t) r = (ObjectRegistry_erase o1 t r, 0)"
| "run_op (IsEmpty o1) r = (r, of_bool (ObjectRegistry_empty o1 r))"
| "run_op (IsFree o1) r = (let (r', b) = ObjectRegistry_isObjectFree o1 r in (r', of_bool b))"

fun spec_op :: "registry_op \<Rightarrow> (int \<Rightarrow> int list) \<Rightarrow> (int \<Rightarrow> int list) \<times> int" where
  "spec_op (Insert o1 t) w = (w(o1 := w o1 @ [t]), 0)"
| "spec_op (GetNext o1) w = (w(o1 := butlast (w o1)), if w o1 = [] then 0 else last (w o1))"
| "spec_op (FindNext o1) w = (w, if w o1 = [] then 0 else last (w o1))"
| "spec_op (Erase o1 t) w = (w(o1 := remove1 t (w o1)), 0)"
| "spec_op (IsEmpty o1) w = (w, of_bool (w o1 = []))"
| "spec_op (IsFree o1) w = (w, 1)"

fun run_ops :: "(registry_op \<Rightarrow> 's \<Rightarrow> 's \<times> int) \<Rightarrow> registry_op list \<Rightarrow> 's \<Rightarrow> int list" where
  "run_ops f [] s = []"
| "run_ops f (x # xs) s = (let (s', v) = f x s in v # run_ops f xs s')"

definition objects_free :: "object_registry \<Rightarrow> bool" where
  "objects_free r \<longleftrightarrow> (\<forall>o1 i. r o1 = Some i \<longrightarrow> monitorFree i)"

lemma erase_record_remove1 [simp]: "erase_record t xs = remove1 t xs"
  by (induction xs) auto

lemma run_op_refines:
  assumes "objects_free r"
  shows "map_prod waiting id (run_op x r) = spec_op x (waiting r) \<and> objects_free (fst (run_op x r))"
proof (cases x)
  case (Insert o1 t)
  then show ?thesis using assms
    by (auto simp: ObjectRegistry_insert_def waiting_def objects_free_def ObjectRegistryInfo_def vex_defs
        split: option.splits)
next
  case (GetNext o1)
  then show ?thesis using assms
    by (auto simp: ObjectRegistry_getNext_def waiting_def objects_free_def fun_eq_iff split: option.splits)
next
  case (FindNext o1)
  then show ?thesis using assms by (simp add: ObjectRegistry_findNext_def waiting_def split: option.splits)
next
  case (Erase o1 t)
  then show ?thesis using assms
    by (auto simp: ObjectRegistry_erase_def waiting_def objects_free_def fun_eq_iff split: option.splits)
next
  case (IsEmpty o1)
  then show ?thesis using assms by (simp add: ObjectRegistry_empty_def waiting_def split: option.splits)
next
  case (IsFree o1)
  then show ?thesis using assms
    by (auto simp: ObjectRegistry_isObjectFree_def waiting_def objects_free_def ObjectRegistryInfo_def fun_eq_iff
        split: option.splits)
qed

lemma run_ops_refine: "objects_free r \<Longrightarrow> run_ops run_op xs r = run_ops spec_op xs (waiting r)"
proof (induction xs arbitrary: r)
  case (Cons x xs)
  have "spec_op x (waiting r) = (waiting (fst (run_op x r)), snd (run_op x r))"
    using run_op_refines [OF Cons.prems, of x] by (metis fst_map_prod id_apply prod.collapse snd_map_prod)
  then show ?case
    using Cons.IH [of "fst (run_op x r)"] run_op_refines [OF Cons.prems, of x] by (simp add: case_prod_beta Let_def)
qed simp

text \<open>
  C28. The object registry implements a stack of waiting threads per object: any sequence of
  registrations, notifications, look-ups and erasures on a new registry returns what the same
  sequence returns on lists, where a notification takes the thread that started to wait last and
  returns 0 when nobody waits, and an erasure removes one record of the thread.
\<close>

theorem object_registry_refines_stacks:
  "run_ops run_op xs ObjectRegistry_ObjectRegistry = run_ops spec_op xs (\<lambda>_. [])"
  using run_ops_refine [of ObjectRegistry_ObjectRegistry xs]
  by (simp add: objects_free_def ObjectRegistry_ObjectRegistry_def waiting_def [abs_def])

text \<open>
  An interrupted thread cannot be notified afterwards: when a thread that is registered at most
  once as waiting on its object is interrupted, its record is removed and no other record is
  touched; the thread is suspended, no longer parked, marked as not timed out, and marked for an
  interrupted timed parking exactly if it was parked with a positive timeout (or already marked).
\<close>

theorem interrupt_clears_waiting_record:
  assumes "timedWaitingObjectId s \<noteq> 0" "distinct (waiting r (int_of_long (timedWaitingObjectId s)))"
    and "VexThreadState_beforeThreadInterruptAt s (Some r) = (s', reg)"
  shows "\<exists>r'. reg = Some r' \<and> jthreadId s \<notin> set (waiting r' (int_of_long (timedWaitingObjectId s))) \<and>
      (\<forall>o1. waiting r' o1 = (if o1 = int_of_long (timedWaitingObjectId s) then remove1 (jthreadId s) (waiting r o1) else waiting r o1)) \<and>
    isSuspended s' \<and> \<not> parked s' \<and> \<not> timedOut s' \<and>
    (afterInterruptedTimedParking s' \<longleftrightarrow>
       afterInterruptedTimedParking s \<or> parked s \<and> 0 < timeout (thr_timers s))"
proof -
  let ?o = "int_of_long (timedWaitingObjectId s)"
  let ?r = "ObjectRegistry_erase ?o (jthreadId s) r"
  have reg: "reg = Some ?r"
    using assms(1,3) by (simp add: VexThreadState_beforeThreadInterruptAt_def Let_def
        VexThreadState_eraseWaitingObjectIdFromRegistry_def)
  have w: "waiting ?r = (waiting r)(?o := remove1 (jthreadId s) (waiting r ?o))"
    by (auto simp: ObjectRegistry_erase_def waiting_def fun_eq_iff split: option.splits)
  have "isSuspended s' \<and> \<not> parked s' \<and> \<not> timedOut s' \<and> (afterInterruptedTimedParking s' \<longleftrightarrow>
       afterInterruptedTimedParking s \<or> parked s \<and> 0 < timeout (thr_timers s))"
    using assms(3)
    by (cases "parked s"; cases "0 < timeout (thr_timers s)"; cases "timeout (thr_timers s) < 0")
      (auto simp: VexThreadState_beforeThreadInterruptAt_def Let_def VexThreadState_setSuspended_def
        VexThreadState_setNewState_def isSuspended_def upd_defs)
  then show ?thesis using assms(2) by (auto simp: reg w)
qed

theorem interrupt_clears_waiting_record_witness:
  "\<exists>r'. snd (VexThreadState_beforeThreadInterruptAt (example_thread\<lparr>timedWaitingObjectId := 4\<rparr>)
         (Some (ObjectRegistry_insert 4 1 ObjectRegistry_ObjectRegistry))) = Some r' \<and> waiting r' 4 = []"
  using interrupt_clears_waiting_record [of "example_thread\<lparr>timedWaitingObjectId := 4\<rparr>"
      "ObjectRegistry_insert 4 1 ObjectRegistry_ObjectRegistry", OF _ _ prod.collapse [symmetric]]
  by (auto simp: int_of_long_def example_thread_def waiting_def ObjectRegistry_insert_def ObjectRegistry_ObjectRegistry_def vex_defs)

end
