(* ===== verification/Vex_Handshake.thy ===== *)
theory Vex_Handshake
  imports Vex_Thread
begin

text \<open>
  The hand-shakes of class \<open>Scheduling\<close> (\<open>threads/Scheduling.h\<close>, \<open>Scheduling.cpp\<close>) between a
  simulated thread and the schedulers that suspend and resume it.

  The methods consist of operations on three mutexes, two condition variables and the flags of the
  \<open>scheduling\<close> record. They are lists of instructions here, in the order of the source; the
  instructions of the thread and of any number of schedulers interleave one at a time. Waiting on a
  condition variable releases the mutex, sleeps until a signal or a spurious wake-up, and acquires
  the mutex again before the loop tests its condition. Unlocking a mutex that the agent does not own
  is undefined behaviour.
\<close>

section \<open>Agents and instructions\<close>

datatype agent = App | Mgr nat

datatype mutex = SharedAccessKey | SuspendLock | SuspendFlagLock

datatype cond = CondSuspendLock | CondSuspendFlagLock

datatype guard = NotAwaken | SimulatingModel | SuspendFlagClear

datatype instr =
    Lock mutex
  | LockIfNotAwaken mutex
  | Unlock mutex
  | CountNativeEntry
  | SetAwaken bool
  | OnThreadResumeByManager nat
  | SetSimulatingModel bool
  | SetSuspendFlag suspend_flag
  | ReturnSuspendFlag
  | WaitWhile guard cond mutex
  | Reacquire mutex
  | SignalCond cond
  | PushIntoRunnables
  | TakeIfNext "instr list"

record hs =
  sched :: scheduling
  owner :: "mutex \<Rightarrow> agent option"
  asleep :: "agent \<Rightarrow> cond option"
  program :: "agent \<Rightarrow> instr list"
  runnable_entry :: bool
  intention :: "agent \<Rightarrow> suspend_flag option"
  undefined_unlock :: bool

subsection \<open>The methods\<close>

definition Scheduling_lockShareResourceAccessKey :: "instr list" where
  [vex_defs]: "Scheduling_lockShareResourceAccessKey = [CountNativeEntry, Lock SharedAccessKey]"

definition Scheduling_unlockShareResourceAccessKey :: "instr list" where
  [vex_defs]: "Scheduling_unlockShareResourceAccessKey = [Unlock SharedAccessKey]"

definition Scheduling_waitForThreadToBlock :: "instr list" where
  [vex_defs]: "Scheduling_waitForThreadToBlock = [LockIfNotAwaken SuspendLock]"

definition Scheduling_signalBlockedThreadToResume :: "instr list" where
  [vex_defs]: "Scheduling_signalBlockedThreadToResume = [SignalCond CondSuspendLock]"

definition Scheduling_allowSignalledThreadToResume :: "instr list" where
  [vex_defs]: "Scheduling_allowSignalledThreadToResume = [Unlock SuspendLock]"

definition Scheduling_blockHereUntilSignaled :: "instr list" where
  [vex_defs]: "Scheduling_blockHereUntilSignaled = [SetAwaken False, WaitWhile NotAwaken CondSuspendLock SuspendLock]"

definition Scheduling_notifySchedulerForIntention :: "suspend_flag \<Rightarrow> instr list" where
  [vex_defs]: "Scheduling_notifySchedulerForIntention f =
     [Lock SuspendFlagLock, SetSuspendFlag f, SignalCond CondSuspendFlagLock, Unlock SuspendFlagLock]"

definition Scheduling_getSuspendingThreadIntention :: "instr list" where
  [vex_defs]: "Scheduling_getSuspendingThreadIntention =
     [Lock SuspendFlagLock, WaitWhile SuspendFlagClear CondSuspendFlagLock SuspendFlagLock,
      ReturnSuspendFlag, SetSuspendFlag CLEAR_SUSPENDFLAG, Unlock SuspendFlagLock]"

definition Scheduling_notifySchedulerThatThreadResumed :: "instr list" where
  [vex_defs]: "Scheduling_notifySchedulerThatThreadResumed =
     [Lock SuspendFlagLock, SetSuspendFlag RESUMING_SUSPENDFLAG, SignalCond CondSuspendFlagLock,
      Unlock SuspendFlagLock]"

definition Scheduling_waitForResumingThread :: "instr list" where
  [vex_defs]: "Scheduling_waitForResumingThread =
     [Lock SuspendFlagLock, WaitWhile SuspendFlagClear CondSuspendFlagLock SuspendFlagLock,
      SetSuspendFlag CLEAR_SUSPENDFLAG, Unlock SuspendFlagLock]"

definition Scheduling_acquireThreadControllingLock :: "instr list" where
  [vex_defs]: "Scheduling_acquireThreadControllingLock = [Lock SuspendLock]"

definition Scheduling_releaseThreadControllingLock :: "instr list" where
  [vex_defs]: "Scheduling_releaseThreadControllingLock = [Unlock SuspendLock]"

definition Scheduling_startSchedulerControlledModelSimulation :: "instr list" where
  [vex_defs]: "Scheduling_startSchedulerControlledModelSimulation =
     SetSimulatingModel True # Scheduling_releaseThreadControllingLock"

definition Scheduling_blockUntilModelSimulationEnd :: "instr list" where
  [vex_defs]: "Scheduling_blockUntilModelSimulationEnd =
     Scheduling_acquireThreadControllingLock @ [WaitWhile SimulatingModel CondSuspendLock SuspendLock]"

definition Scheduling_notifyModelSimulationEnd :: "instr list" where
  [vex_defs]: "Scheduling_notifyModelSimulationEnd =
     Scheduling_acquireThreadControllingLock @ [SetSimulatingModel False, SignalCond CondSuspendLock]
     @ Scheduling_releaseThreadControllingLock"

definition Scheduling_locklessNotifyModelSimulationEnd :: "instr list" where
  [vex_defs]: "Scheduling_locklessNotifyModelSimulationEnd = [SetSimulatingModel False]"

definition VexThreadState_onBlockedWaitingInVex :: "instr list" where
  [vex_defs]: "VexThreadState_onBlockedWaitingInVex =
     Scheduling_unlockShareResourceAccessKey @ Scheduling_blockHereUntilSignaled
     @ Scheduling_lockShareResourceAccessKey"

text \<open>
  What a thread does with these flags when it suspends itself inside VEX
  (\<open>suspendCurrentThread\<close>: \<open>setSuspended\<close>, push into the runnable queue, \<open>blockCurrentThread\<close>, and
  \<open>setRunningThread\<close> after it has been resumed), and what a scheduler does that found the thread on
  top of the queue (\<open>continueThread\<close>, \<open>resumeThread\<close>).
\<close>

definition suspend_handshake :: "instr list" where
  [vex_defs]: "suspend_handshake =
     Scheduling_lockShareResourceAccessKey @ [SetAwaken False, PushIntoRunnables]
     @ VexThreadState_onBlockedWaitingInVex @ [SetAwaken False] @ Scheduling_unlockShareResourceAccessKey"

definition resume_handshake :: "nat \<Rightarrow> instr list" where
  [vex_defs]: "resume_handshake m =
     Scheduling_waitForThreadToBlock @ [OnThreadResumeByManager m]
     @ Scheduling_signalBlockedThreadToResume @ Scheduling_allowSignalledThreadToResume"

definition continue_handshake :: "nat \<Rightarrow> instr list" where
  [vex_defs]: "continue_handshake m =
     Scheduling_lockShareResourceAccessKey @ [TakeIfNext (resume_handshake m)]
     @ Scheduling_unlockShareResourceAccessKey"

section \<open>Interleaved execution\<close>

fun holds :: "guard \<Rightarrow> scheduling \<Rightarrow> bool" where
  "holds NotAwaken sc = (\<not> awaken sc)"
| "holds SimulatingModel sc = simulatingModel sc"
| "holds SuspendFlagClear sc = (suspendFlag sc = CLEAR_SUSPENDFLAG)"

definition goto :: "agent \<Rightarrow> instr list \<Rightarrow> hs \<Rightarrow> hs" where
  "goto a is s = s\<lparr>program := (program s)(a := is)\<rparr>"

definition acquire :: "agent \<Rightarrow> mutex \<Rightarrow> hs \<Rightarrow> hs option" where
  "acquire a m s = (if owner s m = None then Some (s\<lparr>owner := (owner s)(m \<mapsto> a)\<rparr>) else None)"

definition unlock :: "agent \<Rightarrow> mutex \<Rightarrow> hs \<Rightarrow> hs" where
  "unlock a m s =
     (if owner s m = Some a then s\<lparr>owner := (owner s)(m := None)\<rparr> else s\<lparr>undefined_unlock := True\<rparr>)"

text \<open>The effect of an instruction other than \<open>SignalCond\<close>; \<open>None\<close> if the agent has to wait.\<close>

fun exec :: "agent \<Rightarrow> instr \<Rightarrow> instr list \<Rightarrow> hs \<Rightarrow> hs option" where
  "exec a (Lock m) is s = map_option (goto a is) (acquire a m s)"
| "exec a (LockIfNotAwaken m) is s =
     (if \<not> awaken (sched s) then map_option (goto a is) (acquire a m s) else Some (goto a is s))"
| "exec a (Unlock m) is s = Some (goto a is (unlock a m s))"
| "exec a CountNativeEntry is s =
     Some (goto a is (s\<lparr>sched := (sched s)\<lparr>waitingInNativeVTFcode := waitingInNativeVTFcode (sched s) + 1\<rparr>\<rparr>))"
| "exec a (SetAwaken b) is s = Some (goto a is (s\<lparr>sched := Scheduling_setAwaken b (sched s)\<rparr>))"
| "exec a (OnThreadResumeByManager m) is s =
     Some (goto a is (s\<lparr>sched := Scheduling_onThreadResumeByManager m (sched s)\<rparr>))"
| "exec a (SetSimulatingModel b) is s = Some (goto a is (s\<lparr>sched := (sched s)\<lparr>simulatingModel := b\<rparr>\<rparr>))"
| "exec a (SetSuspendFlag f) is s = Some (goto a is (s\<lparr>sched := (sched s)\<lparr>suspendFlag := f\<rparr>\<rparr>))"
| "exec a ReturnSuspendFlag is s =
     Some (goto a is (s\<lparr>intention := (intention s)(a \<mapsto> suspendFlag (sched s))\<rparr>))"
| "exec a (WaitWhile g c m) is s =
     (if holds g (sched s)
      then Some (goto a (Reacquire m # WaitWhile g c m # is)
                  ((unlock a m s)\<lparr>asleep := (asleep s)(a \<mapsto> c)\<rparr>))
      else Some (goto a is s))"
| "exec a (Reacquire m) is s = map_option (goto a is) (acquire a m s)"
| "exec a (SignalCond c) is s = None"
| "exec a PushIntoRunnables is s = Some (goto a is (s\<lparr>runnable_entry := True\<rparr>))"
| "exec a (TakeIfNext ps) is s =
     (if runnable_entry s then Some (goto a (ps @ is) (s\<lparr>runnable_entry := False\<rparr>)) else Some (goto a is s))"

inductive hs_step :: "agent \<Rightarrow> hs \<Rightarrow> hs \<Rightarrow> bool" where
  act: "program s a = i # is \<Longrightarrow> asleep s a = None \<Longrightarrow> exec a i is s = Some s' \<Longrightarrow> hs_step a s s'"
| signal_one: "program s a = SignalCond c # is \<Longrightarrow> asleep s a = None \<Longrightarrow> asleep s b = Some c \<Longrightarrow>
     hs_step a s (goto a is (s\<lparr>asleep := (asleep s)(b := None)\<rparr>))"
| signal_none: "program s a = SignalCond c # is \<Longrightarrow> asleep s a = None \<Longrightarrow> (\<forall>b. asleep s b \<noteq> Some c) \<Longrightarrow>
     hs_step a s (goto a is s)"
| spurious: "asleep s a = Some c \<Longrightarrow> hs_step a s (s\<lparr>asleep := (asleep s)(a := None)\<rparr>)"

text \<open>
  The thread suspends itself again and again; between suspensions it runs the code of the
  application. Every scheduler finds the thread on top of the queue at any time.
\<close>

inductive resume_step :: "hs \<Rightarrow> hs \<Rightarrow> bool" where
  run: "hs_step a s s' \<Longrightarrow> resume_step s s'"
| suspend: "program s App = [] \<Longrightarrow> resume_step s (goto App suspend_handshake s)"
| continue: "program s (Mgr m) = [] \<Longrightarrow> resume_step s (goto (Mgr m) (continue_handshake m) s)"



definition initial :: "scheduling \<Rightarrow> hs" where
  "initial sc = \<lparr>sched = sc, owner = [SuspendLock \<mapsto> App], asleep = (\<lambda>_. None),
     program = (\<lambda>_. []), runnable_entry = False, intention = (\<lambda>_. None), undefined_unlock = False\<rparr>"

text \<open>Position of the thread in its suspension, \<open>r\<close>: it has to acquire the lock again.\<close>

definition app_at :: "nat \<Rightarrow> bool \<Rightarrow> hs \<Rightarrow> bool" where
  "app_at k r s \<longleftrightarrow> k \<le> 11 \<and> (r \<longrightarrow> k = 6) \<and>
     program s App = (if r then [Reacquire SuspendLock] else []) @ drop k suspend_handshake \<and>
     (asleep s App = None \<or> r \<and> asleep s App = Some CondSuspendLock) \<and>
     (owner s SharedAccessKey = Some App \<longleftrightarrow> k \<in> {2, 3, 4, 9, 10})"

definition idle :: "nat \<Rightarrow> instr list \<Rightarrow> bool" where
  "idle m p \<longleftrightarrow> p = [] \<or> p = continue_handshake m \<or> p = tl (continue_handshake m)"

definition mgrs_at :: "(nat \<times> nat) option \<Rightarrow> hs \<Rightarrow> bool" where
  "mgrs_at h s \<longleftrightarrow>
     (\<forall>m. asleep s (Mgr m) = None) \<and>
     (\<forall>m. (owner s SharedAccessKey = Some (Mgr m)) = (\<exists>j. h = Some (m, j))) \<and>
     (\<forall>m. (\<nexists>j. h = Some (m, j)) \<longrightarrow> idle m (program s (Mgr m))) \<and>
     (\<forall>m j. h = Some (m, j) \<longrightarrow> j \<le> 5 \<and>
        program s (Mgr m) = (if j = 0 then drop 2 (continue_handshake m)
           else drop (j - 1) (resume_handshake m @ Scheduling_unlockShareResourceAccessKey)))"

fun stage :: "(nat \<times> nat) option \<Rightarrow> nat" where
  "stage None = 0"
| "stage (Some (m, j)) = j"

definition phase :: "nat \<Rightarrow> bool \<Rightarrow> nat \<Rightarrow> bool \<Rightarrow> bool \<Rightarrow> bool \<Rightarrow> bool" where
  "phase k r j queued go sleeping \<longleftrightarrow>
     k \<in> {0, 1, 2, 3, 10, 11} \<and> \<not> queued \<and> \<not> go \<and> j \<in> {0, 5}
   \<or> k \<in> {4, 5, 6} \<and> queued \<and> \<not> go \<and> j \<in> {0, 5}
   \<or> k \<in> {5, 6} \<and> \<not> queued \<and> \<not> go \<and> j = 1
   \<or> r \<and> \<not> queued \<and> \<not> go \<and> j = 2
   \<or> r \<and> \<not> queued \<and> go \<and> j = 3
   \<or> r \<and> \<not> queued \<and> go \<and> j = 4 \<and> \<not> sleeping
   \<or> k \<in> {6, 7, 8, 9} \<and> \<not> queued \<and> go \<and> j \<in> {0, 5} \<and> \<not> sleeping"

lemma phase_wake: "phase k r j queued go True \<Longrightarrow> phase k r j queued go False"
  unfolding phase_def by (elim disjE; simp)

definition hand_over :: "nat \<Rightarrow> bool \<Rightarrow> (nat \<times> nat) option \<Rightarrow> hs \<Rightarrow> bool" where
  "hand_over k r h s \<longleftrightarrow>
     phase k r (stage h) (runnable_entry s) (awaken (sched s)) (asleep s App \<noteq> None) \<and>
     owner s SuspendLock =
       (if stage h \<in> {2, 3, 4} then map_option (\<lambda>(m, _). Mgr m) h else if r then None else Some App)"

definition resume_inv :: "hs \<Rightarrow> bool" where
  "resume_inv s \<longleftrightarrow> \<not> undefined_unlock s \<and>
     (\<exists>k r h. app_at k r s \<and> mgrs_at h s \<and> hand_over k r h s)"

lemma less12: "k \<le> 11 \<longleftrightarrow> k \<in> {0,1,2,3,4,5,6,7,8,9,10,11::nat}" by (simp only: insert_iff empty_iff) presburger
lemma less6: "k \<le> 5 \<longleftrightarrow> k \<in> {0,1,2,3,4,5::nat}" by (simp only: insert_iff empty_iff) presburger

lemma suspend_drops:
  "drop 0 suspend_handshake = [CountNativeEntry, Lock SharedAccessKey, SetAwaken False, PushIntoRunnables, Unlock SharedAccessKey,
   SetAwaken False, WaitWhile NotAwaken CondSuspendLock SuspendLock, CountNativeEntry, Lock SharedAccessKey, SetAwaken False, Unlock SharedAccessKey]"
  by (simp add: vex_defs)


lemma mgrs_at_cong:
  "mgrs_at h s \<Longrightarrow> (\<And>m. program s' (Mgr m) = program s (Mgr m)) \<Longrightarrow> (\<And>m. asleep s' (Mgr m) = asleep s (Mgr m))
   \<Longrightarrow> (\<And>m. (owner s' SharedAccessKey = Some (Mgr m)) = (owner s SharedAccessKey = Some (Mgr m))) \<Longrightarrow> mgrs_at h s'"
  by (simp add: mgrs_at_def)

definition ok_at :: "nat \<Rightarrow> bool \<Rightarrow> (nat \<times> nat) option \<Rightarrow> hs \<Rightarrow> bool" where
  "ok_at k r h s \<longleftrightarrow> app_at k r s \<and> mgrs_at h s \<and> hand_over k r h s \<and> \<not> undefined_unlock s"


lemma suspend_at:
  "suspend_handshake ! 0 = CountNativeEntry" "suspend_handshake ! Suc 0 = Lock SharedAccessKey"
  "suspend_handshake ! 2 = SetAwaken False" "suspend_handshake ! 3 = PushIntoRunnables"
  "suspend_handshake ! 4 = Unlock SharedAccessKey" "suspend_handshake ! 5 = SetAwaken False"
  "suspend_handshake ! 6 = WaitWhile NotAwaken CondSuspendLock SuspendLock" 
  "suspend_handshake ! 7 = CountNativeEntry" "suspend_handshake ! 8 = Lock SharedAccessKey"
  "suspend_handshake ! 9 = SetAwaken False" "suspend_handshake ! 10 = Unlock SharedAccessKey"
  "length suspend_handshake = 11"
  by (simp_all add: vex_defs)

lemma app_next:
  assumes "app_at k False s" "program s App = i # is"
  shows "k < 11 \<and> i = suspend_handshake ! k \<and> is = drop (Suc k) suspend_handshake"
proof -
  have p: "drop k suspend_handshake = i # is" "k \<le> 11" using assms by (simp_all add: app_at_def)
  have "k \<noteq> 11" using p(1) suspend_at by (metis drop_all list.distinct(1) order_refl)
  then have k: "k < 11" using p(2) by simp
  then show ?thesis using p(1) Cons_nth_drop_Suc [of k suspend_handshake] suspend_at by simp
qed

lemma app_no_signal:
  assumes "ok_at k r h s" "program s App = SignalCond c # is"
  shows False
proof (cases r)
  case True
  then show False using assms by (simp add: ok_at_def app_at_def)
next
  case False
  then have "k < 11" "SignalCond c = suspend_handshake ! k"
    using app_next [of k s "SignalCond c" "is"] assms by (simp_all add: ok_at_def)
  moreover have "SignalCond c \<notin> set suspend_handshake" by (simp add: vex_defs)
  ultimately show False using suspend_at(12) nth_mem by metis
qed

lemma ok_atI:
  assumes "ok_at k False h s" "program s' = (program s)(App := drop (Suc k) suspend_handshake)" "asleep s' = asleep s"
    "\<And>m. (owner s' SharedAccessKey = Some (Mgr m)) = (owner s SharedAccessKey = Some (Mgr m))"
    "owner s' SharedAccessKey = Some App \<longleftrightarrow> Suc k \<in> {2, 3, 4, 9, 10}" "k < 11"
    "owner s' SuspendLock = owner s SuspendLock" 
    "phase k False (stage h) (runnable_entry s) (awaken (sched s)) False \<Longrightarrow>
     phase (Suc k) False (stage h) (runnable_entry s') (awaken (sched s')) False" 
    "\<not> undefined_unlock s'"
  shows "ok_at (Suc k) False h s'"
proof -
  have "mgrs_at h s'"
    by (rule mgrs_at_cong [of h s]) (use assms in \<open>simp_all add: ok_at_def\<close>)
  then show ?thesis using assms unfolding ok_at_def app_at_def hand_over_def by auto
qed

lemma app_exec:
  assumes inv: "ok_at k r h s"
   and i: "program s App = i # is" and aw: "asleep s App = None" and ex: "exec App i is s = Some s'"
  shows "\<exists>k r h. ok_at k r h s'"
proof (cases r)
  case True
  with inv i have k: "k = 6" "i = Reacquire SuspendLock" "is = drop 6 suspend_handshake" by (auto simp: app_at_def ok_at_def)
  then have o: "owner s SuspendLock = None" "s' = goto App is (s\<lparr>owner := (owner s)(SuspendLock \<mapsto> App)\<rparr>)"
    using ex by (auto simp: acquire_def split: if_splits)
  have "ok_at 6 False h s'"
    using inv o k True assms(3) unfolding ok_at_def
    by (auto simp: app_at_def hand_over_def phase_def goto_def elim: mgrs_at_cong)
  then show ?thesis by blast
next
  case False
  with inv have at: "app_at k False s" by (simp add: ok_at_def)
  from app_next [OF at i] have k: "k < 11" "i = suspend_handshake ! k" "is = drop (Suc k) suspend_handshake" by simp_all
  have inv': "ok_at k False h s" using inv False by simp
  have ph: "phase k False (stage h) (runnable_entry s) (awaken (sched s)) False" 
   and ub: "\<not> undefined_unlock s" and keyA: "owner s SharedAccessKey = Some App \<longleftrightarrow> k \<in> {2, 3, 4, 9, 10}"
   using inv' aw by (simp_all add: ok_at_def hand_over_def app_at_def)
  have "(k = 0 \<or> k = 7) \<or> (k = 1 \<or> k = 8) \<or> (k = 2 \<or> k = 5 \<or> k = 9) \<or> k = 3 \<or> (k = 4 \<or> k = 10) \<or> k = 6"
    using k(1) by presburger
  then consider "k = 0 \<or> k = 7" | "k = 1 \<or> k = 8" | "k = 2 \<or> k = 5 \<or> k = 9" | "k = 3" | "k = 4 \<or> k = 10" | "k = 6" by blast
  then show ?thesis
  proof cases
    case 1
    have s': "s' = goto App is (s\<lparr>sched := (sched s)\<lparr>waitingInNativeVTFcode := waitingInNativeVTFcode (sched s) + 1\<rparr>\<rparr>)"
     using 1 k ex by (auto simp: suspend_at)
    have "ok_at (Suc k) False h s'"
     by (rule ok_atI [OF inv']; insert 1 k keyA ub; (elim disjE)?; hypsubst?; simp add: s' goto_def phase_def)
    then show ?thesis by blast
  next
    case 2
    have s': "owner s SharedAccessKey = None" "s' = goto App is (s\<lparr>owner := (owner s)(SharedAccessKey \<mapsto> App)\<rparr>)"
     using 2 k ex by (auto simp: suspend_at acquire_def split: if_splits)
    have "ok_at (Suc k) False h s'"
     by (rule ok_atI [OF inv']; insert 2 k keyA ub s'; (elim disjE)?; hypsubst?; simp add: goto_def phase_def)
    then show ?thesis by blast
  next
    case 3
    have s': "s' = goto App is (s\<lparr>sched := Scheduling_setAwaken False (sched s)\<rparr>)"
     using 3 k ex by (auto simp: suspend_at)
    have "ok_at (Suc k) False h s'"
     by (rule ok_atI [OF inv']; insert 3 k keyA ub; (elim disjE)?; hypsubst?; simp add: s' goto_def phase_def Scheduling_setAwaken_def; blast)
    then show ?thesis by blast
  next
    case 4
    have s': "s' = goto App is (s\<lparr>runnable_entry := True\<rparr>)"
     using 4 k ex by (auto simp: suspend_at)
    have "ok_at (Suc k) False h s'"
     by (rule ok_atI [OF inv']; insert 4 k keyA ub; (elim disjE)?; hypsubst?; simp add: s' goto_def phase_def)
    then show ?thesis by blast
  next
    case 5
    have s': "s' = goto App is (unlock App SharedAccessKey s)"
     using 5 k ex by (auto simp: suspend_at)
    have "ok_at (Suc k) False h s'"
     by (rule ok_atI [OF inv']; insert 5 k keyA ub; (elim disjE)?; hypsubst?; simp add: s' goto_def unlock_def phase_def)
    then show ?thesis by blast
  next
    case 6
    show ?thesis
    proof (cases "awaken (sched s)")
      case True
      then have s': "s' = goto App is s" using 6 k ex by (simp add: suspend_at)
      have "ok_at (Suc k) False h s'"
        by (rule ok_atI [OF inv']; insert 6 k keyA ub True; (elim disjE)?; hypsubst?; simp add: s' goto_def phase_def)
      then show ?thesis by blast
    next
      case False
      have own: "owner s SuspendLock = Some App" "stage h \<notin> {2, 3, 4}"
        using ph 6 False inv' by (auto simp: phase_def ok_at_def hand_over_def)
      have s': "s' = goto App (Reacquire SuspendLock # drop 6 suspend_handshake)
          (s\<lparr>owner := (owner s)(SuspendLock := None), asleep := (asleep s)(App \<mapsto> CondSuspendLock)\<rparr>)"
        using 6 k ex False own i at by (auto simp: suspend_at unlock_def app_at_def)
      have "mgrs_at h s'"
        by (rule mgrs_at_cong [of h s]) (use inv' s' in \<open>simp_all add: ok_at_def goto_def\<close>)
      then have "ok_at 6 True h s'"
        using inv' 6 ph own False unfolding ok_at_def app_at_def hand_over_def s' by (auto simp: goto_def phase_def)
      then show ?thesis by blast
    qed
  qed
qed

lemma mgr_programs:
  "continue_handshake m = [CountNativeEntry, Lock SharedAccessKey, TakeIfNext (resume_handshake m), Unlock SharedAccessKey]"
  "resume_handshake m @ Scheduling_unlockShareResourceAccessKey =
     [LockIfNotAwaken SuspendLock, OnThreadResumeByManager m, SignalCond CondSuspendLock, Unlock SuspendLock,
      Unlock SharedAccessKey]"
  by (simp_all add: vex_defs)

text \<open>A step of a manager that does not own the access key.\<close>

lemma idle_exec:
  assumes inv: "ok_at k r h s" and free: "\<nexists>j. h = Some (m, j)"
    and i: "program s (Mgr m) = i # is" and ex: "exec (Mgr m) i is s = Some s'"
  shows "\<exists>h. ok_at k r h s'"
proof -
  have "idle m (i # is)" using inv free i unfolding ok_at_def mgrs_at_def by metis
  then consider (entry) "i = CountNativeEntry" "is = tl (continue_handshake m)"
    | (key) "i = Lock SharedAccessKey" "is = drop 2 (continue_handshake m)"
    by (auto simp: idle_def mgr_programs)
  then show ?thesis
  proof cases
    case entry
    then have s': "s' = goto (Mgr m) (tl (continue_handshake m))
        (s\<lparr>sched := (sched s)\<lparr>waitingInNativeVTFcode := waitingInNativeVTFcode (sched s) + 1\<rparr>\<rparr>)" using ex by simp
    have "mgrs_at h s'"
      using inv free unfolding ok_at_def mgrs_at_def s' by (simp add: goto_def idle_def)
    then have "ok_at k r h s'"
      using inv unfolding ok_at_def app_at_def hand_over_def s' by (simp add: goto_def)
    then show ?thesis by blast
  next
    case key
    then have k: "owner s SharedAccessKey = None"
      and s': "s' = goto (Mgr m) is (s\<lparr>owner := (owner s)(SharedAccessKey \<mapsto> Mgr m)\<rparr>)"
      using ex by (auto simp: acquire_def split: if_splits)
    then have h: "h = None" using inv by (cases h) (auto simp: ok_at_def mgrs_at_def)
    have "mgrs_at (Some (m, 0)) s'"
      using inv k key h unfolding ok_at_def mgrs_at_def s' by (auto simp: goto_def)
    then have "ok_at k r (Some (m, 0)) s'"
      using inv h k unfolding ok_at_def app_at_def hand_over_def s' by (simp add: goto_def)
    then show ?thesis by blast
  qed
qed

lemma holder_next:
  assumes "mgrs_at (Some (m, j)) s" "program s (Mgr m) = i # is"
  shows "j = 0 \<and> i = TakeIfNext (resume_handshake m) \<and> is = Scheduling_unlockShareResourceAccessKey \<or>
    j = 1 \<and> i = LockIfNotAwaken SuspendLock \<and> is = drop 1 (resume_handshake m @ Scheduling_unlockShareResourceAccessKey) \<or>
    j = 2 \<and> i = OnThreadResumeByManager m \<and> is = drop 2 (resume_handshake m @ Scheduling_unlockShareResourceAccessKey) \<or>
    j = 3 \<and> i = SignalCond CondSuspendLock \<and> is = drop 3 (resume_handshake m @ Scheduling_unlockShareResourceAccessKey) \<or>
    j = 4 \<and> i = Unlock SuspendLock \<and> is = drop 4 (resume_handshake m @ Scheduling_unlockShareResourceAccessKey) \<or>
    j = 5 \<and> i = Unlock SharedAccessKey \<and> is = []"
proof -
  have "j \<le> 5" and p: "i # is = (if j = 0 then drop 2 (continue_handshake m)
           else drop (j - 1) (resume_handshake m @ Scheduling_unlockShareResourceAccessKey))"
    using assms by (simp_all add: mgrs_at_def)
  then have "j = 0 \<or> j = 1 \<or> j = 2 \<or> j = 3 \<or> j = 4 \<or> j = 5" by presburger
  then show ?thesis using p by (elim disjE) (simp_all add: mgr_programs, simp_all add: vex_defs)
qed

lemma ok_at_holderI:
  assumes "ok_at k r (Some (m, j)) s" "program s' = (program s)(Mgr m := drop j (resume_handshake m @ Scheduling_unlockShareResourceAccessKey))"
    "\<And>m. asleep s' (Mgr m) = None" "asleep s' App = asleep s App \<or> asleep s' App = None" 
    "owner s' SharedAccessKey = owner s SharedAccessKey" "j < 5" "\<not> undefined_unlock s'"
    "phase k r j (runnable_entry s) (awaken (sched s)) (asleep s App \<noteq> None) \<Longrightarrow>
     phase k r (Suc j) (runnable_entry s') (awaken (sched s')) (asleep s' App \<noteq> None)" 
    "owner s' SuspendLock = (if Suc j \<in> {2, 3, 4} then Some (Mgr m) else if r then None else Some App)"
  shows "ok_at k r (Some (m, Suc j)) s'"
proof -
  have "mgrs_at (Some (m, Suc j)) s'"
    using assms unfolding ok_at_def mgrs_at_def by auto
  then show ?thesis using assms unfolding ok_at_def app_at_def hand_over_def by auto
qed

lemma holder_exec:
  assumes inv: "ok_at k r (Some (m, j)) s" and i: "program s (Mgr m) = i # is"
    and ex: "exec (Mgr m) i is s = Some s'"
  shows "\<exists>h. ok_at k r h s'"
proof -
  have at: "mgrs_at (Some (m, j)) s" and sleep: "\<And>m. asleep s (Mgr m) = None" and ub: "\<not> undefined_unlock s"
    and own: "owner s SuspendLock = (if j \<in> {2, 3, 4} then Some (Mgr m) else if r then None else Some App)"
    and key: "owner s SharedAccessKey = Some (Mgr m)" "k \<notin> {2, 3, 4, 9, 10}"
    and ph: "phase k r j (runnable_entry s) (awaken (sched s)) (asleep s App \<noteq> None)"
    using inv by (auto simp: ok_at_def mgrs_at_def hand_over_def app_at_def)
  note R = ok_at_holderI [OF inv] and facts = sleep ub own
  from holder_next [OF at i] show ?thesis
  proof (elim disjE conjE)
    assume j: "j = 0" and i: "i = TakeIfNext (resume_handshake m)" "is = Scheduling_unlockShareResourceAccessKey"
    show ?thesis
    proof (cases "runnable_entry s")
      case True
      then have s': "s' = goto (Mgr m) (resume_handshake m @ is) (s\<lparr>runnable_entry := False\<rparr>)" using ex i by simp
      have "ok_at k r (Some (m, Suc j)) s'"
        by (rule R; insert facts key i j True; simp add: s' goto_def; auto simp: phase_def)
      then show ?thesis by blast
    next
      case False
      then have s': "s' = goto (Mgr m) is s" using ex i by simp
      have "mgrs_at (Some (m, 5)) s'"
        using at i by (auto simp: mgrs_at_def s' goto_def mgr_programs) (simp add: vex_defs)
      then have "ok_at k r (Some (m, 5)) s'"
        using inv False j unfolding ok_at_def app_at_def hand_over_def s' by (auto simp: goto_def phase_def)
      then show ?thesis by blast
    qed
  next
    assume j: "j = 1" and i: "i = LockIfNotAwaken SuspendLock" "is = drop 1 (resume_handshake m @ Scheduling_unlockShareResourceAccessKey)"
    have go: "\<not> awaken (sched s)" using ph j by (simp add: phase_def)
    then have free: "owner s SuspendLock = None" and s': "s' = goto (Mgr m) is (s\<lparr>owner := (owner s)(SuspendLock \<mapsto> Mgr m)\<rparr>)"
      using ex i by (auto simp: acquire_def split: if_splits)
    have r using free own j by (simp split: if_splits)
    have "ok_at k r (Some (m, Suc j)) s'"
      by (rule R; insert facts i j \<open>r\<close> go; simp add: s' goto_def phase_def)
    then show ?thesis by blast
  next
    assume j: "j = 2" and i: "i = OnThreadResumeByManager m" "is = drop 2 (resume_handshake m @ Scheduling_unlockShareResourceAccessKey)"
    have s': "s' = goto (Mgr m) is (s\<lparr>sched := Scheduling_onThreadResumeByManager m (sched s)\<rparr>)" using ex i by simp
    have "ok_at k r (Some (m, Suc j)) s'"
      by (rule R; insert facts i j; simp add: s' goto_def phase_def Scheduling_onThreadResumeByManager_def)
    then show ?thesis by blast
  next
    assume j: "j = 4" and i: "i = Unlock SuspendLock" "is = drop 4 (resume_handshake m @ Scheduling_unlockShareResourceAccessKey)"
    have r: "r \<and> k = 6" using ph j inv by (auto simp: phase_def ok_at_def app_at_def)
    have s': "s' = goto (Mgr m) is (s\<lparr>owner := (owner s)(SuspendLock := None)\<rparr>)" using ex i own j by (simp add: unlock_def)
    have "ok_at k r (Some (m, Suc j)) s'"
      by (rule R; insert facts i j r; simp add: s' goto_def phase_def)
    then show ?thesis by blast
  next
    assume j: "j = 5" and i: "i = Unlock SharedAccessKey" "is = []"
    have s': "s' = goto (Mgr m) is (s\<lparr>owner := (owner s)(SharedAccessKey := None)\<rparr>)" using ex i key by (simp add: unlock_def)
    have "mgrs_at None s'" using at by (auto simp: mgrs_at_def s' goto_def idle_def i)
    moreover have "phase k r 0 (runnable_entry s) (awaken (sched s)) (asleep s App \<noteq> None)"
      using ph j by (simp add: phase_def)
    ultimately have "ok_at k r None s'"
      using inv j key unfolding ok_at_def app_at_def hand_over_def s' by (simp add: goto_def)
    then show ?thesis by blast
  qed (use ex in simp)
qed

lemma mgr_exec:
  assumes "ok_at k r h s" "program s (Mgr m) = i # is" "exec (Mgr m) i is s = Some s'"
  shows "\<exists>h. ok_at k r h s'"
  using assms idle_exec holder_exec by (cases "\<exists>j. h = Some (m, j)") metis+

lemma holder_signal:
  assumes inv: "ok_at k r h s" and i: "program s (Mgr m) = SignalCond c # is"
    and b: "asleep s b = Some c \<and> s' = goto (Mgr m) is (s\<lparr>asleep := (asleep s)(b := None)\<rparr>) \<or>
            (\<forall>b. asleep s b \<noteq> Some c) \<and> s' = goto (Mgr m) is s"
  shows "\<exists>h. ok_at k r h s'"
proof -
  have "\<exists>j. h = Some (m, j)"
  proof (rule ccontr)
    assume "\<not> ?thesis"
    then have "idle m (SignalCond c # is)" using inv i unfolding ok_at_def mgrs_at_def by metis
    then show False by (auto simp: idle_def mgr_programs)
  qed
  then obtain j where h: "h = Some (m, j)" by blast
  have at: "mgrs_at (Some (m, j)) s" and sleep: "\<And>m. asleep s (Mgr m) = None" and ub: "\<not> undefined_unlock s"
    and own: "owner s SuspendLock = (if j \<in> {2, 3, 4} then Some (Mgr m) else if r then None else Some App)"
    and ap: "asleep s App = None \<or> asleep s App = Some CondSuspendLock"
    using inv h by (auto simp: ok_at_def mgrs_at_def hand_over_def app_at_def)
  from holder_next [OF at i] have j: "j = 3" "c = CondSuspendLock"
    "is = drop 3 (resume_handshake m @ Scheduling_unlockShareResourceAccessKey)" by simp_all
  have "s' = goto (Mgr m) is (s\<lparr>asleep := (asleep s)(App := None)\<rparr>)"
    using b
  proof
    assume "asleep s b = Some c \<and> s' = goto (Mgr m) is (s\<lparr>asleep := (asleep s)(b := None)\<rparr>)"
    then show ?thesis using sleep by (cases b) simp_all
  next
    assume "(\<forall>b. asleep s b \<noteq> Some c) \<and> s' = goto (Mgr m) is s"
    then have "asleep s App = None" "s' = goto (Mgr m) is s" using ap j(2) by auto
    then show ?thesis by (simp add: fun_upd_idem)
  qed
  note s' = this
  have "ok_at k r (Some (m, Suc j)) s'"
    by (rule ok_at_holderI [OF inv [unfolded h]]; insert sleep ub own j; simp add: s' goto_def phase_def)
  then show ?thesis by blast
qed

section \<open>Every reachable state\<close>

lemma resume_step_ok:
  assumes "resume_step s s'" "ok_at k r h s"
  shows "\<exists>k r h. ok_at k r h s'"
  using assms
proof (cases rule: resume_step.cases)
  case (run a)
  have other: "asleep s (Mgr m) = None" for m using assms(2) by (simp add: ok_at_def mgrs_at_def)
  from run show ?thesis
  proof (cases rule: hs_step.cases)
    case (act i "is")
    show ?thesis
    proof (cases a)
      case App
      then show ?thesis using act app_exec [OF assms(2)] by simp
    next
      case (Mgr m)
      then show ?thesis using act mgr_exec [OF assms(2)] by blast
    qed
  next
    case (signal_one c "is" b)
    show ?thesis
    proof (cases a)
      case App
      then show ?thesis using signal_one app_no_signal [OF assms(2)] by blast
    next
      case (Mgr m)
      then show ?thesis using signal_one holder_signal [OF assms(2)] by blast
    qed
  next
    case (signal_none c "is")
    show ?thesis
    proof (cases a)
      case App
      then show ?thesis using signal_none app_no_signal [OF assms(2)] by blast
    next
      case (Mgr m)
      then show ?thesis using signal_none holder_signal [OF assms(2)] by blast
    qed
  next
    case (spurious c)
    then have a: "a = App" using other by (cases a) simp_all
    have "mgrs_at h s'" by (rule mgrs_at_cong [of h s]) (use assms(2) spurious a in \<open>simp_all add: ok_at_def\<close>)
    moreover have "phase k r (stage h) (runnable_entry s) (awaken (sched s)) False"
      by (rule phase_wake) (use assms(2) spurious a in \<open>simp add: ok_at_def hand_over_def\<close>)
    ultimately have "ok_at k r h s'"
      using assms(2) spurious a unfolding ok_at_def app_at_def hand_over_def by simp
    then show ?thesis by blast
  qed
next
  case suspend
  have r: "\<not> r" "k = 11" using assms(2) suspend(2) by (auto simp: ok_at_def app_at_def suspend_at split: if_splits)
  have "mgrs_at h s'" by (rule mgrs_at_cong [of h s]) (use assms(2) suspend in \<open>simp_all add: ok_at_def goto_def\<close>)
  then have "ok_at 0 False h s'"
    using assms(2) suspend(1) r unfolding ok_at_def app_at_def hand_over_def by (simp add: goto_def phase_def)
  then show ?thesis by blast
next
  case (continue m)
  have free: "\<nexists>j. h = Some (m, j)"
  proof
    assume "\<exists>j. h = Some (m, j)"
    then obtain j where "mgrs_at (Some (m, j)) s" using assms(2) by (auto simp: ok_at_def)
    then have "j \<le> 5" "(if j = 0 then drop 2 (continue_handshake m) else drop (j - 1) (resume_handshake m @ Scheduling_unlockShareResourceAccessKey)) = []"
      using continue(2) by (simp_all add: mgrs_at_def)
    then show False by (auto simp: mgr_programs split: if_splits)
  qed
  have "mgrs_at h s'" using assms(2) free unfolding ok_at_def mgrs_at_def continue(1) by (simp add: goto_def idle_def)
  then have "ok_at k r h s'"
    using assms(2) continue(1) unfolding ok_at_def app_at_def hand_over_def by (simp add: goto_def)
  then show ?thesis by blast
qed

lemma initial_ok: "\<not> awaken sc \<Longrightarrow> ok_at 11 False None (initial sc)"
  by (simp add: ok_at_def app_at_def mgrs_at_def hand_over_def phase_def initial_def idle_def suspend_at)

lemma reachable_ok:
  assumes "resume_step\<^sup>*\<^sup>* (initial sc) s" "\<not> awaken sc"
  shows "\<exists>k r h. ok_at k r h s"
  using assms(1)
proof (induction rule: rtranclp_induct)
  case base
  show ?case using initial_ok [OF assms(2)] by blast
next
  case (step y z)
  then show ?case using resume_step_ok by blast
qed

lemma signal_ahead:
  assumes "ok_at k r h s"
  shows "SignalCond CondSuspendLock \<in> set (program s (Mgr m)) \<longleftrightarrow> (\<exists>j \<in> {1, 2, 3}. h = Some (m, j))"
proof (cases "\<exists>j. h = Some (m, j)")
  case True
  then obtain j where h: "h = Some (m, j)" by blast
  then have p: "j \<le> 5" "program s (Mgr m) = (if j = 0 then drop 2 (continue_handshake m)
           else drop (j - 1) (resume_handshake m @ Scheduling_unlockShareResourceAccessKey))"
    using assms by (simp_all add: ok_at_def mgrs_at_def)
  then have "j = 0 \<or> j = 1 \<or> j = 2 \<or> j = 3 \<or> j = 4 \<or> j = 5" by presburger
  then show ?thesis using h p by (elim disjE) (simp_all add: mgr_programs)
next
  case False
  then have "idle m (program s (Mgr m))" using assms unfolding ok_at_def mgrs_at_def by metis
  then show ?thesis using False by (auto simp: idle_def mgr_programs)
qed

lemma exec_step: "program s a = i # is \<Longrightarrow> asleep s a = None \<Longrightarrow> exec a i is s \<noteq> None \<Longrightarrow>
    \<exists>a s'. asleep s a = None \<and> hs_step a s s'"
  using hs_step.act by blast

lemma holder_progress:
  assumes inv: "ok_at k r (Some (m, j)) s"
  shows "(\<exists>a s'. asleep s a = None \<and> hs_step a s s') \<or> j = 1 \<and> \<not> r"
proof -
  have at: "mgrs_at (Some (m, j)) s" and own: "j = 1 \<Longrightarrow> r \<Longrightarrow> owner s SuspendLock = None"
    and sleep: "asleep s (Mgr m) = None"
    using inv by (auto simp: ok_at_def hand_over_def mgrs_at_def)
  have "j \<le> 5" "program s (Mgr m) = (if j = 0 then drop 2 (continue_handshake m)
           else drop (j - 1) (resume_handshake m @ Scheduling_unlockShareResourceAccessKey))"
    using at by (simp_all add: mgrs_at_def)
  then have "program s (Mgr m) \<noteq> []" by (auto simp: mgr_programs drop_Cons')
  then obtain i "is" where i: "program s (Mgr m) = i # is" by (cases "program s (Mgr m)") auto
  note step = exec_step [OF i sleep]
  from holder_next [OF at i] show ?thesis
  proof (elim disjE conjE)
    assume "j = 3" "i = SignalCond CondSuspendLock"
    then show ?thesis using i sleep hs_step.signal_one hs_step.signal_none by metis
  next
    assume "j = 1" "i = LockIfNotAwaken SuspendLock"
    then show ?thesis using step own by (cases r) (simp_all add: acquire_def)
  qed (rule disjI1, rule step, simp)+
qed

lemma app_progress:
  assumes inv: "ok_at k r h s" and "program s App \<noteq> []" "asleep s App = None"
    and "k \<in> {1, 8} \<Longrightarrow> owner s SharedAccessKey = None" "r \<Longrightarrow> owner s SuspendLock = None"
  shows "\<exists>a s'. asleep s a = None \<and> hs_step a s s'"
proof (cases r)
  case True
  then have "program s App = Reacquire SuspendLock # drop 6 suspend_handshake" using inv by (auto simp: ok_at_def app_at_def)
  from exec_step [OF this assms(3)] show ?thesis using assms(5) True by (simp add: acquire_def)
next
  case False
  obtain i "is" where i: "program s App = i # is" using assms(2) by (cases "program s App") auto
  with False inv app_next have k: "k < 11" "i = suspend_handshake ! k" by (auto simp: ok_at_def)
  then have "k = 0 \<or> k = 1 \<or> k = 2 \<or> k = 3 \<or> k = 4 \<or> k = 5 \<or> k = 6 \<or> k = 7 \<or> k = 8 \<or> k = 9 \<or> k = 10" by presburger
  then have "exec App i is s \<noteq> None" using k(2) assms(4) by (elim disjE) (simp_all add: suspend_at acquire_def)
  then show ?thesis using exec_step [OF i assms(3)] by blast
qed

lemma resume_progress:
  assumes inv: "ok_at k r h s" and busy: "program s App \<noteq> []"
  shows "(\<exists>a s'. asleep s a = None \<and> hs_step a s s') \<or> runnable_entry s \<and> (\<forall>m. program s (Mgr m) = [])"
proof (cases h)
  case (Some mj)
  then obtain m j where h: "h = Some (m, j)" by (cases mj) simp
  have "\<exists>a s'. asleep s a = None \<and> hs_step a s s'" if "j = 1" "\<not> r"
  proof -
    have "k \<in> {5, 6}" "asleep s App = None"
      using inv h that by (auto simp: ok_at_def app_at_def hand_over_def phase_def)
    then show ?thesis using app_progress [OF inv busy] that by auto
  qed
  then show ?thesis using holder_progress [OF inv [unfolded h]] by blast
next
  case None
  show ?thesis
  proof (cases "asleep s App")
    case awake: None
    have "r \<Longrightarrow> owner s SuspendLock = None" "k \<in> {1, 8} \<Longrightarrow> owner s SharedAccessKey = None"
    proof -
      show "r \<Longrightarrow> owner s SuspendLock = None" using inv None by (simp add: ok_at_def hand_over_def)
      assume "k \<in> {1, 8}"
      then have "owner s SharedAccessKey \<noteq> Some App" "\<And>m. owner s SharedAccessKey \<noteq> Some (Mgr m)"
        using inv None by (auto simp: ok_at_def app_at_def mgrs_at_def)
      then show "owner s SharedAccessKey = None" by (metis agent.exhaust not_None_eq)
    qed
    then show ?thesis using app_progress [OF inv busy awake] by blast
  next
    case (Some c)
    have queued: "runnable_entry s" and r: "k \<notin> {2, 3, 4, 9, 10}"
      using inv None Some by (auto simp: ok_at_def app_at_def hand_over_def phase_def)
    have free: "owner s SharedAccessKey = None"
    proof -
      have "owner s SharedAccessKey \<noteq> Some App" "\<And>m. owner s SharedAccessKey \<noteq> Some (Mgr m)"
        using inv None r by (auto simp: ok_at_def app_at_def mgrs_at_def)
      then show ?thesis by (metis agent.exhaust not_None_eq)
    qed
    show ?thesis
    proof (cases "\<forall>m. program s (Mgr m) = []")
      case False
      then obtain m where m: "program s (Mgr m) \<noteq> []" by blast
      have sleep: "asleep s (Mgr m) = None" using inv by (simp add: ok_at_def mgrs_at_def)
      have "idle m (program s (Mgr m))" using inv None by (simp add: ok_at_def mgrs_at_def)
      then obtain i "is" where "program s (Mgr m) = i # is" "i = CountNativeEntry \<or> i = Lock SharedAccessKey"
        using m by (auto simp: idle_def mgr_programs)
      then show ?thesis using exec_step [of s "Mgr m" i "is"] sleep free by (auto simp: acquire_def)
    qed (use queued in simp)
  qed
qed

text \<open>
  C17. The suspend and resume hand-shake loses no thread. However the instructions of a thread that
  suspends itself repeatedly and of any number of schedulers that find it in the runnable queue
  interleave, spurious wake-ups included: no mutex is unlocked by an agent that does not own it; a
  thread asleep on the condition variable is still in the queue or some scheduler that took it has
  its signal ahead; at most one scheduler resumes the thread; while the thread runs application code
  it is not in the queue, owns its suspend lock and nobody resumes it; and unless it waits in the queue
  for an idle scheduler, a suspending thread or a scheduler can always take a step, so there is no
  deadlock.
\<close>

theorem resume_handshake_loses_no_thread:
  assumes "resume_step\<^sup>*\<^sup>* (initial sc) s" "\<not> awaken sc"
  shows "\<not> undefined_unlock s \<and>
    (asleep s App \<noteq> None \<longrightarrow> runnable_entry s \<or> (\<exists>m. SignalCond CondSuspendLock \<in> set (program s (Mgr m)))) \<and>
    (\<forall>m n. SignalCond CondSuspendLock \<in> set (program s (Mgr m)) \<longrightarrow>
       SignalCond CondSuspendLock \<in> set (program s (Mgr n)) \<longrightarrow> m = n \<and> \<not> runnable_entry s) \<and>
    (program s App = [] \<longrightarrow> \<not> runnable_entry s \<and> owner s SuspendLock = Some App \<and>
       (\<forall>m. SignalCond CondSuspendLock \<notin> set (program s (Mgr m)))) \<and>
    (program s App \<noteq> [] \<longrightarrow> (\<exists>a s'. asleep s a = None \<and> hs_step a s s') \<or>
       runnable_entry s \<and> (\<forall>m. program s (Mgr m) = []))"
proof -
  obtain k r h where inv: "ok_at k r h s" using reachable_ok [OF assms] by blast
  note ahead = signal_ahead [OF inv]
  have ub: "\<not> undefined_unlock s" and ph: "phase k r (stage h) (runnable_entry s) (awaken (sched s)) (asleep s App \<noteq> None)"
    and own: "owner s SuspendLock =
       (if stage h \<in> {2, 3, 4} then map_option (\<lambda>(m, _). Mgr m) h else if r then None else Some App)"
    using inv by (simp_all add: ok_at_def hand_over_def)
  have fin: "program s App = [] \<Longrightarrow> \<not> r \<and> k = 11"
    using inv by (auto simp: ok_at_def app_at_def suspend_at split: if_splits)
  have 1: "runnable_entry s \<or> (\<exists>m. SignalCond CondSuspendLock \<in> set (program s (Mgr m)))" if "asleep s App \<noteq> None"
  proof -
    have "r" "k = 6" using inv that by (auto simp: ok_at_def app_at_def)
    then have "runnable_entry s \<or> stage h \<in> {1, 2, 3}" using ph that by (auto simp: phase_def)
    then show ?thesis unfolding ahead by (cases h) auto
  qed
  have 2: "\<not> runnable_entry s" if "SignalCond CondSuspendLock \<in> set (program s (Mgr m))" for m
    using that ph unfolding ahead by (auto simp: phase_def)
  have 3: "\<not> runnable_entry s \<and> owner s SuspendLock = Some App \<and> stage h \<in> {0, 5}" if "program s App = []"
    using fin [OF that] ph own by (auto simp: phase_def)
  show ?thesis
    using ub 1 2 3 resume_progress [OF inv] unfolding ahead by (intro conjI impI allI) auto
qed

section \<open>Runs\<close>

text \<open>Runs without signals follow from the order in which the agents move.\<close>

fun run_agents :: "agent list \<Rightarrow> hs \<Rightarrow> hs option" where
  "run_agents [] s = Some s"
| "run_agents (a # as) s =
     (case program s a of
        [] \<Rightarrow> None
      | i # is \<Rightarrow> if asleep s a = None then Option.bind (exec a i is s) (run_agents as) else None)"

lemma run_agents_steps:
  "run_agents as s = Some s' \<Longrightarrow> (\<lambda>s s'. \<exists>a. hs_step a s s')\<^sup>*\<^sup>* s s'"
proof (induction as arbitrary: s)
  case (Cons a as)
  then obtain i "is" s1 where "program s a = i # is" "asleep s a = None" "exec a i is s = Some s1"
    "run_agents as s1 = Some s'" by (auto split: list.splits if_splits bind_splits)
  then show ?case using Cons.IH hs_step.act by (metis (mono_tags, lifting) converse_rtranclp_into_rtranclp)
qed simp

lemma run_agents_resume: "run_agents as s = Some s' \<Longrightarrow> resume_step\<^sup>*\<^sup>* s s'"
proof (drule run_agents_steps, erule rtranclp_mono [THEN predicate2D, rotated])
  show "(\<lambda>s s'. \<exists>a. hs_step a s s') \<le> resume_step" by (auto intro: resume_step.run)
qed

lemma no_step: "program s a = [] \<Longrightarrow> asleep s a = None \<Longrightarrow> \<not> hs_step a s s'"
  by (auto elim: hs_step.cases)

theorem resume_handshake_loses_no_thread_witness:
  "\<exists>s. run_agents (replicate 7 App @ replicate 3 (Mgr 0))
         (goto (Mgr 0) (continue_handshake 0) (goto App suspend_handshake (initial example_sched))) = Some s \<and>
       asleep s App = Some CondSuspendLock \<and> \<not> runnable_entry s \<and>
       (\<exists>m. SignalCond CondSuspendLock \<in> set (program s (Mgr m)))"
proof -
  let ?s1 = "goto App suspend_handshake (initial example_sched)"
  let ?s0 = "goto (Mgr 0) (continue_handshake 0) ?s1"
  obtain s where run: "run_agents (replicate 7 App @ replicate 3 (Mgr 0)) ?s0 = Some s"
    and s: "asleep s App = Some CondSuspendLock" "\<not> runnable_entry s"
    by (simp add: vex_defs goto_def initial_def acquire_def unlock_def example_sched_def numeral_eq_Suc)
  have "resume_step (initial example_sched) ?s1" by (rule resume_step.suspend) (simp add: initial_def)
  moreover have "resume_step ?s1 ?s0" by (rule resume_step.continue) (simp add: initial_def goto_def)
  ultimately have "resume_step\<^sup>*\<^sup>* (initial example_sched) s" using run_agents_resume [OF run] by (meson converse_rtranclp_into_rtranclp)
  from resume_handshake_loses_no_thread [OF this] show ?thesis using run s by (auto simp: example_sched_def)
qed

section \<open>The scheduler asks a thread for its intention\<close>

text \<open>The scheduler has signalled the thread and waits for the answer that the signal handler gives.\<close>

definition asking :: "suspend_flag \<Rightarrow> nat \<Rightarrow> scheduling \<Rightarrow> hs" where
  "asking f m sc = goto App (Scheduling_notifySchedulerForIntention f)
     (goto (Mgr m) Scheduling_getSuspendingThreadIntention (initial sc))"

text \<open>Positions \<open>k\<close> of the thread and \<open>j\<close> of the scheduler; \<open>r\<close>: it has to acquire the lock again.\<close>

definition ask_inv :: "suspend_flag \<Rightarrow> nat \<Rightarrow> nat \<Rightarrow> nat \<Rightarrow> bool \<Rightarrow> hs \<Rightarrow> bool" where
  "ask_inv f m k j r s \<longleftrightarrow> \<not> undefined_unlock s \<and>
     program s App = drop k (Scheduling_notifySchedulerForIntention f) \<and>
     program s (Mgr m) = (if r then [Reacquire SuspendFlagLock] else [])
       @ drop j Scheduling_getSuspendingThreadIntention \<and>
     (\<forall>n. n \<noteq> m \<longrightarrow> program s (Mgr n) = [] \<and> asleep s (Mgr n) = None) \<and> asleep s App = None \<and>
     (asleep s (Mgr m) = None \<or> r \<and> k \<le> 2 \<and> asleep s (Mgr m) = Some CondSuspendFlagLock) \<and>
     (r \<longrightarrow> j = 1) \<and> k \<le> 4 \<and> j \<le> 5 \<and> (j \<ge> 2 \<longrightarrow> k = 4) \<and>
     owner s SuspendFlagLock = (if k \<in> {1, 2, 3} then Some App else if j \<in> {1, 2, 3, 4} \<and> \<not> r then Some (Mgr m) else None) \<and>
     (k \<in> {1, 2, 3} \<longrightarrow> j \<notin> {1, 2, 3, 4} \<or> r) \<and>
     suspendFlag (sched s) = (if k \<ge> 2 \<and> j \<le> 3 then f else CLEAR_SUSPENDFLAG) \<and>
     intention s (Mgr m) = (if j \<ge> 3 then Some f else None)"

lemma ask_programs:
  "Scheduling_notifySchedulerForIntention f =
     [Lock SuspendFlagLock, SetSuspendFlag f, SignalCond CondSuspendFlagLock, Unlock SuspendFlagLock]"
  "Scheduling_getSuspendingThreadIntention =
     [Lock SuspendFlagLock, WaitWhile SuspendFlagClear CondSuspendFlagLock SuspendFlagLock,
      ReturnSuspendFlag, SetSuspendFlag CLEAR_SUSPENDFLAG, Unlock SuspendFlagLock]"
  by (simp_all add: vex_defs)

lemma ask_app:
  assumes inv: "ask_inv f m k j r s" and f: "f \<noteq> CLEAR_SUSPENDFLAG" and step: "hs_step App s s'"
  shows "\<exists>k j r. ask_inv f m k j r s'"
proof -
  have k: "k = 0 \<or> k = 1 \<or> k = 2 \<or> k = 3 \<or> k = 4" proof -
    have "k \<le> 4" using inv by (simp add: ask_inv_def)
    then show ?thesis by presburger
  qed
  have "ask_inv f m (Suc k) j r s'"
    using step k
  proof (cases rule: hs_step.cases)
    case (act i "is")
    then show ?thesis using k inv 
      by (elim disjE) (auto simp add: ask_inv_def ask_programs goto_def acquire_def unlock_def split: if_splits)
  next
    case (signal_one c "is" b)
    then show ?thesis using k inv
      by (elim disjE; cases b) (auto simp add: ask_inv_def ask_programs goto_def split: if_splits)
  next
    case (signal_none c "is")
    then show ?thesis using k inv
      by (elim disjE) (auto simp add: ask_inv_def ask_programs goto_def split: if_splits)
  next
    case (spurious c)
    then show ?thesis using inv by (simp add: ask_inv_def)
  qed
  then show ?thesis by blast
qed

lemma ask_mgr:
  assumes inv: "ask_inv f m k j r s" and f: "f \<noteq> CLEAR_SUSPENDFLAG" and step: "hs_step (Mgr m) s s'"
  shows "\<exists>k j r. ask_inv f m k j r s'"
proof -
  have j: "j = 0 \<or> j = 1 \<or> j = 2 \<or> j = 3 \<or> j = 4 \<or> j = 5"
  proof -
    have "j \<le> 5" using inv by (simp add: ask_inv_def)
    then show ?thesis by presburger
  qed
  from step show ?thesis
  proof (cases rule: hs_step.cases)
    case (act i "is")
    show ?thesis
    proof (cases r)
      case True
      then have "ask_inv f m k 1 False s'" using act inv
        by (auto simp add: ask_inv_def ask_programs goto_def acquire_def split: if_splits)
      then show ?thesis by blast
    next
      case False
      show ?thesis
      proof (cases "j = 1 \<and> suspendFlag (sched s) = CLEAR_SUSPENDFLAG")
        case True
        then have "ask_inv f m k 1 True s'" using act inv False f
          by (auto simp add: ask_inv_def ask_programs goto_def unlock_def split: if_splits)
        then show ?thesis by blast
      next
        case nowait: False
        then have "ask_inv f m k (Suc j) False s'" using act inv False j f
          by (elim disjE) (auto simp add: ask_inv_def ask_programs goto_def unlock_def acquire_def split: if_splits)
        then show ?thesis by blast
      qed
    qed
  next
    case (signal_one c "is" b)
    then show ?thesis using j inv by (elim disjE) (auto simp add: ask_inv_def ask_programs split: if_splits)
  next
    case (signal_none c "is")
    then show ?thesis using j inv by (elim disjE) (auto simp add: ask_inv_def ask_programs split: if_splits)
  next
    case (spurious c)
    then have "ask_inv f m k j r s'" using inv by (simp add: ask_inv_def)
    then show ?thesis by blast
  qed
qed

lemma ask_progress:
  assumes inv: "ask_inv f m k j r s" and f: "f \<noteq> CLEAR_SUSPENDFLAG"
    and busy: "program s App \<noteq> [] \<or> program s (Mgr m) \<noteq> []"
  shows "\<exists>a s'. asleep s a = None \<and> hs_step a s s'"
proof -
  have bounds: "k \<le> 4" "j \<le> 5" using inv by (simp_all add: ask_inv_def)
  have fin: "k = 4" if "program s App = []"
    using that inv bounds by (auto simp: ask_inv_def vex_defs)
  show ?thesis
  proof (cases "k < 4 \<and> (k = 0 \<longrightarrow> owner s SuspendFlagLock = None)")
    case True
    have sleep: "asleep s App = None" using inv by (simp add: ask_inv_def)
    have "program s App \<noteq> []" using fin True by auto
    then obtain i "is" where i: "program s App = i # is" by (cases "program s App") auto
    have "k = 0 \<or> k = 1 \<or> k = 2 \<or> k = 3" using conjunct1 [OF True] by presburger
    then have "i = SignalCond CondSuspendFlagLock \<or> exec App i is s \<noteq> None"
      using True i inv by (elim disjE) (simp_all add: ask_inv_def ask_programs acquire_def)
    then show ?thesis
    proof
      assume "i = SignalCond CondSuspendFlagLock"
      then show ?thesis using i sleep hs_step.signal_one hs_step.signal_none by metis
    qed (use exec_step [OF i sleep] in blast)
  next
    case False
    then have k: "k = 4 \<or> k = 0 \<and> j \<in> {1, 2, 3, 4} \<and> \<not> r"
      using inv bounds by (auto simp: ask_inv_def split: if_splits)
    have sleep: "asleep s (Mgr m) = None" using inv k by (auto simp: ask_inv_def)
    have "j < 5" using k busy inv bounds by (auto simp: ask_inv_def vex_defs)
    then have "j = 0 \<or> j = 1 \<or> j = 2 \<or> j = 3 \<or> j = 4" by presburger
    then have "\<exists>i is. program s (Mgr m) = i # is \<and> exec (Mgr m) i is s \<noteq> None"
      using inv k by (elim disjE) (auto simp add: ask_inv_def ask_programs acquire_def split: if_splits)
    then show ?thesis using exec_step sleep by blast
  qed
qed




end
