(* ===== verification/Vex_ThreadRegistry.thy ===== *)
theory Vex_ThreadRegistry
  imports Vex_ThreadQueue
begin

text \<open>
  The registry of simulated threads, \<open>registries/ThreadRegistry.cpp\<close>, with the variant that polls
  native waiting threads, and the registry of managers, \<open>registries/ThreadManagerRegistry.cpp\<close>.

  The table from thread identifiers to states is a map; the order in which the C++ library iterates
  over it is unspecified, so the loops take a list of its keys as argument. The registry mutex is
  locked and unlocked as in the code; locking it while it is held never returns. The pointer
  \<open>parentThreadWaitingYouToJoin\<close> points to the thread-local variable \<open>currentThreadState\<close> of the
  joining thread, which is identified by the number of that thread. Whether the operating system
  reports a thread as blocked is an argument.
\<close>

section \<open>State\<close>

datatype alive = AT_LEAST_ONE_ALIVE | MAYBE_ONE_ALIVE | NONE_ALIVE

record thread_registry =
  threadStateIndex :: "int \<rightharpoonup> thread_ptr"
  sortableVectorOfThreadStateIndices :: "thread_ptr list"
  parentThreadIdsToTheirERTs :: "int \<rightharpoonup> int"
  registry_mutex :: bool
  threadsBeingSpawned :: int
  mainThreadState :: "thread_ptr option"
  mainDefined :: bool
  forwardLeapsAllowed :: bool
  totalThreadsControlled :: nat
  processors :: int

record thread_cells =
  states :: thread_store
  currentThreadState :: "thread_ptr \<Rightarrow> thread_ptr option"
  parentThreadWaitingYouToJoin :: "thread_ptr \<Rightarrow> thread_ptr option"

definition upd_state :: "thread_ptr \<Rightarrow> (vex_thread \<Rightarrow> vex_thread) \<Rightarrow> thread_cells \<Rightarrow> thread_cells" where
  [vex_defs]: "upd_state p f c = c\<lparr>states := (states c)(p := f (states c p))\<rparr>"

definition ThreadRegistry_ThreadRegistry :: "int \<Rightarrow> thread_registry" where
  "ThreadRegistry_ThreadRegistry n =
     \<lparr>threadStateIndex = Map.empty, sortableVectorOfThreadStateIndices = [],
      parentThreadIdsToTheirERTs = Map.empty, registry_mutex = False, threadsBeingSpawned = 0,
      mainThreadState = None, mainDefined = False, forwardLeapsAllowed = True,
      totalThreadsControlled = 0, processors = n\<rparr>"

definition lockRegistry :: "'a thread_registry_scheme \<Rightarrow> 'a thread_registry_scheme res" where
  "lockRegistry r = (if registry_mutex r then Inl Deadlock else Inr (r\<lparr>registry_mutex := True\<rparr>))"

definition unlockRegistry :: "'a thread_registry_scheme \<Rightarrow> 'a thread_registry_scheme" where
  "unlockRegistry r = r\<lparr>registry_mutex := False\<rparr>"

section \<open>Threads entering and leaving\<close>

definition VexThreadState_notifyParentWaitingForYouToJoin :: "thread_ptr \<Rightarrow> thread_cells \<Rightarrow> thread_cells" where
  "VexThreadState_notifyParentWaitingForYouToJoin p c =
     (case parentThreadWaitingYouToJoin c p of
        None \<Rightarrow> c
      | Some cell \<Rightarrow>
          (case currentThreadState c cell of
             None \<Rightarrow> c
           | Some q \<Rightarrow> upd_state q (upd_sched (Scheduling_setAwakeningFromJoin True)) c))"

text \<open>\<open>named_main\<close>: the name of the thread is \<open>main\<close>.\<close>

definition ThreadRegistry_add ::
  "bool \<Rightarrow> thread_ptr \<Rightarrow> thread_cells \<times> 'a thread_registry_scheme
     \<Rightarrow> (thread_cells \<times> 'a thread_registry_scheme) res" where
  "ThreadRegistry_add named_main p s =
     (let (c0, r0) = s in
      bindE (lockRegistry r0) (\<lambda>r.
      let uid = jthreadId (states c0 p);
          (c1, r1) = (case parentThreadIdsToTheirERTs r uid of
             Some t \<Rightarrow> (upd_state p (upd_timers (Timers_setEstimatedRealTime t)) c0,
                        r\<lparr>parentThreadIdsToTheirERTs := (parentThreadIdsToTheirERTs r)(uid := None)\<rparr>)
           | None \<Rightarrow> (c0, r));
          r2 = r1\<lparr>threadStateIndex := (threadStateIndex r1)(uid \<mapsto> p),
                 sortableVectorOfThreadStateIndices := sortableVectorOfThreadStateIndices r1 @ [p]\<rparr>;
          r3 = (if named_main then r2\<lparr>mainThreadState := Some p, mainDefined := True\<rparr> else r2);
          r4 = r3\<lparr>totalThreadsControlled := totalThreadsControlled r3 + 1\<rparr>;
          r5 = (if threadsBeingSpawned r4 \<noteq> 0 then r4\<lparr>threadsBeingSpawned := threadsBeingSpawned r4 - 1\<rparr> else r4)
      in Inr (c1, unlockRegistry r5)))"

definition ThreadRegistry_remove ::
  "thread_ptr \<Rightarrow> thread_cells \<times> 'a thread_registry_scheme \<Rightarrow> (thread_cells \<times> 'a thread_registry_scheme) res" where
  "ThreadRegistry_remove p s =
     (let (c0, r0) = s in
      bindE (lockRegistry r0) (\<lambda>r.
      let c1 = VexThreadState_notifyParentWaitingForYouToJoin p c0;
          r1 = r\<lparr>threadStateIndex := (threadStateIndex r)(jthreadId (states c1 p) := None),
                 sortableVectorOfThreadStateIndices := removeAll p (sortableVectorOfThreadStateIndices r)\<rparr>;
          r2 = (if mainThreadState r1 = Some p then r1\<lparr>mainThreadState := None\<rparr> else r1)
      in Inr (c1, unlockRegistry r2)))"

definition ThreadRegistry_notifyParentWaitingToJoin ::
  "thread_ptr \<Rightarrow> thread_cells \<times> 'a thread_registry_scheme \<Rightarrow> (thread_cells \<times> 'a thread_registry_scheme) res" where
  "ThreadRegistry_notifyParentWaitingToJoin p s =
     (let (c, r0) = s in
      bindE (lockRegistry r0) (\<lambda>r. Inr (VexThreadState_notifyParentWaitingForYouToJoin p c, unlockRegistry r)))"

definition ThreadRegistry_noProcessThreadsLeft ::
  "'a thread_registry_scheme \<Rightarrow> ('a thread_registry_scheme \<times> bool) res" where
  "ThreadRegistry_noProcessThreadsLeft r0 =
     bindE (lockRegistry r0) (\<lambda>r.
     Inr (unlockRegistry r,
       threadsBeingSpawned r = 0 \<and> mainThreadState r = None \<and> threadStateIndex r = Map.empty))"

definition ThreadRegistry_newThreadBeingSpawned ::
  "'a thread_registry_scheme \<Rightarrow> 'a thread_registry_scheme res" where
  "ThreadRegistry_newThreadBeingSpawned r0 =
     bindE (lockRegistry r0) (\<lambda>r.
     Inr (unlockRegistry (r\<lparr>threadsBeingSpawned := threadsBeingSpawned r + 1\<rparr>)))"

definition ThreadRegistry_newThreadBeingSpawned_by ::
  "int \<Rightarrow> int \<Rightarrow> thread_cells \<Rightarrow> 'a thread_registry_scheme \<Rightarrow> 'a thread_registry_scheme res" where
  "ThreadRegistry_newThreadBeingSpawned_by parent child c r0 =
     bindE (lockRegistry r0) (\<lambda>r.
     bindE (case threadStateIndex r parent of
              Some p \<Rightarrow> Inr (r\<lparr>parentThreadIdsToTheirERTs :=
                               (parentThreadIdsToTheirERTs r)(child \<mapsto> ert (states c p))\<rparr>)
            | None \<Rightarrow> if parent = 0
                      then Inr (r\<lparr>parentThreadIdsToTheirERTs := (parentThreadIdsToTheirERTs r)(child \<mapsto> 0)\<rparr>)
                      else Inl AssertFailed) (\<lambda>r1.
     Inr (unlockRegistry (r1\<lparr>threadsBeingSpawned := threadsBeingSpawned r1 + 1\<rparr>))))"

definition ThreadRegistry_hasThreadParentRegisteredThisThread ::
  "int \<Rightarrow> 'a thread_registry_scheme \<Rightarrow> ('a thread_registry_scheme \<times> bool) res" where
  "ThreadRegistry_hasThreadParentRegisteredThisThread child r0 =
     bindE (lockRegistry r0) (\<lambda>r.
     case parentThreadIdsToTheirERTs r child of
       Some t \<Rightarrow> Inr (unlockRegistry r, True)
     | None \<Rightarrow> Inr (unlockRegistry r, False))"

definition ThreadRegistry_getThreadsBeingSpawned ::
  "'a thread_registry_scheme \<Rightarrow> ('a thread_registry_scheme \<times> int) res" where
  "ThreadRegistry_getThreadsBeingSpawned r0 =
     bindE (lockRegistry r0) (\<lambda>r. Inr (unlockRegistry r, threadsBeingSpawned r))"

definition ThreadRegistry_atLeastOneThreadBeingSpawned ::
  "'a thread_registry_scheme \<Rightarrow> ('a thread_registry_scheme \<times> bool) res" where
  "ThreadRegistry_atLeastOneThreadBeingSpawned r0 =
     bindE (lockRegistry r0) (\<lambda>r. Inr (unlockRegistry r, threadsBeingSpawned r \<noteq> 0))"

definition ThreadRegistry_newThreadStarted ::
  "'a thread_registry_scheme \<Rightarrow> 'a thread_registry_scheme res" where
  "ThreadRegistry_newThreadStarted r0 =
     bindE (lockRegistry r0) (\<lambda>r.
     Inr (unlockRegistry (if threadsBeingSpawned r \<noteq> 0
                          then r\<lparr>threadsBeingSpawned := threadsBeingSpawned r - 1\<rparr> else r)))"

definition ThreadRegistry_isMainStillAlive :: "'a thread_registry_scheme \<Rightarrow> bool" where
  "ThreadRegistry_isMainStillAlive r = (\<not> mainDefined r \<or> mainThreadState r \<noteq> None)"

definition ThreadRegistry_forbidForwardLeaps :: "'a thread_registry_scheme \<Rightarrow> 'a thread_registry_scheme" where
  [vex_defs]: "ThreadRegistry_forbidForwardLeaps r = r\<lparr>forwardLeapsAllowed := False\<rparr>"

definition ThreadRegistry_allowForwardLeaps :: "'a thread_registry_scheme \<Rightarrow> 'a thread_registry_scheme" where
  [vex_defs]: "ThreadRegistry_allowForwardLeaps r = r\<lparr>forwardLeapsAllowed := True\<rparr>"

definition isDead :: "vex_thread \<Rightarrow> bool" where
  "isDead s = (currentState s = VEX_ZOMBIE)"

text \<open>\<open>cell\<close> is the thread-local variable that \<open>state\<close> points to.\<close>

definition ThreadRegistry_coordinateJoiningThreads ::
  "thread_ptr \<Rightarrow> int \<Rightarrow> thread_cells \<times> 'a thread_registry_scheme
     \<Rightarrow> (thread_cells \<times> 'a thread_registry_scheme \<times> bool) res" where
  "ThreadRegistry_coordinateJoiningThreads cell joiningThreadId s =
     (let (c, r0) = s;
          wake = (case currentThreadState c cell of
                    None \<Rightarrow> Inl NullDeref
                  | Some q \<Rightarrow> Inr (upd_state q (upd_sched (Scheduling_setAwakeningFromJoin True)) c))
      in bindE (lockRegistry r0) (\<lambda>r.
         if threadsBeingSpawned r > 0 then Inr (c, unlockRegistry r, False)
         else bindE (case threadStateIndex r joiningThreadId of
                       Some p \<Rightarrow>
                         if \<not> isDead (states c p)
                         then Inr (c\<lparr>parentThreadWaitingYouToJoin := (parentThreadWaitingYouToJoin c)(p \<mapsto> cell)\<rparr>)
                         else wake
                     | None \<Rightarrow> wake) (\<lambda>c1.
              Inr (c1, unlockRegistry r, True))))"

section \<open>Loops over the registered threads\<close>

text \<open>The states in the order in which the iteration visits the keys \<open>ks\<close>.\<close>

definition iterated :: "int list \<Rightarrow> 'a thread_registry_scheme \<Rightarrow> thread_ptr list" where
  "iterated ks r = map (\<lambda>k. the (threadStateIndex r k)) ks"

definition iterates :: "int list \<Rightarrow> 'a thread_registry_scheme \<Rightarrow> bool" where
  "iterates ks r \<longleftrightarrow> distinct ks \<and> set ks = dom (threadStateIndex r)"

fun suspended_at_or_after :: "thread_store \<Rightarrow> int \<Rightarrow> thread_ptr list \<Rightarrow> bool" where
  "suspended_at_or_after st t [] = False"
| "suspended_at_or_after st t (p # it) =
     (if isSuspended (st p) \<and> ert (st p) \<ge> t then True else suspended_at_or_after st t it)"

definition ThreadRegistry_existsThreadThatIsSuspendedOnHigherErtThanTimeoutAndMightUnblockNativeWaitingThread ::
  "int list \<Rightarrow> thread_store \<Rightarrow> thread_ptr \<Rightarrow> 'a thread_registry_scheme \<Rightarrow> bool" where
  "ThreadRegistry_existsThreadThatIsSuspendedOnHigherErtThanTimeoutAndMightUnblockNativeWaitingThread ks st state r =
     suspended_at_or_after st (ert (st state)) (iterated ks r)"

fun all_blocked_before :: "(thread_ptr \<Rightarrow> bool) \<Rightarrow> thread_store \<Rightarrow> int \<Rightarrow> thread_ptr list \<Rightarrow> bool" where
  "all_blocked_before blocked st t [] = True"
| "all_blocked_before blocked st t (p # it) =
     (if ert (st p) < t \<and> (isNativeWaiting (st p) \<or> isInAnyIo (st p)) \<and> \<not> blocked p
      then False else all_blocked_before blocked st t it)"

definition ThreadRegistry_areAllNativeWaitingThreadsBlockedAccordingToSystemState ::
  "int list \<Rightarrow> (thread_ptr \<Rightarrow> bool) \<Rightarrow> thread_store \<Rightarrow> thread_ptr \<Rightarrow> 'a thread_registry_scheme
     \<Rightarrow> ('a thread_registry_scheme \<times> bool) res" where
  "ThreadRegistry_areAllNativeWaitingThreadsBlockedAccordingToSystemState ks blocked st state r0 =
     bindE (lockRegistry r0) (\<lambda>r.
     if forwardLeapsAllowed r
     then Inr (unlockRegistry r, all_blocked_before blocked st (ert (st state)) (iterated ks r))
     else Inr (unlockRegistry r, False))"

text \<open>\<open>getCurrentState\<close> is the number of the state code.\<close>

fun summed_ert :: "thread_store \<Rightarrow> thread_ptr list \<Rightarrow> int \<Rightarrow> int" where
  "summed_ert st [] totalErt = totalErt"
| "summed_ert st (p # it) totalErt =
     summed_ert st it (totalErt + (ert (st p) + localTimeSinceLastResume (thr_timers (st p))
       + int (code_number (currentState (st p))) + ioCpuTime (ioHandler (st p))))"

definition ThreadRegistry_getSummedErtOfAllThreads ::
  "int list \<Rightarrow> thread_store \<Rightarrow> 'a thread_registry_scheme \<Rightarrow> ('a thread_registry_scheme \<times> int) res" where
  "ThreadRegistry_getSummedErtOfAllThreads ks st r0 =
     bindE (lockRegistry r0) (\<lambda>r. Inr (unlockRegistry r, summed_ert st (iterated ks r) 0))"

text \<open>\<open>ex\<close>: some suspended thread may unblock native waiting ones.\<close>

fun scan_active :: "thread_store \<Rightarrow> bool \<Rightarrow> int \<Rightarrow> int option \<Rightarrow> thread_ptr list \<Rightarrow> alive" where
  "scan_active st ex t remainingTime [] = NONE_ALIVE"
| "scan_active st ex t remainingTime (p # it) =
     (if ert (st p) < t
      then if isDefinitelyActive (st p) then AT_LEAST_ONE_ALIVE
           else if isNativeWaiting (st p) then (if ex then MAYBE_ONE_ALIVE else AT_LEAST_ONE_ALIVE)
           else case remainingTime of
                  Some rem \<Rightarrow> if t - ert (st p) < rem * 2 then MAYBE_ONE_ALIVE else scan_active st ex t remainingTime it
                | None \<Rightarrow> scan_active st ex t remainingTime it
      else scan_active st ex t remainingTime it)"

definition ThreadRegistry_areAnyOtherThreadsActiveInFormerTime ::
  "int list \<Rightarrow> thread_store \<Rightarrow> thread_ptr \<Rightarrow> int option \<Rightarrow> 'a thread_registry_scheme
     \<Rightarrow> ('a thread_registry_scheme \<times> alive) res" where
  "ThreadRegistry_areAnyOtherThreadsActiveInFormerTime ks st state remainingTime r0 =
     bindE (lockRegistry r0) (\<lambda>r.
     if threadsBeingSpawned r > 0 then Inr (unlockRegistry r, AT_LEAST_ONE_ALIVE)
     else if \<not> forwardLeapsAllowed r then Inr (unlockRegistry r, AT_LEAST_ONE_ALIVE)
     else Inr (unlockRegistry r,
       scan_active st
         (ThreadRegistry_existsThreadThatIsSuspendedOnHigherErtThanTimeoutAndMightUnblockNativeWaitingThread ks st state r)
         (ert (st state)) remainingTime (iterated ks r)))"

fun any_forbidding :: "(thread_ptr \<Rightarrow> bool) \<Rightarrow> thread_store \<Rightarrow> int \<Rightarrow> thread_ptr list \<Rightarrow> bool" where
  "any_forbidding P st t [] = False"
| "any_forbidding P st t (p # it) = (if ert (st p) \<le> t \<and> P p then True else any_forbidding P st t it)"

definition ThreadRegistry_leapForbiddingRulesApply ::
  "int list \<Rightarrow> (thread_ptr \<Rightarrow> bool) \<Rightarrow> thread_store \<Rightarrow> thread_ptr \<Rightarrow> 'a thread_registry_scheme \<Rightarrow> bool" where
  "ThreadRegistry_leapForbiddingRulesApply ks blocked st state r =
     (if threadsBeingSpawned r > 0 then True
      else if any_forbidding (\<lambda>p. isDefinitelyActiveInIo (st p)
                \<or> isInTransitionFromOneStateToTheNextBeforeVexKnowsAboutIt2 (st p) \<or> isNativeWaiting (st p))
              st (ert (st state)) (iterated ks r) then True
      else any_forbidding (\<lambda>p. isBlocked (st p) \<and> \<not> blocked p) st (ert (st state)) (iterated ks r))"

fun invocation_points_reset :: "thread_ptr list \<Rightarrow> thread_store \<Rightarrow> thread_store" where
  "invocation_points_reset [] st = st"
| "invocation_points_reset (p # it) st =
     invocation_points_reset it (st(p := upd_stats (Statistics_setInvocationPoints 0) (st p)))"

definition ThreadRegistry_resetThreads ::
  "int list \<Rightarrow> 'a thread_registry_scheme \<Rightarrow> thread_store \<Rightarrow> thread_store" where
  "ThreadRegistry_resetThreads ks r st = invocation_points_reset (iterated ks r) st"

text \<open>Is the thread expected in the runnable queue?\<close>

definition expected_in_queue :: "bool \<Rightarrow> vex_thread \<Rightarrow> bool" where
  "expected_in_queue ioMethodInQueue s =
     (if ioMethodInQueue
      then \<not> ((currentState s = LEARNING_IO \<and> timeout (thr_timers s) = -1) \<or> currentState s = NATIVE_WAITING
              \<or> isRunning s \<or> awaken (scheduling_of s) \<or> (currentState s = WAITING \<and> timeout (thr_timers s) \<le> 0))
      else (currentState s = SUSPENDED \<and> \<not> awaken (scheduling_of s))
           \<or> (currentState s = WAITING \<and> timeout (thr_timers s) > 0))"

fun sanity_counts :: "thread_store \<Rightarrow> bool \<Rightarrow> thread_ptr list \<Rightarrow> int \<times> int \<Rightarrow> int \<times> int" where
  "sanity_counts st ioMethodInQueue [] n = n"
| "sanity_counts st ioMethodInQueue (p # it) (countThreadListSize, countRunningThreads) =
     sanity_counts st ioMethodInQueue it
       (if currentState (st p) \<noteq> REGISTERING \<and> currentState (st p) \<noteq> VEX_ZOMBIE
        then (if expected_in_queue ioMethodInQueue (st p) then countThreadListSize + 1 else countThreadListSize,
              if currentState (st p) = RUNNING then countRunningThreads + 1 else countRunningThreads)
        else (countThreadListSize, countRunningThreads))"

definition ThreadRegistry_sanityTest ::
  "int list \<Rightarrow> thread_store \<Rightarrow> int \<Rightarrow> bool \<Rightarrow> 'a thread_registry_scheme \<Rightarrow> ('a thread_registry_scheme \<times> bool) res" where
  "ThreadRegistry_sanityTest ks st runnableThreadSize ioMethodInQueue r0 =
     bindE (lockRegistry r0) (\<lambda>r.
     let (countThreadListSize, countRunningThreads) = sanity_counts st ioMethodInQueue (iterated ks r) (0, 0)
     in if threadStateIndex r = Map.empty then Inr (unlockRegistry r, True)
        else if abs (runnableThreadSize - countThreadListSize) > processors r + 1 then Inr (unlockRegistry r, False)
        else if countRunningThreads > processors r + 1 then Inr (unlockRegistry r, False)
        else Inr (unlockRegistry r, True))"

fun states_count :: "thread_store \<Rightarrow> thread_ptr list \<Rightarrow> int list \<Rightarrow> int list" where
  "states_count st [] counts = counts"
| "states_count st (p # it) counts =
     (let k = code_number (currentState (st p))
      in states_count st it (counts[k := counts ! k + 1]))"

definition ThreadRegistry_getStatesSnapshot ::
  "int list \<Rightarrow> thread_store \<Rightarrow> 'a thread_registry_scheme \<Rightarrow> int list" where
  "ThreadRegistry_getStatesSnapshot ks st r = states_count st (iterated ks r) (replicate POSSIBLE_THREADSTATES 0)"

fun running_count :: "thread_store \<Rightarrow> thread_ptr list \<Rightarrow> int \<Rightarrow> int" where
  "running_count st [] cnt = cnt"
| "running_count st (p # it) cnt = running_count st it (if isRunning (st p) then cnt + 1 else cnt)"

definition ThreadRegistry_getRunningThreadsCount ::
  "int list \<Rightarrow> thread_store \<Rightarrow> 'a thread_registry_scheme \<Rightarrow> int" where
  "ThreadRegistry_getRunningThreadsCount ks st r = running_count st (iterated ks r) 0"

text \<open>Counters of \<open>vex_and_system_states\<close>; \<open>sys\<close> is the state letter of the operating system.\<close>

record vex_and_system_states =
  waitingThreads :: int
  nwThreads :: int
  activeInIoThreads :: int
  blockedInIoThreads :: int
  suspended_count :: int
  running_threads :: int
  isAwakeningAfterJoin_count :: int
  isAwakenInVex_count :: int
  isRegistering_count :: int
  isWaitingRealCode_count :: int
  systemSleeping :: int
  systemRunning :: int
  systemD :: int
  systemZombies :: int
  systemStopped :: int

definition vex_and_system_states :: vex_and_system_states where
  "vex_and_system_states =
     \<lparr>waitingThreads = 0, nwThreads = 0, activeInIoThreads = 0, blockedInIoThreads = 0,
      suspended_count = 0, running_threads = 0, isAwakeningAfterJoin_count = 0, isAwakenInVex_count = 0,
      isRegistering_count = 0, isWaitingRealCode_count = 0, systemSleeping = 0, systemRunning = 0,
      systemD = 0, systemZombies = 0, systemStopped = 0\<rparr>"

definition count_vex_state :: "vex_thread \<Rightarrow> vex_and_system_states \<Rightarrow> vex_and_system_states" where
  "count_vex_state s v =
     (if isDefinitelyActiveInIo s then v\<lparr>activeInIoThreads := activeInIoThreads v + 1\<rparr>
      else if isSuspended s then v\<lparr>suspended_count := suspended_count v + 1\<rparr>
      else if isRunning s then v\<lparr>running_threads := running_threads v + 1\<rparr>
      else if isNativeWaiting s then v\<lparr>nwThreads := nwThreads v + 1\<rparr>
      else if isWaiting s then v\<lparr>waitingThreads := waitingThreads v + 1\<rparr>
      else if isBlocked s then v\<lparr>blockedInIoThreads := blockedInIoThreads v + 1\<rparr>
      else v)"

definition count_flags :: "vex_thread \<Rightarrow> vex_and_system_states \<Rightarrow> vex_and_system_states" where
  "count_flags s v =
     (let v1 = (if awakeningFromJoin (scheduling_of s)
                then v\<lparr>isAwakeningAfterJoin_count := isAwakeningAfterJoin_count v + 1\<rparr> else v);
          v2 = (if isRegistering s then v1\<lparr>isRegistering_count := isRegistering_count v1 + 1\<rparr> else v1);
          v3 = (if awaken (scheduling_of s) then v2\<lparr>isAwakenInVex_count := isAwakenInVex_count v2 + 1\<rparr> else v2)
      in if isWaitingRealCodeToCompleteAfterModelSimulation s
         then v3\<lparr>isWaitingRealCode_count := isWaitingRealCode_count v3 + 1\<rparr> else v3)"

definition count_system_state :: "char \<Rightarrow> vex_and_system_states \<Rightarrow> vex_and_system_states" where
  "count_system_state c v =
     (if c = CHR ''R'' then v\<lparr>systemRunning := systemRunning v + 1\<rparr>
      else if c = CHR ''S'' then v\<lparr>systemSleeping := systemSleeping v + 1\<rparr>
      else if c = CHR ''D'' then v\<lparr>systemD := systemD v + 1\<rparr>
      else if c = CHR ''T'' then v\<lparr>systemStopped := systemStopped v + 1\<rparr>
      else if c = CHR ''Z'' then v\<lparr>systemZombies := systemZombies v + 1\<rparr>
      else v)"

fun count_states ::
  "(thread_ptr \<Rightarrow> char) \<Rightarrow> thread_store \<Rightarrow> int \<Rightarrow> thread_ptr list \<Rightarrow> vex_and_system_states \<Rightarrow> vex_and_system_states" where
  "count_states sys st t [] v = v"
| "count_states sys st t (p # it) v =
     count_states sys st t it
       (if ert (st p) \<le> t then count_system_state (sys p) (count_flags (st p) (count_vex_state (st p) v)) else v)"

definition ThreadRegistry_getRegistryThreadsSystemAndVexStates ::
  "int list \<Rightarrow> (thread_ptr \<Rightarrow> char) \<Rightarrow> thread_store \<Rightarrow> thread_ptr \<Rightarrow> 'a thread_registry_scheme
     \<Rightarrow> vex_and_system_states \<Rightarrow> vex_and_system_states \<times> int" where
  "ThreadRegistry_getRegistryThreadsSystemAndVexStates ks sys st state r vass =
     (count_states sys st (ert (st state)) (iterated ks r) vass, threadsBeingSpawned r)"

section \<open>Polling of native waiting threads\<close>

record nw_registry = thread_registry +
  nativeWaitingThreadsPQueue :: "thread_ptr list"

text \<open>The second result is the thread that is sent a signal.\<close>

definition NwPollingThreadRegistry_pollNativeWaitingThreads ::
  "thread_store \<times> nw_registry \<Rightarrow> (thread_store \<times> nw_registry \<times> thread_ptr option) res" where
  "NwPollingThreadRegistry_pollNativeWaitingThreads s =
     (let (st, r0) = s in
      bindE (lockRegistry r0) (\<lambda>r.
      case pq_top (nativeWaitingThreadsPQueue r) of
        None \<Rightarrow> Inr (st, unlockRegistry r, None)
      | Some p \<Rightarrow>
          if \<not> currentlyPolledForWhetherItIsNativeWaiting (scheduling_of (st p))
          then Inr (st(p := upd_sched (\<lambda>sc. sc\<lparr>currentlyPolledForWhetherItIsNativeWaiting := True\<rparr>) (st p)),
                    unlockRegistry r, Some p)
          else Inr (st, unlockRegistry r, None)))"

definition NwPollingThreadRegistry_setNativeWaiting ::
  "thread_ptr \<Rightarrow> thread_store \<times> nw_registry \<Rightarrow> (thread_store \<times> nw_registry) res" where
  "NwPollingThreadRegistry_setNativeWaiting p s =
     (let (st, r0) = s in
      bindE (lockRegistry r0) (\<lambda>r.
      let st1 = st(p := upd_sched (\<lambda>sc. sc\<lparr>currentlyPolledForWhetherItIsNativeWaiting := False\<rparr>) (st p))
      in Inr (st1, unlockRegistry (r\<lparr>nativeWaitingThreadsPQueue :=
                      pq_push (thread_order st1) p (nativeWaitingThreadsPQueue r)\<rparr>))))"

definition NwPollingThreadRegistry_unsetNativeWaiting ::
  "thread_ptr \<Rightarrow> thread_store \<Rightarrow> nw_registry \<Rightarrow> nw_registry res" where
  "NwPollingThreadRegistry_unsetNativeWaiting p st r0 =
     bindE (lockRegistry r0) (\<lambda>r.
     Inr (unlockRegistry (r\<lparr>nativeWaitingThreadsPQueue :=
            AdaptiblePQueue_erase (thread_order st) p (nativeWaitingThreadsPQueue r)\<rparr>)))"

definition NwPollingThreadRegistry_remove ::
  "thread_ptr \<Rightarrow> thread_cells \<times> nw_registry \<Rightarrow> (thread_cells \<times> nw_registry) res" where
  "NwPollingThreadRegistry_remove p s =
     (let (c0, r0) = s in
      bindE (lockRegistry r0) (\<lambda>r.
      let c1 = VexThreadState_notifyParentWaitingForYouToJoin p c0;
          r1 = r\<lparr>threadStateIndex := (threadStateIndex r)(jthreadId (states c1 p) := None),
                 sortableVectorOfThreadStateIndices := removeAll p (sortableVectorOfThreadStateIndices r)\<rparr>;
          r2 = r1\<lparr>nativeWaitingThreadsPQueue :=
                 AdaptiblePQueue_eraseAll (thread_order (states c1)) p (nativeWaitingThreadsPQueue r1)\<rparr>;
          r3 = (if mainThreadState r2 = Some p then r2\<lparr>mainThreadState := None\<rparr> else r2)
      in Inr (c1, unlockRegistry r3)))"

section \<open>The registry of managers\<close>

text \<open>Managers are numbered; the array has \<open>maximumCpus\<close> entries, uninitialised ones are \<open>None\<close>.\<close>

record manager_registry =
  maximumCpus :: nat
  currentlyRegistered :: nat
  managerList :: "nat option list"
  nextCpuToStartThread :: nat

definition ThreadManagerRegistry_ThreadManagerRegistry :: "nat \<Rightarrow> manager_registry" where
  "ThreadManagerRegistry_ThreadManagerRegistry n =
     \<lparr>maximumCpus = n, currentlyRegistered = 0, managerList = replicate n None, nextCpuToStartThread = 0\<rparr>"

definition ThreadManagerRegistry_addThreadManager ::
  "nat option \<Rightarrow> manager_registry \<Rightarrow> manager_registry \<times> bool" where
  "ThreadManagerRegistry_addThreadManager manager g =
     (if manager \<noteq> None \<and> currentlyRegistered g < maximumCpus g
      then (g\<lparr>managerList := (managerList g)[currentlyRegistered g := manager],
              currentlyRegistered := currentlyRegistered g + 1\<rparr>, True)
      else (g, False))"

definition ThreadManagerRegistry_getDefaultManager :: "manager_registry \<Rightarrow> nat option" where
  "ThreadManagerRegistry_getDefaultManager g =
     (if currentlyRegistered g \<noteq> 0 then managerList g ! 0 else None)"

text \<open>The manager on which a new thread starts; calling a method of an uninitialised pointer fails.\<close>

definition ThreadManagerRegistry_onThreadSpawn :: "manager_registry \<Rightarrow> (manager_registry \<times> nat) res" where
  "ThreadManagerRegistry_onThreadSpawn g =
     (let temp = nextCpuToStartThread g;
          g1 = g\<lparr>nextCpuToStartThread := temp + 1\<rparr>;
          g2 = (if nextCpuToStartThread g1 = currentlyRegistered g1 then g1\<lparr>nextCpuToStartThread := 0\<rparr> else g1)
      in bindE (at_idx (managerList g) temp) (\<lambda>m.
         case m of None \<Rightarrow> Inl NullDeref | Some k \<Rightarrow> Inr (g2, k)))"

section \<open>Spawning\<close>

lemmas registry_lock_defs = lockRegistry_def unlockRegistry_def


section \<open>The leap check\<close>

lemma scan_active_none:
  "scan_active st ex t rem ps = NONE_ALIVE \<longleftrightarrow>
     (\<forall>p \<in> set ps. ert (st p) < t \<longrightarrow> \<not> isDefinitelyActive (st p) \<and> \<not> isNativeWaiting (st p) \<and>
        (\<forall>d. rem = Some d \<longrightarrow> 2 * d \<le> t - ert (st p)))"
  by (induction ps) (auto split: option.splits)

lemma iterated_mutex [simp]: "iterated ks (r\<lparr>registry_mutex := b\<rparr>) = iterated ks r"
  by (simp add: iterated_def)

lemma iterated_set: "iterates ks r \<Longrightarrow> set (iterated ks r) = ran (threadStateIndex r)"
  by (force simp: iterates_def iterated_def ran_def dom_def image_iff)

text \<open>
  C19. The leap check answers \<open>NONE_ALIVE\<close> exactly when no thread is being spawned, leaps are allowed,
  and no registered thread before the leaping one is definitely active, native waiting, or closer than
  twice the length of the leap, for every order in which the table is iterated; the registry mutex is
  free afterwards on every path.
\<close>

theorem leap_check_none_alive:
  assumes "\<not> registry_mutex r" "iterates ks r"
  shows "\<exists>a. ThreadRegistry_areAnyOtherThreadsActiveInFormerTime ks st state rem r = Inr (r, a) \<and>
    (a = NONE_ALIVE \<longleftrightarrow> threadsBeingSpawned r \<le> 0 \<and> forwardLeapsAllowed r \<and>
       (\<forall>uid p. threadStateIndex r uid = Some p \<longrightarrow> ert (st p) < ert (st state) \<longrightarrow>
          \<not> isDefinitelyActive (st p) \<and> \<not> isNativeWaiting (st p) \<and>
          (\<forall>d. rem = Some d \<longrightarrow> 2 * d \<le> ert (st state) - ert (st p))))"
proof -
  have "r\<lparr>registry_mutex := False\<rparr> = r" using assms(1) by simp
  then show ?thesis
    using assms(1) iterated_set [OF assms(2)]
    by (auto simp: ThreadRegistry_areAnyOtherThreadsActiveInFormerTime_def registry_lock_defs scan_active_none ran_def)
qed

text \<open>Three registered threads: a leaping one, one that waits since recently, and one that runs in the past.\<close>

definition leap_store :: thread_store where
  "leap_store p =
     (if p = 0 then example_thread\<lparr>thr_timers := (thr_timers example_thread)\<lparr>estimatedRealTime := 100\<rparr>\<rparr>
      else if p = 1 then example_thread\<lparr>currentState := WAITING, inVex := False,
             thr_timers := (thr_timers example_thread)\<lparr>estimatedRealTime := 95\<rparr>\<rparr>
      else example_thread\<lparr>currentState := RUNNING,
             thr_timers := (thr_timers example_thread)\<lparr>estimatedRealTime := 50\<rparr>\<rparr>)"

definition leap_registry :: thread_registry where
  "leap_registry = (ThreadRegistry_ThreadRegistry 1)\<lparr>threadStateIndex := [1 \<mapsto> 1, 2 \<mapsto> 2]\<rparr>"

text \<open>
  The answer of the leap check depends on the order in which the hash table is iterated: the loop
  returns at the first thread that is not too far in the past. With a running thread at time 50 and a
  waiting one at time 95, a leap of 10 to time 100 is answered \<open>AT_LEAST_ONE_ALIVE\<close> in one order, and
  \<open>MAYBE_ONE_ALIVE\<close>, which may still allow the leap, in the other.
\<close>

theorem leap_check_depends_on_iteration_order:
  "iterates [1, 2] leap_registry \<and> iterates [2, 1] leap_registry \<and>
   isDefinitelyActive (leap_store 2) \<and> ert (leap_store 2) < ert (leap_store 0) \<and>
   ThreadRegistry_areAnyOtherThreadsActiveInFormerTime [2, 1] leap_store 0 (Some 10) leap_registry =
     Inr (leap_registry, AT_LEAST_ONE_ALIVE) \<and>
   ThreadRegistry_areAnyOtherThreadsActiveInFormerTime [1, 2] leap_store 0 (Some 10) leap_registry =
     Inr (leap_registry, MAYBE_ONE_ALIVE)"
  by (auto simp: iterates_def iterated_def leap_registry_def leap_store_def ThreadRegistry_ThreadRegistry_def
      ThreadRegistry_areAnyOtherThreadsActiveInFormerTime_def registry_lock_defs isDefinitelyActive_def
      isRunning_def isNativeWaiting_def isDefinitelyActiveInIo_def isInAnyIo_def inIoLearningPhase_def
      inIoPredictionPhase_def isRegistering_def isSuspended_def isSomewhereInVex_def isWaiting_def
      example_thread_def example_sched_def)

definition leap_cells :: thread_cells where
  "leap_cells = \<lparr>states = (\<lambda>p. leap_store p\<lparr>jthreadId := int p\<rparr>), currentThreadState = Some,
     parentThreadWaitingYouToJoin = Map.empty\<rparr>"

section \<open>Joining\<close>

datatype registry_op =
    Spawned int int
  | Added bool thread_ptr
  | Removed thread_ptr
  | Join thread_ptr int

fun run_registry ::
  "registry_op list \<Rightarrow> thread_cells \<times> thread_registry \<Rightarrow> (thread_cells \<times> thread_registry) res" where
  "run_registry [] s = Inr s"
| "run_registry (Spawned parent child # ops) (c, r) =
     bindE (ThreadRegistry_newThreadBeingSpawned_by parent child c r) (\<lambda>r1. run_registry ops (c, r1))"
| "run_registry (Added named_main p # ops) s = bindE (ThreadRegistry_add named_main p s) (run_registry ops)"
| "run_registry (Removed p # ops) s = bindE (ThreadRegistry_remove p s) (run_registry ops)"
| "run_registry (Join cell uid # ops) s =
     bindE (ThreadRegistry_coordinateJoiningThreads cell uid s) (\<lambda>(c, r, _). run_registry ops (c, r))"

text \<open>Operations that do not make another thread wait for \<open>q\<close> or remove it.\<close>

fun leaves_joiner :: "thread_ptr \<Rightarrow> thread_ptr \<Rightarrow> registry_op \<Rightarrow> bool" where
  "leaves_joiner cell q (Join cell' uid) = (cell' = cell)"
| "leaves_joiner cell q _ = True"

lemma run_registry_keeps:
  assumes "run_registry ops (c, r) = Inr (c', r')" "\<not> registry_mutex r"
  shows "\<not> registry_mutex r' \<and> currentThreadState c' = currentThreadState c \<and>
    (awakeningFromJoin (scheduling_of (states c p)) \<longrightarrow> awakeningFromJoin (scheduling_of (states c' p))) \<and>
    (parentThreadWaitingYouToJoin c q = Some cell \<longrightarrow> list_all (leaves_joiner cell q) ops \<longrightarrow>
       parentThreadWaitingYouToJoin c' q = Some cell)"
  using assms
proof (induction ops arbitrary: c r)
  case (Cons op ops)
  show ?case
  proof (cases op)
    case (Spawned parent child)
    then obtain r1 where 1: "ThreadRegistry_newThreadBeingSpawned_by parent child c r = Inr r1" "run_registry ops (c, r1) = Inr (c', r')"
      using Cons.prems(1) by (auto simp: bindE_eq_Inr)
    have "\<not> registry_mutex r1" using 1(1) by (auto simp: ThreadRegistry_newThreadBeingSpawned_by_def bindE_eq_Inr registry_lock_defs)
    from Cons.IH [OF 1(2) this] Spawned show ?thesis by simp
  next
    case (Added b x)
    then obtain c1 r1 where 1: "ThreadRegistry_add b x (c, r) = Inr (c1, r1)" "run_registry ops (c1, r1) = Inr (c', r')"
      using Cons.prems(1) by (auto simp: bindE_eq_Inr)
    have m: "\<not> registry_mutex r1" and eq: "currentThreadState c1 = currentThreadState c" "parentThreadWaitingYouToJoin c1 = parentThreadWaitingYouToJoin c"
      "scheduling_of (states c1 p) = scheduling_of (states c p)"
      using 1(1) by (auto simp: ThreadRegistry_add_def bindE_eq_Inr registry_lock_defs upd_state_def upd_timers_def Let_def split: option.splits)
    from Cons.IH [OF 1(2) m] Added eq show ?thesis by simp
  next
    case (Removed x)
    then obtain c1 r1 where 1: "ThreadRegistry_remove x (c, r) = Inr (c1, r1)" "run_registry ops (c1, r1) = Inr (c', r')"
      using Cons.prems(1) by (auto simp: bindE_eq_Inr)
    have m: "\<not> registry_mutex r1" and eq: "currentThreadState c1 = currentThreadState c" "parentThreadWaitingYouToJoin c1 = parentThreadWaitingYouToJoin c"
      "awakeningFromJoin (scheduling_of (states c p)) \<longrightarrow> awakeningFromJoin (scheduling_of (states c1 p))"
      using 1(1) by (auto simp: ThreadRegistry_remove_def bindE_eq_Inr registry_lock_defs upd_state_def upd_sched_def Let_def
          VexThreadState_notifyParentWaitingForYouToJoin_def Scheduling_setAwakeningFromJoin_def split: option.splits)
    from Cons.IH [OF 1(2) m] Removed eq show ?thesis by simp
  next
    case (Join v uid)
    then obtain c1 r1 b where 1: "ThreadRegistry_coordinateJoiningThreads v uid (c, r) = Inr (c1, r1, b)" "run_registry ops (c1, r1) = Inr (c', r')"
      using Cons.prems(1) by (auto simp: bindE_eq_Inr)
    have m: "\<not> registry_mutex r1" and eq: "currentThreadState c1 = currentThreadState c" 
      "parentThreadWaitingYouToJoin c q = Some cell \<longrightarrow> v = cell \<longrightarrow> parentThreadWaitingYouToJoin c1 q = Some cell"
      "awakeningFromJoin (scheduling_of (states c p)) \<longrightarrow> awakeningFromJoin (scheduling_of (states c1 p))"
      using 1(1) by (auto simp: ThreadRegistry_coordinateJoiningThreads_def bindE_eq_Inr registry_lock_defs upd_state_def upd_sched_def Let_def
          Scheduling_setAwakeningFromJoin_def split: option.splits if_splits)
    from Cons.IH [OF 1(2) m] Join eq show ?thesis by auto
  qed
qed simp


text \<open>Three live threads with identifiers 0, 1 and 2.\<close>

definition join_cells :: thread_cells where
  "join_cells = \<lparr>states = (\<lambda>p. example_thread\<lparr>currentState := RUNNING, jthreadId := int p\<rparr>),
     currentThreadState = Some, parentThreadWaitingYouToJoin = Map.empty\<rparr>"

definition join_registry :: thread_registry where
  "join_registry = (ThreadRegistry_ThreadRegistry 1)\<lparr>threadStateIndex := [0 \<mapsto> 0, 1 \<mapsto> 1, 2 \<mapsto> 2]\<rparr>"

lemmas join_defs = join_cells_def join_registry_def ThreadRegistry_ThreadRegistry_def
  ThreadRegistry_coordinateJoiningThreads_def ThreadRegistry_remove_def ThreadRegistry_add_def
  ThreadRegistry_newThreadBeingSpawned_by_def registry_lock_defs upd_state_def upd_sched_def upd_timers_def
  VexThreadState_notifyParentWaitingForYouToJoin_def Scheduling_setAwakeningFromJoin_def
  Timers_setEstimatedRealTime_def isDead_def example_thread_def example_sched_def bindE_def


text \<open>
  A thread has one slot for the thread that joins it. When two threads join the same live thread,
  the second replaces the first in the slot, and the end of the joined thread wakes only the second.
\<close>

theorem second_joiner_replaces_first:
  "\<exists>s c2 r2. run_registry [Join 0 2, Join 1 2] (join_cells, join_registry) = Inr s \<and>
     ThreadRegistry_remove 2 s = Inr (c2, r2) \<and>
     awakeningFromJoin (scheduling_of (states c2 1)) \<and> \<not> awakeningFromJoin (scheduling_of (states c2 0))"
  by (simp add: join_defs)


lemma leap_check_none_alive_witness:
  "\<exists>a. ThreadRegistry_areAnyOtherThreadsActiveInFormerTime [1, 2] leap_store 1 None leap_registry = Inr (leap_registry, a) \<and>
     a \<noteq> NONE_ALIVE"
proof -
  have a: "\<not> registry_mutex leap_registry" "iterates [1, 2] leap_registry"
    by (auto simp: leap_registry_def ThreadRegistry_ThreadRegistry_def iterates_def)
  have b: "threadStateIndex leap_registry 2 = Some 2" "ert (leap_store 2) < ert (leap_store 1)" "isDefinitelyActive (leap_store 2)"
    by (simp_all add: leap_registry_def leap_store_def ThreadRegistry_ThreadRegistry_def isDefinitelyActive_def isRunning_def example_thread_def example_sched_def isDefinitelyActiveInIo_def isInAnyIo_def inIoLearningPhase_def
      inIoPredictionPhase_def isRegistering_def isSuspended_def isSomewhereInVex_def isWaiting_def)
  show ?thesis using leap_check_none_alive [OF a, of leap_store 1 None] b by metis
qed

section \<open>Distribution of threads over managers\<close>

fun register_managers :: "nat list \<Rightarrow> manager_registry \<Rightarrow> manager_registry" where
  "register_managers [] g = g"
| "register_managers (k # ks) g = register_managers ks (fst (ThreadManagerRegistry_addThreadManager (Some k) g))"

fun spawns :: "nat \<Rightarrow> manager_registry \<Rightarrow> (manager_registry \<times> nat list) res" where
  "spawns 0 g = Inr (g, [])"
| "spawns (Suc n) g =
     bindE (ThreadManagerRegistry_onThreadSpawn g) (\<lambda>(g', k).
     bindE (spawns n g') (\<lambda>(g'', ks). Inr (g'', k # ks)))"

text \<open>The registered managers are the first entries of the array, and the next one is among them.\<close>

definition managers_are :: "nat list \<Rightarrow> manager_registry \<Rightarrow> bool" where
  "managers_are ms g \<longleftrightarrow> currentlyRegistered g = length ms \<and> length ms \<le> maximumCpus g \<and>
     managerList g = map Some ms @ replicate (maximumCpus g - length ms) None"

lemma managers_are_add:
  assumes "managers_are ms g"
  shows "managers_are (if length ms < maximumCpus g then ms @ [k] else ms) (fst (ThreadManagerRegistry_addThreadManager (Some k) g)) \<and>
    maximumCpus (fst (ThreadManagerRegistry_addThreadManager (Some k) g)) = maximumCpus g \<and>
    nextCpuToStartThread (fst (ThreadManagerRegistry_addThreadManager (Some k) g)) = nextCpuToStartThread g"
proof (cases "length ms < maximumCpus g")
  case True
  then have "maximumCpus g - length ms = Suc (maximumCpus g - Suc (length ms))" by simp
  then show ?thesis using assms True
    by (simp add: managers_are_def ThreadManagerRegistry_addThreadManager_def list_update_append)
qed (use assms in \<open>simp add: managers_are_def ThreadManagerRegistry_addThreadManager_def\<close>)

lemma managers_are_register:
  "managers_are ms g \<Longrightarrow>
   managers_are (take (maximumCpus g) (ms @ ks)) (register_managers ks g) \<and>
   nextCpuToStartThread (register_managers ks g) = nextCpuToStartThread g"
proof (induction ks arbitrary: ms g)
  case Nil
  then show ?case by (simp add: managers_are_def)
next
  case (Cons k ks)
  have full: "\<not> length ms < maximumCpus g \<Longrightarrow> length ms = maximumCpus g"
    using Cons.prems by (simp add: managers_are_def)
  show ?case
    using Cons.IH [OF conjunct1 [OF managers_are_add [OF Cons.prems, of k]]] managers_are_add [OF Cons.prems, of k] full
    by (cases "length ms < maximumCpus g") auto
qed

lemma onThreadSpawn_managers_are:
  assumes "managers_are ms g" "nextCpuToStartThread g < length ms"
  shows "\<exists>g'. ThreadManagerRegistry_onThreadSpawn g = Inr (g', ms ! nextCpuToStartThread g) \<and> managers_are ms g' \<and>
    nextCpuToStartThread g' = Suc (nextCpuToStartThread g) mod length ms"
  using assms
  by (auto simp: ThreadManagerRegistry_onThreadSpawn_def managers_are_def Let_def at_idx_def nth_append bindE_eq_Inr mod_Suc)

lemma spawns_round_robin:
  "managers_are ms g \<Longrightarrow> nextCpuToStartThread g < length ms \<Longrightarrow>
   \<exists>g'. spawns n g = Inr (g', map (\<lambda>i. ms ! ((nextCpuToStartThread g + i) mod length ms)) [0..<n]) \<and> managers_are ms g'"
proof (induction n arbitrary: g)
  case (Suc n)
  obtain g1 where 1: "ThreadManagerRegistry_onThreadSpawn g = Inr (g1, ms ! nextCpuToStartThread g)" "managers_are ms g1"
      "nextCpuToStartThread g1 = Suc (nextCpuToStartThread g) mod length ms"
    using onThreadSpawn_managers_are [OF Suc.prems] by blast
  have "0 < length ms" using Suc.prems(2) by linarith
  then have "nextCpuToStartThread g1 < length ms" using 1(3) by simp
  from Suc.IH [OF 1(2) this] obtain g2 where 2: "spawns n g1 = Inr (g2, map (\<lambda>i. ms ! ((nextCpuToStartThread g1 + i) mod length ms)) [0..<n])"
      "managers_are ms g2" by blast
  have "map (\<lambda>i. ms ! ((nextCpuToStartThread g + i) mod length ms)) [0..<Suc n] =
      ms ! nextCpuToStartThread g # map (\<lambda>i. ms ! ((nextCpuToStartThread g1 + i) mod length ms)) [0..<n]"
    using Suc.prems(2) by (simp add: map_upt_Suc 1(3) mod_simps del: upt_Suc)
  then show ?case using 1(1) 2 by (simp add: bindE_def)
qed simp

text \<open>
  Threads are distributed over the managers in turn. After any managers have been offered to a new
  registry for \<open>n\<close> processors, the registered ones are the first \<open>n\<close> of them, the default one is the
  first, and the \<open>i\<close>-th thread spawned starts on manager \<open>i\<close> modulo their number, never on an
  uninitialised entry of the array.
\<close>

theorem spawned_threads_distributed_in_turn:
  assumes "0 < n" "ks \<noteq> []"
  shows "\<exists>g ms. g = register_managers ks (ThreadManagerRegistry_ThreadManagerRegistry n) \<and> ms = take n ks \<and>
     ThreadManagerRegistry_getDefaultManager g = Some (hd ks) \<and>
     (\<exists>g'. spawns m g = Inr (g', map (\<lambda>i. ms ! (i mod length ms)) [0..<m]))"
proof -
  let ?g = "register_managers ks (ThreadManagerRegistry_ThreadManagerRegistry n)"
  have "managers_are [] (ThreadManagerRegistry_ThreadManagerRegistry n)"
    by (simp add: managers_are_def ThreadManagerRegistry_ThreadManagerRegistry_def)
  from managers_are_register [OF this, of ks] have m: "managers_are (take n ks) ?g" "nextCpuToStartThread ?g = 0"
    by (simp_all add: ThreadManagerRegistry_ThreadManagerRegistry_def)
  have l: "0 < length (take n ks)" using assms by simp
  have "ThreadManagerRegistry_getDefaultManager ?g = Some (hd ks)"
    using m(1) l by (cases ks; cases n) (auto simp: ThreadManagerRegistry_getDefaultManager_def managers_are_def)
  then show ?thesis using spawns_round_robin [OF m(1), of m] m(2) l by auto
qed

lemma spawned_threads_distributed_in_turn_witness:
  "\<exists>g'. spawns 4 (register_managers [5, 6, 7] (ThreadManagerRegistry_ThreadManagerRegistry 2)) = Inr (g', [5, 6, 5, 6])"
proof -
  have "\<exists>g'. spawns 4 (register_managers [5, 6, 7] (ThreadManagerRegistry_ThreadManagerRegistry 2)) =
      Inr (g', map (\<lambda>i. take 2 [5, 6, 7] ! (i mod length (take 2 [5, 6, 7 :: nat]))) [0..<4])"
    using spawned_threads_distributed_in_turn [of 2 "[5, 6, 7]" 4] by auto
  moreover have "map (\<lambda>i. take 2 [5, 6, 7 :: nat] ! (i mod length (take 2 [5, 6, 7 :: nat]))) [0..<4] = [5, 6, 5, 6]"
    by code_simp
  ultimately show ?thesis by metis
qed

end
