(* ===== verification/Vex_Manager.thy ===== *)
theory Vex_Manager
  imports Vex_Timeline Vex_Registries Vex_ThreadRegistry
begin

text \<open>
  The scheduler, \<open>scheduler/ThreadManager.cpp\<close>, and the entry points of a simulated thread that call
  it, \<open>threads/ThreadState.cpp\<close>.

  All managers and threads share one state, \<open>world\<close>: the thread states and thread-local cells, the
  queue of runnable threads, the virtual timeline behind the controllers, the two registries and one
  \<open>manager\<close> record per \<open>ThreadManager\<close> object. An operation is a function on this state. It runs while
  the shared resource access key of the thread is held; the operations on that key, on the spin lock of
  \<open>runningThread\<close> and on the mutex of the manager are paired within the operation and are left out,
  as are output, the visualizer and members that are only printed. The blocking protocol itself is
  modelled in \<open>Vex_Handshake\<close>.

  A thread that blocks (\<open>onBlockedWaitingInVex\<close>) leaves the code that it still has to run in
  \<open>blockedIn\<close>, a list of \<open>frame\<close>s; an operation that may block returns whether it did. The CPU clock of
  each thread and the wall clock are fields of the state, read once per operation.
\<close>

unbundle bit_operations_syntax

section \<open>State\<close>

datatype ctrl_update = Resuming | ResumedLast int | TimedOutWaiting | Interrupted int | Blocking

text \<open>The virtual methods of \<open>VirtualTimelineController\<close> that the manager calls; the first argument is
  the manager, whose controller knows the number of its core.\<close>

record 'tl controller =
  ctrl_commit :: "nat \<Rightarrow> commit \<Rightarrow> 'tl \<Rightarrow> vex_thread \<Rightarrow> 'tl commit_result"
  ctrl_update :: "nat \<Rightarrow> ctrl_update \<Rightarrow> 'tl \<Rightarrow> vex_thread \<Rightarrow> 'tl commit_result"
  ctrl_howFarAhead :: "nat \<Rightarrow> 'tl \<Rightarrow> vex_thread \<Rightarrow> int"
  ctrl_globalTime :: "'tl \<Rightarrow> int"

fun single_update :: "nat \<Rightarrow> ctrl_update \<Rightarrow> timeline \<Rightarrow> vex_thread \<Rightarrow> timeline commit_result" where
  "single_update m Resuming vt s = Inr (vt, Single_updateResumingSuspendedThreadTimestamp vt s)"
| "single_update m (ResumedLast rt) vt s = Inr (vt, Single_updateResumingSuspendedThreadResumedLastTimestamp rt vt s)"
| "single_update m TimedOutWaiting vt s = Inr (vt, Single_updateTimedOutWaitingThreadTimestamp vt s)"
| "single_update m (Interrupted t) vt s = Inr (vt, Single_updateInterruptedWaitingThreadTimestamp t vt s)"
| "single_update m Blocking vt s = Inr (vt, Single_updateBlockedThreadTimestamp vt s)"

definition single_controller :: "timeline controller" where
  "single_controller =
     \<lparr>ctrl_commit = (\<lambda>_. single_commit), ctrl_update = single_update,
      ctrl_howFarAhead = (\<lambda>_. Single_getHowFarAheadInVirtualTimeTheThreadIs),
      ctrl_globalTime = globalVirtualTime\<rparr>"

fun multiple_update :: "nat \<Rightarrow> ctrl_update \<Rightarrow> multicore \<Rightarrow> vex_thread \<Rightarrow> multicore commit_result" where
  "multiple_update m Resuming vt s = Multiple_updateResumingSuspendedThreadTimestamp m vt s"
| "multiple_update m (ResumedLast rt) vt s = Multiple_updateResumingSuspendedThreadResumedLastTimestamp m rt vt s"
| "multiple_update m TimedOutWaiting vt s = Multiple_updateTimedOutWaitingThreadTimestamp m vt s"
| "multiple_update m (Interrupted t) vt s = Multiple_updateInterruptedWaitingThreadTimestamp m t vt s"
| "multiple_update m Blocking vt s = Multiple_updateBlockedThreadTimestamp vt s"

definition multiple_controller :: "multicore controller" where
  "multiple_controller =
     \<lparr>ctrl_commit = (\<lambda>m c. multiple_commit (m, c)), ctrl_update = multiple_update,
      ctrl_howFarAhead = (\<lambda>_. Multiple_getHowFarAheadInVirtualTimeTheThreadIs),
      ctrl_globalTime = globalVirtualTime\<rparr>"

text \<open>What the rest of a thread's code inside VEX does; \<open>nat\<close> is the manager whose method it is in.\<close>

datatype frame =
    SetRunning
  | UpdateTimedOutWaiting nat
  | UpdateCpuTimeClock
  | UpdateClocks
  | SetInSystemCall
  | LockKey
  | OnVexEntry
  | EntryAt int
  | EntryDone
  | EnterLocked
  | EnsureManager
  | AddInvocationPoints
  | SuspendCurrent int "8 word"
  | Yield int
  | ReplacedTimedWaiting int int
  | ReplacedWaiting int bool
  | WrappedWaitingStart int
  | UpdateWaitingTimeFrom int
  | SetTimedWaiting int int
  | WrappedTimedWaitingStart int
  | LeaveTimedWaiting bool
  | WrappedTimedWaitingEnd
  | ThreadEnd
  | AssertRunning
  | SetTimeout int
  | ExitWithoutTimeUpdate
  | ExitWithCpuTimeUpdate
  | ExitWithBothClocksUpdate
  | ExitWithRealTimeUpdate

record manager =
  runningThread :: "thread_ptr option"
  schedulerTimeslot :: int
  defaultSchedulerTimeslot :: int
  forceMinimumTimeslotSelection :: bool
  timesOfMinimumTimeslotForcing :: "32 word"
  lastGlobalVirtualTime :: int
  lastTotalThreadERT :: int
  pendingNotifications :: "32 word"
  schedulerWaitingForTimeslotExpiry :: bool
  condSignalled :: bool
  posixSignalsSent :: "64 word"
  timedOutsFailed :: "32 word"
  timedOutsSucceeded :: "32 word"
  timesYielding :: "32 word"
  decreaseSchedulerSleepingTimeBy :: int
  currentTimeScalingFactor :: rat
  timeWaitingFactorChanged :: bool
  numberOfNativeWaitingThreads :: int
  freeze :: int
  manager_running :: bool

record 'tl world =
  cells :: thread_cells
  runnableThreads :: thread_queue
  managers :: "nat \<Rightarrow> manager"
  virtualTimeline :: 'tl
  threadRegistry :: thread_registry
  objectRegistry :: object_registry
  blockedIn :: "thread_ptr \<Rightarrow> frame list option"
  cpuTime :: "thread_ptr \<Rightarrow> int"
  realTime :: int

text \<open>Settings of the simulation: the controller, static members, the order in which the table of
  threads is iterated, the state that the operating system reports for a thread at a time, and the
  depth of the stack.\<close>

record 'tl config =
  controller :: "'tl controller"
  minimizeTimeslotOnNw :: bool
  globalScalingFactor :: rat
  yieldDuration :: int
  iterationOrder :: "thread_registry \<Rightarrow> int list"
  isThreadSystemStateBlocked :: "int \<Rightarrow> thread_ptr \<Rightarrow> bool"
  stackDepth :: nat

definition thr :: "thread_ptr \<Rightarrow> 'tl world \<Rightarrow> vex_thread" where
  "thr p w = states (cells w) p"

definition upd_thr :: "thread_ptr \<Rightarrow> (vex_thread \<Rightarrow> vex_thread) \<Rightarrow> 'tl world \<Rightarrow> 'tl world" where
  "upd_thr p f w = w\<lparr>cells := upd_state p f (cells w)\<rparr>"

definition upd_mgr :: "nat \<Rightarrow> (manager \<Rightarrow> manager) \<Rightarrow> 'tl world \<Rightarrow> 'tl world" where
  "upd_mgr m f w = w\<lparr>managers := (managers w)(m := f (managers w m))\<rparr>"

definition on_queue :: "(thread_store \<Rightarrow> thread_queue \<Rightarrow> thread_queue res) \<Rightarrow> 'tl world \<Rightarrow> 'tl world res" where
  "on_queue f w = bindE (f (states (cells w)) (runnableThreads w)) (\<lambda>q. Inr (w\<lparr>runnableThreads := q\<rparr>))"

definition ask_queue ::
  "(thread_store \<Rightarrow> thread_queue \<Rightarrow> (thread_queue \<times> 'a) res) \<Rightarrow> 'tl world \<Rightarrow> ('tl world \<times> 'a) res" where
  "ask_queue f w =
     bindE (f (states (cells w)) (runnableThreads w)) (\<lambda>(q, x). Inr (w\<lparr>runnableThreads := q\<rparr>, x))"

definition ask_registry :: "(thread_registry \<Rightarrow> (thread_registry \<times> 'a) res) \<Rightarrow> 'tl world \<Rightarrow> ('tl world \<times> 'a) res" where
  "ask_registry f w = bindE (f (threadRegistry w)) (\<lambda>(r, x). Inr (w\<lparr>threadRegistry := r\<rparr>, x))"

definition on_timeline_of ::
  "('tl \<Rightarrow> vex_thread \<Rightarrow> 'tl commit_result) \<Rightarrow> thread_ptr \<Rightarrow> 'tl world \<Rightarrow> 'tl world res" where
  "on_timeline_of f p w =
     bindE (f (virtualTimeline w) (thr p w)) (\<lambda>(vt, s). Inr (upd_thr p (\<lambda>_. s) (w\<lparr>virtualTimeline := vt\<rparr>)))"

definition commit_progress :: "'tl config \<Rightarrow> nat \<Rightarrow> commit \<Rightarrow> thread_ptr \<Rightarrow> 'tl world \<Rightarrow> 'tl world res" where
  "commit_progress cfg m c = on_timeline_of (ctrl_commit (controller cfg) m c)"

definition update_timestamp :: "'tl config \<Rightarrow> nat \<Rightarrow> ctrl_update \<Rightarrow> thread_ptr \<Rightarrow> 'tl world \<Rightarrow> 'tl world res" where
  "update_timestamp cfg m u = on_timeline_of (ctrl_update (controller cfg) m u)"

definition controllingManager :: "thread_ptr \<Rightarrow> 'tl world \<Rightarrow> nat option" where
  "controllingManager p w = threadCurrentlyControllingManager (scheduling_of (thr p w))"

definition managerOf :: "nat option \<Rightarrow> nat res" where
  "managerOf m = (case m of None \<Rightarrow> Inl NullDeref | Some k \<Rightarrow> Inr k)"

section \<open>Construction and settings\<close>

definition ThreadManager_setDefaultSchedulerTimeslot :: "int \<Rightarrow> manager \<Rightarrow> manager" where
  "ThreadManager_setDefaultSchedulerTimeslot t g =
     (if t > 0 then g\<lparr>defaultSchedulerTimeslot := t, schedulerTimeslot := t\<rparr> else g)"

definition ThreadManager_minimizeSchedulerTimeslot :: "manager \<Rightarrow> manager" where
  "ThreadManager_minimizeSchedulerTimeslot g =
     (if defaultSchedulerTimeslot g > 2000000 then g\<lparr>schedulerTimeslot := 2000000\<rparr> else g)"

definition ThreadManager_resetDefaultSchedulerTimeslot :: "manager \<Rightarrow> manager" where
  "ThreadManager_resetDefaultSchedulerTimeslot g = g\<lparr>schedulerTimeslot := defaultSchedulerTimeslot g\<rparr>"

definition ThreadManager_setSchedulerTimeslot :: "int \<Rightarrow> manager \<Rightarrow> manager" where
  "ThreadManager_setSchedulerTimeslot t g = (if t > 0 then g\<lparr>schedulerTimeslot := t\<rparr> else g)"

definition ThreadManager_setFreeze :: "manager \<Rightarrow> manager" where
  [vex_defs]: "ThreadManager_setFreeze g = g\<lparr>freeze := freeze g + 1\<rparr>"

definition ThreadManager_unFreeze :: "manager \<Rightarrow> manager" where
  [vex_defs]: "ThreadManager_unFreeze g = g\<lparr>freeze := freeze g - 1\<rparr>"

definition ThreadManager_increasePendingNotifications :: "manager \<Rightarrow> manager" where
  [vex_defs]: "ThreadManager_increasePendingNotifications g =
     g\<lparr>pendingNotifications := pendingNotifications g + 1\<rparr>"

definition ThreadManager_clearPendingNotifications :: "manager \<Rightarrow> manager" where
  [vex_defs]: "ThreadManager_clearPendingNotifications g = g\<lparr>pendingNotifications := 0\<rparr>"

text \<open>\<open>raw\<close> holds the members that \<open>init\<close> does not set.\<close>

definition ThreadManager_init :: "manager \<Rightarrow> manager" where
  "ThreadManager_init raw =
     (ThreadManager_setDefaultSchedulerTimeslot 100000000
       (raw\<lparr>numberOfNativeWaitingThreads := 0, lastGlobalVirtualTime := 0, lastTotalThreadERT := 0,
         freeze := 0\<rparr>))
     \<lparr>forceMinimumTimeslotSelection := False, runningThread := None, posixSignalsSent := 0,
      timesOfMinimumTimeslotForcing := 0, decreaseSchedulerSleepingTimeBy := 0,
      currentTimeScalingFactor := 1, timedOutsSucceeded := 0, timedOutsFailed := 0, timesYielding := 0,
      schedulerWaitingForTimeslotExpiry := False\<rparr>"

definition ThreadManager_limitNextTimeslice :: "manager \<Rightarrow> manager" where
  "ThreadManager_limitNextTimeslice g =
     g\<lparr>decreaseSchedulerSleepingTimeBy := trunc_int (f64 (3/4 * f64 (of_int (schedulerTimeslot g))))\<rparr>"

definition ThreadManager_afterModelSimulation :: "manager \<Rightarrow> manager" where
  "ThreadManager_afterModelSimulation g =
     g\<lparr>decreaseSchedulerSleepingTimeBy := schedulerTimeslot g - 1000000\<rparr>"

section \<open>Waking the scheduler\<close>

definition ThreadManager_unconditionalWakeup :: "nat \<Rightarrow> 'tl world \<Rightarrow> 'tl world" where
  "ThreadManager_unconditionalWakeup m =
     upd_mgr m (\<lambda>g. if schedulerWaitingForTimeslotExpiry g then g\<lparr>condSignalled := True\<rparr>
                    else g\<lparr>schedulerWaitingForTimeslotExpiry := True\<rparr>)"

definition ThreadManager_wakeup :: "nat \<Rightarrow> 'tl world \<Rightarrow> 'tl world res" where
  "ThreadManager_wakeup m w =
     bindE (ask_queue (\<lambda>_. ThreadQueue_empty) w) (\<lambda>(w1, e).
     Inr (if \<not> e then ThreadManager_unconditionalWakeup m w1 else w1))"

definition ThreadManager_conditionalWakeup :: "nat \<Rightarrow> thread_ptr \<Rightarrow> 'tl world \<Rightarrow> 'tl world res" where
  "ThreadManager_conditionalWakeup m p w =
     bindE (ask_queue (\<lambda>_. ThreadQueue_empty) w) (\<lambda>(w1, e).
     if e then Inr w1
     else bindE (ask_queue (\<lambda>_. ThreadQueue_top) w1) (\<lambda>(w2, t).
          Inr (if t \<noteq> Some p then ThreadManager_unconditionalWakeup m w2 else w2)))"

definition ThreadManager_notifySchedulerForVirtualizedTime :: "nat \<Rightarrow> thread_ptr \<Rightarrow> rat \<Rightarrow> 'tl world \<Rightarrow> 'tl world" where
  "ThreadManager_notifySchedulerForVirtualizedTime m p factor w =
     ThreadManager_unconditionalWakeup m
       (upd_mgr m (\<lambda>g. g\<lparr>timeWaitingFactorChanged := True\<rparr>)
         (upd_thr p (upd_timers (Timers_setTimeScalingFactor factor)) w))"

section \<open>Measured time\<close>

definition ThreadManager_locklessUpdateTimeBy ::
  "'tl config \<Rightarrow> nat \<Rightarrow> int \<Rightarrow> thread_ptr \<Rightarrow> 'tl world \<Rightarrow> 'tl world res" where
  "ThreadManager_locklessUpdateTimeBy cfg m timeDiff p w =
     (let w1 = upd_thr p (upd_timers (Timers_addLocalTime (globalScalingFactor cfg) timeDiff)) w
      in if isNativeWaiting (thr p w1) then commit_progress cfg m NativeWaiting p w1
         else commit_progress cfg m Cpu p w1)"

definition ThreadManager_updateCurrentThreadVT ::
  "'tl config \<Rightarrow> nat \<Rightarrow> thread_ptr \<Rightarrow> 'tl world \<Rightarrow> 'tl world res" where
  "ThreadManager_updateCurrentThreadVT cfg m p w =
     (let currentTime = cpuTime w p;
          timeDiff = currentTime - lastCPUTime (thr_timers (thr p w))
      in bindE (if timeDiff > 0 then ThreadManager_locklessUpdateTimeBy cfg m timeDiff p w else Inr w) (\<lambda>w1.
         Inr (upd_thr p (upd_timers (Timers_setLastCPUTime currentTime)) w1)))"

definition ThreadManager_setCurrentThreadVT ::
  "'tl config \<Rightarrow> nat \<Rightarrow> int \<Rightarrow> thread_ptr \<Rightarrow> 'tl world \<Rightarrow> 'tl world res" where
  "ThreadManager_setCurrentThreadVT cfg m startingTime p w =
     (let timeDiff = startingTime - lastCPUTime (thr_timers (thr p w))
      in if timeDiff > 0 then ThreadManager_locklessUpdateTimeBy cfg m timeDiff p w else Inr w)"

definition ThreadManager_commitIoDuration ::
  "'tl config \<Rightarrow> nat \<Rightarrow> thread_ptr \<Rightarrow> int \<Rightarrow> 'tl world \<Rightarrow> 'tl world res" where
  "ThreadManager_commitIoDuration cfg m p actualIoDuration w = commit_progress cfg m (Io actualIoDuration) p w"

text \<open>The controller does not use the thread when it commits background load.\<close>

definition ThreadManager_commitBackgroundLoadDuration ::
  "'tl config \<Rightarrow> nat \<Rightarrow> int \<Rightarrow> 'tl world \<Rightarrow> 'tl world res" where
  "ThreadManager_commitBackgroundLoadDuration cfg m duration w =
     bindE (ctrl_commit (controller cfg) m (Background duration) (virtualTimeline w) (thr 0 w)) (\<lambda>(vt, _).
     Inr (w\<lparr>virtualTimeline := vt\<rparr>))"

definition ThreadManager_onWrappedBackgroundLoadExecutionStart :: "'tl world \<Rightarrow> 'tl world" where
  "ThreadManager_onWrappedBackgroundLoadExecutionStart w =
     w\<lparr>threadRegistry := ThreadRegistry_forbidForwardLeaps (threadRegistry w)\<rparr>"

definition ThreadManager_onWrappedBackgroundLoadExecutionEnd ::
  "'tl config \<Rightarrow> nat \<Rightarrow> int \<Rightarrow> 'tl world \<Rightarrow> 'tl world res" where
  "ThreadManager_onWrappedBackgroundLoadExecutionEnd cfg m duration w =
     bindE (ThreadManager_commitBackgroundLoadDuration cfg m duration w) (\<lambda>w1.
     Inr (w1\<lparr>threadRegistry := ThreadRegistry_allowForwardLeaps (threadRegistry w1)\<rparr>))"

section \<open>The running thread\<close>

definition ThreadManager_getRunningThread :: "nat \<Rightarrow> 'tl world \<Rightarrow> thread_ptr option" where
  "ThreadManager_getRunningThread m w = runningThread (managers w m)"

definition ThreadManager_anotherThreadAlreadySetRunning :: "nat \<Rightarrow> thread_ptr \<Rightarrow> 'tl world \<Rightarrow> bool" where
  "ThreadManager_anotherThreadAlreadySetRunning m p w =
     (runningThread (managers w m) \<noteq> None \<and> runningThread (managers w m) \<noteq> Some p)"

definition ThreadManager_changeThreadStateToRunning :: "nat \<Rightarrow> thread_ptr \<Rightarrow> 'tl world \<Rightarrow> 'tl world \<times> bool" where
  "ThreadManager_changeThreadStateToRunning m p w =
     (if runningThread (managers w m) \<noteq> None \<and> runningThread (managers w m) \<noteq> Some p then (w, False)
      else (upd_mgr m (\<lambda>g. g\<lparr>runningThread := Some p\<rparr>)
             (upd_thr p (upd_sched (Scheduling_setThreadCurrentlyControllingManager (Some m)) \<circ>
                         VexThreadState_setRunning) w), True))"

definition ThreadManager_unsetCurrentThreadFromRunningThread :: "nat \<Rightarrow> thread_ptr \<Rightarrow> 'tl world \<Rightarrow> 'tl world" where
  "ThreadManager_unsetCurrentThreadFromRunningThread m p =
     upd_mgr m (\<lambda>g. if runningThread g = Some p then g\<lparr>runningThread := None\<rparr> else g)"

definition ThreadManager_unsetCurrentThreadFromRunningThreadAndWakeup ::
  "nat \<Rightarrow> thread_ptr \<Rightarrow> 'tl world \<Rightarrow> 'tl world" where
  "ThreadManager_unsetCurrentThreadFromRunningThreadAndWakeup m p w =
     (if runningThread (managers w m) = Some p
      then ThreadManager_unconditionalWakeup m (upd_mgr m (\<lambda>g. g\<lparr>runningThread := None\<rparr>) w)
      else w)"

definition ThreadManager_getRunningThreadScalingFactor :: "nat \<Rightarrow> 'tl world \<Rightarrow> rat" where
  "ThreadManager_getRunningThreadScalingFactor m w =
     (case runningThread (managers w m) of
        Some p \<Rightarrow> virtualTimeSpeedup (thr_timers (thr p w))
      | None \<Rightarrow> currentTimeScalingFactor (managers w m))"

text \<open>\<open>setTimeout\<close> of the thread state.\<close>

definition set_timeout :: "int \<Rightarrow> vex_thread \<Rightarrow> vex_thread" where
  [vex_defs]: "set_timeout t = upd_timers (Timers_setTimeout t)"

definition ThreadManager_pushIntoRunnableQueue :: "thread_ptr \<Rightarrow> 'tl world \<Rightarrow> 'tl world res" where
  "ThreadManager_pushIntoRunnableQueue p w = on_queue (\<lambda>st. ThreadQueue_push st p) w"

definition ThreadManager_updateRunnableQueue :: "'tl world \<Rightarrow> 'tl world res" where
  "ThreadManager_updateRunnableQueue w = on_queue ThreadQueue_update w"

definition ThreadManager_setSuspended :: "nat \<Rightarrow> thread_ptr \<Rightarrow> 'tl world \<Rightarrow> 'tl world res" where
  "ThreadManager_setSuspended m p w =
     (let w1 = upd_mgr m (\<lambda>g. if runningThread g = Some p then g\<lparr>runningThread := None\<rparr> else g) w;
          w2 = upd_thr p VexThreadState_setSuspended w1
      in ThreadManager_pushIntoRunnableQueue p w2)"

definition ThreadManager_setSuspendedAndPushToRunnables :: "nat \<Rightarrow> thread_ptr \<Rightarrow> 'tl world \<Rightarrow> 'tl world res" where
  "ThreadManager_setSuspendedAndPushToRunnables m p w =
     (let w1 = ThreadManager_unsetCurrentThreadFromRunningThread m p w;
          w2 = upd_thr p (\<lambda>s. set_timeout (-1) ((VexThreadState_setSuspended s)\<lparr>timedOut := True\<rparr>)) w1
      in ThreadManager_pushIntoRunnableQueue p w2)"

definition ThreadManager_setWaitingThread :: "nat \<Rightarrow> thread_ptr \<Rightarrow> 'tl world \<Rightarrow> 'tl world" where
  "ThreadManager_setWaitingThread m p w =
     upd_thr p VexThreadState_setWaiting (ThreadManager_unsetCurrentThreadFromRunningThread m p w)"

text \<open>The registry that polls native waiting threads is a variant; this is the default one, in which
  \<open>setNativeWaiting\<close> and \<open>unsetNativeWaiting\<close> do nothing.\<close>

definition ThreadManager_setNativeWaiting :: "thread_ptr \<Rightarrow> 'tl world \<Rightarrow> 'tl world" where
  "ThreadManager_setNativeWaiting p w = upd_thr p VexThreadState_setNativeWaiting w"

definition ThreadManager_setTimedWaitingThread :: "nat \<Rightarrow> thread_ptr \<Rightarrow> 'tl world \<Rightarrow> 'tl world res" where
  "ThreadManager_setTimedWaitingThread m p w =
     (let w1 = ThreadManager_unsetCurrentThreadFromRunningThread m p w;
          w2 = upd_thr p VexThreadState_setWaiting w1
      in ThreadManager_pushIntoRunnableQueue p w2)"

definition ThreadManager_setIoThread :: "nat \<Rightarrow> thread_ptr \<Rightarrow> bool \<Rightarrow> 'tl world \<Rightarrow> 'tl world res" where
  "ThreadManager_setIoThread m p learning w =
     (let w1 = ThreadManager_unsetCurrentThreadFromRunningThread m p w;
          (s, b) = VexThreadState_setIoAndCheckIfOperationShouldBlockSimulationProgress learning (thr p w1);
          w2 = upd_thr p (\<lambda>_. s) w1
      in if b then ThreadManager_pushIntoRunnableQueue p w2 else Inr w2)"

definition ThreadManager_setSystemCallThread :: "thread_ptr \<Rightarrow> 'tl world \<Rightarrow> 'tl world" where
  "ThreadManager_setSystemCallThread p = upd_thr p VexThreadState_setInSystemCall"

section \<open>Suspending the current thread\<close>

text \<open>The time comparison is between a \<open>long long\<close> and a \<open>double\<close>.\<close>

definition ThreadManager_shouldCurrentThreadSuspend ::
  "nat \<Rightarrow> thread_ptr \<Rightarrow> 'tl world \<Rightarrow> ('tl world \<times> bool) res" where
  "ThreadManager_shouldCurrentThreadSuspend m p w =
     (let forced = snd (Scheduling_getAndResetForcedSuspendFlag (scheduling_of (thr p w)));
          w1 = upd_thr p (upd_sched (fst \<circ> Scheduling_getAndResetForcedSuspendFlag)) w;
          s = thr p w1
      in if forced then Inr (w1, True)
         else case controllingManager p w1 of
           None \<Rightarrow> Inr (w1, True)
         | Some k \<Rightarrow>
             if ThreadManager_anotherThreadAlreadySetRunning k p w1 then Inr (w1, True)
             else if \<not> Scheduling_isSuspendingAllowed (realTime w1) (scheduling_of s) then Inr (w1, False)
             else if f64 (of_int (ert s - resumedLastAt (thr_timers s)))
                     < f64 (3/4 * f64 (of_int (schedulerTimeslot (managers w1 m)))) then Inr (w1, False)
             else ask_queue (\<lambda>st. ThreadQueue_isNextRunnableThreadBefore st (ert s)) w1)"

definition SUSPEND_OPT_DONT_UPDATE_THREAD_TIME :: "8 word" where
  "SUSPEND_OPT_DONT_UPDATE_THREAD_TIME = 1"
definition SUSPEND_OPT_FORCE_SUSPEND :: "8 word" where
  "SUSPEND_OPT_FORCE_SUSPEND = 2"
definition SUSPEND_OPT_THREAD_ALREADY_IN_LIST :: "8 word" where
  "SUSPEND_OPT_THREAD_ALREADY_IN_LIST = 4"
definition SUSPEND_OPT_DONT_WAKE_UP_SCHEDULER :: "8 word" where
  "SUSPEND_OPT_DONT_WAKE_UP_SCHEDULER = 8"

text \<open>\<open>blockHereUntilSignaled\<close> first clears the flag that it waits for.\<close>

definition VexThreadState_onBlocked :: "thread_ptr \<Rightarrow> frame list \<Rightarrow> 'tl world \<Rightarrow> 'tl world" where
  "VexThreadState_onBlocked p frames w =
     (upd_thr p (upd_sched (Scheduling_setAwaken False)) w)\<lparr>blockedIn := (blockedIn w)(p \<mapsto> frames)\<rparr>"

definition ThreadManager_blockCurrentThread :: "thread_ptr \<Rightarrow> frame list \<Rightarrow> 'tl world \<Rightarrow> 'tl world" where
  "ThreadManager_blockCurrentThread p rest = VexThreadState_onBlocked p (SetRunning # rest)"

text \<open>\<open>suspendCurrentThread\<close> and \<open>setRunningThread\<close> call each other; the first takes the second as
  argument.\<close>

definition suspendCurrentThread_calling ::
  "(thread_ptr \<Rightarrow> 'tl world \<Rightarrow> ('tl world \<times> bool) res) \<Rightarrow> 'tl config \<Rightarrow> nat \<Rightarrow> thread_ptr \<Rightarrow> int \<Rightarrow> 8 word
     \<Rightarrow> 'tl world \<Rightarrow> ('tl world \<times> bool) res" where
  "suspendCurrentThread_calling setRunning cfg m p startingTime options w =
     (let keepTime = (options AND SUSPEND_OPT_DONT_UPDATE_THREAD_TIME \<noteq> 0);
          inList = (options AND SUSPEND_OPT_THREAD_ALREADY_IN_LIST \<noteq> 0)
      in
      bindE (if keepTime then Inr w
             else if startingTime = 0 then ThreadManager_updateCurrentThreadVT cfg m p w
             else ThreadManager_setCurrentThreadVT cfg m startingTime p w) (\<lambda>w1.
      bindE (if options AND SUSPEND_OPT_FORCE_SUSPEND \<noteq> 0
             then bindE (ask_queue (\<lambda>_. ThreadQueue_empty) w1) (\<lambda>(w2, e).
                  if \<not> e then Inr (w2, True)
                  else ask_registry ThreadRegistry_atLeastOneThreadBeingSpawned w2)
             else Inr (w1, False)) (\<lambda>(w2, forced).
      bindE (if forced then Inr (w2, True) else ThreadManager_shouldCurrentThreadSuspend m p w2) (\<lambda>(w3, suspend).
      if suspend
      then bindE (if inList
                  then Inr (upd_thr p VexThreadState_setSuspended
                             (ThreadManager_unsetCurrentThreadFromRunningThread m p w3))
                  else ThreadManager_setSuspendedAndPushToRunnables m p w3) (\<lambda>w4.
           let w5 = (if options AND SUSPEND_OPT_DONT_WAKE_UP_SCHEDULER = 0
                     then ThreadManager_unconditionalWakeup m w4 else w4)
           in bindE (assertE AssertFailed (\<not> awaken (scheduling_of (thr p w5)))) (\<lambda>_.
              Inr (ThreadManager_blockCurrentThread p
                     (if \<not> keepTime \<and> startingTime = 0 then [UpdateCpuTimeClock] else []) w5, True)))
      else if ThreadManager_getRunningThread m w3 \<noteq> Some p
      then bindE (if inList then on_queue (\<lambda>st. ThreadQueue_erase st p) w3 else Inr w3) (setRunning p)
      else Inr (w3, False)))))"

fun setRunningThread_fuel ::
  "nat \<Rightarrow> 'tl config \<Rightarrow> nat \<Rightarrow> thread_ptr \<Rightarrow> 'tl world \<Rightarrow> ('tl world \<times> bool) res" where
  "setRunningThread_fuel 0 cfg m p w = Inl StackOverflow"
| "setRunningThread_fuel (Suc n) cfg m p w =
     (let w1 = upd_thr p (upd_sched (Scheduling_setAwaken False)) w;
          (w2, set) = ThreadManager_changeThreadStateToRunning m p w1
      in if set
         then bindE (update_timestamp cfg m Resuming p w2) (\<lambda>w3.
              bindE (assertE AssertFailed (controllingManager p w3 \<noteq> None)) (\<lambda>_. Inr (w3, False)))
         else bindE (ask_queue (\<lambda>_. ThreadQueue_find p) w2) (\<lambda>(w3, found).
              suspendCurrentThread_calling (setRunningThread_fuel n cfg m) cfg m p 0
                (SUSPEND_OPT_FORCE_SUSPEND OR SUSPEND_OPT_DONT_UPDATE_THREAD_TIME OR
                 (if found then SUSPEND_OPT_THREAD_ALREADY_IN_LIST else 0)) w3))"

definition ThreadManager_setRunningThread ::
  "'tl config \<Rightarrow> nat \<Rightarrow> thread_ptr \<Rightarrow> 'tl world \<Rightarrow> ('tl world \<times> bool) res" where
  "ThreadManager_setRunningThread cfg = setRunningThread_fuel (stackDepth cfg) cfg"

definition ThreadManager_suspendCurrentThread ::
  "'tl config \<Rightarrow> nat \<Rightarrow> thread_ptr \<Rightarrow> int \<Rightarrow> 8 word \<Rightarrow> 'tl world \<Rightarrow> ('tl world \<times> bool) res" where
  "ThreadManager_suspendCurrentThread cfg m =
     suspendCurrentThread_calling (ThreadManager_setRunningThread cfg m) cfg m"

definition ThreadManager_suspendModelSimulationFinishingThread ::
  "'tl config \<Rightarrow> nat \<Rightarrow> thread_ptr \<Rightarrow> 'tl world \<Rightarrow> ('tl world \<times> bool) res" where
  "ThreadManager_suspendModelSimulationFinishingThread cfg m p w =
     ThreadManager_suspendCurrentThread cfg m p 0
       (if isWaitingRealCodeToCompleteAfterModelSimulation (thr p w)
        then SUSPEND_OPT_DONT_UPDATE_THREAD_TIME OR SUSPEND_OPT_THREAD_ALREADY_IN_LIST
        else SUSPEND_OPT_DONT_UPDATE_THREAD_TIME) w"

definition ThreadManager_suspendLooseCurrentThread ::
  "'tl config \<Rightarrow> nat \<Rightarrow> thread_ptr \<Rightarrow> int \<Rightarrow> 'tl world \<Rightarrow> ('tl world \<times> bool) res" where
  "ThreadManager_suspendLooseCurrentThread cfg m p startingTime w =
     bindE (if startingTime = 0 then ThreadManager_updateCurrentThreadVT cfg m p w
            else ThreadManager_setCurrentThreadVT cfg m startingTime p w) (\<lambda>w1.
     let w2 = (if minimizeTimeslotOnNw cfg
               then upd_mgr m (\<lambda>g. let g1 = g\<lparr>numberOfNativeWaitingThreads := numberOfNativeWaitingThreads g - 1\<rparr>
                                  in if numberOfNativeWaitingThreads g1 \<le> 0
                                     then (ThreadManager_resetDefaultSchedulerTimeslot g1)\<lparr>numberOfNativeWaitingThreads := 0\<rparr>
                                     else g1) w1
               else w1)
     in bindE (ask_queue (\<lambda>_. ThreadQueue_empty) w2) (\<lambda>(w3, e).
        if \<not> e
        then bindE (ThreadManager_setSuspendedAndPushToRunnables m p w3) (\<lambda>w4.
             Inr (ThreadManager_blockCurrentThread p [UpdateCpuTimeClock] w4, True))
        else ThreadManager_setRunningThread cfg m p w3))"

section \<open>Code of a thread after a blocking call\<close>

definition and_then ::
  "('tl world \<times> bool) res \<Rightarrow> thread_ptr \<Rightarrow> frame list \<Rightarrow> ('tl world \<Rightarrow> ('tl world \<times> bool) res)
     \<Rightarrow> ('tl world \<times> bool) res" where
  "and_then r p rest k =
     bindE r (\<lambda>(w, blocked).
       if blocked
       then Inr (w\<lparr>blockedIn := (blockedIn w)(p := map_option (\<lambda>fs. fs @ rest) (blockedIn w p))\<rparr>, True)
       else k w)"

definition returns :: "'tl world res \<Rightarrow> ('tl world \<times> bool) res" where
  [vex_defs]: "returns r = bindE r (\<lambda>w. Inr (w, False))"

section \<open>Lifecycle and waiting of the current thread\<close>

definition VexThreadState_lockShareResourceAccessKey :: "thread_ptr \<Rightarrow> 'tl world \<Rightarrow> 'tl world" where
  "VexThreadState_lockShareResourceAccessKey p =
     upd_thr p (upd_sched (\<lambda>sc. sc\<lparr>waitingInNativeVTFcode := waitingInNativeVTFcode sc + 1\<rparr>))"

definition ThreadManager_onThreadYield ::
  "'tl config \<Rightarrow> nat \<Rightarrow> thread_ptr \<Rightarrow> int \<Rightarrow> 'tl world \<Rightarrow> ('tl world \<times> bool) res" where
  "ThreadManager_onThreadYield cfg m p startingTime w =
     (let timeDiff = yieldDuration cfg + startingTime - lastCPUTime (thr_timers (thr p w))
      in bindE (ThreadManager_locklessUpdateTimeBy cfg m (if timeDiff > 0 then timeDiff else yieldDuration cfg) p w) (\<lambda>w1.
         let w2 = upd_mgr m (\<lambda>g. g\<lparr>timesYielding := timesYielding g + 1\<rparr>) w1
         in bindE (ask_queue (\<lambda>st. ThreadQueue_getHighestRunnableTime st p) w2) (\<lambda>(w3, highestTimeAfterMe).
            let w4 = upd_thr p (upd_timers (fst \<circ> Timers_leapTo (highestTimeAfterMe + 1))) w3
            in ThreadManager_suspendCurrentThread cfg m p 0
                 (SUSPEND_OPT_DONT_UPDATE_THREAD_TIME OR SUSPEND_OPT_FORCE_SUSPEND) w4)))"

definition ThreadManager_onWrappedWaitingStart ::
  "'tl config \<Rightarrow> nat \<Rightarrow> thread_ptr \<Rightarrow> int \<Rightarrow> 'tl world \<Rightarrow> 'tl world res" where
  "ThreadManager_onWrappedWaitingStart cfg m p startingTime w =
     bindE (ThreadManager_setCurrentThreadVT cfg m startingTime p w) (\<lambda>w1.
     let w2 = ThreadManager_unsetCurrentThreadFromRunningThread m p w1
     in bindE (assertE AssertFailed (runningThread (managers w2 m) \<noteq> Some p)) (\<lambda>_.
        Inr (ThreadManager_unconditionalWakeup m w2)))"

definition ThreadManager_onWrappedWaitingEnd ::
  "'tl config \<Rightarrow> nat \<Rightarrow> thread_ptr \<Rightarrow> int \<Rightarrow> 'tl world \<Rightarrow> ('tl world \<times> bool) res" where
  "ThreadManager_onWrappedWaitingEnd cfg m p startingTime w =
     bindE (update_timestamp cfg m Blocking p w) (ThreadManager_suspendCurrentThread cfg m p startingTime 0)"

definition ThreadManager_onWrappedTimedWaitingStart ::
  "'tl config \<Rightarrow> nat \<Rightarrow> thread_ptr \<Rightarrow> int \<Rightarrow> 'tl world \<Rightarrow> 'tl world res" where
  "ThreadManager_onWrappedTimedWaitingStart cfg m p startingTime w =
     bindE (ThreadManager_setCurrentThreadVT cfg m startingTime p w) (\<lambda>w1.
     bindE (ThreadManager_setTimedWaitingThread m p w1) (\<lambda>w2.
     Inr (ThreadManager_unconditionalWakeup m w2)))"

definition ThreadManager_onWrappedTimedWaitingEnd :: "nat \<Rightarrow> thread_ptr \<Rightarrow> 'tl world \<Rightarrow> ('tl world \<times> bool) res" where
  "ThreadManager_onWrappedTimedWaitingEnd m p w =
     Inr (VexThreadState_onBlocked p [UpdateTimedOutWaiting m, SetRunning, AssertRunning]
           (ThreadManager_unconditionalWakeup m (upd_thr p VexThreadState_setSuspended w)), True)"

definition ThreadManager_onReplacedWaiting :: "nat \<Rightarrow> thread_ptr \<Rightarrow> 'tl world \<Rightarrow> ('tl world \<times> bool) res" where
  "ThreadManager_onReplacedWaiting m p w =
     Inr (VexThreadState_onBlocked p [UpdateTimedOutWaiting m, SetRunning]
           (ThreadManager_unconditionalWakeup m (ThreadManager_unsetCurrentThreadFromRunningThread m p w)), True)"

definition ThreadManager_onReplacedTimedWaiting :: "nat \<Rightarrow> thread_ptr \<Rightarrow> 'tl world \<Rightarrow> ('tl world \<times> bool) res" where
  "ThreadManager_onReplacedTimedWaiting m p w =
     bindE (ThreadManager_setTimedWaitingThread m p w) (\<lambda>w1.
     Inr (VexThreadState_onBlocked p [UpdateTimedOutWaiting m, SetRunning] (ThreadManager_unconditionalWakeup m w1), True))"

definition ThreadManager_onThreadEnd :: "'tl config \<Rightarrow> nat \<Rightarrow> thread_ptr \<Rightarrow> 'tl world \<Rightarrow> 'tl world res" where
  "ThreadManager_onThreadEnd cfg m p w =
     bindE (ThreadManager_updateCurrentThreadVT cfg m p w) (\<lambda>w1.
     let w2 = upd_thr p VexThreadState_setDead w1
     in bindE (ThreadRegistry_remove p (cells w2, threadRegistry w2)) (\<lambda>(c, r).
        let w3 = ThreadManager_unsetCurrentThreadFromRunningThreadAndWakeup m p
                   (w2\<lparr>cells := c, threadRegistry := r\<rparr>)
        in Inr (upd_thr p (\<lambda>s. s\<lparr>inVex := False\<rparr>) w3)))"

section \<open>Interrupts by other threads\<close>

definition ThreadManager_onWrappedWaitingInterrupt ::
  "'tl config \<Rightarrow> nat \<Rightarrow> thread_ptr \<Rightarrow> int \<Rightarrow> 'tl world \<Rightarrow> 'tl world res" where
  "ThreadManager_onWrappedWaitingInterrupt cfg m p interruptionTime w =
     bindE (update_timestamp cfg m
              (Interrupted (if interruptionTime = 0 then ctrl_globalTime (controller cfg) (virtualTimeline w)
                            else interruptionTime)) p w) (\<lambda>w1.
     Inr (upd_thr p (\<lambda>s. (VexThreadState_setWaiting (fst (VexThreadState_beforeThreadInterruptAt s None)))
                          \<lparr>timedOut := False\<rparr>) w1))"

definition ThreadManager_onWrappedTimedWaitingInterrupt ::
  "'tl config \<Rightarrow> nat \<Rightarrow> thread_ptr \<Rightarrow> int \<Rightarrow> 'tl world \<Rightarrow> 'tl world res" where
  "ThreadManager_onWrappedTimedWaitingInterrupt cfg m p interruptionTime w =
     bindE (update_timestamp cfg m
              (Interrupted (if interruptionTime = 0 then ctrl_globalTime (controller cfg) (virtualTimeline w)
                            else interruptionTime)) p w) ThreadManager_updateRunnableQueue"

definition ThreadManager_onAnyReplacedWaitingInterrupt ::
  "'tl config \<Rightarrow> nat \<Rightarrow> thread_ptr \<Rightarrow> int \<Rightarrow> 'tl world \<Rightarrow> 'tl world res" where
  "ThreadManager_onAnyReplacedWaitingInterrupt cfg m p interruptionTime w =
     bindE (update_timestamp cfg m (Interrupted interruptionTime) p w) (\<lambda>w1.
     let t = timeout (thr_timers (thr p w1));
         (s, reg) = VexThreadState_beforeThreadInterruptAt (thr p w1) (Some (objectRegistry w1));
         w2 = (upd_thr p (\<lambda>_. s) w1)\<lparr>objectRegistry := (case reg of Some r \<Rightarrow> r | None \<Rightarrow> objectRegistry w1)\<rparr>
     in if t \<noteq> 0 \<and> t \<noteq> -2 then ThreadManager_updateRunnableQueue w2
        else ThreadManager_pushIntoRunnableQueue p w2)"

section \<open>Execution of frames\<close>

definition VexThreadState_exit :: "thread_ptr \<Rightarrow> 'tl world \<Rightarrow> 'tl world" where
  "VexThreadState_exit p = upd_thr p (\<lambda>s. s\<lparr>inVex := False\<rparr>)"

definition update_cpu_clock :: "thread_ptr \<Rightarrow> 'tl world \<Rightarrow> 'tl world" where
  "update_cpu_clock p w = upd_thr p (upd_timers (Timers_updateCpuTimeClock (cpuTime w p))) w"

definition update_clocks :: "thread_ptr \<Rightarrow> 'tl world \<Rightarrow> 'tl world" where
  "update_clocks p w = upd_thr p (upd_timers (fst \<circ> Timers_updateClocks (cpuTime w p) (realTime w))) w"

text \<open>The loop of \<open>getCurrentlyControllingManagerOf\<close>.\<close>

fun ensure_manager_fuel :: "nat \<Rightarrow> 'tl config \<Rightarrow> thread_ptr \<Rightarrow> 'tl world \<Rightarrow> ('tl world \<times> bool) res" where
  "ensure_manager_fuel 0 cfg p w = Inl Deadlock"
| "ensure_manager_fuel (Suc n) cfg p w =
     (case controllingManager p w of
        Some _ \<Rightarrow> Inr (w, False)
      | None \<Rightarrow>
          bindE (managerOf (previouslyControllingManager (scheduling_of (thr p w)))) (\<lambda>m.
          and_then (ThreadManager_suspendLooseCurrentThread cfg m p 0 w) p [EnsureManager]
            (ensure_manager_fuel n cfg p)))"

definition VexThreadState_getCurrentlyControllingManagerOf ::
  "'tl config \<Rightarrow> thread_ptr \<Rightarrow> 'tl world \<Rightarrow> ('tl world \<times> bool) res" where
  "VexThreadState_getCurrentlyControllingManagerOf cfg = ensure_manager_fuel (stackDepth cfg) cfg"

text \<open>After \<open>suspendLooseCurrentThread\<close> the entry is as complete as without it.\<close>

definition entry_done :: "thread_ptr \<Rightarrow> 'tl world \<Rightarrow> ('tl world \<times> bool) res" where
  "entry_done p w =
     bindE (assertE AssertFailed (controllingManager p w \<noteq> None)) (\<lambda>_.
     Inr (VexThreadState_lockShareResourceAccessKey p w, False))"

definition VexThreadState_onVexEntry ::
  "'tl config \<Rightarrow> thread_ptr \<Rightarrow> int \<Rightarrow> 'tl world \<Rightarrow> ('tl world \<times> bool) res" where
  "VexThreadState_onVexEntry cfg p startingTime w =
     (let w1 = upd_thr p (\<lambda>s. s\<lparr>inVex := True\<rparr>) w
      in if \<not> isRunning (thr p w1) \<or> controllingManager p w1 = None
         then let w2 = VexThreadState_lockShareResourceAccessKey p (upd_thr p VexThreadState_setCustom2 w1)
              in bindE (managerOf (previouslyControllingManager (scheduling_of (thr p w2)))) (\<lambda>m.
                 and_then (ThreadManager_suspendLooseCurrentThread cfg m p startingTime w2) p [EntryDone] (entry_done p))
         else entry_done p
                (upd_thr p (upd_timers (Timers_updateThreadLocalTimeSinceLastResumeTo (globalScalingFactor cfg) startingTime)) w1))"

fun run_frame :: "'tl config \<Rightarrow> thread_ptr \<Rightarrow> frame \<Rightarrow> 'tl world \<Rightarrow> ('tl world \<times> bool) res" where
  "run_frame cfg p SetRunning w =
     bindE (managerOf (controllingManager p w)) (\<lambda>m. ThreadManager_setRunningThread cfg m p w)"
| "run_frame cfg p (UpdateTimedOutWaiting m) w = returns (update_timestamp cfg m TimedOutWaiting p w)"
| "run_frame cfg p UpdateCpuTimeClock w = Inr (update_cpu_clock p w, False)"
| "run_frame cfg p UpdateClocks w = Inr (update_clocks p w, False)"
| "run_frame cfg p SetInSystemCall w = Inr (upd_thr p VexThreadState_setInSystemCall w, False)"
| "run_frame cfg p LockKey w = Inr (VexThreadState_lockShareResourceAccessKey p w, False)"
| "run_frame cfg p OnVexEntry w = VexThreadState_onVexEntry cfg p (cpuTime w p) w"
| "run_frame cfg p (EntryAt t) w = VexThreadState_onVexEntry cfg p t w"
| "run_frame cfg p EntryDone w = entry_done p w"
| "run_frame cfg p EnterLocked w =
     Inr (VexThreadState_lockShareResourceAccessKey p (upd_thr p (\<lambda>s. s\<lparr>inVex := True\<rparr>) w), False)"
| "run_frame cfg p EnsureManager w = VexThreadState_getCurrentlyControllingManagerOf cfg p w"
| "run_frame cfg p AddInvocationPoints w = Inr (upd_thr p VexThreadState_addInvocationPoints w, False)"
| "run_frame cfg p (SuspendCurrent t options) w =
     bindE (managerOf (controllingManager p w)) (\<lambda>m. ThreadManager_suspendCurrentThread cfg m p t options w)"
| "run_frame cfg p (Yield t) w =
     bindE (managerOf (controllingManager p w)) (\<lambda>m. ThreadManager_onThreadYield cfg m p t w)"
| "run_frame cfg p (ReplacedTimedWaiting objectId t) w =
     (let w1 = upd_thr p (VexThreadState_setTimedWaiting (globalScalingFactor cfg) t \<circ>
                          VexThreadState_setWaitingObjectId objectId) w
      in bindE (managerOf (controllingManager p w1)) (\<lambda>m. ThreadManager_onReplacedTimedWaiting m p w1))"
| "run_frame cfg p (ReplacedWaiting objectId internal) w =
     (let w1 = upd_thr p (\<lambda>s. VexThreadState_setWaiting (VexThreadState_setWaitingObjectId objectId (s\<lparr>timedOut := True\<rparr>))) w;
          w2 = (if internal then upd_thr p (set_timeout (-2)) w1 else w1)
      in bindE (managerOf (controllingManager p w2)) (\<lambda>m. ThreadManager_onReplacedWaiting m p w2))"
| "run_frame cfg p (WrappedWaitingStart t) w =
     (let manager = controllingManager p w;
          w1 = upd_thr p (\<lambda>s. VexThreadState_setWaiting (upd_sched (Scheduling_setAwakeningFromJoin False)
                 (set_timeout (-1) ((VexThreadState_addInvocationPoints s)\<lparr>timedOut := True\<rparr>)))) w
      in bindE (managerOf manager) (\<lambda>m. returns (ThreadManager_onWrappedWaitingStart cfg m p t w1)))"
| "run_frame cfg p (UpdateWaitingTimeFrom t) w = Inr (upd_thr p (upd_timers (Timers_updateWaitingTimeFrom t)) w, False)"
| "run_frame cfg p (SetTimedWaiting objectId t) w =
     Inr (upd_thr p (\<lambda>s. VexThreadState_setTimedWaiting (globalScalingFactor cfg) t
                       ((VexThreadState_setWaitingObjectId objectId s)\<lparr>waitingInRealTime := True\<rparr>)) w, False)"
| "run_frame cfg p (WrappedTimedWaitingStart t) w =
     bindE (managerOf (controllingManager p w)) (\<lambda>m. returns (ThreadManager_onWrappedTimedWaitingStart cfg m p t w))"
| "run_frame cfg p (LeaveTimedWaiting withRegistry) w =
     (let w1 = upd_thr p (\<lambda>s. s\<lparr>waitingInRealTime := False\<rparr>) w;
          reg = VexThreadState_eraseWaitingObjectIdFromRegistry (thr p w1)
                  (if withRegistry then Some (objectRegistry w1) else None);
          w2 = (case reg of Some r \<Rightarrow> w1\<lparr>objectRegistry := r\<rparr> | None \<Rightarrow> w1)
      in Inr (upd_thr p (\<lambda>s. s\<lparr>timedOut := True\<rparr>) w2, False))"
| "run_frame cfg p WrappedTimedWaitingEnd w =
     bindE (managerOf (controllingManager p w)) (\<lambda>m. ThreadManager_onWrappedTimedWaitingEnd m p w)"
| "run_frame cfg p ThreadEnd w =
     bindE (managerOf (controllingManager p w)) (\<lambda>m. returns (ThreadManager_onThreadEnd cfg m p w))"
| "run_frame cfg p AssertRunning w = bindE (assertE AssertFailed (isRunning (thr p w))) (\<lambda>_. Inr (w, False))"
| "run_frame cfg p (SetTimeout t) w = Inr (upd_thr p (set_timeout t) w, False)"
| "run_frame cfg p ExitWithoutTimeUpdate w = Inr (VexThreadState_exit p w, False)"
| "run_frame cfg p ExitWithCpuTimeUpdate w = Inr (update_cpu_clock p (VexThreadState_exit p w), False)"
| "run_frame cfg p ExitWithBothClocksUpdate w = Inr (update_clocks p (VexThreadState_exit p w), False)"
| "run_frame cfg p ExitWithRealTimeUpdate w =
     Inr (upd_thr p (upd_timers (Timers_updateRealTimeClock (realTime w))) (VexThreadState_exit p w), False)"

fun run_frames :: "'tl config \<Rightarrow> thread_ptr \<Rightarrow> frame list \<Rightarrow> 'tl world \<Rightarrow> ('tl world \<times> bool) res" where
  "run_frames cfg p [] w = Inr (w, False)"
| "run_frames cfg p (f # fs) w = and_then (run_frame cfg p f w) p fs (run_frames cfg p fs)"

text \<open>A blocked thread that was resumed returns from \<open>onBlockedWaitingInVex\<close>, which takes the key
  again.\<close>

definition continue_thread_code :: "'tl config \<Rightarrow> thread_ptr \<Rightarrow> 'tl world \<Rightarrow> ('tl world \<times> bool) res" where
  "continue_thread_code cfg p w =
     (case blockedIn w p of
        None \<Rightarrow> Inl AssertFailed
      | Some fs \<Rightarrow>
          run_frames cfg p fs (VexThreadState_lockShareResourceAccessKey p (w\<lparr>blockedIn := (blockedIn w)(p := None)\<rparr>)))"

section \<open>Entry points of a thread\<close>

definition VexThreadState_onInvocationPoint :: "int \<Rightarrow> frame list" where
  [vex_defs]: "VexThreadState_onInvocationPoint startingTime =
     [OnVexEntry, AddInvocationPoints, EnsureManager, SuspendCurrent startingTime 0, ExitWithCpuTimeUpdate]"

definition VexThreadState_onYield :: "int \<Rightarrow> frame list" where
  [vex_defs]: "VexThreadState_onYield startingTime =
     [OnVexEntry, AddInvocationPoints, EnsureManager, Yield startingTime, ExitWithCpuTimeUpdate]"

definition VexThreadState_onReplacedTimedWaiting :: "int \<Rightarrow> int \<Rightarrow> frame list" where
  [vex_defs]: "VexThreadState_onReplacedTimedWaiting objectId t =
     [OnVexEntry, ReplacedTimedWaiting objectId t, AssertRunning]"

definition VexThreadState_onReplacedWaiting :: "int \<Rightarrow> bool \<Rightarrow> frame list" where
  [vex_defs]: "VexThreadState_onReplacedWaiting objectId internal =
     [OnVexEntry, ReplacedWaiting objectId internal] @ (if internal then [SetTimeout (-1)] else []) @ [AssertRunning]"

definition VexThreadState_onWrappedWaitingStart :: "int \<Rightarrow> frame list" where
  [vex_defs]: "VexThreadState_onWrappedWaitingStart startingTime =
     [EntryAt startingTime, WrappedWaitingStart startingTime, ExitWithBothClocksUpdate]"

definition VexThreadState_onWrappedWaitingEnd :: "'tl config \<Rightarrow> thread_ptr \<Rightarrow> 'tl world \<Rightarrow> ('tl world \<times> bool) res" where
  "VexThreadState_onWrappedWaitingEnd cfg p w =
     (let w1 = VexThreadState_lockShareResourceAccessKey p (upd_thr p (\<lambda>s. s\<lparr>inVex := True\<rparr>) w);
          s = thr p w1;
          manager = (if controllingManager p w1 = None then previouslyControllingManager (scheduling_of s)
                     else controllingManager p w1);
          startingTime = cpuTime w1 p;
          cpuDifference = startingTime - lastCPUTime (thr_timers s);
          timeBeforeStartingWaiting = ert s + cpuDifference;
          w2 = upd_thr p (\<lambda>s. (upd_sched (Scheduling_setAwakeningFromJoin False) (set_timeout (-1) s))\<lparr>timedOut := True\<rparr>) w1;
          rest = [UpdateWaitingTimeFrom timeBeforeStartingWaiting, ExitWithCpuTimeUpdate]
      in bindE (managerOf manager) (\<lambda>m.
         and_then (ThreadManager_onWrappedWaitingEnd cfg m p startingTime w2) p rest (run_frames cfg p rest)))"

text \<open>Called after \<open>onVexEntry\<close>.\<close>

definition VexThreadState_onWrappedTimedWaitingStart :: "int \<Rightarrow> int \<Rightarrow> int \<Rightarrow> frame list" where
  [vex_defs]: "VexThreadState_onWrappedTimedWaitingStart objectId startingTime t =
     [SetTimedWaiting objectId t, EnsureManager, WrappedTimedWaitingStart startingTime, ExitWithCpuTimeUpdate]"

definition VexThreadState_onWrappedTimedWaitingEnd :: "bool \<Rightarrow> frame list" where
  [vex_defs]: "VexThreadState_onWrappedTimedWaitingEnd withRegistry =
     [EnterLocked, LeaveTimedWaiting withRegistry, EnsureManager, WrappedTimedWaitingEnd, ExitWithRealTimeUpdate]"

definition ThreadEventsBehaviour_onEnd :: "frame list" where
  [vex_defs]: "ThreadEventsBehaviour_onEnd = [OnVexEntry, EnsureManager, ThreadEnd]"

definition ThreadManager_onThreadSpawn ::
  "'tl config \<Rightarrow> bool \<Rightarrow> nat \<Rightarrow> thread_ptr \<Rightarrow> 'tl world \<Rightarrow> ('tl world \<times> bool) res" where
  "ThreadManager_onThreadSpawn cfg named_main m p w =
     (let w1 = upd_thr p VexThreadState_setRegistering (update_cpu_clock p w)
      in bindE (ThreadRegistry_add named_main p (cells w1, threadRegistry w1)) (\<lambda>(c, r).
         let w2 = upd_thr p (upd_sched (Scheduling_setThreadCurrentlyControllingManager (Some m)))
                    (w1\<lparr>cells := c, threadRegistry := r\<rparr>);
             w3 = VexThreadState_lockShareResourceAccessKey p w2
         in and_then (ThreadManager_suspendCurrentThread cfg m p 0 SUSPEND_OPT_DONT_UPDATE_THREAD_TIME w3) p
              [ExitWithCpuTimeUpdate] (run_frames cfg p [ExitWithCpuTimeUpdate])))"

section \<open>Answers to a signal of the scheduler\<close>

text \<open>\<open>stillBlocked\<close> and \<open>nowBlocked\<close> are the answers of the native waiting criteria. The second
  result is the intention that the handler notifies, if it notifies one.\<close>

definition VexThreadState_onSignalledFromScheduler ::
  "'tl config \<Rightarrow> bool \<Rightarrow> bool \<Rightarrow> thread_ptr \<Rightarrow> 'tl world \<Rightarrow> ('tl world \<times> suspend_flag option) res" where
  "VexThreadState_onSignalledFromScheduler cfg stillBlocked nowBlocked p w =
     (let startingHandlerTime = cpuTime w p; realHandlerTime = realTime w; s = thr p w in
      if isWaitingRealCodeToCompleteAfterModelSimulation s
      then if \<not> inVex s \<and> startingHandlerTime - lastCPUTime (thr_timers s) < 200000
           then Inr (w, Some TO_BE_DISREGARDED)
           else Inr (upd_thr p (upd_timers (Timers_setLastCPUTime startingHandlerTime)) w, Some TO_KEEP_ON_RUNNING)
      else
      let inSystemCall = (currentState s = IN_SYSTEM_CALL);
          w1 = (if inSystemCall
                then upd_thr p (upd_timers (Timers_setLastCPUTime
                       (lastCPUTime (thr_timers s) - (realHandlerTime - lastRealTime (thr_timers s))))) w
                else w)
      in
      if isNativeWaiting (thr p w1)
      then if \<not> stillBlocked
           then bindE (managerOf (if controllingManager p w1 = None
                                  then previouslyControllingManager (scheduling_of (thr p w1))
                                  else controllingManager p w1)) (\<lambda>m.
                bindE (and_then (ThreadManager_suspendLooseCurrentThread cfg m p startingHandlerTime w1) p
                         [UpdateCpuTimeClock] (run_frames cfg p [UpdateCpuTimeClock])) (\<lambda>(w2, _).
                Inr (w2, None)))
           else Inr (upd_thr p (upd_sched (\<lambda>sc. sc\<lparr>currentlyPolledForWhetherItIsNativeWaiting := False\<rparr>)) w1, None)
      else case controllingManager p w1 of
        None \<Rightarrow> Inr (w1, None)
      | Some m \<Rightarrow>
          bindE (ThreadManager_setCurrentThreadVT cfg m startingHandlerTime p w1) (\<lambda>w2.
          let clocks = (if inSystemCall then update_clocks p else update_cpu_clock p) in
          if \<not> inSystemCall \<and> \<not> inVex (thr p w2) \<and> \<not> forceSuspend (scheduling_of (thr p w2)) \<and> nowBlocked
          then let w3 = ThreadManager_setNativeWaiting p w2;
                   w4 = upd_thr p (upd_timers (\<lambda>t. Timers_updateLastResumedTo realHandlerTime
                          (fst (Timers_getAndResetLocalTime (Timers_setResumedLastAt (estimatedRealTime t) t))))) w3
               in Inr (clocks w4, Some TO_BE_DISREGARDED)
          else bindE (ThreadManager_shouldCurrentThreadSuspend m p w2) (\<lambda>(w3, suspend).
               if suspend
               then Inr (VexThreadState_onBlocked p
                           (SetRunning # (if inSystemCall then [SetInSystemCall] else []) @
                            [if inSystemCall then UpdateClocks else UpdateCpuTimeClock])
                           (upd_thr p VexThreadState_setSuspended w3), Some TO_BE_SUSPENDED)
               else Inr (clocks (upd_thr p (upd_timers (Timers_updateLastResumedTo realHandlerTime)) w3),
                         Some TO_KEEP_ON_RUNNING))))"

section \<open>The scheduler: suspending the running thread\<close>

definition ThreadManager_onIntentionToBeDisregarded :: "'tl config \<Rightarrow> nat \<Rightarrow> thread_ptr \<Rightarrow> 'tl world \<Rightarrow> 'tl world" where
  "ThreadManager_onIntentionToBeDisregarded cfg m p w =
     (let w1 = ThreadManager_unsetCurrentThreadFromRunningThread m p w
      in if minimizeTimeslotOnNw cfg
         then upd_mgr m (\<lambda>g. let g1 = g\<lparr>numberOfNativeWaitingThreads := numberOfNativeWaitingThreads g + 1\<rparr>
                            in if numberOfNativeWaitingThreads g1 > 0
                               then ThreadManager_minimizeSchedulerTimeslot g1 else g1) w1
         else w1)"

definition ThreadManager_onIntentionToKeepOnRunning :: "nat \<Rightarrow> thread_ptr \<Rightarrow> 'tl world \<Rightarrow> 'tl world" where
  "ThreadManager_onIntentionToKeepOnRunning m p w =
     upd_mgr m (\<lambda>g. g\<lparr>runningThread := Some p,
        decreaseSchedulerSleepingTimeBy := decreaseSchedulerSleepingTimeBy g + schedulerTimeslot g div 2\<rparr>)
       (upd_thr p (upd_sched (Scheduling_setThreadCurrentlyControllingManager (Some m))) w)"

text \<open>Without an answer the manager waits forever for the intention of the thread.\<close>

definition ThreadManager_isSignalledThreadGoingToSuspend ::
  "'tl config \<Rightarrow> nat \<Rightarrow> thread_ptr \<Rightarrow> 'tl world \<times> suspend_flag option \<Rightarrow> ('tl world \<times> bool) res" where
  "ThreadManager_isSignalledThreadGoingToSuspend cfg m p answer =
     (let w1 = upd_mgr m (\<lambda>g. g\<lparr>posixSignalsSent := posixSignalsSent g + 1\<rparr>) (fst answer)
      in case snd answer of
           None \<Rightarrow> Inl Deadlock
         | Some i \<Rightarrow>
             if i = TO_BE_SUSPENDED then bindE (ThreadManager_setSuspended m p w1) (\<lambda>w2. Inr (w2, True))
             else if i = TO_BE_DISREGARDED then Inr (ThreadManager_onIntentionToBeDisregarded cfg m p w1, True)
             else Inr (ThreadManager_onIntentionToKeepOnRunning m p w1, False))"

definition ThreadManager_isSignalledThreadStillRunning ::
  "nat \<Rightarrow> 'tl world \<times> suspend_flag option \<Rightarrow> ('tl world \<times> bool) res" where
  "ThreadManager_isSignalledThreadStillRunning m answer =
     (let w1 = upd_mgr m (\<lambda>g. g\<lparr>posixSignalsSent := posixSignalsSent g + 1\<rparr>) (fst answer)
      in case snd answer of
           None \<Rightarrow> Inl Deadlock
         | Some i \<Rightarrow> Inr (w1, i \<noteq> TO_BE_DISREGARDED))"

text \<open>The inputs of one round of the scheduler: whether the key of the running thread is obtained within
  three seconds, whether the signal can be sent, and the answers of the native waiting criteria.\<close>

record round_inputs =
  keyObtained :: bool
  signalSent :: bool
  stillBlocked :: bool
  nowBlocked :: bool

definition signal_handler :: "'tl config \<Rightarrow> round_inputs \<Rightarrow> thread_ptr \<Rightarrow> 'tl world \<Rightarrow> ('tl world \<times> suspend_flag option) res" where
  "signal_handler cfg inp = VexThreadState_onSignalledFromScheduler cfg (stillBlocked inp) (nowBlocked inp)"

definition ThreadManager_suspendThread_locked ::
  "'tl config \<Rightarrow> round_inputs \<Rightarrow> nat \<Rightarrow> thread_ptr \<Rightarrow> 'tl world \<Rightarrow> ('tl world \<times> bool) res" where
  "ThreadManager_suspendThread_locked cfg inp m p w =
     (if ThreadManager_getRunningThread m w = Some p
      then if signalSent inp
           then bindE (signal_handler cfg inp p w) (ThreadManager_isSignalledThreadGoingToSuspend cfg m p)
           else bindE (on_queue (\<lambda>st. ThreadQueue_erase st p) w) (\<lambda>w1. Inr (w1, False))
      else Inr (w, True))"

definition ThreadManager_suspendThread ::
  "'tl config \<Rightarrow> round_inputs \<Rightarrow> nat \<Rightarrow> thread_ptr \<Rightarrow> 'tl world \<Rightarrow> ('tl world \<times> bool) res" where
  "ThreadManager_suspendThread cfg inp m p w =
     (if keyObtained inp then ThreadManager_suspendThread_locked cfg inp m p w
      else Inr (upd_thr p VexThreadState_setNativeWaiting
                 (ThreadManager_unsetCurrentThreadFromRunningThread m p w), True))"

section \<open>The scheduler: leaps in virtual time\<close>

definition ThreadManager_isValidToLeapInVirtualTimeTo ::
  "'tl config \<Rightarrow> nat \<Rightarrow> thread_ptr \<Rightarrow> 'tl world \<Rightarrow> ('tl world \<times> bool) res" where
  "ThreadManager_isValidToLeapInVirtualTimeTo cfg m p w =
     (let remainingTime = ctrl_howFarAhead (controller cfg) m (virtualTimeline w) (thr p w);
          st = states (cells w);
          ks = iterationOrder cfg (threadRegistry w);
          forget = upd_mgr m (\<lambda>g. g\<lparr>lastTotalThreadERT := 0\<rparr>)
      in
      if waitingInRealTime (thr p w) then Inr (w, False)
      else if remainingTime < 0 then Inr (w, True)
      else if pendingNotifications (managers w m) \<noteq> 0 then Inr (forget w, False)
      else bindE (ask_registry (ThreadRegistry_areAnyOtherThreadsActiveInFormerTime ks st p (Some remainingTime)) w) (\<lambda>(w1, a).
        case a of
          AT_LEAST_ONE_ALIVE \<Rightarrow> Inr (forget w1, False)
        | NONE_ALIVE \<Rightarrow> Inr (w1, True)
        | MAYBE_ONE_ALIVE \<Rightarrow>
            if lastTotalThreadERT (managers w1 m) = 0
            then bindE (ask_registry (ThreadRegistry_getSummedErtOfAllThreads ks st) w1) (\<lambda>(w2, sum).
                 Inr (upd_mgr m (\<lambda>g. g\<lparr>lastTotalThreadERT := sum, lastGlobalVirtualTime := realTime w2\<rparr>) w2, False))
            else if realTime w1 - lastGlobalVirtualTime (managers w1 m) < 200000000 then Inr (w1, False)
            else bindE (ask_registry (ThreadRegistry_getSummedErtOfAllThreads ks st) w1) (\<lambda>(w2, sum).
                 if sum = lastTotalThreadERT (managers w2 m)
                 then bindE (ask_registry (ThreadRegistry_areAllNativeWaitingThreadsBlockedAccordingToSystemState ks
                               (isThreadSystemStateBlocked cfg (realTime w2)) st p) w2) (\<lambda>(w3, blocked).
                      Inr (forget w3, blocked))
                 else Inr (forget w2, False))))"

section \<open>The scheduler: resuming a thread\<close>

text \<open>\<open>waitForThreadToBlock\<close> waits for a thread that is not blocked, unless it was awakened.\<close>

definition ThreadManager_resumeThread :: "'tl config \<Rightarrow> nat \<Rightarrow> thread_ptr \<Rightarrow> 'tl world \<Rightarrow> 'tl world res" where
  "ThreadManager_resumeThread cfg m p w =
     bindE (assertE Deadlock (awaken (scheduling_of (thr p w)) \<or> blockedIn w p \<noteq> None)) (\<lambda>_.
     let w1 = upd_thr p (upd_sched (Scheduling_onThreadResumeByManager m)) w
     in bindE (update_timestamp cfg m (ResumedLast (realTime w1)) p w1) (\<lambda>w2.
        let w3 = upd_thr p (upd_sched (Scheduling_setThreadCurrentlyControllingManager (Some m))) w2
        in Inr (upd_mgr m (\<lambda>g. g\<lparr>currentTimeScalingFactor := virtualTimeSpeedup (thr_timers (thr p w3))\<rparr>) w3)))"

text \<open>The signal that is sent to a thread with a timed out I/O operation only prints.\<close>

definition ThreadManager_interruptTimedOutIoThread ::
  "'tl config \<Rightarrow> nat \<Rightarrow> thread_ptr \<Rightarrow> 'tl world \<Rightarrow> 'tl world res" where
  "ThreadManager_interruptTimedOutIoThread cfg m p w =
     bindE (ThreadManager_isValidToLeapInVirtualTimeTo cfg m p w) (\<lambda>(w1, valid).
     if valid
     then bindE (commit_progress cfg m TimedOutIo p w1) (\<lambda>w2. Inr (upd_thr p (\<lambda>s. s\<lparr>timedOut := True\<rparr>) w2))
     else ThreadManager_pushIntoRunnableQueue p w1)"

definition ThreadManager_interruptTimedWaitingThread ::
  "'tl config \<Rightarrow> nat \<Rightarrow> thread_ptr \<Rightarrow> 'tl world \<Rightarrow> 'tl world res" where
  "ThreadManager_interruptTimedWaitingThread cfg m p w =
     bindE (ThreadManager_isValidToLeapInVirtualTimeTo cfg m p w) (\<lambda>(w1, valid).
     if valid
     then bindE (commit_progress cfg m TimedWaiting p w1) (\<lambda>w2.
          bindE (ThreadManager_onAnyReplacedWaitingInterrupt cfg m p 0
                   (upd_mgr m (\<lambda>g. g\<lparr>timedOutsSucceeded := timedOutsSucceeded g + 1\<rparr>) w2)) (\<lambda>w3.
          ThreadManager_resumeThread cfg m p (upd_thr p (\<lambda>s. s\<lparr>timedOut := True\<rparr>) w3)))
     else ThreadManager_pushIntoRunnableQueue p
            (upd_mgr m (\<lambda>g. g\<lparr>timedOutsFailed := timedOutsFailed g + 1\<rparr>) (upd_thr p VexThreadState_setCustom3 w1)))"

definition ThreadManager_handleIOPerformingThread ::
  "'tl config \<Rightarrow> nat \<Rightarrow> thread_ptr \<Rightarrow> 'tl world \<Rightarrow> 'tl world res" where
  "ThreadManager_handleIOPerformingThread cfg m p w =
     (if inIoPredictionPhase (thr p w)
      then if \<not> ioFinishedBeforeLogging (ioHandler (thr p w))
           then if VexThreadState_isIoPredictionStillValid (realTime w) (thr p w)
                then Inr (upd_mgr m (\<lambda>g. g\<lparr>forceMinimumTimeslotSelection := True,
                            timesOfMinimumTimeslotForcing := timesOfMinimumTimeslotForcing g + 1\<rparr>)
                       (upd_thr p VexThreadState_setInIoStale w))
                else bindE (ThreadQueue_invalidateExpiredIoPredictions (realTime w) (states (cells w), runnableThreads w))
                       (\<lambda>(st, q). Inr (w\<lparr>cells := (cells w)\<lparr>states := st\<rparr>, runnableThreads := q\<rparr>))
           else Inr w
      else if virtualTimeSpeedup (thr_timers (thr p w)) = 1
           then if timeout (thr_timers (thr p w)) = -1 then Inl AssertFailed
                else ThreadManager_interruptTimedOutIoThread cfg m p w
           else Inr w)"

text \<open>\<open>inIo\<close> of the thread state.\<close>

definition inIo :: "vex_thread \<Rightarrow> bool" where
  "inIo s = (currentState s = IN_IO \<or> currentState s = LEARNING_IO)"

definition ThreadManager_pollThreadToCheckIfActuallyRunning ::
  "'tl config \<Rightarrow> round_inputs \<Rightarrow> nat \<Rightarrow> thread_ptr \<Rightarrow> 'tl world \<Rightarrow> 'tl world res" where
  "ThreadManager_pollThreadToCheckIfActuallyRunning cfg inp m p w =
     (if signalSent inp
      then bindE (bindE (signal_handler cfg inp p w) (ThreadManager_isSignalledThreadStillRunning m)) (\<lambda>(w1, stillRunning).
           if \<not> stillRunning
           then bindE (ThreadQueue_setThreadToNextBiggestErt p (states (cells w1), runnableThreads w1))
                  (\<lambda>(st, q). Inr (w1\<lparr>cells := (cells w1)\<lparr>states := st\<rparr>, runnableThreads := q\<rparr>))
           else Inr w1)
      else on_queue (\<lambda>st. ThreadQueue_erase st p) w)"

section \<open>The scheduler: threads inside a performance model\<close>

text \<open>One resumption of the model of a thread for a given execution time is a parameter: its result is
  the thread, the execution time left and whether the simulation is finished.\<close>

type_synonym model_run = "vex_thread \<Rightarrow> int \<Rightarrow> vex_thread \<times> int \<times> bool"

definition ThreadManager_hasResumedModelSimulationRunToCompletion ::
  "'tl config \<Rightarrow> model_run \<Rightarrow> nat \<Rightarrow> thread_ptr \<Rightarrow> int \<Rightarrow> 'tl world \<Rightarrow> ('tl world \<times> bool) res" where
  "ThreadManager_hasResumedModelSimulationRunToCompletion cfg run m p totalExecutionTime w =
     (let (s, _, finished) = run (upd_sched (Scheduling_setAwaken False) (thr p w)) totalExecutionTime
      in bindE (commit_progress cfg m ModelSimulation p (upd_thr p (\<lambda>_. s) w)) (\<lambda>w1. Inr (w1, finished)))"

text \<open>\<open>notifyModelSimulationEnd\<close> clears the flag on which the thread blocks in
  \<open>blockUntilModelSimulationEnd\<close>.\<close>

definition ThreadManager_simulateModel ::
  "'tl config \<Rightarrow> model_run \<Rightarrow> nat \<Rightarrow> thread_ptr \<Rightarrow> int \<Rightarrow> 'tl world \<Rightarrow> 'tl world res" where
  "ThreadManager_simulateModel cfg run m p totalExecutionTime w =
     bindE (ThreadManager_hasResumedModelSimulationRunToCompletion cfg run m p totalExecutionTime w) (\<lambda>(w1, finished).
     if finished
     then bindE (ThreadManager_pushIntoRunnableQueue p
                   (upd_thr p (VexThreadState_waitForRealCodeToComplete \<circ>
                               upd_timers Timers_updateCpuTimeAddingSimulatedVirtualTime) w1)) (\<lambda>w2.
          Inr (upd_thr p (upd_sched (\<lambda>sc. sc\<lparr>simulatingModel := False\<rparr>)) w2))
     else if isActiveInModel (thr p w1) then ThreadManager_pushIntoRunnableQueue p w1 else Inr w1)"

definition ThreadManager_setInModelSimulation ::
  "'tl config \<Rightarrow> model_run \<Rightarrow> nat \<Rightarrow> thread_ptr \<Rightarrow> bool \<Rightarrow> 'tl world \<Rightarrow> 'tl world res" where
  "ThreadManager_setInModelSimulation cfg run m p afterModelSimulation w =
     (let finish = (\<lambda>w1. bindE (ThreadManager_pushIntoRunnableQueue p
                          (ThreadManager_unsetCurrentThreadFromRunningThread m p w1)) (\<lambda>w2.
                       Inr (ThreadManager_unconditionalWakeup m w2)))
      in if afterModelSimulation
         then bindE (ThreadManager_locklessUpdateTimeBy cfg m 0 p w) (\<lambda>w1.
              finish (upd_thr p VexThreadState_waitForRealCodeToComplete
                (w1\<lparr>cells := (cells w1)\<lparr>currentThreadState := (currentThreadState (cells w1))(p := None)\<rparr>\<rparr>)))
         else let s = thr p w;
                  remainingTimeslice = schedulerTimeslot (managers w m) - (ert s - lastTimeInHandler (thr_timers s))
              in if remainingTimeslice > 0 \<and> timeout (thr_timers s) \<le> 0
                 then bindE (ThreadManager_simulateModel cfg run m p remainingTimeslice
                               (ThreadManager_unsetCurrentThreadFromRunningThread m p w)) (\<lambda>w1.
                      Inr (ThreadManager_unconditionalWakeup m w1))
                 else finish w)"

definition ThreadManager_resumeModelSimulation ::
  "'tl config \<Rightarrow> model_run \<Rightarrow> nat \<Rightarrow> thread_ptr \<Rightarrow> 'tl world \<Rightarrow> 'tl world res" where
  "ThreadManager_resumeModelSimulation cfg run m p w =
     (let simulate = (\<lambda>w1.
            let totalExecutionTime = trunc_int (f64 (f64 (12/10) * f64 (of_int (schedulerTimeslot (managers w1 m)))));
                w2 = upd_thr p (upd_sched (Scheduling_onThreadResumeByManager m \<circ>
                                           Scheduling_setThreadCurrentlyControllingManager (Some m))) w1
            in bindE (update_timestamp cfg m (ResumedLast (realTime w2)) p w2) (\<lambda>w3.
               bindE (ThreadManager_simulateModel cfg run m p totalExecutionTime w3) (\<lambda>w4.
               Inr (if isActiveInModel (thr p w4) \<and> \<not> isModelTimedWaiting (thr p w4)
                    then upd_mgr m ThreadManager_afterModelSimulation w4 else w4))))
      in if isModelTimedWaiting (thr p w)
         then bindE (ThreadManager_isValidToLeapInVirtualTimeTo cfg m p w) (\<lambda>(w1, valid).
              if \<not> valid then ThreadManager_pushIntoRunnableQueue p w1
              else bindE (commit_progress cfg m TimedWaiting p w1) (\<lambda>w2.
                   simulate (upd_thr p (set_timeout (-1)) w2)))
         else bindE (update_timestamp cfg m Resuming p w) simulate)"

section \<open>The scheduler: one round\<close>

definition ThreadManager_continueLocked ::
  "'tl config \<Rightarrow> model_run \<Rightarrow> round_inputs \<Rightarrow> nat \<Rightarrow> thread_ptr \<Rightarrow> 'tl world \<Rightarrow> 'tl world res" where
  "ThreadManager_continueLocked cfg run inp m p w =
     (let s = thr p w in
      if isSuspended s
      then if timedOut s \<or> (timeout (thr_timers s) \<noteq> 0 \<and> \<not> afterInterruptedTimedParking s)
           then ThreadManager_resumeThread cfg m p w
           else ThreadManager_pushIntoRunnableQueue p w
      else if inIo s then ThreadManager_handleIOPerformingThread cfg m p w
      else if isTimedWaiting s then ThreadManager_interruptTimedWaitingThread cfg m p w
      else if isSimulatingModel s then ThreadManager_resumeModelSimulation cfg run m p w
      else if isWaitingRealCodeToCompleteAfterModelSimulation s
      then ThreadManager_pollThreadToCheckIfActuallyRunning cfg inp m p w
      else if isRunning s then Inl AssertFailed
      else Inr w)"

fun continueThread_fuel ::
  "nat \<Rightarrow> 'tl config \<Rightarrow> model_run \<Rightarrow> round_inputs \<Rightarrow> nat \<Rightarrow> thread_ptr option \<Rightarrow> 'tl world \<Rightarrow> 'tl world res" where
  "continueThread_fuel 0 cfg run inp m state w = Inl StackOverflow"
| "continueThread_fuel (Suc n) cfg run inp m None w = Inr (upd_mgr m ThreadManager_limitNextTimeslice w)"
| "continueThread_fuel (Suc n) cfg run inp m (Some p) w =
     (let w1 = VexThreadState_lockShareResourceAccessKey p w
      in bindE (ask_queue (\<lambda>st. ThreadQueue_getNextIfEqualsElseReturnTop st (Some p) (Some m)) w1) (\<lambda>(w2, nxt).
         if nxt \<noteq> Some p then continueThread_fuel n cfg run inp m nxt w2
         else ThreadManager_continueLocked cfg run inp m p w2))"

definition ThreadManager_continueThread ::
  "'tl config \<Rightarrow> model_run \<Rightarrow> round_inputs \<Rightarrow> nat \<Rightarrow> thread_ptr option \<Rightarrow> 'tl world \<Rightarrow> 'tl world res" where
  "ThreadManager_continueThread cfg = continueThread_fuel (stackDepth cfg) cfg"

definition ThreadManager_suspendRunningResumeNext ::
  "'tl config \<Rightarrow> model_run \<Rightarrow> round_inputs \<Rightarrow> nat \<Rightarrow> 'tl world \<Rightarrow> 'tl world res" where
  "ThreadManager_suspendRunningResumeNext cfg run inp m w =
     bindE (case ThreadManager_getRunningThread m w of
              None \<Rightarrow> Inr (w, True)
            | Some p \<Rightarrow> ThreadManager_suspendThread cfg inp m p w) (\<lambda>(w1, go).
     if go then bindE (ask_queue (\<lambda>_. ThreadQueue_top) w1) (\<lambda>(w2, t). ThreadManager_continueThread cfg run inp m t w2)
     else Inr w1)"

definition ThreadManager_noThreadsToSchedule :: "nat \<Rightarrow> 'tl world \<Rightarrow> ('tl world \<times> bool) res" where
  "ThreadManager_noThreadsToSchedule m w =
     bindE (ask_queue (\<lambda>_. ThreadQueue_empty) w) (\<lambda>(w1, e).
     Inr (w1, (e \<and> runningThread (managers w1 m) = None) \<or> freeze (managers w1 m) \<noteq> 0))"

text \<open>
  The time for which \<open>doControllerWait\<close> waits in one turn of its inner loop. \<open>already\<close> is the time it
  has waited in earlier turns, \<open>previous\<close> the scaling factor of the previous turn, \<open>remaining\<close> the
  result of the previous turn. \<open>waits\<close> says whether it goes to sleep: not when the time is over, when
  the manager stops, or when a wake-up arrived since the last sleep.
\<close>

definition doControllerWait_turn ::
  "nat \<Rightarrow> int \<Rightarrow> rat \<Rightarrow> int \<Rightarrow> 'tl world \<Rightarrow> ('tl world \<times> int \<times> rat \<times> bool) res" where
  "doControllerWait_turn m already previous remaining w =
     (let timeWaitingFactor = ThreadManager_getRunningThreadScalingFactor m w
      in bindE (assertE AssertFailed (timeWaitingFactor > 0)) (\<lambda>_.
         let g = managers w m;
             nsecAlreadyWaited = already + decreaseSchedulerSleepingTimeBy g;
             total = (if forceMinimumTimeslotSelection g then 1000000
                      else ll_of_float (f64 (f32 (f32 (of_int (remaining - nsecAlreadyWaited)) * previous) / timeWaitingFactor)));
             w1 = upd_mgr m (\<lambda>g. g\<lparr>decreaseSchedulerSleepingTimeBy := 0, timeWaitingFactorChanged := False\<rparr>) w;
             waits = (total > 0 \<and> manager_running g \<and> \<not> schedulerWaitingForTimeslotExpiry g)
         in Inr (if total > 0
                 then upd_mgr m (\<lambda>g. g\<lparr>schedulerWaitingForTimeslotExpiry := waits, condSignalled := False\<rparr>) w1
                 else w1, total, timeWaitingFactor, waits)))"

text \<open>Waking up from the sleep, by the end of the timeslot or by a signal.\<close>

definition doControllerWait_wake :: "nat \<Rightarrow> 'tl world \<Rightarrow> 'tl world" where
  "doControllerWait_wake m =
     upd_mgr m (\<lambda>g. g\<lparr>schedulerWaitingForTimeslotExpiry := False, condSignalled := False\<rparr>)"

text \<open>What it does once, and at the start of each timeslot.\<close>

definition doControllerWait_begin :: "nat \<Rightarrow> 'tl world \<Rightarrow> 'tl world" where
  "doControllerWait_begin m = upd_mgr m ThreadManager_clearPendingNotifications"

definition doControllerWait_slot :: "nat \<Rightarrow> 'tl world \<Rightarrow> 'tl world res" where
  "doControllerWait_slot m w =
     bindE (assertE AssertFailed (schedulerTimeslot (managers w m) > 0)) (\<lambda>_.
     Inr (upd_mgr m (\<lambda>g. g\<lparr>forceMinimumTimeslotSelection := False\<rparr>) w))"


end
