(* ===== verification/Vex_Scheduler.thy ===== *)
theory Vex_Scheduler
  imports Vex_Manager
begin

text \<open>
  Correctness of the scheduler. \<open>look p w\<close> is what the scheduling of a thread \<open>p\<close> depends on: its
  state code, its flags and managers, whether it is queued, the code that it still has to run if it is
  blocked, and the managers that have it as running thread. Every operation of \<open>Vex_Manager\<close> that acts on
  a thread is shown to change \<open>look\<close> of this thread in one way and to leave that of all others (\<open>acts\<close>).
  The code of a thread is typed: a \<open>mode\<close> of the thread before and after each frame.
\<close>

section \<open>What the scheduling of a thread depends on\<close>

record sched_view =
  c_state :: Code
  c_awaken :: bool
  c_manager :: "nat option"
  c_previous :: "nat option"
  c_timeout :: int
  c_realWait :: bool
  c_queued :: bool
  c_blocked :: "frame list option"
  c_running :: "nat set"

definition queued :: "'tl world \<Rightarrow> thread_ptr list" where
  "queued w = threadsQueue (runnableThreads w)"

definition look :: "thread_ptr \<Rightarrow> 'tl world \<Rightarrow> sched_view" where
  "look p w =
     (let s = thr p w in
      \<lparr>c_state = currentState s, c_awaken = awaken (scheduling_of s),
       c_manager = threadCurrentlyControllingManager (scheduling_of s),
       c_previous = previouslyControllingManager (scheduling_of s),
       c_timeout = timeout (thr_timers s), c_realWait = waitingInRealTime s,
       c_queued = (p \<in> set (queued w)), c_blocked = blockedIn w p,
       c_running = {m. runningThread (managers w m) = Some p}\<rparr>)"

definition does :: "'a res \<Rightarrow> ('a \<Rightarrow> bool) \<Rightarrow> bool" where
  "does r P \<longleftrightarrow> (\<exists>x. r = Inr x \<and> P x)"

lemma does_Inr [simp]: "does (Inr x) P \<longleftrightarrow> P x"
  by (simp add: does_def)

lemma does_bind: "does r P \<Longrightarrow> (\<And>x. P x \<Longrightarrow> does (f x) Q) \<Longrightarrow> does (bindE r f) Q"
  by (auto simp: does_def)

lemma does_mono: "does r P \<Longrightarrow> (\<And>x. P x \<Longrightarrow> Q x) \<Longrightarrow> does r Q"
  by (auto simp: does_def)

lemma does_bindI: "does r (\<lambda>x. does (f x) Q) \<Longrightarrow> does (bindE r f) Q"
  by (auto simp: does_def)

text \<open>The shared state is free and the queue is a heap of distinct threads; \<open>ready\<close> concerns the
  timeline.\<close>

definition shared_ok :: "('tl \<Rightarrow> bool) \<Rightarrow> 'tl world \<Rightarrow> bool" where
  "shared_ok ready w \<longleftrightarrow> tq_ok (states (cells w)) (runnableThreads w) \<and> \<not> registry_mutex (threadRegistry w) \<and>
     ready (virtualTimeline w)"

definition acts :: "('tl \<Rightarrow> bool) \<Rightarrow> thread_ptr \<Rightarrow> 'tl world \<Rightarrow> 'tl world \<Rightarrow> (sched_view \<Rightarrow> sched_view) \<Rightarrow> bool" where
  "acts ready p w w' g \<longleftrightarrow> shared_ok ready w' \<and> (\<forall>q. look q w' = (if q = p then g (look p w) else look q w))"

lemma acts_refl: "shared_ok ready w \<Longrightarrow> acts ready p w w (\<lambda>t. t)"
  by (simp add: acts_def)

lemma acts_trans: "acts ready p w w1 g \<Longrightarrow> acts ready p w1 w2 h \<Longrightarrow> acts ready p w w2 (\<lambda>t. h (g t))"
  by (simp add: acts_def)

lemma acts_ok: "acts ready p w w' g \<Longrightarrow> shared_ok ready w'"
  by (simp add: acts_def)

lemma acts_look: "acts ready p w w' g \<Longrightarrow> look p w' = g (look p w)"
  by (simp add: acts_def)

lemma acts_other: "acts ready p w w' g \<Longrightarrow> q \<noteq> p \<Longrightarrow> look q w' = look q w"
  by (simp add: acts_def)

lemma acts_cong: "acts ready p w w' g \<Longrightarrow> g (look p w) = h (look p w) \<Longrightarrow> acts ready p w w' h"
  by (auto simp: acts_def)

lemma look_state [simp]: "c_state (look p w) = currentState (thr p w)"
  "c_awaken (look p w) = awaken (scheduling_of (thr p w))"
  "c_manager (look p w) = controllingManager p w"
  "c_previous (look p w) = previouslyControllingManager (scheduling_of (thr p w))"
  "c_timeout (look p w) = timeout (thr_timers (thr p w))"
  "c_realWait (look p w) = waitingInRealTime (thr p w)"
  "c_queued (look p w) = (p \<in> set (queued w))"
  "c_blocked (look p w) = blockedIn w p"
  "c_running (look p w) = {m. runningThread (managers w m) = Some p}"
  by (simp_all add: look_def controllingManager_def Let_def)

section \<open>Updates of a thread\<close>

lemma thr_upd_thr [simp]: "thr q (upd_thr p f w) = (if q = p then f (thr p w) else thr q w)"
  by (simp add: thr_def upd_thr_def upd_state_def)

lemma upd_thr_fields [simp]:
  "runnableThreads (upd_thr p f w) = runnableThreads w" "managers (upd_thr p f w) = managers w"
  "virtualTimeline (upd_thr p f w) = virtualTimeline w" "threadRegistry (upd_thr p f w) = threadRegistry w"
  "objectRegistry (upd_thr p f w) = objectRegistry w" "blockedIn (upd_thr p f w) = blockedIn w"
  "cpuTime (upd_thr p f w) = cpuTime w" "realTime (upd_thr p f w) = realTime w" "queued (upd_thr p f w) = queued w"
  by (simp_all add: upd_thr_def queued_def)

lemma upd_mgr_fields [simp]:
  "runnableThreads (upd_mgr m f w) = runnableThreads w" "cells (upd_mgr m f w) = cells w"
  "virtualTimeline (upd_mgr m f w) = virtualTimeline w" "threadRegistry (upd_mgr m f w) = threadRegistry w"
  "objectRegistry (upd_mgr m f w) = objectRegistry w" "blockedIn (upd_mgr m f w) = blockedIn w"
  "cpuTime (upd_mgr m f w) = cpuTime w" "realTime (upd_mgr m f w) = realTime w" "queued (upd_mgr m f w) = queued w"
  "thr p (upd_mgr m f w) = thr p w" "controllingManager p (upd_mgr m f w) = controllingManager p w"
  "managers (upd_mgr m f w) = (managers w)(m := f (managers w m))"
  by (simp_all add: upd_mgr_def queued_def thr_def controllingManager_def)

lemma tq_ok_cong:
  "tq_ok st q \<Longrightarrow> (\<And>p. p \<in> set (threadsQueue q) \<Longrightarrow> ert (st' p) = ert (st p)) \<Longrightarrow> tq_ok st' q"
  using is_heap_cong [of "threadsQueue q" st' st] by (auto simp: tq_ok_def)

lemma states_upd_thr: "states (cells (upd_thr p f w)) = (states (cells w))(p := f (thr p w))"
  by (simp add: upd_thr_def upd_state_def thr_def)

lemma shared_ok_upd_thr:
  "shared_ok ready w \<Longrightarrow> p \<notin> set (queued w) \<or> ert (f (thr p w)) = ert (thr p w) \<Longrightarrow> shared_ok ready (upd_thr p f w)"
  unfolding shared_ok_def states_upd_thr
  by (auto simp: thr_def queued_def intro: tq_ok_cong)

text \<open>An update of the thread state that the scheduling does not see.\<close>

definition unseen :: "(vex_thread \<Rightarrow> vex_thread) \<Rightarrow> bool" where
  "unseen f \<longleftrightarrow> (\<forall>s. currentState (f s) = currentState s \<and> awaken (scheduling_of (f s)) = awaken (scheduling_of s) \<and>
     threadCurrentlyControllingManager (scheduling_of (f s)) = threadCurrentlyControllingManager (scheduling_of s) \<and>
     previouslyControllingManager (scheduling_of (f s)) = previouslyControllingManager (scheduling_of s) \<and>
     timeout (thr_timers (f s)) = timeout (thr_timers s) \<and> waitingInRealTime (f s) = waitingInRealTime s)"

definition see :: "vex_thread \<Rightarrow> sched_view \<Rightarrow> sched_view" where
  "see s t = t\<lparr>c_state := currentState s, c_awaken := awaken (scheduling_of s),
     c_manager := threadCurrentlyControllingManager (scheduling_of s),
     c_previous := previouslyControllingManager (scheduling_of s),
     c_timeout := timeout (thr_timers s), c_realWait := waitingInRealTime s\<rparr>"

lemma acts_upd_thr:
  "shared_ok ready w \<Longrightarrow> p \<notin> set (queued w) \<or> ert (f (thr p w)) = ert (thr p w) \<Longrightarrow>
   acts ready p w (upd_thr p f w) (see (f (thr p w)))"
  using shared_ok_upd_thr [of ready w p f] by (auto simp: acts_def look_def Let_def see_def)

lemma acts_unseen:
  "shared_ok ready w \<Longrightarrow> unseen f \<Longrightarrow> p \<notin> set (queued w) \<or> ert (f (thr p w)) = ert (thr p w) \<Longrightarrow>
   acts ready p w (upd_thr p f w) (\<lambda>t. t)"
  using acts_upd_thr [of ready w p f] by (rule acts_cong) (auto simp: see_def look_def unseen_def Let_def)

lemma acts_upd_mgr:
  "shared_ok ready w \<Longrightarrow> (\<And>g. runningThread (f g) = runningThread g) \<Longrightarrow> acts ready p w (upd_mgr m f w) (\<lambda>t. t)"
  by (auto simp: acts_def look_def Let_def shared_ok_def)

section \<open>Operations on the shared queue\<close>

lemma shared_okD:
  assumes "shared_ok ready w"
  shows "\<not> queue_mutex (runnableThreads w)" "is_heap (thread_order (states (cells w))) (queued w)" "distinct (queued w)"
    "\<not> registry_mutex (threadRegistry w)" "ready (virtualTimeline w)" "tq_ok (states (cells w)) (runnableThreads w)"
  using assms by (simp_all add: shared_ok_def tq_ok_def queued_def)

lemma queue_unlocked: "\<not> queue_mutex q \<Longrightarrow> q\<lparr>queue_mutex := False\<rparr> = q"
  by simp

lemma same_queue [simp]: "w\<lparr>runnableThreads := runnableThreads w\<rparr> = w"
  by simp

lemma reads_queue:
  assumes "shared_ok ready w"
  shows "ask_queue (\<lambda>_. ThreadQueue_empty) w = Inr (w, queued w = [])"
    "ask_queue (\<lambda>_. ThreadQueue_top) w = Inr (w, pq_top (queued w))"
    "ask_queue (\<lambda>_. ThreadQueue_find p) w = Inr (w, p \<in> set (queued w))"
    "ask_queue (\<lambda>st. ThreadQueue_getHighestRunnableTime st p) w =
       Inr (w, highest_time (states (cells w)) (queued w) (ert (thr p w)))"
    "\<exists>b. ask_queue (\<lambda>st. ThreadQueue_isNextRunnableThreadBefore st t) w = Inr (w, b)"
  using shared_okD [OF assms]
  by (auto simp: ask_queue_def ThreadQueue_empty_def ThreadQueue_top_def ThreadQueue_find_def
      ThreadQueue_getHighestRunnableTime_def ThreadQueue_isNextRunnableThreadBefore_def tq_defs queued_def thr_def
      split: option.splits)

lemma reads_registry:
  assumes "shared_ok ready w"
  shows "\<exists>b. ask_registry ThreadRegistry_atLeastOneThreadBeingSpawned w = Inr (w, b)"
    "\<exists>a. ask_registry (ThreadRegistry_areAnyOtherThreadsActiveInFormerTime ks st p rem) w = Inr (w, a)"
    "\<exists>n. ask_registry (ThreadRegistry_getSummedErtOfAllThreads ks st) w = Inr (w, n)"
    "\<exists>b. ask_registry (ThreadRegistry_areAllNativeWaitingThreadsBlockedAccordingToSystemState ks bl st p) w = Inr (w, b)"
proof -
  have m: "\<not> registry_mutex (threadRegistry w)" "(threadRegistry w)\<lparr>registry_mutex := False\<rparr> = threadRegistry w"
    "w\<lparr>threadRegistry := threadRegistry w\<rparr> = w"
    using shared_okD(4) [OF assms] by simp_all
  show "\<exists>b. ask_registry ThreadRegistry_atLeastOneThreadBeingSpawned w = Inr (w, b)"
    "\<exists>a. ask_registry (ThreadRegistry_areAnyOtherThreadsActiveInFormerTime ks st p rem) w = Inr (w, a)"
    "\<exists>n. ask_registry (ThreadRegistry_getSummedErtOfAllThreads ks st) w = Inr (w, n)"
    "\<exists>b. ask_registry (ThreadRegistry_areAllNativeWaitingThreadsBlockedAccordingToSystemState ks bl st p) w = Inr (w, b)"
    using m by (auto simp add: ask_registry_def registry_lock_defs ThreadRegistry_atLeastOneThreadBeingSpawned_def
        ThreadRegistry_areAnyOtherThreadsActiveInFormerTime_def ThreadRegistry_getSummedErtOfAllThreads_def
        ThreadRegistry_areAllNativeWaitingThreadsBlockedAccordingToSystemState_def)
qed

lemma acts_set_queue:
  assumes "shared_ok ready w" "tq_ok (states (cells w)) q'"
    "\<And>x. x \<noteq> p \<Longrightarrow> x \<in> set (threadsQueue q') \<longleftrightarrow> x \<in> set (queued w)"
  shows "acts ready p w (w\<lparr>runnableThreads := q'\<rparr>) (\<lambda>t. t\<lparr>c_queued := p \<in> set (threadsQueue q')\<rparr>)"
  using assms by (auto simp: acts_def shared_ok_def look_def Let_def thr_def queued_def)

lemma push_distinct_ok:
  assumes "tq_ok st q" "p \<notin> set (threadsQueue q)"
  shows "\<exists>q'. ThreadQueue_push st p q = Inr q' \<and> tq_ok st q' \<and> set (threadsQueue q') = insert p (set (threadsQueue q))"
proof -
  note heap = assms(1) [unfolded tq_ok_def]
  let ?c = "pq_push (thread_order st) p (threadsQueue q)"
  have c: "is_heap (thread_order st) ?c \<and> mset ?c = add_mset p (mset (threadsQueue q))"
    using runnable.pq.enqueue_ok heap by blast
  then have set: "set ?c = insert p (set (threadsQueue q))" by (metis set_mset_add_mset_insert set_mset_mset)
  show ?thesis
    using heap c assms(2) distinct_mset_Cons [of ?c] set
    by (simp add: ThreadQueue_push_def tq_defs tq_ok_def assertE_def)
qed

lemma push_acts:
  assumes "shared_ok ready w" "p \<notin> set (queued w)"
  shows "does (ThreadManager_pushIntoRunnableQueue p w) (\<lambda>w'. acts ready p w w' (\<lambda>t. t\<lparr>c_queued := True\<rparr>))"
proof -
  obtain q' where q: "ThreadQueue_push (states (cells w)) p (runnableThreads w) = Inr q'"
      "tq_ok (states (cells w)) q'" "set (threadsQueue q') = insert p (set (queued w))"
    using push_distinct_ok [OF shared_okD(6) [OF assms(1)]] assms(2) by (auto simp: queued_def)
  have "acts ready p w (w\<lparr>runnableThreads := q'\<rparr>) (\<lambda>t. t\<lparr>c_queued := p \<in> set (threadsQueue q')\<rparr>)"
    by (rule acts_set_queue) (use assms q in auto)
  then show ?thesis using q by (simp add: ThreadManager_pushIntoRunnableQueue_def on_queue_def)
qed

lemma erase_acts:
  assumes "shared_ok ready w"
  shows "does (on_queue (\<lambda>st. ThreadQueue_erase st p) w) (\<lambda>w'. acts ready p w w' (\<lambda>t. t\<lparr>c_queued := False\<rparr>))"
proof -
  let ?c = "AdaptiblePQueue_erase (thread_order (states (cells w))) p (queued w)"
  have c: "is_heap (thread_order (states (cells w))) ?c" "mset ?c = mset (queued w) - {#p#}"
    using runnable.erase_heap [of "states (cells w)" p "queued w"] shared_okD(2) [OF assms] by auto
  then have set: "distinct ?c" "set ?c = set (queued w) - {p}"
    using distinct_mset_remove [OF c(2)] shared_okD(3) [OF assms] by auto
  let ?q = "(runnableThreads w)\<lparr>threadsQueue := ?c, queue_mutex := False\<rparr>"
  have "acts ready p w (w\<lparr>runnableThreads := ?q\<rparr>) (\<lambda>t. t\<lparr>c_queued := p \<in> set (threadsQueue ?q)\<rparr>)"
    by (rule acts_set_queue) (use assms c set in \<open>auto simp: tq_ok_def\<close>)
  then show ?thesis using set shared_okD(1) [OF assms]
    by (simp add: on_queue_def ThreadQueue_erase_def tq_defs queued_def)
qed

text \<open>The choice of the next thread by a manager.\<close>

lemma take_next_acts:
  assumes "shared_ok ready w" "pq_top (queued w) = Some p" "\<not> isRunning (thr p w)" "\<not> inIoPredictionPhase (thr p w)"
    "\<not> isWaitingRealCodeToCompleteAfterModelSimulation (thr p w)"
  shows "\<exists>w'. ask_queue (\<lambda>st. ThreadQueue_getNextIfEqualsElseReturnTop st (Some p) m) w = Inr (w', Some p) \<and>
    acts ready p w w' (\<lambda>t. t\<lparr>c_queued := False\<rparr>)"
proof -
  let ?c = "pq_pop (thread_order (states (cells w))) (queued w)"
  have top: "pq_top (threadsQueue (runnableThreads w)) = Some p" using assms(2) by (simp add: queued_def)
  have c: "tq_ok (states (cells w)) ((runnableThreads w)\<lparr>threadsQueue := ?c, queue_mutex := False\<rparr>)"
    "mset ?c = mset (queued w) - {#p#}"
    using pop_ok [OF shared_okD(6) [OF assms(1)] top] by (simp_all add: queued_def)
  then have set: "set ?c = set (queued w) - {p}" using distinct_mset_remove [OF c(2)] shared_okD(3) [OF assms(1)] by auto
  let ?q = "(runnableThreads w)\<lparr>threadsQueue := ?c, queue_mutex := False\<rparr>"
  have "acts ready p w (w\<lparr>runnableThreads := ?q\<rparr>) (\<lambda>t. t\<lparr>c_queued := p \<in> set (threadsQueue ?q)\<rparr>)"
    by (rule acts_set_queue) (use assms(1) c set in auto)
  then show ?thesis using set shared_okD(1) [OF assms(1)] top assms(3-5)
    by (simp add: ask_queue_def ThreadQueue_getNextIfEqualsElseReturnTop_def tq_defs queued_def thr_def)
qed

section \<open>Operations of the managers\<close>

lemma unset_acts:
  "shared_ok ready w \<Longrightarrow>
   acts ready p w (ThreadManager_unsetCurrentThreadFromRunningThread m p w) (\<lambda>t. t\<lparr>c_running := c_running t - {m}\<rparr>)"
  by (auto simp: acts_def look_def Let_def shared_ok_def ThreadManager_unsetCurrentThreadFromRunningThread_def)

lemma wakeup_acts: "shared_ok ready w \<Longrightarrow> acts ready p w (ThreadManager_unconditionalWakeup m w) (\<lambda>t. t)"
  unfolding ThreadManager_unconditionalWakeup_def by (rule acts_upd_mgr) auto

lemma set_running_acts:
  assumes "shared_ok ready w" "p \<notin> set (queued w)" "runningThread (managers w m) = None \<or> runningThread (managers w m) = Some p"
  shows "\<exists>w'. ThreadManager_changeThreadStateToRunning m p w = (w', True) \<and>
    acts ready p w w' (\<lambda>t. t\<lparr>c_state := RUNNING, c_manager := Some m, c_running := insert m (c_running t)\<rparr>)"
  using assms shared_ok_upd_thr [of ready w p]
  by (auto simp: ThreadManager_changeThreadStateToRunning_def acts_def look_def Let_def shared_ok_def
      VexThreadState_setRunning_def VexThreadState_setNewState_def upd_sched_def upd_stats_def upd_timers_def
      Scheduling_setThreadCurrentlyControllingManager_def Timers_setLastTimePerStateERT_def)

section \<open>Updates that the scheduling does not see\<close>

named_theorems unseen_facts \<open>updates of a thread that its scheduling does not depend on\<close>

lemma unseen_timers [unseen_facts]: "(\<And>t. timeout (g t) = timeout t) \<Longrightarrow> unseen (upd_timers g)"
  by (simp add: unseen_def upd_timers_def)

lemma unseen_comp [unseen_facts]: "unseen f \<Longrightarrow> unseen g \<Longrightarrow> unseen (f \<circ> g)"
  by (simp add: unseen_def)

lemma unseen_sched [unseen_facts]:
  "(\<And>sc. awaken (f sc) = awaken sc \<and> threadCurrentlyControllingManager (f sc) = threadCurrentlyControllingManager sc \<and>
      previouslyControllingManager (f sc) = previouslyControllingManager sc) \<Longrightarrow> unseen (upd_sched f)"
  by (simp add: unseen_def upd_sched_def)

lemma unseen_fields [unseen_facts]:
  "unseen (\<lambda>s. s\<lparr>inVex := b\<rparr>)" "unseen (\<lambda>s. s\<lparr>timedOut := b\<rparr>)"
  by (simp_all add: unseen_def)

lemma unseen_statistics [unseen_facts]:
  "unseen VexThreadState_setCustom2" "unseen VexThreadState_setCustom3" "unseen VexThreadState_addInvocationPoints"
  by (simp_all add: unseen_def VexThreadState_setCustom2_def VexThreadState_setCustom3_def
      VexThreadState_addInvocationPoints_def upd_stats_def upd_sched_def
      Scheduling_increaseVtfInvocationsSinceLastResume_def)

lemma timeout_kept [simp]:
  "timeout (Timers_addLocalTime g d t) = timeout t" "timeout (Timers_setLastCPUTime d t) = timeout t"
  "timeout (Timers_updateCpuTimeClock d t) = timeout t" "timeout (fst (Timers_updateClocks d d' t)) = timeout t"
  "timeout (Timers_updateThreadLocalTimeSinceLastResumeTo g d t) = timeout t"
  "timeout (fst (Timers_leapTo d t)) = timeout t" "timeout (Timers_updateWaitingTimeFrom d t) = timeout t"
  "timeout (Timers_updateRealTimeClock d t) = timeout t" "timeout (Timers_leapForwardTo d t) = timeout t"
  "timeout (Timers_updateTimesAfterResuming d d' t) = timeout t" "timeout (Timers_setEstimatedRealTime d t) = timeout t"
  "timeout (fst (Timers_getAndResetLocalTime t)) = timeout t" "timeout (Timers_setResumedLastAt d t) = timeout t"
  "timeout (Timers_updateLastResumedTo d t) = timeout t" "timeout (block_at d t) = timeout t"
  by (simp_all add: vex_defs Timers_addLocalTime_def Timers_setLastCPUTime_def Timers_updateCpuTimeClock_def
      Timers_updateClocks_def Timers_updateThreadLocalTimeSinceLastResumeTo_def Timers_leapTo_def
      Timers_updateWaitingTimeFrom_def Timers_updateRealTimeClock_def Timers_leapForwardTo_def
      Timers_updateTimesAfterResuming_def Timers_setEstimatedRealTime_def Timers_getAndResetLocalTime_def
      Timers_setResumedLastAt_def Timers_updateLastResumedTo_def Timers_addElapsedTime_def block_at_def Let_def)

section \<open>The timeline controllers\<close>

text \<open>A controller changes the clocks of a thread, and not the timeout among them.\<close>

definition retimed :: "vex_thread \<Rightarrow> vex_thread \<Rightarrow> bool" where
  "retimed s s' \<longleftrightarrow> (\<exists>t. s' = s\<lparr>thr_timers := t\<rparr> \<and> timeout t = timeout (thr_timers s))"

lemma retimed_upd [simp]: "(\<And>t. timeout (g t) = timeout t) \<Longrightarrow> retimed s (upd_timers g s)"
  by (auto simp: retimed_def upd_timers_def)

lemma retimed_refl [simp]: "retimed s s"
  unfolding retimed_def by (rule exI [of _ "thr_timers s"]) simp

locale time_controller =
  fixes ctrl :: "'tl controller" and ready :: "'tl \<Rightarrow> bool" and core :: "nat \<Rightarrow> bool"
  assumes commits: "ready vt \<Longrightarrow> core m \<Longrightarrow> c \<in> {Cpu, NativeWaiting, TimedWaiting} \<Longrightarrow>
      \<exists>vt' s'. ctrl_commit ctrl m c vt s = Inr (vt', s') \<and> ready vt' \<and> retimed s s'"
    and updates: "ready vt \<Longrightarrow> core m \<Longrightarrow>
      \<exists>vt' s'. ctrl_update ctrl m u vt s = Inr (vt', s') \<and> ready vt' \<and> retimed s s'"
begin

lemma on_timeline_acts:
  assumes "shared_ok ready w" "p \<notin> set (queued w)"
    "\<exists>vt' s'. F (virtualTimeline w) (thr p w) = Inr (vt', s') \<and> ready vt' \<and> retimed (thr p w) s'"
  shows "does (on_timeline_of F p w) (\<lambda>w'. acts ready p w w' (\<lambda>t. t))"
proof -
  obtain vt' s' where F: "F (virtualTimeline w) (thr p w) = Inr (vt', s')" "ready vt'" "retimed (thr p w) s'"
    using assms(3) by blast
  have w: "shared_ok ready (w\<lparr>virtualTimeline := vt'\<rparr>)" "queued (w\<lparr>virtualTimeline := vt'\<rparr>) = queued w"
    "\<And>q. thr q (w\<lparr>virtualTimeline := vt'\<rparr>) = thr q w"
    using assms(1) F(2) by (simp_all add: shared_ok_def queued_def thr_def)
  have "acts ready p w (upd_thr p (\<lambda>_. s') (w\<lparr>virtualTimeline := vt'\<rparr>)) (\<lambda>t. t)"
    using shared_ok_upd_thr [OF w(1), of p] assms(2) F(3) w
    by (auto simp: acts_def look_def Let_def retimed_def)
  then show ?thesis using F by (simp add: on_timeline_of_def)
qed

lemma commit_acts:
  assumes "controller cfg = ctrl" "shared_ok ready w" "core m" "c \<in> {Cpu, NativeWaiting, TimedWaiting}" "p \<notin> set (queued w)"
  shows "does (commit_progress cfg m c p w) (\<lambda>w'. acts ready p w w' (\<lambda>t. t))"
  unfolding commit_progress_def
  using on_timeline_acts [OF assms(2,5)] commits [OF shared_okD(5) [OF assms(2)] assms(3,4)] assms(1) by simp

lemma update_acts:
  assumes "controller cfg = ctrl" "shared_ok ready w" "core m" "p \<notin> set (queued w)"
  shows "does (update_timestamp cfg m u p w) (\<lambda>w'. acts ready p w w' (\<lambda>t. t))"
  unfolding update_timestamp_def
  using on_timeline_acts [OF assms(2,4)] updates [OF shared_okD(5) [OF assms(2)] assms(3)] assms(1) by simp

lemma lockless_acts:
  assumes "controller cfg = ctrl" "shared_ok ready w" "core m" "p \<notin> set (queued w)"
  shows "does (ThreadManager_locklessUpdateTimeBy cfg m d p w) (\<lambda>w'. acts ready p w w' (\<lambda>t. t))"
proof -
  let ?w1 = "upd_thr p (upd_timers (Timers_addLocalTime (globalScalingFactor cfg) d)) w"
  have a: "acts ready p w ?w1 (\<lambda>t. t)"
    by (rule acts_unseen) (use assms in \<open>auto intro: unseen_facts\<close>)
  have "does (commit_progress cfg m (if isNativeWaiting (thr p ?w1) then NativeWaiting else Cpu) p ?w1) (\<lambda>w'. acts ready p ?w1 w' (\<lambda>t. t))"
    by (rule commit_acts) (use assms acts_ok [OF a] in auto)
  then show ?thesis using a
    unfolding ThreadManager_locklessUpdateTimeBy_def Let_def
    by (auto elim!: does_mono dest: acts_trans split: if_splits)
qed

lemma updateVT_acts:
  assumes "controller cfg = ctrl" "shared_ok ready w" "core m" "p \<notin> set (queued w)"
  shows "does (ThreadManager_updateCurrentThreadVT cfg m p w) (\<lambda>w'. acts ready p w w' (\<lambda>t. t))"
proof -
  have "does (if b then ThreadManager_locklessUpdateTimeBy cfg m d p w else Inr w) (\<lambda>w'. acts ready p w w' (\<lambda>t. t))" for b d
    using lockless_acts [OF assms] assms(2) by (simp add: acts_refl)
  moreover have "acts ready p w (upd_thr p (upd_timers (Timers_setLastCPUTime d)) w1) (\<lambda>t. t)" if a: "acts ready p w w1 (\<lambda>t. t)" for w1 d
  proof -
    have "p \<notin> set (queued w1)" using acts_look [OF a] assms(4) by (metis look_state(7))
    then show ?thesis using acts_trans [OF a acts_unseen [OF acts_ok [OF a]]] by (simp add: unseen_facts)
  qed
  ultimately show ?thesis
    unfolding ThreadManager_updateCurrentThreadVT_def Let_def by - (rule does_bind, assumption, simp)
qed

lemma setVT_acts:
  assumes "controller cfg = ctrl" "shared_ok ready w" "core m" "p \<notin> set (queued w)"
  shows "does (ThreadManager_setCurrentThreadVT cfg m t p w) (\<lambda>w'. acts ready p w w' (\<lambda>t. t))"
  unfolding ThreadManager_setCurrentThreadVT_def Let_def
  using lockless_acts [OF assms] assms(2) by (simp add: acts_refl)

end

lemma single_time_controller: "time_controller single_controller (\<lambda>vt. \<not> mutex_held vt) (\<lambda>_. True)"
proof unfold_locales
  fix vt :: timeline and m c and s :: vex_thread assume "\<not> mutex_held vt" "c \<in> {Cpu, NativeWaiting, TimedWaiting}"
  then show "\<exists>vt' s'. ctrl_commit single_controller m c vt s = Inr (vt', s') \<and> \<not> mutex_held vt' \<and> retimed s s'"
    by (elim insertE emptyE)
      (simp_all add: single_controller_def Single_commitCpuTimeProgress_def Single_commitNativeWaitingProgress_def
        Single_commitTimedWaitingProgress_def on_timeline_def VirtualTimeline_leapForwardTo_def
        VirtualTimeline_addTimeOfThreadExecutingAtUnknownTime_def with_mutex_def Let_def)
next
  fix vt :: timeline and m u and s :: vex_thread assume "\<not> mutex_held vt"
  then show "\<exists>vt' s'. ctrl_update single_controller m u vt s = Inr (vt', s') \<and> \<not> mutex_held vt' \<and> retimed s s'"
    by (cases u) (simp_all add: single_controller_def Single_updateResumingSuspendedThreadTimestamp_def
        Single_updateResumingSuspendedThreadResumedLastTimestamp_def Single_updateTimedOutWaitingThreadTimestamp_def
        Single_updateInterruptedWaitingThreadTimestamp_def Single_updateBlockedThreadTimestamp_def)
qed

lemma multiple_commit_simps:
  "mc_ready n vt \<Longrightarrow> core < n \<Longrightarrow> \<exists>vt'. MulticoreVirtualTimeline_addTimeOfThreadExecutingAtUnknownTime d vt = Inr (vt', ()) \<and> mc_ready n vt'"
  by (cases "localCoreVirtualTimes vt")
    (auto simp: MulticoreVirtualTimeline_addTimeOfThreadExecutingAtUnknownTime_def with_mutex_free
      mc_ready_def Let_def split: nat.split)

lemma on_timeline_retimed:
  assumes "mc_ready n vt" "m < n" "retimed s s'"
  shows "\<exists>vt' s''. on_timeline (MulticoreVirtualTimeline_leapForwardTo t m) vt s' = Inr (vt', s'') \<and> mc_ready n vt' \<and> retimed s s''"
    "\<exists>vt' s''. on_timeline (MulticoreVirtualTimeline_addTimeOfThreadExecutingAtUnknownTime t) vt s' = Inr (vt', s'') \<and>
       mc_ready n vt' \<and> retimed s s''"
  using assms mc_leap [OF assms(1,2), of t] multiple_commit_simps [OF assms(1,2), of t] by (auto simp: on_timeline_def)

lemma multiple_activation:
  assumes "mc_ready n vt" "m < n"
  shows "\<exists>vt' a. getLocalTimelineActivationTime t m vt = Inr (vt', a) \<and> mc_ready n vt'"
    "\<exists>vt' a. getUpdatedGlobalTime vt = Inr (vt', a) \<and> mc_ready n vt'"
  using assms
  by (auto simp: getLocalTimelineActivationTime_def MulticoreVirtualTimeline_getLocalTimelineActivationTime_def
      with_mutex_def raise_local_def
      getUpdatedGlobalTime_def MulticoreVirtualTimeline_getUpdatedGlobalTime_def mc_ready_def)

lemma multiple_time_controller: "time_controller multiple_controller (mc_ready n) (\<lambda>m. m < n)"
proof unfold_locales
  fix vt :: multicore and m c and s :: vex_thread
  assume r: "mc_ready n vt" "m < n" and c: "c \<in> {Cpu, NativeWaiting, TimedWaiting}"
  have "m < length (localCoreVirtualTimes vt)" using r by (simp add: mc_ready_def)
  then show "\<exists>vt' s'. ctrl_commit multiple_controller m c vt s = Inr (vt', s') \<and> mc_ready n vt' \<and> retimed s s'"
    using c
    by (elim insertE emptyE)
      (simp_all add: multiple_controller_def Multiple_commitCpuTimeProgress_def Multiple_commitNativeWaitingProgress_def
        Multiple_commitTimedWaitingProgress_def Let_def
        on_timeline_retimed [OF r])
next
  fix vt :: multicore and m u and s :: vex_thread
  assume r: "mc_ready n vt" "m < n"
  have l: "m < length (localCoreVirtualTimes vt)" "\<not> mutex_held vt" "\<not> disabling vt" using r by (simp_all add: mc_ready_def)
  then show "\<exists>vt' s'. ctrl_update multiple_controller m u vt s = Inr (vt', s') \<and> mc_ready n vt' \<and> retimed s s'"
    using r(1) multiple_activation(1) [OF r, of "ert s"] multiple_activation(2) [OF r]
    by (cases u)
      (auto simp: multiple_controller_def Multiple_updateResumingSuspendedThreadTimestamp_def
        Multiple_updateResumingSuspendedThreadResumedLastTimestamp_def Multiple_updateTimedOutWaitingThreadTimestamp_def
        Multiple_updateInterruptedWaitingThreadTimestamp_def Multiple_updateBlockedThreadTimestamp_def
        on_timeline_retimed [OF r] Let_def bindE_def)
qed

interpretation single_time: time_controller single_controller "\<lambda>vt. \<not> mutex_held vt" "\<lambda>_. True"
  by (rule single_time_controller)

interpretation multiple_time: time_controller multiple_controller "mc_ready n" "\<lambda>m. m < n" for n
  by (rule multiple_time_controller)

section \<open>Suspension of the current thread\<close>

unbundle bit_operations_syntax

definition run_on :: "nat \<Rightarrow> sched_view \<Rightarrow> sched_view" where
  "run_on m t = t\<lparr>c_state := RUNNING, c_awaken := False, c_manager := Some m, c_running := insert m (c_running t)\<rparr>"

definition park :: "nat \<Rightarrow> frame list \<Rightarrow> sched_view \<Rightarrow> sched_view" where
  "park m fs t = t\<lparr>c_state := SUSPENDED, c_awaken := False, c_timeout := -1, c_queued := True, c_blocked := Some fs,
     c_running := c_running t - {m}\<rparr>"

lemma another_iff:
  "ThreadManager_anotherThreadAlreadySetRunning m p w \<longleftrightarrow> (\<exists>q. q \<noteq> p \<and> m \<in> c_running (look q w))"
  by (auto simp: ThreadManager_anotherThreadAlreadySetRunning_def)

lemma another_acts:
  "acts ready p w w' g \<Longrightarrow>
   ThreadManager_anotherThreadAlreadySetRunning m p w' = ThreadManager_anotherThreadAlreadySetRunning m p w"
  unfolding another_iff by (metis acts_other)

lemma not_queued_acts: "acts ready p w w' g \<Longrightarrow> \<not> c_queued (g (look p w)) \<Longrightarrow> p \<notin> set (queued w')"
  by (metis acts_look look_state(7))

text \<open>A further update of the thread, and one more operation on it.\<close>

lemma acts_then_upd:
  assumes "acts ready p w w1 g" "\<not> c_queued (g (look p w)) \<or> ert (f (thr p w1)) = ert (thr p w1)"
  shows "acts ready p w (upd_thr p f w1) (\<lambda>t. see (f (thr p w1)) (g t))"
  using acts_trans [OF assms(1) acts_upd_thr [OF acts_ok [OF assms(1)]]] not_queued_acts [OF assms(1)] assms(2) by blast

lemma acts_then: "acts ready p w w1 g \<Longrightarrow> does r (\<lambda>w2. acts ready p w1 w2 h) \<Longrightarrow> does r (\<lambda>w2. acts ready p w w2 (\<lambda>t. h (g t)))"
  by (auto elim!: does_mono dest: acts_trans)

lemma setSuspended_sees [simp]:
  "currentState (VexThreadState_setSuspended s) = SUSPENDED" "awaken (scheduling_of (VexThreadState_setSuspended s)) = False"
  "threadCurrentlyControllingManager (scheduling_of (VexThreadState_setSuspended s)) = threadCurrentlyControllingManager (scheduling_of s)"
  "previouslyControllingManager (scheduling_of (VexThreadState_setSuspended s)) = previouslyControllingManager (scheduling_of s)"
  "timeout (thr_timers (VexThreadState_setSuspended s)) = timeout (thr_timers s)"
  "waitingInRealTime (VexThreadState_setSuspended s) = waitingInRealTime s" "ert (VexThreadState_setSuspended s) = ert s"
  by (simp_all add: VexThreadState_setSuspended_def VexThreadState_setNewState_def upd_sched_def upd_stats_def upd_timers_def
      Scheduling_setAwaken_def Timers_setLastTimePerStateERT_def)

lemma setWaiting_sees [simp]:
  "currentState (VexThreadState_setWaiting s) = WAITING" "awaken (scheduling_of (VexThreadState_setWaiting s)) = awaken (scheduling_of s)"
  "threadCurrentlyControllingManager (scheduling_of (VexThreadState_setWaiting s)) = threadCurrentlyControllingManager (scheduling_of s)"
  "previouslyControllingManager (scheduling_of (VexThreadState_setWaiting s)) = previouslyControllingManager (scheduling_of s)"
  "timeout (thr_timers (VexThreadState_setWaiting s)) = timeout (thr_timers s)"
  "waitingInRealTime (VexThreadState_setWaiting s) = waitingInRealTime s" "ert (VexThreadState_setWaiting s) = ert s"
  by (simp_all add: VexThreadState_setWaiting_def VexThreadState_setNewState_def upd_sched_def upd_stats_def upd_timers_def
      Timers_setLastTimePerStateERT_def)

lemma set_timeout_sees [simp]:
  "currentState (set_timeout t s) = currentState s" "scheduling_of (set_timeout t s) = scheduling_of s"
  "timeout (thr_timers (set_timeout t s)) = t" "waitingInRealTime (set_timeout t s) = waitingInRealTime s" "ert (set_timeout t s) = ert s"
  by (simp_all add: set_timeout_def upd_timers_def Timers_setTimeout_def)

lemma suspended_push_acts:
  assumes "shared_ok ready w" "p \<notin> set (queued w)"
  shows "does (ThreadManager_setSuspendedAndPushToRunnables m p w) (\<lambda>w'. acts ready p w w'
    (\<lambda>t. t\<lparr>c_state := SUSPENDED, c_awaken := False, c_timeout := -1, c_queued := True, c_running := c_running t - {m}\<rparr>))"
proof -
  let ?f = "\<lambda>s. set_timeout (-1) ((VexThreadState_setSuspended s)\<lparr>timedOut := True\<rparr>)"
  let ?w1 = "ThreadManager_unsetCurrentThreadFromRunningThread m p w"
  note u = unset_acts [OF assms(1), of p m]
  have a: "acts ready p w (upd_thr p ?f ?w1) (\<lambda>t. t\<lparr>c_state := SUSPENDED, c_awaken := False, c_timeout := -1, c_running := c_running t - {m}\<rparr>)"
    by (rule acts_cong [OF acts_then_upd [OF u, of ?f]])
      (auto simp: see_def look_def Let_def ThreadManager_unsetCurrentThreadFromRunningThread_def)
  show ?thesis
    unfolding ThreadManager_setSuspendedAndPushToRunnables_def Let_def
    by (rule does_mono [OF acts_then [OF a push_acts]])
      (use acts_ok [OF a] not_queued_acts [OF a] assms(2) in \<open>auto elim!: acts_cong\<close>)
qed

lemma should_acts:
  assumes "shared_ok ready w"
  shows "does (ThreadManager_shouldCurrentThreadSuspend m p w) (\<lambda>(w', b). acts ready p w w' (\<lambda>t. t) \<and>
    (case c_manager (look p w) of None \<Rightarrow> b | Some k \<Rightarrow> ThreadManager_anotherThreadAlreadySetRunning k p w \<longrightarrow> b))"
proof -
  let ?w1 = "upd_thr p (upd_sched (fst \<circ> Scheduling_getAndResetForcedSuspendFlag)) w"
  have a: "acts ready p w ?w1 (\<lambda>t. t)"
    by (rule acts_unseen) (use assms in \<open>auto simp: upd_sched_def Scheduling_getAndResetForcedSuspendFlag_def intro!: unseen_facts\<close>)
  obtain b where b: "ask_queue (\<lambda>st. ThreadQueue_isNextRunnableThreadBefore st t) ?w1 = Inr (?w1, b t)" for t
    using reads_queue(5) [OF acts_ok [OF a]] by metis
  have m: "controllingManager p ?w1 = controllingManager p w"
    by (simp add: controllingManager_def upd_sched_def Scheduling_getAndResetForcedSuspendFlag_def)
  show ?thesis
    unfolding ThreadManager_shouldCurrentThreadSuspend_def Let_def b m
    using a another_acts [OF a] by (auto split: option.splits)
qed

lemma block_acts:
  assumes "shared_ok ready w"
  shows "acts ready p w (VexThreadState_onBlocked p fs w) (\<lambda>t. t\<lparr>c_awaken := False, c_blocked := Some fs\<rparr>)"
proof -
  have "shared_ok ready (upd_thr p (upd_sched (Scheduling_setAwaken False)) w)"
    by (rule shared_ok_upd_thr [OF assms]) (simp add: upd_sched_def)
  then show ?thesis
    by (auto simp: acts_def VexThreadState_onBlocked_def look_def Let_def shared_ok_def thr_def queued_def
        upd_thr_def upd_state_def upd_sched_def Scheduling_setAwaken_def)
qed

lemma option_masks [simp]:
  "(SUSPEND_OPT_FORCE_SUSPEND OR SUSPEND_OPT_DONT_UPDATE_THREAD_TIME) AND SUSPEND_OPT_THREAD_ALREADY_IN_LIST = 0"
  "(SUSPEND_OPT_FORCE_SUSPEND OR SUSPEND_OPT_DONT_UPDATE_THREAD_TIME) AND SUSPEND_OPT_DONT_UPDATE_THREAD_TIME \<noteq> 0"
  "(SUSPEND_OPT_DONT_UPDATE_THREAD_TIME OR SUSPEND_OPT_FORCE_SUSPEND) AND SUSPEND_OPT_THREAD_ALREADY_IN_LIST = 0"
  "SUSPEND_OPT_DONT_UPDATE_THREAD_TIME AND SUSPEND_OPT_THREAD_ALREADY_IN_LIST = 0"
  by (simp_all add: SUSPEND_OPT_FORCE_SUSPEND_def SUSPEND_OPT_DONT_UPDATE_THREAD_TIME_def SUSPEND_OPT_THREAD_ALREADY_IN_LIST_def)


end
