(* ===== verification/Vex_Soundness.thy ===== *)
theory Vex_Soundness
  imports Vex_Scheduler
begin

text \<open>
  Modes of simulated threads and the types of their code. \<open>fits core M t\<close> says that a thread in the
  view \<open>t\<close> is in mode \<open>M\<close>, and \<open>frame_type core f M\<close> is the mode that the frame \<open>f\<close> leads to from \<open>M\<close>, if it
  is allowed there. Well-typed code never fails: it ends in the mode of its type, or the thread blocks
  and the code that it has left is typed from the mode in which the scheduler resumes a thread
  (\<open>run_frames_sound\<close>). The steps of the scheduler keep this, which is the content of \<open>round_sound\<close>.
\<close>

section \<open>Modes\<close>

datatype mode = Running | Native | RealWaiting | Timing | RealTimed | Leaving | Resumed | Outside

definition managed :: "(nat \<Rightarrow> bool) \<Rightarrow> sched_view \<Rightarrow> bool" where
  "managed core t \<longleftrightarrow> (case c_manager t of None \<Rightarrow> False | Some m \<Rightarrow> core m)"

definition idle_view :: "sched_view \<Rightarrow> bool" where
  "idle_view t \<longleftrightarrow> \<not> c_queued t \<and> c_running t = {}"

definition timed_view :: "sched_view \<Rightarrow> bool" where
  "timed_view t \<longleftrightarrow> c_state t = WAITING \<and> c_timeout t > 0 \<and> c_realWait t"

fun fits :: "(nat \<Rightarrow> bool) \<Rightarrow> mode \<Rightarrow> sched_view \<Rightarrow> bool" where
  "fits core Running t \<longleftrightarrow> c_blocked t = None \<and> c_state t = RUNNING \<and> \<not> c_queued t \<and> managed core t \<and>
     c_running t = set_option (c_manager t)"
| "fits core Native t \<longleftrightarrow> c_blocked t = None \<and> c_state t = NATIVE_WAITING \<and> idle_view t \<and> c_manager t = None \<and>
     (case c_previous t of None \<Rightarrow> False | Some m \<Rightarrow> core m)"
| "fits core RealWaiting t \<longleftrightarrow> c_blocked t = None \<and> c_state t = WAITING \<and> idle_view t \<and> managed core t"
| "fits core Timing t \<longleftrightarrow> c_blocked t = None \<and> timed_view t \<and> \<not> c_queued t \<and> managed core t \<and>
     c_running t = set_option (c_manager t)"
| "fits core RealTimed t \<longleftrightarrow> c_blocked t = None \<and> timed_view t \<and> c_queued t \<and> managed core t \<and> c_running t = {}"
| "fits core Leaving t \<longleftrightarrow> c_blocked t = None \<and> c_state t = WAITING \<and> c_queued t \<and> managed core t \<and> c_running t = {}"
| "fits core Resumed t \<longleftrightarrow> c_blocked t = None \<and> idle_view t \<and> managed core t"
| "fits core Outside t \<longleftrightarrow> c_blocked t = None \<and> idle_view t \<and> c_state t \<noteq> RUNNING"

section \<open>Types of the code of a thread\<close>

definition from_to :: "mode set \<Rightarrow> mode \<Rightarrow> mode \<Rightarrow> mode option" where
  [simp]: "from_to A N M = (if M \<in> A then Some N else None)"

fun frame_type :: "(nat \<Rightarrow> bool) \<Rightarrow> frame \<Rightarrow> mode \<Rightarrow> mode option" where
  "frame_type core SetRunning = from_to {Resumed} Running"
| "frame_type core (UpdateTimedOutWaiting m) = (if core m then from_to {Resumed} Resumed else from_to {} Resumed)"
| "frame_type core UpdateCpuTimeClock = Some"
| "frame_type core UpdateClocks = Some"
| "frame_type core SetInSystemCall = from_to {} Running"
| "frame_type core LockKey = Some"
| "frame_type core OnVexEntry = from_to {Running, Native} Running"
| "frame_type core (EntryAt t) = from_to {Running, Native} Running"
| "frame_type core EntryDone = from_to {Running} Running"
| "frame_type core EnterLocked = Some"
| "frame_type core EnsureManager = (\<lambda>M. from_to {Running, Timing, Leaving} M M)"
| "frame_type core AddInvocationPoints = Some"
| "frame_type core (SuspendCurrent t options) = (if options = 0 then from_to {Running} Running else from_to {} Running)"
| "frame_type core (Yield t) = from_to {Running} Running"
| "frame_type core (ReplacedTimedWaiting ob t) = (if t > 0 then from_to {Running} Running else from_to {} Running)"
| "frame_type core (ReplacedWaiting ob internal) = (if internal then from_to {Running} Running else from_to {} Running)"
| "frame_type core (WrappedWaitingStart t) = from_to {Running} RealWaiting"
| "frame_type core (UpdateWaitingTimeFrom t) = Some"
| "frame_type core (SetTimedWaiting ob t) = (if t > 0 then from_to {Running} Timing else from_to {} Timing)"
| "frame_type core (WrappedTimedWaitingStart t) = from_to {Timing} RealTimed"
| "frame_type core (LeaveTimedWaiting r) = from_to {RealTimed} Leaving"
| "frame_type core WrappedTimedWaitingEnd = from_to {Leaving} Running"
| "frame_type core ThreadEnd = from_to {Running} Outside"
| "frame_type core AssertRunning = from_to {Running} Running"
| "frame_type core (SetTimeout t) = from_to {Running} Running"
| "frame_type core ExitWithoutTimeUpdate = Some"
| "frame_type core ExitWithCpuTimeUpdate = Some"
| "frame_type core ExitWithBothClocksUpdate = Some"
| "frame_type core ExitWithRealTimeUpdate = Some"

fun code_type :: "(nat \<Rightarrow> bool) \<Rightarrow> frame list \<Rightarrow> mode \<Rightarrow> mode option" where
  "code_type core [] M = Some M"
| "code_type core (f # fs) M = Option.bind (frame_type core f M) (code_type core fs)"

lemma types_append: "code_type core (fs @ gs) M = Option.bind (code_type core fs M) (code_type core gs)"
  by (induction fs arbitrary: M) (auto split: bind_split)

text \<open>A blocked thread is queued, or waits for a notification, or was awakened.\<close>

definition runnable_view :: "sched_view \<Rightarrow> bool" where
  "runnable_view t \<longleftrightarrow> c_queued t \<and> \<not> c_awaken t \<and> c_running t = {} \<and> (c_state t = SUSPENDED \<or> c_state t = WAITING \<and> c_timeout t > 0)"

definition notified_view :: "sched_view \<Rightarrow> bool" where
  "notified_view t \<longleftrightarrow> idle_view t \<and> \<not> c_awaken t \<and> c_state t = WAITING \<and> c_timeout t = -2"

definition awakened_view :: "(nat \<Rightarrow> bool) \<Rightarrow> sched_view \<Rightarrow> bool" where
  "awakened_view core t \<longleftrightarrow> idle_view t \<and> c_awaken t \<and> c_state t = SUSPENDED \<and> managed core t"

definition code_left :: "(nat \<Rightarrow> bool) \<Rightarrow> mode \<Rightarrow> sched_view \<Rightarrow> bool" where
  "code_left core M t \<longleftrightarrow> (case c_blocked t of None \<Rightarrow> False | Some fs \<Rightarrow> code_type core fs Resumed = Some M)"

definition parked_view :: "(nat \<Rightarrow> bool) \<Rightarrow> mode \<Rightarrow> sched_view \<Rightarrow> bool" where
  "parked_view core M t \<longleftrightarrow> code_left core M t \<and> (runnable_view t \<or> notified_view t)"

text \<open>The outcome of code of thread \<open>p\<close> of which the type is \<open>M\<close>.\<close>

definition outcome :: "('tl \<Rightarrow> bool) \<Rightarrow> (nat \<Rightarrow> bool) \<Rightarrow> mode \<Rightarrow> thread_ptr \<Rightarrow> 'tl world \<Rightarrow> 'tl world \<times> bool \<Rightarrow> bool" where
  "outcome ready core M p w = (\<lambda>(w', blocked). shared_ok ready w' \<and> (\<forall>q. q \<noteq> p \<longrightarrow> look q w' = look q w) \<and>
     (if blocked then parked_view core M (look p w') else fits core M (look p w')))"

abbreviation lands where
  "lands ready core M p w r \<equiv> does r (outcome ready core M p w)"

lemma outcome_other:
  "outcome ready core M p w1 x \<Longrightarrow> (\<And>q. q \<noteq> p \<Longrightarrow> look q w1 = look q w) \<Longrightarrow> outcome ready core M p w x"
  by (auto simp: outcome_def split: prod.splits)

lemma lands_after: "acts ready p w w1 g \<Longrightarrow> lands ready core M p w1 r \<Longrightarrow> lands ready core M p w r"
  by (rule does_mono, assumption, rule outcome_other, assumption, rule acts_other)

lemma lands_ends: "acts ready p w w' g \<Longrightarrow> fits core M (g (look p w)) \<Longrightarrow> lands ready core M p w (Inr (w', False))"
  by (auto simp: outcome_def acts_other dest: acts_ok acts_look)

lemma lands_parks: "acts ready p w w' g \<Longrightarrow> parked_view core M (g (look p w)) \<Longrightarrow> lands ready core M p w (Inr (w', True))"
  by (auto simp: outcome_def acts_other dest: acts_ok acts_look)

lemma lands_bind:
  "does r (\<lambda>w1. acts ready p w w1 g) \<Longrightarrow> (\<And>w1. acts ready p w w1 g \<Longrightarrow> lands ready core M p w1 (k w1)) \<Longrightarrow>
   lands ready core M p w (bindE r k)"
  by (rule does_bind, assumption) (auto intro: lands_after)

lemma lands_returns:
  "does r (\<lambda>w1. acts ready p w w1 g) \<Longrightarrow> fits core M (g (look p w)) \<Longrightarrow> lands ready core M p w (returns r)"
  unfolding returns_def by (rule lands_bind, assumption)
    (auto simp: outcome_def dest: acts_ok acts_look)

lemma lands_and_then:
  assumes "lands ready core M p w r" "code_type core fs M = Some M'"
    "\<And>w1. shared_ok ready w1 \<Longrightarrow> fits core M (look p w1) \<Longrightarrow> lands ready core M' p w1 (k w1)"
  shows "lands ready core M' p w (and_then r p fs k)"
proof -
  obtain w1 b where r: "r = Inr (w1, b)" and o1: "outcome ready core M p w (w1, b)"
    using assms(1) by (auto simp: does_def)
  show ?thesis
  proof (cases b)
    case False
    with o1 assms(3) [of w1] show ?thesis by (auto simp: r and_then_def does_def outcome_def)
  next
    case True
    let ?w2 = "w1\<lparr>blockedIn := (blockedIn w1)(p := map_option (\<lambda>gs. gs @ fs) (blockedIn w1 p))\<rparr>"
    have l: "look q ?w2 = (if q = p then (look p w1)\<lparr>c_blocked := map_option (\<lambda>gs. gs @ fs) (c_blocked (look p w1))\<rparr> else look q w1)" for q
      by (simp add: look_def thr_def queued_def Let_def)
    have "parked_view core M' (look p ?w2)" using o1 True assms(2)
      by (auto simp: l outcome_def parked_view_def code_left_def types_append runnable_view_def notified_view_def idle_view_def
          split: option.splits)
    moreover have "shared_ok ready ?w2" using o1 by (simp add: outcome_def shared_ok_def)
    ultimately show ?thesis using o1 True by (auto simp: r and_then_def outcome_def l)
  qed
qed

section \<open>Suspension and the running thread\<close>

lemma parked_park:
  "c_blocked t = None \<Longrightarrow> c_running t \<subseteq> {m} \<Longrightarrow> code_type core fs Resumed = Some M \<Longrightarrow> parked_view core M (park m fs t)"
  by (auto simp: park_def parked_view_def code_left_def runnable_view_def)

definition suspendable :: "(nat \<Rightarrow> bool) \<Rightarrow> nat \<Rightarrow> sched_view \<Rightarrow> bool" where
  "suspendable core m t \<longleftrightarrow> core m \<and> c_blocked t = None \<and> \<not> c_queued t \<and> c_running t \<subseteq> {m} \<and>
     (c_manager t = None \<or> c_manager t = Some m)"

lemma running_suspendable:
  "fits core Running (look p w) \<Longrightarrow> \<exists>m. controllingManager p w = Some m \<and> core m \<and> p \<notin> set (queued w) \<and>
     suspendable core m (look p w) \<and> c_running (look p w) = {m} \<and> blockedIn w p = None"
  by (auto simp: managed_def suspendable_def split: option.splits)

lemma native_suspendable:
  "fits core Native (look p w) \<Longrightarrow> \<exists>m. previouslyControllingManager (scheduling_of (thr p w)) = Some m \<and> core m \<and>
     suspendable core m (look p w) \<and> c_running (look p w) = {}"
  by (auto simp: suspendable_def idle_view_def split: option.splits)

lemma suspended_block_acts:
  assumes "shared_ok ready w" "p \<notin> set (queued w)" "\<And>w1. shared_ok ready w1 \<Longrightarrow> acts ready p w1 (g w1) (\<lambda>t. t)"
  shows "does (bindE (ThreadManager_setSuspendedAndPushToRunnables m p w) (\<lambda>w1.
      bindE (assertE AssertFailed (\<not> awaken (scheduling_of (thr p (g w1))))) (\<lambda>_.
      Inr (ThreadManager_blockCurrentThread p fs (g w1), True))))
    (\<lambda>(w', b). b \<and> acts ready p w w' (park m (SetRunning # fs)))"
proof (rule does_bind [OF suspended_push_acts [OF assms(1,2)]])
  fix w1 assume a1: "acts ready p w w1 (\<lambda>t. t\<lparr>c_state := SUSPENDED, c_awaken := False, c_timeout := -1, c_queued := True,
      c_running := c_running t - {m}\<rparr>)"
  note a2 = acts_trans [OF a1 assms(3) [OF acts_ok [OF a1]]]
  note a3 = acts_trans [OF a2 block_acts [OF acts_ok [OF a2], of p "SetRunning # fs"]]
  have "\<not> awaken (scheduling_of (thr p (g w1)))" using acts_look [OF a2] look_state(2) [of p "g w1"] by simp
  then show "does (bindE (assertE AssertFailed (\<not> awaken (scheduling_of (thr p (g w1))))) (\<lambda>_.
      Inr (ThreadManager_blockCurrentThread p fs (g w1), True))) (\<lambda>(w', b). b \<and> acts ready p w w' (park m (SetRunning # fs)))"
    using a3 by (auto simp: ThreadManager_blockCurrentThread_def park_def assertE_def elim!: acts_cong)
qed

context time_controller
begin

lemma start_acts:
  assumes "controller cfg = ctrl" "shared_ok ready w" "core m" "p \<notin> set (queued w)"
  shows "does (if keep then Inr w else if t = 0 then ThreadManager_updateCurrentThreadVT cfg m p w
      else ThreadManager_setCurrentThreadVT cfg m t p w) (\<lambda>w'. acts ready p w w' (\<lambda>t. t))"
  using updateVT_acts [OF assms] setVT_acts [OF assms] assms(2) by (simp add: acts_refl)

lemma forced_acts:
  assumes "shared_ok ready w"
  shows "does (if b then bindE (ask_queue (\<lambda>_. ThreadQueue_empty) w) (\<lambda>(w2, e).
      if \<not> e then Inr (w2, True) else ask_registry ThreadRegistry_atLeastOneThreadBeingSpawned w2)
    else Inr (w, False)) (\<lambda>(w', f). acts ready p w w' (\<lambda>t. t))"
  using reads_queue(1) [OF assms] reads_registry(1) [OF assms] assms by (auto simp: acts_refl)

lemma should_suspend_acts:
  assumes "shared_ok ready w" "c_manager (look p w) = None \<or> c_manager (look p w) = Some m"
  shows "does (if f then Inr (w, True) else ThreadManager_shouldCurrentThreadSuspend m p w) (\<lambda>(w', b).
    acts ready p w w' (\<lambda>t. t) \<and>
    (\<not> b \<longrightarrow> c_manager (look p w) = Some m \<and> \<not> ThreadManager_anotherThreadAlreadySetRunning m p w))"
proof (cases f)
  case False
  show ?thesis using False assms(2) should_acts [OF assms(1), of m p]
    by (auto elim!: does_mono split: option.splits)
qed (simp add: acts_refl assms(1))

lemma suspend_calling_lands:
  assumes cfg: "controller cfg = ctrl" and ok: "shared_ok ready w" and susp: "suspendable core m (look p w)"
    and list: "options AND SUSPEND_OPT_THREAD_ALREADY_IN_LIST = 0"
    and running: "m \<in> c_running (look p w) \<Longrightarrow> c_state (look p w) = RUNNING \<and> c_manager (look p w) = Some m"
    and set: "\<And>w1. acts ready p w w1 (\<lambda>t. t) \<Longrightarrow> \<not> ThreadManager_anotherThreadAlreadySetRunning m p w \<Longrightarrow>
      lands ready core Running p w1 (setRunning p w1)"
  shows "lands ready core Running p w (suspendCurrentThread_calling setRunning cfg m p t options w)"
proof -
  have core: "core m" "p \<notin> set (queued w)" using susp by (simp_all add: suspendable_def)
  obtain w1 where r1: "(if options AND SUSPEND_OPT_DONT_UPDATE_THREAD_TIME \<noteq> 0 then Inr w
        else if t = 0 then ThreadManager_updateCurrentThreadVT cfg m p w
        else ThreadManager_setCurrentThreadVT cfg m t p w) = Inr w1" and a1: "acts ready p w w1 (\<lambda>t. t)"
    using start_acts [OF cfg ok core] by (auto simp: does_def)
  obtain w2 f where r2: "(if options AND SUSPEND_OPT_FORCE_SUSPEND \<noteq> 0
        then bindE (ask_queue (\<lambda>_. ThreadQueue_empty) w1) (\<lambda>(w2, e).
             if \<not> e then Inr (w2, True) else ask_registry ThreadRegistry_atLeastOneThreadBeingSpawned w2)
        else Inr (w1, False)) = Inr (w2, f)" and a2: "acts ready p w1 w2 (\<lambda>t. t)"
    using forced_acts [OF acts_ok [OF a1]] unfolding does_def by fast
  note a = acts_trans [OF a1 a2]
  have "c_manager (look p w2) = None \<or> c_manager (look p w2) = Some m"
    using susp acts_look [OF a] by (simp only: suspendable_def) 
  from should_suspend_acts [OF acts_ok [OF a] this, where f = f]
  obtain w3 b where r3: "(if f then Inr (w2, True) else ThreadManager_shouldCurrentThreadSuspend m p w2) = Inr (w3, b)"
    and a3: "acts ready p w2 w3 (\<lambda>t. t)"
    and b: "\<not> b \<Longrightarrow> c_manager (look p w) = Some m \<and> \<not> ThreadManager_anotherThreadAlreadySetRunning m p w"
    using acts_look [OF a] another_acts [OF a] unfolding does_def by (auto simp del: look_state)
  note a = acts_trans [OF a a3]
  have queue: "p \<notin> set (queued w3)" using not_queued_acts [OF a] core(2) by simp
  have lists: "\<not> options AND SUSPEND_OPT_THREAD_ALREADY_IN_LIST \<noteq> 0" using list by simp
  have "lands ready core Running p w3
      (if b
       then bindE (ThreadManager_setSuspendedAndPushToRunnables m p w3) (\<lambda>w4.
           bindE (assertE AssertFailed (\<not> awaken (scheduling_of (thr p
               (if options AND SUSPEND_OPT_DONT_WAKE_UP_SCHEDULER = 0
                then ThreadManager_unconditionalWakeup m w4 else w4))))) (\<lambda>_.
           Inr (ThreadManager_blockCurrentThread p
                  (if \<not> options AND SUSPEND_OPT_DONT_UPDATE_THREAD_TIME \<noteq> 0 \<and> t = 0 then [UpdateCpuTimeClock] else [])
                  (if options AND SUSPEND_OPT_DONT_WAKE_UP_SCHEDULER = 0
                   then ThreadManager_unconditionalWakeup m w4 else w4), True)))
      else if ThreadManager_getRunningThread m w3 \<noteq> Some p then bindE (Inr w3) (setRunning p) else Inr (w3, False))"
  proof (cases b)
    case True
    have "parked_view core Running (park m (SetRunning # (if \<not> options AND SUSPEND_OPT_DONT_UPDATE_THREAD_TIME \<noteq> 0 \<and> t = 0
        then [UpdateCpuTimeClock] else [])) (look p w3))"
      by (rule parked_park) (use susp acts_look [OF a] in \<open>simp_all add: suspendable_def\<close>)
    note p = this
    show ?thesis unfolding if_P [OF True]
    proof (rule does_mono [OF suspended_block_acts [OF acts_ok [OF a] queue]])
      show "acts ready p w1 (if options AND SUSPEND_OPT_DONT_WAKE_UP_SCHEDULER = 0 then ThreadManager_unconditionalWakeup m w1
          else w1) (\<lambda>t. t)" if "shared_ok ready w1" for w1
        using wakeup_acts [OF that] acts_refl [OF that] by simp
    qed (use p in \<open>auto simp: outcome_def acts_other simp del: look_state dest: acts_ok acts_look\<close>)
  next
    case False
    show ?thesis
    proof (cases "ThreadManager_getRunningThread m w3 = Some p")
      case True
      then have "m \<in> c_running (look p w3)" by (simp add: ThreadManager_getRunningThread_def)
      then have "fits core Running (look p w3)"
        using running susp False b unfolding acts_look [OF a]
        by (auto simp: suspendable_def managed_def simp del: look_state)
      then show ?thesis using \<open>\<not> b\<close> True acts_ok [OF a] by (simp add: outcome_def)
    next
      case False
      then show ?thesis using \<open>\<not> b\<close> lands_after [OF acts_refl [OF acts_ok [OF a]] set [OF a]] b by simp
    qed
  qed
  then have "lands ready core Running p w3 (suspendCurrentThread_calling setRunning cfg m p t options w)"
    by (simp only: suspendCurrentThread_calling_def Let_def r1 r2 r3 bindE_Inr prod.case lists if_False)
  then show ?thesis by (rule lands_after [OF a])
qed

lemma setRunning_lands:
  assumes cfg: "controller cfg = ctrl" and ok: "shared_ok ready w" and susp: "suspendable core m (look p w)" and n: "0 < n"
  shows "lands ready core Running p w (setRunningThread_fuel n cfg m p w)"
proof -
  obtain k where k: "n = Suc k" using n by (cases n) auto
  let ?w1 = "upd_thr p (upd_sched (Scheduling_setAwaken False)) w"
  have a1: "acts ready p w ?w1 (\<lambda>t. t\<lparr>c_awaken := False\<rparr>)"
    by (rule acts_cong [OF acts_upd_thr [OF ok]]) (auto simp: see_def look_def Let_def upd_sched_def Scheduling_setAwaken_def)
  have core: "core m" "p \<notin> set (queued w)" using susp by (simp_all add: suspendable_def)
  have q1: "p \<notin> set (queued ?w1)" using core by simp
  have susp1: "suspendable core m (look p ?w1)" unfolding acts_look [OF a1] using susp by (simp add: suspendable_def)
  show ?thesis
  proof (cases "ThreadManager_anotherThreadAlreadySetRunning m p w")
    case False
    then have "runningThread (managers ?w1 m) = None \<or> runningThread (managers ?w1 m) = Some p"
      by (auto simp: ThreadManager_anotherThreadAlreadySetRunning_def)
    from set_running_acts [OF acts_ok [OF a1] q1 this]
    obtain w2 where r2: "ThreadManager_changeThreadStateToRunning m p ?w1 = (w2, True)"
      and a2: "acts ready p ?w1 w2 (\<lambda>t. t\<lparr>c_state := RUNNING, c_manager := Some m, c_running := insert m (c_running t)\<rparr>)" by blast
    note a = acts_trans [OF a1 a2]
    have q2: "p \<notin> set (queued w2)" using not_queued_acts [OF a] core(2) by simp
    obtain w3 where r3: "update_timestamp cfg m Resuming p w2 = Inr w3" and a3: "acts ready p w2 w3 (\<lambda>t. t)"
      using update_acts [OF cfg acts_ok [OF a] core(1) q2] by (auto simp: does_def)
    note a = acts_trans [OF a a3]
    have "controllingManager p w3 = Some m" using acts_look [OF a] look_state(3) [of p w3] by simp
    then have "setRunningThread_fuel n cfg m p w = Inr (w3, False)" by (simp add: k Let_def r2 r3 assertE_def)
    then show ?thesis using lands_ends [OF a] susp by (simp add: suspendable_def managed_def insert_absorb subset_singleton_iff)
  next
    case True
    then have no: "ThreadManager_changeThreadStateToRunning m p ?w1 = (?w1, False)"
      by (auto simp: ThreadManager_anotherThreadAlreadySetRunning_def ThreadManager_changeThreadStateToRunning_def)
    have "lands ready core Running p ?w1 (suspendCurrentThread_calling (setRunningThread_fuel k cfg m) cfg m p 0
        (SUSPEND_OPT_FORCE_SUSPEND OR SUSPEND_OPT_DONT_UPDATE_THREAD_TIME OR 0) ?w1)"
      by (rule suspend_calling_lands [OF cfg acts_ok [OF a1] susp1])
        (use True another_acts [OF a1, of m] in \<open>auto simp: ThreadManager_anotherThreadAlreadySetRunning_def\<close>)
    then have "lands ready core Running p ?w1 (setRunningThread_fuel n cfg m p w)"
      using reads_queue(3) [OF acts_ok [OF a1], of p] q1 by (simp add: k Let_def no)
    then show ?thesis by (rule lands_after [OF a1])
  qed
qed

lemma suspend_lands:
  assumes cfg: "controller cfg = ctrl" "0 < stackDepth cfg" and ok: "shared_ok ready w"
    and susp: "suspendable core m (look p w)" and list: "options AND SUSPEND_OPT_THREAD_ALREADY_IN_LIST = 0"
    and running: "m \<in> c_running (look p w) \<Longrightarrow> c_state (look p w) = RUNNING \<and> c_manager (look p w) = Some m"
  shows "lands ready core Running p w (ThreadManager_suspendCurrentThread cfg m p t options w)"
  unfolding ThreadManager_suspendCurrentThread_def ThreadManager_setRunningThread_def
proof (rule suspend_calling_lands [OF cfg(1) ok susp list running])
  show "lands ready core Running p w1 (setRunningThread_fuel (stackDepth cfg) cfg m p w1)" if "acts ready p w w1 (\<lambda>t. t)" for w1
    by (rule setRunning_lands [OF cfg(1) acts_ok [OF that] _ cfg(2)]) (use susp acts_look [OF that] in simp)
qed

lemma loose_lands:
  assumes cfg: "controller cfg = ctrl" "0 < stackDepth cfg" and ok: "shared_ok ready w" and susp: "suspendable core m (look p w)"
  shows "lands ready core Running p w (ThreadManager_suspendLooseCurrentThread cfg m p t w)"
proof -
  have core: "core m" "p \<notin> set (queued w)" using susp by (simp_all add: suspendable_def)
  obtain w1 where r1: "(if t = 0 then ThreadManager_updateCurrentThreadVT cfg m p w
      else ThreadManager_setCurrentThreadVT cfg m t p w) = Inr w1" and a1: "acts ready p w w1 (\<lambda>t. t)"
    using start_acts [OF cfg(1) ok core, of False] by (auto simp: does_def)
  let ?w2 = "if minimizeTimeslotOnNw cfg
               then upd_mgr m (\<lambda>g. let g1 = g\<lparr>numberOfNativeWaitingThreads := numberOfNativeWaitingThreads g - 1\<rparr>
                                  in if numberOfNativeWaitingThreads g1 \<le> 0
                                     then (ThreadManager_resetDefaultSchedulerTimeslot g1)\<lparr>numberOfNativeWaitingThreads := 0\<rparr>
                                     else g1) w1
               else w1"
  have "acts ready p w1 ?w2 (\<lambda>t. t)"
    using acts_refl acts_upd_mgr acts_ok [OF a1]
    by (auto simp: Let_def ThreadManager_resetDefaultSchedulerTimeslot_def intro!: acts_upd_mgr)
  note a = acts_trans [OF a1 this]
  have q: "p \<notin> set (queued ?w2)" using not_queued_acts [OF a] core by simp
  have susp2: "suspendable core m (look p ?w2)" using susp acts_look [OF a] by simp
  have "lands ready core Running p ?w2 (bindE (ThreadManager_setSuspendedAndPushToRunnables m p ?w2) (\<lambda>w4.
             Inr (ThreadManager_blockCurrentThread p [UpdateCpuTimeClock] w4, True)))"
  proof (rule does_bind [OF suspended_push_acts [OF acts_ok [OF a] q]])
    fix w4 assume a4: "acts ready p ?w2 w4 (\<lambda>t. t\<lparr>c_state := SUSPENDED, c_awaken := False, c_timeout := -1, c_queued := True,
      c_running := c_running t - {m}\<rparr>)"
    have "acts ready p ?w2 (ThreadManager_blockCurrentThread p [UpdateCpuTimeClock] w4) (park m [SetRunning, UpdateCpuTimeClock])"
      unfolding ThreadManager_blockCurrentThread_def
      by (rule acts_cong [OF acts_trans [OF a4 block_acts [OF acts_ok [OF a4]]]]) (simp add: park_def)
    then show "lands ready core Running p ?w2 (Inr (ThreadManager_blockCurrentThread p [UpdateCpuTimeClock] w4, True))"
      using lands_parks [of ready p ?w2 _ "park m [SetRunning, UpdateCpuTimeClock]" core Running]
        parked_park [of "look p ?w2" m core "[SetRunning, UpdateCpuTimeClock]" Running] susp2
      by (simp add: suspendable_def)
  qed
  moreover have "lands ready core Running p ?w2 (ThreadManager_setRunningThread cfg m p ?w2)"
    unfolding ThreadManager_setRunningThread_def by (rule setRunning_lands [OF cfg(1) acts_ok [OF a] susp2 cfg(2)])
  ultimately have "lands ready core Running p ?w2 (bindE (ask_queue (\<lambda>_. ThreadQueue_empty) ?w2) (\<lambda>(w3, e).
      if \<not> e then bindE (ThreadManager_setSuspendedAndPushToRunnables m p w3) (\<lambda>w4.
             Inr (ThreadManager_blockCurrentThread p [UpdateCpuTimeClock] w4, True))
      else ThreadManager_setRunningThread cfg m p w3))"
    unfolding reads_queue(1) [OF acts_ok [OF a]] by simp
  then have "lands ready core Running p ?w2 (ThreadManager_suspendLooseCurrentThread cfg m p t w)"
    by (simp only: ThreadManager_suspendLooseCurrentThread_def Let_def r1 bindE_Inr)
  then show ?thesis by (rule lands_after [OF a])
qed

lemma yield_lands:
  assumes cfg: "controller cfg = ctrl" "0 < stackDepth cfg" and ok: "shared_ok ready w" and run: "fits core Running (look p w)"
    and m: "controllingManager p w = Some m"
  shows "lands ready core Running p w (ThreadManager_onThreadYield cfg m p t w)"
proof -
  have core: "core m" "p \<notin> set (queued w)" and susp: "suspendable core m (look p w)"
    using running_suspendable [OF run] m by auto
  show ?thesis
    unfolding ThreadManager_onThreadYield_def Let_def
  proof (rule lands_bind [OF lockless_acts [OF cfg(1) ok core]])
    fix w1 assume a1: "acts ready p w w1 (\<lambda>t. t)"
    let ?w2 = "upd_mgr m (\<lambda>g. g\<lparr>timesYielding := timesYielding g + 1\<rparr>) w1"
    have "acts ready p w1 ?w2 (\<lambda>t. t)" by (rule acts_upd_mgr [OF acts_ok [OF a1]]) simp
    note a2 = acts_trans [OF a1 this]
    have a3: "acts ready p w (upd_thr p (upd_timers (fst \<circ> Timers_leapTo x)) ?w2) (\<lambda>t. t)" for x
      using acts_trans [OF a2 acts_unseen [OF acts_ok [OF a2]]] not_queued_acts [OF a2] core(2) by (simp add: unseen_facts)
    have "lands ready core Running p w (ThreadManager_suspendCurrentThread cfg m p 0
        (SUSPEND_OPT_DONT_UPDATE_THREAD_TIME OR SUSPEND_OPT_FORCE_SUSPEND)
        (upd_thr p (upd_timers (fst \<circ> Timers_leapTo x)) ?w2))" for x
      by (rule lands_after [OF a3], rule suspend_lands [OF cfg acts_ok [OF a3]])
        (use susp run acts_look [OF a3] m in \<open>simp_all del: look_state add: look_state(3) [symmetric] controllingManager_def\<close>)
    then have "lands ready core Running p w (bindE (ask_queue (\<lambda>st. ThreadQueue_getHighestRunnableTime st p) ?w2)
       (\<lambda>(w3, h). ThreadManager_suspendCurrentThread cfg m p 0 (SUSPEND_OPT_DONT_UPDATE_THREAD_TIME OR SUSPEND_OPT_FORCE_SUSPEND)
          (upd_thr p (upd_timers (fst \<circ> Timers_leapTo (h + 1))) w3)))"
      unfolding reads_queue(4) [OF acts_ok [OF a2]] by simp
    then show "lands ready core Running p w1 (bindE (ask_queue (\<lambda>st. ThreadQueue_getHighestRunnableTime st p) ?w2)
       (\<lambda>(w3, h). ThreadManager_suspendCurrentThread cfg m p 0 (SUSPEND_OPT_DONT_UPDATE_THREAD_TIME OR SUSPEND_OPT_FORCE_SUSPEND)
          (upd_thr p (upd_timers (fst \<circ> Timers_leapTo (h + 1))) w3)))"
      by (rule does_mono) (rule outcome_other, assumption, rule acts_other [symmetric, OF a1])
  qed
qed

end

section \<open>Waiting, leaving and entering\<close>

lemma setTimedWaiting_sees [simp]:
  "currentState (VexThreadState_setTimedWaiting g t s) = WAITING" "awaken (scheduling_of (VexThreadState_setTimedWaiting g t s)) = False"
  "threadCurrentlyControllingManager (scheduling_of (VexThreadState_setTimedWaiting g t s)) = threadCurrentlyControllingManager (scheduling_of s)"
  "previouslyControllingManager (scheduling_of (VexThreadState_setTimedWaiting g t s)) = previouslyControllingManager (scheduling_of s)"
  "timeout (thr_timers (VexThreadState_setTimedWaiting g t s)) = t"
  "waitingInRealTime (VexThreadState_setTimedWaiting g t s) = waitingInRealTime s"
  by (auto simp: VexThreadState_setTimedWaiting_def VexThreadState_setNewState_def upd_sched_def upd_stats_def upd_timers_def
      Scheduling_setAwaken_def Timers_setLastTimePerStateERT_def Timers_updateTimesBeforeWaitingWithTimeout_def Let_def)

lemma setWaitingObjectId_sees [simp]:
  "currentState (VexThreadState_setWaitingObjectId ob s) = currentState s"
  "scheduling_of (VexThreadState_setWaitingObjectId ob s) = scheduling_of s"
  "thr_timers (VexThreadState_setWaitingObjectId ob s) = thr_timers s"
  "waitingInRealTime (VexThreadState_setWaitingObjectId ob s) = waitingInRealTime s"
  by (simp_all add: VexThreadState_setWaitingObjectId_def)

lemma addInvocationPoints_sees [simp]:
  "currentState (VexThreadState_addInvocationPoints s) = currentState s"
  "awaken (scheduling_of (VexThreadState_addInvocationPoints s)) = awaken (scheduling_of s)"
  "threadCurrentlyControllingManager (scheduling_of (VexThreadState_addInvocationPoints s)) = threadCurrentlyControllingManager (scheduling_of s)"
  "previouslyControllingManager (scheduling_of (VexThreadState_addInvocationPoints s)) = previouslyControllingManager (scheduling_of s)"
  "thr_timers (VexThreadState_addInvocationPoints s) = thr_timers s"
  "waitingInRealTime (VexThreadState_addInvocationPoints s) = waitingInRealTime s"
  by (simp_all add: VexThreadState_addInvocationPoints_def upd_sched_def upd_stats_def Scheduling_increaseVtfInvocationsSinceLastResume_def)

lemma setAwakeningFromJoin_sees [simp]:
  "currentState (upd_sched (Scheduling_setAwakeningFromJoin b) s) = currentState s"
  "awaken (scheduling_of (upd_sched (Scheduling_setAwakeningFromJoin b) s)) = awaken (scheduling_of s)"
  "threadCurrentlyControllingManager (scheduling_of (upd_sched (Scheduling_setAwakeningFromJoin b) s)) = threadCurrentlyControllingManager (scheduling_of s)"
  "previouslyControllingManager (scheduling_of (upd_sched (Scheduling_setAwakeningFromJoin b) s)) = previouslyControllingManager (scheduling_of s)"
  "thr_timers (upd_sched (Scheduling_setAwakeningFromJoin b) s) = thr_timers s"
  "waitingInRealTime (upd_sched (Scheduling_setAwakeningFromJoin b) s) = waitingInRealTime s"
  by (simp_all add: upd_sched_def Scheduling_setAwakeningFromJoin_def)

lemma timed_push_acts:
  assumes "shared_ok ready w" "p \<notin> set (queued w)"
  shows "does (ThreadManager_setTimedWaitingThread m p w) (\<lambda>w'. acts ready p w w'
    (\<lambda>t. t\<lparr>c_state := WAITING, c_queued := True, c_running := c_running t - {m}\<rparr>))"
proof -
  let ?w1 = "ThreadManager_unsetCurrentThreadFromRunningThread m p w"
  note u = unset_acts [OF assms(1), of p m]
  have a: "acts ready p w (upd_thr p VexThreadState_setWaiting ?w1) (\<lambda>t. t\<lparr>c_state := WAITING, c_running := c_running t - {m}\<rparr>)"
    by (rule acts_cong [OF acts_then_upd [OF u, of VexThreadState_setWaiting]])
      (auto simp: see_def look_def Let_def ThreadManager_unsetCurrentThreadFromRunningThread_def)
  show ?thesis
    unfolding ThreadManager_setTimedWaitingThread_def Let_def
    by (rule does_mono [OF acts_then [OF a push_acts]])
      (use acts_ok [OF a] not_queued_acts [OF a] assms(2) in \<open>auto elim!: acts_cong\<close>)
qed

text \<open>The two waits inside VEX.\<close>

lemma timed_waiting_lands:
  assumes ok: "shared_ok ready w" and run: "fits core Running (look p w)" and t: "t > 0"
  shows "lands ready core Running p w (run_frame cfg p (ReplacedTimedWaiting ob t) w)"
proof -
  obtain m where m: "controllingManager p w = Some m" "core m" "p \<notin> set (queued w)" "c_running (look p w) = {m}" "blockedIn w p = None"
    using running_suspendable [OF run] by blast
  let ?f = "VexThreadState_setTimedWaiting (globalScalingFactor cfg) t \<circ> VexThreadState_setWaitingObjectId ob"
  have a1: "acts ready p w (upd_thr p ?f w) (see (?f (thr p w)))" by (rule acts_upd_thr [OF ok]) (use m in simp)
  have m1: "controllingManager p (upd_thr p ?f w) = Some m"
    using m(1) by (simp add: controllingManager_def)
  have q1: "p \<notin> set (queued (upd_thr p ?f w))" using m(3) by simp
  obtain w2 where r2: "ThreadManager_setTimedWaitingThread m p (upd_thr p ?f w) = Inr w2"
    and a2: "acts ready p (upd_thr p ?f w) w2 (\<lambda>t. t\<lparr>c_state := WAITING, c_queued := True, c_running := c_running t - {m}\<rparr>)"
    using timed_push_acts [OF acts_ok [OF a1] q1, of m] by (auto simp: does_def)
  note a = acts_trans [OF acts_trans [OF a1 a2] wakeup_acts [OF acts_ok [OF a2], of p m]]
  note a = acts_trans [OF a block_acts [OF acts_ok [OF a], of p "[UpdateTimedOutWaiting m, SetRunning]"]]
  show ?thesis
    unfolding run_frame.simps Let_def m1 managerOf_def option.case bindE_Inr ThreadManager_onReplacedTimedWaiting_def r2
    by (rule lands_parks [OF a])
      (use m t in \<open>auto simp: see_def parked_view_def code_left_def runnable_view_def\<close>)
qed

lemma waiting_lands:
  assumes ok: "shared_ok ready w" and run: "fits core Running (look p w)"
  shows "lands ready core Running p w (run_frame cfg p (ReplacedWaiting ob True) w)"
proof -
  obtain m where m: "controllingManager p w = Some m" "core m" "p \<notin> set (queued w)" "c_running (look p w) = {m}" "blockedIn w p = None"
    using running_suspendable [OF run] by blast
  let ?f = "\<lambda>s. VexThreadState_setWaiting (VexThreadState_setWaitingObjectId ob (s\<lparr>timedOut := True\<rparr>))"
  have a1: "acts ready p w (upd_thr p ?f w) (see (?f (thr p w)))" by (rule acts_upd_thr [OF ok]) (use m in simp)
  note a2 = acts_then_upd [OF a1, of "set_timeout (-2)"]
  let ?w2 = "upd_thr p (set_timeout (-2)) (upd_thr p ?f w)"
  have a2: "acts ready p w ?w2 (\<lambda>t. see (set_timeout (-2) (thr p (upd_thr p ?f w))) (see (?f (thr p w)) t))"
    by (rule a2) (use m in simp)
  have m2: "controllingManager p ?w2 = Some m" using m(1) by (simp add: controllingManager_def)
  note a = acts_trans [OF a2 unset_acts [OF acts_ok [OF a2], of p m]]
  note a = acts_trans [OF a wakeup_acts [OF acts_ok [OF a], of p m]]
  note a = acts_trans [OF a block_acts [OF acts_ok [OF a], of p "[UpdateTimedOutWaiting m, SetRunning]"]]
  show ?thesis
    unfolding run_frame.simps Let_def if_True m2 managerOf_def option.case bindE_Inr ThreadManager_onReplacedWaiting_def
    by (rule lands_parks [OF a])
      (use m in \<open>auto simp: see_def parked_view_def code_left_def notified_view_def idle_view_def\<close>)
qed

text \<open>Leaving a wait in real time; the thread is still queued.\<close>

lemma timed_waiting_end_lands:
  assumes ok: "shared_ok ready w" and run: "fits core Leaving (look p w)"
  shows "lands ready core Running p w (run_frame cfg p WrappedTimedWaitingEnd w)"
proof -
  obtain m where m: "controllingManager p w = Some m" "core m" using run by (auto simp: managed_def split: option.splits)
  have a: "acts ready p w (upd_thr p VexThreadState_setSuspended w) (see (VexThreadState_setSuspended (thr p w)))"
    by (rule acts_upd_thr [OF ok]) simp
  note a = acts_trans [OF a wakeup_acts [OF acts_ok [OF a], of p m]]
  note a = acts_trans [OF a block_acts [OF acts_ok [OF a], of p "[UpdateTimedOutWaiting m, SetRunning, AssertRunning]"]]
  show ?thesis
    unfolding run_frame.simps m managerOf_def option.case bindE_Inr ThreadManager_onWrappedTimedWaitingEnd_def
    by (rule lands_parks [OF a])
      (use m run in \<open>auto simp: see_def parked_view_def code_left_def runnable_view_def managed_def simp del: look_state\<close>)
qed

text \<open>Registration of threads: other threads are changed in ways that their scheduling does not see.\<close>

lemma look_cong:
  "thr q w' = f (thr q w) \<Longrightarrow> unseen f \<Longrightarrow> runnableThreads w' = runnableThreads w \<Longrightarrow> blockedIn w' = blockedIn w \<Longrightarrow>
   managers w' = managers w \<Longrightarrow> look q w' = look q w"
  by (simp add: look_def Let_def unseen_def queued_def)

lemma acts_cells:
  assumes "shared_ok ready w" "\<not> registry_mutex r"
    "\<And>q. \<exists>f. states c q = f (thr q w) \<and> unseen f \<and> (q \<notin> set (queued w) \<or> ert (f (thr q w)) = ert (thr q w))"
  shows "acts ready p w (w\<lparr>cells := c, threadRegistry := r\<rparr>) (\<lambda>t. t)"
proof -
  let ?w = "w\<lparr>cells := c, threadRegistry := r\<rparr>"
  have "look q ?w = look q w \<and> (q \<notin> set (queued w) \<or> ert (states c q) = ert (states (cells w) q))" for q
  proof -
    obtain f where "states c q = f (thr q w)" "unseen f" "q \<notin> set (queued w) \<or> ert (f (thr q w)) = ert (thr q w)"
      using assms(3) [of q] by blast
    then show ?thesis using look_cong [of q ?w f w] by (simp add: thr_def)
  qed
  moreover from this have "tq_ok (states c) (runnableThreads w)"
    by (intro tq_ok_cong [OF shared_okD(6) [OF assms(1)]]) (auto simp: queued_def)
  ultimately show ?thesis using assms(1,2) by (simp add: acts_def shared_ok_def)
qed

lemma notify_parent_cells:
  "\<exists>A. states (VexThreadState_notifyParentWaitingForYouToJoin p c) =
     (\<lambda>q. if q \<in> A then upd_sched (Scheduling_setAwakeningFromJoin True) (states c q) else states c q)"
proof (cases "parentThreadWaitingYouToJoin c p")
  case (Some cell)
  show ?thesis
  proof (cases "currentThreadState c cell")
    case (Some q)
    then have "states (VexThreadState_notifyParentWaitingForYouToJoin p c) =
       (\<lambda>x. if x \<in> {q} then upd_sched (Scheduling_setAwakeningFromJoin True) (states c x) else states c x)"
      using \<open>parentThreadWaitingYouToJoin c p = Some cell\<close>
      by (simp add: VexThreadState_notifyParentWaitingForYouToJoin_def upd_state_def fun_eq_iff)
    then show ?thesis by blast
  qed (simp add: Some VexThreadState_notifyParentWaitingForYouToJoin_def exI [of _ "{}"])
qed (simp add: VexThreadState_notifyParentWaitingForYouToJoin_def exI [of _ "{}"])

lemma registry_remove_acts:
  assumes "shared_ok ready w"
  shows "\<exists>c r. ThreadRegistry_remove p (cells w, threadRegistry w) = Inr (c, r) \<and>
    acts ready p w (w\<lparr>cells := c, threadRegistry := r\<rparr>) (\<lambda>t. t)"
proof -
  let ?c = "VexThreadState_notifyParentWaitingForYouToJoin p (cells w)"
  obtain r where r: "ThreadRegistry_remove p (cells w, threadRegistry w) = Inr (?c, r)" "\<not> registry_mutex r"
    using shared_okD(4) [OF assms] by (auto simp: ThreadRegistry_remove_def lockRegistry_def unlockRegistry_def Let_def)
  obtain A where A: "states ?c = (\<lambda>q. if q \<in> A then upd_sched (Scheduling_setAwakeningFromJoin True) (thr q w) else thr q w)"
    using notify_parent_cells [of p "cells w"] unfolding thr_def by blast
  have "acts ready p w (w\<lparr>cells := ?c, threadRegistry := r\<rparr>) (\<lambda>t. t)"
  proof (rule acts_cells [OF assms r(2)])
    fix q
    let ?f = "if q \<in> A then upd_sched (Scheduling_setAwakeningFromJoin True) else (\<lambda>s. s)"
    have "unseen ?f" by (simp add: unseen_def)
    moreover have "states ?c q = ?f (thr q w)" "ert (?f (thr q w)) = ert (thr q w)" by (simp_all add: A)
    ultimately show "\<exists>f. states ?c q = f (thr q w) \<and> unseen f \<and> (q \<notin> set (queued w) \<or> ert (f (thr q w)) = ert (thr q w))"
      by blast
  qed
  with r show ?thesis by blast
qed

lemma registry_add_acts:
  assumes "shared_ok ready w" "p \<notin> set (queued w)"
  shows "\<exists>c r. ThreadRegistry_add named p (cells w, threadRegistry w) = Inr (c, r) \<and>
    acts ready p w (w\<lparr>cells := c, threadRegistry := r\<rparr>) (\<lambda>t. t)"
proof -
  have "\<exists>c r. ThreadRegistry_add named p (cells w, threadRegistry w) = Inr (c, r) \<and> \<not> registry_mutex r \<and>
      (c = cells w \<or> (\<exists>t. c = upd_state p (upd_timers (Timers_setEstimatedRealTime t)) (cells w)))"
    using shared_okD(4) [OF assms(1)]
    by (cases "parentThreadIdsToTheirERTs (threadRegistry w) (jthreadId (states (cells w) p))")
      (auto simp: ThreadRegistry_add_def lockRegistry_def unlockRegistry_def Let_def)
  then obtain c r where cr: "ThreadRegistry_add named p (cells w, threadRegistry w) = Inr (c, r)" "\<not> registry_mutex r"
    "c = cells w \<or> (\<exists>t. c = upd_state p (upd_timers (Timers_setEstimatedRealTime t)) (cells w))" by blast
  have "acts ready p w (w\<lparr>cells := c, threadRegistry := r\<rparr>) (\<lambda>t. t)"
  proof (rule acts_cells [OF assms(1) cr(2)])
    fix q show "\<exists>f. states c q = f (thr q w) \<and> unseen f \<and> (q \<notin> set (queued w) \<or> ert (f (thr q w)) = ert (thr q w))"
    proof (cases "states c q = thr q w")
      case True
      have "unseen (\<lambda>s. s)" by (simp add: unseen_def)
      with True show ?thesis by (intro exI [of _ "\<lambda>s. s"]) simp
    next
      case False
      then obtain t where "states c q = upd_timers (Timers_setEstimatedRealTime t) (thr q w)" "q = p"
        using cr(3) by (auto simp: thr_def upd_state_def split: if_splits)
      moreover have "unseen (upd_timers (Timers_setEstimatedRealTime t))" by (simp add: unseen_facts)
      ultimately show ?thesis using assms(2) by blast
    qed
  qed
  with cr show ?thesis by blast
qed

lemma unset_wakeup_acts:
  assumes "shared_ok ready w"
  shows "acts ready p w (ThreadManager_unsetCurrentThreadFromRunningThreadAndWakeup m p w) (\<lambda>t. t\<lparr>c_running := c_running t - {m}\<rparr>)"
proof (cases "runningThread (managers w m) = Some p")
  case True
  note a = unset_acts [OF assms, of p m]
  have "ThreadManager_unsetCurrentThreadFromRunningThread m p w = upd_mgr m (\<lambda>g. g\<lparr>runningThread := None\<rparr>) w"
    using True by (simp add: ThreadManager_unsetCurrentThreadFromRunningThread_def upd_mgr_def fun_upd_def)
  then show ?thesis using True acts_trans [OF a wakeup_acts [OF acts_ok [OF a]]]
    by (simp add: ThreadManager_unsetCurrentThreadFromRunningThreadAndWakeup_def)
next
  case False
  then show ?thesis using acts_cong [OF acts_refl [OF assms]]
    by (auto simp: ThreadManager_unsetCurrentThreadFromRunningThreadAndWakeup_def look_def Let_def)
qed

context time_controller
begin

lemma thread_end_lands:
  assumes cfg: "controller cfg = ctrl" and ok: "shared_ok ready w" and run: "fits core Running (look p w)"
  shows "lands ready core Outside p w (run_frame cfg p ThreadEnd w)"
proof -
  obtain m where m: "controllingManager p w = Some m" "core m" "p \<notin> set (queued w)" "c_running (look p w) = {m}" "blockedIn w p = None"
    using running_suspendable [OF run] by blast
  obtain w1 where r1: "ThreadManager_updateCurrentThreadVT cfg m p w = Inr w1" and a1: "acts ready p w w1 (\<lambda>t. t)"
    using updateVT_acts [OF cfg ok m(2,3)] by (auto simp: does_def)
  let ?w2 = "upd_thr p VexThreadState_setDead w1"
  have q1: "p \<notin> set (queued w1)" using not_queued_acts [OF a1] m(3) by simp
  have a2: "acts ready p w ?w2 (\<lambda>t. see (VexThreadState_setDead (thr p w1)) t)"
    by (rule acts_then_upd [OF a1]) (use m in simp)
  obtain c r where r2: "ThreadRegistry_remove p (cells ?w2, threadRegistry ?w2) = Inr (c, r)"
    and a3: "acts ready p ?w2 (?w2\<lparr>cells := c, threadRegistry := r\<rparr>) (\<lambda>t. t)"
    using registry_remove_acts [OF acts_ok [OF a2]] by blast
  have a4: "acts ready p w (?w2\<lparr>cells := c, threadRegistry := r\<rparr>) (\<lambda>t. see (VexThreadState_setDead (thr p w1)) t)"
    using acts_trans [OF a2 a3] by simp
  let ?w5 = "ThreadManager_unsetCurrentThreadFromRunningThreadAndWakeup m p (?w2\<lparr>cells := c, threadRegistry := r\<rparr>)"
  note a5 = acts_trans [OF a4 unset_wakeup_acts [OF acts_ok [OF a4], of p m]]
  have a6: "acts ready p ?w5 (upd_thr p (\<lambda>s. s\<lparr>inVex := False\<rparr>) ?w5) (\<lambda>t. t)"
    by (rule acts_unseen [OF acts_ok [OF a5]]) (simp_all add: unseen_facts)
  have e: "ThreadManager_onThreadEnd cfg m p w = Inr (upd_thr p (\<lambda>s. s\<lparr>inVex := False\<rparr>) ?w5)"
    unfolding ThreadManager_onThreadEnd_def r1 bindE_Inr Let_def r2 by simp
  show ?thesis
    unfolding run_frame.simps m managerOf_def option.case bindE_Inr e returns_def
    by (rule lands_ends [OF acts_trans [OF a5 a6]]) (use m in \<open>simp add: see_def idle_view_def VexThreadState_setDead_def\<close>)
qed

end

lemma unseen_frame:
  assumes "shared_ok ready w" "fits core M (look p w)" "unseen f" "\<And>s. ert (f s) = ert s"
  shows "lands ready core M p w (Inr (upd_thr p f w, False))"
  by (rule lands_ends [OF acts_unseen]) (use assms in simp_all)

lemma ert_kept [simp]:
  "estimatedRealTime (Timers_updateCpuTimeClock d t) = estimatedRealTime t"
  "estimatedRealTime (fst (Timers_updateClocks d d' t)) = estimatedRealTime t"
  "estimatedRealTime (Timers_updateRealTimeClock d t) = estimatedRealTime t"
  "estimatedRealTime (Timers_updateWaitingTimeFrom d t) = estimatedRealTime t"
  by (simp_all add: Timers_updateCpuTimeClock_def Timers_updateClocks_def Timers_updateRealTimeClock_def
      Timers_updateWaitingTimeFrom_def Let_def)

lemma ert_upd [simp]: "ert (upd_timers f s) = estimatedRealTime (f (thr_timers s))" "ert (upd_sched g s) = ert s"
  by (simp_all add: upd_timers_def upd_sched_def)

lemma lock_key_acts:
  "shared_ok ready w \<Longrightarrow> acts ready p w (VexThreadState_lockShareResourceAccessKey p w) (\<lambda>t. t)"
  unfolding VexThreadState_lockShareResourceAccessKey_def by (rule acts_unseen) (auto intro: unseen_facts)

lemma entry_done_lands:
  assumes "shared_ok ready w" "fits core Running (look p w)"
  shows "lands ready core Running p w (entry_done p w)"
proof -
  have "controllingManager p w \<noteq> None" using running_suspendable [OF assms(2)] by auto
  then show ?thesis using lands_ends [OF lock_key_acts [OF assms(1)], of core Running p] assms(2)
    by (simp add: entry_done_def assertE_def)
qed

context time_controller
begin

lemma entry_lands:
  assumes cfg: "controller cfg = ctrl" "0 < stackDepth cfg" and ok: "shared_ok ready w"
    and run: "fits core Running (look p w) \<or> fits core Native (look p w)"
  shows "lands ready core Running p w (VexThreadState_onVexEntry cfg p t w)"
proof -
  let ?w1 = "upd_thr p (\<lambda>s. s\<lparr>inVex := True\<rparr>) w"
  have a1: "acts ready p w ?w1 (\<lambda>t. t)" by (rule acts_unseen [OF ok]) (simp_all add: unseen_facts)
  show ?thesis
  proof (cases "fits core Running (look p w)")
    case True
    obtain m where m: "controllingManager p w = Some m" "p \<notin> set (queued w)" using running_suspendable [OF True] by blast
    let ?w2 = "upd_thr p (upd_timers (Timers_updateThreadLocalTimeSinceLastResumeTo (globalScalingFactor cfg) t)) ?w1"
    have "acts ready p ?w1 ?w2 (\<lambda>t. t)" by (rule acts_unseen [OF acts_ok [OF a1]]) (use m in \<open>simp_all add: unseen_facts\<close>)
    note a2 = acts_trans [OF a1 this]
    have "lands ready core Running p ?w2 (entry_done p ?w2)"
      by (rule entry_done_lands [OF acts_ok [OF a2]]) (use True acts_look [OF a2] in \<open>simp del: look_state\<close>)
    moreover have "isRunning (thr p ?w1)" "controllingManager p ?w1 \<noteq> None"
      using True m by (auto simp: isRunning_def controllingManager_def)
    ultimately show ?thesis using lands_after [OF a2] by (auto simp add: VexThreadState_onVexEntry_def Let_def)
  next
    case False
    with run have native: "fits core Native (look p w)" by blast
    let ?w2 = "VexThreadState_lockShareResourceAccessKey p (upd_thr p VexThreadState_setCustom2 ?w1)"
    have "acts ready p ?w1 (upd_thr p VexThreadState_setCustom2 ?w1) (\<lambda>t. t)"
      by (rule acts_unseen [OF acts_ok [OF a1]]) (simp_all add: unseen_facts VexThreadState_setCustom2_def upd_stats_def)
    note a2 = acts_trans [OF a1 this]
    note a2 = acts_trans [OF a2 lock_key_acts [OF acts_ok [OF a2], of p]]
    have n2: "fits core Native (look p ?w2)" using native acts_look [OF a2] by (simp del: look_state)
    obtain m where m: "previouslyControllingManager (scheduling_of (thr p ?w2)) = Some m" "suspendable core m (look p ?w2)"
      using native_suspendable [OF n2] by blast
    have "\<not> isRunning (thr p ?w1)" using native by (auto simp: isRunning_def)
    moreover have "lands ready core Running p ?w2
        (and_then (ThreadManager_suspendLooseCurrentThread cfg m p t ?w2) p [EntryDone] (entry_done p))"
      by (rule lands_and_then [OF loose_lands [OF cfg acts_ok [OF a2] m(2)]]) (simp_all add: entry_done_lands)
    ultimately show ?thesis using lands_after [OF a2] m(1) by (simp add: VexThreadState_onVexEntry_def Let_def managerOf_def)
  qed
qed

lemma waiting_start_lands:
  assumes cfg: "controller cfg = ctrl" and ok: "shared_ok ready w" and run: "fits core Running (look p w)"
  shows "lands ready core RealWaiting p w (run_frame cfg p (WrappedWaitingStart t) w)"
proof -
  obtain m where m: "controllingManager p w = Some m" "core m" "p \<notin> set (queued w)" "c_running (look p w) = {m}" "blockedIn w p = None"
    using running_suspendable [OF run] by blast
  let ?f = "\<lambda>s. VexThreadState_setWaiting (upd_sched (Scheduling_setAwakeningFromJoin False)
                 (set_timeout (-1) ((VexThreadState_addInvocationPoints s)\<lparr>timedOut := True\<rparr>)))"
  have a1: "acts ready p w (upd_thr p ?f w) (see (?f (thr p w)))" by (rule acts_upd_thr [OF ok]) (use m in simp)
  have q1: "p \<notin> set (queued (upd_thr p ?f w))" using m(3) by simp
  obtain w2 where r2: "ThreadManager_setCurrentThreadVT cfg m t p (upd_thr p ?f w) = Inr w2"
    and a2: "acts ready p (upd_thr p ?f w) w2 (\<lambda>t. t)"
    using setVT_acts [OF cfg acts_ok [OF a1] m(2) q1] by (auto simp: does_def)
  note a = acts_trans [OF a1 a2]
  let ?w3 = "ThreadManager_unsetCurrentThreadFromRunningThread m p w2"
  note a = acts_trans [OF a unset_acts [OF acts_ok [OF a], of p m]]
  have "m \<notin> c_running (look p ?w3)" unfolding acts_look [OF a] by simp
  then have "ThreadManager_onWrappedWaitingStart cfg m p t (upd_thr p ?f w) = Inr (ThreadManager_unconditionalWakeup m ?w3)"
    by (simp add: ThreadManager_onWrappedWaitingStart_def r2 Let_def assertE_def)
  then show ?thesis
    unfolding run_frame.simps Let_def m(1) managerOf_def option.case bindE_Inr returns_def
    using lands_ends [OF acts_trans [OF a wakeup_acts [OF acts_ok [OF a], of p m]], of core RealWaiting] m
    by (simp add: see_def idle_view_def managed_def controllingManager_def)
qed

lemma timed_waiting_start_lands:
  assumes cfg: "controller cfg = ctrl" and ok: "shared_ok ready w" and run: "fits core Timing (look p w)"
  shows "lands ready core RealTimed p w (run_frame cfg p (WrappedTimedWaitingStart t) w)"
proof -
  obtain m where m: "controllingManager p w = Some m" "core m" "p \<notin> set (queued w)" "c_running (look p w) = {m}" "blockedIn w p = None"
    using run by (auto simp: managed_def split: option.splits)
  obtain w1 where r1: "ThreadManager_setCurrentThreadVT cfg m t p w = Inr w1" and a1: "acts ready p w w1 (\<lambda>t. t)"
    using setVT_acts [OF cfg ok m(2,3)] by (auto simp: does_def)
  have q1: "p \<notin> set (queued w1)" using not_queued_acts [OF a1] m(3) by simp
  obtain w2 where r2: "ThreadManager_setTimedWaitingThread m p w1 = Inr w2"
    and a2: "acts ready p w1 w2 (\<lambda>t. t\<lparr>c_state := WAITING, c_queued := True, c_running := c_running t - {m}\<rparr>)"
    using timed_push_acts [OF acts_ok [OF a1] q1, of m] by (auto simp: does_def)
  note a = acts_trans [OF a1 a2]
  have "ThreadManager_onWrappedTimedWaitingStart cfg m p t w = Inr (ThreadManager_unconditionalWakeup m w2)"
    by (simp add: ThreadManager_onWrappedTimedWaitingStart_def r1 r2)
  then show ?thesis
    unfolding run_frame.simps m(1) managerOf_def option.case bindE_Inr returns_def
    using lands_ends [OF acts_trans [OF a wakeup_acts [OF acts_ok [OF a], of p m]], of core RealTimed] run m
    by (simp add: timed_view_def managed_def)
qed

end

lemma set_timed_waiting_lands:
  assumes ok: "shared_ok ready w" and run: "fits core Running (look p w)" and t: "t > 0"
  shows "lands ready core Timing p w (run_frame cfg p (SetTimedWaiting ob t) w)"
proof -
  obtain m where m: "controllingManager p w = Some m" "core m" "p \<notin> set (queued w)" "c_running (look p w) = {m}" "blockedIn w p = None"
    using running_suspendable [OF run] by blast
  show ?thesis unfolding run_frame.simps
    by (rule lands_ends [OF acts_upd_thr [OF ok]])
      (use m t in \<open>simp_all add: see_def timed_view_def managed_def controllingManager_def\<close>)
qed

lemma leave_timed_waiting_lands:
  assumes ok: "shared_ok ready w" and run: "fits core RealTimed (look p w)"
  shows "lands ready core Leaving p w (run_frame cfg p (LeaveTimedWaiting r) w)"
proof -
  let ?w1 = "upd_thr p (\<lambda>s. s\<lparr>waitingInRealTime := False\<rparr>) w"
  have a1: "acts ready p w ?w1 (see ((thr p w)\<lparr>waitingInRealTime := False\<rparr>))" by (rule acts_upd_thr [OF ok]) simp
  have a2: "acts ready p ?w1 (?w1\<lparr>objectRegistry := x\<rparr>) (\<lambda>t. t)" for x
    using acts_ok [OF a1] by (simp add: acts_def look_def Let_def thr_def queued_def shared_ok_def)
  have a3: "acts ready p ?w1 w2 (\<lambda>t. t)" if "w2 = (case x of None \<Rightarrow> ?w1 | Some r \<Rightarrow> ?w1\<lparr>objectRegistry := r\<rparr>)" for w2 x
    using that a2 acts_refl [OF acts_ok [OF a1]] by (cases x) simp_all
  have a4: "acts ready p w (upd_thr p (\<lambda>s. s\<lparr>timedOut := True\<rparr>) w2) (see ((thr p w)\<lparr>waitingInRealTime := False\<rparr>))"
    if "w2 = (case x of None \<Rightarrow> ?w1 | Some r \<Rightarrow> ?w1\<lparr>objectRegistry := r\<rparr>)" for w2 x
  proof -
    note a = acts_trans [OF a1 a3 [OF that]]
    show ?thesis using acts_trans [OF a acts_unseen [OF acts_ok [OF a] unseen_fields(2)]] by simp
  qed
  show ?thesis unfolding run_frame.simps Let_def
    by (rule lands_ends [OF a4 [OF refl]])
      (use run in \<open>auto simp: see_def managed_def timed_view_def controllingManager_def\<close>)
qed

section \<open>Well-typed code\<close>

lemma clock_frames:
  assumes "shared_ok ready w" "fits core M (look p w)"
  shows "lands ready core M p w (Inr (update_cpu_clock p w, False))"
    "lands ready core M p w (Inr (update_clocks p w, False))"
    "lands ready core M p w (Inr (VexThreadState_lockShareResourceAccessKey p w, False))"
    "lands ready core M p w (Inr (VexThreadState_exit p w, False))"
  using unseen_frame [OF assms, of "upd_timers (Timers_updateCpuTimeClock (cpuTime w p))"]
    unseen_frame [OF assms, of "upd_timers (fst \<circ> Timers_updateClocks (cpuTime w p) (realTime w))"]
    unseen_frame [OF assms, of "\<lambda>s. s\<lparr>inVex := False\<rparr>"] lands_ends [OF lock_key_acts [OF assms(1)]] assms(2)
  by (simp_all add: unseen_facts update_cpu_clock_def update_clocks_def VexThreadState_exit_def)

lemma two_frames:
  assumes "lands ready core M p w (Inr (w1, False))"
    "\<And>w1. shared_ok ready w1 \<Longrightarrow> fits core M (look p w1) \<Longrightarrow> lands ready core M p w1 (Inr (f w1, False))"
  shows "lands ready core M p w (Inr (f w1, False))"
  using assms(1) assms(2) [of w1] by (auto simp: outcome_def)

context time_controller
begin

lemma run_frame_lands:
  assumes cfg: "controller cfg = ctrl" "0 < stackDepth cfg" and ok: "shared_ok ready w"
    and run: "fits core M (look p w)" and ty: "frame_type core f M = Some M'"
  shows "lands ready core M' p w (run_frame cfg p f w)"
proof (cases f)
  case SetRunning
  then have M: "M = Resumed" "M' = Running" using ty by (auto split: if_splits)
  obtain m where m: "controllingManager p w = Some m" "suspendable core m (look p w)"
    using run by (auto simp: M managed_def suspendable_def idle_view_def split: option.splits)
  show ?thesis using setRunning_lands [OF cfg(1) ok m(2) cfg(2)]
    by (simp add: SetRunning M m(1) managerOf_def ThreadManager_setRunningThread_def)
next
  case (UpdateTimedOutWaiting m)
  then have M: "M = Resumed" "M' = Resumed" "core m" using ty by (auto split: if_splits)
  have q: "p \<notin> set (queued w)" using run by (simp add: M idle_view_def)
  show ?thesis unfolding UpdateTimedOutWaiting run_frame.simps
    by (rule lands_returns [OF update_acts [OF cfg(1) ok M(3) q]]) (use run M in simp)
next
  case (OnVexEntry)
  then have "M' = Running" "M = Running \<or> M = Native" using ty by (auto split: if_splits)
  then show ?thesis using entry_lands [OF cfg ok] run OnVexEntry by (auto simp del: look_state)
next
  case (EntryAt t)
  then have "M' = Running" "M = Running \<or> M = Native" using ty by (auto split: if_splits)
  then show ?thesis using entry_lands [OF cfg ok] run EntryAt by (auto simp del: look_state)
next
  case EntryDone
  then show ?thesis using ty run entry_done_lands [OF ok] by (auto split: if_splits simp del: look_state)
next
  case EnterLocked
  let ?w1 = "upd_thr p (\<lambda>s. s\<lparr>inVex := True\<rparr>) w"
  have "acts ready p w ?w1 (\<lambda>t. t)" by (rule acts_unseen [OF ok]) (simp_all add: unseen_facts)
  note a = acts_trans [OF this lock_key_acts [OF acts_ok [OF this]]]
  show ?thesis using lands_ends [OF a] run ty EnterLocked by simp
next
  case EnsureManager
  then have M: "M' = M" "M = Running \<or> M = Timing \<or> M = Leaving" using ty by (auto split: if_splits)
  obtain m where m: "controllingManager p w = Some m" using run M by (auto simp: managed_def split: option.splits)
  have "run_frame cfg p f w = Inr (w, False)" using cfg(2)
    by (cases "stackDepth cfg") (simp_all add: EnsureManager VexThreadState_getCurrentlyControllingManagerOf_def m)
  then show ?thesis using lands_ends [OF acts_refl [OF ok]] run M by simp
next
  case AddInvocationPoints
  have "ert (VexThreadState_addInvocationPoints s) = ert s" for s by simp
  then show ?thesis using unseen_frame [OF ok run] ty AddInvocationPoints by (simp add: unseen_facts)
next
  case (SuspendCurrent t options)
  then have M: "M = Running" "M' = Running" "options = 0" using ty by (auto split: if_splits)
  obtain m where m: "controllingManager p w = Some m" "suspendable core m (look p w)"
    using running_suspendable [of core p w] run M by auto
  show ?thesis unfolding SuspendCurrent run_frame.simps m(1) managerOf_def option.case bindE_Inr M
    by (rule suspend_lands [OF cfg ok m(2)]) (use run M m in auto)
next
  case (Yield t)
  then have M: "M = Running" "M' = Running" using ty by (auto split: if_splits)
  obtain m where m: "controllingManager p w = Some m" using running_suspendable [of core p w] run M by auto
  show ?thesis unfolding Yield run_frame.simps m managerOf_def option.case bindE_Inr M
    by (rule yield_lands [OF cfg ok _ m]) (use run M in simp)
next
  case (ReplacedTimedWaiting ob t)
  then have M: "M = Running" "M' = Running" "t > 0" using ty by (auto split: if_splits)
  then show ?thesis using timed_waiting_lands [OF ok _ M(3)] run unfolding ReplacedTimedWaiting M by blast
next
  case (ReplacedWaiting ob internal)
  then have M: "M = Running" "M' = Running" "internal" using ty by (auto split: if_splits)
  then show ?thesis using waiting_lands [OF ok] run M(3) unfolding ReplacedWaiting M(1,2) by simp
next
  case (WrappedWaitingStart t)
  then have M: "M = Running" "M' = RealWaiting" using ty by (auto split: if_splits)
  then show ?thesis using waiting_start_lands [OF cfg(1) ok] run unfolding WrappedWaitingStart M by blast
next
  case (UpdateWaitingTimeFrom t)
  then show ?thesis using unseen_frame [OF ok run, of "upd_timers (Timers_updateWaitingTimeFrom t)"] ty by (simp add: unseen_facts)
next
  case (SetTimedWaiting ob t)
  then have M: "M = Running" "M' = Timing" "t > 0" using ty by (auto split: if_splits)
  then show ?thesis using set_timed_waiting_lands [OF ok _ M(3)] run unfolding SetTimedWaiting M by blast
next
  case (WrappedTimedWaitingStart t)
  then have M: "M = Timing" "M' = RealTimed" using ty by (auto split: if_splits)
  then show ?thesis using timed_waiting_start_lands [OF cfg(1) ok] run unfolding WrappedTimedWaitingStart M by blast
next
  case (LeaveTimedWaiting r)
  then have M: "M = RealTimed" "M' = Leaving" using ty by (auto split: if_splits)
  then show ?thesis using leave_timed_waiting_lands [OF ok] run unfolding LeaveTimedWaiting M by blast
next
  case WrappedTimedWaitingEnd
  then have M: "M = Leaving" "M' = Running" using ty by (auto split: if_splits)
  then show ?thesis using timed_waiting_end_lands [OF ok] run unfolding WrappedTimedWaitingEnd M by blast
next
  case ThreadEnd
  then have M: "M = Running" "M' = Outside" using ty by (auto split: if_splits)
  then show ?thesis using thread_end_lands [OF cfg(1) ok] run unfolding ThreadEnd M by blast
next
  case AssertRunning
  then have "M = Running" "M' = Running" using ty by (auto split: if_splits)
  then show ?thesis using lands_ends [OF acts_refl [OF ok]] run by (simp add: AssertRunning isRunning_def assertE_def)
next
  case (SetTimeout t)
  then have M: "M = Running" "M' = Running" using ty by (auto split: if_splits)
  show ?thesis unfolding SetTimeout run_frame.simps
    by (rule lands_ends [OF acts_upd_thr [OF ok]])
      (use run M in \<open>auto simp: see_def managed_def controllingManager_def\<close>)
next
  case ExitWithCpuTimeUpdate
  then show ?thesis using two_frames [OF clock_frames(4) [OF ok run] clock_frames(1)] ty by simp
next
  case ExitWithBothClocksUpdate
  then show ?thesis using two_frames [OF clock_frames(4) [OF ok run] clock_frames(2)] ty by simp
next
  case ExitWithRealTimeUpdate
  have "lands ready core M p w (Inr (upd_thr p (upd_timers (Timers_updateRealTimeClock (realTime w))) (VexThreadState_exit p w), False))"
    by (rule two_frames [OF clock_frames(4) [OF ok run]], rule unseen_frame) (simp_all add: unseen_facts del: look_state)
  then show ?thesis using ty ExitWithRealTimeUpdate by simp
qed (use clock_frames [OF ok run] ty in \<open>auto split: if_splits\<close>)

lemma run_frames_lands:
  assumes cfg: "controller cfg = ctrl" "0 < stackDepth cfg"
  shows "shared_ok ready w \<Longrightarrow> fits core M (look p w) \<Longrightarrow> code_type core fs M = Some M' \<Longrightarrow> lands ready core M' p w (run_frames cfg p fs w)"
proof (induction fs arbitrary: w M)
  case Nil
  then show ?case using lands_ends [OF acts_refl] by simp
next
  case (Cons f fs)
  then obtain N where N: "frame_type core f M = Some N" "code_type core fs N = Some M'" by (auto split: bind_splits)
  show ?case unfolding run_frames.simps
    by (rule lands_and_then [OF run_frame_lands [OF cfg Cons.prems(1,2) N(1)] N(2)]) (rule Cons.IH, assumption+, rule N(2))
qed

end

end
