(* ===== verification/Vex_Rounds.thy ===== *)
theory Vex_Rounds
  imports Vex_Soundness
begin

text \<open>
  The program under the scheduler: the steps of threads and of the managers, interleaved in any order.
  Every step that the code allows succeeds and keeps every thread \<open>settled\<close>: it runs under its manager,
  waits outside VEX, or is blocked with well-typed code left and is queued, awakened or waiting for a
  notification. Threads that perform I/O or are inside a performance model are not part of it.
\<close>

section \<open>Settled threads\<close>

definition final_modes :: "mode set" where
  "final_modes = {Running, Native, RealWaiting, RealTimed, Outside}"

definition settled :: "(nat \<Rightarrow> bool) \<Rightarrow> sched_view \<Rightarrow> bool" where
  "settled core t \<longleftrightarrow> (\<exists>M \<in> final_modes. fits core M t) \<or>
     (\<exists>M \<in> final_modes. code_left core M t \<and> (runnable_view t \<or> notified_view t \<or> awakened_view core t))"

definition sched_inv :: "('tl \<Rightarrow> bool) \<Rightarrow> (nat \<Rightarrow> bool) \<Rightarrow> 'tl world \<Rightarrow> bool" where
  "sched_inv ready core w \<longleftrightarrow> shared_ok ready w \<and> (\<forall>p. settled core (look p w))"

lemma settled_parked: "parked_view core M t \<Longrightarrow> M \<in> final_modes \<Longrightarrow> settled core t"
  unfolding settled_def parked_view_def by blast

lemma settled_fits: "fits core M t \<Longrightarrow> M \<in> final_modes \<Longrightarrow> settled core t"
  unfolding settled_def by blast

lemma sched_inv_acts: "sched_inv ready core w \<Longrightarrow> acts ready p w w' g \<Longrightarrow> settled core (g (look p w)) \<Longrightarrow> sched_inv ready core w'"
  by (auto simp: sched_inv_def acts_def)

lemma lands_inv:
  "sched_inv ready core w \<Longrightarrow> lands ready core M p w r \<Longrightarrow> M \<in> final_modes \<Longrightarrow> does r (\<lambda>(w', b). sched_inv ready core w')"
proof (erule does_mono, clarify)
  fix w' b assume "sched_inv ready core w" "M \<in> final_modes" "outcome ready core M p w (w', b)"
  then have "settled core (look p w')" "shared_ok ready w'" "\<And>q. q \<noteq> p \<Longrightarrow> look q w' = look q w" "\<And>q. settled core (look q w)"
    using settled_parked [of core M] settled_fits [of core M] by (simp_all add: outcome_def sched_inv_def split: if_splits)
  then have "settled core (look q w')" for q by (cases "q = p") simp_all
  then show "sched_inv ready core w'" using \<open>shared_ok ready w'\<close> by (simp add: sched_inv_def)
qed

section \<open>Threads that are queued while their clock changes\<close>

lemma queue_update_ok:
  assumes "\<not> queue_mutex q" "distinct (threadsQueue q)"
  shows "\<exists>q'. ThreadQueue_update st q = Inr q' \<and> tq_ok st q' \<and> set (threadsQueue q') = set (threadsQueue q)"
proof -
  let ?u = "AdaptiblePQueue_update (thread_order st) (threadsQueue q)"
  have u: "is_heap (thread_order st) ?u" "mset ?u = mset (threadsQueue q)"
    using runnable.update_heap [of st "threadsQueue q"] by auto
  then have "distinct ?u" "set ?u = set (threadsQueue q)"
    using distinct_mset [OF u(2)] assms(2) mset_eq_setD [OF u(2)] by simp_all
  with u(1) assms(1) show ?thesis by (simp add: ThreadQueue_update_def tq_defs tq_ok_def)
qed

text \<open>Any change of a thread, the timeline and the registry of objects, after which the queue is put in
  order again.\<close>

lemma requeue_acts:
  assumes ok: "shared_ok ready w" and vt: "ready vt"
    and w1: "w1 = (upd_thr p f (w\<lparr>virtualTimeline := vt\<rparr>))\<lparr>objectRegistry := ob\<rparr>"
  shows "does (ThreadManager_updateRunnableQueue w1) (\<lambda>w'. acts ready p w w' (see (f (thr p w))))"
proof -
  have q: "\<not> queue_mutex (runnableThreads w1)" "distinct (threadsQueue (runnableThreads w1))"
    using shared_okD(1,3) [OF ok] by (simp_all add: w1 queued_def upd_thr_def)
  obtain q' where q': "ThreadQueue_update (states (cells w1)) (runnableThreads w1) = Inr q'"
      "tq_ok (states (cells w1)) q'" "set (threadsQueue q') = set (queued w)"
    using queue_update_ok [OF q, of "states (cells w1)"] by (auto simp: w1 queued_def upd_thr_def)
  define w2 where "w2 = w1\<lparr>runnableThreads := q'\<rparr>"
  have s: "shared_ok ready w2"
    using ok vt q'(2) by (simp add: shared_ok_def w2_def w1 upd_thr_def)
  have t: "thr x w2 = (if x = p then f (thr p w) else thr x w)" "set (queued w2) = set (queued w)"
    "blockedIn w2 = blockedIn w" "managers w2 = managers w" for x
    using q'(3) by (simp_all add: w2_def w1 thr_def upd_thr_def upd_state_def queued_def)
  have "acts ready p w w2 (see (f (thr p w)))"
    using s by (auto simp: acts_def look_def Let_def see_def t)
  with q'(1) show ?thesis by (simp add: ThreadManager_updateRunnableQueue_def on_queue_def w2_def)
qed

lemma beforeInterrupt_sees:
  "VexThreadState_beforeThreadInterruptAt s reg = (s', reg') \<Longrightarrow>
   currentState s' = SUSPENDED \<and> awaken (scheduling_of s') = False \<and>
   threadCurrentlyControllingManager (scheduling_of s') = threadCurrentlyControllingManager (scheduling_of s) \<and>
   previouslyControllingManager (scheduling_of s') = previouslyControllingManager (scheduling_of s) \<and>
   timeout (thr_timers s') = (if timeout (thr_timers s) < 0 then 0 else timeout (thr_timers s)) \<and>
   waitingInRealTime s' = waitingInRealTime s \<and> timedOut s' = False \<and> ert s' = ert s"
  by (auto simp: VexThreadState_beforeThreadInterruptAt_def Let_def upd_timers_def
      Timers_setTimeoutFlagToDenotePossiblyResumingThread_def split: if_splits)

definition interrupted :: "sched_view \<Rightarrow> sched_view" where
  "interrupted t = t\<lparr>c_state := SUSPENDED, c_awaken := False, c_timeout := (if c_timeout t < 0 then 0 else c_timeout t),
     c_queued := (c_queued t \<or> c_timeout t = 0 \<or> c_timeout t = -2)\<rparr>"

context time_controller
begin

lemma interrupt_acts:
  assumes cfg: "controller cfg = ctrl" and ok: "shared_ok ready w" and core: "core m"
    and queue: "p \<notin> set (queued w) \<or> c_timeout (look p w) \<notin> {0, -2}"
  shows "does (ThreadManager_onAnyReplacedWaitingInterrupt cfg m p t w) (\<lambda>w'. acts ready p w w' interrupted)"
proof -
  obtain vt s1 where vt: "ctrl_update ctrl m (Interrupted t) (virtualTimeline w) (thr p w) = Inr (vt, s1)" "ready vt"
      "retimed (thr p w) s1"
    using updates [OF shared_okD(5) [OF ok] core] by blast
  let ?w1 = "upd_thr p (\<lambda>_. s1) (w\<lparr>virtualTimeline := vt\<rparr>)"
  have u: "update_timestamp cfg m (Interrupted t) p w = Inr ?w1"
    using cfg vt(1) by (simp add: update_timestamp_def on_timeline_of_def)
  obtain s2 ob where b: "VexThreadState_beforeThreadInterruptAt s1 (Some (objectRegistry ?w1)) = (s2, ob)" by fastforce
  let ?ob = "case ob of Some r \<Rightarrow> r | None \<Rightarrow> objectRegistry ?w1"
  let ?w2 = "(upd_thr p (\<lambda>_. s2) ?w1)\<lparr>objectRegistry := ?ob\<rparr>"
  have t1: "timeout (thr_timers s1) = c_timeout (look p w)" using vt(3) by (auto simp: retimed_def)
  have e: "ThreadManager_onAnyReplacedWaitingInterrupt cfg m p t w =
      (if c_timeout (look p w) \<noteq> 0 \<and> c_timeout (look p w) \<noteq> -2 then ThreadManager_updateRunnableQueue ?w2
       else ThreadManager_pushIntoRunnableQueue p ?w2)"
    using b t1 by (simp add: ThreadManager_onAnyReplacedWaitingInterrupt_def u Let_def)
  have w2: "?w2 = (upd_thr p (\<lambda>_. s2) (w\<lparr>virtualTimeline := vt\<rparr>))\<lparr>objectRegistry := ?ob\<rparr>"
    by (simp add: upd_thr_def upd_state_def)
  have view: "see s2 (look p w) = (look p w)\<lparr>c_state := SUSPENDED, c_awaken := False,
      c_timeout := (if c_timeout (look p w) < 0 then 0 else c_timeout (look p w))\<rparr>"
    using beforeInterrupt_sees [OF b] vt(3) by (auto simp: see_def look_def Let_def retimed_def)
  show ?thesis
  proof (cases "c_timeout (look p w) \<noteq> 0 \<and> c_timeout (look p w) \<noteq> -2")
    case True
    have "does (ThreadManager_updateRunnableQueue ?w2) (\<lambda>w'. acts ready p w w' (see s2))"
      by (rule requeue_acts [OF ok vt(2) w2])
    then show ?thesis unfolding e using True view
      by (auto elim!: does_mono acts_cong simp: interrupted_def simp del: look_state)
  next
    case False
    with queue have q: "p \<notin> set (queued w)" by auto
    have "shared_ok ready (w\<lparr>virtualTimeline := vt\<rparr>)" using ok vt(2) by (simp add: shared_ok_def)
    then have "shared_ok ready (upd_thr p (\<lambda>_. s2) (w\<lparr>virtualTimeline := vt\<rparr>))"
      by (rule shared_ok_upd_thr) (use q in \<open>simp add: queued_def\<close>)
    then have ok2: "shared_ok ready ?w2" by (simp add: shared_ok_def w2)
    have "thr x ?w2 = (if x = p then s2 else thr x w)" "queued ?w2 = queued w" "blockedIn ?w2 = blockedIn w"
      "managers ?w2 = managers w" for x
      by (simp_all add: thr_def upd_thr_def upd_state_def queued_def)
    then have a: "acts ready p w ?w2 (see s2)" using ok2 by (auto simp: acts_def look_def Let_def see_def)
    have "does (ThreadManager_pushIntoRunnableQueue p ?w2) (\<lambda>w'. acts ready p w w' (\<lambda>t. (see s2 t)\<lparr>c_queued := True\<rparr>))"
      by (rule acts_then [OF a push_acts [OF ok2]]) (use q in \<open>simp add: queued_def upd_thr_def\<close>)
    then show ?thesis unfolding e using False view
      by (auto elim!: does_mono acts_cong simp: interrupted_def simp del: look_state)
  qed
qed

end

section \<open>Resuming threads\<close>

lemma leap_acts:
  assumes ok: "shared_ok ready w"
  shows "does (ThreadManager_isValidToLeapInVirtualTimeTo cfg m p w) (\<lambda>(w', valid). acts ready p w w' (\<lambda>t. t) \<and>
    (c_realWait (look p w) \<longrightarrow> \<not> valid))"
proof -
  define st where "st = states (cells w)"
  define ks where "ks = iterationOrder cfg (threadRegistry w)"
  have mgr: "acts ready p w (upd_mgr m f w) (\<lambda>t. t)" if "\<And>g. runningThread (f g) = runningThread g" for f
    using acts_upd_mgr [OF ok that] .
  have forget: "acts ready p w (upd_mgr m (\<lambda>g. g\<lparr>lastTotalThreadERT := 0\<rparr>) w) (\<lambda>t. t)" by (rule mgr) simp
  have note_sum: "acts ready p w (upd_mgr m (\<lambda>g. g\<lparr>lastTotalThreadERT := a, lastGlobalVirtualTime := b\<rparr>) w) (\<lambda>t. t)" for a b
    by (rule mgr) simp
  obtain a where a: "ask_registry (ThreadRegistry_areAnyOtherThreadsActiveInFormerTime ks st p
      (Some (ctrl_howFarAhead (controller cfg) m (virtualTimeline w) (thr p w)))) w = Inr (w, a)"
    using reads_registry(2) [OF ok] by blast
  obtain n where n: "ask_registry (ThreadRegistry_getSummedErtOfAllThreads ks st) w = Inr (w, n)"
    using reads_registry(3) [OF ok] by blast
  obtain b where b: "ask_registry (ThreadRegistry_areAllNativeWaitingThreadsBlockedAccordingToSystemState ks
      (isThreadSystemStateBlocked cfg (realTime w)) st p) w = Inr (w, b)"
    using reads_registry(4) [OF ok] by blast
  show ?thesis
    unfolding ThreadManager_isValidToLeapInVirtualTimeTo_def Let_def st_def [symmetric] ks_def [symmetric] a
    using forget note_sum acts_refl [OF ok] n b by (cases a) simp_all
qed

lemma onThreadResume_sees [simp]:
  "currentState (upd_sched (Scheduling_onThreadResumeByManager m) s) = currentState s"
  "awaken (scheduling_of (upd_sched (Scheduling_onThreadResumeByManager m) s)) = True"
  "threadCurrentlyControllingManager (scheduling_of (upd_sched (Scheduling_onThreadResumeByManager m) s)) = threadCurrentlyControllingManager (scheduling_of s)"
  "previouslyControllingManager (scheduling_of (upd_sched (Scheduling_onThreadResumeByManager m) s)) = previouslyControllingManager (scheduling_of s)"
  "thr_timers (upd_sched (Scheduling_onThreadResumeByManager m) s) = thr_timers s"
  "waitingInRealTime (upd_sched (Scheduling_onThreadResumeByManager m) s) = waitingInRealTime s"
  by (simp_all add: upd_sched_def Scheduling_onThreadResumeByManager_def)

lemma setManager_sees [simp]:
  "currentState (upd_sched (Scheduling_setThreadCurrentlyControllingManager m) s) = currentState s"
  "awaken (scheduling_of (upd_sched (Scheduling_setThreadCurrentlyControllingManager m) s)) = awaken (scheduling_of s)"
  "threadCurrentlyControllingManager (scheduling_of (upd_sched (Scheduling_setThreadCurrentlyControllingManager m) s)) = m"
  "previouslyControllingManager (scheduling_of (upd_sched (Scheduling_setThreadCurrentlyControllingManager m) s)) = previouslyControllingManager (scheduling_of s)"
  "thr_timers (upd_sched (Scheduling_setThreadCurrentlyControllingManager m) s) = thr_timers s"
  "waitingInRealTime (upd_sched (Scheduling_setThreadCurrentlyControllingManager m) s) = waitingInRealTime s"
  by (simp_all add: upd_sched_def Scheduling_setThreadCurrentlyControllingManager_def)

definition awakened_by :: "nat \<Rightarrow> sched_view \<Rightarrow> sched_view" where
  "awakened_by m t = t\<lparr>c_awaken := True, c_manager := Some m\<rparr>"

context time_controller
begin

lemma resume_acts:
  assumes cfg: "controller cfg = ctrl" and ok: "shared_ok ready w" and core: "core m" and q: "p \<notin> set (queued w)"
    and blocked: "c_blocked (look p w) \<noteq> None"
  shows "does (ThreadManager_resumeThread cfg m p w) (\<lambda>w'. acts ready p w w' (awakened_by m))"
proof -
  let ?w1 = "upd_thr p (upd_sched (Scheduling_onThreadResumeByManager m)) w"
  have a1: "acts ready p w ?w1 (\<lambda>t. t\<lparr>c_awaken := True\<rparr>)"
    by (rule acts_cong [OF acts_upd_thr [OF ok]]) (auto simp: see_def look_def Let_def)
  obtain w2 where r2: "update_timestamp cfg m (ResumedLast (realTime ?w1)) p ?w1 = Inr w2" and a2: "acts ready p ?w1 w2 (\<lambda>t. t)"
    using update_acts [OF cfg acts_ok [OF a1] core] q by (auto simp: does_def)
  note a = acts_trans [OF a1 a2]
  let ?w3 = "upd_thr p (upd_sched (Scheduling_setThreadCurrentlyControllingManager (Some m))) w2"
  have "see (upd_sched (Scheduling_setThreadCurrentlyControllingManager (Some m)) (thr p w2)) (look p w2) =
      (look p w2)\<lparr>c_manager := Some m\<rparr>" by (auto simp: see_def look_def Let_def)
  then have a3: "acts ready p w ?w3 (awakened_by m)"
    using acts_then_upd [OF a, of "upd_sched (Scheduling_setThreadCurrentlyControllingManager (Some m))"] acts_look [OF a] q
    by (auto elim!: acts_cong simp: awakened_by_def)
  have "acts ready p ?w3 (upd_mgr m (\<lambda>g. g\<lparr>currentTimeScalingFactor := virtualTimeSpeedup (thr_timers (thr p ?w3))\<rparr>) ?w3) (\<lambda>t. t)"
    by (rule acts_upd_mgr [OF acts_ok [OF a3]]) simp
  note a4 = acts_trans [OF a3 this]
  have "assertE Deadlock (awaken (scheduling_of (thr p w)) \<or> blockedIn w p \<noteq> None) = Inr ()"
    using blocked by (simp add: assertE_def)
  then show ?thesis using r2 a4 by (simp add: ThreadManager_resumeThread_def Let_def assertE_def)
qed

lemma interrupt_timed_acts:
  assumes cfg: "controller cfg = ctrl" and ok: "shared_ok ready w" and core: "core m" and q: "p \<notin> set (queued w)"
    and blocked: "c_blocked (look p w) \<noteq> None \<or> c_realWait (look p w)" and timed: "c_timeout (look p w) > 0"
  shows "does (ThreadManager_interruptTimedWaitingThread cfg m p w) (\<lambda>w'. acts ready p w w' (\<lambda>t. t\<lparr>c_queued := True\<rparr>) \<or>
    c_blocked (look p w) \<noteq> None \<and> acts ready p w w' (awakened_by m \<circ> interrupted))"
proof -
  obtain w1 valid where r1: "ThreadManager_isValidToLeapInVirtualTimeTo cfg m p w = Inr (w1, valid)"
    and a1: "acts ready p w w1 (\<lambda>t. t)" and v: "c_realWait (look p w) \<Longrightarrow> \<not> valid"
    using leap_acts [OF ok, of cfg m p] by (auto simp: does_def)
  have q1: "p \<notin> set (queued w1)" using not_queued_acts [OF a1] q by simp
  show ?thesis
  proof (cases valid)
    case True
    with v blocked have b: "c_blocked (look p w) \<noteq> None" by blast
    obtain w2 where r2: "commit_progress cfg m TimedWaiting p w1 = Inr w2" and a2: "acts ready p w1 w2 (\<lambda>t. t)"
      using commit_acts [OF cfg acts_ok [OF a1] core _ q1, of TimedWaiting] by (auto simp: does_def)
    note a2 = acts_trans [OF a1 a2]
    let ?w3 = "upd_mgr m (\<lambda>g. g\<lparr>timedOutsSucceeded := timedOutsSucceeded g + 1\<rparr>) w2"
    have "acts ready p w2 ?w3 (\<lambda>t. t)" by (rule acts_upd_mgr [OF acts_ok [OF a2]]) simp
    note a3 = acts_trans [OF a2 this]
    have q3: "p \<notin> set (queued ?w3)" using not_queued_acts [OF a3] q by simp
    obtain w4 where r4: "ThreadManager_onAnyReplacedWaitingInterrupt cfg m p 0 ?w3 = Inr w4" and a4: "acts ready p ?w3 w4 interrupted"
      using interrupt_acts [OF cfg acts_ok [OF a3] core disjI1 [OF q3], of 0] by (auto simp: does_def)
    note a4 = acts_trans [OF a3 a4]
    let ?w5 = "upd_thr p (\<lambda>s. s\<lparr>timedOut := True\<rparr>) w4"
    have "acts ready p w4 ?w5 (\<lambda>t. t)" by (rule acts_unseen [OF acts_ok [OF a4]]) (simp_all add: unseen_facts)
    note a5 = acts_trans [OF a4 this]
    have i: "interrupted (look p w) = (look p w)\<lparr>c_state := SUSPENDED, c_awaken := False\<rparr>"
      using timed by (auto simp: interrupted_def look_def Let_def)
    have l5: "look p ?w5 = (look p w)\<lparr>c_state := SUSPENDED, c_awaken := False\<rparr>" using acts_look [OF a5] i by (simp only:)
    have q5: "p \<notin> set (queued ?w5)" using l5 q look_state(7) [of p ?w5] by (simp del: upd_thr_fields)
    have b5: "c_blocked (look p ?w5) \<noteq> None" unfolding l5 using b by simp
    have "does (ThreadManager_resumeThread cfg m p ?w5) (\<lambda>w'. acts ready p w w' (awakened_by m \<circ> interrupted))"
      using acts_then [OF a5 resume_acts [OF cfg acts_ok [OF a5] core q5 b5]] by (simp add: comp_def)
    then show ?thesis using b by (auto simp: ThreadManager_interruptTimedWaitingThread_def r1 True r2 r4 elim!: does_mono)
  next
    case False
    let ?w2 = "upd_mgr m (\<lambda>g. g\<lparr>timedOutsFailed := timedOutsFailed g + 1\<rparr>) (upd_thr p VexThreadState_setCustom3 w1)"
    have "acts ready p w1 (upd_thr p VexThreadState_setCustom3 w1) (\<lambda>t. t)"
      by (rule acts_unseen [OF acts_ok [OF a1]]) (simp_all add: unseen_facts VexThreadState_setCustom3_def upd_stats_def)
    note a2 = acts_trans [OF a1 this]
    have "acts ready p (upd_thr p VexThreadState_setCustom3 w1) ?w2 (\<lambda>t. t)" by (rule acts_upd_mgr [OF acts_ok [OF a2]]) simp
    note a2 = acts_trans [OF a2 this]
    have q2: "p \<notin> set (queued ?w2)" using not_queued_acts [OF a2] q by simp
    have "does (ThreadManager_pushIntoRunnableQueue p ?w2) (\<lambda>w'. acts ready p w w' (\<lambda>t. t\<lparr>c_queued := True\<rparr>))"
      by (rule acts_then [OF a2 push_acts [OF acts_ok [OF a2] q2]])
    then show ?thesis by (auto simp: ThreadManager_interruptTimedWaitingThread_def r1 False elim!: does_mono)
  qed
qed

end

lemma settled_queued:
  assumes "settled core t" "c_queued t"
  obtains "fits core RealTimed t" | M where "M \<in> final_modes" "code_left core M t" "runnable_view t"
  using assms by (auto simp: settled_def final_modes_def idle_view_def notified_view_def awakened_view_def)

lemma settled_awakened:
  assumes "M \<in> final_modes" "code_left core M t" "\<not> c_queued t" "c_running t = {}" "c_state t = SUSPENDED" "core m"
  shows "settled core (awakened_by m t)"
proof -
  have "code_left core M (awakened_by m t)" "awakened_view core (awakened_by m t)"
    using assms by (simp_all add: code_left_def awakened_by_def awakened_view_def idle_view_def managed_def)
  with assms(1) show ?thesis unfolding settled_def by blast
qed

context time_controller
begin

lemma continue_settled:
  assumes cfg: "controller cfg = ctrl" and core: "core m" and ok: "shared_ok ready w"
    and t: "look p w = t\<lparr>c_queued := False\<rparr>" "settled core t" "c_queued t"
  shows "does (ThreadManager_continueLocked cfg run inp m p w) (\<lambda>w'. \<exists>g. acts ready p w w' g \<and> settled core (g (look p w)))"
proof -
  have q: "p \<notin> set (queued w)" using t(1) look_state(7) [of p w] by simp
  have view: "currentState (thr p w) = c_state t" "timeout (thr_timers (thr p w)) = c_timeout t"
    "blockedIn w p = c_blocked t" "waitingInRealTime (thr p w) = c_realWait t"
    using t(1) look_state(1,5,6,8) [of p w] by simp_all
  have "(look p w)\<lparr>c_queued := True\<rparr> = t" unfolding t(1) using t(3) by (cases t) simp
  then have again: "settled core ((look p w)\<lparr>c_queued := True\<rparr>)" by (simp only: t(2))
  have timed: "does (ThreadManager_interruptTimedWaitingThread cfg m p w) (\<lambda>w'. \<exists>g. acts ready p w w' g \<and> settled core (g (look p w)))"
    if "c_timeout t > 0" "c_blocked t \<noteq> None \<or> c_realWait t"
      "c_blocked t \<noteq> None \<Longrightarrow> settled core (awakened_by m (interrupted (look p w)))"
  proof -
    have "c_timeout (look p w) > 0" "c_blocked (look p w) \<noteq> None \<or> c_realWait (look p w)" using that(1,2) t(1) by simp_all
    then have "does (ThreadManager_interruptTimedWaitingThread cfg m p w) (\<lambda>w'. acts ready p w w' (\<lambda>t. t\<lparr>c_queued := True\<rparr>) \<or>
        c_blocked (look p w) \<noteq> None \<and> acts ready p w w' (awakened_by m \<circ> interrupted))"
      using interrupt_timed_acts [OF cfg ok core q] by blast
    then show ?thesis
    proof (rule does_mono)
      fix w' assume "acts ready p w w' (\<lambda>t. t\<lparr>c_queued := True\<rparr>) \<or>
        c_blocked (look p w) \<noteq> None \<and> acts ready p w w' (awakened_by m \<circ> interrupted)"
      then show "\<exists>g. acts ready p w w' g \<and> settled core (g (look p w))"
      proof
        assume "acts ready p w w' (\<lambda>t. t\<lparr>c_queued := True\<rparr>)"
        with again show ?thesis by blast
      next
        assume a: "c_blocked (look p w) \<noteq> None \<and> acts ready p w w' (awakened_by m \<circ> interrupted)"
        then have "settled core ((awakened_by m \<circ> interrupted) (look p w))" using that(3) t(1) by simp
        with a show ?thesis by blast
      qed
    qed
  qed
  from t(2,3) show ?thesis
  proof (cases rule: settled_queued)
    case 1
    then have "c_state t = WAITING" "c_timeout t > 0" "c_realWait t" "c_blocked t = None" by (simp_all add: timed_view_def)
    then show ?thesis using timed view
      by (simp add: ThreadManager_continueLocked_def isSuspended_def inIo_def isTimedWaiting_def)
  next
    case (2 M)
    have left: "code_left core M (look p w)" "c_running (look p w) = {}" "c_blocked (look p w) \<noteq> None" "\<not> c_queued (look p w)"
      using 2(2,3) unfolding t(1) by (auto simp: code_left_def runnable_view_def split: option.splits)
    show ?thesis
    proof (cases "c_state t = SUSPENDED")
      case True
      have r: "settled core (awakened_by m (look p w))" using settled_awakened [OF 2(1) left(1,4,2) _ core] True t(1) by simp
      have resume: "does (ThreadManager_resumeThread cfg m p w) (\<lambda>w'. \<exists>g. acts ready p w w' g \<and> settled core (g (look p w)))"
        by (rule does_mono [OF resume_acts [OF cfg ok core q left(3)]]) (use r in blast)
      have push: "does (ThreadManager_pushIntoRunnableQueue p w) (\<lambda>w'. \<exists>g. acts ready p w w' g \<and> settled core (g (look p w)))"
        by (rule does_mono [OF push_acts [OF ok q]]) (use again in blast)
      show ?thesis using True view(1) resume push by (simp add: ThreadManager_continueLocked_def isSuspended_def Let_def)
    next
      case False
      with 2(3) have w: "c_state t = WAITING" "c_timeout t > 0" by (simp_all add: runnable_view_def)
      have r: "settled core (awakened_by m (interrupted (look p w)))"
        by (rule settled_awakened [of M])
          (use 2(1) core left t(1) w(2) in \<open>simp_all add: interrupted_def code_left_def del: look_state\<close>)
      have b: "c_blocked t \<noteq> None" using left(3) t(1) by simp
      show ?thesis using w view timed [OF w(2) disjI1 [OF b] r]
        by (simp add: ThreadManager_continueLocked_def isSuspended_def inIo_def isTimedWaiting_def)
    qed
  qed
qed

lemma continue_inv:
  assumes cfg: "controller cfg = ctrl" "0 < stackDepth cfg" and core: "core m" and inv: "sched_inv ready core w"
  shows "does (bindE (ask_queue (\<lambda>_. ThreadQueue_top) w) (\<lambda>(w2, t). ThreadManager_continueThread cfg run inp m t w2)) (sched_inv ready core)"
proof -
  have ok: "shared_ok ready w" using inv by (simp add: sched_inv_def)
  obtain n where n: "stackDepth cfg = Suc n" using cfg(2) by (cases "stackDepth cfg") auto
  have "does (ThreadManager_continueThread cfg run inp m (pq_top (queued w)) w) (sched_inv ready core)"
  proof (cases "pq_top (queued w)")
    case None
    have "acts ready 0 w (upd_mgr m ThreadManager_limitNextTimeslice w) (\<lambda>t. t)"
      by (rule acts_upd_mgr [OF ok]) (simp add: ThreadManager_limitNextTimeslice_def)
    then show ?thesis using inv sched_inv_acts [OF inv] by (simp add: None ThreadManager_continueThread_def n sched_inv_def)
  next
    case (Some p)
    then have top: "p \<in> set (queued w)" using top_hd [of "queued w" p] by auto
    let ?w1 = "VexThreadState_lockShareResourceAccessKey p w"
    note a1 = lock_key_acts [OF ok, of p]
    have q1: "queued ?w1 = queued w" by (simp add: VexThreadState_lockShareResourceAccessKey_def)
    have t: "settled core (look p ?w1)" "c_queued (look p ?w1)"
      using inv top acts_look [OF a1] by (auto simp: sched_inv_def)
    have "currentState (thr p ?w1) = SUSPENDED \<or> currentState (thr p ?w1) = WAITING"
      using t(1,2) by (cases rule: settled_queued) (auto simp: timed_view_def runnable_view_def)
    then obtain w2 where r2: "ask_queue (\<lambda>st. ThreadQueue_getNextIfEqualsElseReturnTop st (Some p) (Some m)) ?w1 = Inr (w2, Some p)"
      and a2: "acts ready p ?w1 w2 (\<lambda>t. t\<lparr>c_queued := False\<rparr>)"
      using take_next_acts [OF acts_ok [OF a1], of p "Some m"] Some q1
      by (auto simp: isRunning_def inIoPredictionPhase_def isWaitingRealCodeToCompleteAfterModelSimulation_def)
    have "does (ThreadManager_continueLocked cfg run inp m p w2) (\<lambda>w'. \<exists>g. acts ready p w2 w' g \<and> settled core (g (look p w2)))"
      by (rule continue_settled [OF cfg(1) core acts_ok [OF a2] acts_look [OF a2] t])
    then have "does (ThreadManager_continueLocked cfg run inp m p w2) (sched_inv ready core)"
    proof (rule does_mono)
      fix w' assume "\<exists>g. acts ready p w2 w' g \<and> settled core (g (look p w2))"
      then obtain g where g: "acts ready p w2 w' g" "settled core (g (look p w2))" by blast
      show "sched_inv ready core w'"
        using sched_inv_acts [OF inv acts_trans [OF acts_trans [OF a1 a2] g(1)]] g(2) acts_look [OF acts_trans [OF a1 a2]] by simp
    qed
    then show ?thesis by (simp add: Some ThreadManager_continueThread_def n Let_def r2)
  qed
  then show ?thesis unfolding reads_queue(2) [OF ok] by simp
qed

end

section \<open>Suspending the running thread\<close>

lemma settled_running:
  assumes "settled core t" "m \<in> c_running t"
  shows "fits core Running t \<and> c_manager t = Some m \<and> core m \<and> c_running t = {m}"
  using assms by (auto simp: settled_def final_modes_def idle_view_def notified_view_def awakened_view_def runnable_view_def managed_def
      split: option.splits)

lemma setNativeWaiting_sees [simp]:
  "currentState (VexThreadState_setNativeWaiting s) = NATIVE_WAITING"
  "threadCurrentlyControllingManager (scheduling_of (VexThreadState_setNativeWaiting s)) = None"
  "previouslyControllingManager (scheduling_of (VexThreadState_setNativeWaiting s)) = threadCurrentlyControllingManager (scheduling_of s)"
  by (simp_all add: VexThreadState_setNativeWaiting_def upd_sched_def Scheduling_releaseThreadFromItsControllingManager_def)

lemma native_view:
  assumes "fits core Running t" "c_running t' = {}" "c_queued t' = c_queued t" "c_blocked t' = c_blocked t"
    "c_state t' = NATIVE_WAITING" "c_manager t' = None" "c_previous t' = c_manager t"
  shows "settled core t'"
  by (rule settled_fits [of core Native]) (use assms in \<open>auto simp: idle_view_def managed_def final_modes_def\<close>)

definition settles where
  "settles ready core p w = (\<lambda>(w', b). \<exists>g. acts ready p w w' g \<and> settled core (g (look p w)))"

lemma settlesI: "acts ready p w w' g \<Longrightarrow> settled core (g (look p w)) \<Longrightarrow> settles ready core p w (w', b)"
  by (auto simp: settles_def)

lemma settles_inv: "sched_inv ready core w \<Longrightarrow> settles ready core p w (w', b) \<Longrightarrow> sched_inv ready core w'"
  by (auto simp: settles_def intro: sched_inv_acts)

lemma setSuspended_push_acts:
  assumes "shared_ok ready w" "p \<notin> set (queued w)"
  shows "does (ThreadManager_setSuspended m p w) (\<lambda>w'. acts ready p w w'
    (\<lambda>t. t\<lparr>c_state := SUSPENDED, c_awaken := False, c_queued := True, c_running := c_running t - {m}\<rparr>))"
proof -
  let ?w1 = "ThreadManager_unsetCurrentThreadFromRunningThread m p w"
  note u = unset_acts [OF assms(1), of p m]
  have a: "acts ready p w (upd_thr p VexThreadState_setSuspended ?w1) (\<lambda>t. t\<lparr>c_state := SUSPENDED, c_awaken := False, c_running := c_running t - {m}\<rparr>)"
    by (rule acts_cong [OF acts_then_upd [OF u, of VexThreadState_setSuspended]])
      (auto simp: see_def look_def Let_def ThreadManager_unsetCurrentThreadFromRunningThread_def)
  show ?thesis
    unfolding ThreadManager_setSuspended_def Let_def ThreadManager_unsetCurrentThreadFromRunningThread_def [symmetric]
    by (rule does_mono [OF acts_then [OF a push_acts]])
      (use acts_ok [OF a] not_queued_acts [OF a] assms(2) in \<open>auto elim!: acts_cong\<close>)
qed

lemma disregarded_acts:
  assumes "shared_ok ready w"
  shows "acts ready p w (ThreadManager_onIntentionToBeDisregarded cfg m p w) (\<lambda>t. t\<lparr>c_running := c_running t - {m}\<rparr>)"
proof -
  note a = unset_acts [OF assms, of p m]
  have "acts ready p (ThreadManager_unsetCurrentThreadFromRunningThread m p w) (upd_mgr m
      (\<lambda>g. let g1 = g\<lparr>numberOfNativeWaitingThreads := numberOfNativeWaitingThreads g + 1\<rparr>
           in if numberOfNativeWaitingThreads g1 > 0 then ThreadManager_minimizeSchedulerTimeslot g1 else g1)
      (ThreadManager_unsetCurrentThreadFromRunningThread m p w)) (\<lambda>t. t)"
    by (rule acts_upd_mgr [OF acts_ok [OF a]]) (simp add: ThreadManager_minimizeSchedulerTimeslot_def Let_def)
  note b = acts_trans [OF a this]
  show ?thesis unfolding ThreadManager_onIntentionToBeDisregarded_def Let_def using a b [unfolded Let_def] by simp
qed

lemma keep_running_acts:
  assumes ok: "shared_ok ready w" and m: "c_running (look p w) = {m}" "c_manager (look p w) = Some m" and q: "p \<notin> set (queued w)"
  shows "acts ready p w (ThreadManager_onIntentionToKeepOnRunning m p w) (\<lambda>t. t)"
proof -
  have r: "runningThread (managers w m) = Some p" using m(1) by auto
  let ?w1 = "upd_thr p (upd_sched (Scheduling_setThreadCurrentlyControllingManager (Some m))) w"
  have a1: "acts ready p w ?w1 (\<lambda>t. t)"
    by (rule acts_cong [OF acts_upd_thr [OF ok]]) (use q m in \<open>auto simp: see_def look_def Let_def controllingManager_def\<close>)
  have "(managers ?w1)(m := (managers w m)\<lparr>runningThread := Some p\<rparr>) = managers ?w1" using r by (auto simp: fun_eq_iff)
  then have "ThreadManager_onIntentionToKeepOnRunning m p w = upd_mgr m (\<lambda>g. g\<lparr>
      decreaseSchedulerSleepingTimeBy := decreaseSchedulerSleepingTimeBy g + schedulerTimeslot g div 2\<rparr>) ?w1"
    using r by (simp add: ThreadManager_onIntentionToKeepOnRunning_def upd_mgr_def fun_upd_def fun_eq_iff)
  moreover have "acts ready p ?w1 (upd_mgr m (\<lambda>g. g\<lparr>
      decreaseSchedulerSleepingTimeBy := decreaseSchedulerSleepingTimeBy g + schedulerTimeslot g div 2\<rparr>) ?w1) (\<lambda>t. t)"
    by (rule acts_upd_mgr [OF acts_ok [OF a1]]) simp
  ultimately show ?thesis using acts_trans [OF a1] by simp
qed

context time_controller
begin

lemma signal_settles:
  assumes cfg: "controller cfg = ctrl" and ok: "shared_ok ready w" and run: "fits core Running (look p w)"
    and m: "controllingManager p w = Some m"
  shows "does (bindE (signal_handler cfg inp p w) (ThreadManager_isSignalledThreadGoingToSuspend cfg m p)) (settles ready core p w)"
proof -
  have core: "core m" "p \<notin> set (queued w)" "c_running (look p w) = {m}" "c_manager (look p w) = Some m" "blockedIn w p = None"
    using running_suspendable [OF run] m by auto
  let ?posix = "\<lambda>g. g\<lparr>posixSignalsSent := posixSignalsSent g + 1\<rparr>"
  have state: "currentState (thr p w) = RUNNING" using run by simp
  obtain w2 where r2: "ThreadManager_setCurrentThreadVT cfg m (cpuTime w p) p w = Inr w2" and a2: "acts ready p w w2 (\<lambda>t. t)"
    using setVT_acts [OF cfg ok core(1,2)] by (auto simp: does_def)
  have q2: "p \<notin> set (queued w2)" using not_queued_acts [OF a2] core(2) by simp
  have unseen: "acts ready p w1 (upd_thr p f w1) (\<lambda>t. t)" if "shared_ok ready w1" "unseen f" "p \<notin> set (queued w1)" for w1 f
    by (rule acts_unseen [OF that(1,2)]) (use that in simp)
  have clock: "acts ready p w1 (update_cpu_clock p w1) (\<lambda>t. t)" if "shared_ok ready w1" for w1
    unfolding update_cpu_clock_def by (rule acts_unseen [OF that]) (simp_all add: unseen_facts)
  have posix: "acts ready p w1 (upd_mgr m ?posix w1) (\<lambda>t. t)" if "shared_ok ready w1" for w1
    by (rule acts_upd_mgr [OF that]) simp
  let ?native = "\<not> inVex (thr p w2) \<and> \<not> forceSuspend (scheduling_of (thr p w2)) \<and> nowBlocked inp"
  show ?thesis
  proof (cases ?native)
    case True
    let ?w3 = "ThreadManager_setNativeWaiting p w2"
    let ?w4 = "upd_thr p (upd_timers (\<lambda>t. Timers_updateLastResumedTo (realTime w)
                          (fst (Timers_getAndResetLocalTime (Timers_setResumedLastAt (estimatedRealTime t) t))))) ?w3"
    have a3: "acts ready p w ?w3 (\<lambda>t. see (VexThreadState_setNativeWaiting (thr p w2)) t)"
      unfolding ThreadManager_setNativeWaiting_def by (rule acts_then_upd [OF a2]) (use core in simp)
    have q3: "p \<notin> set (queued ?w3)" using q2 by (simp add: ThreadManager_setNativeWaiting_def)
    note a = acts_trans [OF a3 unseen [OF acts_ok [OF a3] _ q3, of "upd_timers (\<lambda>t. Timers_updateLastResumedTo (realTime w)
                          (fst (Timers_getAndResetLocalTime (Timers_setResumedLastAt (estimatedRealTime t) t))))"]]
    have a4: "acts ready p w ?w4 (\<lambda>t. see (VexThreadState_setNativeWaiting (thr p w2)) t)"
      by (rule a) (simp add: unseen_facts)
    note a = acts_trans [OF a4 clock [OF acts_ok [OF a4]]]
    note a = acts_trans [OF a posix [OF acts_ok [OF a]]]
    note a = acts_trans [OF a disregarded_acts [OF acts_ok [OF a], of p cfg m]]
    have e: "bindE (signal_handler cfg inp p w) (ThreadManager_isSignalledThreadGoingToSuspend cfg m p) =
        Inr (ThreadManager_onIntentionToBeDisregarded cfg m p (upd_mgr m ?posix (update_cpu_clock p ?w4)), True)"
      using True state m r2
      by (simp add: signal_handler_def VexThreadState_onSignalledFromScheduler_def Let_def isNativeWaiting_def
          isWaitingRealCodeToCompleteAfterModelSimulation_def ThreadManager_isSignalledThreadGoingToSuspend_def)
    have "settled core ((see (VexThreadState_setNativeWaiting (thr p w2)) (look p w))\<lparr>c_running := c_running (look p w) - {m}\<rparr>)"
      by (rule native_view [OF run])
        (use core acts_look [OF a2] look_state(3) [of p w2] in \<open>simp_all add: see_def controllingManager_def\<close>)
    then show ?thesis unfolding e using settlesI [OF a] by (simp add: see_def)
  next
    case False
    have should: "does (ThreadManager_shouldCurrentThreadSuspend m p w2) (\<lambda>(w', b). acts ready p w2 w' (\<lambda>t. t))"
      by (rule does_mono [OF should_acts [OF acts_ok [OF a2]]]) auto
    then obtain w3 b where r3: "ThreadManager_shouldCurrentThreadSuspend m p w2 = Inr (w3, b)" and a3: "acts ready p w2 w3 (\<lambda>t. t)"
      by (auto simp: does_def)
    note a3 = acts_trans [OF a2 a3]
    have q3: "p \<notin> set (queued w3)" using not_queued_acts [OF a3] core(2) by simp
    have e: "signal_handler cfg inp p w = (if b
        then Inr (VexThreadState_onBlocked p [SetRunning, UpdateCpuTimeClock] (upd_thr p VexThreadState_setSuspended w3), Some TO_BE_SUSPENDED)
        else Inr (update_cpu_clock p (upd_thr p (upd_timers (Timers_updateLastResumedTo (realTime w))) w3), Some TO_KEEP_ON_RUNNING))"
      using False state m r2 r3
      by (simp add: signal_handler_def VexThreadState_onSignalledFromScheduler_def Let_def isNativeWaiting_def
          isWaitingRealCodeToCompleteAfterModelSimulation_def)
    show ?thesis
    proof (cases b)
      case True
      let ?w4 = "VexThreadState_onBlocked p [SetRunning, UpdateCpuTimeClock] (upd_thr p VexThreadState_setSuspended w3)"
      have a4: "acts ready p w (upd_thr p VexThreadState_setSuspended w3) (\<lambda>t. see (VexThreadState_setSuspended (thr p w3)) t)"
        by (rule acts_then_upd [OF a3]) simp
      note a = acts_trans [OF a4 block_acts [OF acts_ok [OF a4], of p "[SetRunning, UpdateCpuTimeClock]"]]
      note a = acts_trans [OF a posix [OF acts_ok [OF a]]]
      have q5: "p \<notin> set (queued (upd_mgr m ?posix ?w4))" using not_queued_acts [OF a] core(2) by (simp add: see_def)
      have "does (ThreadManager_setSuspended m p (upd_mgr m ?posix ?w4)) (\<lambda>w'. settles ready core p w (w', True))"
      proof (rule does_mono [OF acts_then [OF a setSuspended_push_acts [OF acts_ok [OF a] q5, of m]]], rule settlesI)
        show "settled core (let t = see (VexThreadState_setSuspended (thr p w3)) (look p w)
            in t\<lparr>c_awaken := False, c_blocked := Some [SetRunning, UpdateCpuTimeClock], c_state := SUSPENDED, c_queued := True,
                 c_running := c_running t - {m}\<rparr>)"
          by (rule settled_parked [of _ Running])
            (use core in \<open>auto simp: Let_def see_def parked_view_def code_left_def runnable_view_def final_modes_def\<close>)
      qed (auto simp: Let_def elim: acts_cong)
      then show ?thesis unfolding e using True
        by (auto simp: ThreadManager_isSignalledThreadGoingToSuspend_def Let_def does_def)
    next
      case b: False
      let ?w4 = "upd_thr p (upd_timers (Timers_updateLastResumedTo (realTime w))) w3"
      have "acts ready p w3 ?w4 (\<lambda>t. t)" by (rule unseen [OF acts_ok [OF a3] _ q3]) (simp add: unseen_facts)
      note a = acts_trans [OF a3 this]
      note a = acts_trans [OF a clock [OF acts_ok [OF a]]]
      note a = acts_trans [OF a posix [OF acts_ok [OF a]]]
      let ?w5 = "upd_mgr m ?posix (update_cpu_clock p ?w4)"
      have "c_running (look p ?w5) = {m}" "c_manager (look p ?w5) = Some m" "\<not> c_queued (look p ?w5)"
        using core acts_look [OF a] look_state(7) [of p w] by (simp_all del: look_state upd_mgr_fields upd_thr_fields)
      then have "acts ready p ?w5 (ThreadManager_onIntentionToKeepOnRunning m p ?w5) (\<lambda>t. t)"
        by (intro keep_running_acts [OF acts_ok [OF a]]) auto
      note a = acts_trans [OF a this]
      show ?thesis unfolding e using b settlesI [OF a, of core] settled_fits [OF run]
        by (simp add: ThreadManager_isSignalledThreadGoingToSuspend_def Let_def final_modes_def)
    qed
  qed
qed

lemma suspend_thread_settles:
  assumes cfg: "controller cfg = ctrl" and inv: "sched_inv ready core w" and r: "runningThread (managers w m) = Some p"
  shows "does (ThreadManager_suspendThread cfg inp m p w) (\<lambda>(w', b). sched_inv ready core w')"
proof -
  have ok: "shared_ok ready w" and t: "settled core (look p w)" using inv by (simp_all add: sched_inv_def)
  have "m \<in> c_running (look p w)" using r by simp
  from settled_running [OF t this] have run: "fits core Running (look p w)" and m: "controllingManager p w = Some m"
    by simp_all
  have core: "p \<notin> set (queued w)" "c_running (look p w) = {m}" "c_manager (look p w) = Some m"
    using running_suspendable [OF run] m by auto
  show ?thesis
  proof (cases "keyObtained inp")
    case False
    let ?w1 = "ThreadManager_unsetCurrentThreadFromRunningThread m p w"
    note u = unset_acts [OF ok, of p m]
    have n: "thr p ?w1 = thr p w" by (simp add: ThreadManager_unsetCurrentThreadFromRunningThread_def)
    have a: "acts ready p w (upd_thr p VexThreadState_setNativeWaiting ?w1)
        (\<lambda>t. see (VexThreadState_setNativeWaiting (thr p w)) (t\<lparr>c_running := c_running t - {m}\<rparr>))"
      using acts_then_upd [OF u, of VexThreadState_setNativeWaiting] core(1) n by simp
    have "settled core (see (VexThreadState_setNativeWaiting (thr p w)) ((look p w)\<lparr>c_running := c_running (look p w) - {m}\<rparr>))"
      by (rule native_view [OF run]) (use core in \<open>simp_all add: see_def controllingManager_def\<close>)
    then show ?thesis using sched_inv_acts [OF inv a] False by (simp add: ThreadManager_suspendThread_def)
  next
    case True
    have "does (ThreadManager_suspendThread_locked cfg inp m p w) (\<lambda>(w', b). sched_inv ready core w')"
    proof (cases "signalSent inp")
      case True
      have "does (bindE (signal_handler cfg inp p w) (ThreadManager_isSignalledThreadGoingToSuspend cfg m p)) (\<lambda>(w', b). sched_inv ready core w')"
        by (rule does_mono [OF signal_settles [OF cfg ok run m]]) (auto intro: settles_inv [OF inv])
      then show ?thesis using True r
        by (simp add: ThreadManager_suspendThread_locked_def ThreadManager_getRunningThread_def)
    next
      case False
      have "does (on_queue (\<lambda>st. ThreadQueue_erase st p) w) (sched_inv ready core)"
        by (rule does_mono [OF erase_acts [OF ok, of p]], erule sched_inv_acts [OF inv], rule settled_fits [of _ Running])
          (use run in \<open>simp_all add: final_modes_def managed_def del: look_state\<close>)
      then show ?thesis using False r
        by (auto simp: ThreadManager_suspendThread_locked_def ThreadManager_getRunningThread_def does_def)
    qed
    then show ?thesis using True by (simp add: ThreadManager_suspendThread_def)
  qed
qed

lemma round_inv:
  assumes cfg: "controller cfg = ctrl" "0 < stackDepth cfg" and core: "core m" and inv: "sched_inv ready core w"
  shows "does (ThreadManager_suspendRunningResumeNext cfg run inp m w) (sched_inv ready core)"
proof -
  have "does (case ThreadManager_getRunningThread m w of None \<Rightarrow> Inr (w, True)
      | Some p \<Rightarrow> ThreadManager_suspendThread cfg inp m p w) (\<lambda>(w', b). sched_inv ready core w')"
    using suspend_thread_settles [OF cfg(1) inv] inv
    by (auto simp: ThreadManager_getRunningThread_def split: option.splits)
  then obtain w1 b where r1: "(case ThreadManager_getRunningThread m w of None \<Rightarrow> Inr (w, True)
      | Some p \<Rightarrow> ThreadManager_suspendThread cfg inp m p w) = Inr (w1, b)" and i1: "sched_inv ready core w1"
    by (auto simp: does_def)
  show ?thesis
    using continue_inv [OF cfg core i1, of run inp] i1
    unfolding ThreadManager_suspendRunningResumeNext_def r1 by (cases b) simp_all
qed

end

end
