(* ===== verification/Vex_System.thy ===== *)
theory Vex_System
  imports Vex_Rounds
begin

text \<open>
  The simulated program and its managers as one transition system. An \<open>event\<close> is what happens next: a
  thread calls an entry point of VEX, returns from a block, is spawned, is interrupted or unparked; a
  manager runs one round of its loop; the clocks advance. \<open>perform\<close> runs the code of the event and
  \<open>legal\<close> says when it may happen: an entry point fits what the thread was doing, and a thread that
  returns was awakened. \<open>reachable\<close> are the states after any sequence of legal events.
\<close>

section \<open>Events\<close>

text \<open>\<open>interruptThread\<close> of \<open>ThreadEventsBehaviour\<close>, the target of a notification or of an interrupt.\<close>

definition ThreadEventsBehaviour_interruptThread ::
  "'tl config \<Rightarrow> nat \<Rightarrow> thread_ptr \<Rightarrow> int \<Rightarrow> bool \<Rightarrow> 'tl world \<Rightarrow> ('tl world \<times> bool) res" where
  "ThreadEventsBehaviour_interruptThread cfg m p interruptionTime isThreadInterruptCall w =
     (if isWaiting (thr p w)
      then bindE (ThreadManager_onAnyReplacedWaitingInterrupt cfg m p interruptionTime w) (\<lambda>w1.
           Inr (upd_thr p (\<lambda>s. s\<lparr>timedOut := \<not> isThreadInterruptCall\<rparr>) w1, True))
      else Inr (w, False))"

text \<open>The part of \<open>onUnpark\<close> for a parked thread.\<close>

definition ThreadEventsBehaviour_unparkWaiting ::
  "'tl config \<Rightarrow> nat \<Rightarrow> thread_ptr \<Rightarrow> int \<Rightarrow> 'tl world \<Rightarrow> 'tl world res" where
  "ThreadEventsBehaviour_unparkWaiting cfg m p unParkingTime w =
     (if timeout (thr_timers (thr p w)) > 0
      then ThreadManager_onWrappedTimedWaitingInterrupt cfg m p unParkingTime (upd_thr p (\<lambda>s. s\<lparr>timedOut := False\<rparr>) w)
      else ThreadManager_onWrappedWaitingInterrupt cfg m p unParkingTime w)"

datatype sched_event =
    Enter thread_ptr "frame list"
  | EndWaiting thread_ptr
  | Return thread_ptr
  | Spawn bool nat thread_ptr
  | Round nat round_inputs
  | Interrupt nat thread_ptr int bool
  | Unpark nat thread_ptr int
  | Clocks "thread_ptr \<Rightarrow> int" int

definition fst_res :: "('a \<times> 'b) res \<Rightarrow> 'a res" where
  "fst_res r = bindE r (\<lambda>(x, _). Inr x)"

fun perform :: "'tl config \<Rightarrow> model_run \<Rightarrow> sched_event \<Rightarrow> 'tl world \<Rightarrow> 'tl world res" where
  "perform cfg run (Enter p code) w = fst_res (run_frames cfg p code w)"
| "perform cfg run (EndWaiting p) w = fst_res (VexThreadState_onWrappedWaitingEnd cfg p w)"
| "perform cfg run (Return p) w = fst_res (continue_thread_code cfg p w)"
| "perform cfg run (Spawn named m p) w = fst_res (ThreadManager_onThreadSpawn cfg named m p w)"
| "perform cfg run (Round m inp) w = ThreadManager_suspendRunningResumeNext cfg run inp m w"
| "perform cfg run (Interrupt m p t b) w = fst_res (ThreadEventsBehaviour_interruptThread cfg m p t b w)"
| "perform cfg run (Unpark m p t) w = ThreadEventsBehaviour_unparkWaiting cfg m p t w"
| "perform cfg run (Clocks cpu now) w = Inr (w\<lparr>cpuTime := cpu, realTime := now\<rparr>)"

definition well_typed :: "(nat \<Rightarrow> bool) \<Rightarrow> frame list \<Rightarrow> mode \<Rightarrow> bool" where
  "well_typed core code M \<longleftrightarrow> (case code_type core code M of None \<Rightarrow> False | Some N \<Rightarrow> N \<in> final_modes)"

fun legal :: "(nat \<Rightarrow> bool) \<Rightarrow> 'tl world \<Rightarrow> sched_event \<Rightarrow> bool" where
  "legal core w (Enter p code) \<longleftrightarrow> (\<exists>M \<in> final_modes. fits core M (look p w) \<and> well_typed core code M)"
| "legal core w (EndWaiting p) \<longleftrightarrow> fits core RealWaiting (look p w)"
| "legal core w (Return p) \<longleftrightarrow> blockedIn w p \<noteq> None \<and> awaken (scheduling_of (thr p w))"
| "legal core w (Spawn named m p) \<longleftrightarrow> core m \<and> fits core Outside (look p w)"
| "legal core w (Round m inp) \<longleftrightarrow> core m"
| "legal core w (Interrupt m p t b) \<longleftrightarrow> core m \<and> (isWaiting (thr p w) \<longrightarrow> blockedIn w p \<noteq> None)"
| "legal core w (Unpark m p t) \<longleftrightarrow> core m \<and> (fits core RealWaiting (look p w) \<or> fits core RealTimed (look p w))"
| "legal core w (Clocks cpu now) \<longleftrightarrow> True"

text \<open>The entry points are well typed for what the thread was doing before.\<close>

lemma entry_points_typed:
  "well_typed core (VexThreadState_onInvocationPoint t) Running" "well_typed core (VexThreadState_onInvocationPoint t) Native"
  "well_typed core (VexThreadState_onYield t) Running" "well_typed core (VexThreadState_onYield t) Native"
  "t > 0 \<Longrightarrow> well_typed core (VexThreadState_onReplacedTimedWaiting ob t) Running"
  "well_typed core (VexThreadState_onReplacedWaiting ob True) Running"
  "well_typed core (VexThreadState_onWrappedWaitingStart t) Running"
  "t > 0 \<Longrightarrow> well_typed core (OnVexEntry # VexThreadState_onWrappedTimedWaitingStart ob c t) Running"
  "well_typed core (VexThreadState_onWrappedTimedWaitingEnd r) RealTimed"
  "well_typed core ThreadEventsBehaviour_onEnd Running" "well_typed core ThreadEventsBehaviour_onEnd Native"
  by (simp_all add: well_typed_def vex_defs final_modes_def)

definition initial_world :: "('tl \<Rightarrow> bool) \<Rightarrow> (nat \<Rightarrow> bool) \<Rightarrow> 'tl world \<Rightarrow> bool" where
  "initial_world ready core w \<longleftrightarrow> shared_ok ready w \<and> queued w = [] \<and>
     (\<forall>p. blockedIn w p = None \<and> currentState (thr p w) \<noteq> RUNNING) \<and> (\<forall>m. runningThread (managers w m) = None)"

inductive reachable ::
  "'tl config \<Rightarrow> model_run \<Rightarrow> ('tl \<Rightarrow> bool) \<Rightarrow> (nat \<Rightarrow> bool) \<Rightarrow> 'tl world \<Rightarrow> bool" for cfg run ready core where
  started: "initial_world ready core w \<Longrightarrow> reachable cfg run ready core w"
| event: "reachable cfg run ready core w \<Longrightarrow> legal core w e \<Longrightarrow> perform cfg run e w = Inr w' \<Longrightarrow>
    reachable cfg run ready core w'"

section \<open>Every legal event succeeds\<close>

lemma initial_inv: "initial_world ready core w \<Longrightarrow> sched_inv ready core w"
  unfolding initial_world_def sched_inv_def
  by (auto intro!: settled_fits [of core Outside] simp: final_modes_def idle_view_def)

lemma fst_res_inv: "does r (\<lambda>(w', b). sched_inv ready core w') \<Longrightarrow> does (fst_res r) (sched_inv ready core)"
  by (auto simp: does_def fst_res_def)

lemma settled_awake:
  assumes "settled core t" "c_blocked t \<noteq> None" "c_awaken t"
  obtains M where "M \<in> final_modes" "code_left core M t" "awakened_view core t"
  using assms by (auto simp: settled_def final_modes_def runnable_view_def notified_view_def)

lemma settled_waiting:
  assumes "settled core t" "c_blocked t \<noteq> None" "c_state t = WAITING"
  obtains M where "M \<in> final_modes" "code_left core M t" "runnable_view t \<or> notified_view t"
  using assms by (auto simp: settled_def final_modes_def awakened_view_def)

lemma clocks_inv: "sched_inv ready core w \<Longrightarrow> sched_inv ready core (w\<lparr>cpuTime := cpu, realTime := now\<rparr>)"
  by (simp add: sched_inv_def shared_ok_def look_def thr_def queued_def Let_def)

lemma setRegistering_sees [simp]:
  "currentState (VexThreadState_setRegistering s) = REGISTERING"
  "scheduling_of (VexThreadState_setRegistering s) = scheduling_of s"
  "timeout (thr_timers (VexThreadState_setRegistering s)) = timeout (thr_timers s)"
  "waitingInRealTime (VexThreadState_setRegistering s) = waitingInRealTime s"
  by (simp_all add: VexThreadState_setRegistering_def upd_timers_def Timers_setLastTimePerStateERT_def)

context time_controller
begin

lemma spawn_lands:
  assumes cfg: "controller cfg = ctrl" "0 < stackDepth cfg" and ok: "shared_ok ready w" and core: "core m"
    and out: "fits core Outside (look p w)"
  shows "lands ready core Running p w (ThreadManager_onThreadSpawn cfg named m p w)"
proof -
  have q: "p \<notin> set (queued w)" using out by (simp add: idle_view_def)
  have a0: "acts ready p w (update_cpu_clock p w) (\<lambda>t. t)"
    unfolding update_cpu_clock_def by (rule acts_unseen [OF ok]) (simp_all add: unseen_facts)
  have q0: "p \<notin> set (queued (update_cpu_clock p w))" using q by (simp add: update_cpu_clock_def)
  let ?w1 = "upd_thr p VexThreadState_setRegistering (update_cpu_clock p w)"
  have a1: "acts ready p w ?w1 (see (VexThreadState_setRegistering (thr p (update_cpu_clock p w))))"
    by (rule acts_then_upd [OF a0]) (use q in simp)
  obtain c r where r2: "ThreadRegistry_add named p (cells ?w1, threadRegistry ?w1) = Inr (c, r)"
    and a2: "acts ready p ?w1 (?w1\<lparr>cells := c, threadRegistry := r\<rparr>) (\<lambda>t. t)"
    using registry_add_acts [OF acts_ok [OF a1], of p named] q0 by auto
  note a = acts_trans [OF a1 a2]
  let ?w2 = "upd_thr p (upd_sched (Scheduling_setThreadCurrentlyControllingManager (Some m))) (?w1\<lparr>cells := c, threadRegistry := r\<rparr>)"
  have a3: "acts ready p w ?w2 (\<lambda>t. see (upd_sched (Scheduling_setThreadCurrentlyControllingManager (Some m))
      (thr p (?w1\<lparr>cells := c, threadRegistry := r\<rparr>))) (see (VexThreadState_setRegistering (thr p (update_cpu_clock p w))) t))"
    by (rule acts_then_upd [OF a]) (use q in \<open>simp add: see_def\<close>)
  note a4 = acts_trans [OF a3 lock_key_acts [OF acts_ok [OF a3], of p]]
  let ?w3 = "VexThreadState_lockShareResourceAccessKey p ?w2"
  have susp: "suspendable core m (look p ?w3)" "m \<notin> c_running (look p ?w3)"
    unfolding acts_look [OF a4] using out core by (auto simp: suspendable_def see_def idle_view_def)
  have "lands ready core Running p ?w3 (ThreadManager_suspendCurrentThread cfg m p 0 SUSPEND_OPT_DONT_UPDATE_THREAD_TIME ?w3)"
    by (rule suspend_lands [OF cfg acts_ok [OF a4] susp(1)]) (use susp(2) in simp_all)
  then have "lands ready core Running p ?w3 (and_then (ThreadManager_suspendCurrentThread cfg m p 0 SUSPEND_OPT_DONT_UPDATE_THREAD_TIME ?w3)
      p [ExitWithCpuTimeUpdate] (run_frames cfg p [ExitWithCpuTimeUpdate]))"
    by (rule lands_and_then) (simp, rule run_frames_lands [OF cfg], simp_all)
  then have "lands ready core Running p ?w3 (ThreadManager_onThreadSpawn cfg named m p w)"
    unfolding ThreadManager_onThreadSpawn_def Let_def r2 by simp
  then show ?thesis by (rule lands_after [OF a4])
qed

lemma end_waiting_lands:
  assumes cfg: "controller cfg = ctrl" "0 < stackDepth cfg" and ok: "shared_ok ready w" and wait: "fits core RealWaiting (look p w)"
  shows "lands ready core Running p w (VexThreadState_onWrappedWaitingEnd cfg p w)"
proof -
  obtain m where m: "controllingManager p w = Some m" "core m" "p \<notin> set (queued w)" "c_running (look p w) = {}" "blockedIn w p = None"
    using wait by (auto simp: managed_def idle_view_def split: option.splits)
  have "acts ready p w (upd_thr p (\<lambda>s. s\<lparr>inVex := True\<rparr>) w) (\<lambda>t. t)" by (rule acts_unseen [OF ok]) (simp_all add: unseen_facts)
  note a1 = acts_trans [OF this lock_key_acts [OF acts_ok [OF this], of p]]
  let ?w1 = "VexThreadState_lockShareResourceAccessKey p (upd_thr p (\<lambda>s. s\<lparr>inVex := True\<rparr>) w)"
  let ?f = "\<lambda>s. (upd_sched (Scheduling_setAwakeningFromJoin False) (set_timeout (-1) s))\<lparr>timedOut := True\<rparr>"
  have a2: "acts ready p w (upd_thr p ?f ?w1) (\<lambda>t. see (?f (thr p ?w1)) t)"
    by (rule acts_then_upd [OF a1]) (use m in simp)
  have m1: "controllingManager p ?w1 = Some m" using acts_look [OF a1] m(1) look_state(3) [of p ?w1] by simp
  have q2: "p \<notin> set (queued (upd_thr p ?f ?w1))" using not_queued_acts [OF a2] m(3) by (simp add: see_def)
  obtain w3 where r3: "update_timestamp cfg m Blocking p (upd_thr p ?f ?w1) = Inr w3"
    and a3: "acts ready p (upd_thr p ?f ?w1) w3 (\<lambda>t. t)"
    using update_acts [OF cfg(1) acts_ok [OF a2] m(2) q2] by (auto simp: does_def)
  note a3 = acts_trans [OF a2 a3]
  have "controllingManager p (upd_thr p ?f ?w1) = Some m" using m1 by (simp add: controllingManager_def)
  then have susp: "suspendable core m (look p w3)" "m \<notin> c_running (look p w3)"
    unfolding acts_look [OF a3] using m by (auto simp: suspendable_def see_def controllingManager_def set_timeout_def)
  have end_code: "code_type core [UpdateWaitingTimeFrom t, ExitWithCpuTimeUpdate] Running = Some Running" for t by simp
  have "lands ready core Running p w3 (and_then (ThreadManager_suspendCurrentThread cfg m p s 0 w3) p
      [UpdateWaitingTimeFrom t, ExitWithCpuTimeUpdate] (run_frames cfg p [UpdateWaitingTimeFrom t, ExitWithCpuTimeUpdate]))" for s t
    by (rule lands_and_then [OF suspend_lands [OF cfg acts_ok [OF a3] susp(1)] end_code])
      (use susp(2) run_frames_lands [OF cfg _ _ end_code] in simp_all)
  then have "lands ready core Running p w3 (VexThreadState_onWrappedWaitingEnd cfg p w)"
    unfolding VexThreadState_onWrappedWaitingEnd_def Let_def m1 ThreadManager_onWrappedWaitingEnd_def managerOf_def
    by (simp add: r3)
  then show ?thesis by (rule lands_after [OF a3])
qed

lemma return_lands:
  assumes cfg: "controller cfg = ctrl" "0 < stackDepth cfg" and ok: "shared_ok ready w"
    and left: "code_left core M (look p w)" "awakened_view core (look p w)"
  shows "lands ready core M p w (continue_thread_code cfg p w)"
proof -
  obtain fs where fs: "blockedIn w p = Some fs" "code_type core fs Resumed = Some M"
    using left(1) by (auto simp: code_left_def split: option.splits)
  let ?w1 = "w\<lparr>blockedIn := (blockedIn w)(p := None)\<rparr>"
  have a1: "acts ready p w ?w1 (\<lambda>t. t\<lparr>c_blocked := None\<rparr>)"
    using ok by (auto simp: acts_def look_def Let_def thr_def queued_def shared_ok_def)
  note a2 = acts_trans [OF a1 lock_key_acts [OF acts_ok [OF a1], of p]]
  have "fits core Resumed (look p (VexThreadState_lockShareResourceAccessKey p ?w1))"
    unfolding acts_look [OF a2] using left(2) by (simp add: awakened_view_def idle_view_def managed_def)
  then have "lands ready core M p (VexThreadState_lockShareResourceAccessKey p ?w1) (continue_thread_code cfg p w)"
    using run_frames_lands [OF cfg acts_ok [OF a2] _ fs(2)] by (simp add: continue_thread_code_def fs(1))
  then show ?thesis by (rule lands_after [OF a2])
qed

lemma interrupt_inv:
  assumes cfg: "controller cfg = ctrl" and inv: "sched_inv ready core w" and core: "core m"
    and blocked: "isWaiting (thr p w) \<longrightarrow> blockedIn w p \<noteq> None"
  shows "does (ThreadEventsBehaviour_interruptThread cfg m p t b w) (\<lambda>(w', b). sched_inv ready core w')"
proof (cases "isWaiting (thr p w)")
  case True
  have ok: "shared_ok ready w" and set: "settled core (look p w)" using inv by (simp_all add: sched_inv_def)
  have "c_blocked (look p w) \<noteq> None" "c_state (look p w) = WAITING" using True blocked by (simp_all add: isWaiting_def)
  from settled_waiting [OF set this]
  obtain M where M: "M \<in> final_modes" "code_left core M (look p w)" "runnable_view (look p w) \<or> notified_view (look p w)" .
  have s: "settled core (interrupted (look p w))"
    by (rule settled_parked [OF _ M(1)])
      (use M(2,3) \<open>c_state (look p w) = WAITING\<close> in \<open>auto simp: parked_view_def code_left_def interrupted_def runnable_view_def
        notified_view_def idle_view_def simp del: look_state\<close>)
  have "p \<notin> set (queued w) \<or> c_timeout (look p w) \<notin> {0, -2}"
    using M(3) \<open>c_state (look p w) = WAITING\<close> by (auto simp: runnable_view_def notified_view_def idle_view_def)
  from interrupt_acts [OF cfg ok core this, of t]
  obtain w1 where r1: "ThreadManager_onAnyReplacedWaitingInterrupt cfg m p t w = Inr w1" and a1: "acts ready p w w1 interrupted"
    by (auto simp: does_def)
  have "acts ready p w1 (upd_thr p (\<lambda>s. s\<lparr>timedOut := \<not> b\<rparr>) w1) (\<lambda>t. t)"
    by (rule acts_unseen [OF acts_ok [OF a1]]) (simp_all add: unseen_facts)
  from sched_inv_acts [OF inv acts_trans [OF a1 this] s] show ?thesis
    using True r1 by (simp add: ThreadEventsBehaviour_interruptThread_def)
qed (use inv in \<open>simp add: ThreadEventsBehaviour_interruptThread_def\<close>)

lemma timed_unpark_acts:
  assumes cfg: "controller cfg = ctrl" and ok: "shared_ok ready w" and core: "core m"
  shows "does (ThreadManager_onWrappedTimedWaitingInterrupt cfg m p t w) (\<lambda>w'. acts ready p w w' (\<lambda>t. t))"
proof -
  let ?u = "Interrupted (if t = 0 then ctrl_globalTime (controller cfg) (virtualTimeline w) else t)"
  obtain vt s1 where vt: "ctrl_update ctrl m ?u (virtualTimeline w) (thr p w) = Inr (vt, s1)" "ready vt" "retimed (thr p w) s1"
    using updates [OF shared_okD(5) [OF ok] core] by blast
  let ?w1 = "upd_thr p (\<lambda>_. s1) (w\<lparr>virtualTimeline := vt\<rparr>)"
  have u: "update_timestamp cfg m ?u p w = Inr ?w1"
    using cfg vt(1) by (simp add: update_timestamp_def on_timeline_of_def)
  have "?w1 = (upd_thr p (\<lambda>_. s1) (w\<lparr>virtualTimeline := vt\<rparr>))\<lparr>objectRegistry := objectRegistry w\<rparr>" by (simp add: upd_thr_def)
  from requeue_acts [OF ok vt(2) this]
  have "does (ThreadManager_updateRunnableQueue ?w1) (\<lambda>w'. acts ready p w w' (see s1))" .
  moreover have "see s1 (look p w) = look p w" using vt(3) by (auto simp: see_def look_def Let_def retimed_def)
  ultimately show ?thesis
    unfolding ThreadManager_onWrappedTimedWaitingInterrupt_def u by (auto elim!: does_mono acts_cong)
qed

lemma unpark_inv:
  assumes cfg: "controller cfg = ctrl" and inv: "sched_inv ready core w" and core: "core m"
    and wait: "fits core RealWaiting (look p w) \<or> fits core RealTimed (look p w)"
  shows "does (ThreadEventsBehaviour_unparkWaiting cfg m p t w) (sched_inv ready core)"
proof (cases "timeout (thr_timers (thr p w)) > 0")
  case True
  have ok: "shared_ok ready w" using inv by (simp add: sched_inv_def)
  have a: "acts ready p w (upd_thr p (\<lambda>s. s\<lparr>timedOut := False\<rparr>) w) (\<lambda>t. t)"
    by (rule acts_unseen [OF ok]) (simp_all add: unseen_facts)
  have "does (ThreadManager_onWrappedTimedWaitingInterrupt cfg m p t (upd_thr p (\<lambda>s. s\<lparr>timedOut := False\<rparr>) w))
      (\<lambda>w'. acts ready p w w' (\<lambda>t. t))"
    using acts_then [OF a timed_unpark_acts [OF cfg acts_ok [OF a] core]] by simp
  then have "does (ThreadManager_onWrappedTimedWaitingInterrupt cfg m p t (upd_thr p (\<lambda>s. s\<lparr>timedOut := False\<rparr>) w)) (sched_inv ready core)"
    by (rule does_mono) (erule sched_inv_acts [OF inv], use inv in \<open>simp add: sched_inv_def\<close>)
  then show ?thesis using True by (simp add: ThreadEventsBehaviour_unparkWaiting_def)
next
  case False
  have ok: "shared_ok ready w" using inv by (simp add: sched_inv_def)
  have w: "fits core RealWaiting (look p w)" using wait False by (auto simp: timed_view_def)
  then have q: "p \<notin> set (queued w)" by (simp add: idle_view_def)
  let ?u = "Interrupted (if t = 0 then ctrl_globalTime (controller cfg) (virtualTimeline w) else t)"
  let ?f = "\<lambda>s. (VexThreadState_setWaiting (fst (VexThreadState_beforeThreadInterruptAt s None)))\<lparr>timedOut := False\<rparr>"
  obtain w1 where r1: "update_timestamp cfg m ?u p w = Inr w1" and a1: "acts ready p w w1 (\<lambda>t. t)"
    using update_acts [OF cfg ok core q] by (auto simp: does_def)
  have a2: "acts ready p w (upd_thr p ?f w1) (\<lambda>t. see (?f (thr p w1)) t)"
    by (rule acts_then_upd [OF a1]) (use q in simp)
  obtain s2 ob where b: "VexThreadState_beforeThreadInterruptAt (thr p w1) None = (s2, ob)" by fastforce
  have "fits core RealWaiting (see (?f (thr p w1)) (look p w))"
    using w beforeInterrupt_sees [OF b] acts_look [OF a1] look_state(3) [of p w1] b
    by (simp add: see_def idle_view_def managed_def controllingManager_def)
  then have "settled core (see (?f (thr p w1)) (look p w))" by (rule settled_fits) (simp add: final_modes_def)
  from sched_inv_acts [OF inv a2 this] show ?thesis using False r1
    by (simp add: ThreadEventsBehaviour_unparkWaiting_def ThreadManager_onWrappedWaitingInterrupt_def)
qed

text \<open>Progress and preservation.\<close>

lemma perform_inv:
  assumes cfg: "controller cfg = ctrl" "0 < stackDepth cfg" and inv: "sched_inv ready core w" and legal: "legal core w e"
  shows "does (perform cfg run e w) (sched_inv ready core)"
proof -
  have ok: "shared_ok ready w" using inv by (simp add: sched_inv_def)
  show ?thesis
  proof (cases e)
    case (Enter p code)
    then obtain M where M: "fits core M (look p w)" "well_typed core code M" using legal by auto
    then obtain N where N: "code_type core code M = Some N" "N \<in> final_modes" by (auto simp: well_typed_def split: option.splits)
    show ?thesis unfolding Enter perform.simps
      by (rule fst_res_inv [OF lands_inv [OF inv run_frames_lands [OF cfg ok M(1) N(1)] N(2)]])
  next
    case (EndWaiting p)
    show ?thesis unfolding EndWaiting perform.simps
      by (rule fst_res_inv [OF lands_inv [OF inv end_waiting_lands [OF cfg ok]]])
        (use legal EndWaiting in \<open>simp_all add: final_modes_def\<close>)
  next
    case (Return p)
    have "settled core (look p w)" "c_blocked (look p w) \<noteq> None" "c_awaken (look p w)"
      using inv legal Return by (simp_all add: sched_inv_def)
    then obtain M where M: "M \<in> final_modes" "code_left core M (look p w)" "awakened_view core (look p w)"
      by (rule settled_awake)
    show ?thesis unfolding Return perform.simps
      by (rule fst_res_inv [OF lands_inv [OF inv return_lands [OF cfg ok M(2,3)] M(1)]])
  next
    case (Spawn named m p)
    show ?thesis unfolding Spawn perform.simps
      by (rule fst_res_inv [OF lands_inv [OF inv spawn_lands [OF cfg ok]]])
        (use legal Spawn in \<open>simp_all add: final_modes_def\<close>)
  next
    case (Round m inp)
    then show ?thesis using round_inv [OF cfg _ inv] legal by simp
  next
    case (Interrupt m p t b)
    then show ?thesis using fst_res_inv [OF interrupt_inv [OF cfg(1) inv]] legal by simp
  next
    case (Unpark m p t)
    then show ?thesis using unpark_inv [OF cfg(1) inv] legal by (simp del: fits.simps)
  next
    case (Clocks cpu now)
    then show ?thesis using clocks_inv [OF inv] by simp
  qed
qed

lemma reachable_inv:
  assumes cfg: "controller cfg = ctrl" "0 < stackDepth cfg"
  shows "reachable cfg run ready core w \<Longrightarrow> sched_inv ready core w"
proof (induction rule: reachable.induct)
  case (started w)
  then show ?case by (rule initial_inv)
next
  case (event w e w')
  then show ?case using perform_inv [OF cfg event.IH event.hyps(2), of run] by (simp add: does_def)
qed

end

section \<open>What the scheduler guarantees\<close>

definition executing :: "thread_ptr \<Rightarrow> 'tl world \<Rightarrow> bool" where
  "executing p w \<longleftrightarrow> blockedIn w p = None \<and> currentState (thr p w) = RUNNING"

lemma settled_executing:
  "settled core t \<Longrightarrow> c_blocked t = None \<Longrightarrow> c_state t = RUNNING \<Longrightarrow>
   \<exists>m. core m \<and> c_manager t = Some m \<and> c_running t = {m} \<and> \<not> c_queued t"
  by (auto simp: settled_def final_modes_def code_left_def timed_view_def managed_def split: option.splits)

lemma inv_executing:
  assumes "sched_inv ready core w" "executing p w"
  shows "\<exists>m. core m \<and> controllingManager p w = Some m \<and> runningThread (managers w m) = Some p \<and> p \<notin> set (queued w)"
proof -
  have "settled core (look p w)" using assms(1) by (simp add: sched_inv_def)
  from settled_executing [OF this] assms(2) obtain m where m: "core m" "controllingManager p w = Some m"
    "c_running (look p w) = {m}" "p \<notin> set (queued w)" by (auto simp: executing_def)
  then have "m \<in> {m. runningThread (managers w m) = Some p}" by simp
  with m show ?thesis by auto
qed

lemma inv_blocked:
  assumes "sched_inv ready core w" "blockedIn w p \<noteq> None"
  shows "(\<forall>m. runningThread (managers w m) \<noteq> Some p) \<and>
    (if awaken (scheduling_of (thr p w)) then p \<notin> set (queued w) \<and> isSuspended (thr p w)
     else p \<in> set (queued w) \<or> isWaiting (thr p w) \<and> timeout (thr_timers (thr p w)) = -2)"
proof -
  have "settled core (look p w)" using assms(1) by (simp add: sched_inv_def)
  then have "runnable_view (look p w) \<or> notified_view (look p w) \<or> awakened_view core (look p w)"
    using assms(2) unfolding settled_def by (auto simp: final_modes_def)
  then show ?thesis
    by (auto simp: runnable_view_def notified_view_def awakened_view_def idle_view_def isSuspended_def isWaiting_def)
qed

text \<open>A round in which the manager has no running thread and the earliest thread may be resumed.\<close>

context time_controller
begin

lemma dispatch:
  assumes cfg: "controller cfg = ctrl" "0 < stackDepth cfg" and inv: "sched_inv ready core w" and core: "core m"
    and idle: "runningThread (managers w m) = None" and nextp: "pq_top (queued w) = Some p"
    and may: "isSuspended (thr p w)" "timedOut (thr p w) \<or> timeout (thr_timers (thr p w)) \<noteq> 0 \<and> \<not> afterInterruptedTimedParking (thr p w)"
  shows "does (ThreadManager_suspendRunningResumeNext cfg run inp m w)
    (\<lambda>w'. acts ready p w w' (\<lambda>t. awakened_by m (t\<lparr>c_queued := False\<rparr>)))"
proof -
  have ok: "shared_ok ready w" and t: "settled core (look p w)" using inv by (simp_all add: sched_inv_def)
  obtain n where n: "stackDepth cfg = Suc n" using cfg(2) by (cases "stackDepth cfg") auto
  have top: "p \<in> set (queued w)" using nextp top_hd [of "queued w" p] by auto
  let ?w1 = "VexThreadState_lockShareResourceAccessKey p w"
  note a1 = lock_key_acts [OF ok, of p]
  have q1: "queued ?w1 = queued w" and s1: "thr p ?w1 = upd_sched (\<lambda>sc. sc\<lparr>waitingInNativeVTFcode := waitingInNativeVTFcode sc + 1\<rparr>) (thr p w)"
    by (simp_all add: VexThreadState_lockShareResourceAccessKey_def)
  have susp: "currentState (thr p ?w1) = SUSPENDED" using may(1) s1 by (simp add: isSuspended_def upd_sched_def)
  from take_next_acts [OF acts_ok [OF a1], of p "Some m"]
  obtain w2 where r2: "ask_queue (\<lambda>st. ThreadQueue_getNextIfEqualsElseReturnTop st (Some p) (Some m)) ?w1 = Inr (w2, Some p)"
    and a2: "acts ready p ?w1 w2 (\<lambda>t. t\<lparr>c_queued := False\<rparr>)"
    using nextp q1 susp
    by (auto simp: isRunning_def inIoPredictionPhase_def isWaitingRealCodeToCompleteAfterModelSimulation_def)
  have st2: "thr p w2 = thr p ?w1"
  proof -
    have "\<exists>q. w2 = ?w1\<lparr>runnableThreads := q\<rparr>" using r2
      by (auto simp: ask_queue_def bindE_def split: sum.splits prod.splits)
    then show ?thesis by (auto simp: thr_def)
  qed
  note a = acts_trans [OF a1 a2]
  have blocked: "c_blocked (look p w2) \<noteq> None"
  proof -
    have "c_state (look p w) = SUSPENDED" "c_queued (look p w)" using may(1) top by (simp_all add: isSuspended_def)
    then have "c_blocked (look p w) \<noteq> None"
      using t by (cases rule: settled_queued [OF t]) (auto simp: timed_view_def code_left_def split: option.splits)
    then show ?thesis using acts_look [OF a] by (simp del: look_state)
  qed
  have q2: "p \<notin> set (queued w2)" using not_queued_acts [OF a] by simp
  have "ThreadManager_continueLocked cfg run inp m p w2 = ThreadManager_resumeThread cfg m p w2"
    using may s1 by (auto simp: ThreadManager_continueLocked_def st2 isSuspended_def upd_sched_def Let_def)
  then have "does (ThreadManager_continueLocked cfg run inp m p w2) (\<lambda>w'. acts ready p w w' (\<lambda>t. awakened_by m (t\<lparr>c_queued := False\<rparr>)))"
    using acts_then [OF a resume_acts [OF cfg(1) acts_ok [OF a] core q2 blocked]] by simp
  then show ?thesis
    using idle nextp
    by (simp add: ThreadManager_suspendRunningResumeNext_def ThreadManager_getRunningThread_def reads_queue(2) [OF ok]
        ThreadManager_continueThread_def n Let_def r2)
qed

end

section \<open>A concrete simulation\<close>

text \<open>Two managers and threads that are not spawned yet; \<open>forced\<close> threads suspend themselves when they
  are spawned, as the constructor of \<open>Scheduling\<close> asks for.\<close>

definition example_manager :: manager where
  "example_manager =
     \<lparr>runningThread = None, schedulerTimeslot = 100000000, defaultSchedulerTimeslot = 100000000,
      forceMinimumTimeslotSelection = False, timesOfMinimumTimeslotForcing = 0, lastGlobalVirtualTime = 0,
      lastTotalThreadERT = 0, pendingNotifications = 0, schedulerWaitingForTimeslotExpiry = False, condSignalled = False,
      posixSignalsSent = 0, timedOutsFailed = 0, timedOutsSucceeded = 0, timesYielding = 0,
      decreaseSchedulerSleepingTimeBy = 0, currentTimeScalingFactor = 1, timeWaitingFactorChanged = False,
      numberOfNativeWaitingThreads = 0, freeze = 0, manager_running = True\<rparr>"

definition example_world :: "'tl \<Rightarrow> bool \<Rightarrow> 'tl world" where
  "example_world vt forced =
     \<lparr>cells = \<lparr>states = (\<lambda>p. example_thread\<lparr>currentState := REGISTERING, jthreadId := int p,
          scheduling_of := example_sched\<lparr>forceSuspend := forced\<rparr>\<rparr>),
        currentThreadState = (\<lambda>p. None), parentThreadWaitingYouToJoin = (\<lambda>p. None)\<rparr>,
      runnableThreads = ThreadQueue_ThreadQueue, managers = (\<lambda>m. example_manager), virtualTimeline = vt,
      threadRegistry = ThreadRegistry_ThreadRegistry 2, objectRegistry = Map.empty,
      blockedIn = (\<lambda>p. None), cpuTime = (\<lambda>p. 0), realTime = 0\<rparr>"

definition example_config :: "'tl controller \<Rightarrow> 'tl config" where
  "example_config c =
     \<lparr>controller = c, minimizeTimeslotOnNw = False, globalScalingFactor = 1, yieldDuration = 1000,
      iterationOrder = (\<lambda>r. []), isThreadSystemStateBlocked = (\<lambda>t p. False), stackDepth = 5\<rparr>"

definition no_model :: model_run where
  "no_model s t = (s, t, True)"

abbreviation two_cores :: multicore where
  "two_cores \<equiv> MulticoreVirtualTimeline_MulticoreVirtualTimeline 2"

abbreviation two_managers :: "nat \<Rightarrow> bool" where
  "two_managers \<equiv> \<lambda>m. m < 2"

lemma example_initial: "ready vt \<Longrightarrow> initial_world ready core (example_world vt forced)"
  by (auto simp: initial_world_def shared_ok_def example_world_def tq_ok_def ThreadQueue_ThreadQueue_def queued_def thr_def
      is_heap_def heap_from_def ThreadRegistry_ThreadRegistry_def example_manager_def)

lemma two_cores_ready: "mc_ready 2 two_cores"
  by (simp add: mc_ready_def MulticoreVirtualTimeline_MulticoreVirtualTimeline_def)

lemma example_config_simps [simp]: "controller (example_config c) = c" "0 < stackDepth (example_config c)"
  by (simp_all add: example_config_def)

lemma pq_push_empty: "pq_push cmp p [] = [p]"
  by (simp add: pq_push_def push_heap_def push_hole.simps)

lemmas example_steps =
  ThreadManager_onThreadSpawn_def example_world_def Let_def ThreadRegistry_add_def lockRegistry_def unlockRegistry_def
  ThreadRegistry_ThreadRegistry_def thr_def update_cpu_clock_def upd_thr_def upd_state_def upd_sched_def upd_timers_def
  ThreadManager_suspendCurrentThread_def suspendCurrentThread_calling_def SUSPEND_OPT_DONT_UPDATE_THREAD_TIME_def
  SUSPEND_OPT_FORCE_SUSPEND_def SUSPEND_OPT_THREAD_ALREADY_IN_LIST_def SUSPEND_OPT_DONT_WAKE_UP_SCHEDULER_def
  ThreadManager_shouldCurrentThreadSuspend_def Scheduling_getAndResetForcedSuspendFlag_def
  VexThreadState_lockShareResourceAccessKey_def ThreadManager_setSuspendedAndPushToRunnables_def
  ThreadManager_unsetCurrentThreadFromRunningThread_def upd_mgr_def on_queue_def ThreadManager_pushIntoRunnableQueue_def
  ThreadQueue_push_def tq_defs ThreadQueue_ThreadQueue_def fst_res_def and_then_def assertE_def
  ThreadManager_blockCurrentThread_def VexThreadState_onBlocked_def ThreadManager_unconditionalWakeup_def queued_def vex_defs
  VexThreadState_setSuspended_def VexThreadState_setNewState_def upd_stats_def VexThreadState_setRegistering_def
  example_thread_def example_timers_def example_sched_def pq_push_empty controllingManager_def
  ThreadManager_anotherThreadAlreadySetRunning_def example_manager_def Scheduling_isSuspendingAllowed_def
  ThreadManager_getRunningThread_def ThreadManager_setRunningThread_def example_config_def
  ThreadManager_changeThreadStateToRunning_def VexThreadState_setRunning_def update_timestamp_def on_timeline_of_def
  multiple_controller_def VexThreadState_exit_def Multiple_updateResumingSuspendedThreadTimestamp_def
  MulticoreVirtualTimeline_MulticoreVirtualTimeline_def getLocalTimelineActivationTime_def
  MulticoreVirtualTimeline_getLocalTimelineActivationTime_def with_mutex_def raise_local_def on_timeline_def

lemma example_runs:
  "\<exists>w. perform (example_config multiple_controller) no_model (Spawn True 0 0) (example_world two_cores False) = Inr w \<and>
     blockedIn w 0 = None \<and> currentState (thr 0 w) = RUNNING"
  by (simp add: example_steps eval_nat_numeral)

lemma example_parks:
  "\<exists>w. perform (example_config multiple_controller) no_model (Spawn True 0 0) (example_world two_cores True) = Inr w \<and>
     blockedIn w 0 = Some [SetRunning, ExitWithCpuTimeUpdate] \<and> queued w = [0] \<and> managers w 0 = example_manager\<lparr>schedulerWaitingForTimeslotExpiry := True\<rparr> \<and>
     currentState (thr 0 w) = SUSPENDED \<and> timedOut (thr 0 w)"
  by (simp add: example_steps)

lemma example_reachable:
  assumes "two_managers m"
    "perform (example_config multiple_controller) no_model (Spawn True m 0) (example_world two_cores forced) = Inr w"
  shows "reachable (example_config multiple_controller) no_model (mc_ready 2) two_managers w"
proof (rule reachable.event)
  show "reachable (example_config multiple_controller) no_model (mc_ready 2) two_managers (example_world two_cores forced)"
    by (rule reachable.started [OF example_initial [where ready = "mc_ready 2", OF two_cores_ready]])
  show "legal two_managers (example_world two_cores forced) (Spawn True m 0)"
    using assms(1) by (auto simp: example_world_def idle_view_def queued_def thr_def ThreadQueue_ThreadQueue_def example_manager_def)
qed (rule assms(2))

section \<open>Properties\<close>







text \<open>
  C4. The code of threads inside VEX is well typed. A thread in mode \<open>M\<close> runs any code of type \<open>N\<close>, on the
  single timeline, without failing; it ends in mode \<open>N\<close>, or it blocks, queued or waiting for a notification,
  and the code it has left leads from the mode in which the scheduler resumes it to \<open>N\<close>. No other thread is
  affected.
\<close>

theorem thread_code_type_sound:
  assumes "controller cfg = single_controller" "0 < stackDepth cfg"
    "shared_ok (\<lambda>vt. \<not> mutex_held vt) w" "fits (\<lambda>m. True) M (look p w)" "code_type (\<lambda>m. True) code M = Some N"
  shows "\<exists>w' blocked. run_frames cfg p code w = Inr (w', blocked) \<and> (\<forall>q. q \<noteq> p \<longrightarrow> look q w' = look q w) \<and>
    (if blocked then \<exists>rest. blockedIn w' p = Some rest \<and> code_type (\<lambda>m. True) rest Resumed = Some N \<and>
       (runnable_view (look p w') \<or> notified_view (look p w'))
     else fits (\<lambda>m. True) N (look p w'))"
proof -
  obtain w' b where r: "run_frames cfg p code w = Inr (w', b)"
    and o: "outcome (\<lambda>vt. \<not> mutex_held vt) (\<lambda>m. True) N p w (w', b)"
    using single_time.run_frames_lands [OF assms] unfolding does_def by fastforce
  have "\<exists>rest. blockedIn w' p = Some rest \<and> code_type (\<lambda>m. True) rest Resumed = Some N \<and>
      (runnable_view (look p w') \<or> notified_view (look p w'))" if b
    using o that by (auto simp: outcome_def parked_view_def code_left_def split: option.splits)
  then show ?thesis using r o by (auto simp: outcome_def simp del: look_state)
qed

text \<open>A running thread that yields.\<close>

definition example_running :: "timeline world" where
  "example_running =
     (let w = example_world \<lparr>mutex_held = False, globalVirtualTime = 0, unknownParallelTime = 0\<rparr> False
      in upd_thr 0 (\<lambda>s. s\<lparr>currentState := RUNNING, scheduling_of := example_sched\<lparr>threadCurrentlyControllingManager := Some 0\<rparr>\<rparr>)
           (upd_mgr 0 (\<lambda>g. g\<lparr>runningThread := Some 0\<rparr>) w))"

theorem thread_code_type_sound_witness:
  "\<exists>w' blocked. run_frames (example_config single_controller) 0 (VexThreadState_onYield 5) example_running = Inr (w', blocked)"
proof -
  have "shared_ok (\<lambda>vt. \<not> mutex_held vt) example_running" "fits (\<lambda>m. True) Running (look 0 example_running)"
    by (auto simp: example_running_def Let_def example_world_def upd_mgr_def upd_thr_def upd_state_def look_def thr_def queued_def
        shared_ok_def tq_ok_def ThreadQueue_ThreadQueue_def is_heap_def heap_from_def ThreadRegistry_ThreadRegistry_def
        example_manager_def managed_def split: if_splits)
  from thread_code_type_sound [OF _ _ this, of "example_config single_controller" "VexThreadState_onYield 5" Running]
  show ?thesis by (auto simp: VexThreadState_onYield_def)
qed



end
