(* ===== verification/Vex_Text.thy ===== *)
theory Vex_Text
  imports Vex_Prelude
begin

text \<open>
  Text in files, as the C++ library reads and writes it: decimal numbers (\<open>operator<<\<close>, \<open>atoll\<close>, \<open>atoi\<close>)
  and lines (\<open>getline\<close> in a loop that tests \<open>eof\<close>).
\<close>

section \<open>Numbers\<close>

definition digit :: "nat \<Rightarrow> char" where
  "digit d = char_of (48 + d)"

definition is_digit :: "char \<Rightarrow> bool" where
  "is_digit c \<longleftrightarrow> 48 \<le> (of_char c :: nat) \<and> (of_char c :: nat) \<le> 57"

definition digit_value :: "char \<Rightarrow> int" where
  "digit_value c = int (of_char c) - 48"

fun show_nat :: "nat \<Rightarrow> string" where
  "show_nat n = (if n < 10 then [digit n] else show_nat (n div 10) @ [digit (n mod 10)])"

declare show_nat.simps [simp del]

definition show_int :: "int \<Rightarrow> string" where
  "show_int i = (if i < 0 then CHR ''-'' # show_nat (nat (- i)) else show_nat (nat i))"

fun read_digits :: "int \<Rightarrow> string \<Rightarrow> int" where
  "read_digits acc [] = acc"
| "read_digits acc (c # cs) = (if is_digit c then read_digits (acc * 10 + digit_value c) cs else acc)"

definition is_space :: "char \<Rightarrow> bool" where
  "is_space c \<longleftrightarrow> c \<in> {CHR '' '', CHR 0x09, CHR 0x0A, CHR 0x0B, CHR 0x0C, CHR 0x0D}"

text \<open>A number out of the range of \<open>long\<close> is read as the mathematical value.\<close>

definition atoll :: "string \<Rightarrow> int" where
  "atoll s =
     (case dropWhile is_space s of
        [] \<Rightarrow> 0
      | c # cs \<Rightarrow> if c = CHR ''-'' then - read_digits 0 cs
                  else if c = CHR ''+'' then read_digits 0 cs
                  else read_digits 0 (c # cs))"

definition atoi :: "string \<Rightarrow> int" where
  "atoi s = (atoll s + 2147483648) mod 4294967296 - 2147483648"

section \<open>Lines\<close>

text \<open>The loop reads a line as long as the end of the file was not met, so a file that ends with a newline
  gives an empty last line.\<close>

fun getlines :: "string \<Rightarrow> string \<Rightarrow> string list" where
  "getlines acc [] = [rev acc]"
| "getlines acc (c # cs) = (if c = CHR 0x0A then rev acc # getlines [] cs else getlines (c # acc) cs)"

definition write_lines :: "string list \<Rightarrow> string" where
  "write_lines ls = concat (map (\<lambda>l. l @ [CHR 0x0A]) ls)"

lemma getlines_line: "CHR 0x0A \<notin> set l \<Longrightarrow> getlines acc (l @ CHR 0x0A # cs) = (rev acc @ l) # getlines [] cs"
  by (induction l arbitrary: acc) auto

lemma getlines_write_lines: "\<forall>l \<in> set ls. CHR 0x0A \<notin> set l \<Longrightarrow> getlines [] (write_lines ls) = ls @ [[]]"
  by (induction ls) (simp_all add: write_lines_def getlines_line)

lemma digit_facts:
  assumes "d < 10"
  shows "is_digit (digit d)" "digit_value (digit d) = int d" "\<not> is_space (digit d)" "digit d \<noteq> CHR ''-''"
    "digit d \<noteq> CHR ''+''" "digit d \<noteq> CHR 0x0A"
proof -
  have v: "(of_char (digit d) :: nat) = 48 + d" using assms by (simp add: digit_def)
  then show "is_digit (digit d)" "digit_value (digit d) = int d"
    using assms by (simp_all add: is_digit_def digit_value_def)
  have other: "digit d \<noteq> c" if "(of_char c :: nat) < 48" for c using that v by force
  show "\<not> is_space (digit d)" "digit d \<noteq> CHR ''-''" "digit d \<noteq> CHR ''+''" "digit d \<noteq> CHR 0x0A"
    by (simp_all add: is_space_def other)
qed

lemma show_nat_chars: "\<forall>c \<in> set (show_nat n). \<exists>d < 10. c = digit d"
proof (induction n rule: show_nat.induct)
  case (1 n)
  have "\<exists>d < 10. digit (n mod 10) = digit d" by (rule exI [of _ "n mod 10"]) simp
  with 1 show ?case by (subst show_nat.simps) auto
qed

lemma show_nat_not_Nil [simp]: "show_nat n \<noteq> []"
  by (subst show_nat.simps) simp

lemma read_digits_append:
  "\<forall>c \<in> set xs. is_digit c \<Longrightarrow> read_digits acc (xs @ ys) = read_digits (read_digits acc xs) ys"
  by (induction xs arbitrary: acc) auto

lemma read_show_nat: "read_digits 0 (show_nat n) = int n"
proof (induction n rule: show_nat.induct)
  case (1 n)
  have digits: "\<forall>c \<in> set (show_nat (n div 10)). is_digit c"
    using show_nat_chars [of "n div 10"] digit_facts(1) by auto
  show ?case
  proof (cases "n < 10")
    case True
    then show ?thesis by (simp add: show_nat.simps digit_facts)
  next
    case False
    then have "read_digits 0 (show_nat n) = read_digits (read_digits 0 (show_nat (n div 10))) [digit (n mod 10)]"
      by (subst show_nat.simps) (simp add: read_digits_append [OF digits] del: read_digits.simps)
    also have "\<dots> = int (n div 10) * 10 + int (n mod 10)"
      using 1 False by (simp add: digit_facts)
    finally show ?thesis using div_mult_mod_eq [of n 10] by linarith
  qed
qed

lemma atoll_show_int [simp]: "atoll (show_int i) = i"
proof (cases "i < 0")
  case True
  then show ?thesis by (simp add: show_int_def atoll_def is_space_def read_show_nat)
next
  case False
  obtain c cs where s: "show_nat (nat i) = c # cs" by (cases "show_nat (nat i)") auto
  then obtain d where "d < 10" "c = digit d" using show_nat_chars [of "nat i"] by auto
  then have "atoll (c # cs) = read_digits 0 (c # cs)" using digit_facts [of d] by (simp add: atoll_def)
  then show ?thesis using False read_show_nat [of "nat i"] s by (simp add: show_int_def)
qed

lemma show_int_one_line [simp]: "CHR 0x0A \<notin> set (show_int i)"
proof -
  have "CHR 0x0A \<notin> set (show_nat n)" for n
  proof
    assume "CHR 0x0A \<in> set (show_nat n)"
    then obtain d where "d < 10" "CHR 0x0A = digit d" using show_nat_chars by blast
    then show False using digit_facts(6) by metis
  qed
  then show ?thesis by (simp add: show_int_def)
qed

end
