(* ===== verification/Vex_Events.thy ===== *)
theory Vex_Events
  imports Vex_System Vex_Text "HOL-Library.Sublist"
begin

text \<open>
  \<open>events/ThreadEventsBehaviour.cpp\<close>: what VEX does when the instrumented program creates, joins, parks,
  signals or interrupts threads, waits on objects and requests locks. A behaviour is a list of \<open>call\<close>s;
  it may block at any call that suspends the thread, and \<open>pendingCalls\<close> holds the calls that the thread
  still has to do after the frames that \<open>blockedIn\<close> holds. A behaviour called by a thread that is not
  simulated has no thread of its own (\<open>None\<close>).
\<close>

section \<open>State\<close>

datatype call =
    Frames "frame list"
  | EnsureManagerOf
  | InsertWaiting int
  | RequestLock int
  | ReleaseLock int
  | SignalOne int
  | SignalAll int
  | InterruptId int
  | WrappedInterruptAll int
  | SetThreadVT int
  | CoordinateJoin int int
  | ParkOrSkip int int
  | ParkedEnd
  | UnparkId int
  | RegisterChild int
  | WrappedWaitingEnd
  | AnswerTimedOut
  | UpdateLocalTime int
  | AnswerTime
  | ExitVex
  | Cleanup

record 'tl vex =
  sim :: "'tl world"
  lockInfos :: "lock_info lock_registry"
  managerRegistry :: manager_registry
  excludedThreadsList :: "string list"
  aggregateCounters :: aggregate
  pendingCalls :: "thread_ptr \<Rightarrow> call list"
  answers :: "thread_ptr \<Rightarrow> int option"

definition on_sim :: "('tl world \<Rightarrow> 'tl world) \<Rightarrow> 'tl vex \<Rightarrow> 'tl vex" where
  [vex_defs]: "on_sim f v = v\<lparr>sim := f (sim v)\<rparr>"

definition in_sim :: "('tl world \<Rightarrow> 'tl world res) \<Rightarrow> 'tl vex \<Rightarrow> 'tl vex res" where
  "in_sim f v = bindE (f (sim v)) (\<lambda>w. Inr (v\<lparr>sim := w\<rparr>))"

definition blocks_sim :: "('tl world \<Rightarrow> ('tl world \<times> bool) res) \<Rightarrow> 'tl vex \<Rightarrow> ('tl vex \<times> bool) res" where
  "blocks_sim f v = bindE (f (sim v)) (\<lambda>(w, b). Inr (v\<lparr>sim := w\<rparr>, b))"

definition answer :: "thread_ptr option \<Rightarrow> int \<Rightarrow> 'tl vex \<Rightarrow> 'tl vex" where
  "answer caller x v = (case caller of None \<Rightarrow> v | Some p \<Rightarrow> v\<lparr>answers := (answers v)(p \<mapsto> x)\<rparr>)"

definition ThreadRegistry_getCurrentThreadState :: "int \<Rightarrow> 'tl world \<Rightarrow> thread_ptr option res" where
  "ThreadRegistry_getCurrentThreadState threadId w =
     bindE (lockRegistry (threadRegistry w)) (\<lambda>r. Inr (threadStateIndex r threadId))"

text \<open>\<open>long\<close> arithmetic at 64 bits.\<close>

definition ThreadEventsBehaviour_ensureTimeoutIsLessThanMax :: "int \<Rightarrow> int \<Rightarrow> int" where
  "ThreadEventsBehaviour_ensureTimeoutIsLessThanMax t nanoTimeout =
     (if t \<ge> LLONG_MAX div 1000000 then LLONG_MAX
      else sint (word_of_int (t * 1000000 + nanoTimeout) :: 64 word))"

section \<open>Excluded threads\<close>

text \<open>The loop pushes a line after every \<open>getline\<close>, also the empty one at the end of the file.\<close>

definition ThreadEventsBehaviour_registerThreadsToBeExcludedFromSimulation :: "string \<Rightarrow> 'tl vex \<Rightarrow> 'tl vex" where
  "ThreadEventsBehaviour_registerThreadsToBeExcludedFromSimulation file v =
     v\<lparr>excludedThreadsList := excludedThreadsList v @ getlines [] file\<rparr>"

definition ThreadEventsBehaviour_addThreadToBeExcludedFromSimulation :: "string \<Rightarrow> 'tl vex \<Rightarrow> 'tl vex" where
  "ThreadEventsBehaviour_addThreadToBeExcludedFromSimulation threadName v =
     v\<lparr>excludedThreadsList := excludedThreadsList v @ [threadName]\<rparr>"

definition thread_is_excluded :: "string \<Rightarrow> string \<Rightarrow> bool" where
  "thread_is_excluded threadName excludedThread \<longleftrightarrow> excludedThread = threadName \<or> sublist threadName excludedThread"

definition ThreadEventsBehaviour_isThreadInExcludedThreadNamesList :: "string \<Rightarrow> 'tl vex \<Rightarrow> ('tl vex \<times> bool) res" where
  "ThreadEventsBehaviour_isThreadInExcludedThreadNamesList threadName v =
     (if list_ex (thread_is_excluded threadName) (excludedThreadsList v)
      then bindE (ThreadRegistry_newThreadStarted (threadRegistry (sim v))) (\<lambda>r.
           Inr (on_sim (\<lambda>w. w\<lparr>threadRegistry := r\<rparr>) v, True))
      else Inr (v, False))"

section \<open>Operations on other threads\<close>

definition ThreadEventsBehaviour_interruptThread_ptr ::
  "'tl config \<Rightarrow> nat \<Rightarrow> thread_ptr option \<Rightarrow> int \<Rightarrow> bool \<Rightarrow> 'tl world \<Rightarrow> ('tl world \<times> bool) res" where
  "ThreadEventsBehaviour_interruptThread_ptr cfg m target interruptionTime isThreadInterruptCall w =
     (case target of
        None \<Rightarrow> Inr (w, False)
      | Some q \<Rightarrow> ThreadEventsBehaviour_interruptThread cfg m q interruptionTime isThreadInterruptCall w)"

definition ThreadEventsBehaviour_interruptThread_id ::
  "'tl config \<Rightarrow> nat \<Rightarrow> int \<Rightarrow> int \<Rightarrow> bool \<Rightarrow> 'tl world \<Rightarrow> ('tl world \<times> bool) res" where
  "ThreadEventsBehaviour_interruptThread_id cfg m interruptedThreadId interruptionTime isThreadInterruptCall w =
     bindE (ThreadRegistry_getCurrentThreadState interruptedThreadId w) (\<lambda>target.
     ThreadEventsBehaviour_interruptThread_ptr cfg m target interruptionTime isThreadInterruptCall w)"

definition ThreadEventsBehaviour_onSignallingOneThreadOnObject ::
  "'tl config \<Rightarrow> nat \<Rightarrow> int \<Rightarrow> int \<Rightarrow> 'tl world \<Rightarrow> ('tl world \<times> bool) res" where
  "ThreadEventsBehaviour_onSignallingOneThreadOnObject cfg m objectId interruptionTime w =
     (let nextWaitingThreadId = ObjectRegistry_findNext objectId (objectRegistry w) in
      if nextWaitingThreadId \<noteq> 0
      then ThreadEventsBehaviour_interruptThread_id cfg m nextWaitingThreadId interruptionTime False w
      else Inr (upd_mgr m ThreadManager_increasePendingNotifications w, False))"

text \<open>The loop ends when the object has no waiting thread left: every turn removes one.\<close>

definition object_next :: "int \<Rightarrow> 'tl world \<Rightarrow> 'tl world \<times> int" where
  "object_next objectId w =
     (let (r, nextId) = ObjectRegistry_getNext objectId (objectRegistry w) in (w\<lparr>objectRegistry := r\<rparr>, nextId))"

fun signal_all :: "nat \<Rightarrow> 'tl config \<Rightarrow> nat \<Rightarrow> int \<Rightarrow> int \<Rightarrow> int \<Rightarrow> bool \<Rightarrow> 'tl world \<Rightarrow> ('tl world \<times> bool) res" where
  "signal_all 0 cfg m objectId interruptionTime nextId anyThread w = Inl StackOverflow"
| "signal_all (Suc n) cfg m objectId interruptionTime nextId anyThread w =
     (if nextId = 0 then Inr (w, anyThread)
      else bindE (ThreadEventsBehaviour_interruptThread_id cfg m nextId interruptionTime False w) (\<lambda>(w1, interrupted).
           let (w2, nextId1) = object_next objectId w1
           in signal_all n cfg m objectId interruptionTime nextId1 (anyThread \<or> interrupted) w2))"

definition waiting_count :: "int \<Rightarrow> 'tl world \<Rightarrow> nat" where
  "waiting_count objectId w = length (waiting (objectRegistry w) objectId)"

definition ThreadEventsBehaviour_onSignallingAllThreadsOnObject ::
  "'tl config \<Rightarrow> nat \<Rightarrow> int \<Rightarrow> int \<Rightarrow> 'tl world \<Rightarrow> ('tl world \<times> bool) res" where
  "ThreadEventsBehaviour_onSignallingAllThreadsOnObject cfg m objectId interruptionTime w =
     (let (w1, nextId) = object_next objectId w in
      if nextId = 0 then Inr (upd_mgr m ThreadManager_increasePendingNotifications w1, False)
      else signal_all (waiting_count objectId w + 1) cfg m objectId interruptionTime nextId False w1)"

text \<open>The part of \<open>onUnpark\<close> that works on the other thread. \<open>caller\<close> is the thread that unparks.\<close>

definition ThreadEventsBehaviour_unpark ::
  "'tl config \<Rightarrow> nat option \<Rightarrow> thread_ptr option \<Rightarrow> int \<Rightarrow> 'tl world \<Rightarrow> 'tl world res" where
  "ThreadEventsBehaviour_unpark cfg defaultManager caller unparkingThreadId w =
     bindE (ThreadRegistry_getCurrentThreadState unparkingThreadId w) (\<lambda>target.
     case target of
       None \<Rightarrow> Inr w
     | Some q \<Rightarrow>
         let w1 = VexThreadState_lockShareResourceAccessKey q w;
             (s, wasParked) = VexThreadState_getAndSetParkedState (thr q w1);
             w2 = upd_thr q (\<lambda>_. s) w1
         in if wasParked
            then bindE (managerOf (case caller of None \<Rightarrow> defaultManager | Some p \<Rightarrow> controllingManager p w2)) (\<lambda>m.
                 ThreadEventsBehaviour_unparkWaiting cfg m q
                   (case caller of None \<Rightarrow> 0 | Some p \<Rightarrow> ert (thr p w2)) w2)
            else Inr w2)"

fun wrapped_interrupts ::
  "nat \<Rightarrow> 'tl config \<Rightarrow> thread_ptr \<Rightarrow> int \<Rightarrow> int \<Rightarrow> 'tl world \<Rightarrow> 'tl world res" where
  "wrapped_interrupts 0 cfg p objectId nextId w = Inl StackOverflow"
| "wrapped_interrupts (Suc n) cfg p objectId nextId w =
     bindE (managerOf (controllingManager p w)) (\<lambda>m.
     bindE (ThreadRegistry_getCurrentThreadState nextId w) (\<lambda>target.
     bindE (case target of
              None \<Rightarrow> Inr w
            | Some q \<Rightarrow>
                if isWaiting (thr q w)
                then ThreadManager_onWrappedTimedWaitingInterrupt cfg m q (ert (thr p w))
                       (upd_thr q (\<lambda>s. s\<lparr>timedOut := False\<rparr>) (VexThreadState_lockShareResourceAccessKey q w))
                else Inr w) (\<lambda>w1.
     let (w2, nextId1) = object_next objectId w1
     in if nextId1 = 0 then Inr w2 else wrapped_interrupts n cfg p objectId nextId1 w2)))"

definition ThreadEventsBehaviour_onWrappedTimedWaitingInterrupt_loop ::
  "'tl config \<Rightarrow> thread_ptr \<Rightarrow> int \<Rightarrow> 'tl world \<Rightarrow> 'tl world res" where
  "ThreadEventsBehaviour_onWrappedTimedWaitingInterrupt_loop cfg p objectId w =
     wrapped_interrupts (waiting_count objectId w + 1) cfg p objectId 0 w"

section \<open>Locks\<close>

definition ThreadEventsBehaviour_onLocklessRequestingLock ::
  "thread_ptr \<Rightarrow> int \<Rightarrow> 'tl vex \<Rightarrow> ('tl vex \<times> bool) res" where
  "ThreadEventsBehaviour_onLocklessRequestingLock p lockId v =
     bindE (LockRegistry_tryAcquiringLock p lockId (lockInfos v)) (\<lambda>(l, acquired).
     let v1 = v\<lparr>lockInfos := l\<rparr> in
     if acquired then Inr (v1, False)
     else bindE (managerOf (controllingManager p (sim v1))) (\<lambda>m. blocks_sim (ThreadManager_onReplacedWaiting m p) v1))"

definition ThreadEventsBehaviour_onLocklessReleasingLock ::
  "'tl config \<Rightarrow> thread_ptr \<Rightarrow> int \<Rightarrow> 'tl vex \<Rightarrow> 'tl vex res" where
  "ThreadEventsBehaviour_onLocklessReleasingLock cfg p lockId v =
     bindE (LockRegistry_releaseAndGetNext lockId (lockInfos v)) (\<lambda>(l, threadBlockedOnMonitor).
     let v1 = v\<lparr>lockInfos := l\<rparr> in
     case threadBlockedOnMonitor of
       None \<Rightarrow> Inr v1
     | Some q \<Rightarrow>
         bindE (managerOf (controllingManager p (sim v1))) (\<lambda>m.
         let v2 = on_sim (\<lambda>w. upd_thr p (set_timeout 0) (VexThreadState_lockShareResourceAccessKey q w)) v1
         in in_sim (\<lambda>w. ThreadManager_onAnyReplacedWaitingInterrupt cfg m q (ert (thr p w)) w) v2))"

section \<open>Execution of calls\<close>

definition goes_on :: "call list \<Rightarrow> 'tl vex res \<Rightarrow> ('tl vex \<times> bool \<times> call list) res" where
  [vex_defs]: "goes_on onward r = bindE r (\<lambda>v. Inr (v, False, onward))"

definition may_block :: "call list \<Rightarrow> ('tl vex \<times> bool) res \<Rightarrow> ('tl vex \<times> bool \<times> call list) res" where
  [vex_defs]: "may_block onward r = bindE r (\<lambda>(v, b). Inr (v, b, onward))"

abbreviation default_manager :: "'tl vex \<Rightarrow> nat option" where
  "default_manager v \<equiv> ThreadManagerRegistry_getDefaultManager (managerRegistry v)"

definition join_suspend_options :: "8 word" where
  "join_suspend_options = SUSPEND_OPT_FORCE_SUSPEND OR SUSPEND_OPT_DONT_UPDATE_THREAD_TIME"

text \<open>The result says whether the thread blocked, and which calls it makes next.\<close>

fun perform_call :: "'tl config \<Rightarrow> thread_ptr \<Rightarrow> call \<Rightarrow> 'tl vex \<Rightarrow> ('tl vex \<times> bool \<times> call list) res" where
  "perform_call cfg p (Frames fs) v = may_block [] (blocks_sim (run_frames cfg p fs) v)"
| "perform_call cfg p EnsureManagerOf v =
     (if controllingManager p (sim v) \<noteq> None then Inr (v, False, [])
      else bindE (managerOf (default_manager v)) (\<lambda>m.
           may_block [EnsureManagerOf] (blocks_sim (ThreadManager_suspendLooseCurrentThread cfg m p 0) v)))"
| "perform_call cfg p (InsertWaiting objectId) v =
     Inr (on_sim (\<lambda>w. w\<lparr>objectRegistry :=
            ObjectRegistry_insert (int_of_long objectId) (jthreadId (thr p w)) (objectRegistry w)\<rparr>) v, False, [])"
| "perform_call cfg p (RequestLock lockId) v =
     may_block [] (ThreadEventsBehaviour_onLocklessRequestingLock p lockId v)"
| "perform_call cfg p (ReleaseLock lockId) v =
     goes_on [] (ThreadEventsBehaviour_onLocklessReleasingLock cfg p lockId v)"
| "perform_call cfg p (SignalOne objectId) v =
     bindE (managerOf (controllingManager p (sim v))) (\<lambda>m.
     bindE (blocks_sim (\<lambda>w. ThreadEventsBehaviour_onSignallingOneThreadOnObject cfg m (int_of_long objectId)
              (ert (thr p w)) w) v) (\<lambda>(v1, signalled).
     Inr (answer (Some p) (of_bool signalled) v1, False, [])))"
| "perform_call cfg p (SignalAll objectId) v =
     bindE (managerOf (controllingManager p (sim v))) (\<lambda>m.
     bindE (blocks_sim (\<lambda>w. ThreadEventsBehaviour_onSignallingAllThreadsOnObject cfg m (int_of_long objectId)
              (ert (thr p w)) w) v) (\<lambda>(v1, signalled).
     Inr (answer (Some p) (of_bool signalled) v1, False, [])))"
| "perform_call cfg p (InterruptId threadId) v =
     bindE (managerOf (controllingManager p (sim v))) (\<lambda>m.
     bindE (blocks_sim (\<lambda>w. ThreadEventsBehaviour_interruptThread_id cfg m threadId (ert (thr p w)) True w) v) (\<lambda>(v1, b).
     Inr (answer (Some p) (of_bool b) v1, False, [])))"
| "perform_call cfg p (WrappedInterruptAll objectId) v =
     goes_on [] (in_sim (ThreadEventsBehaviour_onWrappedTimedWaitingInterrupt_loop cfg p (int_of_long objectId)) v)"
| "perform_call cfg p (SetThreadVT t) v =
     bindE (managerOf (controllingManager p (sim v))) (\<lambda>m. goes_on [] (in_sim (ThreadManager_setCurrentThreadVT cfg m t p) v))"
| "perform_call cfg p (CoordinateJoin startingTime joiningThreadId) v =
     bindE (ThreadRegistry_coordinateJoiningThreads p joiningThreadId (cells (sim v), threadRegistry (sim v))) (\<lambda>(c, r, coordinated).
     Inr (on_sim (\<lambda>w. w\<lparr>cells := c, threadRegistry := r\<rparr>) v, False,
       if coordinated then []
       else [Frames [SuspendCurrent startingTime join_suspend_options], EnsureManagerOf,
             CoordinateJoin startingTime joiningThreadId]))"
| "perform_call cfg p (ParkOrSkip startingTime t) v =
     (let (s, skip) = VexThreadState_getAndSetUnparkedState (thr p (sim v));
          v1 = on_sim (upd_thr p (\<lambda>_. s)) v
      in Inr (v1, False,
           if skip then [Frames [ExitWithCpuTimeUpdate]]
           else if t > 0 then [Frames (VexThreadState_onWrappedTimedWaitingStart 0 startingTime t)]
           else [Frames (VexThreadState_onWrappedWaitingStart (cpuTime (sim v1) p)), Frames [ExitWithCpuTimeUpdate]]))"
| "perform_call cfg p ParkedEnd v =
     Inr (v, False, [if timeout (thr_timers (thr p (sim v))) > 0 then Frames (VexThreadState_onWrappedTimedWaitingEnd False)
                     else WrappedWaitingEnd])"
| "perform_call cfg p (UnparkId threadId) v =
     goes_on [] (in_sim (ThreadEventsBehaviour_unpark cfg (default_manager v) (Some p) threadId) v)"
| "perform_call cfg p (RegisterChild childId) v =
     bindE (ThreadRegistry_newThreadBeingSpawned_by (jthreadId (thr p (sim v))) childId (cells (sim v))
              (threadRegistry (sim v))) (\<lambda>r. Inr (on_sim (\<lambda>w. w\<lparr>threadRegistry := r\<rparr>) v, False, []))"
| "perform_call cfg p WrappedWaitingEnd v = may_block [] (blocks_sim (VexThreadState_onWrappedWaitingEnd cfg p) v)"
| "perform_call cfg p AnswerTimedOut v = Inr (answer (Some p) (of_bool (timedOut (thr p (sim v)))) v, False, [])"
| "perform_call cfg p (UpdateLocalTime t) v =
     Inr (on_sim (upd_thr p (upd_timers (Timers_updateThreadLocalTimeSinceLastResumeTo (globalScalingFactor cfg) t))) v, False, [])"
| "perform_call cfg p AnswerTime v = Inr (answer (Some p) (ert (thr p (sim v))) v, False, [])"
| "perform_call cfg p ExitVex v =
     Inr (on_sim (\<lambda>w. update_cpu_clock p (upd_thr p (\<lambda>s. s\<lparr>inVex := False\<rparr>) w)) v, False, [])"
| "perform_call cfg p Cleanup v =
     bindE (lockRegistry (threadRegistry (sim v))) (\<lambda>r.
     Inr ((on_sim (\<lambda>w. w\<lparr>cells := (cells w)\<lparr>currentThreadState := (currentThreadState (cells w))(p := None),
                             parentThreadWaitingYouToJoin := (parentThreadWaitingYouToJoin (cells w))(p := None)\<rparr>,
                           threadRegistry := unlockRegistry r\<rparr>) v)
            \<lparr>aggregateCounters := AggregateStateCounters_addTransitionsOf (stats (thr p (sim v))) (aggregateCounters v)\<rparr>,
          False, []))"

text \<open>The number of calls that a thread makes before it blocks is bounded by \<open>n\<close>.\<close>

fun run_calls :: "nat \<Rightarrow> 'tl config \<Rightarrow> thread_ptr \<Rightarrow> call list \<Rightarrow> 'tl vex \<Rightarrow> ('tl vex \<times> bool) res" where
  "run_calls n cfg p [] v = Inr (v, False)"
| "run_calls 0 cfg p (c # cs) v = Inl StackOverflow"
| "run_calls (Suc n) cfg p (c # cs) v =
     bindE (perform_call cfg p c v) (\<lambda>(v1, blocked, onward).
     if blocked then Inr (v1\<lparr>pendingCalls := (pendingCalls v1)(p := onward @ cs)\<rparr>, True)
     else run_calls n cfg p (onward @ cs) v1)"

definition resume_calls :: "nat \<Rightarrow> 'tl config \<Rightarrow> thread_ptr \<Rightarrow> 'tl vex \<Rightarrow> ('tl vex \<times> bool) res" where
  "resume_calls n cfg p v =
     bindE (blocks_sim (continue_thread_code cfg p) v) (\<lambda>(v1, blocked).
     if blocked then Inr (v1, True)
     else run_calls n cfg p (pendingCalls v1 p) (v1\<lparr>pendingCalls := (pendingCalls v1)(p := [])\<rparr>))"

section \<open>Behaviours of simulated threads\<close>

text \<open>\<open>startingTime\<close> is the CPU time of the thread at the call.\<close>

definition ThreadEventsBehaviour_onWrappedWaitingStart :: "int \<Rightarrow> call list" where
  [vex_defs]: "ThreadEventsBehaviour_onWrappedWaitingStart startingTime =
     [Frames (VexThreadState_onWrappedWaitingStart startingTime)]"

definition ThreadEventsBehaviour_onWrappedWaitingEnd :: "call list" where
  [vex_defs]: "ThreadEventsBehaviour_onWrappedWaitingEnd = [WrappedWaitingEnd]"

definition ThreadEventsBehaviour_onWrappedTimedWaitingStart :: "int \<Rightarrow> int \<Rightarrow> int \<Rightarrow> int \<Rightarrow> call list" where
  [vex_defs]: "ThreadEventsBehaviour_onWrappedTimedWaitingStart startingTime objectId t nanoTimeout =
     [Frames [OnVexEntry], InsertWaiting objectId,
      Frames (VexThreadState_onWrappedTimedWaitingStart objectId startingTime
        (ThreadEventsBehaviour_ensureTimeoutIsLessThanMax t nanoTimeout))]"

definition ThreadEventsBehaviour_onWrappedTimedWaitingEnd :: "call list" where
  [vex_defs]: "ThreadEventsBehaviour_onWrappedTimedWaitingEnd = [Frames (VexThreadState_onWrappedTimedWaitingEnd True)]"

definition ThreadEventsBehaviour_onWrappedTimedWaitingInterrupt :: "int \<Rightarrow> call list" where
  [vex_defs]: "ThreadEventsBehaviour_onWrappedTimedWaitingInterrupt objectId =
     [Frames [OnVexEntry], EnsureManagerOf, WrappedInterruptAll objectId, Frames [ExitWithCpuTimeUpdate]]"

definition ThreadEventsBehaviour_beforeReleasingLockOfAnyReplacedWaiting :: "int \<Rightarrow> bool \<Rightarrow> call list" where
  [vex_defs]: "ThreadEventsBehaviour_beforeReleasingLockOfAnyReplacedWaiting objectId updateLockRegistry =
     [Frames [OnVexEntry], InsertWaiting objectId] @ (if updateLockRegistry then [ReleaseLock objectId] else []) @
     [Frames [ExitWithoutTimeUpdate]]"

definition ThreadEventsBehaviour_onReplacedTimedWaiting :: "int \<Rightarrow> int \<Rightarrow> int \<Rightarrow> bool \<Rightarrow> call list" where
  [vex_defs]: "ThreadEventsBehaviour_onReplacedTimedWaiting objectId t nanoTimeout updateLockRegistry =
     [Frames (VexThreadState_onReplacedTimedWaiting objectId
        (ThreadEventsBehaviour_ensureTimeoutIsLessThanMax t nanoTimeout)), AnswerTimedOut] @
     (if updateLockRegistry then [RequestLock objectId] else []) @ [Frames [ExitWithCpuTimeUpdate]]"

definition ThreadEventsBehaviour_onReplacedWaiting :: "int \<Rightarrow> bool \<Rightarrow> call list" where
  [vex_defs]: "ThreadEventsBehaviour_onReplacedWaiting objectId updateLockRegistry =
     [Frames (VexThreadState_onReplacedWaiting objectId updateLockRegistry), AnswerTimedOut] @
     (if updateLockRegistry then [RequestLock objectId] else []) @ [Frames [ExitWithCpuTimeUpdate]]"

definition ThreadEventsBehaviour_onSleep :: "int \<Rightarrow> int \<Rightarrow> call list" where
  [vex_defs]: "ThreadEventsBehaviour_onSleep t nanoTimeout =
     [Frames (VexThreadState_onReplacedTimedWaiting 0 (ThreadEventsBehaviour_ensureTimeoutIsLessThanMax t nanoTimeout)),
      AnswerTimedOut, Frames [ExitWithCpuTimeUpdate]]"

definition ThreadEventsBehaviour_onSignallingOnObject :: "int \<Rightarrow> int \<Rightarrow> call list" where
  [vex_defs]: "ThreadEventsBehaviour_onSignallingOnObject startingTime objectId =
     [Frames [EntryAt startingTime], SignalOne objectId, Frames [ExitWithCpuTimeUpdate]]"

definition ThreadEventsBehaviour_onBroadcastingOnObject :: "int \<Rightarrow> int \<Rightarrow> call list" where
  [vex_defs]: "ThreadEventsBehaviour_onBroadcastingOnObject startingTime objectId =
     [Frames [EntryAt startingTime], SignalAll objectId, Frames [ExitWithCpuTimeUpdate]]"

definition ThreadEventsBehaviour_onInterrupt :: "int \<Rightarrow> int \<Rightarrow> call list" where
  [vex_defs]: "ThreadEventsBehaviour_onInterrupt startingTime interruptedThreadId =
     [Frames [EntryAt startingTime], InterruptId interruptedThreadId, Frames [ExitWithCpuTimeUpdate]]"

definition ThreadEventsBehaviour_onRequestingLock :: "int \<Rightarrow> call list" where
  [vex_defs]: "ThreadEventsBehaviour_onRequestingLock lockId =
     [Frames [OnVexEntry], RequestLock lockId, Frames [ExitWithCpuTimeUpdate]]"

definition ThreadEventsBehaviour_onReleasingLock :: "int \<Rightarrow> call list" where
  [vex_defs]: "ThreadEventsBehaviour_onReleasingLock lockId =
     [Frames [OnVexEntry], ReleaseLock lockId, Frames [ExitWithCpuTimeUpdate]]"

definition ThreadEventsBehaviour_onJoin :: "int \<Rightarrow> int \<Rightarrow> call list" where
  [vex_defs]: "ThreadEventsBehaviour_onJoin startingTime joiningThreadId =
     [Frames [EntryAt startingTime], EnsureManagerOf, SetThreadVT startingTime,
      CoordinateJoin startingTime joiningThreadId, Frames [ExitWithCpuTimeUpdate]]"

definition ThreadEventsBehaviour_onPark :: "int \<Rightarrow> int \<Rightarrow> call list" where
  [vex_defs]: "ThreadEventsBehaviour_onPark startingTime t = [Frames [EntryAt startingTime], ParkOrSkip startingTime t]"

definition ThreadEventsBehaviour_onParked :: "call list" where
  [vex_defs]: "ThreadEventsBehaviour_onParked = [ParkedEnd]"

definition ThreadEventsBehaviour_onUnpark :: "int \<Rightarrow> call list" where
  [vex_defs]: "ThreadEventsBehaviour_onUnpark unparkingThreadId =
     [Frames [OnVexEntry], UnparkId unparkingThreadId, Frames [ExitWithCpuTimeUpdate]]"

definition ThreadEventsBehaviour_beforeCreatingThread :: "int \<Rightarrow> int \<Rightarrow> call list" where
  [vex_defs]: "ThreadEventsBehaviour_beforeCreatingThread startingTime childId =
     [Frames [EntryAt startingTime], RegisterChild childId, EnsureManagerOf, SetThreadVT startingTime,
      Frames [ExitWithBothClocksUpdate]]"

definition ThreadEventsBehaviour_afterCreatingThread :: "call list" where
  [vex_defs]: "ThreadEventsBehaviour_afterCreatingThread =
     [Frames [OnVexEntry], EnsureManagerOf, Frames [ExitWithCpuTimeUpdate]]"

definition ThreadEventsBehaviour_onInteractionPoint :: "int \<Rightarrow> call list" where
  [vex_defs]: "ThreadEventsBehaviour_onInteractionPoint startingTime = [Frames (VexThreadState_onInvocationPoint startingTime)]"

definition ThreadEventsBehaviour_onYield :: "int \<Rightarrow> call list" where
  [vex_defs]: "ThreadEventsBehaviour_onYield startingTime = [Frames (VexThreadState_onYield startingTime)]"

definition ThreadEventsBehaviour_onThreadEnd :: "call list" where
  [vex_defs]: "ThreadEventsBehaviour_onThreadEnd = [Frames [OnVexEntry], EnsureManagerOf, Frames [ThreadEnd], Cleanup]"

definition ThreadEventsBehaviour_getTime :: "bool \<Rightarrow> int \<Rightarrow> call list" where
  [vex_defs]: "ThreadEventsBehaviour_getTime usingVtfScheduler startingTime =
     (if usingVtfScheduler then [] else [Frames [LockKey], EnsureManagerOf, SetThreadVT startingTime]) @
     [UpdateLocalTime startingTime, AnswerTime, ExitVex]"

section \<open>Behaviours that are not bound to a simulated thread\<close>

definition ThreadManagerRegistry_getGlobalTime :: "'tl config \<Rightarrow> 'tl vex \<Rightarrow> int res" where
  "ThreadManagerRegistry_getGlobalTime cfg v =
     bindE (managerOf (default_manager v)) (\<lambda>_. Inr (ctrl_globalTime (controller cfg) (virtualTimeline (sim v))))"

definition ThreadEventsBehaviour_getTime_outside :: "'tl config \<Rightarrow> 'tl vex \<Rightarrow> int res" where
  "ThreadEventsBehaviour_getTime_outside cfg v =
     bindE (ThreadManagerRegistry_getGlobalTime cfg v) (\<lambda>t. Inr (if t > 0 then t else 1))"

definition ThreadEventsBehaviour_onSignallingOnObject_outside :: "'tl config \<Rightarrow> int \<Rightarrow> 'tl vex \<Rightarrow> ('tl vex \<times> bool) res" where
  "ThreadEventsBehaviour_onSignallingOnObject_outside cfg objectId v =
     bindE (managerOf (default_manager v)) (\<lambda>m.
     blocks_sim (ThreadEventsBehaviour_onSignallingOneThreadOnObject cfg m (int_of_long objectId) 0) v)"

definition ThreadEventsBehaviour_onBroadcastingOnObject_outside :: "'tl config \<Rightarrow> int \<Rightarrow> 'tl vex \<Rightarrow> ('tl vex \<times> bool) res" where
  "ThreadEventsBehaviour_onBroadcastingOnObject_outside cfg objectId v =
     bindE (managerOf (default_manager v)) (\<lambda>m.
     blocks_sim (ThreadEventsBehaviour_onSignallingAllThreadsOnObject cfg m (int_of_long objectId) 0) v)"

definition ThreadEventsBehaviour_onInterrupt_outside :: "'tl config \<Rightarrow> int \<Rightarrow> 'tl vex \<Rightarrow> ('tl vex \<times> bool) res" where
  "ThreadEventsBehaviour_onInterrupt_outside cfg threadId v =
     bindE (managerOf (default_manager v)) (\<lambda>m.
     blocks_sim (ThreadEventsBehaviour_interruptThread_id cfg m threadId 0 True) v)"

definition ThreadEventsBehaviour_onUnpark_outside :: "'tl config \<Rightarrow> int \<Rightarrow> 'tl vex \<Rightarrow> 'tl vex res" where
  "ThreadEventsBehaviour_onUnpark_outside cfg threadId v =
     in_sim (ThreadEventsBehaviour_unpark cfg (default_manager v) None threadId) v"

definition ThreadEventsBehaviour_onBackgroundLoadExecutionStart :: "'tl vex \<Rightarrow> 'tl vex res" where
  "ThreadEventsBehaviour_onBackgroundLoadExecutionStart v =
     bindE (managerOf (default_manager v)) (\<lambda>_. Inr (on_sim ThreadManager_onWrappedBackgroundLoadExecutionStart v))"

definition ThreadEventsBehaviour_onBackgroundLoadExecutionEndAt :: "'tl config \<Rightarrow> int \<Rightarrow> 'tl vex \<Rightarrow> 'tl vex res" where
  "ThreadEventsBehaviour_onBackgroundLoadExecutionEndAt cfg executionDuration v =
     bindE (managerOf (default_manager v)) (\<lambda>m.
     in_sim (ThreadManager_onWrappedBackgroundLoadExecutionEnd cfg m executionDuration) v)"

definition ThreadEventsBehaviour_haltSuspendForAwhile :: "thread_ptr \<Rightarrow> 'tl vex \<Rightarrow> 'tl vex" where
  "ThreadEventsBehaviour_haltSuspendForAwhile p =
     on_sim (\<lambda>w. upd_thr p (upd_sched (Scheduling_haltSuspendForAwhile (realTime w))) w)"

text \<open>The state of a thread that starts is at \<open>p\<close>, at which nothing was constructed before. The table of
  threads, whose keys are the identifiers of the application language, is searched for the identifier
  \<open>tid\<close> of the operating system.\<close>

definition ThreadManagerRegistry_suspendCurrentThread ::
  "'tl config \<Rightarrow> thread_ptr \<Rightarrow> int \<Rightarrow> 8 word \<Rightarrow> 'tl vex \<Rightarrow> ('tl vex \<times> bool) res" where
  "ThreadManagerRegistry_suspendCurrentThread cfg p startingTime options v =
     (let v1 = on_sim (VexThreadState_lockShareResourceAccessKey p) v in
      bindE (managerOf (controllingManager p (sim v1))) (\<lambda>m.
      blocks_sim (ThreadManager_suspendCurrentThread cfg m p startingTime options) v1))"

definition ThreadManagerRegistry_spawn ::
  "'tl config \<Rightarrow> bool \<Rightarrow> thread_ptr \<Rightarrow> 'tl vex \<Rightarrow> ('tl vex \<times> bool) res" where
  "ThreadManagerRegistry_spawn cfg named_main p v =
     bindE (ThreadManagerRegistry_onThreadSpawn (managerRegistry v)) (\<lambda>(g, m).
     blocks_sim (ThreadManager_onThreadSpawn cfg named_main m p) (v\<lparr>managerRegistry := g\<rparr>))"

definition ThreadEventsBehaviour_onStart ::
  "'tl config \<Rightarrow> int \<Rightarrow> string \<Rightarrow> int \<Rightarrow> thread_ptr \<Rightarrow> 'tl vex \<Rightarrow> ('tl vex \<times> bool) res" where
  "ThreadEventsBehaviour_onStart cfg threadId threadName tid p v =
     bindE (ThreadEventsBehaviour_isThreadInExcludedThreadNamesList threadName v) (\<lambda>(v1, excluded).
     if excluded then Inr (v1, False)
     else bindE (ThreadRegistry_hasThreadParentRegisteredThisThread threadId (threadRegistry (sim v1))) (\<lambda>(r, registered).
          let v2 = on_sim (\<lambda>w. w\<lparr>threadRegistry := r\<rparr>) v1 in
          if \<not> registered then Inr (v2, False)
          else bindE (ThreadRegistry_getCurrentThreadState tid (sim v2)) (\<lambda>state.
               case state of
                 None \<Rightarrow>
                   ThreadManagerRegistry_spawn cfg (threadName = ''main'') p
                     (on_sim (\<lambda>w. w\<lparr>cells := (upd_state p (\<lambda>raw. (VexThreadState_init (realTime w) raw)\<lparr>jthreadId := threadId\<rparr>) (cells w))
                                      \<lparr>currentThreadState := (currentThreadState (cells w))(p \<mapsto> p),
                                       parentThreadWaitingYouToJoin := (parentThreadWaitingYouToJoin (cells w))(p := None)\<rparr>\<rparr>) v2)
               | Some q \<Rightarrow> ThreadManagerRegistry_suspendCurrentThread cfg q 0 SUSPEND_OPT_FORCE_SUSPEND v2)))"

definition ThreadEventsBehaviour_onThreadMainStart ::
  "'tl config \<Rightarrow> int \<Rightarrow> int \<Rightarrow> thread_ptr \<Rightarrow> 'tl vex \<Rightarrow> ('tl vex \<times> bool) res" where
  "ThreadEventsBehaviour_onThreadMainStart cfg threadId tid p v =
     bindE (ThreadRegistry_newThreadBeingSpawned_by 0 threadId (cells (sim v)) (threadRegistry (sim v))) (\<lambda>r.
     ThreadEventsBehaviour_onStart cfg threadId ''main'' tid p (on_sim (\<lambda>w. w\<lparr>threadRegistry := r\<rparr>) v))"

section \<open>Notification\<close>

lemma waiting_erase: "waiting (ObjectRegistry_erase ob t r) = (waiting r)(ob := remove1 t (waiting r ob))"
  by (auto simp: ObjectRegistry_erase_def waiting_def fun_eq_iff split: option.splits)

lemma findNext_waiting: "ObjectRegistry_findNext ob r = (if waiting r ob = [] then 0 else last (waiting r ob))"
  by (auto simp: ObjectRegistry_findNext_def waiting_def split: option.splits)

context time_controller
begin

lemma interrupt_registry:
  assumes cfg: "controller cfg = ctrl" and ok: "shared_ok ready w" and core: "core m"
    and run: "ThreadManager_onAnyReplacedWaitingInterrupt cfg m p t w = Inr w'"
  shows "objectRegistry w' = (if timedWaitingObjectId (thr p w) = 0 then objectRegistry w
    else ObjectRegistry_erase (int_of_long (timedWaitingObjectId (thr p w))) (jthreadId (thr p w)) (objectRegistry w))"
proof -
  obtain vt s1 where vt: "ctrl_update ctrl m (Interrupted t) (virtualTimeline w) (thr p w) = Inr (vt, s1)"
      "retimed (thr p w) s1"
    using updates [OF shared_okD(5) [OF ok] core] by blast
  obtain ts where s1: "s1 = (thr p w)\<lparr>thr_timers := ts\<rparr>" using vt(2) by (auto simp: retimed_def)
  have "update_timestamp cfg m (Interrupted t) p w = Inr (upd_thr p (\<lambda>_. s1) (w\<lparr>virtualTimeline := vt\<rparr>))"
    using cfg vt(1) by (simp add: update_timestamp_def on_timeline_of_def)
  then show ?thesis using run
    by (auto simp: ThreadManager_onAnyReplacedWaitingInterrupt_def Let_def VexThreadState_beforeThreadInterruptAt_def
        VexThreadState_eraseWaitingObjectIdFromRegistry_def ThreadManager_updateRunnableQueue_def
        ThreadManager_pushIntoRunnableQueue_def on_queue_def bindE_eq_Inr upd_thr_def upd_state_def thr_def s1 split: if_splits)
qed

lemma signal_wakes:
  assumes cfg: "controller cfg = ctrl" and ok: "shared_ok ready w" and core: "core m"
    and wait: "waiting (objectRegistry w) ob = xs @ [jthreadId (thr q w)]" "jthreadId (thr q w) \<notin> set xs" "jthreadId (thr q w) \<noteq> 0"
    and thread: "threadStateIndex (threadRegistry w) (jthreadId (thr q w)) = Some q"
    and state: "isWaiting (thr q w)" "timeout (thr_timers (thr q w)) = -2" "q \<notin> set (queued w)"
      "timedWaitingObjectId (thr q w) \<noteq> 0" "int_of_long (timedWaitingObjectId (thr q w)) = ob"
  shows "\<exists>w'. ThreadEventsBehaviour_onSignallingOneThreadOnObject cfg m ob t w = Inr (w', True) \<and>
    waiting (objectRegistry w') = (waiting (objectRegistry w))(ob := xs) \<and> acts ready q w w' interrupted \<and> timedOut (thr q w')"
proof -
  have "q \<notin> set (queued w) \<or> c_timeout (look q w) \<notin> {0, -2}" using state(3) by simp
  from interrupt_acts [OF cfg ok core this, of t] obtain w1 where
    r: "ThreadManager_onAnyReplacedWaitingInterrupt cfg m q t w = Inr w1" and a: "acts ready q w w1 interrupted"
    by (auto simp: does_def)
  let ?w2 = "upd_thr q (\<lambda>s. s\<lparr>timedOut := True\<rparr>) w1"
  have "acts ready q w1 ?w2 (\<lambda>t. t)" by (rule acts_unseen [OF acts_ok [OF a]]) (simp_all add: unseen_facts)
  note a2 = acts_trans [OF a this]
  have "waiting (objectRegistry ?w2) = (waiting (objectRegistry w))(ob := xs)"
    using interrupt_registry [OF cfg ok core r] state(4,5) wait(1,2) by (simp add: upd_thr_def waiting_erase remove1_append)
  moreover have "ThreadRegistry_getCurrentThreadState (jthreadId (thr q w)) w = Inr (Some q)"
    using shared_okD(4) [OF ok] thread by (simp add: ThreadRegistry_getCurrentThreadState_def lockRegistry_def)
  moreover have "ObjectRegistry_findNext ob (objectRegistry w) = jthreadId (thr q w)"
    using wait(1) by (simp add: findNext_waiting)
  moreover have "timedOut (thr q ?w2)" by (simp add: thr_def upd_thr_def upd_state_def)
  ultimately show ?thesis using wait(3) state(1) r a2
    by (auto simp: ThreadEventsBehaviour_onSignallingOneThreadOnObject_def ThreadEventsBehaviour_interruptThread_id_def
        ThreadEventsBehaviour_interruptThread_ptr_def ThreadEventsBehaviour_interruptThread_def)
qed

lemma unlock_interrupts:
  assumes cfg: "controller cfg = ctrl" and ok: "shared_ok ready (sim v)" and core: "core m"
    and lock: "\<not> lock_registry.registry_mutex (lockInfos v)" "lock_infos (lockInfos v) l = Some i" "threadsContendedOnLock i = xs @ [q]"
    and releaser: "controllingManager p (sim v) = Some m" "q \<noteq> p" "p \<notin> set (queued (sim v))"
    and waiter: "q \<notin> set (queued (sim v)) \<or> timeout (thr_timers (thr q (sim v))) \<notin> {0, -2}"
  shows "\<exists>v'. ThreadEventsBehaviour_onLocklessReleasingLock cfg p l v = Inr v' \<and>
    lock_infos (lockInfos v') l = Some (i\<lparr>threadsContendedOnLock := xs\<rparr>) \<and> shared_ok ready (sim v') \<and>
    look q (sim v') = interrupted (look q (sim v)) \<and> look p (sim v') = (look p (sim v))\<lparr>c_timeout := 0\<rparr> \<and>
    (\<forall>r. r \<noteq> p \<and> r \<noteq> q \<longrightarrow> look r (sim v') = look r (sim v))"
proof -
  let ?l = "unlockRegistryMutex (put_info l (i\<lparr>threadsContendedOnLock := xs\<rparr>) ((lockInfos v)\<lparr>lock_registry.registry_mutex := True\<rparr>))"
  have rel: "LockRegistry_releaseAndGetNext l (lockInfos v) = Inr (?l, Some q)"
    using lock by (simp add: LockRegistry_releaseAndGetNext_def lockRegistryMutex_def)
  note a1 = lock_key_acts [OF ok, of q]
  let ?w1 = "VexThreadState_lockShareResourceAccessKey q (sim v)"
  let ?w2 = "upd_thr p (set_timeout 0) ?w1"
  have "look p ?w1 = look p (sim v)" using acts_other [OF a1] releaser(2) by metis
  then have q1: "p \<notin> set (queued ?w1)" using releaser(3) by (metis look_state(7))
  have "acts ready p ?w1 ?w2 (see (set_timeout 0 (thr p ?w1)))"
    by (rule acts_upd_thr [OF acts_ok [OF a1]]) (use q1 in simp)
  then have a2: "acts ready p ?w1 ?w2 (\<lambda>t. t\<lparr>c_timeout := 0\<rparr>)"
    by (rule acts_cong) (auto simp: see_def look_def Let_def set_timeout_def upd_timers_def Timers_setTimeout_def)
  have eq: "look q ?w2 = look q (sim v)" using acts_other [OF a2 releaser(2)] acts_look [OF a1] by simp
  then have waits: "q \<notin> set (queued ?w2) \<or> c_timeout (look q ?w2) \<notin> {0, -2}" using waiter look_state(5,7) [of q] by metis
  from interrupt_acts [OF cfg acts_ok [OF a2] core waits] obtain w3 where
    r3: "ThreadManager_onAnyReplacedWaitingInterrupt cfg m q (ert (thr p ?w2)) ?w2 = Inr w3" and a3: "acts ready q ?w2 w3 interrupted"
    by (auto simp: does_def)
  have "look p w3 = (look p (sim v))\<lparr>c_timeout := 0\<rparr>"
    using acts_other [OF a3] releaser(2) acts_look [OF a2] \<open>look p ?w1 = look p (sim v)\<close> by metis
  moreover have "\<forall>r. r \<noteq> p \<and> r \<noteq> q \<longrightarrow> look r w3 = look r (sim v)"
    using acts_other [OF a3] acts_other [OF a2] acts_other [OF a1] by simp
  moreover have "controllingManager p (sim (v\<lparr>lockInfos := ?l\<rparr>)) = Some m" using releaser(1) by simp
  ultimately show ?thesis
    using rel r3 acts_ok [OF a3] acts_look [OF a3] eq
    by (simp add: ThreadEventsBehaviour_onLocklessReleasingLock_def Let_def managerOf_def in_sim_def on_sim_def
        put_info_def unlockRegistryMutex_def del: look_state)
qed

end

section \<open>Waiting with a zero timeout\<close>

lemma entry_running_acts:
  assumes ok: "shared_ok ready w" and run: "fits core Running (look p w)"
  shows "\<exists>w'. VexThreadState_onVexEntry cfg p t w = Inr (w', False) \<and> acts ready p w w' (\<lambda>t. t)"
proof -
  let ?w1 = "upd_thr p (\<lambda>s. s\<lparr>inVex := True\<rparr>) w"
  let ?w2 = "upd_thr p (upd_timers (Timers_updateThreadLocalTimeSinceLastResumeTo (globalScalingFactor cfg) t)) ?w1"
  obtain m where m: "controllingManager p w = Some m" "p \<notin> set (queued w)" using running_suspendable [OF run] by blast
  have a1: "acts ready p w ?w1 (\<lambda>t. t)" by (rule acts_unseen [OF ok]) (simp_all add: unseen_facts)
  have "acts ready p ?w1 ?w2 (\<lambda>t. t)" by (rule acts_unseen [OF acts_ok [OF a1]]) (use m in \<open>simp_all add: unseen_facts\<close>)
  note a2 = acts_trans [OF a1 this]
  note a3 = acts_trans [OF a2 lock_key_acts [OF acts_ok [OF a2], of p]]
  have "isRunning (thr p ?w1)" "controllingManager p ?w1 \<noteq> None" "controllingManager p ?w2 \<noteq> None"
    using run m by (auto simp: isRunning_def controllingManager_def upd_timers_def thr_def upd_thr_def upd_state_def)
  then show ?thesis using a3
    by (auto simp: VexThreadState_onVexEntry_def Let_def entry_done_def assertE_def)
qed

lemma wait_zero_acts:
  assumes ok: "shared_ok ready w" and run: "fits core Running (look p w)"
  shows "\<exists>w' m. core m \<and> runningThread (managers w m) = Some p \<and> runningThread (managers w' m) = None \<and>
    run_frame cfg p (ReplacedTimedWaiting ob 0) w = Inr (w', True) \<and>
    acts ready p w w' (\<lambda>t. t\<lparr>c_state := WAITING, c_awaken := False, c_timeout := 0, c_queued := True,
      c_running := {}, c_blocked := Some [UpdateTimedOutWaiting m, SetRunning]\<rparr>)"
proof -
  obtain m where m: "controllingManager p w = Some m" "core m" "p \<notin> set (queued w)" "c_running (look p w) = {m}" "blockedIn w p = None"
    using running_suspendable [OF run] by blast
  let ?f = "VexThreadState_setTimedWaiting (globalScalingFactor cfg) 0 \<circ> VexThreadState_setWaitingObjectId ob"
  have a1: "acts ready p w (upd_thr p ?f w) (see (?f (thr p w)))" by (rule acts_upd_thr [OF ok]) (use m in simp)
  have m1: "controllingManager p (upd_thr p ?f w) = Some m"
    using m(1) by (simp add: controllingManager_def)
  have q1: "p \<notin> set (queued (upd_thr p ?f w))" using m(3) by simp
  obtain w2 where r2: "ThreadManager_setTimedWaitingThread m p (upd_thr p ?f w) = Inr w2"
    and a2: "acts ready p (upd_thr p ?f w) w2 (\<lambda>t. t\<lparr>c_state := WAITING, c_queued := True, c_running := c_running t - {m}\<rparr>)"
    using timed_push_acts [OF acts_ok [OF a1] q1, of m] by (auto simp: does_def)
  note a = acts_trans [OF acts_trans [OF a1 a2] wakeup_acts [OF acts_ok [OF a2], of p m]]
  note a = acts_trans [OF a block_acts [OF acts_ok [OF a], of p "[UpdateTimedOutWaiting m, SetRunning]"]]
  let ?w' = "VexThreadState_onBlocked p [UpdateTimedOutWaiting m, SetRunning] (ThreadManager_unconditionalWakeup m w2)"
  have r: "run_frame cfg p (ReplacedTimedWaiting ob 0) w = Inr (?w', True)"
    unfolding run_frame.simps Let_def m1 managerOf_def option.case bindE_Inr ThreadManager_onReplacedTimedWaiting_def r2 ..
  have a': "acts ready p w ?w' (\<lambda>t. t\<lparr>c_state := WAITING, c_awaken := False, c_timeout := 0, c_queued := True,
      c_running := {}, c_blocked := Some [UpdateTimedOutWaiting m, SetRunning]\<rparr>)"
    by (rule acts_cong [OF a]) (use m in \<open>auto simp: see_def look_def Let_def\<close>)
  have runs: "runningThread (managers w m) = Some p" using m(4) by auto
  have "runningThread (managers ?w' m) = None"
  proof (cases "runningThread (managers ?w' m)")
    case (Some q)
    then have q: "m \<in> c_running (look q ?w')" by simp
    then have "q \<noteq> p" using acts_look [OF a'] by (auto simp del: look_state)
    then have "m \<in> c_running (look q w)" using q acts_other [OF a'] by (simp del: look_state)
    then show ?thesis using runs \<open>q \<noteq> p\<close> by simp
  qed
  then show ?thesis using r a' m(2) runs by blast
qed

text \<open>A round of a manager that finds a waiting thread without a timeout at the front of the queue.\<close>

lemma round_drops_zero_wait:
  assumes ok: "shared_ok ready w" and depth: "0 < stackDepth cfg" and idle: "runningThread (managers w m) = None"
    and front: "pq_top (queued w) = Some p" and state: "currentState (thr p w) = WAITING" "timeout (thr_timers (thr p w)) = 0"
  shows "does (ThreadManager_suspendRunningResumeNext cfg run inp m w) (\<lambda>w'. acts ready p w w' (\<lambda>t. t\<lparr>c_queued := False\<rparr>))"
proof -
  obtain n where n: "stackDepth cfg = Suc n" using depth by (cases "stackDepth cfg") auto
  let ?w1 = "VexThreadState_lockShareResourceAccessKey p w"
  note a1 = lock_key_acts [OF ok, of p]
  have q1: "queued ?w1 = queued w" by (simp add: VexThreadState_lockShareResourceAccessKey_def)
  have s1: "currentState (thr p ?w1) = WAITING" "timeout (thr_timers (thr p ?w1)) = 0"
    using state acts_look [OF a1] look_state(1,5) [of p ?w1] look_state(1,5) [of p w] by simp_all
  from take_next_acts [OF acts_ok [OF a1], of p "Some m"] obtain w2 where
    r2: "ask_queue (\<lambda>st. ThreadQueue_getNextIfEqualsElseReturnTop st (Some p) (Some m)) ?w1 = Inr (w2, Some p)"
    and a2: "acts ready p ?w1 w2 (\<lambda>t. t\<lparr>c_queued := False\<rparr>)"
    using front q1 s1
    by (auto simp: isRunning_def inIoPredictionPhase_def isWaitingRealCodeToCompleteAfterModelSimulation_def)
  note a = acts_trans [OF a1 a2]
  have "currentState (thr p w2) = WAITING" "timeout (thr_timers (thr p w2)) = 0"
    using state acts_look [OF a] look_state(1,5) [of p w2] look_state(1,5) [of p w] by simp_all
  then have "ThreadManager_continueLocked cfg run inp m p w2 = Inr w2"
    by (simp add: ThreadManager_continueLocked_def Let_def isSuspended_def inIo_def isTimedWaiting_def isSimulatingModel_def
        isWaitingRealCodeToCompleteAfterModelSimulation_def isRunning_def)
  then show ?thesis using idle front a
    by (simp add: ThreadManager_suspendRunningResumeNext_def ThreadManager_getRunningThread_def reads_queue(2) [OF ok]
        ThreadManager_continueThread_def n Let_def r2)
qed

lemma sleep_zero:
  assumes ok: "shared_ok ready (sim v)" and depth: "0 < stackDepth cfg" and run: "fits core Running (look p (sim v))"
    and empty: "queued (sim v) = []"
  shows "\<exists>v' w' m. run_calls (Suc n) cfg p (ThreadEventsBehaviour_onSleep 0 0) v = Inr (v', True) \<and> core m \<and>
    ThreadManager_getRunningThread m (sim v) = Some p \<and> queued (sim v') = [p] \<and>
    ThreadManager_suspendRunningResumeNext cfg model inp m (sim v') = Inr w' \<and>
    acts ready p (sim v) w' (\<lambda>t. t\<lparr>c_state := WAITING, c_awaken := False, c_timeout := 0, c_running := {},
      c_blocked := Some [UpdateTimedOutWaiting m, SetRunning, AssertRunning]\<rparr>)"
proof -
  obtain w1 where e: "VexThreadState_onVexEntry cfg p (cpuTime (sim v) p) (sim v) = Inr (w1, False)" and a1: "acts ready p (sim v) w1 (\<lambda>t. t)"
    using entry_running_acts [OF ok run] by blast
  have run1: "fits core Running (look p w1)" using run acts_look [OF a1] by simp
  obtain w2 m where m: "core m" "runningThread (managers w1 m) = Some p" "runningThread (managers w2 m) = None"
    and r2: "run_frame cfg p (ReplacedTimedWaiting 0 0) w1 = Inr (w2, True)"
    and a2: "acts ready p w1 w2 (\<lambda>t. t\<lparr>c_state := WAITING, c_awaken := False, c_timeout := 0, c_queued := True,
      c_running := {}, c_blocked := Some [UpdateTimedOutWaiting m, SetRunning]\<rparr>)"
    using wait_zero_acts [OF acts_ok [OF a1] run1] by blast
  let ?w3 = "w2\<lparr>blockedIn := (blockedIn w2)(p := map_option (\<lambda>fs. fs @ [AssertRunning]) (blockedIn w2 p))\<rparr>"
  note a = acts_trans [OF a1 a2]
  have "shared_ok ready ?w3" using acts_ok [OF a] by (simp add: shared_ok_def)
  then have "acts ready p w2 ?w3 (\<lambda>t. t\<lparr>c_blocked := map_option (\<lambda>fs. fs @ [AssertRunning]) (c_blocked t)\<rparr>)"
    by (auto simp: acts_def look_def Let_def thr_def queued_def)
  note a = acts_trans [OF a this]
  let ?v' = "v\<lparr>sim := ?w3, pendingCalls := (pendingCalls v)(p := [AnswerTimedOut, Frames [ExitWithCpuTimeUpdate]])\<rparr>"
  have "run_calls (Suc n) cfg p (ThreadEventsBehaviour_onSleep 0 0) v = Inr (?v', True)"
    using e r2
    by (simp add: ThreadEventsBehaviour_onSleep_def ThreadEventsBehaviour_ensureTimeoutIsLessThanMax_def LLONG_MAX_def
        VexThreadState_onReplacedTimedWaiting_def may_block_def blocks_sim_def and_then_def)
  moreover have queue: "queued ?w3 = [p]"
  proof -
    have "x \<in> set (queued ?w3) \<longleftrightarrow> x = p" for x
      using acts_look [OF a] acts_other [OF a, of x] look_state(7) [of x ?w3] look_state(7) [of x "sim v"] empty
      by (cases "x = p") (auto simp del: look_state)
    then have "set (queued ?w3) = {p}" by auto
    moreover have "distinct (queued ?w3)" by (rule shared_okD(3) [OF acts_ok [OF a]])
    ultimately show ?thesis by (cases "queued ?w3") (auto simp: set_eq_iff, metis distinct.simps(2) list.set_intros(1) neq_Nil_conv)
  qed
  moreover obtain w4 where r4: "ThreadManager_suspendRunningResumeNext cfg model inp m ?w3 = Inr w4"
    and a4: "acts ready p ?w3 w4 (\<lambda>t. t\<lparr>c_queued := False\<rparr>)"
  proof -
    have "currentState (thr p ?w3) = WAITING" "timeout (thr_timers (thr p ?w3)) = 0"
      using acts_look [OF a] look_state(1,5) [of p ?w3] by simp_all
    from round_drops_zero_wait [OF acts_ok [OF a] depth _ _ this, of m model inp] show ?thesis
      using m(3) queue that by (auto simp: does_def pq_top_def)
  qed
  moreover have "acts ready p (sim v) w4 (\<lambda>t. t\<lparr>c_state := WAITING, c_awaken := False, c_timeout := 0, c_running := {},
      c_blocked := Some [UpdateTimedOutWaiting m, SetRunning, AssertRunning]\<rparr>)"
    by (rule acts_cong [OF acts_trans [OF a a4]]) (use empty in \<open>simp add: look_def Let_def\<close>)
  moreover have "ThreadManager_getRunningThread m (sim v) = Some p"
  proof -
    have "c_running (look p w1) = c_running (look p (sim v))" using acts_look [OF a1] by simp
    then have "m \<in> {m. runningThread (managers (sim v) m) = Some p}" using m(2) by auto
    then show ?thesis by (simp add: ThreadManager_getRunningThread_def)
  qed
  ultimately show ?thesis using m(1) by auto
qed

section \<open>Properties\<close>

text \<open>
  C8. A notification wakes the thread that started to wait on the object last. If this thread is registered,
  waits for a notification and is not queued, then signalling one thread on the object succeeds and answers
  that a thread was signalled; exactly the record of this thread is removed from the object; the thread is
  suspended, marked as notified and in the runnable queue; no other thread changes.
\<close>

theorem notification_wakes_waiting_thread:
  assumes "controller cfg = multiple_controller" "shared_ok (mc_ready n) w" "m < n"
    "waiting (objectRegistry w) ob = xs @ [jthreadId (thr q w)]" "jthreadId (thr q w) \<notin> set xs" "jthreadId (thr q w) \<noteq> 0"
    "threadStateIndex (threadRegistry w) (jthreadId (thr q w)) = Some q"
    "isWaiting (thr q w)" "timeout (thr_timers (thr q w)) = -2" "q \<notin> set (queued w)"
    "timedWaitingObjectId (thr q w) \<noteq> 0" "int_of_long (timedWaitingObjectId (thr q w)) = ob"
  shows "\<exists>w'. ThreadEventsBehaviour_onSignallingOneThreadOnObject cfg m ob t w = Inr (w', True) \<and>
    waiting (objectRegistry w') = (waiting (objectRegistry w))(ob := xs) \<and> shared_ok (mc_ready n) w' \<and>
    isSuspended (thr q w') \<and> timedOut (thr q w') \<and> q \<in> set (queued w') \<and> (\<forall>p. p \<noteq> q \<longrightarrow> look p w' = look p w)"
proof -
  obtain w' where r: "ThreadEventsBehaviour_onSignallingOneThreadOnObject cfg m ob t w = Inr (w', True)"
    "waiting (objectRegistry w') = (waiting (objectRegistry w))(ob := xs)" "timedOut (thr q w')"
    and a: "acts (mc_ready n) q w w' interrupted"
    using multiple_time.signal_wakes [OF assms] by blast
  have "isSuspended (thr q w')" "q \<in> set (queued w')"
    using acts_look [OF a] look_state(1,7) [of q w'] assms(9) by (simp_all add: interrupted_def isSuspended_def)
  with r show ?thesis using acts_ok [OF a] acts_other [OF a] by blast
qed

text \<open>Thread 0 runs on manager 0, thread 1 is blocked and waits on object 5.\<close>

definition example_waiting :: "multicore world" where
  "example_waiting =
     (let w = example_world two_cores False in
      (upd_thr 0 (\<lambda>s. s\<lparr>currentState := RUNNING, scheduling_of := example_sched\<lparr>threadCurrentlyControllingManager := Some 0\<rparr>\<rparr>)
        (upd_thr 1 (\<lambda>s. set_timeout (-2) (s\<lparr>currentState := WAITING, timedWaitingObjectId := 5\<rparr>))
          (upd_mgr 0 (\<lambda>g. g\<lparr>runningThread := Some 0\<rparr>) w)))
      \<lparr>objectRegistry := ObjectRegistry_insert 5 1 Map.empty, blockedIn := [1 \<mapsto> [UpdateTimedOutWaiting 1, SetRunning]],
       threadRegistry := (threadRegistry w)\<lparr>threadStateIndex := [0 \<mapsto> 0, 1 \<mapsto> 1]\<rparr>\<rparr>)"

lemma example_waiting_sees:
  "shared_ok (mc_ready 2) example_waiting" "queued example_waiting = []"
  "jthreadId (thr (Suc 0) example_waiting) = 1" "isWaiting (thr (Suc 0) example_waiting)"
  "timeout (thr_timers (thr (Suc 0) example_waiting)) = -2" "timedWaitingObjectId (thr (Suc 0) example_waiting) = 5"
  "waiting (objectRegistry example_waiting) 5 = [1]" "threadStateIndex (threadRegistry example_waiting) 1 = Some 1"
  "controllingManager 0 example_waiting = Some 0" "currentState (thr 0 example_waiting) = RUNNING"
  "blockedIn example_waiting 0 = None" "managers example_waiting = (\<lambda>m. example_manager)(0 := example_manager\<lparr>runningThread := Some 0\<rparr>)"
  "blockedIn example_waiting (Suc 0) = Some [UpdateTimedOutWaiting 1, SetRunning]"
  by (simp_all add: example_waiting_def Let_def example_world_def upd_thr_def upd_mgr_def upd_state_def thr_def queued_def
      shared_ok_def tq_ok_def ThreadQueue_ThreadQueue_def is_heap_def heap_from_def ThreadRegistry_ThreadRegistry_def
      two_cores_ready isWaiting_def set_timeout_def upd_timers_def Timers_setTimeout_def waiting_def ObjectRegistry_insert_def
      controllingManager_def example_thread_def vex_defs)

theorem notification_wakes_waiting_thread_witness:
  "\<exists>w'. ThreadEventsBehaviour_onSignallingOneThreadOnObject (example_config multiple_controller) 0 5 7 example_waiting = Inr (w', True) \<and>
    isSuspended (thr 1 w') \<and> 1 \<in> set (queued w')"
  using notification_wakes_waiting_thread [of "example_config multiple_controller" 2 example_waiting 0 5 "[]" 1 7]
  by (auto simp: example_waiting_sees int_of_long_def)


definition example_locks :: "multicore vex" where
  "example_locks =
     \<lparr>sim = upd_thr 1 (set_timeout (-1)) example_waiting,
      lockInfos = \<lparr>lock_infos = [9 \<mapsto> \<lparr>threadsContendedOnLock = [1], monitorLocked = True\<rparr>], registry_mutex = False\<rparr>,
      managerRegistry = ThreadManagerRegistry_ThreadManagerRegistry 2, excludedThreadsList = [],
      aggregateCounters = AggregateStateCounters_AggregateStateCounters, pendingCalls = (\<lambda>p. []), answers = Map.empty\<rparr>"


text \<open>
  C11. A sleep of zero does not return. When a running thread sleeps for zero milliseconds while the queue
  is empty, it leaves its manager, is queued and blocks; the next round of the manager takes it off the
  queue and does nothing with it: it is waiting with a zero timeout, no longer queued, not awakened and
  registered on no object, so that only an interrupt can end the sleep.
\<close>

theorem sleep_zero_does_not_return:
  assumes "shared_ok ready (sim v)" "0 < stackDepth cfg" "fits core Running (look p (sim v))" "queued (sim v) = []"
  shows "\<exists>v' w' m. run_calls (Suc n) cfg p (ThreadEventsBehaviour_onSleep 0 0) v = Inr (v', True) \<and>
    ThreadManager_getRunningThread m (sim v) = Some p \<and> queued (sim v') = [p] \<and>
    ThreadManager_suspendRunningResumeNext cfg model inp m (sim v') = Inr w' \<and>
    isWaiting (thr p w') \<and> timeout (thr_timers (thr p w')) = 0 \<and> p \<notin> set (queued w') \<and>
    \<not> awaken (scheduling_of (thr p w')) \<and> blockedIn w' p \<noteq> None"
proof -
  obtain v' w' m where r: "run_calls (Suc n) cfg p (ThreadEventsBehaviour_onSleep 0 0) v = Inr (v', True)"
    "ThreadManager_getRunningThread m (sim v) = Some p" "queued (sim v') = [p]"
    "ThreadManager_suspendRunningResumeNext cfg model inp m (sim v') = Inr w'"
    and a: "acts ready p (sim v) w' (\<lambda>t. t\<lparr>c_state := WAITING, c_awaken := False, c_timeout := 0, c_running := {},
      c_blocked := Some [UpdateTimedOutWaiting m, SetRunning, AssertRunning]\<rparr>)"
    using sleep_zero [OF assms] by metis
  have "isWaiting (thr p w')" "timeout (thr_timers (thr p w')) = 0" "p \<notin> set (queued w')"
    "\<not> awaken (scheduling_of (thr p w'))"
    using acts_look [OF a] look_state [of p w'] look_state(7) [of p "sim v"] assms(4) by (auto simp: isWaiting_def)
  moreover have "blockedIn w' p \<noteq> None"
    using arg_cong [OF acts_look [OF a], of c_blocked] by simp
  ultimately show ?thesis using r by blast
qed

theorem sleep_zero_does_not_return_witness:
  "\<exists>v' w'. run_calls 1 (example_config multiple_controller) 0 (ThreadEventsBehaviour_onSleep 0 0)
      (example_locks\<lparr>sim := example_waiting\<rparr>) = Inr (v', True) \<and>
    ThreadManager_suspendRunningResumeNext (example_config multiple_controller) no_model
      \<lparr>keyObtained = True, signalSent = True, stillBlocked = False, nowBlocked = False\<rparr> 0 (sim v') = Inr w' \<and>
    blockedIn w' 0 \<noteq> None \<and> 0 \<notin> set (queued w')"
proof -
  have "fits (\<lambda>m. m < 2) Running (look 0 example_waiting)"
    by (auto simp: example_waiting_sees managed_def example_manager_def split: if_splits)
  moreover have "queued (sim (example_locks\<lparr>sim := example_waiting\<rparr>)) = []" "shared_ok (mc_ready 2) (sim (example_locks\<lparr>sim := example_waiting\<rparr>))"
    by (simp_all add: example_waiting_sees)
  ultimately obtain v' w' m where r: "run_calls (Suc 0) (example_config multiple_controller) 0 (ThreadEventsBehaviour_onSleep 0 0)
      (example_locks\<lparr>sim := example_waiting\<rparr>) = Inr (v', True)"
    "ThreadManager_getRunningThread m example_waiting = Some 0"
    "ThreadManager_suspendRunningResumeNext (example_config multiple_controller) no_model
      \<lparr>keyObtained = True, signalSent = True, stillBlocked = False, nowBlocked = False\<rparr> m (sim v') = Inr w'"
    "blockedIn w' 0 \<noteq> None" "0 \<notin> set (queued w')"
    using sleep_zero_does_not_return [of "mc_ready 2" "example_locks\<lparr>sim := example_waiting\<rparr>" "example_config multiple_controller"
        "\<lambda>m. m < 2" 0 0 no_model "\<lparr>keyObtained = True, signalSent = True, stillBlocked = False, nowBlocked = False\<rparr>"]
    by (simp del: fits.simps) blast
  moreover have "m = 0" using r(2)
    by (simp add: ThreadManager_getRunningThread_def example_waiting_sees example_manager_def split: if_splits)
  ultimately show ?thesis by (metis One_nat_def)
qed

end
