(* ===== verification/Vex_Prediction.thy ===== *)
theory Vex_Prediction
  imports Vex_Text "HOL-Library.Multiset" "HOL-Library.Signed_Division"
begin

text \<open>
  \<open>io/PredictionMethod\<close> and \<open>debugging/LinearRegression\<close>: the methods that predict the duration of the
  next I/O operation from the measured ones. A buffer holds the last measurements; the methods differ in
  \<open>getValue\<close>. Values of \<open>rand()\<close> are arguments, logging is left out. Integers of type \<open>unsigned int\<close> are
  taken modulo \<open>2 ^ 32\<close>; the operator \<open>/\<close> of C++ is \<open>sdiv\<close>.
\<close>

section \<open>Cyclic buffers\<close>

definition u32 :: "int \<Rightarrow> int" where
  "u32 x = x mod 4294967296"

definition cdiv :: "int \<Rightarrow> int \<Rightarrow> int res" where
  "cdiv a b = (if b = 0 then Inl DivisionByZero else Inr (a sdiv b))"

record cyclic =
  buffer :: "int list"
  bsize :: int
  bindex :: int
  circular_buffersize :: int

definition CyclicBufferBased_CyclicBufferBased :: "int \<Rightarrow> cyclic" where
  "CyclicBufferBased_CyclicBufferBased n =
     \<lparr>buffer = replicate (nat n) 0, bsize = 0, bindex = 0, circular_buffersize = n\<rparr>"

definition CyclicBufferBased_addPredictionInfo :: "int \<Rightarrow> 'a cyclic_scheme \<Rightarrow> 'a cyclic_scheme res" where
  "CyclicBufferBased_addPredictionInfo realTimeValueOnExit b =
     (if circular_buffersize b = 0 then Inl DivisionByZero
      else let k = nat (bsize b mod circular_buffersize b)
           in if k < length (buffer b)
              then Inr (b\<lparr>buffer := (buffer b)[k := realTimeValueOnExit], bsize := u32 (bsize b + 1)\<rparr>)
              else Inl OutOfBounds)"

fun add_lines :: "string list \<Rightarrow> 'a cyclic_scheme \<Rightarrow> 'a cyclic_scheme res" where
  "add_lines [] b = Inr b"
| "add_lines (l # ls) b = bindE (CyclicBufferBased_addPredictionInfo (atoll l) b) (add_lines ls)"

text \<open>A file that cannot be opened is \<open>None\<close>.\<close>

definition CyclicBufferBased_importFromFile :: "string option \<Rightarrow> 'a cyclic_scheme \<Rightarrow> 'a cyclic_scheme res" where
  "CyclicBufferBased_importFromFile file b = (case file of None \<Rightarrow> Inr b | Some s \<Rightarrow> add_lines (getlines [] s) b)"

definition CyclicBufferBased_exportToFile :: "'a cyclic_scheme \<Rightarrow> string res" where
  "CyclicBufferBased_exportToFile b =
     (if nat (circular_buffersize b) \<le> length (buffer b)
      then Inr (write_lines (map show_int (take (nat (circular_buffersize b)) (buffer b)))) else Inl OutOfBounds)"

definition CyclicBufferBased_progressIndex :: "cyclic \<Rightarrow> cyclic" where
  "CyclicBufferBased_progressIndex b = b\<lparr>bindex := u32 (bindex b mod circular_buffersize b + 1)\<rparr>"

definition CyclicBufferBased_getCurrentSize :: "'a cyclic_scheme \<Rightarrow> int" where
  "CyclicBufferBased_getCurrentSize b =
     (if bsize b > circular_buffersize b then circular_buffersize b else bsize b)"

text \<open>\<open>getNext\<close>, for the method with the given \<open>getValue\<close>.\<close>

definition CyclicBufferBased_getNext ::
  "('a cyclic_scheme \<Rightarrow> ('a cyclic_scheme \<times> int) res) \<Rightarrow> 'a cyclic_scheme \<Rightarrow> ('a cyclic_scheme \<times> int) res" where
  "CyclicBufferBased_getNext getValue b = (if bsize b > circular_buffersize b then getValue b else Inr (b, 0))"

section \<open>Replay, average, minimum and maximum\<close>

definition ReplayCyclicBuffer_getValue :: "cyclic \<Rightarrow> (cyclic \<times> int) res" where
  "ReplayCyclicBuffer_getValue b =
     (if circular_buffersize b = 0 then Inl DivisionByZero
      else let i = bindex b mod circular_buffersize b
           in bindE (at_idx (buffer b) (nat i)) (\<lambda>v. Inr (b\<lparr>bindex := u32 (i + 1)\<rparr>, v)))"

definition current_measurements :: "cyclic \<Rightarrow> int list" where
  "current_measurements b = take (nat (CyclicBufferBased_getCurrentSize b)) (buffer b)"

definition AverageCyclicBuffer_getAverage :: "cyclic \<Rightarrow> int res" where
  "AverageCyclicBuffer_getAverage b =
     cdiv (foldl (+) 0 (current_measurements b)) (CyclicBufferBased_getCurrentSize b)"

definition AverageCyclicBuffer_getValue :: "cyclic \<Rightarrow> (cyclic \<times> int) res" where
  "AverageCyclicBuffer_getValue b =
     bindE (AverageCyclicBuffer_getAverage b) (\<lambda>a. Inr (CyclicBufferBased_progressIndex b, a))"

definition MinimumCyclicBuffer_getValue :: "cyclic \<Rightarrow> (cyclic \<times> int) res" where
  "MinimumCyclicBuffer_getValue b =
     (if CyclicBufferBased_getCurrentSize b = 0 then Inr (b, 0)
      else Inr (CyclicBufferBased_progressIndex b,
                foldl (\<lambda>m x. if x < m then x else m) LLONG_MAX (current_measurements b)))"

definition MaximumCyclicBuffer_getValue :: "cyclic \<Rightarrow> (cyclic \<times> int) res" where
  "MaximumCyclicBuffer_getValue b =
     (if CyclicBufferBased_getCurrentSize b = 0 then Inr (b, 0)
      else Inr (CyclicBufferBased_progressIndex b,
                foldl (\<lambda>m x. if x > m then x else m) 0 (current_measurements b)))"

section \<open>Median\<close>

text \<open>
  The sorting routine works on the \<open>n\<close> elements from \<open>off\<close> on of the array \<open>a\<close>. The upward scan reads an
  element before it tests the bound, so that it may read the element behind the array; \<open>beyond\<close> is what
  the memory holds there.
\<close>

definition read_at :: "int \<Rightarrow> int list \<Rightarrow> nat \<Rightarrow> int" where
  "read_at beyond a k = (if k < length a then a ! k else beyond)"

function scan_up :: "int \<Rightarrow> int list \<Rightarrow> nat \<Rightarrow> nat \<Rightarrow> int \<Rightarrow> nat \<Rightarrow> nat" where
  "scan_up beyond a off n v i =
     (let i1 = i + 1 in if read_at beyond a (off + i1) < v \<and> i1 < n then scan_up beyond a off n v i1 else i1)"
  by pat_completeness auto
termination
  by (relation "measure (\<lambda>(_, _, _, n, _, i). n - i)") auto

text \<open>The downward scan ends at the latest at the pivot in element 0.\<close>

fun scan_down :: "int \<Rightarrow> int list \<Rightarrow> nat \<Rightarrow> int \<Rightarrow> nat \<Rightarrow> nat res" where
  "scan_down beyond a off v 0 = Inl OutOfBounds"
| "scan_down beyond a off v (Suc j) = (if read_at beyond a (off + j) > v then scan_down beyond a off v j else Inr j)"

declare scan_up.simps [simp del]

lemma scan_up_bounds: "i < n \<Longrightarrow> i < scan_up beyond a off n v i \<and> scan_up beyond a off n v i \<le> n"
proof (induction beyond a off n v i rule: scan_up.induct)
  case (1 beyond a off n v i)
  then show ?case by (subst (1 2) scan_up.simps) (auto simp: Let_def)
qed

lemma scan_down_bounds: "scan_down beyond a off v j = Inr k \<Longrightarrow> k < j"
  by (induction j) (auto split: if_splits)

definition swap :: "nat \<Rightarrow> nat \<Rightarrow> int list \<Rightarrow> int list" where
  "swap i j a = a[i := a ! j, j := a ! i]"

function partition_loop ::
  "int \<Rightarrow> nat \<Rightarrow> nat \<Rightarrow> int \<Rightarrow> nat \<Rightarrow> nat \<Rightarrow> int list \<Rightarrow> (nat \<times> int list) res" where
  "partition_loop beyond off n v i j a =
     (let i1 = scan_up beyond a off n v i in
      case scan_down beyond a off v j of
        Inl e \<Rightarrow> Inl e
      | Inr j1 \<Rightarrow>
          if i1 \<ge> j1 then Inr (i1, a)
          else partition_loop beyond off n v i1 j1 (swap (off + i1) (off + j1) a))"
  by pat_completeness auto
termination
  by (relation "measure (\<lambda>(_, _, _, _, _, j, _). j)") (auto dest: scan_down_bounds)

declare partition_loop.simps [simp del]

lemma partition_loop_bounds:
  "partition_loop beyond off n v i j a = Inr (i1, a1) \<Longrightarrow> i < n \<Longrightarrow> j \<le> n \<Longrightarrow> i < i1 \<and> i1 \<le> n"
proof (induction beyond off n v i j a rule: partition_loop.induct)
  case (1 beyond off n v i j a)
  note up = scan_up_bounds [OF 1(3), of beyond a off v]
  show ?case
  proof (cases "scan_down beyond a off v j")
    case (Inl e)
    then show ?thesis using 1(2) by (subst (asm) partition_loop.simps) simp
  next
    case (Inr j1)
    then show ?thesis
      using 1(1) [OF refl Inr] 1(2,4) up scan_down_bounds [OF Inr]
      by (subst (asm) (2) partition_loop.simps) (auto simp: Let_def split: if_splits)
  qed
qed

function MedianCyclicBuffer_sort :: "int \<Rightarrow> nat \<Rightarrow> nat \<Rightarrow> int list \<Rightarrow> int list res" where
  "MedianCyclicBuffer_sort beyond off n a =
     (if n \<le> 1 then Inr a
      else case partition_loop beyond off n (read_at beyond a off) 0 n a of
             Inl e \<Rightarrow> Inl e
           | Inr (i, a1) \<Rightarrow>
               case MedianCyclicBuffer_sort beyond off (i - 1) (swap (off + i - 1) off a1) of
                 Inl e \<Rightarrow> Inl e
               | Inr a2 \<Rightarrow> MedianCyclicBuffer_sort beyond (off + i) (n - i) a2)"
  by pat_completeness auto
termination
  by (relation "measure (\<lambda>(_, _, n, _). n)") (auto dest: partition_loop_bounds)

declare MedianCyclicBuffer_sort.simps [simp del]

text \<open>The part of an array on which a call works, and that a call changes nothing else.\<close>

definition segment :: "nat \<Rightarrow> nat \<Rightarrow> int list \<Rightarrow> int list" where
  "segment off n a = take n (drop off a)"

definition permuted :: "nat \<Rightarrow> nat \<Rightarrow> int list \<Rightarrow> int list \<Rightarrow> bool" where
  "permuted off n a b \<longleftrightarrow> take off b = take off a \<and> drop (off + n) b = drop (off + n) a \<and> mset b = mset a"

lemma permuted_refl [simp]: "permuted off n a a"
  by (simp add: permuted_def)

lemma permuted_trans: "permuted off n a b \<Longrightarrow> permuted off n b c \<Longrightarrow> permuted off n a c"
  by (simp add: permuted_def)

lemma permuted_widen:
  assumes "permuted off' n' a b" "off \<le> off'" "off' + n' \<le> off + n"
  shows "permuted off n a b"
proof -
  have "take off (take off' b) = take off (take off' a)"
    "drop (off + n - (off' + n')) (drop (off' + n') b) = drop (off + n - (off' + n')) (drop (off' + n') a)"
    using assms(1) by (simp_all add: permuted_def)
  then show ?thesis using assms by (simp add: permuted_def min_def)
qed

lemma permuted_length: "permuted off n a b \<Longrightarrow> length b = length a"
  by (auto simp: permuted_def dest: mset_eq_length)

lemma permuted_before: "permuted off n a b \<Longrightarrow> k < off \<Longrightarrow> b ! k = a ! k"
  by (metis nth_take permuted_def)

lemma permuted_segment_before:
  assumes "permuted off n a b" "k + m \<le> off"
  shows "segment k m b = segment k m a"
proof -
  have "drop k (take (k + m) (take off b)) = drop k (take (k + m) (take off a))"
    using assms(1) by (simp add: permuted_def)
  then show ?thesis using assms(2) by (simp add: segment_def take_drop add.commute min_def)
qed

lemma permuted_segment_behind:
  assumes "permuted off n a b" "off + n \<le> k"
  shows "segment k m b = segment k m a" "b ! k = a ! k \<or> length a \<le> k"
proof -
  have "drop (k - (off + n)) (drop (off + n) b) = drop (k - (off + n)) (drop (off + n) a)"
    using assms(1) by (simp add: permuted_def)
  then have d: "drop k b = drop k a" using assms(2) by simp
  then show "segment k m b = segment k m a" by (simp add: segment_def)
  show "b ! k = a ! k \<or> length a \<le> k"
    using d permuted_length [OF assms(1)] by (metis Cons_nth_drop_Suc linorder_not_le list.inject)
qed

lemma segment_split: "k \<le> n \<Longrightarrow> segment off n a = segment off k a @ segment (off + k) (n - k) a"
  unfolding segment_def by (metis add.commute drop_drop le_add_diff_inverse take_add)

lemma permuted_mset: "permuted off n a b \<Longrightarrow> mset (segment off n b) = mset (segment off n a)"
proof -
  have split: "mset c = mset (take off c) + mset (segment off n c) + mset (drop (off + n) c)" for c :: "int list"
    unfolding segment_def
    by (metis add.commute append_take_drop_id drop_drop mset_append union_assoc)
  assume "permuted off n a b"
  then show ?thesis using split [of a] split [of b]
    unfolding permuted_def by (metis add_left_cancel add_right_cancel)
qed

lemma set_segment: "off + n \<le> length a \<Longrightarrow> set (segment off n a) = {a ! (off + k) |k. k < n}"
  by (fastforce simp: segment_def in_set_conv_nth)

lemma swap_permuted:
  assumes "off \<le> i" "i < off + n" "off \<le> j" "j < off + n" "off + n \<le> length a"
  shows "permuted off n a (swap i j a)"
  using assms by (simp add: permuted_def swap_def mset_swap)

lemma swap_nth:
  "i < length a \<Longrightarrow> j < length a \<Longrightarrow> swap i j a ! k = (if k = j then a ! i else if k = i then a ! j else a ! k)"
  by (simp add: swap_def nth_list_update)

lemma scan_up_below:
  assumes "i < n" "off + n \<le> length a" "i < k" "k < scan_up beyond a off n v i"
  shows "a ! (off + k) < v"
  using assms
proof (induction beyond a off n v i rule: scan_up.induct)
  case (1 beyond a off n v i)
  show ?case
    using 1(1) [OF refl] 1(2-)
    by (subst (asm) (2) scan_up.simps) (cases "k = i + 1"; auto simp: Let_def read_at_def split: if_splits)
qed

lemma scan_up_stop:
  assumes "i < n" "off + n \<le> length a" "scan_up beyond a off n v i < n"
  shows "v \<le> a ! (off + scan_up beyond a off n v i)"
  using assms
proof (induction beyond a off n v i rule: scan_up.induct)
  case (1 beyond a off n v i)
  show ?case
  proof (cases "read_at beyond a (off + (i + 1)) < v \<and> i + 1 < n")
    case True
    then show ?thesis using 1(1) [OF refl] 1(2-) by (subst scan_up.simps, subst (asm) (2) scan_up.simps) simp
  next
    case False
    then have "scan_up beyond a off n v i = i + 1" by (subst scan_up.simps) (auto simp: Let_def)
    with False 1(2-) show ?thesis by (auto simp: read_at_def)
  qed
qed

lemma scan_down_finds:
  assumes "0 < j" "j \<le> n" "off + n \<le> length a" "a ! off \<le> v"
  shows "\<exists>j1 < j. scan_down beyond a off v j = Inr j1 \<and> a ! (off + j1) \<le> v \<and> (\<forall>k. j1 < k \<and> k < j \<longrightarrow> v < a ! (off + k))"
  using assms
proof (induction j)
  case (Suc j)
  show ?case
  proof (cases "read_at beyond a (off + j) > v")
    case True
    then have "0 < j" using Suc.prems by (cases j) (auto simp: read_at_def)
    with Suc obtain j1 where "j1 < j" "scan_down beyond a off v j = Inr j1" "a ! (off + j1) \<le> v"
      "\<forall>k. j1 < k \<and> k < j \<longrightarrow> v < a ! (off + k)" by force
    with True Suc.prems show ?thesis
      by (intro exI [of _ j1]) (auto simp: read_at_def less_Suc_eq split: if_splits)
  next
    case False
    with Suc.prems show ?thesis by (intro exI [of _ j]) (auto simp: read_at_def split: if_splits)
  qed
qed simp

lemma partition_loop_correct:
  assumes "i < n" "0 < j" "j \<le> n" "off + n \<le> length a" "a ! off = v"
    "\<And>k. 0 < k \<Longrightarrow> k \<le> i \<Longrightarrow> a ! (off + k) \<le> v" "\<And>k. j \<le> k \<Longrightarrow> k < n \<Longrightarrow> v \<le> a ! (off + k)"
  shows "\<exists>i1 b. partition_loop beyond off n v i j a = Inr (i1, b) \<and> 0 < i1 \<and> i1 \<le> n \<and> permuted off n a b \<and> b ! off = v
    \<and> (\<forall>k. 0 < k \<and> k < i1 \<longrightarrow> b ! (off + k) \<le> v) \<and> (\<forall>k. i1 \<le> k \<and> k < n \<longrightarrow> v \<le> b ! (off + k))"
  using assms
proof (induction beyond off n v i j a rule: partition_loop.induct)
  case (1 beyond off n v i j a)
  define i1 where "i1 = scan_up beyond a off n v i"
  obtain j1 where j1: "j1 < j" "scan_down beyond a off v j = Inr j1" "a ! (off + j1) \<le> v"
    "\<forall>k. j1 < k \<and> k < j \<longrightarrow> v < a ! (off + k)"
    using scan_down_finds [of j n off a v beyond] 1(3-6) by auto
  have i1: "i < i1" "i1 \<le> n" using scan_up_bounds [OF 1(2)] by (auto simp: i1_def)
  have low: "a ! (off + k) \<le> v" if "0 < k" "k < i1" for k
    using that 1(7) [of k] scan_up_below [OF 1(2) 1(5), of k beyond v] unfolding i1_def by force
  have high: "v \<le> a ! (off + k)" if "j1 < k" "k < n" for k
    using that 1(8) [of k] j1(4) by (meson linorder_not_le less_imp_le)
  have stop: "v \<le> a ! (off + i1)" if "i1 < n" using scan_up_stop [OF 1(2) 1(5)] that unfolding i1_def .
  show ?case
  proof (cases "i1 \<ge> j1")
    case True
    then have at_end: "partition_loop beyond off n v i j a = Inr (i1, a)"
      by (subst partition_loop.simps) (simp add: j1 i1_def [symmetric])
    have "v \<le> a ! (off + k)" if "i1 \<le> k" "k < n" for k
      using that True high [of k] stop by (cases "k = i1") auto
    with at_end show ?thesis using low i1 1(6) by (intro exI [of _ i1] exI [of _ a]) simp
  next
    case False
    let ?b = "swap (off + i1) (off + j1) a"
    have step: "partition_loop beyond off n v i j a = partition_loop beyond off n v i1 j1 ?b"
      using False by (subst partition_loop.simps) (simp add: j1 i1_def [symmetric])
    have len: "off + i1 < length a" "off + j1 < length a" using False j1(1) 1(4,5) by auto
    have w: "permuted off n a ?b" using False j1(1) 1(4,5) by (intro swap_permuted) auto
    have "\<exists>i2 b. partition_loop beyond off n v i1 j1 ?b = Inr (i2, b) \<and> 0 < i2 \<and> i2 \<le> n \<and> permuted off n ?b b
      \<and> b ! off = v \<and> (\<forall>k. 0 < k \<and> k < i2 \<longrightarrow> b ! (off + k) \<le> v) \<and> (\<forall>k. i2 \<le> k \<and> k < n \<longrightarrow> v \<le> b ! (off + k))"
    proof (rule 1(1) [OF i1_def j1(2) False])
      show "i1 < n" "0 < j1" "j1 \<le> n" "off + n \<le> length ?b" "?b ! off = v"
        using False i1 j1(1) 1(4-6) by (auto simp: swap_nth [OF len] swap_def)
      show "?b ! (off + k) \<le> v" if "0 < k" "k \<le> i1" for k
        using that False low j1(3) by (auto simp: swap_nth [OF len])
      show "v \<le> ?b ! (off + k)" if "j1 \<le> k" "k < n" for k
        using that False high [of k] stop j1(1) by (auto simp: swap_nth [OF len])
    qed
    then show ?thesis unfolding step using permuted_trans [OF w] by blast
  qed
qed

lemma sort_segment:
  assumes "off + n \<le> length a"
  shows "\<exists>b. MedianCyclicBuffer_sort beyond off n a = Inr b \<and> permuted off n a b \<and> sorted (segment off n b)"
  using assms
proof (induction beyond off n a rule: MedianCyclicBuffer_sort.induct)
  case (1 beyond off n a)
  show ?case
  proof (cases "n \<le> 1")
    case True
    then have "sorted (segment off n a)" by (cases "drop off a") (auto simp: segment_def le_Suc_eq)
    then show ?thesis using True by (subst MedianCyclicBuffer_sort.simps) simp
  next
    case False
    define v where "v = a ! off"
    have v: "read_at beyond a off = v" using False 1(3) by (simp add: read_at_def v_def)
    obtain i a1 where p: "partition_loop beyond off n v 0 n a = Inr (i, a1)" "0 < i" "i \<le> n" "permuted off n a a1"
      "a1 ! off = v" "\<And>k. 0 < k \<Longrightarrow> k < i \<Longrightarrow> a1 ! (off + k) \<le> v" "\<And>k. i \<le> k \<Longrightarrow> k < n \<Longrightarrow> v \<le> a1 ! (off + k)"
      using partition_loop_correct [of 0 n n off a v beyond] False 1(3) by (auto simp: v_def)
    define a2 where "a2 = swap (off + i - 1) off a1"
    have len1: "length a1 = length a" using permuted_length [OF p(4)] .
    have w2: "permuted off n a1 a2" unfolding a2_def using p(2,3) 1(3) len1 False by (intro swap_permuted) auto
    have len2: "length a2 = length a" using permuted_length [OF w2] len1 by simp
    have nth2: "a2 ! k = (if k = off then a1 ! (off + i - 1) else if k = off + i - 1 then v else a1 ! k)" for k
      unfolding a2_def using p(2,3,5) 1(3) len1 False by (subst swap_nth) auto
    have low: "\<forall>x \<in> set (segment off (i - 1) a2). x \<le> v"
    proof
      fix x
      assume "x \<in> set (segment off (i - 1) a2)"
      then obtain k where k: "k < i - 1" "x = a2 ! (off + k)"
        using set_segment [of off "i - 1" a2] p(3) 1(3) len2 by auto
      show "x \<le> v" using k p(6) [of k] p(6) [of "i - 1"] by (cases "k = 0") (auto simp: nth2)
    qed
    have high: "\<forall>x \<in> set (segment (off + i) (n - i) a2). v \<le> x"
      using p(2,3,7) 1(3) len2 by (subst set_segment) (auto simp: nth2 add.assoc)
    obtain a3 where a3: "MedianCyclicBuffer_sort beyond off (i - 1) a2 = Inr a3" "permuted off (i - 1) a2 a3"
      "sorted (segment off (i - 1) a3)"
      using 1(1) [OF False p(1) [folded v] refl] p(3) 1(3) len2 unfolding a2_def [symmetric] by force
    have len3: "length a3 = length a" using permuted_length [OF a3(2)] len2 by simp
    obtain a4 where a4: "MedianCyclicBuffer_sort beyond (off + i) (n - i) a3 = Inr a4" "permuted (off + i) (n - i) a3 a4"
      "sorted (segment (off + i) (n - i) a4)"
      using 1(2) [OF False p(1) [folded v] refl, unfolded a2_def [symmetric], OF a3(1)] p(3) 1(3) len3 by force
    have len4: "length a4 = length a" using permuted_length [OF a4(2)] len3 by simp
    have piv: "a4 ! (off + i - 1) = v"
    proof -
      have "a4 ! (off + i - 1) = a3 ! (off + i - 1)" using permuted_before [OF a4(2)] p(2) by simp
      also have "\<dots> = a2 ! (off + i - 1)"
        using permuted_segment_behind(2) [OF a3(2), of "off + i - 1"] p(2,3) 1(3) len2 by auto
      also have "\<dots> = v" using p(2,5) by (auto simp: nth2)
      finally show ?thesis .
    qed
    have s1: "segment off (i - 1) a4 = segment off (i - 1) a3"
      using permuted_segment_before [OF a4(2)] p(2) by simp
    have low': "\<forall>x \<in> set (segment off (i - 1) a4). x \<le> v"
      using low permuted_mset [OF a3(2)] s1 by (metis mset_eq_setD)
    have high': "\<forall>x \<in> set (segment (off + i) (n - i) a4). v \<le> x"
      using high permuted_mset [OF a4(2)] permuted_segment_behind(1) [OF a3(2), of "off + i" "n - i"] p(2)
      by (metis mset_eq_setD add_leE diff_le_self nat_add_left_cancel_le)
    have seg: "segment off n a4 = segment off (i - 1) a4 @ v # segment (off + i) (n - i) a4"
    proof -
      have "segment off n a4 = segment off (i - 1) a4 @ segment (off + (i - 1)) 1 a4 @ segment (off + i) (n - i) a4"
        using segment_split [of "i - 1" n off a4] segment_split [of 1 "n - (i - 1)" "off + (i - 1)" a4] p(2,3)
        by (simp add: Suc_diff_Suc add.assoc)
      moreover have "segment (off + (i - 1)) 1 a4 = [v]"
        using piv p(2,3) 1(3) len4 by (simp add: segment_def take_Suc_conv_app_nth)
      ultimately show ?thesis by simp
    qed
    have "sorted (segment off n a4)"
      unfolding seg using a3(3) s1 a4(3) low' high' by (fastforce simp: sorted_append)
    moreover have "permuted off n a a4"
    proof -
      have "permuted off n a2 a3" using p(3) by (intro permuted_widen [OF a3(2)]) linarith+
      moreover have "permuted off n a3 a4" using p(3) by (intro permuted_widen [OF a4(2)]) linarith+
      ultimately show ?thesis using p(4) w2 permuted_trans by blast
    qed
    moreover have "MedianCyclicBuffer_sort beyond off n a = Inr a4"
      using False p(1) a3(1) [unfolded a2_def] a4(1) by (subst MedianCyclicBuffer_sort.simps) (simp add: v)
    ultimately show ?thesis by blast
  qed
qed

text \<open>
  The sorting routine behind the median, a quicksort written on array indices, returns the sorted
  array for every input, whatever the memory holds behind the array that its upward scan reads.
\<close>

lemma median_sort_is_sort: "MedianCyclicBuffer_sort beyond 0 (length a) a = Inr (sort a)"
proof -
  obtain b where b: "MedianCyclicBuffer_sort beyond 0 (length a) a = Inr b" "permuted 0 (length a) a b"
    "sorted (segment 0 (length a) b)"
    using sort_segment [of 0 "length a" a beyond] by auto
  then have "sort a = b"
    using permuted_length [OF b(2)] by (intro properties_for_sort) (auto simp: permuted_def segment_def)
  with b(1) show ?thesis by simp
qed

definition MedianCyclicBuffer_getValue :: "int \<Rightarrow> cyclic \<Rightarrow> (cyclic \<times> int) res" where
  "MedianCyclicBuffer_getValue beyond b =
     (let m = CyclicBufferBased_getCurrentSize b in
      if m = 0 then Inr (b, 0)
      else if nat (circular_buffersize b) > length (buffer b) then Inl OutOfBounds
      else bindE (MedianCyclicBuffer_sort beyond 0 (nat m) (take (nat (circular_buffersize b)) (buffer b))) (\<lambda>s.
           bindE (if m smod 2 = 0
                  then bindE (at_idx s (nat (m sdiv 2))) (\<lambda>x. bindE (at_idx s (nat (m sdiv 2 - 1))) (\<lambda>y. Inr ((x + y) sdiv 2)))
                  else at_idx s (nat ((m - 1) sdiv 2))) (\<lambda>tempValue.
           Inr (CyclicBufferBased_progressIndex b, tempValue))))"

text \<open>
  C34. The median of a full buffer is that of its measurements: the quicksort on array indices that
  \<open>getValue\<close> runs on a copy sorts it, whatever the memory holds behind the array that its upward scan
  reads, and the measurements themselves keep their order.
\<close>

theorem median_of_full_buffer:
  assumes "0 < circular_buffersize b" "circular_buffersize b < bsize b" "length (buffer b) = nat (circular_buffersize b)"
  shows "CyclicBufferBased_getNext (MedianCyclicBuffer_getValue beyond) b =
    (let s = sort (buffer b); m = length (buffer b) in
     Inr (CyclicBufferBased_progressIndex b,
          if even m then (s ! (m div 2) + s ! (m div 2 - 1)) sdiv 2 else s ! (m div 2)))"
proof -
  define m where "m = nat (circular_buffersize b)"
  have m: "0 < m" "circular_buffersize b = int m" "length (buffer b) = m" using assms by (auto simp: m_def)
  have cur: "CyclicBufferBased_getCurrentSize b = int m"
    using assms(2) m by (simp add: CyclicBufferBased_getCurrentSize_def)
  have srt: "MedianCyclicBuffer_sort beyond 0 m (buffer b) = Inr (sort (buffer b))"
    using median_sort_is_sort [of beyond "buffer b"] m(3) by simp
  have div: "int m sdiv 2 = int (m div 2)" "(int m - 1) sdiv 2 = int ((m - 1) div 2)" "int m smod 2 = int (m mod 2)"
    using m(1) by (auto simp: signed_divide_int_def signed_modulo_int_def zdiv_int zmod_int of_nat_diff sgn_if)
  have nats: "nat (int (m div 2) - 1) = m div 2 - 1" "m div 2 < m" "m div 2 - 1 < m" "odd m \<Longrightarrow> (m - 1) div 2 = m div 2"
    using m(1) by (auto elim!: oddE)
  show ?thesis
    using assms(2) m cur srt div nats
    by (auto simp: CyclicBufferBased_getNext_def MedianCyclicBuffer_getValue_def Let_def bindE_def at_idx_def)
qed

lemma median_of_full_buffer_witness:
  "CyclicBufferBased_getNext (MedianCyclicBuffer_getValue 0)
     \<lparr>buffer = [30, 10, 20, 50], bsize = 5, bindex = 0, circular_buffersize = 4\<rparr>
   = Inr (\<lparr>buffer = [30, 10, 20, 50], bsize = 5, bindex = 1, circular_buffersize = 4\<rparr>, 25)"
  using median_of_full_buffer [of "\<lparr>buffer = [30, 10, 20, 50], bsize = 5, bindex = 0, circular_buffersize = 4\<rparr>" 0]
  by (simp add: CyclicBufferBased_progressIndex_def u32_def signed_divide_int_def)

section \<open>Linear regression\<close>

record regression =
  rsize :: int
  Sx :: int
  Sxx :: int

definition LinearRegression_LinearRegression :: "int \<Rightarrow> regression" where
  "LinearRegression_LinearRegression n =
     \<lparr>rsize = n, Sx = foldl (\<lambda>s i. s + i) 0 [1..n], Sxx = foldl (\<lambda>s i. s + u32 (i * i)) 0 [1..n]\<rparr>"

text \<open>The slope of a buffer with fewer than two elements is a NaN, which converts to \<open>LLONG_MIN\<close>.\<close>

definition LinearRegression_apply :: "regression \<Rightarrow> int list \<Rightarrow> int res" where
  "LinearRegression_apply r xs =
     (if nat (rsize r) > length xs then Inl OutOfBounds
      else let n = rsize r; y = take (nat n) xs;
               Sy = foldl (+) 0 y;
               Sxy = foldl (\<lambda>s (i, x). s + (int i + 1) * x) 0 (zip [0..<length y] y);
               denominator = f64 (of_int (n * Sxx r - Sx r * Sx r));
               a = f64 (f64 (of_int (n * Sxy - Sx r * Sy)) / denominator);
               b = f64 (f64 (f64 (of_int Sy) - f64 (a * f64 (of_int (Sx r)))) / f64 (of_int n))
           in if denominator = 0 then Inr LLONG_MIN
              else Inr (ll_of_float (f64 (f64 (a * f64 (of_int (n + 1))) + b))))"

definition SimpleLinearRegressionCyclicBuffer_getValue :: "regression \<Rightarrow> cyclic \<Rightarrow> (cyclic \<times> int) res" where
  "SimpleLinearRegressionCyclicBuffer_getValue r b = bindE (LinearRegression_apply r (buffer b)) (\<lambda>v. Inr (b, v))"

lemma foldl_sum: "foldl (\<lambda>s i. s + f i) (a :: int) xs = a + sum_list (map f xs)"
  by (induction xs arbitrary: a) auto

lemma Sx_closed: "2 * Sx (LinearRegression_LinearRegression (int m)) = int m * (int m + 1)"
proof (induction m)
  case (Suc m)
  have "[1..int (Suc m)] = [1..int m] @ [int m + 1]" by (simp add: upto_rec2)
  with Suc show ?case by (simp add: LinearRegression_LinearRegression_def algebra_simps)
qed (simp add: LinearRegression_LinearRegression_def)

lemma Sxx_closed:
  "m < 65536 \<Longrightarrow> 6 * Sxx (LinearRegression_LinearRegression (int m)) = int m * (int m + 1) * (2 * int m + 1)"
proof (induction m)
  case (Suc m)
  have "[1..int (Suc m)] = [1..int m] @ [int m + 1]" by (simp add: upto_rec2)
  moreover have "(int m + 1) * (int m + 1) \<le> 65535 * 65535" using Suc.prems by (intro mult_mono) auto
  ultimately show ?case
    using Suc by (simp add: LinearRegression_LinearRegression_def u32_def algebra_simps)
qed (simp add: LinearRegression_LinearRegression_def)

definition line_points :: "int \<Rightarrow> int \<Rightarrow> nat \<Rightarrow> int list" where
  "line_points c d m = map (\<lambda>i. c * (int i + 1) + d) [0..<m]"

lemma line_sums:
  assumes "m < 65536"
  defines "r \<equiv> LinearRegression_LinearRegression (int m)"
  shows "foldl (+) 0 (line_points c d m) = c * Sx r + d * int m"
    "foldl (\<lambda>s (i, x). s + (int i + 1) * x) 0 (zip [0..<m] (line_points c d m)) = c * Sxx r + d * Sx r"
  using assms(1) unfolding r_def
proof (induction m)
  case 0
  { case 1 show ?case by (simp add: line_points_def LinearRegression_LinearRegression_def)
  next case 2 show ?case by (simp add: line_points_def LinearRegression_LinearRegression_def) }
next
  case (Suc m)
  have up: "[1..int (Suc m)] = [1..int m] @ [int m + 1]" by (simp add: upto_rec2)
  have sq: "(int m + 1) * (int m + 1) \<le> 65535 * 65535" if "Suc m < 65536" using that by (intro mult_mono) auto
  have last_point: "line_points c d (Suc m) = line_points c d m @ [c * (int m + 1) + d]"
    by (simp add: line_points_def)
  { case 1
    then show ?case using Suc.IH(1) unfolding last_point LinearRegression_LinearRegression_def up
      by (simp add: algebra_simps)
  next
    case 2
    have "length (line_points c d m) = m" by (simp add: line_points_def)
    then show ?case using 2 Suc.IH(2) sq unfolding last_point LinearRegression_LinearRegression_def up
      by (simp add: u32_def algebra_simps) }
qed

text \<open>
  C36. The linear regression continues every straight line exactly, without a rounding error, as long as
  the products fit the 53 bits of a \<open>double\<close>: for measurements \<open>c * i + d\<close> at \<open>i = 1, \<dots>, n\<close> it predicts
  \<open>c * (n + 1) + d\<close>.
\<close>

theorem linear_regression_continues_lines:
  assumes "2 \<le> m" "(\<bar>c\<bar> + 1) * int m ^ 4 < 2 ^ 52" "\<bar>d\<bar> * int m < 2 ^ 52"
  shows "LinearRegression_apply (LinearRegression_LinearRegression (int m)) (line_points c d m)
         = Inr (c * (int m + 1) + d)"
proof -
  define n where "n = int m"
  define r where "r = LinearRegression_LinearRegression n"
  define D where "D = n * Sxx r - Sx r * Sx r"
  have n: "2 \<le> n" using assms(1) by (simp add: n_def)
  have small: "(\<bar>c\<bar> + 1) * n ^ 4 < 2 ^ 52" "\<bar>d\<bar> * n < 2 ^ 52" using assms(2,3) by (simp_all add: n_def)
  have quarter: "\<bar>c\<bar> * n ^ 4 < 2 ^ 52" "n ^ 4 < 2 ^ 52"
  proof -
    have "0 \<le> \<bar>c\<bar> * n ^ 4" "0 \<le> n ^ 4" by simp_all
    moreover have "\<bar>c\<bar> * n ^ 4 + n ^ 4 < 2 ^ 52" using small(1) by (simp add: distrib_right)
    ultimately show "\<bar>c\<bar> * n ^ 4 < 2 ^ 52" "n ^ 4 < 2 ^ 52" by linarith+
  qed
  have powers: "n * n \<le> n ^ 4" "n + 1 \<le> n ^ 4" "n \<le> n ^ 4"
  proof -
    have "4 \<le> n * n" using mult_mono [of 2 n 2 n] n by simp
    then show "n * n \<le> n ^ 4" using mult_mono [of 1 "n * n" "n * n" "n * n"] by (simp add: eval_nat_numeral)
    moreover have "2 * n \<le> n * n" using n by simp
    ultimately show "n + 1 \<le> n ^ 4" "n \<le> n ^ 4" using n by linarith+
  qed
  have m: "m < 65536"
  proof (rule ccontr)
    assume "\<not> m < 65536"
    then have "65536 ^ 4 \<le> n ^ 4" by (intro power_mono) (auto simp: n_def)
    with quarter(2) show False by simp
  qed
  have S: "2 * Sx r = n * (n + 1)" "6 * Sxx r = n * (n + 1) * (2 * n + 1)"
    using Sx_closed [of m] Sxx_closed [OF m] by (simp_all add: r_def n_def)
  have D12: "12 * D = (n * n) * (n * n - 1)"
  proof -
    have "12 * D = 2 * n * (6 * Sxx r) - 3 * (2 * Sx r) * (2 * Sx r)" by (simp add: D_def)
    also have "\<dots> = (n * n) * (n * n - 1)" unfolding S by (simp add: algebra_simps)
    finally show ?thesis .
  qed
  have D: "0 < D" "D \<le> n ^ 4"
  proof -
    have nn: "4 \<le> n * n" using mult_mono [of 2 n 2 n] n by simp
    then have "0 < (n * n) * (n * n - 1)" by simp
    then show "0 < D" using D12 by linarith
    have "(n * n) * (n * n - 1) \<le> n ^ 4" by (simp add: algebra_simps eval_nat_numeral)
    with \<open>0 < D\<close> D12 show "D \<le> n ^ 4" by linarith
  qed
  have Sx: "0 \<le> Sx r" "Sx r \<le> n ^ 4"
  proof -
    have "0 \<le> n * (n + 1)" "n * (n + 1) \<le> n * n + n * n" using n by (simp_all add: distrib_left)
    then show "0 \<le> Sx r" "Sx r \<le> n ^ 4" using S(1) powers(1) by linarith+
  qed
  have scaled: "\<bar>c * x\<bar> < 2 ^ 52" if "0 \<le> x" "x \<le> n ^ 4" for x
    using mult_left_mono [OF that(2), of "\<bar>c\<bar>"] that(1) quarter(1) by (simp add: abs_mult)
  have cs: "\<bar>c * D\<bar> < 2 ^ 52" "\<bar>c\<bar> < 2 ^ 52" "\<bar>c * Sx r\<bar> < 2 ^ 52" "\<bar>c * (n + 1)\<bar> < 2 ^ 52"
    using scaled [of D] scaled [of 1] scaled [OF Sx] scaled [of "n + 1"] D powers n by simp_all
  have dn: "\<bar>d * n\<bar> < 2 ^ 52" using small(2) n by (simp add: abs_mult)
  have d: "\<bar>d\<bar> < 2 ^ 52"
    using dn n mult_left_mono [of 1 n "\<bar>d\<bar>"] by (simp add: abs_mult)
  have sum: "f64 (of_int (x + y)) = of_int (x + y)" if "\<bar>x\<bar> < 2 ^ 52" "\<bar>y\<bar> < 2 ^ 52" for x y
    using that abs_triangle_ineq [of x y] by (intro fl_of_int) simp
  then have exact: "f64 (of_int x) = of_int x" if "\<bar>x\<bar> < 2 ^ 52" for x
    using sum [of x 0] that by simp
  then have index: "f64 (of_int x) = of_int x" if "0 \<le> x" "x \<le> n ^ 4" for x
    using that quarter(2) by simp
  have len: "length (line_points c d m) = m" by (simp add: line_points_def)
  note sums = line_sums [OF m, of c d, folded n_def, folded r_def]
  have num: "n * (c * Sxx r + d * Sx r) - Sx r * (c * Sx r + d * n) = c * D"
    by (simp add: D_def algebra_simps)
  have a: "f64 (f64 (of_int (c * D)) / f64 (of_int D)) = of_int c"
  proof -
    have "f64 (of_int (c * D)) = of_int (c * D)" "f64 (of_int D) = of_int D" "f64 (of_int c) = of_int c"
      using D by (intro exact cs index; simp)+
    then show ?thesis using D(1) by simp
  qed
  have b: "f64 (f64 (f64 (of_int (c * Sx r + d * n)) - f64 (of_int c * f64 (of_int (Sx r)))) / f64 (of_int n)) = of_int d"
  proof -
    have "f64 (of_int (c * Sx r + d * n)) = of_int (c * Sx r + d * n)" "f64 (of_int (Sx r)) = of_int (Sx r)"
      "f64 (of_int (c * Sx r)) = of_int (c * Sx r)" "f64 (of_int (d * n)) = of_int (d * n)"
      "f64 (of_int n) = of_int n" "f64 (of_int d) = of_int d"
      using Sx powers n by (intro sum exact cs dn d index; simp)+
    moreover have "of_int (d * n) / of_int n = (of_int d :: rat)" using n by simp
    ultimately show ?thesis by (simp flip: of_int_mult of_int_diff)
  qed
  have y: "f64 (f64 (of_int c * f64 (of_int (n + 1))) + of_int d) = of_int (c * (n + 1) + d)"
  proof -
    have "f64 (of_int (n + 1)) = of_int (n + 1)" "f64 (of_int (c * (n + 1))) = of_int (c * (n + 1))"
      "f64 (of_int (c * (n + 1) + d)) = of_int (c * (n + 1) + d)"
      using powers n by (intro sum exact cs d index; simp)+
    then show ?thesis by (simp flip: of_int_mult of_int_add del: of_int_1)
  qed
  have "ll_of_float (of_int x) = x" if "\<bar>x\<bar> < 2 ^ 53" for x
    using that by (auto simp: ll_of_float_def trunc_int_def LLONG_MAX_def LLONG_MIN_def Let_def)
  then have ll: "ll_of_float (of_int (c * (n + 1) + d)) = c * (n + 1) + d"
    using cs(4) d abs_triangle_ineq [of "c * (n + 1)" d] by (simp del: of_int_mult of_int_add)
  have "f64 (of_int D) \<noteq> 0" using exact [of D] D quarter(2) by simp
  moreover have "rsize r = n" "nat n = m" by (simp_all add: r_def n_def LinearRegression_LinearRegression_def)
  ultimately show ?thesis
    unfolding n_def [symmetric] r_def [symmetric] using len ll sums num a b y
    by (simp add: LinearRegression_apply_def Let_def D_def [symmetric] del: of_int_mult of_int_add of_int_diff)
qed

lemma linear_regression_continues_lines_witness:
  "LinearRegression_apply (LinearRegression_LinearRegression 3) [24, 17, 10] = Inr 3"
  using linear_regression_continues_lines [of 3 "-7" 31] by (simp add: line_points_def upt_rec)

section \<open>Constant mean\<close>

record constant_mean =
  total :: int
  msize :: int

definition ConstantMeanPredictor_ConstantMeanPredictor :: constant_mean where
  "ConstantMeanPredictor_ConstantMeanPredictor = \<lparr>total = 0, msize = 0\<rparr>"

definition ConstantMeanPredictor_getNext :: "constant_mean \<Rightarrow> int" where
  "ConstantMeanPredictor_getNext p = (if msize p = 0 then 0 else total p sdiv msize p)"

definition ConstantMeanPredictor_addPredictionInfo :: "int \<Rightarrow> constant_mean \<Rightarrow> constant_mean" where
  "ConstantMeanPredictor_addPredictionInfo realTimeValueOnExit p =
     p\<lparr>total := total p + realTimeValueOnExit, msize := u32 (msize p + 1)\<rparr>"

text \<open>A \<open>getline\<close> behind the end of the file leaves the line empty.\<close>

definition ConstantMeanPredictor_importFromFile :: "string option \<Rightarrow> constant_mean \<Rightarrow> constant_mean" where
  "ConstantMeanPredictor_importFromFile file p =
     (case file of
        None \<Rightarrow> p
      | Some s \<Rightarrow> (let ls = getlines [] s @ [[]] in p\<lparr>total := atoll (ls ! 0), msize := u32 (atoi (ls ! 1))\<rparr>))"

definition ConstantMeanPredictor_exportToFile :: "constant_mean \<Rightarrow> string" where
  "ConstantMeanPredictor_exportToFile p = write_lines [show_int (total p), show_int (msize p)]"

section \<open>Measurements in files\<close>

lemma u32_atoi: "u32 (atoi s) = u32 (atoll s)"
  by (simp add: atoi_def u32_def mod_diff_left_eq)

text \<open>
  A predictor of the constant mean that imports the file that another one exported continues with the
  same total and number of measurements, so that it makes the same predictions.
\<close>

theorem constant_mean_export_import:
  assumes "0 \<le> msize p" "msize p < 2 ^ 32"
  shows "ConstantMeanPredictor_importFromFile (Some (ConstantMeanPredictor_exportToFile p)) q = p"
proof -
  have "getlines [] (ConstantMeanPredictor_exportToFile p) = [show_int (total p), show_int (msize p), []]"
    by (simp add: ConstantMeanPredictor_exportToFile_def getlines_write_lines)
  moreover have "u32 (atoi (show_int (msize p))) = msize p"
    using assms by (simp add: u32_atoi) (simp add: u32_def)
  ultimately show ?thesis
    by (simp add: ConstantMeanPredictor_importFromFile_def)
qed

lemma constant_mean_export_import_witness:
  "ConstantMeanPredictor_importFromFile (Some (ConstantMeanPredictor_exportToFile \<lparr>total = - 250, msize = 3\<rparr>))
     ConstantMeanPredictor_ConstantMeanPredictor = \<lparr>total = - 250, msize = 3\<rparr>"
  by (rule constant_mean_export_import) simp_all

lemma add_lines_append: "add_lines (xs @ ys) b = bindE (add_lines xs b) (add_lines ys)"
  by (induction xs arbitrary: b) (simp_all add: bindE_def split: sum.splits)

lemma add_lines_fill:
  assumes "length xs + k = nat n" "bsize b = int k" "circular_buffersize b = n" "length (buffer b) = nat n" "0 \<le> n" "n < 2 ^ 32"
  shows "add_lines (map show_int xs) b = Inr (b\<lparr>buffer := take k (buffer b) @ xs, bsize := n\<rparr>)"
  using assms
proof (induction xs arbitrary: k b)
  case Nil
  then show ?case by (cases b) auto
next
  case (Cons x xs)
  let ?b = "b\<lparr>buffer := (buffer b)[k := x], bsize := int k + 1\<rparr>"
  have k: "int k < n" "k < length (buffer b)" using Cons.prems by auto
  have "CyclicBufferBased_addPredictionInfo x b = Inr ?b"
    using k Cons.prems by (simp add: CyclicBufferBased_addPredictionInfo_def u32_def Let_def)
  moreover have "add_lines (map show_int xs) ?b = Inr (?b\<lparr>buffer := take (Suc k) (buffer ?b) @ xs, bsize := n\<rparr>)"
    using Cons.prems by (intro Cons.IH) auto
  ultimately show ?case using k by (simp add: bindE_def take_Suc_conv_app_nth)
qed

text \<open>
  A cyclic buffer that is imported into a new predictor from the file that another one exported loses
  its first measurement: the file ends with a newline, behind which the reading loop finds one more, empty
  line, so that a zero is stored over the first element. The other measurements are those exported.
\<close>

theorem cyclic_import_overwrites_first:
  assumes "0 < circular_buffersize b" "circular_buffersize b < 2 ^ 32 - 1"
    "length (buffer b) = nat (circular_buffersize b)"
  shows "bindE (CyclicBufferBased_exportToFile b)
           (\<lambda>file. CyclicBufferBased_importFromFile (Some file) (CyclicBufferBased_CyclicBufferBased (circular_buffersize b)))
         = Inr \<lparr>buffer = 0 # drop 1 (buffer b), bsize = circular_buffersize b + 1, bindex = 0,
                circular_buffersize = circular_buffersize b\<rparr>"
proof -
  let ?n = "circular_buffersize b"
  let ?new = "CyclicBufferBased_CyclicBufferBased ?n"
  have "CyclicBufferBased_exportToFile b = Inr (write_lines (map show_int (buffer b)))"
    using assms by (simp add: CyclicBufferBased_exportToFile_def)
  moreover have "getlines [] (write_lines (map show_int (buffer b))) = map show_int (buffer b) @ [[]]"
    by (rule getlines_write_lines) simp
  moreover have "add_lines (map show_int (buffer b)) ?new = Inr (?new\<lparr>buffer := buffer b, bsize := ?n\<rparr>)"
    using add_lines_fill [of "buffer b" 0 ?n ?new] assms by (simp add: CyclicBufferBased_CyclicBufferBased_def)
  ultimately show ?thesis
    using assms
    by (cases "buffer b")
       (auto simp: CyclicBufferBased_importFromFile_def add_lines_append bindE_def atoll_def u32_def
         CyclicBufferBased_addPredictionInfo_def CyclicBufferBased_CyclicBufferBased_def Let_def)
qed

lemma cyclic_import_overwrites_first_witness:
  "bindE (CyclicBufferBased_exportToFile \<lparr>buffer = [70, 80], bsize = 4, bindex = 0, circular_buffersize = 2\<rparr>)
     (\<lambda>file. CyclicBufferBased_importFromFile (Some file) (CyclicBufferBased_CyclicBufferBased 2))
   = Inr \<lparr>buffer = [0, 80], bsize = 3, bindex = 0, circular_buffersize = 2\<rparr>"
  using cyclic_import_overwrites_first [of "\<lparr>buffer = [70, 80], bsize = 4, bindex = 0, circular_buffersize = 2\<rparr>"]
  by simp

end
