(* ===== verification/Vex_Markov.thy ===== *)
theory Vex_Markov
  imports Vex_Prediction
begin

text \<open>
  \<open>MarkovModulatedProcess\<close> of \<open>io/PredictionMethod\<close>: the predictor that groups the measurements of its cyclic
  buffer into the states of a Markov chain and predicts by sampling a measurement of the current state.
  The results of \<open>rand()\<close> are arguments; \<open>RAND_MAX\<close> is \<open>2147483647\<close>. An entry of the transition matrix that is
  not a number is \<open>None\<close>.
\<close>

section \<open>State\<close>

definition int32 :: "int \<Rightarrow> int" where
  "int32 x = (x + 2147483648) mod 4294967296 - 2147483648"

record markov = cyclic +
  mstates :: int
  currentState :: int
  transitionMatrix :: "rat option list list"
  bucketOfElement :: "int list"
  bucketSizes :: "int list"

definition MarkovModulatedProcess_init :: "markov \<Rightarrow> markov" where
  "MarkovModulatedProcess_init m =
     m\<lparr>transitionMatrix := replicate (nat (mstates m)) (replicate (nat (mstates m)) (Some 0)),
       bucketOfElement := replicate (nat (circular_buffersize m)) (- 1),
       bucketSizes := replicate (nat (mstates m)) 0\<rparr>"

text \<open>The constructor: the buffer has the size asked for, the process uses at least two elements of it. The
  arrays, which the code allocates here and fills before it first reads them, start as \<open>init\<close> fills them.\<close>

definition MarkovModulatedProcess_alloc :: "int \<Rightarrow> int \<Rightarrow> markov" where
  "MarkovModulatedProcess_alloc n k =
     (let n1 = (if n < 2 then 2 else n); k1 = (if k < 2 then 2 else k); k2 = (if k1 > n1 then n1 else k1)
      in MarkovModulatedProcess_init
           \<lparr>buffer = replicate (nat n) 0, bsize = 0, bindex = 0, circular_buffersize = n1,
            mstates = k2, currentState = - 1, transitionMatrix = [], bucketOfElement = [], bucketSizes = []\<rparr>)"

definition elements_of :: "int \<Rightarrow> markov \<Rightarrow> nat list" where
  "elements_of bucketId m = filter (\<lambda>i. bucketOfElement m ! i = bucketId) [0..<nat (circular_buffersize m)]"

section \<open>Distributing the elements of a bucket\<close>

fun spread :: "int \<Rightarrow> nat list \<Rightarrow> int list \<Rightarrow> int list" where
  "spread addCount [] buf = buf"
| "spread addCount (i # is) buf = spread (addCount + 1) is (buf[i := buf ! i + addCount])"

definition inc_at :: "int \<Rightarrow> int \<Rightarrow> int list \<Rightarrow> int list" where
  "inc_at i d xs = xs[nat i := u32 (xs ! nat i + d)]"

definition bucket_for :: "int \<Rightarrow> int \<Rightarrow> int \<Rightarrow> int \<Rightarrow> int \<Rightarrow> int" where
  "bucket_for lowestBucketId newBucketsToCreate mn step x =
     (let b = int32 (lowestBucketId + (x - mn) sdiv step)
      in if u32 b \<ge> u32 (lowestBucketId + newBucketsToCreate - 1)
         then int32 (lowestBucketId + newBucketsToCreate - 1) else b)"

fun place :: "int \<Rightarrow> int \<Rightarrow> int \<Rightarrow> int \<Rightarrow> nat list \<Rightarrow> markov \<Rightarrow> markov res" where
  "place lowest new mn step [] m = Inr m"
| "place lowest new mn step (i # is) m =
     (let b = bucket_for lowest new mn step (buffer m ! i)
      in if b < 0 \<or> length (bucketSizes m) \<le> nat b then Inl OutOfBounds
         else place lowest new mn step is
           (m\<lparr>bucketOfElement := (bucketOfElement m)[i := b],
              bucketSizes := (if lowest = 0 then inc_at b 1 (bucketSizes m)
                              else if lowest \<noteq> b then inc_at lowest (- 1) (inc_at b 1 (bucketSizes m))
                              else bucketSizes m)\<rparr>))"

definition MarkovModulatedProcess_distributeAllInBucket :: "int \<Rightarrow> int \<Rightarrow> int \<Rightarrow> markov \<Rightarrow> markov res" where
  "MarkovModulatedProcess_distributeAllInBucket bucketId newBucketsToCreate lowestBucketId m =
     (let is = elements_of bucketId m; xs = map ((!) (buffer m)) is;
          mx = foldl (\<lambda>a x. if x > a then x else a) 0 xs;
          mn = foldl (\<lambda>a x. if x < a then x else a) LLONG_MAX xs;
          step = (mx - mn) sdiv newBucketsToCreate;
          m1 = (if step = 0 then m\<lparr>buffer := spread 0 is (buffer m)\<rparr> else m);
          step1 = (if step = 0 then (mn + int (length is) - mn) sdiv newBucketsToCreate else step)
      in if length (buffer m) < nat (circular_buffersize m) then Inl OutOfBounds
         else if is \<noteq> [] \<and> step1 = 0 then Inl DivisionByZero
         else place lowestBucketId newBucketsToCreate mn step1 is m1)"

section \<open>Building the states\<close>

text \<open>The nonempty buckets are moved to the front: an empty bucket takes the elements of the last nonempty
  bucket behind it.\<close>

fun last_full :: "int list \<Rightarrow> nat \<Rightarrow> nat \<Rightarrow> nat option" where
  "last_full sizes i 0 = None"
| "last_full sizes i (Suc j) = (if i \<ge> Suc j then None else if sizes ! Suc j \<noteq> 0 then Some (Suc j) else last_full sizes i j)"

definition move_bucket :: "nat \<Rightarrow> markov \<Rightarrow> markov" where
  "move_bucket i m =
     (if bucketSizes m ! i \<noteq> 0 then m
      else case last_full (bucketSizes m) i (nat (mstates m) - 1) of
        None \<Rightarrow> m
      | Some j \<Rightarrow>
          m\<lparr>bucketOfElement := map (\<lambda>b. if b = int j then int i else b) (bucketOfElement m),
            bucketSizes := (bucketSizes m)[i := bucketSizes m ! j, j := 0]\<rparr>)"

definition compact_buckets :: "markov \<Rightarrow> markov" where
  "compact_buckets m = foldl (\<lambda>m i. move_bucket i m) m [0..<nat (mstates m) - 1]"

definition full_buckets :: "markov \<Rightarrow> int" where
  "full_buckets m = int (length (filter (\<lambda>s. s \<noteq> 0) (bucketSizes m)))"

definition largest_bucket :: "markov \<Rightarrow> int" where
  "largest_bucket m =
     foldl (\<lambda>l i. if bucketSizes m ! i = 0 then l
                  else if l = - 1 \<or> bucketSizes m ! i > bucketSizes m ! nat l then int i else l)
       (- 1) [0..<nat (mstates m)]"

definition largest_last :: "markov \<Rightarrow> markov" where
  "largest_last m =
     (let l = largest_bucket m; f = full_buckets m - 1 in
      m\<lparr>bucketOfElement := map (\<lambda>b. if b = l then f else if b = f then l else b) (bucketOfElement m),
        bucketSizes := (bucketSizes m)[nat l := bucketSizes m ! nat f, nat f := bucketSizes m ! nat l]\<rparr>)"

text \<open>The loop of \<open>setStateLimits\<close>, of at most \<open>fuel\<close> rounds; \<open>None\<close> when they do not suffice.\<close>

fun set_state_limits :: "nat \<Rightarrow> int \<Rightarrow> int \<Rightarrow> int \<Rightarrow> markov \<Rightarrow> markov res option" where
  "set_state_limits 0 largestBucket nullBuckets fullBuckets m = None"
| "set_state_limits (Suc fuel) largestBucket nullBuckets fullBuckets m =
     (case MarkovModulatedProcess_distributeAllInBucket largestBucket (nullBuckets + 1) (fullBuckets - 1) m of
        Inl e \<Rightarrow> Some (Inl e)
      | Inr m1 \<Rightarrow>
          let m2 = compact_buckets m1; f = full_buckets m2; nulls = mstates m2 - f in
          if nulls = 0 then Some (Inr m2)
          else if f = 0 then Some (Inl OutOfBounds)
          else set_state_limits fuel (f - 1) nulls f (largest_last m2))"

definition MarkovModulatedProcess_setStateLimits :: "nat \<Rightarrow> markov \<Rightarrow> markov res option" where
  "MarkovModulatedProcess_setStateLimits fuel m = set_state_limits fuel (- 1) (mstates m - 1) 1 m"

section \<open>The chain\<close>

definition add_transition :: "int \<Rightarrow> int \<Rightarrow> rat option list list \<Rightarrow> rat option list list" where
  "add_transition i j t = t[nat i := (t ! nat i)[nat j := map_option (\<lambda>x. f64 (x + 1)) (t ! nat i ! nat j)]]"

definition is_state :: "markov \<Rightarrow> int \<Rightarrow> bool" where
  "is_state m s \<longleftrightarrow> 0 \<le> s \<and> s < mstates m"

text \<open>A row of counts becomes the row of the sums of its relative frequencies; a row without transitions
  consists of NaNs.\<close>

fun cumulate :: "rat \<Rightarrow> rat \<Rightarrow> rat option list \<Rightarrow> rat option list" where
  "cumulate allTransitions acc [] = []"
| "cumulate allTransitions acc (x # xs) =
     (case x of
        None \<Rightarrow> replicate (Suc (length xs)) None
      | Some c \<Rightarrow>
          if allTransitions = 0 then replicate (Suc (length xs)) None
          else let acc1 = f64 (acc + f64 (c / allTransitions)) in Some acc1 # cumulate allTransitions acc1 xs)"

definition row_total :: "rat option list \<Rightarrow> rat" where
  "row_total row = foldl (\<lambda>s x. s + (case x of Some c \<Rightarrow> c | None \<Rightarrow> 0)) 0 row"

definition MarkovModulatedProcess_populateTransitionMatrix :: "markov \<Rightarrow> markov res" where
  "MarkovModulatedProcess_populateTransitionMatrix m =
     (let bo = take (nat (circular_buffersize m)) (bucketOfElement m) in
      if list_all (is_state m) bo
      then Inr (m\<lparr>transitionMatrix :=
             map (\<lambda>row. cumulate (row_total row) 0 row)
               (foldl (\<lambda>t (i, j). add_transition i j t) (transitionMatrix m) (zip bo (drop 1 bo)))\<rparr>)
      else Inl OutOfBounds)"

definition MarkovModulatedProcess_sampleMeasurementOfState :: "nat \<Rightarrow> int \<Rightarrow> markov \<Rightarrow> int res" where
  "MarkovModulatedProcess_sampleMeasurementOfState rnd s m =
     (if \<not> is_state m s then Inl OutOfBounds
      else if bucketSizes m ! nat s = 0 then Inl DivisionByZero
      else let element = nat (int rnd mod bucketSizes m ! nat s); is = elements_of s m
           in if element < length is then Inr (buffer m ! (is ! element)) else Inl AssertFailed)"

fun first_above :: "rat \<Rightarrow> rat option list \<Rightarrow> int \<Rightarrow> int option" where
  "first_above r [] j = None"
| "first_above r (x # xs) j = (case x of Some p \<Rightarrow> if r < p then Some j else first_above r xs (j + 1)
                                       | None \<Rightarrow> first_above r xs (j + 1))"

definition MarkovModulatedProcess_getRandomTransitionFrom :: "nat \<Rightarrow> int \<Rightarrow> markov \<Rightarrow> int" where
  "MarkovModulatedProcess_getRandomTransitionFrom rnd s m =
     (case first_above (f64 (of_nat rnd / 2147483647)) (transitionMatrix m ! nat s) 0 of
        Some j \<Rightarrow> j
      | None \<Rightarrow> mstates m - 1)"

definition markov_rebuild :: "nat \<Rightarrow> markov \<Rightarrow> markov res option" where
  "markov_rebuild fuel m =
     map_option
       (\<lambda>r. bindE r (\<lambda>m1. bindE (MarkovModulatedProcess_populateTransitionMatrix m1)
         (\<lambda>m2. Inr (m2\<lparr>currentState := bucketOfElement m2 ! nat (circular_buffersize m2 - 2)\<rparr>))))
       (MarkovModulatedProcess_setStateLimits fuel (MarkovModulatedProcess_init m))"

definition MarkovModulatedProcess_getValue :: "nat \<Rightarrow> nat \<Rightarrow> nat \<Rightarrow> markov \<Rightarrow> (markov \<times> int) res option" where
  "MarkovModulatedProcess_getValue fuel rnd1 rnd2 m =
     map_option
       (\<lambda>r. bindE r (\<lambda>m1.
            bindE (MarkovModulatedProcess_sampleMeasurementOfState rnd1 (currentState m1) m1) (\<lambda>v.
            Inr (m1\<lparr>currentState := MarkovModulatedProcess_getRandomTransitionFrom rnd2 (currentState m1) m1\<rparr>, v))))
       (if currentState m = - 1 \<or> u32 (bsize m - 1) mod circular_buffersize m = 0
        then markov_rebuild fuel m else Some (Inr m))"

section \<open>Well-formed states\<close>

text \<open>The recorded size of every bucket is the number of the elements that have its label.\<close>

definition counted :: "markov \<Rightarrow> bool" where
  "counted m \<longleftrightarrow> length (bucketOfElement m) = nat (circular_buffersize m)
     \<and> length (bucketSizes m) = nat (mstates m) \<and> length (buffer m) = nat (circular_buffersize m)
     \<and> 0 \<le> mstates m \<and> mstates m \<le> circular_buffersize m \<and> circular_buffersize m < 65536
     \<and> (\<forall>i < nat (mstates m). bucketSizes m ! i = int (count_list (bucketOfElement m) (int i)))"

lemma counted_lengths:
  "counted m \<Longrightarrow> length (bucketOfElement m) = nat (circular_buffersize m)"
  "counted m \<Longrightarrow> length (bucketSizes m) = nat (mstates m)"
  "counted m \<Longrightarrow> length (buffer m) = nat (circular_buffersize m)"
  by (simp_all add: counted_def)

lemma count_list_le: "count_list xs x \<le> length xs"
  by (induction xs) auto

lemma count_list_update:
  "k < length xs \<Longrightarrow> int (count_list (xs[k := b]) x) = int (count_list xs x) - of_bool (xs ! k = x) + of_bool (b = x)"
proof (induction xs arbitrary: k)
  case (Cons y ys)
  then show ?case using Cons.IH [of "k - 1"] by (cases k) auto
qed simp

lemma count_list_involution:
  assumes "\<And>x. p (p x) = x"
  shows "count_list (map p xs) x = count_list xs (p x)"
proof (induction xs)
  case (Cons y ys)
  have "p y = x \<longleftrightarrow> y = p x" using assms by metis
  with Cons show ?case by simp
qed simp

lemma place_correct:
  assumes "counted m" "distinct is" "\<forall>i \<in> set is. i < nat (circular_buffersize m) \<and> bucketOfElement m ! i = src"
    "(lowest = 0 \<and> src = - 1) \<or> (0 < lowest \<and> src = lowest \<and> lowest < mstates m)"
    "\<forall>i \<in> set is. 0 \<le> bucket_for lowest new mn step (buffer m ! i) \<and> bucket_for lowest new mn step (buffer m ! i) < mstates m"
  shows "\<exists>bo bs. place lowest new mn step is m = Inr (m\<lparr>bucketOfElement := bo, bucketSizes := bs\<rparr>)
    \<and> counted (m\<lparr>bucketOfElement := bo, bucketSizes := bs\<rparr>)
    \<and> (\<forall>k < nat (circular_buffersize m).
         bo ! k = (if k \<in> set is then bucket_for lowest new mn step (buffer m ! k) else bucketOfElement m ! k))"
  using assms
proof (induction "is" arbitrary: m)
  case Nil
  have same: "m\<lparr>bucketOfElement := bucketOfElement m, bucketSizes := bucketSizes m\<rparr> = m" by simp
  show ?case
    by (rule exI [of _ "bucketOfElement m"], rule exI [of _ "bucketSizes m"], unfold same) (simp add: Nil(1))
next
  case (Cons i "is")
  define b where "b = bucket_for lowest new mn step (buffer m ! i)"
  have b: "0 \<le> b" "b < mstates m" "nat b < nat (mstates m)" using Cons.prems(5) by (auto simp: b_def)
  have i: "i < nat (circular_buffersize m)" "bucketOfElement m ! i = src" "i < length (bucketOfElement m)"
    using Cons.prems(1,3) by (auto simp: counted_lengths)
  define bs where "bs = (if lowest = 0 then inc_at b 1 (bucketSizes m)
     else if lowest \<noteq> b then inc_at lowest (- 1) (inc_at b 1 (bucketSizes m)) else bucketSizes m)"
  let ?m = "m\<lparr>bucketOfElement := (bucketOfElement m)[i := b], bucketSizes := bs\<rparr>"
  have sizes: "bucketSizes m ! j = int (count_list (bucketOfElement m) (int j))"
    "count_list (bucketOfElement m) (int j) \<le> nat (circular_buffersize m)" if "j < nat (mstates m)" for j
    using Cons.prems(1) that count_list_le [of "bucketOfElement m" "int j"] by (auto simp: counted_def)
  have upd: "int (count_list ((bucketOfElement m)[i := b]) x)
     = int (count_list (bucketOfElement m) x) - of_bool (src = x) + of_bool (b = x)" for x
    using count_list_update [OF i(3), of b x] i(2) by simp
  have small: "circular_buffersize m < 65536" using Cons.prems(1) by (simp add: counted_def)
  have lim: "int (count_list (bucketOfElement m) x) < 65536" for x
    using count_list_le [of "bucketOfElement m" x] Cons.prems(1) small by (simp add: counted_lengths)
  have u: "u32 (int (count_list (bucketOfElement m) x) + 1) = int (count_list (bucketOfElement m) x) + 1"
    "0 < count_list (bucketOfElement m) x \<Longrightarrow>
       u32 (int (count_list (bucketOfElement m) x) - 1) = int (count_list (bucketOfElement m) x) - 1" for x
    using lim [of x] by (simp_all add: u32_def)
  have pos: "0 < count_list (bucketOfElement m) src" using i by (metis count_notin nth_mem gr0I count_list_0_iff)
  have "bs ! j = int (count_list ((bucketOfElement m)[i := b]) (int j))" if j: "j < nat (mstates m)" for j
    using Cons.prems(1,4) sizes [OF j] sizes [OF b(3)] b j small pos unfolding upd bs_def
    by (auto simp: inc_at_def nth_list_update counted_lengths u nat_eq_iff sizes of_bool_def)
  then have "counted ?m"
    using Cons.prems(1) by (auto simp: counted_def bs_def inc_at_def)
  then have "\<exists>bo bs'. place lowest new mn step is ?m = Inr (?m\<lparr>bucketOfElement := bo, bucketSizes := bs'\<rparr>)
    \<and> counted (?m\<lparr>bucketOfElement := bo, bucketSizes := bs'\<rparr>)
    \<and> (\<forall>k < nat (circular_buffersize ?m).
         bo ! k = (if k \<in> set is then bucket_for lowest new mn step (buffer ?m ! k) else bucketOfElement ?m ! k))"
    using Cons.prems i(3) by (intro Cons.IH) (auto simp: nth_list_update)
  then obtain bo bs' where r: "place lowest new mn step is ?m = Inr (?m\<lparr>bucketOfElement := bo, bucketSizes := bs'\<rparr>)"
    "counted (?m\<lparr>bucketOfElement := bo, bucketSizes := bs'\<rparr>)"
    "\<forall>k < nat (circular_buffersize m).
         bo ! k = (if k \<in> set is then bucket_for lowest new mn step (buffer m ! k) else bucketOfElement ?m ! k)"
    by auto
  have "place lowest new mn step (i # is) m = place lowest new mn step is ?m"
  proof -
    have "length (bucketSizes m) > nat b" using b(3) Cons.prems(1) by (simp only: counted_lengths)
    then show ?thesis using b(1) by (simp add: b_def [symmetric] bs_def Let_def)
  qed
  with r show ?case
    using Cons.prems(2) i(3) by (intro exI [of _ bo] exI [of _ bs']) (auto simp: nth_list_update b_def)
qed

lemma foldl_max: "foldl (\<lambda>a x. if x > a then x else a) (a :: int) xs = Max (set (a # xs))"
proof (induction xs arbitrary: a)
  case (Cons y ys)
  then show ?case by (cases "ys = []") (auto simp: max_def Max_insert2 insert_commute)
qed simp

lemma foldl_min: "foldl (\<lambda>a x. if x < a then x else a) (a :: int) xs = Min (set (a # xs))"
proof (induction xs arbitrary: a)
  case (Cons y ys)
  then show ?case by (cases "ys = []") (auto simp: min_def insert_commute)
qed simp

lemma extremes:
  assumes "xs \<noteq> []" "\<forall>x \<in> set xs. 0 \<le> x \<and> x \<le> LLONG_MAX"
  shows "foldl (\<lambda>a x. if x > a then x else a) 0 xs \<in> set xs"
    "foldl (\<lambda>a x. if x < a then x else a) LLONG_MAX xs \<in> set xs"
    "x \<in> set xs \<Longrightarrow> x \<le> foldl (\<lambda>a x. if x > a then x else a) 0 xs"
    "x \<in> set xs \<Longrightarrow> foldl (\<lambda>a x. if x < a then x else a) LLONG_MAX xs \<le> x"
proof -
  have "Max (insert 0 (set xs)) \<in> insert 0 (set xs)" by (rule Max_in) simp_all
  moreover have "hd xs \<le> Max (insert 0 (set xs))" "hd xs \<in> set xs"
    using assms(1) by (auto intro!: Max_ge simp del: Max_insert)
  ultimately show "foldl (\<lambda>a x. if x > a then x else a) 0 xs \<in> set xs"
    using assms(2) unfolding foldl_max by (cases "Max (insert 0 (set xs)) \<in> set xs") force+
  have "Min (insert LLONG_MAX (set xs)) \<in> insert LLONG_MAX (set xs)" by (rule Min_in) simp_all
  moreover have "Min (insert LLONG_MAX (set xs)) \<le> hd xs" "hd xs \<in> set xs"
    using assms(1) by (auto intro!: Min_le simp del: Min_insert)
  ultimately show "foldl (\<lambda>a x. if x < a then x else a) LLONG_MAX xs \<in> set xs"
    using assms(2) unfolding foldl_min by (cases "Min (insert LLONG_MAX (set xs)) \<in> set xs") force+
  show "x \<in> set xs \<Longrightarrow> x \<le> foldl (\<lambda>a x. if x > a then x else a) 0 xs"
    "x \<in> set xs \<Longrightarrow> foldl (\<lambda>a x. if x < a then x else a) LLONG_MAX xs \<le> x"
    unfolding foldl_max foldl_min by (auto intro!: Max_ge Min_le simp del: Max_insert Min_insert)
qed

lemma spread_length [simp]: "length (spread c is buf) = length buf"
  by (induction c "is" buf rule: spread.induct) auto

lemma spread_other: "k \<notin> set is \<Longrightarrow> spread c is buf ! k = buf ! k"
  by (induction c "is" buf rule: spread.induct) auto

lemma spread_nth:
  assumes "distinct is" "p < length is" "\<forall>i \<in> set is. i < length buf"
  shows "spread c is buf ! (is ! p) = buf ! (is ! p) + c + int p"
  using assms
proof (induction c "is" buf arbitrary: p rule: spread.induct)
  case (2 c i "is" buf)
  show ?case
  proof (cases p)
    case 0
    then show ?thesis using 2 by (simp add: spread_other)
  next
    case (Suc q)
    then have "is ! q \<noteq> i" using 2 by (metis distinct.simps(2) Suc_less_eq length_Cons nth_mem)
    then show ?thesis using 2 Suc by simp
  qed
qed simp

lemma spread_bounds:
  assumes "distinct is" "\<forall>i \<in> set is. i < length buf" "k < length buf"
  shows "buf ! k \<le> spread 0 is buf ! k" "spread 0 is buf ! k \<le> buf ! k + int (length is)"
  using assms spread_nth [OF assms(1) _ assms(2), of _ 0] spread_other [of k "is" 0 buf]
  by (cases "k \<in> set is"; force simp: in_set_conv_nth)+

text \<open>The bucket for a value that is at least the minimum.\<close>

lemma bucket_for_value:
  assumes "0 \<le> lowest" "1 \<le> new" "lowest + new \<le> 65536" "0 < step" "mn \<le> x" "(x - mn) div step \<le> 131072"
  shows "bucket_for lowest new mn step x = lowest + min ((x - mn) div step) (new - 1)"
proof -
  have "(x - mn) sdiv step = (x - mn) div step" using assms(4,5) by (auto simp: signed_divide_int_def sgn_if)
  moreover have "0 \<le> (x - mn) div step" using assms(4,5) by (simp add: pos_imp_zdiv_nonneg_iff)
  ultimately show ?thesis using assms by (simp add: bucket_for_def int32_def u32_def Let_def min_def)
qed

lemma elements_of_facts:
  "distinct (elements_of s m)"
  "k \<in> set (elements_of s m) \<longleftrightarrow> k < nat (circular_buffersize m) \<and> bucketOfElement m ! k = s"
  "sorted (elements_of s m)"
  "length (elements_of s m) \<le> nat (circular_buffersize m)"
  using length_filter_le [of _ "[0..<nat (circular_buffersize m)]"]
  by (auto simp: elements_of_def intro: sorted_wrt_filter)

lemma quotient_of_quotient:
  assumes "0 < D div new" "0 < (new :: int)"
  shows "new \<le> D div (D div new)" "D div (D div new) \<le> 2 * new"
proof -
  let ?s = "D div new"
  have "?s * new \<le> D" "D < ?s * new + new"
    using assms(2) pos_mod_bound [of new D] pos_mod_sign [of new D] div_mult_mod_eq [of D new] by linarith+
  moreover have "new \<le> ?s * new" using assms by simp
  ultimately have "?s * new \<le> D" "D \<le> 2 * (?s * new)" by linarith+
  then have "new * ?s \<le> D" "D \<le> (2 * new) * ?s" by (simp_all only: ac_simps)
  then have "(new * ?s) div ?s \<le> D div ?s" "D div ?s \<le> ((2 * new) * ?s) div ?s"
    using assms(1) zdiv_mono1 by blast+
  then show "new \<le> D div ?s" "D div ?s \<le> 2 * new" using assms(1) by simp_all
qed

lemma quotient_le: "0 \<le> (a :: int) \<Longrightarrow> 0 < b \<Longrightarrow> a div b \<le> a"
  using zdiv_mono2 [of a 1 b] by simp

lemma place_split:
  assumes "counted m" "els = elements_of src m" "length buf = length (buffer m)" "0 < step" "2 \<le> new"
    "(lowest = 0 \<and> src = - 1) \<or> (0 < lowest \<and> src = lowest)" "lowest + new = mstates m"
    "\<forall>k \<in> set els. mn \<le> buf ! k \<and> (buf ! k - mn) div step \<le> 131072"
  shows "\<exists>bo bs. place lowest new mn step els (m\<lparr>buffer := buf\<rparr>) = Inr (m\<lparr>buffer := buf, bucketOfElement := bo, bucketSizes := bs\<rparr>)
    \<and> counted (m\<lparr>buffer := buf, bucketOfElement := bo, bucketSizes := bs\<rparr>)
    \<and> (\<forall>k < nat (circular_buffersize m). bo ! k =
         (if k \<in> set els then lowest + min ((buf ! k - mn) div step) (new - 1) else bucketOfElement m ! k))"
proof -
  let ?m = "m\<lparr>buffer := buf\<rparr>"
  have c: "counted ?m" using assms(1,3) by (simp add: counted_def)
  have lim: "lowest + new \<le> 65536" "0 \<le> lowest" using assms(1,6,7) by (auto simp: counted_def)
  have v: "bucket_for lowest new mn step (buf ! k) = lowest + min ((buf ! k - mn) div step) (new - 1)"
    if "k \<in> set els" for k
    using assms(4,5,8) lim that by (intro bucket_for_value) auto
  have q: "0 \<le> (buf ! k - mn) div step" if "k \<in> set els" for k
    using assms(4,8) that by (simp add: pos_imp_zdiv_nonneg_iff)
  have p: "\<exists>bo bs. place lowest new mn step els ?m = Inr (?m\<lparr>bucketOfElement := bo, bucketSizes := bs\<rparr>)
    \<and> counted (?m\<lparr>bucketOfElement := bo, bucketSizes := bs\<rparr>)
    \<and> (\<forall>k < nat (circular_buffersize ?m).
         bo ! k = (if k \<in> set els then bucket_for lowest new mn step (buffer ?m ! k) else bucketOfElement ?m ! k))"
  proof (rule place_correct [OF c])
    show "distinct els" "\<forall>i \<in> set els. i < nat (circular_buffersize ?m) \<and> bucketOfElement ?m ! i = src"
      using elements_of_facts assms(2) by auto
    show "(lowest = 0 \<and> src = - 1) \<or> (0 < lowest \<and> src = lowest \<and> lowest < mstates ?m)"
      using assms(5-7) by auto
    show "\<forall>i \<in> set els. 0 \<le> bucket_for lowest new mn step (buffer ?m ! i)
        \<and> bucket_for lowest new mn step (buffer ?m ! i) < mstates ?m"
      using v q lim assms(5,7) by (auto simp: min_def)
  qed
  then obtain bo bs where r: "place lowest new mn step els ?m = Inr (?m\<lparr>bucketOfElement := bo, bucketSizes := bs\<rparr>)"
    "counted (?m\<lparr>bucketOfElement := bo, bucketSizes := bs\<rparr>)"
    "\<forall>k < nat (circular_buffersize ?m). bo ! k =
       (if k \<in> set els then bucket_for lowest new mn step (buffer ?m ! k) else bucketOfElement ?m ! k)"
    by blast
  show ?thesis using r v by (intro exI [of _ bo] exI [of _ bs]) simp
qed

text \<open>
  What a pass does that does not fail: it moves the elements of the bucket only, and either the bucket is
  split, or its elements stay together, their first one was not the smallest and is so now.
\<close>

definition moved :: "int \<Rightarrow> int \<Rightarrow> int \<Rightarrow> markov \<Rightarrow> markov \<Rightarrow> bool" where
  "moved src new lowest m m' \<longleftrightarrow>
     (let els = elements_of src m; n = nat (circular_buffersize m) in
      (\<exists>buf bo bs. m' = m\<lparr>buffer := buf, bucketOfElement := bo, bucketSizes := bs\<rparr>) \<and> counted m'
      \<and> (\<forall>k < n. k \<notin> set els \<longrightarrow> bucketOfElement m' ! k = bucketOfElement m ! k \<and> buffer m' ! k = buffer m ! k)
      \<and> (\<forall>k < n. buffer m ! k \<le> buffer m' ! k \<and> buffer m' ! k \<le> buffer m ! k + int n)
      \<and> (\<forall>k \<in> set els. lowest \<le> bucketOfElement m' ! k \<and> bucketOfElement m' ! k < mstates m)
      \<and> ((\<exists>k \<in> set els. \<exists>j \<in> set els. bucketOfElement m' ! k \<noteq> bucketOfElement m' ! j)
         \<or> (\<forall>k \<in> set els. \<forall>j \<in> set els. bucketOfElement m' ! k = bucketOfElement m' ! j
              \<and> buffer m ! k < buffer m ! j + new)
           \<and> (\<exists>j \<in> set els. buffer m ! j < buffer m ! hd els) \<and> (\<forall>j \<in> set els. buffer m' ! hd els \<le> buffer m' ! j)))"

lemma distribute_correct:
  assumes "counted m" "elements_of src m \<noteq> []" "2 \<le> new"
    "(lowest = 0 \<and> src = - 1) \<or> (0 < lowest \<and> src = lowest)" "lowest + new = mstates m"
    "\<forall>x \<in> set (buffer m). 0 \<le> x \<and> x \<le> LLONG_MAX"
  shows "MarkovModulatedProcess_distributeAllInBucket src new lowest m = Inl DivisionByZero
    \<or> (\<exists>m'. MarkovModulatedProcess_distributeAllInBucket src new lowest m = Inr m' \<and> moved src new lowest m m')"
proof -
  define els xs where "els = elements_of src m" and "xs = map ((!) (buffer m)) els"
  define mx mn where "mx = foldl (\<lambda>a x. if x > a then x else a) 0 xs"
    and "mn = foldl (\<lambda>a x. if x < a then x else a) LLONG_MAX xs"
  define n where "n = nat (circular_buffersize m)"
  define D where "D = mx - mn"
  have len: "length (buffer m) = n" "length (bucketOfElement m) = n" using assms(1) by (simp_all add: counted_lengths n_def)
  have els: "distinct els" "\<And>k. k \<in> set els \<Longrightarrow> k < n" "sorted els" "length els \<le> n" "els \<noteq> []"
    using elements_of_facts assms(2) by (auto simp: els_def n_def)
  have small: "new \<le> 65536" "n < 65536" using assms(1,4,5) by (auto simp: counted_def n_def)
  have "\<forall>x \<in> set xs. 0 \<le> x \<and> x \<le> LLONG_MAX" using assms(6) els(2) len by (auto simp: xs_def)
  then have ext: "mx \<in> set xs" "mn \<in> set xs" "\<And>x. x \<in> set xs \<Longrightarrow> mn \<le> x \<and> x \<le> mx"
    using extremes [of xs] els(5) by (auto simp: mx_def mn_def xs_def)
  have vals: "mn \<le> buffer m ! k" "buffer m ! k \<le> mx" if "k \<in> set els" for k
    using ext(3) that by (auto simp: xs_def)
  obtain kmin kmax where k: "kmin \<in> set els" "buffer m ! kmin = mn" "kmax \<in> set els" "buffer m ! kmax = mx"
    using ext(1,2) by (auto simp: xs_def)
  have D: "0 \<le> D" "D sdiv new = D div new" "int (length els) sdiv new = int (length els) div new"
    using vals(1) [OF k(3)] k(4) assms(3) by (auto simp: D_def signed_divide_int_def sgn_if)
  have dist: "MarkovModulatedProcess_distributeAllInBucket src new lowest m =
    (if D div new = 0
     then if int (length els) div new = 0 then Inl DivisionByZero
          else place lowest new mn (int (length els) div new) els (m\<lparr>buffer := spread 0 els (buffer m)\<rparr>)
     else place lowest new mn (D div new) els m)"
    using els(5) len D
    by (simp add: MarkovModulatedProcess_distributeAllInBucket_def Let_def els_def [symmetric] xs_def [symmetric]
        mx_def [symmetric] mn_def [symmetric] n_def [symmetric] D_def [symmetric])
  have settled: "moved src new lowest m (m\<lparr>buffer := buf, bucketOfElement := bo, bucketSizes := bs\<rparr>)"
    if c: "counted (m\<lparr>buffer := buf, bucketOfElement := bo, bucketSizes := bs\<rparr>)"
      and bo: "\<forall>k < n. bo ! k = (if k \<in> set els then lowest + min ((buf ! k - mn) div step) (new - 1) else bucketOfElement m ! k)"
      and step: "0 < step"
      and buf: "\<And>k. k < n \<Longrightarrow> buffer m ! k \<le> buf ! k \<and> buf ! k \<le> buffer m ! k + int n"
        "\<And>k. k < n \<Longrightarrow> k \<notin> set els \<Longrightarrow> buf ! k = buffer m ! k"
      and split: "(\<exists>k \<in> set els. \<exists>j \<in> set els. min ((buf ! k - mn) div step) (new - 1) \<noteq> min ((buf ! j - mn) div step) (new - 1))
        \<or> (D < new \<and> mn < buffer m ! hd els \<and> (\<forall>j \<in> set els. buf ! hd els \<le> buf ! j))" for buf bo bs step
  proof -
    have label: "bo ! k = lowest + min ((buf ! k - mn) div step) (new - 1)" if "k \<in> set els" for k
      using bo els(2) [OF that] that by simp
    have range: "lowest \<le> bo ! k \<and> bo ! k < mstates m" if "k \<in> set els" for k
    proof -
      have "mn \<le> buf ! k" using buf(1) [OF els(2) [OF that]] vals(1) [OF that] by linarith
      then have "0 \<le> (buf ! k - mn) div step" using step by (simp add: pos_imp_zdiv_nonneg_iff)
      then show ?thesis using assms(3,5) unfolding label [OF that] by linarith
    qed
    have close: "buffer m ! k < buffer m ! j + new" if "D < new" "k \<in> set els" "j \<in> set els" for k j
      using that vals unfolding D_def by (smt (verit))
    show ?thesis
      unfolding moved_def Let_def els_def [symmetric] n_def [symmetric]
    proof (intro conjI)
      show "\<exists>buf' bo' bs'. m\<lparr>buffer := buf, bucketOfElement := bo, bucketSizes := bs\<rparr>
          = m\<lparr>buffer := buf', bucketOfElement := bo', bucketSizes := bs'\<rparr>" by blast
      let ?m = "m\<lparr>buffer := buf, bucketOfElement := bo, bucketSizes := bs\<rparr>"
      show "(\<exists>k \<in> set els. \<exists>j \<in> set els. bucketOfElement ?m ! k \<noteq> bucketOfElement ?m ! j)
         \<or> (\<forall>k \<in> set els. \<forall>j \<in> set els. bucketOfElement ?m ! k = bucketOfElement ?m ! j
              \<and> buffer m ! k < buffer m ! j + new)
           \<and> (\<exists>j \<in> set els. buffer m ! j < buffer m ! hd els) \<and> (\<forall>j \<in> set els. buffer ?m ! hd els \<le> buffer ?m ! j)"
      proof (cases "\<exists>k \<in> set els. \<exists>j \<in> set els. bo ! k \<noteq> bo ! j")
        case False
        then have same: "\<forall>k \<in> set els. \<forall>j \<in> set els. bo ! k = bo ! j" by blast
        have "min ((buf ! k - mn) div step) (new - 1) = min ((buf ! j - mn) div step) (new - 1)"
          if "k \<in> set els" "j \<in> set els" for k j
          using same [rule_format, OF that] unfolding label [OF that(1)] label [OF that(2)] by linarith
        then have first: "D < new" "mn < buffer m ! hd els" "\<forall>j \<in> set els. buf ! hd els \<le> buf ! j"
          using split by blast+
        show ?thesis
        proof (rule disjI2, intro conjI ballI)
          show "\<exists>j \<in> set els. buffer m ! j < buffer m ! hd els" using k(1,2) first(2) by auto
          fix k j
          assume kj: "k \<in> set els" "j \<in> set els"
          show "bucketOfElement ?m ! k = bucketOfElement ?m ! j" using same [rule_format, OF kj] by simp
          show "buffer m ! k < buffer m ! j + new" using close [OF first(1) kj] .
        next
          fix j
          assume "j \<in> set els"
          then show "buffer ?m ! hd els \<le> buffer ?m ! j" using first(3) by simp
        qed
      qed auto
    qed (use c bo buf range in auto)
  qed
  show ?thesis
  proof (cases "D div new = 0")
    case True
    define cnt where "cnt = int (length els)"
    define step where "step = cnt div new"
    define buf where "buf = spread 0 els (buffer m)"
    have Dnew: "D < new" using True D(1) assms(3) by (auto simp: zdiv_eq_0_iff)
    show ?thesis
    proof (cases "step = 0")
      case False
      have cnt: "1 \<le> cnt" "cnt \<le> int n" using els by (auto simp: cnt_def Suc_le_eq)
      have step: "0 < step" "step * new \<le> cnt"
      proof -
        have "0 \<le> cnt div new" using cnt(1) assms(3) by (simp add: pos_imp_zdiv_nonneg_iff)
        then show "0 < step" using False unfolding step_def by linarith
        have "0 \<le> cnt mod new" using assms(3) by simp
        then show "step * new \<le> cnt" using div_mult_mod_eq [of cnt new] unfolding step_def by linarith
      qed
      have bufs: "buffer m ! k \<le> buf ! k \<and> buf ! k \<le> buffer m ! k + int n" if "k < n" for k
        using spread_bounds [OF els(1), of "buffer m" k] els(2,4) len that unfolding buf_def by force
      have other: "buf ! k = buffer m ! k" if "k \<notin> set els" for k
        using spread_other that unfolding buf_def by blast
      have nthb: "buf ! (els ! p) = buffer m ! (els ! p) + int p" if "p < length els" for p
        using spread_nth [OF els(1) that, of "buffer m" 0] els(2) len unfolding buf_def by simp
      have q: "mn \<le> buf ! k \<and> (buf ! k - mn) div step \<le> 131072" if "k \<in> set els" for k
      proof -
        have "0 \<le> buf ! k - mn" "buf ! k - mn \<le> 131072"
          using bufs [OF els(2) [OF that]] vals [OF that] Dnew small unfolding D_def by linarith+
        moreover have "(buf ! k - mn) div step \<le> buf ! k - mn"
          using calculation(1) step(1) by (rule quotient_le)
        ultimately show ?thesis by linarith
      qed
      obtain bo bs where p: "place lowest new mn step els (m\<lparr>buffer := buf\<rparr>) = Inr (m\<lparr>buffer := buf, bucketOfElement := bo, bucketSizes := bs\<rparr>)"
        "counted (m\<lparr>buffer := buf, bucketOfElement := bo, bucketSizes := bs\<rparr>)"
        "\<forall>k < n. bo ! k = (if k \<in> set els then lowest + min ((buf ! k - mn) div step) (new - 1) else bucketOfElement m ! k)"
        using place_split [OF assms(1) els_def _ step(1) assms(3-5), of buf mn] q
        unfolding n_def [symmetric] by (auto simp: buf_def)
      have last_one: "last els \<in> set els" "buf ! last els = buffer m ! last els + cnt - 1"
        using els(5) nthb [of "length els - 1"] by (auto simp: last_conv_nth cnt_def of_nat_diff Suc_le_eq)
      have first_one: "hd els \<in> set els" "buf ! hd els = buffer m ! hd els"
        using els(5) nthb [of 0] by (auto simp: hd_conv_nth)
      have "new - 1 \<le> (buf ! last els - mn) div step"
      proof -
        have "step * new - 1 \<le> buf ! last els - mn" using last_one vals(1) [of "last els"] step(2) by linarith
        moreover have "(new - 1) * step \<le> step * new - 1" using step(1) by (simp add: algebra_simps)
        ultimately have "(new - 1) * step \<le> buf ! last els - mn" by linarith
        then show ?thesis using step(1) by (metis nonzero_mult_div_cancel_right zdiv_mono1 order_less_irrefl)
      qed
      then have top: "min ((buf ! last els - mn) div step) (new - 1) = new - 1" by simp
      have split: "(\<exists>k \<in> set els. \<exists>j \<in> set els. min ((buf ! k - mn) div step) (new - 1) \<noteq> min ((buf ! j - mn) div step) (new - 1))
        \<or> (D < new \<and> mn < buffer m ! hd els \<and> (\<forall>j \<in> set els. buf ! hd els \<le> buf ! j))"
      proof (rule disj_imp [THEN iffD2], rule impI)
        assume together: "\<not> (\<exists>k \<in> set els. \<exists>j \<in> set els. min ((buf ! k - mn) div step) (new - 1) \<noteq> min ((buf ! j - mn) div step) (new - 1))"
        have above: "mn + (new - 1) \<le> buf ! j" if "j \<in> set els" for j
        proof -
          have "min ((buf ! j - mn) div step) (new - 1) = new - 1" using together that last_one(1) top by metis
          then have "new - 1 \<le> (buf ! j - mn) div step" by linarith
          moreover have "(buf ! j - mn) div step \<le> buf ! j - mn"
            using bufs [OF els(2) [OF that]] vals(1) [OF that] step(1) by (intro quotient_le) linarith+
          ultimately show ?thesis by linarith
        qed
        have "buffer m ! hd els \<le> mn + (new - 1)" using vals(2) [OF first_one(1)] Dnew unfolding D_def by linarith
        then have "buf ! hd els \<le> buf ! j" if "j \<in> set els" for j using above [OF that] first_one(2) by linarith
        moreover have "mn < buffer m ! hd els" using above [OF first_one(1)] first_one(2) assms(3) by linarith
        ultimately show "D < new \<and> mn < buffer m ! hd els \<and> (\<forall>j \<in> set els. buf ! hd els \<le> buf ! j)"
          using Dnew by blast
      qed
      show ?thesis
        using dist True False p(1) settled [OF p(2,3) step(1) bufs other split]
        by (auto simp: step_def cnt_def buf_def)
    qed (use dist True in \<open>simp add: step_def cnt_def\<close>)
  next
    case False
    define step where "step = D div new"
    have step: "0 < step" using False D(1) assms(3) by (simp add: step_def pos_imp_zdiv_nonneg_iff order.strict_iff_order)
    have Dstep: "new \<le> D div step" "D div step \<le> 2 * new"
      using quotient_of_quotient [of D new] step assms(3) by (auto simp: step_def)
    have q: "mn \<le> buffer m ! k \<and> (buffer m ! k - mn) div step \<le> 131072" if "k \<in> set els" for k
    proof -
      have "(buffer m ! k - mn) div step \<le> D div step"
        using vals [OF that] step by (intro zdiv_mono1) (auto simp: D_def)
      then show ?thesis using Dstep vals [OF that] small by linarith
    qed
    obtain bo bs where p: "place lowest new mn step els (m\<lparr>buffer := buffer m\<rparr>) = Inr (m\<lparr>buffer := buffer m, bucketOfElement := bo, bucketSizes := bs\<rparr>)"
      "counted (m\<lparr>buffer := buffer m, bucketOfElement := bo, bucketSizes := bs\<rparr>)"
      "\<forall>k < n. bo ! k = (if k \<in> set els then lowest + min ((buffer m ! k - mn) div step) (new - 1) else bucketOfElement m ! k)"
      using place_split [OF assms(1) els_def refl step assms(3-5), of mn] q
      unfolding n_def [symmetric] by blast
    have "min ((buffer m ! kmin - mn) div step) (new - 1) \<noteq> min ((buffer m ! kmax - mn) div step) (new - 1)"
      using k Dstep assms(3) by (simp add: D_def)
    then have split: "(\<exists>k \<in> set els. \<exists>j \<in> set els. min ((buffer m ! k - mn) div step) (new - 1) \<noteq> min ((buffer m ! j - mn) div step) (new - 1))
        \<or> (D < new \<and> mn < buffer m ! hd els \<and> (\<forall>j \<in> set els. buffer m ! hd els \<le> buffer m ! j))"
      using k(1,3) by blast
    have "moved src new lowest m (m\<lparr>buffer := buffer m, bucketOfElement := bo, bucketSizes := bs\<rparr>)"
      by (rule settled [OF p(2,3) step _ _ split]) auto
    then show ?thesis using dist False p(1) by (simp add: step_def)
  qed
qed

section \<open>Relabelling\<close>

definition labelled :: "markov \<Rightarrow> bool" where
  "labelled m \<longleftrightarrow> (\<forall>k < nat (circular_buffersize m). 0 \<le> bucketOfElement m ! k \<and> bucketOfElement m ! k < mstates m)"

text \<open>Two labellings with the same classes, up to the names of the labels.\<close>

definition relabelled :: "markov \<Rightarrow> markov \<Rightarrow> bool" where
  "relabelled m m' \<longleftrightarrow> (\<exists>bo bs. m' = m\<lparr>bucketOfElement := bo, bucketSizes := bs\<rparr>) \<and> counted m' \<and> labelled m'
     \<and> mset (bucketSizes m') = mset (bucketSizes m)
     \<and> (\<forall>k < nat (circular_buffersize m). \<forall>j < nat (circular_buffersize m).
          bucketOfElement m' ! k = bucketOfElement m' ! j \<longleftrightarrow> bucketOfElement m ! k = bucketOfElement m ! j)"

lemma relabelled_refl: "counted m \<Longrightarrow> labelled m \<Longrightarrow> relabelled m m"
proof -
  have "m\<lparr>bucketOfElement := bucketOfElement m, bucketSizes := bucketSizes m\<rparr> = m" by simp
  then have "\<exists>bo bs. m = m\<lparr>bucketOfElement := bo, bucketSizes := bs\<rparr>" by metis
  then show "counted m \<Longrightarrow> labelled m \<Longrightarrow> relabelled m m" unfolding relabelled_def by blast
qed

lemma relabelled_fields:
  assumes "relabelled m m'"
  shows "buffer m' = buffer m" "circular_buffersize m' = circular_buffersize m" "mstates m' = mstates m"
    "counted m'" "labelled m'"
  using assms unfolding relabelled_def by auto

lemma relabelled_trans:
  assumes "relabelled m m1" "relabelled m1 m2"
  shows "relabelled m m2"
proof -
  have "\<exists>bo bs. m2 = m\<lparr>bucketOfElement := bo, bucketSizes := bs\<rparr>"
    using assms unfolding relabelled_def by fastforce
  moreover have "circular_buffersize m1 = circular_buffersize m" using relabelled_fields [OF assms(1)] by simp
  ultimately show ?thesis using assms unfolding relabelled_def by simp
qed

definition swap_labels :: "nat \<Rightarrow> nat \<Rightarrow> markov \<Rightarrow> markov" where
  "swap_labels i j m =
     m\<lparr>bucketOfElement := map (\<lambda>b. if b = int i then int j else if b = int j then int i else b) (bucketOfElement m),
       bucketSizes := (bucketSizes m)[i := bucketSizes m ! j, j := bucketSizes m ! i]\<rparr>"

lemma swap_labels_relabelled:
  assumes "counted m" "labelled m" "i < nat (mstates m)" "j < nat (mstates m)"
  shows "relabelled m (swap_labels i j m)"
proof -
  let ?p = "\<lambda>b. if b = int i then int j else if b = int j then int i else b"
  have count: "count_list (map ?p (bucketOfElement m)) x = count_list (bucketOfElement m) (?p x)" for x
    by (rule count_list_involution) auto
  have "(bucketSizes m)[i := bucketSizes m ! j, j := bucketSizes m ! i] ! k = int (count_list (bucketOfElement m) (?p (int k)))"
    if "k < nat (mstates m)" for k
    using assms(1,3,4) that by (auto simp: counted_def nth_list_update)
  then have c: "counted (swap_labels i j m)"
    using assms(1) by (simp add: counted_def swap_labels_def count)
  have inj: "?p a = ?p b \<longleftrightarrow> a = b" for a b by auto
  have "labelled (swap_labels i j m)"
    using assms by (auto simp: labelled_def swap_labels_def counted_lengths)
  moreover have "mset (bucketSizes (swap_labels i j m)) = mset (bucketSizes m)"
    using assms by (simp add: swap_labels_def mset_swap counted_lengths)
  ultimately show ?thesis
    using c assms(1) unfolding relabelled_def by (auto simp: swap_labels_def counted_lengths inj)
qed

lemma full_buckets_mset: "full_buckets m = int (size (filter_mset (\<lambda>s. s \<noteq> 0) (mset (bucketSizes m))))"
  by (simp add: full_buckets_def flip: mset_filter)

lemma relabelled_full: "relabelled m m' \<Longrightarrow> full_buckets m' = full_buckets m"
  by (simp add: relabelled_def full_buckets_mset)

lemma size_zero_iff:
  assumes "counted m" "i < nat (mstates m)"
  shows "bucketSizes m ! i = 0 \<longleftrightarrow> int i \<notin> set (bucketOfElement m)"
  using assms by (simp add: counted_def count_list_0_iff)

lemma full_buckets_card: "counted m \<Longrightarrow> labelled m \<Longrightarrow> full_buckets m = int (card (set (bucketOfElement m)))"
proof -
  assume c: "counted m" "labelled m"
  have "{i. i < nat (mstates m) \<and> bucketSizes m ! i \<noteq> 0} = nat ` set (bucketOfElement m)"
  proof (intro set_eqI iffI)
    fix i
    assume "i \<in> nat ` set (bucketOfElement m)"
    then obtain k where "k < nat (circular_buffersize m)" "i = nat (bucketOfElement m ! k)"
      using c(1) by (auto simp: in_set_conv_nth counted_lengths)
    then show "i \<in> {i. i < nat (mstates m) \<and> bucketSizes m ! i \<noteq> 0}"
      using c size_zero_iff [OF c(1), of i] by (auto simp: labelled_def counted_lengths)
  next
    fix i
    assume "i \<in> {i. i < nat (mstates m) \<and> bucketSizes m ! i \<noteq> 0}"
    then have "int i \<in> set (bucketOfElement m)" using size_zero_iff [OF c(1)] by blast
    then show "i \<in> nat ` set (bucketOfElement m)" by (metis image_eqI nat_int)
  qed
  moreover have "0 \<le> x" if "x \<in> set (bucketOfElement m)" for x
    using c that by (auto simp: labelled_def in_set_conv_nth counted_lengths)
  then have "inj_on nat (set (bucketOfElement m))" by (simp add: inj_on_def eq_nat_nat_iff)
  ultimately show ?thesis
    using c(1) by (simp add: full_buckets_def length_filter_conv_card counted_lengths card_image)
qed

text \<open>The nonempty buckets come first.\<close>

definition front :: "nat \<Rightarrow> markov \<Rightarrow> bool" where
  "front n m \<longleftrightarrow> (\<forall>k < n. bucketSizes m ! k = 0 \<longrightarrow> (\<forall>j < nat (mstates m). k \<le> j \<longrightarrow> bucketSizes m ! j = 0))"

lemma last_full_Some: "last_full sizes i J = Some j \<Longrightarrow> i < j \<and> j \<le> J \<and> sizes ! j \<noteq> 0"
  by (induction sizes i J rule: last_full.induct) (auto split: if_splits)

lemma last_full_None: "last_full sizes i J = None \<Longrightarrow> i < j \<Longrightarrow> j \<le> J \<Longrightarrow> sizes ! j = 0"
  by (induction sizes i J rule: last_full.induct) (auto split: if_splits simp: le_Suc_eq)

lemma move_bucket_correct:
  assumes "counted m" "labelled m" "front i m" "Suc i < nat (mstates m)"
  shows "relabelled m (move_bucket i m)" "front (Suc i) (move_bucket i m)"
proof -
  have "relabelled m (move_bucket i m) \<and> front (Suc i) (move_bucket i m)"
  proof (cases "bucketSizes m ! i = 0")
    case False
    then have "front (Suc i) m" using assms(3) by (auto simp: front_def less_Suc_eq)
    with False show ?thesis by (simp add: move_bucket_def relabelled_refl assms)
  next
    case empty: True
    show ?thesis
    proof (cases "last_full (bucketSizes m) i (nat (mstates m) - 1)")
      case None
      then have "bucketSizes m ! j = 0" if "i \<le> j" "j < nat (mstates m)" for j
        using that last_full_None [OF None, of j] empty by (cases "j = i") auto
      then have "front (Suc i) m" using assms(3) by (auto simp: front_def less_Suc_eq)
      with None empty show ?thesis by (simp add: move_bucket_def relabelled_refl assms)
    next
      case (Some j)
      note j = last_full_Some [OF Some]
      have jK: "j < nat (mstates m)" using j assms(4) by linarith
      have "int i \<notin> set (bucketOfElement m)" using size_zero_iff assms(1,4) empty by simp
      then have m: "move_bucket i m = swap_labels i j m"
        using Some empty by (auto simp: move_bucket_def swap_labels_def intro!: arg_cong2 [where f = "\<lambda>a b. m\<lparr>bucketOfElement := a, bucketSizes := b\<rparr>"])
      have "bucketSizes m ! k \<noteq> 0" if "k < i" for k
        using assms(3) that j jK by (auto simp: front_def)
      then have "bucketSizes (swap_labels i j m) ! k \<noteq> 0" if "k < Suc i" for k
        using that j jK assms(1,4) by (auto simp: swap_labels_def nth_list_update counted_lengths less_Suc_eq)
      then have "front (Suc i) (swap_labels i j m)" by (simp add: front_def)
      then show ?thesis using swap_labels_relabelled [OF assms(1,2) _ jK] assms(4) m by simp
    qed
  qed
  then show "relabelled m (move_bucket i m)" "front (Suc i) (move_bucket i m)" by simp_all
qed

lemma compact_buckets_correct:
  assumes "counted m" "labelled m" "0 < mstates m"
  shows "relabelled m (compact_buckets m)" "front (nat (mstates m)) (compact_buckets m)"
proof -
  let ?go = "\<lambda>n. foldl (\<lambda>m i. move_bucket i m) m [0..<n]"
  have step: "relabelled m (?go n) \<and> front n (?go n)" if "n < nat (mstates m)" for n
    using that
  proof (induction n)
    case 0
    show ?case using assms by (simp add: relabelled_refl front_def)
  next
    case (Suc n)
    then have r: "relabelled m (?go n)" "front n (?go n)" by auto
    then have "relabelled (?go n) (move_bucket n (?go n)) \<and> front (Suc n) (move_bucket n (?go n))"
      using move_bucket_correct [of "?go n" n] relabelled_fields [OF r(1)] Suc.prems by auto
    then show ?case using r(1) relabelled_trans by auto
  qed
  have "nat (mstates m) - 1 < nat (mstates m)" using assms(3) by simp
  note last_step = step [OF this]
  then show "relabelled m (compact_buckets m)" by (simp add: compact_buckets_def)
  have "j = nat (mstates m) - Suc 0" if "j < nat (mstates m)" "nat (mstates m) - Suc 0 \<le> j" for j
    using that by linarith
  then have "front (Suc (nat (mstates m) - 1)) (compact_buckets m)"
    using last_step relabelled_fields(3) [of m "compact_buckets m"]
    by (auto simp: compact_buckets_def front_def less_Suc_eq)
  then show "front (nat (mstates m)) (compact_buckets m)" using assms(3) by simp
qed

section \<open>The loop\<close>

text \<open>The labels in use are those below \<open>f\<close>.\<close>

definition occupied :: "int \<Rightarrow> markov \<Rightarrow> bool" where
  "occupied f m \<longleftrightarrow> counted m \<and> labelled m \<and> set (bucketOfElement m) = {0..<f}"

lemma front_occupied:
  assumes "counted m" "labelled m" "front (nat (mstates m)) m"
  shows "occupied (full_buckets m) m"
proof -
  let ?L = "set (bucketOfElement m)"
  have range: "0 \<le> x \<and> x < mstates m" if "x \<in> ?L" for x
    using that assms(1,2) by (auto simp: in_set_conv_nth labelled_def counted_lengths)
  have down: "y \<in> ?L" if "x \<in> ?L" "0 \<le> y" "y \<le> x" for x y
  proof (rule ccontr)
    assume "y \<notin> ?L"
    have xy: "nat x < nat (mstates m)" "nat y < nat (mstates m)" "nat y \<le> nat x" using range [OF that(1)] that by auto
    with \<open>y \<notin> ?L\<close> have "bucketSizes m ! nat y = 0" using size_zero_iff [OF assms(1) xy(2)] that(2) by simp
    then have "bucketSizes m ! nat x = 0" using assms(3) xy unfolding front_def by blast
    then show False using size_zero_iff [OF assms(1) xy(1)] that by simp
  qed
  have "?L = {0..<int (card ?L)}"
  proof (cases "?L = {}")
    case False
    define x where "x = Max ?L"
    have x: "x \<in> ?L" "\<And>y. y \<in> ?L \<Longrightarrow> y \<le> x" unfolding x_def using False by auto
    have "?L = {0..<x + 1}"
    proof (intro set_eqI iffI)
      fix y
      assume "y \<in> ?L"
      then show "y \<in> {0..<x + 1}" using x(2) range by simp
    next
      fix y
      assume "y \<in> {0..<x + 1}"
      then show "y \<in> ?L" by (intro down [OF x(1)]) simp_all
    qed
    moreover from this have "int (card ?L) = x + 1" using range [OF x(1)] by simp
    ultimately show ?thesis by simp
  qed simp
  then show ?thesis using assms by (simp add: occupied_def full_buckets_card)
qed

text \<open>Buckets whose first element is not their smallest.\<close>

definition unordered :: "markov \<Rightarrow> nat set" where
  "unordered m = {k. k < nat (circular_buffersize m) \<and> (\<forall>j < k. bucketOfElement m ! j \<noteq> bucketOfElement m ! k)
     \<and> (\<exists>j < nat (circular_buffersize m). bucketOfElement m ! j = bucketOfElement m ! k \<and> buffer m ! j < buffer m ! k)}"

lemma unordered_card: "finite (unordered m)" "card (unordered m) \<le> nat (circular_buffersize m)"
proof -
  have "unordered m \<subseteq> {..<nat (circular_buffersize m)}" by (auto simp: unordered_def)
  then show "finite (unordered m)" "card (unordered m) \<le> nat (circular_buffersize m)"
    using finite_subset card_mono [of "{..<nat (circular_buffersize m)}" "unordered m"] by auto
qed

lemma relabelled_unordered: "relabelled m m' \<Longrightarrow> unordered m' = unordered m"
proof -
  assume r: "relabelled m m'"
  have same: "bucketOfElement m' ! k = bucketOfElement m' ! j \<longleftrightarrow> bucketOfElement m ! k = bucketOfElement m ! j"
    if "k < nat (circular_buffersize m)" "j < nat (circular_buffersize m)" for k j
    using r that unfolding relabelled_def by blast
  show ?thesis
    unfolding unordered_def relabelled_fields [OF r]
    using same order.strict_trans by (auto cong: conj_cong)
qed

definition potential :: "markov \<Rightarrow> nat" where
  "potential m = nat (mstates m - full_buckets m) * (nat (circular_buffersize m) + 1) + card (unordered m)"

lemma moved_fields:
  assumes "moved src new lowest m m'"
  shows "circular_buffersize m' = circular_buffersize m" "mstates m' = mstates m" "counted m'"
proof -
  obtain buf bo bs where "m' = m\<lparr>buffer := buf, bucketOfElement := bo, bucketSizes := bs\<rparr>" "counted m'"
    using assms unfolding moved_def Let_def by blast
  then show "circular_buffersize m' = circular_buffersize m" "mstates m' = mstates m" "counted m'" by simp_all
qed

lemma moved_labelled:
  assumes "moved (f - 1) new (f - 1) m m'" "labelled m" "1 \<le> f"
  shows "labelled m'"
proof -
  have "0 \<le> bucketOfElement m' ! k \<and> bucketOfElement m' ! k < mstates m" if "k < nat (circular_buffersize m)" for k
  proof (cases "k \<in> set (elements_of (f - 1) m)")
    case True
    then have "f - 1 \<le> bucketOfElement m' ! k \<and> bucketOfElement m' ! k < mstates m"
      using assms(1) by (simp add: moved_def Let_def)
    then show ?thesis using assms(3) by linarith
  next
    case False
    then have "bucketOfElement m' ! k = bucketOfElement m ! k" using assms(1) that by (simp add: moved_def Let_def)
    then show ?thesis using assms(2) that by (simp add: labelled_def)
  qed
  then show ?thesis using moved_fields [OF assms(1)] by (simp add: labelled_def)
qed

lemma moved_labels:
  assumes "moved (f - 1) new (f - 1) m m'" "occupied f m" "1 \<le> f"
  shows "\<exists>S. S \<noteq> {} \<and> S \<subseteq> {f - 1..} \<and> set (bucketOfElement m') = {0..<f - 1} \<union> S
    \<and> ((\<exists>k \<in> set (elements_of (f - 1) m). \<exists>j \<in> set (elements_of (f - 1) m). bucketOfElement m' ! k \<noteq> bucketOfElement m' ! j) \<longrightarrow> 2 \<le> card S)"
proof -
  let ?els = "set (elements_of (f - 1) m)"
  let ?n = "nat (circular_buffersize m)"
  let ?S = "(\<lambda>k. bucketOfElement m' ! k) ` ?els"
  have len: "length (bucketOfElement m) = ?n" "length (bucketOfElement m') = ?n"
    using assms(2) moved_fields [OF assms(1)] by (auto simp: occupied_def counted_lengths)
  have other: "bucketOfElement m' ! k = bucketOfElement m ! k" if "k < ?n" "k \<notin> ?els" for k
    using assms(1) that by (simp add: moved_def Let_def)
  have els: "k \<in> ?els \<longleftrightarrow> k < ?n \<and> bucketOfElement m ! k = f - 1" for k by (rule elements_of_facts)
  have L: "set (bucketOfElement m) = {0..<f}" using assms(2) by (simp add: occupied_def)
  have "f - 1 \<in> set (bucketOfElement m)" using L assms(3) by simp
  then have "?els \<noteq> {}" using els len by (auto simp: in_set_conv_nth)
  moreover have "?S \<subseteq> {f - 1..}" using assms(1) by (auto simp: moved_def Let_def)
  moreover have "set (bucketOfElement m') = {0..<f - 1} \<union> ?S"
  proof (intro set_eqI iffI)
    fix x
    assume "x \<in> set (bucketOfElement m')"
    then obtain k where k: "k < ?n" "x = bucketOfElement m' ! k" using len by (auto simp: in_set_conv_nth)
    show "x \<in> {0..<f - 1} \<union> ?S"
    proof (cases "k \<in> ?els")
      case False
      then have "x = bucketOfElement m ! k" "bucketOfElement m ! k \<noteq> f - 1" using k other els by auto
      moreover have "bucketOfElement m ! k \<in> {0..<f}" using L k(1) len nth_mem by metis
      ultimately show ?thesis by auto
    qed (use k in auto)
  next
    fix x
    assume "x \<in> {0..<f - 1} \<union> ?S"
    then show "x \<in> set (bucketOfElement m')"
    proof
      assume x: "x \<in> {0..<f - 1}"
      then have "x \<in> set (bucketOfElement m)" using L by simp
      then obtain k where "k < ?n" "bucketOfElement m ! k = x" using len by (auto simp: in_set_conv_nth)
      then show ?thesis using x other [of k] els [of k] len by (auto simp: in_set_conv_nth)
    qed (use els len in \<open>auto simp: in_set_conv_nth\<close>)
  qed
  moreover have "2 \<le> card ?S" if "k \<in> ?els" "j \<in> ?els" "bucketOfElement m' ! k \<noteq> bucketOfElement m' ! j" for k j
  proof -
    have "card {bucketOfElement m' ! k, bucketOfElement m' ! j} \<le> card ?S" using that by (intro card_mono) auto
    then show ?thesis using that(3) by simp
  qed
  ultimately show ?thesis by (intro exI [of _ ?S]) auto
qed

lemma moved_together_unordered:
  assumes "moved (f - 1) new (f - 1) m m'" "occupied f m" "1 \<le> f"
    "\<not> (\<exists>k \<in> set (elements_of (f - 1) m). \<exists>j \<in> set (elements_of (f - 1) m). bucketOfElement m' ! k \<noteq> bucketOfElement m' ! j)"
  shows "unordered m' \<subset> unordered m"
proof -
  define els where "els = elements_of (f - 1) m"
  let ?n = "nat (circular_buffersize m)"
  have n: "nat (circular_buffersize m') = ?n" using moved_fields [OF assms(1)] by simp
  have len: "length (bucketOfElement m) = ?n" using assms(2) by (auto simp: occupied_def counted_lengths)
  have other: "bucketOfElement m' ! k = bucketOfElement m ! k" "buffer m' ! k = buffer m ! k" if "k < ?n" "k \<notin> set els" for k
    using assms(1) that by (simp_all add: moved_def Let_def els_def)
  have els: "k \<in> set els \<longleftrightarrow> k < ?n \<and> bucketOfElement m ! k = f - 1" "sorted els" for k
    unfolding els_def by (rule elements_of_facts)+
  have moved_up: "f - 1 \<le> bucketOfElement m' ! k" if "k \<in> set els" for k
    using assms(1) that by (simp add: moved_def Let_def els_def)
  have "f - 1 \<in> set (bucketOfElement m)" using assms(2,3) by (simp add: occupied_def)
  then have ne: "els \<noteq> []" using els(1) len by (fastforce simp: in_set_conv_nth)
  have low: "bucketOfElement m ! k < f - 1" if "k < ?n" "k \<notin> set els" for k
  proof -
    have "bucketOfElement m ! k \<in> {0..<f}" using assms(2) that(1) len nth_mem unfolding occupied_def by metis
    then show ?thesis using els(1) [of k] that by auto
  qed
  have hd: "hd els \<in> set els" "\<And>k. k \<in> set els \<Longrightarrow> hd els \<le> k"
    using ne els(2) by (cases els; auto)+
  have together: "bucketOfElement m' ! k = bucketOfElement m' ! j" if "k \<in> set els" "j \<in> set els" for k j
    using assms(4) that unfolding els_def by blast
  have first: "\<exists>j \<in> set els. buffer m ! j < buffer m ! hd els" "\<And>j. j \<in> set els \<Longrightarrow> buffer m' ! hd els \<le> buffer m' ! j"
    using assms(1,4) unfolding moved_def Let_def els_def by blast+
  have sub: "k \<in> unordered m \<and> k \<noteq> hd els" if k: "k \<in> unordered m'" for k
  proof -
    obtain j where kj: "k < ?n" "\<And>i. i < k \<Longrightarrow> bucketOfElement m' ! i \<noteq> bucketOfElement m' ! k" "j < ?n"
      "bucketOfElement m' ! j = bucketOfElement m' ! k" "buffer m' ! j < buffer m' ! k"
      using k n by (auto simp: unordered_def)
    have out: "k \<notin> set els"
    proof
      assume kin: "k \<in> set els"
      then have "k = hd els" using kj(2) [of "hd els"] together [OF hd(1) kin] hd(2) [OF kin] by fastforce
      moreover have "j \<in> set els"
        using kj(3,4) other(1) [of j] low [of j] moved_up [OF kin] by fastforce
      ultimately show False using first(2) [of j] kj(5) by simp
    qed
    then have jout: "j \<notin> set els"
      using kj(1,4) other(1) [of k] low [of k] moved_up [of j] by fastforce
    have "bucketOfElement m ! i \<noteq> bucketOfElement m ! k" if "i < k" for i
      using kj(1,2) that out other(1) [of i] other(1) [of k] els(1) [of i] els(1) [of k] by fastforce
    then have "k \<in> unordered m"
      using kj jout out other [of j] other [of k] by (auto simp: unordered_def)
    then show ?thesis using out hd(1) by blast
  qed
  moreover have "hd els \<in> unordered m"
  proof -
    have "bucketOfElement m ! i \<noteq> bucketOfElement m ! hd els" if "i < hd els" for i
      using that hd els(1) [of i] els(1) [of "hd els"] by fastforce
    then show ?thesis using hd(1) first(1) els(1) by (auto simp: unordered_def)
  qed
  ultimately show ?thesis by blast
qed

lemma full_buckets_le: "counted m \<Longrightarrow> full_buckets m \<le> mstates m"
  using length_filter_le [of "\<lambda>s. s \<noteq> 0" "bucketSizes m"] by (auto simp: full_buckets_def counted_def)

lemma occupied_full: "occupied f m \<Longrightarrow> 0 \<le> f \<Longrightarrow> full_buckets m = f"
  by (simp add: occupied_def full_buckets_card)

lemma relabelled_potential: "relabelled m m' \<Longrightarrow> potential m' = potential m"
  by (simp add: potential_def relabelled_full relabelled_unordered relabelled_fields)

text \<open>Every pass either fills one more bucket or puts one more bucket in order.\<close>

lemma pass_progress:
  assumes "moved (f - 1) new (f - 1) m m'" "occupied f m" "2 \<le> f"
  shows "potential m' < potential m" "f \<le> full_buckets m'"
proof -
  have m': "counted m'" "labelled m'" "mstates m' = mstates m" "circular_buffersize m' = circular_buffersize m"
    using moved_fields [OF assms(1)] moved_labelled [OF assms(1)] assms(2,3) by (auto simp: occupied_def)
  have "1 \<le> f" using assms(3) by linarith
  from moved_labels [OF assms(1,2) this]
  obtain S where conj: "S \<noteq> {} \<and> S \<subseteq> {f - 1..} \<and> set (bucketOfElement m') = {0..<f - 1} \<union> S
    \<and> ((\<exists>k \<in> set (elements_of (f - 1) m). \<exists>j \<in> set (elements_of (f - 1) m). bucketOfElement m' ! k \<noteq> bucketOfElement m' ! j) \<longrightarrow> 2 \<le> card S)"
    by (rule exE)
  note S = conj [THEN conjunct1] conj [THEN conjunct2, THEN conjunct1] conj [THEN conjunct2, THEN conjunct2, THEN conjunct1]
    conj [THEN conjunct2, THEN conjunct2, THEN conjunct2]
  have "finite S" using S(3) by (metis List.finite_set finite_Un)
  moreover have "{0..<f - 1} \<inter> S = {}" using S(2) by auto
  ultimately have "card ({0..<f - 1} \<union> S) = card {0..<f - 1} + card S" by (intro card_Un_disjoint) auto
  then have full': "full_buckets m' = f - 1 + int (card S)" using m' S(3) assms(3) by (simp add: full_buckets_card)
  have S1: "1 \<le> card S" using S(1) \<open>finite S\<close> by (simp add: Suc_le_eq card_gt_0_iff)
  then show "f \<le> full_buckets m'" using full' by linarith
  have full: "full_buckets m = f" using occupied_full assms(2,3) by simp
  have le: "full_buckets m' \<le> mstates m" using full_buckets_le [OF m'(1)] m'(3) by simp
  let ?n = "nat (circular_buffersize m)"
  show "potential m' < potential m"
  proof (cases "2 \<le> card S")
    case True
    then have "nat (mstates m - full_buckets m') + 1 \<le> nat (mstates m - f)" using full' le by linarith
    then have "(nat (mstates m - full_buckets m') + 1) * (?n + 1) \<le> nat (mstates m - f) * (?n + 1)"
      by (rule mult_le_mono1)
    then show ?thesis
      using unordered_card(2) [of m'] m' full unfolding potential_def by (simp add: algebra_simps)
  next
    case False
    then have "unordered m' \<subset> unordered m"
      using S(4) by (intro moved_together_unordered [OF assms(1,2) \<open>1 \<le> f\<close>]) (rule notI, erule (1) notE [OF _ mp, rotated])
    then have "card (unordered m') < card (unordered m)" using unordered_card(1) by (rule psubset_card_mono [rotated])
    moreover have "nat (mstates m - full_buckets m') \<le> nat (mstates m - f)" using full' S1 by linarith
    ultimately show ?thesis using m' full mult_le_mono1 unfolding potential_def by (metis add_le_less_mono)
  qed
qed

lemma largest_bucket_full:
  assumes "\<exists>i < nat (mstates m). bucketSizes m ! i \<noteq> 0"
  shows "0 \<le> largest_bucket m \<and> largest_bucket m < mstates m \<and> bucketSizes m ! nat (largest_bucket m) \<noteq> 0"
proof -
  let ?go = "\<lambda>n. foldl (\<lambda>l i. if bucketSizes m ! i = 0 then l
                  else if l = - 1 \<or> bucketSizes m ! i > bucketSizes m ! nat l then int i else l) (- 1) [0..<n]"
  have "(?go n = - 1 \<and> (\<forall>i < n. bucketSizes m ! i = 0)) \<or> (0 \<le> ?go n \<and> ?go n < int n \<and> bucketSizes m ! nat (?go n) \<noteq> 0)" for n
    by (induction n) (auto simp: less_Suc_eq)
  from this [of "nat (mstates m)"] assms show ?thesis unfolding largest_bucket_def by (auto split: if_splits)
qed

lemma involution_image:
  assumes "\<And>x. x \<in> A \<Longrightarrow> p x \<in> A" "\<And>x. p (p x) = x"
  shows "p ` A = A"
proof (intro equalityI subsetI)
  fix x
  assume "x \<in> A"
  then have "p (p x) \<in> p ` A" using assms(1) by blast
  then show "x \<in> p ` A" by (simp only: assms(2))
qed (use assms(1) in blast)

lemma largest_last_correct:
  assumes "occupied f m" "1 \<le> f"
  shows "relabelled m (largest_last m)" "occupied f (largest_last m)"
proof -
  have c: "counted m" "labelled m" "set (bucketOfElement m) = {0..<f}" using assms(1) by (auto simp: occupied_def)
  have f: "full_buckets m = f" "f \<le> mstates m" using occupied_full [OF assms(1)] full_buckets_le [OF c(1)] assms(2) by auto
  have nz: "bucketSizes m ! i \<noteq> 0 \<longleftrightarrow> int i < f" if "i < nat (mstates m)" for i
    using size_zero_iff [OF c(1) that] c(3) by simp
  have "\<exists>i < nat (mstates m). bucketSizes m ! i \<noteq> 0" using nz [of 0] f assms(2) by (intro exI [of _ 0]) auto
  note l = largest_bucket_full [OF this]
  have lf: "largest_bucket m < f" using nz [of "nat (largest_bucket m)"] l by simp
  have same: "largest_last m = swap_labels (nat (largest_bucket m)) (nat (f - 1)) m"
    using l assms(2) by (simp add: largest_last_def swap_labels_def f(1) Let_def)
  show r: "relabelled m (largest_last m)"
    unfolding same using l f(2) assms(2) by (intro swap_labels_relabelled [OF c(1,2)]) auto
  have "set (bucketOfElement (largest_last m)) = {0..<f}"
  proof -
    let ?p = "\<lambda>b. if b = int (nat (largest_bucket m)) then int (nat (f - 1)) else if b = int (nat (f - 1))
                then int (nat (largest_bucket m)) else b"
    have into: "?p x \<in> {0..<f}" if "x \<in> {0..<f}" for x using that l lf assms(2) by auto
    have inv: "?p (?p x) = x" for x by auto
    have "?p ` {0..<f} = {0..<f}" by (rule involution_image) (fact into, fact inv)
    then show ?thesis unfolding same swap_labels_def using c(3) by simp
  qed
  then show "occupied f (largest_last m)" using relabelled_fields [OF r] by (simp add: occupied_def)
qed

definition sized :: "int \<Rightarrow> markov \<Rightarrow> bool" where
  "sized B m \<longleftrightarrow> (\<forall>x \<in> set (buffer m). 0 \<le> x \<and> x \<le> B)"

lemma moved_sized:
  assumes "moved src new lowest m m'" "counted m" "sized B m"
  shows "sized (B + circular_buffersize m) m'"
proof -
  have len: "length (buffer m) = nat (circular_buffersize m)" "length (buffer m') = nat (circular_buffersize m)"
    using assms(2) moved_fields [OF assms(1)] by (auto simp: counted_lengths)
  have "buffer m ! k \<le> buffer m' ! k \<and> buffer m' ! k \<le> buffer m ! k + circular_buffersize m"
    if "k < nat (circular_buffersize m)" for k
  proof -
    have "buffer m ! k \<le> buffer m' ! k \<and> buffer m' ! k \<le> buffer m ! k + int (nat (circular_buffersize m))"
      using assms(1) that unfolding moved_def Let_def by blast
    then show ?thesis using assms(2) by (auto simp: counted_def split: if_splits)
  qed
  moreover have "0 \<le> buffer m ! k \<and> buffer m ! k \<le> B" if "k < nat (circular_buffersize m)" for k
    using assms(3) len(1) that by (simp add: sized_def)
  ultimately show ?thesis unfolding sized_def by (fastforce simp: in_set_conv_nth len)
qed

text \<open>The labelling that the loop ends with: no state is empty.\<close>

definition complete_labels :: "markov \<Rightarrow> markov \<Rightarrow> bool" where
  "complete_labels m m' \<longleftrightarrow> (\<exists>buf bo bs. m' = m\<lparr>buffer := buf, bucketOfElement := bo, bucketSizes := bs\<rparr>)
     \<and> counted m' \<and> labelled m' \<and> (\<forall>i < nat (mstates m). 0 < bucketSizes m' ! i)"

lemma complete_labels_cong:
  "complete_labels m1 m' \<Longrightarrow> m1 = m\<lparr>buffer := buf, bucketOfElement := bo, bucketSizes := bs\<rparr> \<Longrightarrow> complete_labels m m'"
  by (auto simp: complete_labels_def)

lemma all_full_complete:
  assumes "\<exists>buf bo bs. m' = m\<lparr>buffer := buf, bucketOfElement := bo, bucketSizes := bs\<rparr>" "occupied (mstates m') m'"
  shows "complete_labels m m'"
proof -
  have c: "counted m'" "labelled m'" "set (bucketOfElement m') = {0..<mstates m'}" using assms(2) by (auto simp: occupied_def)
  have k: "mstates m' = mstates m" using assms(1) by auto
  have "0 < bucketSizes m' ! i" if "i < nat (mstates m)" for i
  proof -
    have "bucketSizes m' ! i \<noteq> 0" using size_zero_iff [OF c(1), of i] c(3) that k by simp
    moreover have "0 \<le> bucketSizes m' ! i" using c(1) that k by (simp add: counted_def)
    ultimately show ?thesis by linarith
  qed
  then show ?thesis using assms(1) c by (simp add: complete_labels_def)
qed

lemma set_state_limits_returns:
  assumes "occupied f m" "2 \<le> f" "f < mstates m" "sized B m" "B + int fuel * circular_buffersize m \<le> LLONG_MAX"
    "potential m < fuel"
  shows "\<exists>r. set_state_limits fuel (f - 1) (mstates m - f) f m = Some r
    \<and> (r = Inl DivisionByZero \<or> (\<exists>m'. r = Inr m' \<and> complete_labels m m'))"
  using assms
proof (induction fuel arbitrary: f m B)
  case (Suc fuel)
  define new where "new = mstates m - f + 1"
  have c: "counted m" "set (bucketOfElement m) = {0..<f}" using Suc.prems(1) by (auto simp: occupied_def)
  have circ: "0 \<le> circular_buffersize m" using c(1) by (auto simp: counted_def)
  have "f - 1 \<in> set (bucketOfElement m)" using c(2) Suc.prems(2) by simp
  then have "\<exists>k. k \<in> set (elements_of (f - 1) m)"
    using c(1) elements_of_facts(2) by (auto simp: in_set_conv_nth counted_lengths)
  then have ne: "elements_of (f - 1) m \<noteq> []" by auto
  have "0 \<le> int (Suc fuel) * circular_buffersize m" using circ by simp
  then have "B \<le> LLONG_MAX" using Suc.prems(5) by linarith
  then have vals: "\<forall>x \<in> set (buffer m). 0 \<le> x \<and> x \<le> LLONG_MAX" using Suc.prems(4) by (force simp: sized_def)
  have "2 \<le> new" "(f - 1 = 0 \<and> f - 1 = - 1) \<or> (0 < f - 1 \<and> f - 1 = f - 1)" "f - 1 + new = mstates m"
    using Suc.prems(2,3) by (auto simp: new_def)
  note pass = distribute_correct [OF c(1) ne this vals]
  show ?case
  proof (cases "MarkovModulatedProcess_distributeAllInBucket (f - 1) new (f - 1) m")
    case (Inl e)
    with pass have "e = DivisionByZero" by auto
    with Inl show ?thesis by (simp add: new_def)
  next
    case (Inr m1)
    with pass have mv: "moved (f - 1) new (f - 1) m m1" by auto
    have m1: "counted m1" "labelled m1" "mstates m1 = mstates m" "circular_buffersize m1 = circular_buffersize m"
      using moved_fields [OF mv] moved_labelled [OF mv] Suc.prems(1,2) by (auto simp: occupied_def)
    define m2 where "m2 = compact_buckets m1"
    have pos: "0 < mstates m1" using m1(3) Suc.prems(2,3) by simp
    have r2: "relabelled m1 m2" "front (nat (mstates m2)) m2"
      using compact_buckets_correct [OF m1(1,2) pos] relabelled_fields(3) [of m1 m2] by (auto simp: m2_def)
    note m2 = relabelled_fields [OF r2(1)]
    define f2 where "f2 = full_buckets m2"
    have o2: "occupied f2 m2" unfolding f2_def using m2(4,5) r2(2) by (rule front_occupied)
    have f2: "f \<le> f2" "f2 \<le> mstates m" and pot: "potential m2 < potential m"
      using pass_progress [OF mv Suc.prems(1,2)] relabelled_full [OF r2(1)] relabelled_potential [OF r2(1)]
        full_buckets_le [OF m2(4)] m2(3) m1(3) by (auto simp: f2_def)
    have step: "set_state_limits (Suc fuel) (f - 1) (mstates m - f) f m =
      (if mstates m - f2 = 0 then Some (Inr m2) else set_state_limits fuel (f2 - 1) (mstates m2 - f2) f2 (largest_last m2))"
      using Inr Suc.prems(2) f2(1) m1(3) m2(3) by (simp add: new_def m2_def [symmetric] f2_def [symmetric] Let_def)
    obtain buf bo bs where "m1 = m\<lparr>buffer := buf, bucketOfElement := bo, bucketSizes := bs\<rparr>"
      using mv unfolding moved_def Let_def by blast
    moreover obtain bo2 bs2 where "m2 = m1\<lparr>bucketOfElement := bo2, bucketSizes := bs2\<rparr>"
      using r2(1) unfolding relabelled_def by blast
    ultimately have shape: "m2 = m\<lparr>buffer := buf, bucketOfElement := bo2, bucketSizes := bs2\<rparr>" by simp
    show ?thesis
    proof (cases "f2 = mstates m")
      case True
      then have "complete_labels m m2"
        using shape o2 m2(3) m1(3) by (intro all_full_complete) auto
      then show ?thesis using step True by auto
    next
      case False
      let ?m3 = "largest_last m2"
      have r3: "relabelled m2 ?m3" "occupied f2 ?m3"
        using largest_last_correct [OF o2] f2(1) Suc.prems(2) by auto
      note m3 = relabelled_fields [OF r3(1)]
      have s3: "sized (B + circular_buffersize m) ?m3"
        using moved_sized [OF mv c(1) Suc.prems(4)] m2(1) m3(1) by (simp add: sized_def)
      have room: "B + circular_buffersize m + int fuel * circular_buffersize ?m3 \<le> LLONG_MAX"
        using Suc.prems(5) m3(2) m2(2) m1(4) by (simp add: algebra_simps)
      have "\<exists>r. set_state_limits fuel (f2 - 1) (mstates ?m3 - f2) f2 ?m3 = Some r
        \<and> (r = Inl DivisionByZero \<or> (\<exists>m'. r = Inr m' \<and> complete_labels ?m3 m'))"
        using Suc.prems(2,6) f2 False m3(3) m2(3) m1(3) pot relabelled_potential [OF r3(1)]
        by (intro Suc.IH [OF r3(2) _ _ s3 room]) auto
      then obtain r where r: "set_state_limits fuel (f2 - 1) (mstates m2 - f2) f2 ?m3 = Some r"
        "r = Inl DivisionByZero \<or> (\<exists>m'. r = Inr m' \<and> complete_labels ?m3 m')"
        using m3(3) by auto
      obtain bo3 bs3 where "?m3 = m2\<lparr>bucketOfElement := bo3, bucketSizes := bs3\<rparr>"
        using r3(1) unfolding relabelled_def by blast
      with shape have "?m3 = m\<lparr>buffer := buf, bucketOfElement := bo3, bucketSizes := bs3\<rparr>" by simp
      then have "complete_labels m m'" if "complete_labels ?m3 m'" for m' using that complete_labels_cong by blast
      then show ?thesis using r step False by auto
    qed
  qed
qed simp

lemma init_counted:
  assumes "2 \<le> mstates m" "mstates m \<le> circular_buffersize m" "circular_buffersize m < 65536"
    "length (buffer m) = nat (circular_buffersize m)"
  shows "counted (MarkovModulatedProcess_init m)"
    "set (elements_of (- 1) (MarkovModulatedProcess_init m)) = {..<nat (circular_buffersize m)}"
proof -
  have "count_list (replicate n (- 1 :: int)) (int i) = 0" for n i by (induction n) auto
  then show "counted (MarkovModulatedProcess_init m)" using assms by (simp add: counted_def MarkovModulatedProcess_init_def)
  show "set (elements_of (- 1) (MarkovModulatedProcess_init m)) = {..<nat (circular_buffersize m)}"
    by (auto simp: elements_of_facts MarkovModulatedProcess_init_def)
qed

lemma set_state_limits_from_start:
  assumes "2 \<le> mstates m" "mstates m \<le> circular_buffersize m" "circular_buffersize m < 65536"
    "length (buffer m) = nat (circular_buffersize m)" "sized (2 ^ 62) m"
    "x \<in> set (buffer m)" "y \<in> set (buffer m)" "x + mstates m \<le> y"
    "fuel = nat (mstates m) * (nat (circular_buffersize m) + 1)"
  shows "\<exists>r. MarkovModulatedProcess_setStateLimits fuel (MarkovModulatedProcess_init m) = Some r
    \<and> (r = Inl DivisionByZero \<or> (\<exists>m'. r = Inr m' \<and> complete_labels (MarkovModulatedProcess_init m) m'))"
proof -
  define m0 n where "m0 = MarkovModulatedProcess_init m" and "n = nat (circular_buffersize m)"
  have fields: "buffer m0 = buffer m" "circular_buffersize m0 = circular_buffersize m" "mstates m0 = mstates m"
    by (simp_all add: m0_def MarkovModulatedProcess_init_def)
  have c: "counted m0" and els: "set (elements_of (- 1) m0) = {..<n}"
    using init_counted [OF assms(1-4)] by (simp_all add: m0_def n_def)
  have "0 \<in> set (elements_of (- 1) m0)" unfolding els using assms(1,2) by (simp add: n_def)
  then have ne: "elements_of (- 1) m0 \<noteq> []" by (metis empty_iff list.set(1))
  have vals: "\<forall>x \<in> set (buffer m0). 0 \<le> x \<and> x \<le> LLONG_MAX"
    using assms(5) fields by (force simp: sized_def LLONG_MAX_def)
  have nK: "int n = circular_buffersize m" using assms(1,2) by (simp add: n_def)
  have KN: "nat (mstates m) * (n + 1) \<le> 65536 * 65536"
    using assms(2,3) by (intro mult_mono) (auto simp: n_def)
  have "0 < mstates m * (int n + 1)" using assms(1) nK by (intro mult_pos_pos) auto
  then have "0 < fuel" using assms(1,9) by (simp add: n_def)
  then obtain fuel1 where fuel: "fuel = Suc fuel1" by (cases fuel) auto
  have small: "int fuel1 * circular_buffersize m \<le> 65536 * 65536 * 65536"
    using KN fuel assms(2,3,9) by (intro mult_mono) (auto simp: n_def)
  note pass = distribute_correct [OF c ne, of "mstates m" 0]
  show ?thesis
  proof (cases "MarkovModulatedProcess_distributeAllInBucket (- 1) (mstates m) 0 m0")
    case (Inl e)
    with pass vals fields assms(1) have "e = DivisionByZero" by auto
    with Inl show ?thesis by (simp add: MarkovModulatedProcess_setStateLimits_def fuel m0_def [symmetric] fields)
  next
    case (Inr m1)
    with pass vals fields assms(1) have mv: "moved (- 1) (mstates m) 0 m0 m1" by auto
    note m1 = moved_fields [OF mv, unfolded fields]
    have lab: "labelled m1" using mv els m1 fields by (simp add: moved_def Let_def labelled_def n_def)
    obtain i j where ij: "i < n" "j < n" "buffer m0 ! i = x" "buffer m0 ! j = y"
      using assms(4,6,7) fields by (auto simp: in_set_conv_nth n_def)
    have "\<exists>k \<in> set (elements_of (- 1) m0). \<exists>j \<in> set (elements_of (- 1) m0). bucketOfElement m1 ! k \<noteq> bucketOfElement m1 ! j"
      using mv [unfolded moved_def Let_def, THEN conjunct2, THEN conjunct2, THEN conjunct2, THEN conjunct2, THEN conjunct2]
    proof (rule disjE)
      assume "(\<forall>k \<in> set (elements_of (- 1) m0). \<forall>j \<in> set (elements_of (- 1) m0).
          bucketOfElement m1 ! k = bucketOfElement m1 ! j \<and> buffer m0 ! k < buffer m0 ! j + mstates m)
        \<and> (\<exists>j \<in> set (elements_of (- 1) m0). buffer m0 ! j < buffer m0 ! hd (elements_of (- 1) m0))
        \<and> (\<forall>j \<in> set (elements_of (- 1) m0). buffer m1 ! hd (elements_of (- 1) m0) \<le> buffer m1 ! j)"
      then have "\<forall>k \<in> set (elements_of (- 1) m0). \<forall>j \<in> set (elements_of (- 1) m0).
        bucketOfElement m1 ! k = bucketOfElement m1 ! j \<and> buffer m0 ! k < buffer m0 ! j + mstates m"
        by (rule conjunct1)
      then have "buffer m0 ! j < buffer m0 ! i + mstates m" using ij(1,2) unfolding els by blast
      then show ?thesis using ij(3,4) assms(8) by simp
    qed
    then obtain k l where kl: "k < n" "l < n" "bucketOfElement m1 ! k \<noteq> bucketOfElement m1 ! l" using els by auto
    have "card {bucketOfElement m1 ! k, bucketOfElement m1 ! l} \<le> card (set (bucketOfElement m1))"
      using kl m1 by (intro card_mono) (auto simp: counted_lengths n_def)
    then have f1: "2 \<le> full_buckets m1" using kl(3) full_buckets_card [OF m1(3) lab] by simp
    define m2 where "m2 = compact_buckets m1"
    have pos: "0 < mstates m1" using m1(2) assms(1) by simp
    have r2: "relabelled m1 m2" "front (nat (mstates m2)) m2"
      using compact_buckets_correct [OF m1(3) lab pos] relabelled_fields(3) [of m1 m2] by (auto simp: m2_def)
    note m2 = relabelled_fields [OF r2(1)]
    define f2 where "f2 = full_buckets m2"
    have o2: "occupied f2 m2" unfolding f2_def using m2(4,5) r2(2) by (rule front_occupied)
    have f2: "2 \<le> f2" "f2 \<le> mstates m"
      using f1 relabelled_full [OF r2(1)] full_buckets_le [OF m2(4)] m2(3) m1(2) by (auto simp: f2_def)
    have step: "MarkovModulatedProcess_setStateLimits fuel m0 =
      (if mstates m - f2 = 0 then Some (Inr m2) else set_state_limits fuel1 (f2 - 1) (mstates m2 - f2) f2 (largest_last m2))"
      using Inr f2(1) m1(2) m2(3) fields
      by (simp add: MarkovModulatedProcess_setStateLimits_def fuel m2_def [symmetric] f2_def [symmetric] Let_def)
    obtain buf bo bs where "m1 = m0\<lparr>buffer := buf, bucketOfElement := bo, bucketSizes := bs\<rparr>"
      using mv unfolding moved_def Let_def by blast
    moreover obtain bo2 bs2 where "m2 = m1\<lparr>bucketOfElement := bo2, bucketSizes := bs2\<rparr>"
      using r2(1) unfolding relabelled_def by blast
    ultimately have shape: "m2 = m0\<lparr>buffer := buf, bucketOfElement := bo2, bucketSizes := bs2\<rparr>" by simp
    show ?thesis
    proof (cases "f2 = mstates m")
      case True
      then have "complete_labels m0 m2"
        using shape o2 m2(3) m1(2) by (intro all_full_complete) auto
      then show ?thesis using step True by (auto simp: m0_def)
    next
      case False
      let ?m3 = "largest_last m2"
      have r3: "relabelled m2 ?m3" "occupied f2 ?m3" using largest_last_correct [OF o2] f2(1) by auto
      note m3 = relabelled_fields [OF r3(1)]
      have s3: "sized (2 ^ 62 + circular_buffersize m) ?m3"
        using moved_sized [OF mv c, of "2 ^ 62"] assms(5) m2(1) m3(1) fields by (simp add: sized_def)
      have room: "2 ^ 62 + circular_buffersize m + int fuel1 * circular_buffersize ?m3 \<le> LLONG_MAX"
        using small assms(3) m3(2) m2(2) m1(1) by (simp add: LLONG_MAX_def)
      have "potential m2 \<le> nat (mstates m - 2) * (n + 1) + n"
        using f2 unordered_card(2) [of m2] m2(2,3) m1(1,2)
        unfolding potential_def f2_def [symmetric] n_def by (intro add_mono mult_mono) auto
      also have "\<dots> < fuel1"
      proof -
        have "nat (mstates m) = nat (mstates m - 2) + 2" using assms(1) by linarith
        then have "nat (mstates m) * (n + 1) = nat (mstates m - 2) * (n + 1) + 2 * (n + 1)"
          by (simp only: add_mult_distrib)
        then show ?thesis using assms(9) fuel by (simp add: n_def)
      qed
      finally have pot: "potential ?m3 < fuel1" using relabelled_potential [OF r3(1)] by simp
      have "\<exists>r. set_state_limits fuel1 (f2 - 1) (mstates ?m3 - f2) f2 ?m3 = Some r
        \<and> (r = Inl DivisionByZero \<or> (\<exists>m'. r = Inr m' \<and> complete_labels ?m3 m'))"
        using f2 False m3(3) m2(3) m1(2) pot by (intro set_state_limits_returns [OF r3(2) _ _ s3 room]) auto
      then obtain r where r: "set_state_limits fuel1 (f2 - 1) (mstates m2 - f2) f2 ?m3 = Some r"
        "r = Inl DivisionByZero \<or> (\<exists>m'. r = Inr m' \<and> complete_labels ?m3 m')"
        using m3(3) by auto
      obtain bo3 bs3 where "?m3 = m2\<lparr>bucketOfElement := bo3, bucketSizes := bs3\<rparr>"
        using r3(1) unfolding relabelled_def by blast
      with shape have "?m3 = m0\<lparr>buffer := buf, bucketOfElement := bo3, bucketSizes := bs3\<rparr>" by simp
      then have "complete_labels m0 m'" if "complete_labels ?m3 m'" for m' using that complete_labels_cong by blast
      then show ?thesis using r step False by (auto simp: m0_def)
    qed
  qed
qed

section \<open>Sampling\<close>

lemma count_list_filter: "length (filter (\<lambda>i. xs ! i = x) [0..<length xs]) = count_list xs x"
proof -
  have "length (filter (\<lambda>i. f i = x) ys) = count_list (map f ys) x" for f :: "nat \<Rightarrow> 'a" and ys
    by (induction ys) auto
  from this [of "(!) xs" "[0..<length xs]"] show ?thesis by (simp add: map_nth)
qed

lemma sample_state:
  assumes "counted m" "is_state m s" "0 < bucketSizes m ! nat s"
  shows "\<exists>v. MarkovModulatedProcess_sampleMeasurementOfState rnd s m = Inr v \<and> v \<in> set (buffer m)"
proof -
  let ?els = "elements_of s m"
  have "length ?els = count_list (bucketOfElement m) s"
    using count_list_filter [of "bucketOfElement m" s] assms(1) by (simp add: elements_of_def counted_lengths)
  then have size: "bucketSizes m ! nat s = int (length ?els)"
    using assms(1,2) by (simp add: counted_def is_state_def)
  then have el: "nat (int rnd mod bucketSizes m ! nat s) < length ?els"
    using assms(3) by (simp add: nat_less_iff)
  then have "?els ! nat (int rnd mod bucketSizes m ! nat s) \<in> set ?els" by simp
  then have "?els ! nat (int rnd mod bucketSizes m ! nat s) < length (buffer m)"
    using assms(1) elements_of_facts(2) by (simp add: counted_lengths)
  then show ?thesis
    using assms(2,3) el by (simp add: MarkovModulatedProcess_sampleMeasurementOfState_def Let_def)
qed

definition square :: "nat \<Rightarrow> rat option list list \<Rightarrow> bool" where
  "square k t \<longleftrightarrow> length t = k \<and> (\<forall>row \<in> set t. length row = k)"

lemma cumulate_length [simp]: "length (cumulate t acc row) = length row"
  by (induction t acc row rule: cumulate.induct) (auto simp: Let_def split: option.splits)

lemma add_transition_square:
  assumes "square k t" "nat i < k"
  shows "square k (add_transition i j t)"
proof -
  have "length (t ! nat i) = k" using assms by (simp add: square_def)
  then show ?thesis
    using assms by (auto simp: square_def add_transition_def dest!: set_update_subset_insert [THEN subsetD])
qed

lemma add_transitions_square:
  "square k t \<Longrightarrow> \<forall>(i, j) \<in> set ps. nat i < k \<Longrightarrow> square k (foldl (\<lambda>t (i, j). add_transition i j t) t ps)"
  by (induction ps arbitrary: t) (auto simp: add_transition_square)

lemma first_above_bounds: "first_above r xs j = Some k \<Longrightarrow> j \<le> k \<and> k < j + int (length xs)"
proof (induction xs arbitrary: j)
  case (Cons x xs)
  show ?case using Cons.prems Cons.IH [of "j + 1"] by (auto split: option.splits if_splits)
qed simp

lemma transition_is_state:
  assumes "square (nat (mstates m)) (transitionMatrix m)" "is_state m s"
  shows "is_state m (MarkovModulatedProcess_getRandomTransitionFrom rnd s m)"
proof -
  have "nat s < length (transitionMatrix m)" "0 < mstates m" using assms by (auto simp: square_def is_state_def)
  then have "length (transitionMatrix m ! nat s) = nat (mstates m)" using assms(1) by (simp add: square_def)
  then show ?thesis
    using first_above_bounds [of _ "transitionMatrix m ! nat s" 0] \<open>0 < mstates m\<close>
    by (fastforce simp: MarkovModulatedProcess_getRandomTransitionFrom_def is_state_def split: option.splits)
qed


definition markov_with :: "int list \<Rightarrow> int \<Rightarrow> markov" where
  "markov_with xs k = (MarkovModulatedProcess_alloc (int (length xs)) k)\<lparr>buffer := xs, bsize := int (length xs) + 1\<rparr>"


text \<open>A pass that finds fewer elements than buckets, close to each other, divides by zero.\<close>

lemma distribute_divides_by_zero:
  assumes "counted m" "elements_of src m \<noteq> []" "int (length (elements_of src m)) < new"
    "\<forall>x \<in> set (buffer m). 0 \<le> x \<and> x \<le> LLONG_MAX"
    "\<forall>i \<in> set (elements_of src m). \<forall>j \<in> set (elements_of src m). buffer m ! i < buffer m ! j + new"
  shows "MarkovModulatedProcess_distributeAllInBucket src new lowest m = Inl DivisionByZero"
proof -
  define els xs where "els = elements_of src m" and "xs = map ((!) (buffer m)) els"
  define mx mn where "mx = foldl (\<lambda>a x. if x > a then x else a) 0 xs"
    and "mn = foldl (\<lambda>a x. if x < a then x else a) LLONG_MAX xs"
  have len: "length (buffer m) = nat (circular_buffersize m)" using assms(1) by (simp add: counted_lengths)
  have "\<forall>x \<in> set xs. 0 \<le> x \<and> x \<le> LLONG_MAX" "xs \<noteq> []"
    using assms(2,4) len elements_of_facts(2) by (auto simp: xs_def els_def)
  then have ext: "mx \<in> set xs" "mn \<in> set xs" using extremes [of xs] by (auto simp: mx_def mn_def)
  then have le: "mn \<le> mx" using extremes(4) [of xs mx] \<open>xs \<noteq> []\<close> \<open>\<forall>x \<in> set xs. 0 \<le> x \<and> x \<le> LLONG_MAX\<close> by (simp add: mn_def)
  have "mx < mn + new" using ext assms(5) by (auto simp: xs_def els_def)
  then have "(mx - mn) sdiv new = 0" using le by (auto simp: signed_divide_int_def sgn_if)
  moreover have "int (length els) sdiv new = 0" using assms(3) by (auto simp: signed_divide_int_def sgn_if els_def)
  ultimately show ?thesis
    using assms(2) len
    by (simp add: MarkovModulatedProcess_distributeAllInBucket_def Let_def els_def [symmetric] xs_def [symmetric]
        mx_def [symmetric] mn_def [symmetric])
qed

text \<open>
  Two states and two measurements, the older one larger by one: both elements first land in the last
  bucket, which becomes bucket 0, and the second pass adds to the size recorded for bucket 0 instead of
  setting it, so that the size is 3 for a state with one measurement. Unless \<open>rand()\<close> is a multiple of 3,
  the sampling ends in \<open>assert(false)\<close>.
\<close>

theorem markov_size_counted_twice:
  assumes "0 \<le> x" "x < 2 ^ 62" "rnd1 mod 3 \<noteq> 0"
  shows "MarkovModulatedProcess_getValue (Suc (Suc fuel)) rnd1 rnd2 (markov_with [x + 1, x] 2) = Some (Inl AssertFailed)"
proof -
  let ?m0 = "MarkovModulatedProcess_init (markov_with [x + 1, x] 2)"
  have m0: "?m0 = \<lparr>buffer = [x + 1, x], bsize = 3, bindex = 0, circular_buffersize = 2, mstates = 2, currentState = - 1,
      transitionMatrix = replicate 2 (replicate 2 (Some 0)), bucketOfElement = [- 1, - 1], bucketSizes = [0, 0]\<rparr>"
    by (simp add: markov_with_def MarkovModulatedProcess_alloc_def MarkovModulatedProcess_init_def Let_def eval_nat_numeral)
  let ?m1 = "?m0\<lparr>buffer := [x + 1, x + 1], bucketOfElement := [1, 1], bucketSizes := [0, 2]\<rparr>"
  have max: "foldl (\<lambda>a x. if x > a then x else a) 0 [x + 1, x] = x + 1" "foldl (\<lambda>a x. if x < a then x else a) LLONG_MAX [x + 1, x] = x"
    "foldl (\<lambda>a x. if x > a then x else a) 0 [x + 1, x + 1] = x + 1" "foldl (\<lambda>a x. if x < a then x else a) LLONG_MAX [x + 1, x + 1] = x + 1"
    using assms(1,2) by (auto simp: LLONG_MAX_def)
  have d1: "MarkovModulatedProcess_distributeAllInBucket (- 1) 2 0 ?m0 = Inr ?m1"
    by (simp add: MarkovModulatedProcess_distributeAllInBucket_def m0 elements_of_def upt_rec max Let_def signed_divide_int_def
        bucket_for_def int32_def u32_def inc_at_def del: foldl_Cons)
  have c1: "compact_buckets ?m1 = ?m1\<lparr>bucketOfElement := [0, 0], bucketSizes := [2, 0]\<rparr>"
    by (simp add: compact_buckets_def m0 upt_rec move_bucket_def)
  let ?m2 = "?m1\<lparr>bucketOfElement := [0, 0], bucketSizes := [2, 0]\<rparr>"
  have l2: "largest_last ?m2 = ?m2" "full_buckets ?m2 = 1"
    by (simp_all add: largest_last_def largest_bucket_def full_buckets_def m0 upt_rec Let_def)
  let ?m3 = "?m2\<lparr>buffer := [x + 1, x + 2], bucketOfElement := [0, 1], bucketSizes := [3, 1]\<rparr>"
  have d2: "MarkovModulatedProcess_distributeAllInBucket 0 2 0 ?m2 = Inr ?m3"
    by (simp add: MarkovModulatedProcess_distributeAllInBucket_def m0 elements_of_def upt_rec max Let_def signed_divide_int_def
        bucket_for_def int32_def u32_def inc_at_def del: foldl_Cons)
  have c3: "compact_buckets ?m3 = ?m3" "full_buckets ?m3 = 2"
    by (simp_all add: compact_buckets_def m0 upt_rec move_bucket_def full_buckets_def)
  have states: "mstates ?m0 = 2" "mstates ?m2 = 2" "mstates ?m3 = 2" by (simp_all add: m0)
  have limits: "MarkovModulatedProcess_setStateLimits (Suc (Suc fuel)) ?m0 = Some (Inr ?m3)"
    using d1 c1 l2 d2 c3 states by (simp add: MarkovModulatedProcess_setStateLimits_def Let_def del: foldl_Cons)
  obtain t where pop: "MarkovModulatedProcess_populateTransitionMatrix ?m3 = Inr (?m3\<lparr>transitionMatrix := t\<rparr>)"
    by (simp add: MarkovModulatedProcess_populateTransitionMatrix_def m0 is_state_def)
  have "int rnd1 mod 3 \<noteq> 0" using assms(3) by presburger
  then have "\<not> nat (int rnd1 mod 3) < 1" by (simp add: nat_less_iff)
  then have "MarkovModulatedProcess_sampleMeasurementOfState rnd1 0 (?m3\<lparr>transitionMatrix := t, currentState := 0\<rparr>) = Inl AssertFailed"
    by (simp add: MarkovModulatedProcess_sampleMeasurementOfState_def m0 is_state_def elements_of_def upt_rec)
  moreover have "currentState (markov_with [x + 1, x] 2) = - 1"
    by (simp add: markov_with_def MarkovModulatedProcess_alloc_def MarkovModulatedProcess_init_def Let_def)
  ultimately show ?thesis
    using limits pop by (simp add: MarkovModulatedProcess_getValue_def markov_rebuild_def m0)
qed

lemma markov_size_counted_twice_witness:
  "MarkovModulatedProcess_getValue 5 1 0 (markov_with [5, 4] 2) = Some (Inl AssertFailed)"
  using markov_size_counted_twice [of 4 1 3 0] by simp

end
