(* ===== verification/Vex_AutoRegression.thy ===== *)
theory Vex_AutoRegression
  imports Vex_Prediction
begin

text \<open>
  \<open>debugging/AutoRegression\<close>: the autoregressive predictors of the next I/O duration. A \<open>double\<close> of the Burg
  method is an optional rational, \<open>None\<close> for a NaN: its only division by zero is zero by zero. The
  Yule-Walker method stops with an error where the code divides by zero. Arrays are lists.
\<close>

section \<open>Arithmetic with NaN\<close>

type_synonym double = "rat option"

definition dadd :: "double \<Rightarrow> double \<Rightarrow> double" where
  "dadd a b = (case (a, b) of (Some x, Some y) \<Rightarrow> Some (f64 (x + y)) | _ \<Rightarrow> None)"

definition dneg :: "double \<Rightarrow> double" where
  "dneg a = map_option uminus a"

definition dmul :: "double \<Rightarrow> double \<Rightarrow> double" where
  "dmul a b = (case (a, b) of (Some x, Some y) \<Rightarrow> Some (f64 (x * y)) | _ \<Rightarrow> None)"

definition ddiv :: "double \<Rightarrow> double \<Rightarrow> double" where
  "ddiv a b = (case (a, b) of (Some x, Some y) \<Rightarrow> if y = 0 then None else Some (f64 (x / y)) | _ \<Rightarrow> None)"

lemma nan_simps [simp]:
  "dadd None b = None" "dadd a None = None" "dmul None b = None" "dmul a None = None" "ddiv None b = None" "dneg None = None"
  by (simp_all add: dadd_def dmul_def ddiv_def dneg_def split: option.splits)

lemma zero_simps [simp]:
  "dadd (Some 0) (Some 0) = Some 0" "dmul (Some x) (Some 0) = Some 0" "dmul (Some 0) (Some x) = Some 0"
  "ddiv a (Some 0) = None" "dneg (Some x) = Some (- x)"
  by (simp_all add: dadd_def dmul_def ddiv_def dneg_def fl_def split: option.splits)

section \<open>Mean and prediction\<close>

definition series_mean :: "int list \<Rightarrow> rat" where
  "series_mean xs = f64 (foldl (\<lambda>s x. f64 (s + f64 (of_int x))) 0 xs / f64 (of_nat (length xs)))"

definition normalized_series :: "int list \<Rightarrow> rat list" where
  "normalized_series xs = map (\<lambda>x. f64 (f64 (of_int x) - series_mean xs)) xs"

text \<open>\<open>getNextPrediction\<close> after \<open>autoregress\<close>, which gives the coefficients or fails.\<close>

definition AutoRegression_getNextPrediction :: "(rat list \<Rightarrow> double list option res) \<Rightarrow> int list \<Rightarrow> double res" where
  "AutoRegression_getNextPrediction autoregress xs =
     (let nv = normalized_series xs; degree = length xs - 2 in
      if length xs < 2 then Inl OutOfBounds
      else bindE (autoregress nv) (\<lambda>r.
           case r of
             None \<Rightarrow> Inr (Some 0)
           | Some coefficients \<Rightarrow>
               let prediction = foldl (\<lambda>p i. dadd p (dmul (Some (nv ! (length xs - 1 - i))) (coefficients ! i)))
                                  (Some (series_mean xs)) [0..<degree]
               in Inr (case prediction of Some p \<Rightarrow> if p \<le> 0 then Some 0 else Some p | None \<Rightarrow> None)))"

definition AutoRegressionCyclicBuffer_getValue ::
  "(rat list \<Rightarrow> double list option res) \<Rightarrow> cyclic \<Rightarrow> (cyclic \<times> int) res" where
  "AutoRegressionCyclicBuffer_getValue autoregress b =
     bindE (AutoRegression_getNextPrediction autoregress (take (nat (circular_buffersize b)) (buffer b)))
       (\<lambda>p. Inr (b, case p of Some x \<Rightarrow> ll_of_float x | None \<Rightarrow> LLONG_MIN))"

section \<open>Burg\<close>

text \<open>The arrays \<open>per\<close>, \<open>pef\<close> and \<open>g\<close>; \<open>h\<close> only holds the new values of \<open>g\<close> while they are computed.\<close>

definition burg_sums :: "rat list \<Rightarrow> nat \<Rightarrow> nat \<Rightarrow> double list \<Rightarrow> double list \<Rightarrow> double \<times> double" where
  "burg_sums nv n jj per pef =
     foldl (\<lambda>(sn, sd) j.
        let t1 = dadd (Some (nv ! (j + n))) (pef ! j); t2 = dadd (Some (nv ! (j - 1))) (per ! j)
        in (dadd sn (dneg (dmul (dmul (Some 2) t1) t2)), dadd sd (dadd (dmul t1 t1) (dmul t2 t2))))
       (Some 0, Some 0) [1..<jj + 1]"

definition burg_update :: "rat list \<Rightarrow> nat \<Rightarrow> double \<Rightarrow> nat \<Rightarrow> double list \<times> double list \<Rightarrow> double list \<times> double list" where
  "burg_update nv nn t1 jj arrays =
     foldl (\<lambda>(per, pef) j.
        let per1 = per[j := dadd (per ! j) (dadd (dmul t1 (pef ! j)) (dmul t1 (Some (nv ! (j + nn - 2)))))];
            pef1 = pef[j := dadd (dadd (pef ! (j + 1)) (dmul t1 (per1 ! (j + 1)))) (dmul t1 (Some (nv ! j)))]
        in (per1, pef1))
       arrays [1..<jj + 1]"

definition burg_round :: "rat list \<Rightarrow> nat \<Rightarrow> double list \<times> double list \<times> double list \<Rightarrow> double list \<times> double list \<times> double list" where
  "burg_round nv nn arrays =
     (case arrays of (per, pef, g) \<Rightarrow>
      let n = nn - 2; jj = length nv - n - 1; (sn, sd) = burg_sums nv n jj per pef;
          t1 = ddiv sn sd; g1 = g[nn := t1];
          g2 = (if n \<noteq> 0 then map (\<lambda>j. if 2 \<le> j \<and> j < nn then dadd (g1 ! j) (dmul t1 (g1 ! (n + 3 - j))) else g1 ! j) [0..<length g1]
                else g1);
          jj1 = (if n \<noteq> 0 then jj - 1 else jj);
          (per1, pef1) = burg_update nv nn t1 jj1 (per, pef)
      in (per1, pef1, g2))"

definition BurgAutoRegression_autoregress :: "rat list \<Rightarrow> double list option res" where
  "BurgAutoRegression_autoregress nv =
     (let degree = length nv - 2; zeros = replicate (length nv + 1) (Some 0);
          (per, pef, g) = foldl (\<lambda>a nn. burg_round nv nn a) (zeros, zeros, replicate (degree + 2) (Some 0)) [2..<degree + 2]
      in Inr (Some (map (\<lambda>i. dneg (g ! (i + 1))) [1..<degree + 1])))"

section \<open>Yule-Walker\<close>

definition upd2 :: "nat \<Rightarrow> nat \<Rightarrow> (rat \<Rightarrow> rat) \<Rightarrow> rat list list \<Rightarrow> rat list list" where
  "upd2 j k f r = r[j := (r ! j)[k := f (r ! j ! k)]]"

definition yw_sums :: "nat \<Rightarrow> rat list \<Rightarrow> rat list \<times> rat list list \<Rightarrow> rat list \<times> rat list list" where
  "yw_sums degree nv start =
     foldl (\<lambda>s i. foldl (\<lambda>(c, r) j.
          (c[j := f64 (c ! j + f64 (nv ! (i + 1) * nv ! (i - j)))],
           foldl (\<lambda>r k. upd2 j k (\<lambda>x. f64 (x + f64 (nv ! (i - j) * nv ! (i - k)))) r) r [j..<degree]))
        s [0..<degree])
       start [degree - 1..<length nv - 1]"

definition yw_scale :: "nat \<Rightarrow> rat \<Rightarrow> rat list \<times> rat list list \<Rightarrow> rat list \<times> rat list list" where
  "yw_scale degree d start =
     foldl (\<lambda>(c, r) i.
        (c[i := f64 (c ! i / d)],
         foldl (\<lambda>r j. let r1 = upd2 i j (\<lambda>x. f64 (x / d)) r in upd2 j i (\<lambda>_. r1 ! i ! j) r1) r [i..<degree]))
       start [0..<degree]"

text \<open>The row at or below \<open>i\<close> with the first largest element of column \<open>i\<close>.\<close>

definition pivot_row :: "nat \<Rightarrow> nat \<Rightarrow> rat list list \<Rightarrow> nat" where
  "pivot_row degree i r =
     snd (foldl (\<lambda>(mx, mi) j. if \<bar>r ! j ! i\<bar> > mx then (\<bar>r ! j ! i\<bar>, j) else (mx, mi)) (\<bar>r ! i ! i\<bar>, i) [i + 1..<degree])"

definition eliminate :: "nat \<Rightarrow> nat \<Rightarrow> rat list \<times> rat list list \<Rightarrow> rat list \<times> rat list list" where
  "eliminate degree i start =
     foldl (\<lambda>(c, r) j.
        let q = - f64 (r ! j ! i / r ! i ! i); r1 = upd2 j i (\<lambda>_. 0) r;
            r2 = foldl (\<lambda>r k. upd2 j k (\<lambda>x. f64 (x + f64 (q * r ! i ! k))) r) r1 [i + 1..<degree]
        in (c[j := f64 (c ! j + f64 (q * c ! i))], r2))
       start [i + 1..<degree]"

text \<open>\<open>None\<close> when a pivot is zero.\<close>

fun forward_elimination :: "nat \<Rightarrow> nat list \<Rightarrow> rat list \<times> rat list list \<Rightarrow> (rat list \<times> rat list list) option" where
  "forward_elimination degree [] s = Some s"
| "forward_elimination degree (i # is) (c, r) =
     (let p = pivot_row degree i r; c1 = c[i := c ! p, p := c ! i]; r1 = r[i := r ! p, p := r ! i] in
      if r1 ! i ! i = 0 then None else forward_elimination degree is (eliminate degree i (c1, r1)))"

definition back_substitution :: "nat \<Rightarrow> rat list \<times> rat list list \<Rightarrow> rat list" where
  "back_substitution degree s =
     (case s of (c, r) \<Rightarrow>
      foldl (\<lambda>c i. let c1 = foldl (\<lambda>c j. c[i := f64 (c ! i - f64 (r ! i ! j * c ! j))]) c (rev [i + 1..<degree])
                   in c1[i := f64 (c1 ! i / r ! i ! i)])
        (c[degree - 1 := f64 (c ! (degree - 1) / r ! (degree - 1) ! (degree - 1))]) (rev [0..<degree - 1]))"

definition YulesWalkerAutoRegression_SolveLE :: "nat \<Rightarrow> rat list \<times> rat list list \<Rightarrow> double list option res" where
  "YulesWalkerAutoRegression_SolveLE degree s =
     (if degree = 0 then Inl OutOfBounds
      else case forward_elimination degree [0..<degree - 1] s of
        None \<Rightarrow> Inr None
      | Some s1 \<Rightarrow>
          if snd s1 ! (degree - 1) ! (degree - 1) = 0 then Inl DivisionByZero
          else Inr (Some (map Some (back_substitution degree s1))))"

definition YulesWalkerAutoRegression_autoregress :: "rat list \<Rightarrow> double list option res" where
  "YulesWalkerAutoRegression_autoregress nv =
     (let degree = length nv - 2
      in YulesWalkerAutoRegression_SolveLE degree
           (yw_scale degree (of_nat (length nv - degree))
              (yw_sums degree nv (replicate degree 0, replicate degree (replicate degree 0)))))"

section \<open>Constant measurements\<close>

lemma series_mean_constant:
  assumes "0 < n" "0 \<le> c" "c * int n < 2 ^ 53"
  shows "series_mean (replicate n c) = of_int c"
proof -
  have sums: "foldl (\<lambda>s x. f64 (s + f64 (of_int x))) 0 (replicate k c) = of_int (c * int k)" if "k \<le> n" for k
    using that
  proof (induction k)
    case (Suc k)
    have le: "c * int (Suc k) \<le> c * int n" "c * 1 \<le> c * int (Suc k)"
      using Suc.prems assms(2) by (intro mult_left_mono; simp)+
    have "f64 (of_int c) = of_int c" "f64 (of_int (c * int (Suc k))) = of_int (c * int (Suc k))"
      using le assms by (intro fl_of_int; simp)+
    then show ?case using Suc by (simp add: replicate_append_same [symmetric] algebra_simps)
  qed simp
  have le: "1 * int n \<le> c * int n" if "1 \<le> c" using that by (intro mult_right_mono) auto
  have "c * 1 \<le> c * int n" using assms by (intro mult_left_mono) auto
  then have c: "f64 (of_int c) = of_int c" using assms by (intro fl_of_int) simp
  show ?thesis
  proof (cases "c = 0")
    case True
    then show ?thesis using sums [of n] by (simp add: series_mean_def fl_def)
  next
    case False
    then have "int n < 2 ^ 53" using le assms(2,3) by linarith
    then have "f64 (of_int (int n)) = of_int (int n)" by (intro fl_of_int) simp
    then show ?thesis using sums [of n] c assms(1) by (simp add: series_mean_def)
  qed
qed

lemma burg_sums_zero:
  "burg_sums (replicate N 0) 0 (N - 1) (replicate (Suc N) (Some 0)) (replicate (Suc N) (Some 0)) = (Some 0, Some 0)"
proof -
  have "foldl (\<lambda>(sn, sd) j.
        let t1 = dadd (Some (replicate N 0 ! (j + 0))) (replicate (Suc N) (Some 0) ! j);
            t2 = dadd (Some (replicate N 0 ! (j - 1))) (replicate (Suc N) (Some 0) ! j)
        in (dadd sn (dneg (dmul (dmul (Some 2) t1) t2)), dadd sd (dadd (dmul t1 t1) (dmul t2 t2))))
       (Some 0, Some 0) js = (Some 0, Some 0)" if "\<forall>j \<in> set js. j < N" for js
    using that by (induction js) (auto simp: Let_def simp del: replicate_Suc)
  note zeros = this
  show ?thesis unfolding burg_sums_def by (rule zeros) auto
qed

lemma burg_first_round:
  assumes "2 < N"
  shows "\<exists>per pef g. burg_round (replicate N 0) 2 (replicate (Suc N) (Some 0), replicate (Suc N) (Some 0), replicate N (Some 0))
    = (per, pef, g) \<and> g ! 2 = None \<and> length g = N"
  using assms burg_sums_zero [of N] by (simp add: burg_round_def Let_def split: prod.splits del: replicate_Suc)

lemma burg_round_keeps_nan:
  assumes "g ! 2 = None" "2 < nn" "2 < length g"
  shows "\<exists>per' pef' g'. burg_round nv nn (per, pef, g) = (per', pef', g') \<and> g' ! 2 = None \<and> length g' = length g"
  using assms by (auto simp: burg_round_def Let_def numeral_2_eq_2 split: prod.splits)

lemma burg_rounds_keep_nan:
  "g ! 2 = None \<Longrightarrow> 2 < length g \<Longrightarrow> \<forall>nn \<in> set nns. 2 < nn \<Longrightarrow>
   \<exists>per' pef' g'. foldl (\<lambda>a nn. burg_round nv nn a) (per, pef, g) nns = (per', pef', g') \<and> g' ! 2 = None"
proof (induction nns arbitrary: per pef g)
  case (Cons nn nns)
  then obtain per1 pef1 g1 where "burg_round nv nn (per, pef, g) = (per1, pef1, g1)" "g1 ! 2 = None" "length g1 = length g"
    using burg_round_keeps_nan [of g nn nv per pef] by auto
  then show ?case using Cons by simp
qed simp

lemma nan_sum: "foldl (\<lambda>p i. dadd p (f i)) None xs = None"
  by (induction xs) simp_all

text \<open>
  Constant measurements, the simplest series there is, defeat the Burg predictor: the normalized series
  is zero, the first reflection coefficient is zero by zero, the NaN passes the test for a prediction that
  is not positive, and its conversion to an integer predicts the smallest \<open>long long\<close> for the duration of
  the next I/O operation.
\<close>

theorem burg_constant_measurements:
  assumes "3 \<le> n" "0 \<le> c" "c * int n < 2 ^ 53"
    "buffer b = replicate n c" "circular_buffersize b = int n" "int n < bsize b"
  shows "CyclicBufferBased_getNext (AutoRegressionCyclicBuffer_getValue BurgAutoRegression_autoregress) b = Inr (b, LLONG_MIN)"
proof -
  have mean: "series_mean (replicate n c) = of_int c" using assms(1-3) by (intro series_mean_constant) auto
  have "c * 1 \<le> c * int n" using assms(1,2) by (intro mult_left_mono) auto
  then have "f64 (of_int c) = of_int c" using assms(2,3) by (intro fl_of_int) simp
  then have nv: "normalized_series (replicate n c) = replicate n 0"
    by (simp add: normalized_series_def mean fl_def map_replicate_const [symmetric])
  have rounds: "[2..<n] = 2 # [3..<n]" using assms(1) by (simp add: upt_rec)
  obtain per pef g where first: "burg_round (replicate n 0) 2 (replicate (Suc n) (Some 0), replicate (Suc n) (Some 0), replicate n (Some 0))
    = (per, pef, g)" "g ! 2 = None" "length g = n"
    using burg_first_round [of n] assms(1) by auto
  obtain per' pef' g' where rest: "foldl (\<lambda>a nn. burg_round (replicate n 0) nn a) (per, pef, g) [3..<n] = (per', pef', g')" "g' ! 2 = None"
    using burg_rounds_keep_nan [of g "[3..<n]" "replicate n 0" per pef] first assms(1) by auto
  have steps: "foldl (\<lambda>a nn. burg_round (replicate n 0) nn a)
      (replicate (Suc n) (Some 0), replicate (Suc n) (Some 0), replicate n (Some 0)) [2..<n] = (per', pef', g')"
    unfolding rounds by (simp only: foldl_Cons first(1) rest(1))
  have nth: "[1..<n - 1] ! 0 = 1" using assms(1) by simp
  have burg: "BurgAutoRegression_autoregress (replicate n 0) = Inr (Some (map (\<lambda>i. dneg (g' ! (i + 1))) [1..<n - 1]))"
  proof -
    have "n - 2 + 2 = n" "n - 2 + 1 = n - 1" "n + 1 = Suc n" using assms(1) by simp_all
    then show ?thesis by (simp only: BurgAutoRegression_autoregress_def Let_def length_replicate steps prod.case)
  qed
  have "[0..<n - 2] = 0 # [1..<n - 2]" using assms(1) by (simp add: upt_rec)
  moreover have "map (\<lambda>i. dneg (g' ! (i + 1))) [1..<n - 1] ! 0 = None" using rest(2) assms(1) by (simp add: numeral_2_eq_2)
  ultimately have "AutoRegression_getNextPrediction BurgAutoRegression_autoregress (replicate n c) = Inr None"
    using assms(1) by (simp add: AutoRegression_getNextPrediction_def Let_def nv burg nan_sum)
  then show ?thesis
    using assms(4-6) by (simp add: CyclicBufferBased_getNext_def AutoRegressionCyclicBuffer_getValue_def)
qed

lemma burg_constant_measurements_witness:
  "CyclicBufferBased_getNext (AutoRegressionCyclicBuffer_getValue BurgAutoRegression_autoregress)
     \<lparr>buffer = [200, 200, 200, 200], bsize = 5, bindex = 0, circular_buffersize = 4\<rparr>
   = Inr (\<lparr>buffer = [200, 200, 200, 200], bsize = 5, bindex = 0, circular_buffersize = 4\<rparr>, LLONG_MIN)"
  by (rule burg_constant_measurements [of 4 200]) (simp_all add: eval_nat_numeral)

end
