(* ===== verification/Vex_IoPredictor.thy ===== *)
theory Vex_IoPredictor
  imports Vex_Markov Vex_AutoRegression Vex_Thread
begin

text \<open>
  Prediction of I/O durations: the factory of prediction methods (\<open>io/PredictionMethodFactory\<close>), the state
  that selects a method (\<open>io/IoState\<close>), the recognition and the exclusion of I/O operations
  (\<open>io/IoRecognizer\<close>) and the predictors (\<open>io/IoPredictor\<close>). Loggers are left out. A pointer to a prediction
  method is the pair of indices under which its predictor holds it.
\<close>

section \<open>The environment\<close>

text \<open>The functions of the math library and of GSL, the files, the values of \<open>rand()\<close>, the static variables
  of the normal sampler and the memory behind an array.\<close>

record machine =
  libm_sqrt :: "rat \<Rightarrow> rat"
  libm_log :: "rat \<Rightarrow> rat"
  gsl_histogram_pdf_sample :: "string \<Rightarrow> rat \<Rightarrow> rat"
  files :: "string \<Rightarrow> string option"
  rand_at :: "nat \<Rightarrow> nat"
  rand_pos :: nat
  storedDeviate :: "rat option"
  memory_beyond :: int

definition rand :: "machine \<Rightarrow> machine \<times> nat" where
  "rand e = (e\<lparr>rand_pos := rand_pos e + 1\<rparr>, rand_at e (rand_pos e))"

definition rand_ratio :: "nat \<Rightarrow> rat" where
  "rand_ratio r = f64 (of_nat r / 2147483647)"

section \<open>Sampling\<close>

text \<open>The loop of the polar method, of at most \<open>fuel\<close> turns; \<open>None\<close> when they do not suffice.\<close>

fun polar_pair :: "nat \<Rightarrow> machine \<Rightarrow> (machine \<times> rat \<times> rat \<times> rat) option" where
  "polar_pair 0 e = None"
| "polar_pair (Suc fuel) e =
     (let (e1, r1) = rand e; (e2, r2) = rand e1;
          var1 = f64 (f64 (2 * rand_ratio r1) - 1); var2 = f64 (f64 (2 * rand_ratio r2) - 1);
          rsquared = f64 (f64 (var1 * var1) + f64 (var2 * var2))
      in if rsquared \<ge> 1 \<or> rsquared = 0 then polar_pair fuel e2 else Some (e2, var1, var2, rsquared))"

definition SamplingCyclicBuffer_generageNormallyDistributedSamples ::
  "nat \<Rightarrow> rat \<Rightarrow> rat \<Rightarrow> machine \<Rightarrow> (machine \<times> rat) option" where
  "SamplingCyclicBuffer_generageNormallyDistributedSamples fuel mu sigma e =
     (case storedDeviate e of
        Some d \<Rightarrow> Some (e\<lparr>storedDeviate := None\<rparr>, f64 (f64 (d * sigma) + mu))
      | None \<Rightarrow>
          map_option (\<lambda>(e1, var1, var2, rsquared).
            let polar = libm_sqrt e1 (f64 (f64 (- 2 * libm_log e1 rsquared) / rsquared))
            in (e1\<lparr>storedDeviate := Some (f32 (f64 (var1 * polar)))\<rparr>, f64 (f64 (f64 (var2 * polar) * sigma) + mu)))
          (polar_pair fuel e))"

definition SamplingCyclicBuffer_getStdev :: "machine \<Rightarrow> int \<Rightarrow> cyclic \<Rightarrow> int res" where
  "SamplingCyclicBuffer_getStdev e avg b =
     (let mx = CyclicBufferBased_getCurrentSize b;
          stdev = foldl (\<lambda>s x. s + (avg - x) * (avg - x)) 0 (current_measurements b)
      in if mx = 0 then Inl DivisionByZero
         else Inr (ll_of_float (f64 (libm_sqrt e (f64 (of_int stdev)) / f64 (of_int mx)))))"

definition SamplingCyclicBuffer_getValue :: "nat \<Rightarrow> machine \<Rightarrow> cyclic \<Rightarrow> (machine \<times> cyclic \<times> int) res option" where
  "SamplingCyclicBuffer_getValue fuel e b =
     (case bindE (AverageCyclicBuffer_getAverage b) (\<lambda>avg. bindE (SamplingCyclicBuffer_getStdev e avg b) (\<lambda>sd. Inr (avg, sd))) of
        Inl x \<Rightarrow> Some (Inl x)
      | Inr (avg, sd) \<Rightarrow>
          map_option (\<lambda>(e1, x). Inr (e1, CyclicBufferBased_progressIndex b, ll_of_float x))
            (SamplingCyclicBuffer_generageNormallyDistributedSamples fuel (f64 (of_int avg)) (f64 (of_int sd)) e))"

section \<open>Prediction methods\<close>

datatype prediction_method =
    ReplayCyclicBuffer cyclic
  | AverageCyclicBuffer cyclic
  | MedianCyclicBuffer cyclic
  | SamplingCyclicBuffer cyclic
  | MinimumCyclicBuffer cyclic
  | MaximumCyclicBuffer cyclic
  | GslHistogramPredictor "string option"
  | ConstantMeanPredictor constant_mean
  | SimpleLinearRegressionCyclicBuffer regression cyclic
  | BurgAutoRegressionCyclicBuffer cyclic
  | YulesWalkerAutoRegressionCyclicBuffer cyclic
  | MarkovModulatedProcess markov
  | NoPredictor

definition next_of :: "machine \<Rightarrow> (cyclic \<Rightarrow> prediction_method) \<Rightarrow> (cyclic \<Rightarrow> (cyclic \<times> int) res) \<Rightarrow> cyclic
    \<Rightarrow> (machine \<times> prediction_method \<times> int) res option" where
  "next_of e C f b = Some (bindE (CyclicBufferBased_getNext f b) (\<lambda>(b1, v). Inr (e, C b1, v)))"

fun PredictionMethod_getNext :: "nat \<Rightarrow> machine \<Rightarrow> prediction_method \<Rightarrow> (machine \<times> prediction_method \<times> int) res option" where
  "PredictionMethod_getNext fuel e (ReplayCyclicBuffer b) = next_of e ReplayCyclicBuffer ReplayCyclicBuffer_getValue b"
| "PredictionMethod_getNext fuel e (AverageCyclicBuffer b) = next_of e AverageCyclicBuffer AverageCyclicBuffer_getValue b"
| "PredictionMethod_getNext fuel e (MedianCyclicBuffer b) =
     next_of e MedianCyclicBuffer (MedianCyclicBuffer_getValue (memory_beyond e)) b"
| "PredictionMethod_getNext fuel e (SamplingCyclicBuffer b) =
     (if bsize b > circular_buffersize b
      then map_option (\<lambda>r. bindE r (\<lambda>(e1, b1, v). Inr (e1, SamplingCyclicBuffer b1, v))) (SamplingCyclicBuffer_getValue fuel e b)
      else Some (Inr (e, SamplingCyclicBuffer b, 0)))"
| "PredictionMethod_getNext fuel e (MinimumCyclicBuffer b) = next_of e MinimumCyclicBuffer MinimumCyclicBuffer_getValue b"
| "PredictionMethod_getNext fuel e (MaximumCyclicBuffer b) = next_of e MaximumCyclicBuffer MaximumCyclicBuffer_getValue b"
| "PredictionMethod_getNext fuel e (GslHistogramPredictor h) =
     (case h of
        None \<Rightarrow> Some (Inr (e, GslHistogramPredictor h, 0))
      | Some s \<Rightarrow> let (e1, r) = rand e
                 in Some (Inr (e1, GslHistogramPredictor h, ll_of_float (gsl_histogram_pdf_sample e s (rand_ratio r)))))"
| "PredictionMethod_getNext fuel e (ConstantMeanPredictor p) =
     Some (Inr (e, ConstantMeanPredictor p, ConstantMeanPredictor_getNext p))"
| "PredictionMethod_getNext fuel e (SimpleLinearRegressionCyclicBuffer r b) =
     next_of e (SimpleLinearRegressionCyclicBuffer r) (SimpleLinearRegressionCyclicBuffer_getValue r) b"
| "PredictionMethod_getNext fuel e (BurgAutoRegressionCyclicBuffer b) =
     next_of e BurgAutoRegressionCyclicBuffer (AutoRegressionCyclicBuffer_getValue BurgAutoRegression_autoregress) b"
| "PredictionMethod_getNext fuel e (YulesWalkerAutoRegressionCyclicBuffer b) =
     next_of e YulesWalkerAutoRegressionCyclicBuffer (AutoRegressionCyclicBuffer_getValue YulesWalkerAutoRegression_autoregress) b"
| "PredictionMethod_getNext fuel e (MarkovModulatedProcess m) =
     (if bsize m > circular_buffersize m
      then let (e1, r1) = rand e; (e2, r2) = rand e1
           in map_option (\<lambda>r. bindE r (\<lambda>(m1, v). Inr (e2, MarkovModulatedProcess m1, v)))
                (MarkovModulatedProcess_getValue fuel r1 r2 m)
      else Some (Inr (e, MarkovModulatedProcess m, 0)))"
| "PredictionMethod_getNext fuel e NoPredictor = Some (Inr (e, NoPredictor, 0))"

definition lift_method :: "('b \<Rightarrow> prediction_method) \<Rightarrow> 'b res \<Rightarrow> prediction_method res" where
  "lift_method C r = bindE r (\<lambda>b. Inr (C b))"

fun on_cyclic :: "(cyclic \<Rightarrow> cyclic res) \<Rightarrow> (markov \<Rightarrow> markov res) \<Rightarrow> (constant_mean \<Rightarrow> constant_mean) \<Rightarrow> prediction_method \<Rightarrow> prediction_method res" where
  "on_cyclic f g h (ReplayCyclicBuffer b) = lift_method ReplayCyclicBuffer (f b)"
| "on_cyclic f g h (AverageCyclicBuffer b) = lift_method AverageCyclicBuffer (f b)"
| "on_cyclic f g h (MedianCyclicBuffer b) = lift_method MedianCyclicBuffer (f b)"
| "on_cyclic f g h (SamplingCyclicBuffer b) = lift_method SamplingCyclicBuffer (f b)"
| "on_cyclic f g h (MinimumCyclicBuffer b) = lift_method MinimumCyclicBuffer (f b)"
| "on_cyclic f g h (MaximumCyclicBuffer b) = lift_method MaximumCyclicBuffer (f b)"
| "on_cyclic f g h (GslHistogramPredictor s) = Inr (GslHistogramPredictor s)"
| "on_cyclic f g h (ConstantMeanPredictor p) = Inr (ConstantMeanPredictor (h p))"
| "on_cyclic f g h (SimpleLinearRegressionCyclicBuffer r b) = lift_method (SimpleLinearRegressionCyclicBuffer r) (f b)"
| "on_cyclic f g h (BurgAutoRegressionCyclicBuffer b) = lift_method BurgAutoRegressionCyclicBuffer (f b)"
| "on_cyclic f g h (YulesWalkerAutoRegressionCyclicBuffer b) = lift_method YulesWalkerAutoRegressionCyclicBuffer (f b)"
| "on_cyclic f g h (MarkovModulatedProcess m) = lift_method MarkovModulatedProcess (g m)"
| "on_cyclic f g h NoPredictor = Inr NoPredictor"

definition PredictionMethod_addPredictionInfo :: "int \<Rightarrow> prediction_method \<Rightarrow> prediction_method res" where
  "PredictionMethod_addPredictionInfo realTimeValueOnExit =
     on_cyclic (CyclicBufferBased_addPredictionInfo realTimeValueOnExit)
       (CyclicBufferBased_addPredictionInfo realTimeValueOnExit)
       (ConstantMeanPredictor_addPredictionInfo realTimeValueOnExit)"

definition PredictionMethod_importFromFile :: "string option \<Rightarrow> prediction_method \<Rightarrow> prediction_method res" where
  "PredictionMethod_importFromFile file pm =
     (case pm of
        GslHistogramPredictor s \<Rightarrow> Inr (GslHistogramPredictor file)
      | _ \<Rightarrow> on_cyclic (CyclicBufferBased_importFromFile file) (CyclicBufferBased_importFromFile file)
               (ConstantMeanPredictor_importFromFile file) pm)"

text \<open>The content of the exported file, if a file is written.\<close>

fun PredictionMethod_exportToFile :: "prediction_method \<Rightarrow> string option res" where
  "PredictionMethod_exportToFile (GslHistogramPredictor s) = Inr None"
| "PredictionMethod_exportToFile NoPredictor = Inr None"
| "PredictionMethod_exportToFile (ConstantMeanPredictor p) = Inr (Some (ConstantMeanPredictor_exportToFile p))"
| "PredictionMethod_exportToFile (MarkovModulatedProcess m) = bindE (CyclicBufferBased_exportToFile m) (\<lambda>s. Inr (Some s))"
| "PredictionMethod_exportToFile (SimpleLinearRegressionCyclicBuffer r b) = bindE (CyclicBufferBased_exportToFile b) (\<lambda>s. Inr (Some s))"
| "PredictionMethod_exportToFile (ReplayCyclicBuffer b) = bindE (CyclicBufferBased_exportToFile b) (\<lambda>s. Inr (Some s))"
| "PredictionMethod_exportToFile (AverageCyclicBuffer b) = bindE (CyclicBufferBased_exportToFile b) (\<lambda>s. Inr (Some s))"
| "PredictionMethod_exportToFile (MedianCyclicBuffer b) = bindE (CyclicBufferBased_exportToFile b) (\<lambda>s. Inr (Some s))"
| "PredictionMethod_exportToFile (SamplingCyclicBuffer b) = bindE (CyclicBufferBased_exportToFile b) (\<lambda>s. Inr (Some s))"
| "PredictionMethod_exportToFile (MinimumCyclicBuffer b) = bindE (CyclicBufferBased_exportToFile b) (\<lambda>s. Inr (Some s))"
| "PredictionMethod_exportToFile (MaximumCyclicBuffer b) = bindE (CyclicBufferBased_exportToFile b) (\<lambda>s. Inr (Some s))"
| "PredictionMethod_exportToFile (BurgAutoRegressionCyclicBuffer b) = bindE (CyclicBufferBased_exportToFile b) (\<lambda>s. Inr (Some s))"
| "PredictionMethod_exportToFile (YulesWalkerAutoRegressionCyclicBuffer b) = bindE (CyclicBufferBased_exportToFile b) (\<lambda>s. Inr (Some s))"

section \<open>Points of I/O\<close>

record io_state =
  ioThreads :: int
  traceHash :: int
  ioOperation :: int

definition IoState_getThreadsInIO :: "int \<Rightarrow> io_state \<Rightarrow> io_state" where
  "IoState_getThreadsInIO maxNumber s = (if ioThreads s \<ge> maxNumber then s\<lparr>ioThreads := maxNumber - 1\<rparr> else s)"

definition IoState_getIoPointFileSuffix :: "io_state \<Rightarrow> string" where
  "IoState_getIoPointFileSuffix s =
     (if ioThreads s \<noteq> 0 then ''_'' @ show_int (u32 (ioThreads s + 1)) @ ''thr'' else []) @
     (if traceHash s \<noteq> 0 then ''_'' @ show_int (traceHash s) @ ''trc''
      else if ioOperation s \<noteq> 0 then ''_'' @ show_int (ioOperation s) @ ''iop'' else [])"

definition PredictionMethod_import :: "machine \<Rightarrow> string \<Rightarrow> io_state \<Rightarrow> prediction_method \<Rightarrow> prediction_method res" where
  "PredictionMethod_import e prefix s pm =
     PredictionMethod_importFromFile (files e (prefix @ IoState_getIoPointFileSuffix s @ ''.csv'')) pm"

definition PredictionMethod_exportMeasurements :: "string \<Rightarrow> io_state \<Rightarrow> prediction_method \<Rightarrow> machine \<Rightarrow> machine res" where
  "PredictionMethod_exportMeasurements prefix s pm e =
     bindE (PredictionMethod_exportToFile pm) (\<lambda>r.
     Inr (case r of
            None \<Rightarrow> e
          | Some text \<Rightarrow> e\<lparr>files := (files e)(prefix @ IoState_getIoPointFileSuffix s @ ''.csv'' \<mapsto> text)\<rparr>))"

section \<open>The factory\<close>

record factory =
  method_type :: int
  markovStates :: int
  fbufferSize :: int
  importPrefix :: "string option"

text \<open>The constructors leave some members uninitialised; \<open>raw\<close> holds them.\<close>

definition PredictionMethodFactory_setPredictionMethod :: "string option \<Rightarrow> factory \<Rightarrow> factory \<times> bool" where
  "PredictionMethodFactory_setPredictionMethod selected f =
     (case selected of
        None \<Rightarrow> (f\<lparr>method_type := 1\<rparr>, True)
      | Some s \<Rightarrow>
          if s = ''avg'' then (f\<lparr>method_type := 1\<rparr>, True)
          else if s = ''median'' then (f\<lparr>method_type := 2\<rparr>, True)
          else if s = ''sampling'' then (f\<lparr>method_type := 3\<rparr>, True)
          else if s = ''min'' then (f\<lparr>method_type := 4\<rparr>, True)
          else if s = ''max'' then (f\<lparr>method_type := 5\<rparr>, True)
          else if s = ''gsl'' then (f\<lparr>method_type := 6\<rparr>, True)
          else if s = ''cmean'' then (f\<lparr>method_type := 7\<rparr>, True)
          else if s = ''linregr'' then (f\<lparr>method_type := 8\<rparr>, True)
          else if s = ''arburg'' then (f\<lparr>method_type := 9\<rparr>, True)
          else if s = ''aryulwalk'' then (f\<lparr>method_type := 10\<rparr>, True)
          else if take 6 s = ''markov''
          then (f\<lparr>method_type := 11, markovStates := (if length s > 6 then u32 (atoi (drop 6 s)) else markovStates f)\<rparr>, True)
          else if s = ''none'' then (f\<lparr>method_type := 12\<rparr>, True)
          else if s = ''replay'' then (f\<lparr>method_type := 0\<rparr>, True)
          else (f, False))"

definition PredictionMethodFactory_default :: factory where
  "PredictionMethodFactory_default = \<lparr>method_type = 2, markovStates = 2, fbufferSize = 16, importPrefix = None\<rparr>"

definition PredictionMethodFactory_of_method :: "string \<Rightarrow> int \<Rightarrow> factory \<Rightarrow> factory" where
  "PredictionMethodFactory_of_method selected bufSize raw =
     fst (PredictionMethodFactory_setPredictionMethod (Some selected)
       (raw\<lparr>method_type := 2, fbufferSize := bufSize, importPrefix := None\<rparr>))"

definition PredictionMethodFactory_of_parameters :: "string option \<Rightarrow> int \<Rightarrow> string option \<Rightarrow> factory \<Rightarrow> factory" where
  "PredictionMethodFactory_of_parameters selected bufSize prefix raw =
     (fst (PredictionMethodFactory_setPredictionMethod selected raw))
       \<lparr>fbufferSize := bufSize, importPrefix := prefix, markovStates := 2\<rparr>"

definition PredictionMethodFactory_setPredictionBufferSize :: "int \<Rightarrow> factory \<Rightarrow> factory \<times> bool" where
  "PredictionMethodFactory_setPredictionBufferSize bufSize f = (if bufSize > 0 then (f\<lparr>fbufferSize := bufSize\<rparr>, True) else (f, False))"

definition PredictionMethodFactory_setPredictionMethod_size :: "string option \<Rightarrow> int \<Rightarrow> factory \<Rightarrow> factory \<times> bool" where
  "PredictionMethodFactory_setPredictionMethod_size selected bufSize f =
     (let (f1, ok) = PredictionMethodFactory_setPredictionMethod selected f
      in if ok then PredictionMethodFactory_setPredictionBufferSize bufSize f1 else (f1, False))"

text \<open>The autoregressive methods allocate arrays of two elements less than the buffer has.\<close>

definition new_method :: "factory \<Rightarrow> prediction_method res" where
  "new_method f =
     (let n = fbufferSize f; b = CyclicBufferBased_CyclicBufferBased n; t = method_type f in
      if t = 1 then Inr (AverageCyclicBuffer b)
      else if t = 2 then Inr (MedianCyclicBuffer b)
      else if t = 3 then Inr (SamplingCyclicBuffer b)
      else if t = 4 then Inr (MinimumCyclicBuffer b)
      else if t = 5 then Inr (MaximumCyclicBuffer b)
      else if t = 6 then Inr (if importPrefix f \<noteq> None then GslHistogramPredictor None else ReplayCyclicBuffer b)
      else if t = 7 then Inr (ConstantMeanPredictor ConstantMeanPredictor_ConstantMeanPredictor)
      else if t = 8 then Inr (SimpleLinearRegressionCyclicBuffer (LinearRegression_LinearRegression n) b)
      else if t = 9 then (if n < 2 then Inl OutOfBounds else Inr (BurgAutoRegressionCyclicBuffer b))
      else if t = 10 then (if n < 2 then Inl OutOfBounds else Inr (YulesWalkerAutoRegressionCyclicBuffer b))
      else if t = 11 then Inr (MarkovModulatedProcess (MarkovModulatedProcess_alloc n (markovStates f)))
      else if t = 12 then Inr NoPredictor
      else Inr (ReplayCyclicBuffer b))"

definition PredictionMethodFactory_getPredictionMethod :: "machine \<Rightarrow> io_state \<Rightarrow> factory \<Rightarrow> prediction_method res" where
  "PredictionMethodFactory_getPredictionMethod e s f =
     bindE (new_method f) (\<lambda>pm.
     case importPrefix f of None \<Rightarrow> Inr pm | Some prefix \<Rightarrow> PredictionMethod_import e prefix s pm)"

section \<open>Recognition and exclusion\<close>

datatype recognizer = PremiscuousRecognizer | EmpiricalRecognizer int

definition EmpiricalRecognizer_default :: recognizer where
  "EmpiricalRecognizer_default = EmpiricalRecognizer 500000"

fun isRecognizedAsIoOperation :: "recognizer \<Rightarrow> int \<Rightarrow> bool" where
  "isRecognizedAsIoOperation PremiscuousRecognizer ioDuration = True"
| "isRecognizedAsIoOperation (EmpiricalRecognizer threshold) ioDuration = (ioDuration = 0 \<or> ioDuration > threshold)"

datatype excluder = IoExcluder rat | AllIoExcluder

definition IoExcluder_of_percentage :: "int \<Rightarrow> excluder" where
  "IoExcluder_of_percentage percentage = IoExcluder (f32 (f64 (f32 (of_int percentage) / 100)))"

fun shouldRandomlyExcludeIo :: "excluder \<Rightarrow> machine \<Rightarrow> machine \<times> bool" where
  "shouldRandomlyExcludeIo (IoExcluder acceptancePercentage) e =
     (let (e1, r) = rand e in (e1, f32 (f32 (of_nat r) / f32 2147483647) \<le> acceptancePercentage))"
| "shouldRandomlyExcludeIo AllIoExcluder e = (e, False)"

section \<open>Predictors\<close>

definition bindO :: "'a res option \<Rightarrow> ('a \<Rightarrow> 'b res option) \<Rightarrow> 'b res option" where
  "bindO r f = (case r of None \<Rightarrow> None | Some (Inl e) \<Rightarrow> Some (Inl e) | Some (Inr x) \<Rightarrow> f x)"

lemma bindO_Inr [simp]: "bindO (Some (Inr x)) f = f x"
  by (simp add: bindO_def)

lemma bindO_Inl [simp]: "bindO (Some (Inl e)) f = Some (Inl e)"
  by (simp add: bindO_def)

datatype level = NoIoPrediction | GlobalIoPrediction | StateAwareIoPrediction | OperationAwareIoPrediction

text \<open>\<open>lastIoPredictionMethod\<close> is the pointer that the \<open>IoHandler\<close> of each thread holds.\<close>

record io_predictor =
  level :: level
  threadsInIo :: int
  recognizer :: "recognizer option"
  excluder :: "excluder option"
  predictionMethodFactory :: factory
  predictionMethods :: "int \<times> int \<Rightarrow> prediction_method option"
  lastIoPredictionMethod :: "nat \<Rightarrow> (int \<times> int) option"

definition maxNumberOfThreadsPerformingIoInParallel :: int where
  "maxNumberOfThreadsPerformingIoInParallel = 32"

definition TOTAL_IO_OPERATIONS :: int where
  "TOTAL_IO_OPERATIONS = 30"

fun create_methods :: "machine \<Rightarrow> (int \<times> int) list \<Rightarrow> io_predictor \<Rightarrow> io_predictor res" where
  "create_methods e [] P = Inr P"
| "create_methods e ((j, i) # ks) P =
     bindE (PredictionMethodFactory_getPredictionMethod e \<lparr>ioThreads = j, traceHash = 0, ioOperation = i\<rparr>
              (predictionMethodFactory P)) (\<lambda>pm.
     create_methods e ks (P\<lparr>predictionMethods := (predictionMethods P)((j, i) \<mapsto> pm)\<rparr>))"

definition method_keys :: "level \<Rightarrow> (int \<times> int) list" where
  "method_keys l =
     (case l of
        GlobalIoPrediction \<Rightarrow> map (\<lambda>j. (j, 0)) [0..maxNumberOfThreadsPerformingIoInParallel - 1]
      | OperationAwareIoPrediction \<Rightarrow>
          [(j, i). j \<leftarrow> [0..maxNumberOfThreadsPerformingIoInParallel - 1], i \<leftarrow> [0..TOTAL_IO_OPERATIONS - 1]]
      | _ \<Rightarrow> [])"

text \<open>The constructors; \<open>threadsInIo\<close> stays as it was in memory.\<close>

definition IoPredictor_IoPredictor :: "machine \<Rightarrow> level \<Rightarrow> factory \<Rightarrow> int \<Rightarrow> io_predictor res" where
  "IoPredictor_IoPredictor e l f raw =
     create_methods e (method_keys l)
       \<lparr>level = l, threadsInIo = raw, recognizer = None, excluder = None, predictionMethodFactory = f,
        predictionMethods = (\<lambda>_. None), lastIoPredictionMethod = (\<lambda>_. None)\<rparr>"

definition IoPredictor_increaseThreadsInIo :: "io_predictor \<Rightarrow> io_predictor" where
  "IoPredictor_increaseThreadsInIo P = P\<lparr>threadsInIo := u32 (threadsInIo P + 1)\<rparr>"

definition IoPredictor_decreaseThreadsInIo :: "io_predictor \<Rightarrow> io_predictor" where
  "IoPredictor_decreaseThreadsInIo P = P\<lparr>threadsInIo := u32 (threadsInIo P - 1)\<rparr>"

text \<open>A thread in an I/O operation: the pointer of the thread, its state and the identifier of the method.\<close>

definition getIoUniqueInvocationPoint :: "vex_thread \<Rightarrow> int" where
  "getIoUniqueInvocationPoint s = int32 (ioInvocationPointHashValue (ioHandler s) * stackTraceHash (ioHandler s))"

text \<open>\<open>getPredictionMethodOfInvocationPoint\<close>: the key of the method, which is created when it is new.\<close>

definition StateAwareIoPrediction_getPredictionMethodOfInvocationPoint ::
  "machine \<Rightarrow> io_state \<Rightarrow> io_predictor \<Rightarrow> (io_predictor \<times> int \<times> int) res" where
  "StateAwareIoPrediction_getPredictionMethodOfInvocationPoint e s P =
     (let s1 = IoState_getThreadsInIO maxNumberOfThreadsPerformingIoInParallel s; k = (ioThreads s1, traceHash s1) in
      case predictionMethods P k of
        Some pm \<Rightarrow> Inr (P, k)
      | None \<Rightarrow> bindE (PredictionMethodFactory_getPredictionMethod e s1 (predictionMethodFactory P)) (\<lambda>pm.
                 Inr (P\<lparr>predictionMethods := (predictionMethods P)(k \<mapsto> pm)\<rparr>, k)))"

definition fixed_key :: "int \<Rightarrow> int \<Rightarrow> io_predictor \<Rightarrow> (io_predictor \<times> int \<times> int) res" where
  "fixed_key j i P =
     (if 0 \<le> j \<and> j < maxNumberOfThreadsPerformingIoInParallel \<and> 0 \<le> i \<and> i < TOTAL_IO_OPERATIONS
      then Inr (P, j, i) else Inl OutOfBounds)"

definition key_for_prediction :: "machine \<Rightarrow> int \<Rightarrow> vex_thread \<Rightarrow> io_predictor \<Rightarrow> (io_predictor \<times> int \<times> int) res" where
  "key_for_prediction e methodId s P =
     (case level P of
        GlobalIoPrediction \<Rightarrow> fixed_key (u32 (threadsInIo P - 1)) 0 P
      | StateAwareIoPrediction \<Rightarrow>
          StateAwareIoPrediction_getPredictionMethodOfInvocationPoint e
            \<lparr>ioThreads = threadsInIo P, traceHash = getIoUniqueInvocationPoint s, ioOperation = methodId\<rparr> P
      | _ \<Rightarrow> fixed_key (threadsInIo P) methodId P)"

definition IoPredictor_getPredictionValue ::
  "nat \<Rightarrow> nat \<Rightarrow> int \<Rightarrow> vex_thread \<Rightarrow> machine \<Rightarrow> io_predictor \<Rightarrow> (machine \<times> io_predictor \<times> vex_thread \<times> int) res option" where
  "IoPredictor_getPredictionValue fuel t methodId s e P =
     (if level P = NoIoPrediction then Some (Inr (e, P, s, 0))
      else case key_for_prediction e methodId s P of
        Inl x \<Rightarrow> Some (Inl x)
      | Inr (P1, k) \<Rightarrow>
          (case predictionMethods P1 k of
             None \<Rightarrow> Some (Inl NullDeref)
           | Some pm \<Rightarrow> bindO (PredictionMethod_getNext fuel e pm) (\<lambda>(e1, pm1, v).
               Some (Inr (e1, P1\<lparr>predictionMethods := (predictionMethods P1)(k \<mapsto> pm1),
                                 lastIoPredictionMethod := (lastIoPredictionMethod P1)(t := Some k)\<rparr>,
                          upd_io (IoHandler_setIoPredictionInfo v) s, v)))))"

definition IoPredictor_onIoEntryGetIoPrediction ::
  "nat \<Rightarrow> nat \<Rightarrow> int \<Rightarrow> vex_thread \<Rightarrow> machine \<Rightarrow> io_predictor \<Rightarrow> (machine \<times> io_predictor \<times> vex_thread) res option" where
  "IoPredictor_onIoEntryGetIoPrediction fuel t methodId s e P =
     bindO (IoPredictor_getPredictionValue fuel t methodId s e (IoPredictor_increaseThreadsInIo P)) (\<lambda>(e1, P1, s1, prediction).
     case recognizer P1 of
       Some r \<Rightarrow>
         if \<not> isRecognizedAsIoOperation r prediction
         then Some (Inr (e1, IoPredictor_decreaseThreadsInIo P1, upd_io IoHandler_recognizedCallAsCached s1))
         else (case excluder P1 of
                 None \<Rightarrow> Some (Inr (e1, P1, s1))
               | Some x \<Rightarrow> let (e2, excluded) = shouldRandomlyExcludeIo x e1
                           in Some (Inr (e2, P1, if excluded then upd_io IoHandler_ignoreNextIo s1 else s1)))
     | None \<Rightarrow>
         (case excluder P1 of
            None \<Rightarrow> Some (Inr (e1, P1, s1))
          | Some x \<Rightarrow> let (e2, excluded) = shouldRandomlyExcludeIo x e1
                      in Some (Inr (e2, P1, if excluded then upd_io IoHandler_ignoreNextIo s1 else s1))))"

definition key_for_measurement :: "machine \<Rightarrow> nat \<Rightarrow> int \<Rightarrow> vex_thread \<Rightarrow> io_predictor \<Rightarrow> (io_predictor \<times> int \<times> int) res" where
  "key_for_measurement e t methodId s P =
     (case level P of
        GlobalIoPrediction \<Rightarrow> fixed_key (threadsInIo P) 0 P
      | l \<Rightarrow> (case lastIoPredictionMethod P t of
           Some k \<Rightarrow> Inr (P, k)
         | None \<Rightarrow>
             if l = StateAwareIoPrediction
             then StateAwareIoPrediction_getPredictionMethodOfInvocationPoint e
                    \<lparr>ioThreads = threadsInIo P, traceHash = getIoUniqueInvocationPoint s, ioOperation = 0\<rparr> P
             else fixed_key (threadsInIo P) methodId P))"

definition IoPredictor_addPredictionInfo ::
  "nat \<Rightarrow> int \<Rightarrow> vex_thread \<Rightarrow> int \<Rightarrow> machine \<Rightarrow> io_predictor \<Rightarrow> io_predictor res" where
  "IoPredictor_addPredictionInfo t methodId s realTimeValueOnExit e P =
     (if level P = NoIoPrediction then Inr P
      else bindE (key_for_measurement e t methodId s P) (\<lambda>(P1, k).
           case predictionMethods P1 k of
             None \<Rightarrow> Inl NullDeref
           | Some pm \<Rightarrow> bindE (PredictionMethod_addPredictionInfo realTimeValueOnExit pm) (\<lambda>pm1.
                        Inr (P1\<lparr>predictionMethods := (predictionMethods P1)(k \<mapsto> pm1)\<rparr>))))"

definition IoPredictor_onIoExitAddRealTimeMeasurement ::
  "nat \<Rightarrow> int \<Rightarrow> vex_thread \<Rightarrow> int \<Rightarrow> machine \<Rightarrow> io_predictor \<Rightarrow> io_predictor res" where
  "IoPredictor_onIoExitAddRealTimeMeasurement t methodId s realTimeValueOnExit e P =
     IoPredictor_addPredictionInfo t methodId s realTimeValueOnExit e
       (if \<not> recognizingIoAsCached (ioHandler s) then IoPredictor_decreaseThreadsInIo P else P)"

fun export_methods :: "string \<Rightarrow> ((int \<times> int) \<times> io_state) list \<Rightarrow> io_predictor \<Rightarrow> machine \<Rightarrow> machine res" where
  "export_methods prefix [] P e = Inr e"
| "export_methods prefix ((k, s) # ks) P e =
     (case predictionMethods P k of
        None \<Rightarrow> Inl NullDeref
      | Some pm \<Rightarrow> bindE (PredictionMethod_exportMeasurements prefix s pm e) (export_methods prefix ks P))"

text \<open>\<open>order\<close> lists the keys of the maps of a state aware predictor in their order.\<close>

definition IoPredictor_exportMeasurements :: "string \<Rightarrow> (int \<times> int) list \<Rightarrow> io_predictor \<Rightarrow> machine \<Rightarrow> machine res" where
  "IoPredictor_exportMeasurements prefix order P e =
     (case level P of
        NoIoPrediction \<Rightarrow> Inr e
      | GlobalIoPrediction \<Rightarrow>
          export_methods prefix (map (\<lambda>(j, i). ((j, i), \<lparr>ioThreads = j, traceHash = 0, ioOperation = 0\<rparr>)) (method_keys GlobalIoPrediction)) P e
      | OperationAwareIoPrediction \<Rightarrow>
          export_methods prefix (map (\<lambda>(j, i). ((j, i), \<lparr>ioThreads = j, traceHash = 0, ioOperation = i\<rparr>))
            (filter (\<lambda>(j, i). i \<noteq> 0) (method_keys OperationAwareIoPrediction))) P e
      | StateAwareIoPrediction \<Rightarrow>
          export_methods prefix (map (\<lambda>(j, h). ((j, h), \<lparr>ioThreads = j, traceHash = h, ioOperation = 0\<rparr>)) order) P e)"

section \<open>Runs of I/O operations\<close>

text \<open>What the simulation does to a predictor: threads enter and leave I/O operations; at the end of an
  operation the protocol clears the flags of the thread.\<close>

record io_system =
  io_env :: machine
  io_pred :: io_predictor
  io_thread :: "nat \<Rightarrow> vex_thread"

datatype io_event = IoEntry nat int | IoExit nat int int

fun io_step :: "nat \<Rightarrow> io_event \<Rightarrow> io_system \<Rightarrow> io_system res option" where
  "io_step fuel (IoEntry t methodId) S =
     bindO (IoPredictor_onIoEntryGetIoPrediction fuel t methodId (io_thread S t) (io_env S) (io_pred S)) (\<lambda>(e, P, s).
     Some (Inr (S\<lparr>io_env := e, io_pred := P, io_thread := (io_thread S)(t := s)\<rparr>)))"
| "io_step fuel (IoExit t methodId realTime) S =
     Some (bindE (IoPredictor_onIoExitAddRealTimeMeasurement t methodId (io_thread S t) realTime (io_env S) (io_pred S)) (\<lambda>P.
     Inr (S\<lparr>io_pred := P, io_thread := (io_thread S)(t := upd_io IoHandler_resetIoStateFlags (io_thread S t))\<rparr>)))"

fun io_run :: "nat \<Rightarrow> io_event list \<Rightarrow> io_system \<Rightarrow> io_system res option" where
  "io_run fuel [] S = Some (Inr S)"
| "io_run fuel (ev # evs) S = bindO (io_step fuel ev S) (io_run fuel evs)"

text \<open>The threads that are in an I/O operation after an event; \<open>None\<close> for an event that cannot happen, or
  for a thread or an operation beyond the sizes of the tables.\<close>

fun io_active :: "nat set \<Rightarrow> io_event list \<Rightarrow> nat set option" where
  "io_active A [] = Some A"
| "io_active A (IoEntry t methodId # evs) =
     (if t \<notin> A \<and> card A < 31 \<and> 0 \<le> methodId \<and> methodId < TOTAL_IO_OPERATIONS then io_active (insert t A) evs else None)"
| "io_active A (IoExit t methodId realTime # evs) =
     (if t \<in> A \<and> 0 \<le> methodId \<and> methodId < TOTAL_IO_OPERATIONS then io_active (A - {t}) evs else None)"


section \<open>Soundness of the predictors\<close>

text \<open>The methods whose predictions use nothing but arithmetic on the measurements.\<close>

definition cyclic_ok :: "cyclic \<Rightarrow> bool" where
  "cyclic_ok b \<longleftrightarrow> 0 < circular_buffersize b \<and> circular_buffersize b < 2 ^ 32 \<and>
     length (buffer b) = nat (circular_buffersize b) \<and> 0 \<le> bsize b"

fun sound_method :: "prediction_method \<Rightarrow> bool" where
  "sound_method (ReplayCyclicBuffer b) = cyclic_ok b"
| "sound_method (AverageCyclicBuffer b) = cyclic_ok b"
| "sound_method (MedianCyclicBuffer b) = cyclic_ok b"
| "sound_method (MinimumCyclicBuffer b) = cyclic_ok b"
| "sound_method (MaximumCyclicBuffer b) = cyclic_ok b"
| "sound_method (ConstantMeanPredictor p) = True"
| "sound_method NoPredictor = True"
| "sound_method pm = False"

definition sound_factory :: "factory \<Rightarrow> bool" where
  "sound_factory f \<longleftrightarrow> importPrefix f = None \<and> 0 < fbufferSize f \<and> fbufferSize f < 2 ^ 32 \<and>
     method_type f \<notin> {3, 6, 8, 9, 10, 11}"

lemma cyclic_ok_new: "0 < n \<Longrightarrow> n < 2 ^ 32 \<Longrightarrow> cyclic_ok (CyclicBufferBased_CyclicBufferBased n)"
  by (simp add: cyclic_ok_def CyclicBufferBased_CyclicBufferBased_def)

lemma sound_factory_method:
  assumes "sound_factory f"
  shows "\<exists>pm. PredictionMethodFactory_getPredictionMethod e s f = Inr pm \<and> sound_method pm"
  using assms cyclic_ok_new [of "fbufferSize f"]
  by (auto simp: PredictionMethodFactory_getPredictionMethod_def new_method_def sound_factory_def Let_def)

lemma cyclic_ok_bindex: "cyclic_ok (b\<lparr>bindex := i\<rparr>) = cyclic_ok b"
  by (simp add: cyclic_ok_def)

lemma cyclic_ok_progress [simp]: "cyclic_ok (CyclicBufferBased_progressIndex b) = cyclic_ok b"
  by (simp add: CyclicBufferBased_progressIndex_def cyclic_ok_bindex)

lemma cyclic_ok_current: "cyclic_ok b \<Longrightarrow> bsize b > circular_buffersize b \<Longrightarrow> CyclicBufferBased_getCurrentSize b = circular_buffersize b"
  by (simp add: CyclicBufferBased_getCurrentSize_def)

lemma cyclic_ok_add:
  assumes "cyclic_ok b"
  shows "\<exists>b1. CyclicBufferBased_addPredictionInfo x b = Inr b1 \<and> cyclic_ok b1"
proof -
  let ?k = "nat (bsize b mod circular_buffersize b)"
  have "?k < length (buffer b)" using assms by (simp add: cyclic_ok_def nat_less_iff)
  then show ?thesis using assms
    by (auto simp: CyclicBufferBased_addPredictionInfo_def cyclic_ok_def u32_def Let_def)
qed

lemma replay_sound:
  "cyclic_ok b \<Longrightarrow> \<exists>b1 v. ReplayCyclicBuffer_getValue b = Inr (b1, v) \<and> cyclic_ok b1"
  by (simp add: ReplayCyclicBuffer_getValue_def Let_def at_idx_def cyclic_ok_def nat_less_iff)

lemma average_sound:
  assumes "cyclic_ok b" "bsize b > circular_buffersize b"
  shows "\<exists>b1 v. AverageCyclicBuffer_getValue b = Inr (b1, v) \<and> cyclic_ok b1"
  using assms cyclic_ok_current [OF assms]
  by (simp add: AverageCyclicBuffer_getValue_def AverageCyclicBuffer_getAverage_def cdiv_def)
     (simp add: cyclic_ok_def)

lemma minimum_sound: "cyclic_ok b \<Longrightarrow> \<exists>b1 v. MinimumCyclicBuffer_getValue b = Inr (b1, v) \<and> cyclic_ok b1"
  by (simp add: MinimumCyclicBuffer_getValue_def)

lemma maximum_sound: "cyclic_ok b \<Longrightarrow> \<exists>b1 v. MaximumCyclicBuffer_getValue b = Inr (b1, v) \<and> cyclic_ok b1"
  by (simp add: MaximumCyclicBuffer_getValue_def)

lemma median_sound:
  assumes "cyclic_ok b" "bsize b > circular_buffersize b"
  shows "\<exists>b1 v. MedianCyclicBuffer_getValue beyond b = Inr (b1, v) \<and> cyclic_ok b1"
proof -
  define m where "m = nat (circular_buffersize b)"
  have m: "circular_buffersize b = int m" "0 < m" "length (buffer b) = m"
    using assms(1) by (auto simp: m_def cyclic_ok_def)
  have "MedianCyclicBuffer_sort beyond 0 m (buffer b) = Inr (sort (buffer b))"
    using median_sort_is_sort [of beyond "buffer b"] m(3) by simp
  moreover have "x sdiv 2 = x div 2" if "0 \<le> x" for x :: int
    using that by (cases "x = 0") (simp_all add: signed_divide_int_def)
  then have "nat (int m sdiv 2) < m" "nat (int m sdiv 2 - 1) < m" "nat ((int m - 1) sdiv 2) < m"
    using m(2) by simp_all
  ultimately show ?thesis
    using m cyclic_ok_current [OF assms] assms(1)
    by (simp add: MedianCyclicBuffer_getValue_def Let_def at_idx_def)
qed

definition sound_result :: "machine \<Rightarrow> (machine \<times> prediction_method \<times> int) res option \<Rightarrow> bool" where
  "sound_result e r \<longleftrightarrow> (\<exists>pm v. r = Some (Inr (e, pm, v)) \<and> sound_method pm)"

lemma next_of_sound:
  assumes "cyclic_ok b" "bsize b > circular_buffersize b \<Longrightarrow> \<exists>b1 v. f b = Inr (b1, v) \<and> cyclic_ok b1"
    "\<And>b. sound_method (C b) = cyclic_ok b"
  shows "sound_result e (next_of e C f b)"
  using assms
  by (cases "bsize b > circular_buffersize b") (auto simp: sound_result_def next_of_def CyclicBufferBased_getNext_def)

lemma getNext_sound:
  assumes "sound_method pm"
  shows "sound_result e (PredictionMethod_getNext fuel e pm)"
  using assms
  by (cases pm)
     (auto intro!: next_of_sound replay_sound average_sound minimum_sound maximum_sound median_sound,
      simp_all add: sound_result_def)

lemma addPredictionInfo_sound:
  assumes "sound_method pm"
  shows "\<exists>pm1. PredictionMethod_addPredictionInfo x pm = Inr pm1 \<and> sound_method pm1"
proof -
  have lift: "\<exists>pm1. lift_method C (CyclicBufferBased_addPredictionInfo x b) = Inr pm1 \<and> sound_method pm1"
    if "cyclic_ok b" "\<And>b. sound_method (C b) = cyclic_ok b" for C b
    using cyclic_ok_add [OF that(1), of x] that(2) by (auto simp: lift_method_def)
  show ?thesis using assms
    by (cases pm) (auto simp: PredictionMethod_addPredictionInfo_def intro: lift)
qed


definition predictor_ok :: "io_predictor \<Rightarrow> bool" where
  "predictor_ok P \<longleftrightarrow> sound_factory (predictionMethodFactory P) \<and>
     (\<forall>k pm. predictionMethods P k = Some pm \<longrightarrow> sound_method pm) \<and>
     (\<forall>k \<in> set (method_keys (level P)). predictionMethods P k \<noteq> None) \<and>
     (\<forall>t k. lastIoPredictionMethod P t = Some k \<longrightarrow> predictionMethods P k \<noteq> None)"

lemma predictor_ok_count [simp]: "predictor_ok (P\<lparr>threadsInIo := n\<rparr>) = predictor_ok P"
  "predictor_ok (P\<lparr>recognizer := r\<rparr>) = predictor_ok P" "predictor_ok (P\<lparr>excluder := x\<rparr>) = predictor_ok P"
  by (simp_all add: predictor_ok_def)

lemma predictor_ok_insert:
  "predictor_ok P \<Longrightarrow> sound_method pm \<Longrightarrow> predictor_ok (P\<lparr>predictionMethods := (predictionMethods P)(k \<mapsto> pm)\<rparr>)"
  by (simp add: predictor_ok_def)

lemma predictor_ok_last:
  "predictor_ok P \<Longrightarrow> predictionMethods P k \<noteq> None \<Longrightarrow>
   predictor_ok (P\<lparr>lastIoPredictionMethod := (lastIoPredictionMethod P)(t := Some k)\<rparr>)"
  by (cases k) (auto simp: predictor_ok_def)

lemma create_methods_sound:
  assumes "sound_factory (predictionMethodFactory P)" "\<forall>k pm. predictionMethods P k = Some pm \<longrightarrow> sound_method pm"
  shows "\<exists>M. create_methods e ks P = Inr (P\<lparr>predictionMethods := M\<rparr>) \<and> (\<forall>k pm. M k = Some pm \<longrightarrow> sound_method pm) \<and>
           (\<forall>k. k \<in> set ks \<or> predictionMethods P k \<noteq> None \<longrightarrow> M k \<noteq> None)"
  using assms
proof (induction ks arbitrary: P)
  case Nil
  then show ?case by (intro exI [of _ "predictionMethods P"]) simp
next
  case (Cons k ks)
  obtain j i where k: "k = (j, i)" by (cases k)
  obtain pm where pm: "PredictionMethodFactory_getPredictionMethod e \<lparr>ioThreads = j, traceHash = 0, ioOperation = i\<rparr>
      (predictionMethodFactory P) = Inr pm" "sound_method pm"
    using sound_factory_method [OF Cons.prems(1)] by blast
  let ?P = "P\<lparr>predictionMethods := (predictionMethods P)((j, i) \<mapsto> pm)\<rparr>"
  have "\<exists>M. create_methods e ks ?P = Inr (?P\<lparr>predictionMethods := M\<rparr>) \<and> (\<forall>k pm. M k = Some pm \<longrightarrow> sound_method pm) \<and>
           (\<forall>k. k \<in> set ks \<or> predictionMethods ?P k \<noteq> None \<longrightarrow> M k \<noteq> None)"
    using Cons.prems pm(2) by (intro Cons.IH) simp_all
  then obtain M where M: "create_methods e ks ?P = Inr (?P\<lparr>predictionMethods := M\<rparr>)"
    "\<forall>k pm. M k = Some pm \<longrightarrow> sound_method pm" "\<forall>k. k \<in> set ks \<or> predictionMethods ?P k \<noteq> None \<longrightarrow> M k \<noteq> None"
    by blast
  have "create_methods e ((j, i) # ks) P = Inr (P\<lparr>predictionMethods := M\<rparr>)" using M(1) pm(1) by simp
  moreover have "\<forall>q. q \<in> set ((j, i) # ks) \<or> predictionMethods P q \<noteq> None \<longrightarrow> M q \<noteq> None"
    using M(3) by fastforce
  ultimately show ?case using k M(2) by blast
qed

lemma constructor_sound:
  assumes "sound_factory f"
  shows "\<exists>P. IoPredictor_IoPredictor e l f n = Inr P \<and> predictor_ok P \<and> threadsInIo P = n"
  using create_methods_sound [of "\<lparr>level = l, threadsInIo = n, recognizer = None, excluder = None,
      predictionMethodFactory = f, predictionMethods = (\<lambda>_. None), lastIoPredictionMethod = (\<lambda>_. None)\<rparr>" e "method_keys l"]
    assms
  by (auto simp: IoPredictor_IoPredictor_def predictor_ok_def)

text \<open>A key that is found, in a map that may have grown by a new method.\<close>

definition found :: "io_predictor \<Rightarrow> (io_predictor \<times> int \<times> int) res \<Rightarrow> bool" where
  "found P r \<longleftrightarrow> (\<exists>M k pm. r = Inr (P\<lparr>predictionMethods := M\<rparr>, k) \<and> predictor_ok (P\<lparr>predictionMethods := M\<rparr>) \<and>
     M k = Some pm \<and> sound_method pm)"

lemma found_here: "predictor_ok P \<Longrightarrow> predictionMethods P k \<noteq> None \<Longrightarrow> found P (Inr (P, k))"
  unfolding found_def by (intro exI [of _ "predictionMethods P"]) (cases k; auto simp: predictor_ok_def)

lemma found_state:
  assumes "predictor_ok P"
  shows "found P (StateAwareIoPrediction_getPredictionMethodOfInvocationPoint e s P)"
proof -
  let ?s = "IoState_getThreadsInIO maxNumberOfThreadsPerformingIoInParallel s"
  let ?k = "(ioThreads ?s, traceHash ?s)"
  show ?thesis
  proof (cases "predictionMethods P ?k")
    case None
    obtain pm where pm: "PredictionMethodFactory_getPredictionMethod e ?s (predictionMethodFactory P) = Inr pm" "sound_method pm"
      using sound_factory_method assms unfolding predictor_ok_def by blast
    with None show ?thesis using predictor_ok_insert [OF assms pm(2), of ?k]
      by (auto simp: StateAwareIoPrediction_getPredictionMethodOfInvocationPoint_def Let_def found_def)
  next
    case (Some pm)
    then show ?thesis using found_here [OF assms, of ?k]
      by (simp add: StateAwareIoPrediction_getPredictionMethodOfInvocationPoint_def Let_def)
  qed
qed

lemma found_fixed:
  assumes "predictor_ok P" "0 \<le> j" "j < 32" "0 \<le> i" "i < 30" "level P = OperationAwareIoPrediction \<or> level P = GlobalIoPrediction \<and> i = 0"
  shows "found P (fixed_key j i P)"
proof -
  have "(j, i) \<in> set (method_keys (level P))"
    using assms(2-6) by (force simp: method_keys_def maxNumberOfThreadsPerformingIoInParallel_def TOTAL_IO_OPERATIONS_def)
  then have "predictionMethods P (j, i) \<noteq> None" using assms(1) unfolding predictor_ok_def by blast
  then show ?thesis
    using found_here [OF assms(1)] assms(2-5)
    by (simp add: fixed_key_def maxNumberOfThreadsPerformingIoInParallel_def TOTAL_IO_OPERATIONS_def)
qed

lemma found_for_prediction:
  assumes "predictor_ok P" "level P \<noteq> NoIoPrediction" "0 < threadsInIo P" "threadsInIo P < 32" "0 \<le> methodId" "methodId < TOTAL_IO_OPERATIONS"
  shows "found P (key_for_prediction e methodId s P)"
  using assms found_state [OF assms(1)]
  by (cases "level P") (auto simp: key_for_prediction_def u32_def TOTAL_IO_OPERATIONS_def intro!: found_fixed)

lemma found_for_measurement:
  assumes "predictor_ok P" "level P \<noteq> NoIoPrediction" "0 \<le> threadsInIo P" "threadsInIo P < 32" "0 \<le> methodId" "methodId < TOTAL_IO_OPERATIONS"
  shows "found P (key_for_measurement e t methodId s P)"
proof (cases "lastIoPredictionMethod P t")
  case None
  then show ?thesis using assms found_state [OF assms(1)]
    by (cases "level P") (auto simp: key_for_measurement_def TOTAL_IO_OPERATIONS_def intro!: found_fixed)
next
  case (Some k)
  then have "predictionMethods P k \<noteq> None" using assms(1) unfolding predictor_ok_def by blast
  then show ?thesis using assms Some found_here [OF assms(1), of k]
    by (cases "level P") (auto simp: key_for_measurement_def intro!: found_fixed)
qed


abbreviation cached :: "vex_thread \<Rightarrow> bool" where
  "cached s \<equiv> recognizingIoAsCached (ioHandler s)"

lemma cached_upd [simp]:
  "cached (upd_io (IoHandler_setIoPredictionInfo v) s) = cached s"
  "cached (upd_io IoHandler_ignoreNextIo s) = cached s"
  "cached (upd_io IoHandler_recognizedCallAsCached s)"
  "\<not> cached (upd_io IoHandler_resetIoStateFlags s)"
  by (simp_all add: upd_io_def vex_defs)

lemma getPredictionValue_sound:
  assumes "predictor_ok P" "0 < threadsInIo P" "threadsInIo P < 32" "0 \<le> methodId" "methodId < TOTAL_IO_OPERATIONS"
  shows "\<exists>e1 P1 s1 v. IoPredictor_getPredictionValue fuel t methodId s e P = Some (Inr (e1, P1, s1, v)) \<and>
           predictor_ok P1 \<and> threadsInIo P1 = threadsInIo P \<and> cached s1 = cached s"
proof (cases "level P = NoIoPrediction")
  case True
  then show ?thesis using assms(1) by (simp add: IoPredictor_getPredictionValue_def)
next
  case False
  obtain M k pm where k: "key_for_prediction e methodId s P = Inr (P\<lparr>predictionMethods := M\<rparr>, k)"
    "predictor_ok (P\<lparr>predictionMethods := M\<rparr>)" "M k = Some pm" "sound_method pm"
    using found_for_prediction [OF assms(1) False assms(2-)] unfolding found_def by blast
  obtain pm1 v where pm1: "PredictionMethod_getNext fuel e pm = Some (Inr (e, pm1, v))" "sound_method pm1"
    using getNext_sound [OF k(4), of e fuel] unfolding sound_result_def by blast
  let ?P = "P\<lparr>predictionMethods := M(k \<mapsto> pm1)\<rparr>"
  have "predictor_ok ?P" using predictor_ok_insert [OF k(2) pm1(2), of k] by simp
  then have "predictor_ok (?P\<lparr>lastIoPredictionMethod := (lastIoPredictionMethod ?P)(t := Some k)\<rparr>)"
    by (rule predictor_ok_last) simp
  then show ?thesis using False k(1,3) pm1(1) by (simp add: IoPredictor_getPredictionValue_def)
qed

lemma addPredictionInfo_predictor:
  assumes "predictor_ok P" "0 \<le> threadsInIo P" "threadsInIo P < 32" "0 \<le> methodId" "methodId < TOTAL_IO_OPERATIONS"
  shows "\<exists>P1. IoPredictor_addPredictionInfo t methodId s x e P = Inr P1 \<and> predictor_ok P1 \<and> threadsInIo P1 = threadsInIo P"
proof (cases "level P = NoIoPrediction")
  case True
  then show ?thesis using assms(1) by (simp add: IoPredictor_addPredictionInfo_def)
next
  case False
  obtain M k pm where k: "key_for_measurement e t methodId s P = Inr (P\<lparr>predictionMethods := M\<rparr>, k)"
    "predictor_ok (P\<lparr>predictionMethods := M\<rparr>)" "M k = Some pm" "sound_method pm"
    using found_for_measurement [OF assms(1) False assms(2-)] unfolding found_def by blast
  obtain pm1 where pm1: "PredictionMethod_addPredictionInfo x pm = Inr pm1" "sound_method pm1"
    using addPredictionInfo_sound [OF k(4)] by blast
  have "predictor_ok (P\<lparr>predictionMethods := M(k \<mapsto> pm1)\<rparr>)"
    using predictor_ok_insert [OF k(2) pm1(2), of k] by simp
  then show ?thesis using False k(1,3) pm1(1) by (simp add: IoPredictor_addPredictionInfo_def)
qed

text \<open>A thread that enters an operation is entry_counted exactly if the operation is not taken as cached.\<close>

definition entry_counted :: "int \<Rightarrow> (machine \<times> io_predictor \<times> vex_thread) res option \<Rightarrow> bool" where
  "entry_counted n r \<longleftrightarrow> (\<exists>e1 P1 s1. r = Some (Inr (e1, P1, s1)) \<and> predictor_ok P1 \<and> threadsInIo P1 = n + (if cached s1 then 0 else 1))"

lemma entry_countedI: "predictor_ok P1 \<Longrightarrow> threadsInIo P1 = n + (if cached s1 then 0 else 1) \<Longrightarrow> entry_counted n (Some (Inr (e1, P1, s1)))"
  by (auto simp: entry_counted_def)

lemma onIoEntry_sound:
  assumes "predictor_ok P" "0 \<le> threadsInIo P" "threadsInIo P < 31" "0 \<le> methodId" "methodId < TOTAL_IO_OPERATIONS" "\<not> cached s"
  shows "entry_counted (threadsInIo P) (IoPredictor_onIoEntryGetIoPrediction fuel t methodId s e P)"
proof -
  let ?P = "IoPredictor_increaseThreadsInIo P"
  have "predictor_ok ?P" "threadsInIo ?P = threadsInIo P + 1"
    using assms(1-3) by (simp_all add: IoPredictor_increaseThreadsInIo_def u32_def)
  then obtain e1 P1 s1 v where v: "IoPredictor_getPredictionValue fuel t methodId s e ?P = Some (Inr (e1, P1, s1, v))"
    "predictor_ok P1" "threadsInIo P1 = threadsInIo P + 1" "\<not> cached s1"
    using getPredictionValue_sound [of ?P methodId fuel t s e] assms(2-6) by auto
  have "threadsInIo (IoPredictor_decreaseThreadsInIo P1) = threadsInIo P" "predictor_ok (IoPredictor_decreaseThreadsInIo P1)"
    using v(2,3) assms(2,3) by (simp_all add: IoPredictor_decreaseThreadsInIo_def u32_def)
  then show ?thesis using v
    by (auto simp: IoPredictor_onIoEntryGetIoPrediction_def split: option.split prod.split intro!: entry_countedI)
qed

lemma onIoExit_sound:
  assumes "predictor_ok P" "0 \<le> threadsInIo P" "threadsInIo P < 32" "\<not> cached s \<Longrightarrow> 0 < threadsInIo P"
    "0 \<le> methodId" "methodId < TOTAL_IO_OPERATIONS"
  shows "\<exists>P1. IoPredictor_onIoExitAddRealTimeMeasurement t methodId s x e P = Inr P1 \<and> predictor_ok P1 \<and>
           threadsInIo P1 = threadsInIo P - (if cached s then 0 else 1)"
proof -
  let ?P = "if \<not> cached s then IoPredictor_decreaseThreadsInIo P else P"
  have "predictor_ok ?P" "threadsInIo ?P = threadsInIo P - (if cached s then 0 else 1)"
    using assms(1-4) by (simp_all add: IoPredictor_decreaseThreadsInIo_def u32_def)
  then show ?thesis
    using addPredictionInfo_predictor [of ?P methodId t s x e] assms(2-6)
    by (auto simp: IoPredictor_onIoExitAddRealTimeMeasurement_def)
qed

section \<open>Invariant of the runs\<close>

definition io_ok :: "nat set \<Rightarrow> io_system \<Rightarrow> bool" where
  "io_ok A S \<longleftrightarrow> finite A \<and> card A < 32 \<and> (\<forall>t. t \<notin> A \<longrightarrow> \<not> cached (io_thread S t)) \<and> predictor_ok (io_pred S) \<and>
     threadsInIo (io_pred S) = int (card {t \<in> A. \<not> cached (io_thread S t)})"

lemma io_ok_bounds: "io_ok A S \<Longrightarrow> threadsInIo (io_pred S) \<le> int (card A)"
  unfolding io_ok_def by (metis (no_types, lifting) card_mono mem_Collect_eq of_nat_mono subsetI)

lemma io_entry:
  assumes "io_ok A S" "t \<notin> A" "card A < 31" "0 \<le> methodId" "methodId < TOTAL_IO_OPERATIONS"
  shows "\<exists>S1. io_step fuel (IoEntry t methodId) S = Some (Inr S1) \<and> io_ok (insert t A) S1"
proof -
  have ok: "predictor_ok (io_pred S)" "0 \<le> threadsInIo (io_pred S)" "threadsInIo (io_pred S) < 31" "\<not> cached (io_thread S t)"
    using assms(1-3) io_ok_bounds [OF assms(1)] by (auto simp: io_ok_def)
  obtain e1 P1 s1 where r: "IoPredictor_onIoEntryGetIoPrediction fuel t methodId (io_thread S t) (io_env S) (io_pred S)
      = Some (Inr (e1, P1, s1))" "predictor_ok P1" "threadsInIo P1 = threadsInIo (io_pred S) + (if cached s1 then 0 else 1)"
    using onIoEntry_sound [OF ok(1-3) assms(4,5) ok(4)] unfolding entry_counted_def by blast
  have "{u \<in> insert t A. \<not> cached (((io_thread S)(t := s1)) u)}
      = (if cached s1 then {} else {t}) \<union> {u \<in> A. \<not> cached (io_thread S u)}"
    using assms(2) by auto
  then show ?thesis using assms(1-3) r by (auto simp: io_ok_def)
qed

lemma io_exit:
  assumes "io_ok A S" "t \<in> A" "0 \<le> methodId" "methodId < TOTAL_IO_OPERATIONS"
  shows "\<exists>S1. io_step fuel (IoExit t methodId x) S = Some (Inr S1) \<and> io_ok (A - {t}) S1"
proof -
  let ?c = "cached (io_thread S t)" and ?B = "{u \<in> A. \<not> cached (io_thread S u)}"
  have fin: "finite ?B" using assms(1) by (simp add: io_ok_def)
  have ok: "predictor_ok (io_pred S)" "0 \<le> threadsInIo (io_pred S)" "threadsInIo (io_pred S) < 32"
    using assms(1) io_ok_bounds [OF assms(1)] by (auto simp: io_ok_def)
  have pos: "0 < card ?B" if "\<not> ?c" using that assms(2) fin by (auto simp: card_gt_0_iff)
  then have "0 < threadsInIo (io_pred S)" if "\<not> ?c" using that assms(1) by (simp add: io_ok_def)
  then obtain P1 where r: "IoPredictor_onIoExitAddRealTimeMeasurement t methodId (io_thread S t) x (io_env S) (io_pred S) = Inr P1"
    "predictor_ok P1" "threadsInIo P1 = threadsInIo (io_pred S) - (if ?c then 0 else 1)"
    using onIoExit_sound [OF ok _ assms(3,4)] by blast
  have "{u \<in> A - {t}. \<not> cached (((io_thread S)(t := upd_io IoHandler_resetIoStateFlags (io_thread S t))) u)} = ?B - {t}"
    by auto
  moreover have "int (card (?B - {t})) = int (card ?B) - (if ?c then 0 else 1)"
    using assms(2) fin pos by (auto simp: card_Diff_singleton_if)
  moreover have "card (A - {t}) < 32" using assms(1) card_Diff1_le [of A t] by (simp add: io_ok_def)
  ultimately show ?thesis using assms(1) r by (auto simp: io_ok_def)
qed

lemma io_run_sound:
  assumes "io_ok A S" "io_active A evs = Some B"
  shows "\<exists>S1. io_run fuel evs S = Some (Inr S1) \<and> io_ok B S1"
  using assms
proof (induction A evs arbitrary: S rule: io_active.induct)
  case (2 A t methodId evs)
  then have legal: "t \<notin> A" "card A < 31" "0 \<le> methodId" "methodId < TOTAL_IO_OPERATIONS" by (auto split: if_splits)
  obtain S1 where "io_step fuel (IoEntry t methodId) S = Some (Inr S1)" "io_ok (insert t A) S1"
    using io_entry [OF 2(2) legal] by blast
  with 2 legal show ?case by (auto simp del: io_step.simps)
next
  case (3 A t methodId x evs)
  then have legal: "t \<in> A" "0 \<le> methodId" "methodId < TOTAL_IO_OPERATIONS" by (auto split: if_splits)
  obtain S1 where "io_step fuel (IoExit t methodId x) S = Some (Inr S1)" "io_ok (A - {t}) S1"
    using io_exit [OF 3(2) legal] by blast
  with 3 legal show ?case by (auto simp del: io_step.simps)
qed simp



text \<open>
  Every option \<open>markovN\<close> of the I/O parameters, for a number N of states, gives a Markov process of two
  states: the constructor of the factory resets the number that it has just read from the name of the method.
\<close>

theorem markov_state_option_ignored:
  "new_method (PredictionMethodFactory_of_parameters (Some (''markov'' @ s)) n prefix raw)
   = Inr (MarkovModulatedProcess (MarkovModulatedProcess_alloc n 2))"
  by (simp add: PredictionMethodFactory_of_parameters_def PredictionMethodFactory_setPredictionMethod_def new_method_def)

end
