(* ===== verification/Vex_Profiler.thy ===== *)
theory Vex_Profiler
  imports Vex_Thread Vex_Text
begin

text \<open>
  The method profiler: the times of a method call (\<open>profiler/MethodCallInfo\<close>), the measure of a method
  (\<open>profiler/PerformanceMeasure\<close>), the method stack of a thread (\<open>threads/MethodLog\<close> and the profiling
  methods of \<open>threads/ThreadState.cpp\<close>), the policies that end the profiling of a method
  (\<open>profiler/ProfilingInvalidationPolicy\<close>) and the merging of the measures of all threads
  (\<open>profiler/EventLogger.cpp\<close>).

  The call infos of a thread are reused: the stack holds indices into the storage of the thread. Measures
  are shared between threads, loggers and each other, so they are in one store; an access to a deleted
  measure fails. Counters are natural numbers modulo \<open>2 ^ 32\<close>.
\<close>

definition u32_succ :: "nat \<Rightarrow> nat" where
  "u32_succ n = (n + 1) mod 4294967296"

definition u32_pred :: "nat \<Rightarrow> nat" where
  "u32_pred n = (n + 4294967295) mod 4294967296"

section \<open>A method call\<close>

text \<open>\<open>correspondingStackTraceMeasure\<close> is the member of the subclass \<open>StackTraceInfo\<close>. Members that are never
  read are left out.\<close>

record call_info =
  call_methodId :: int
  entry_timestamp :: int
  real_entry_timestamp :: int
  monitor_waiting_timestamp :: int
  io_waiting_timestamp :: int
  callee_time :: int
  real_callee_time :: int
  lost_time :: int
  lost_time_callee :: int
  callee_monitor_waiting_timestamp :: int
  callee_io_waiting_timestamp :: int
  shouldResetVTFactor :: bool
  call_recursive :: bool
  correspondingStackTraceMeasure :: "nat option"

text \<open>\<open>setInfo\<close> takes the times of the clocks of the thread and leaves the member of the subclass.\<close>

definition MethodCallInfo_setInfo :: "int \<Rightarrow> timers \<Rightarrow> call_info \<Rightarrow> call_info" where
  "MethodCallInfo_setInfo k t c =
     c\<lparr>call_methodId := k, entry_timestamp := virtualTime t, real_entry_timestamp := estimatedRealTime t,
       monitor_waiting_timestamp := monitorWaitingTime t, io_waiting_timestamp := ioWaitingTime t,
       callee_time := 0, real_callee_time := 0, lost_time := 0, lost_time_callee := 0,
       callee_monitor_waiting_timestamp := 0, callee_io_waiting_timestamp := 0,
       shouldResetVTFactor := False, call_recursive := False\<rparr>"

definition StackTraceInfo_setInfo :: "int \<Rightarrow> timers \<Rightarrow> nat option \<Rightarrow> call_info \<Rightarrow> call_info" where
  "StackTraceInfo_setInfo k t pm c =
     MethodCallInfo_setInfo k t (c\<lparr>correspondingStackTraceMeasure := pm\<rparr>)"

definition MethodCallInfo_MethodCallInfo :: call_info where
  "MethodCallInfo_MethodCallInfo =
     \<lparr>call_methodId = 0, entry_timestamp = 0, real_entry_timestamp = 0, monitor_waiting_timestamp = 0,
      io_waiting_timestamp = 0, callee_time = 0, real_callee_time = 0, lost_time = 0, lost_time_callee = 0,
      callee_monitor_waiting_timestamp = 0, callee_io_waiting_timestamp = 0, shouldResetVTFactor = False,
      call_recursive = False, correspondingStackTraceMeasure = None\<rparr>"

definition MethodCallInfo_getTime :: "call_info \<Rightarrow> int" where
  [vex_defs]: "MethodCallInfo_getTime c = entry_timestamp c - lost_time c"

definition MethodCallInfo_getRealTime :: "call_info \<Rightarrow> int" where
  [vex_defs]: "MethodCallInfo_getRealTime c = real_entry_timestamp c - lost_time c"

definition MethodCallInfo_getTotalLostTime :: "call_info \<Rightarrow> int" where
  [vex_defs]: "MethodCallInfo_getTotalLostTime c = lost_time c + lost_time_callee c"

text \<open>The first assignment of \<open>operator-=\<close> reads the real timestamp of the left operand.\<close>

definition MethodCallInfo_minus :: "call_info \<Rightarrow> call_info \<Rightarrow> call_info" where
  "MethodCallInfo_minus c d =
     c\<lparr>entry_timestamp := real_entry_timestamp c - entry_timestamp d - lost_time d,
       real_entry_timestamp := real_entry_timestamp c - real_entry_timestamp d - lost_time d\<rparr>"

definition MethodCallInfo_updateCalleeTime :: "int \<Rightarrow> int \<Rightarrow> int \<Rightarrow> int \<Rightarrow> call_info \<Rightarrow> call_info" where
  "MethodCallInfo_updateCalleeTime diff real_diff monitor_wait io_wait c =
     c\<lparr>callee_time := callee_time c + diff, real_callee_time := real_callee_time c + real_diff,
       callee_monitor_waiting_timestamp := callee_monitor_waiting_timestamp c + monitor_wait,
       callee_io_waiting_timestamp := callee_io_waiting_timestamp c + io_wait\<rparr>"

definition MethodCallInfo_getInclusiveCpuTimeDifferenceFrom :: "call_info \<Rightarrow> call_info \<Rightarrow> int" where
  "MethodCallInfo_getInclusiveCpuTimeDifferenceFrom start c = entry_timestamp c - entry_timestamp start"

definition MethodCallInfo_getInclusiveRealTimeDifferenceFrom :: "call_info \<Rightarrow> call_info \<Rightarrow> int" where
  "MethodCallInfo_getInclusiveRealTimeDifferenceFrom start c = real_entry_timestamp c - real_entry_timestamp start"

definition MethodCallInfo_getInclusiveMonitorWaitDifferenceFrom :: "call_info \<Rightarrow> call_info \<Rightarrow> int" where
  "MethodCallInfo_getInclusiveMonitorWaitDifferenceFrom start c =
     monitor_waiting_timestamp c - monitor_waiting_timestamp start"

definition MethodCallInfo_getInclusiveIoWaitDifferenceFrom :: "call_info \<Rightarrow> call_info \<Rightarrow> int" where
  "MethodCallInfo_getInclusiveIoWaitDifferenceFrom start c = io_waiting_timestamp c - io_waiting_timestamp start"

section \<open>The samples of a measure\<close>

text \<open>The default storage counts the samples. The limited storage keeps the first ones in an array of one
  element; its addition copies while the array has room.\<close>

definition MAXIMUM_SAMPLES_PER_MEASURE :: nat where
  "MAXIMUM_SAMPLES_PER_MEASURE = 1"

record limited_samples =
  limited_count :: nat
  storedSamples :: "int list"

definition LimitedSamplesStorage_init :: "nat \<Rightarrow> limited_samples" where
  "LimitedSamplesStorage_init n = \<lparr>limited_count = n, storedSamples = replicate MAXIMUM_SAMPLES_PER_MEASURE 0\<rparr>"

definition LimitedSamplesStorage_addSample :: "int \<Rightarrow> limited_samples \<Rightarrow> limited_samples" where
  "LimitedSamplesStorage_addSample sample s =
     (if limited_count s < MAXIMUM_SAMPLES_PER_MEASURE
      then s\<lparr>storedSamples := (storedSamples s)[limited_count s := sample]\<rparr> else s)
     \<lparr>limited_count := u32_succ (limited_count s)\<rparr>"

partial_function (option) limited_copy :: "nat \<Rightarrow> nat \<Rightarrow> int list \<Rightarrow> int list \<Rightarrow> int list option" where
  "limited_copy count1 count2 from into =
     (if count1 < MAXIMUM_SAMPLES_PER_MEASURE then limited_copy count1 count2 from (into[count1 := from ! count2])
      else Some into)"

definition LimitedSamplesStorage_plus :: "limited_samples \<Rightarrow> limited_samples \<Rightarrow> limited_samples option" where
  "LimitedSamplesStorage_plus s t =
     map_option (\<lambda>xs. s\<lparr>storedSamples := xs, limited_count := (limited_count s + limited_count t) mod 4294967296\<rparr>)
       (limited_copy (limited_count s) 0 (storedSamples t) (storedSamples s))"

section \<open>The measure of a method\<close>

record performance_measure =
  pm_methodId :: int
  methodName :: "string option"
  callingMethod :: "nat option"
  subMethods :: "nat list option"
  pm_recursive :: bool
  alreadyAdapted :: bool
  samples :: nat
  cpuTimeExcludingCalleeMethods :: int
  estimatedRealTimeExcludingCalleeMethods :: int
  cpuTimeIncludingCalleeMethods :: int
  estimatedRealTimeIncludingCalleeMethods :: int
  monitorWaitExcludingCalleeMethods :: int
  ioWaitExcludingCalleeMethods :: int
  monitorWaitIncludingCalleeMethods :: int
  ioWaitIncludingCalleeMethods :: int
  pm_callee_time :: int
  pm_callee_lost_time :: int
  pm_lost_time :: int

definition PerformanceMeasure_PerformanceMeasure :: "int \<Rightarrow> nat option \<Rightarrow> performance_measure" where
  "PerformanceMeasure_PerformanceMeasure k calling =
     \<lparr>pm_methodId = k, methodName = None, callingMethod = calling, subMethods = None, pm_recursive = False,
      alreadyAdapted = False, samples = 0, cpuTimeExcludingCalleeMethods = 0,
      estimatedRealTimeExcludingCalleeMethods = 0, cpuTimeIncludingCalleeMethods = 0,
      estimatedRealTimeIncludingCalleeMethods = 0, monitorWaitExcludingCalleeMethods = 0,
      ioWaitExcludingCalleeMethods = 0, monitorWaitIncludingCalleeMethods = 0, ioWaitIncludingCalleeMethods = 0,
      pm_callee_time = 0, pm_callee_lost_time = 0, pm_lost_time = 0\<rparr>"

definition PerformanceMeasure_add ::
  "int \<Rightarrow> int \<Rightarrow> int \<Rightarrow> int \<Rightarrow> int \<Rightarrow> int \<Rightarrow> int \<Rightarrow> int \<Rightarrow> performance_measure \<Rightarrow> performance_measure" where
  "PerformanceMeasure_add virtual_value real_value sample_cpu sample_real monWait ioWait incl_monWait incl_ioWait pm =
     pm\<lparr>cpuTimeExcludingCalleeMethods := cpuTimeExcludingCalleeMethods pm + virtual_value,
        estimatedRealTimeExcludingCalleeMethods := estimatedRealTimeExcludingCalleeMethods pm + real_value,
        cpuTimeIncludingCalleeMethods := cpuTimeIncludingCalleeMethods pm + sample_cpu,
        estimatedRealTimeIncludingCalleeMethods := estimatedRealTimeIncludingCalleeMethods pm + sample_real,
        monitorWaitExcludingCalleeMethods := monitorWaitExcludingCalleeMethods pm + monWait,
        ioWaitExcludingCalleeMethods := ioWaitExcludingCalleeMethods pm + ioWait,
        monitorWaitIncludingCalleeMethods := monitorWaitIncludingCalleeMethods pm + incl_monWait,
        ioWaitIncludingCalleeMethods := ioWaitIncludingCalleeMethods pm + incl_ioWait,
        samples := u32_succ (samples pm)\<rparr>"

definition PerformanceMeasure_moreInfo :: "int \<Rightarrow> int \<Rightarrow> int \<Rightarrow> performance_measure \<Rightarrow> performance_measure" where
  "PerformanceMeasure_moreInfo calleeTime calleeLost lost pm =
     pm\<lparr>pm_lost_time := pm_lost_time pm + lost, pm_callee_lost_time := pm_callee_lost_time pm + calleeLost,
        pm_callee_time := pm_callee_time pm + calleeTime\<rparr>"

text \<open>\<open>operator+=\<close> with the default storage of samples.\<close>

definition PerformanceMeasure_plus :: "performance_measure \<Rightarrow> performance_measure \<Rightarrow> performance_measure" where
  "PerformanceMeasure_plus a b =
     a\<lparr>cpuTimeExcludingCalleeMethods := cpuTimeExcludingCalleeMethods a + cpuTimeExcludingCalleeMethods b,
       estimatedRealTimeExcludingCalleeMethods :=
         estimatedRealTimeExcludingCalleeMethods a + estimatedRealTimeExcludingCalleeMethods b,
       cpuTimeIncludingCalleeMethods := cpuTimeIncludingCalleeMethods a + cpuTimeIncludingCalleeMethods b,
       estimatedRealTimeIncludingCalleeMethods :=
         estimatedRealTimeIncludingCalleeMethods a + estimatedRealTimeIncludingCalleeMethods b,
       samples := (samples a + samples b) mod 4294967296,
       methodName := (if methodName a = None \<and> methodName b \<noteq> None then methodName b else methodName a)\<rparr>"

text \<open>The division by zero samples gives an infinity, \<open>None\<close>.\<close>

definition PerformanceMeasure_getMean :: "int \<Rightarrow> performance_measure \<Rightarrow> rat option" where
  "PerformanceMeasure_getMean metric pm =
     (if metric = 0 then Some 0 else if samples pm = 0 then None
      else Some (f64 (f64 (of_int metric) / f64 (of_nat (samples pm)))))"

definition PerformanceMeasure_getMeanERT :: "performance_measure \<Rightarrow> rat option" where
  "PerformanceMeasure_getMeanERT pm = PerformanceMeasure_getMean (estimatedRealTimeIncludingCalleeMethods pm) pm"

definition INSTRUMENTATION_OVERHEAD_PROFILING_METHOD_ID :: int where
  "INSTRUMENTATION_OVERHEAD_PROFILING_METHOD_ID = 50"

definition PerformanceMeasure_isTheInstrumentationProfilingMethod :: "performance_measure \<Rightarrow> bool" where
  "PerformanceMeasure_isTheInstrumentationProfilingMethod pm \<longleftrightarrow>
     pm_methodId pm = INSTRUMENTATION_OVERHEAD_PROFILING_METHOD_ID"

text \<open>\<open>printMeansInMSec\<close> corrects the CPU times before it prints the means; the corrections stay.\<close>

definition PerformanceMeasure_printMeansInMSec :: "performance_measure \<Rightarrow> performance_measure \<times> rat option list" where
  "PerformanceMeasure_printMeansInMSec pm =
     (let pm1 = pm\<lparr>cpuTimeExcludingCalleeMethods := max 0 (cpuTimeExcludingCalleeMethods pm - ioWaitExcludingCalleeMethods pm),
                   cpuTimeIncludingCalleeMethods := max 0 (cpuTimeIncludingCalleeMethods pm - ioWaitIncludingCalleeMethods pm)\<rparr>;
          suspendedExcluding = estimatedRealTimeExcludingCalleeMethods pm1 - cpuTimeExcludingCalleeMethods pm1 -
            monitorWaitExcludingCalleeMethods pm1 - ioWaitExcludingCalleeMethods pm1;
          suspendedIncluding = estimatedRealTimeIncludingCalleeMethods pm1 - cpuTimeIncludingCalleeMethods pm1 -
            monitorWaitIncludingCalleeMethods pm1 - ioWaitIncludingCalleeMethods pm1
      in (pm1, map (\<lambda>metric. map_option (\<lambda>x. f64 (x / 1000000)) (PerformanceMeasure_getMean metric pm1))
                 [estimatedRealTimeExcludingCalleeMethods pm1, cpuTimeExcludingCalleeMethods pm1,
                  monitorWaitExcludingCalleeMethods pm1, ioWaitExcludingCalleeMethods pm1, suspendedExcluding,
                  estimatedRealTimeIncludingCalleeMethods pm1, cpuTimeIncludingCalleeMethods pm1,
                  monitorWaitIncludingCalleeMethods pm1, ioWaitIncludingCalleeMethods pm1, suspendedIncluding]))"

definition PerformanceMeasure_setRecursive :: "bool \<Rightarrow> performance_measure \<Rightarrow> performance_measure" where
  "PerformanceMeasure_setRecursive b pm =
     pm\<lparr>pm_recursive := b, alreadyAdapted := (if \<not> b then True else alreadyAdapted pm)\<rparr>"

definition PerformanceMeasure_isRecursive :: "performance_measure \<Rightarrow> bool" where
  "PerformanceMeasure_isRecursive pm \<longleftrightarrow> pm_recursive pm \<and> \<not> alreadyAdapted pm"

definition PerformanceMeasure_isRoot :: "performance_measure \<Rightarrow> bool" where
  "PerformanceMeasure_isRoot pm \<longleftrightarrow> callingMethod pm = None"

definition PerformanceMeasure_getMethodNameString :: "performance_measure \<Rightarrow> string" where
  "PerformanceMeasure_getMethodNameString pm =
     (case methodName pm of Some n \<Rightarrow> n | None \<Rightarrow> ''Unknown method from PM'')"

text \<open>\<open>logTimesOnMethodExit\<close>: the call info of the exit, the one of the entry, the one of the caller.\<close>

definition MethodCallInfo_logTimesOnMethodExit ::
  "call_info \<Rightarrow> call_info \<Rightarrow> call_info option \<Rightarrow> performance_measure \<Rightarrow> call_info option \<times> performance_measure" where
  "MethodCallInfo_logTimesOnMethodExit exiting entry calling pm =
     (let cpu = MethodCallInfo_getInclusiveCpuTimeDifferenceFrom entry exiting;
          ert = MethodCallInfo_getInclusiveRealTimeDifferenceFrom entry exiting;
          monitor = MethodCallInfo_getInclusiveMonitorWaitDifferenceFrom entry exiting;
          io = MethodCallInfo_getInclusiveIoWaitDifferenceFrom entry exiting
      in (map_option (MethodCallInfo_updateCalleeTime cpu ert monitor io) calling,
          PerformanceMeasure_moreInfo (callee_time entry) 0 0
            (PerformanceMeasure_add (cpu - callee_time entry) (ert - real_callee_time entry) cpu ert
              (monitor - callee_monitor_waiting_timestamp entry) (io - callee_io_waiting_timestamp entry) monitor io
              pm)))"

section \<open>The measures in memory\<close>

record measure_store =
  pm_at :: "nat \<Rightarrow> performance_measure option"
  pm_free :: nat

definition pm_read :: "nat \<Rightarrow> measure_store \<Rightarrow> performance_measure res" where
  "pm_read a h = (case pm_at h a of None \<Rightarrow> Inl NullDeref | Some pm \<Rightarrow> Inr pm)"

definition pm_write :: "nat \<Rightarrow> performance_measure \<Rightarrow> measure_store \<Rightarrow> measure_store" where
  "pm_write a pm h = h\<lparr>pm_at := (pm_at h)(a \<mapsto> pm)\<rparr>"

definition pm_new :: "performance_measure \<Rightarrow> measure_store \<Rightarrow> measure_store \<times> nat" where
  "pm_new pm h = (h\<lparr>pm_at := (pm_at h)(pm_free h \<mapsto> pm), pm_free := pm_free h + 1\<rparr>, pm_free h)"

definition pm_delete :: "nat \<Rightarrow> measure_store \<Rightarrow> measure_store" where
  "pm_delete a h = h\<lparr>pm_at := (pm_at h)(a := None)\<rparr>"

definition pm_update :: "nat \<Rightarrow> (performance_measure \<Rightarrow> performance_measure) \<Rightarrow> measure_store \<Rightarrow> measure_store res" where
  "pm_update a f h = bindE (pm_read a h) (\<lambda>pm. Inr (pm_write a (f pm) h))"

text \<open>The first measure of a method in a vector of measures.\<close>

fun pm_find :: "int \<Rightarrow> nat list \<Rightarrow> measure_store \<Rightarrow> nat option res" where
  "pm_find k [] h = Inr None"
| "pm_find k (a # as) h = bindE (pm_read a h) (\<lambda>pm. if pm_methodId pm = k then Inr (Some a) else pm_find k as h)"

section \<open>The profile of a thread\<close>

text \<open>The members of \<open>MethodLog\<close>, the table \<open>measures\<close> of \<open>VexThreadState\<close> and the members of
  \<open>StackTraceThreadState\<close>, of which the thread is an instance when \<open>stackTraces\<close> holds. The head of
  \<open>methodStack\<close> is the top of the stack; a missing table or stack is empty.\<close>

record profile =
  stackTraces :: bool
  methodInfoStorage :: "call_info list"
  methodStack :: "nat list"
  currentMethodInfo :: "nat option"
  exitingMethodInfo :: call_info
  nextMethodInfoToUse :: nat
  methodMeasures :: "int \<Rightarrow> nat option"
  rootStackTraceInfos :: "nat list option"
  currentStackTraceInfo :: "nat option"

definition MethodLog_MethodLog :: "bool \<Rightarrow> profile" where
  "MethodLog_MethodLog b =
     \<lparr>stackTraces = b, methodInfoStorage = [], methodStack = [], currentMethodInfo = None,
      exitingMethodInfo = MethodCallInfo_MethodCallInfo, nextMethodInfoToUse = 0, methodMeasures = (\<lambda>_. None),
      rootStackTraceInfos = None, currentStackTraceInfo = None\<rparr>"

definition MethodLog_pushMethodEntryEventIntoThreadMethodStack :: "nat \<Rightarrow> profile \<Rightarrow> profile" where
  "MethodLog_pushMethodEntryEventIntoThreadMethodStack i p =
     p\<lparr>methodStack := i # methodStack p, currentMethodInfo := Some i\<rparr>"

definition MethodLog_getCurrentMethodId :: "profile \<Rightarrow> int res" where
  "MethodLog_getCurrentMethodId p =
     (case currentMethodInfo p of
        None \<Rightarrow> Inr 0
      | Some i \<Rightarrow> bindE (at_idx (methodInfoStorage p) i) (\<lambda>c. Inr (call_methodId c)))"

definition MethodLog_increaseNextMethodInfoToUse :: "profile \<Rightarrow> profile" where
  [vex_defs]: "MethodLog_increaseNextMethodInfoToUse p = p\<lparr>nextMethodInfoToUse := u32_succ (nextMethodInfoToUse p)\<rparr>"

definition MethodLog_decreaseNextMethodInfoToUse :: "profile \<Rightarrow> profile" where
  [vex_defs]: "MethodLog_decreaseNextMethodInfoToUse p = p\<lparr>nextMethodInfoToUse := u32_pred (nextMethodInfoToUse p)\<rparr>"

definition VexThreadState_updateExitingMethodInfo :: "int \<Rightarrow> timers \<Rightarrow> profile \<Rightarrow> profile" where
  "VexThreadState_updateExitingMethodInfo k t p =
     p\<lparr>exitingMethodInfo := MethodCallInfo_setInfo k t (exitingMethodInfo p)\<rparr>"

section \<open>Stack traces\<close>

text \<open>The depth of the recursion along the callers is bounded by the number of measures.\<close>

fun method_in_trace :: "nat \<Rightarrow> nat option \<Rightarrow> int \<Rightarrow> measure_store \<Rightarrow> bool res" where
  "method_in_trace n None k h = Inr False"
| "method_in_trace 0 (Some a) k h = Inl StackOverflow"
| "method_in_trace (Suc n) (Some a) k h =
     bindE (pm_read a h) (\<lambda>pm. if pm_methodId pm = k then Inr True else method_in_trace n (callingMethod pm) k h)"

definition StackTraceThreadState_methodAlreadyCalledInStackTrace :: "nat option \<Rightarrow> int \<Rightarrow> measure_store \<Rightarrow> bool res" where
  "StackTraceThreadState_methodAlreadyCalledInStackTrace a k h = method_in_trace (pm_free h) a k h"

definition StackTraceThreadState_getCurrentStackTraceInfo ::
  "int \<Rightarrow> profile \<times> measure_store \<Rightarrow> (profile \<times> measure_store) res" where
  "StackTraceThreadState_getCurrentStackTraceInfo k = (\<lambda>(p, h).
     case currentStackTraceInfo p of
       None \<Rightarrow>
         let roots = (case rootStackTraceInfos p of None \<Rightarrow> [] | Some as \<Rightarrow> as) in
         bindE (pm_find k roots h) (\<lambda>found.
         case found of
           Some a \<Rightarrow> Inr (p\<lparr>rootStackTraceInfos := Some roots, currentStackTraceInfo := Some a\<rparr>, h)
         | None \<Rightarrow> let (h1, a) = pm_new (PerformanceMeasure_PerformanceMeasure k None) h
                   in Inr (p\<lparr>rootStackTraceInfos := Some (roots @ [a]), currentStackTraceInfo := Some a\<rparr>, h1))
     | Some c \<Rightarrow>
         bindE (pm_read c h) (\<lambda>pm.
         let subs = (case subMethods pm of None \<Rightarrow> [] | Some as \<Rightarrow> as);
             h1 = pm_write c (pm\<lparr>subMethods := Some subs\<rparr>) h
         in bindE (pm_find k subs h1) (\<lambda>found.
            case found of
              Some a \<Rightarrow> Inr (p\<lparr>currentStackTraceInfo := Some a\<rparr>, h1)
            | None \<Rightarrow> let (h2, a) = pm_new (PerformanceMeasure_PerformanceMeasure k (Some c)) h1
                      in bindE (pm_update c (\<lambda>pm. pm\<lparr>subMethods := Some (subs @ [a])\<rparr>) h2) (\<lambda>h3.
                         Inr (p\<lparr>currentStackTraceInfo := Some a\<rparr>, h3)))))"

section \<open>Entering and leaving a method\<close>

definition put_call_info :: "(call_info \<Rightarrow> call_info) \<Rightarrow> profile \<Rightarrow> profile \<times> nat" where
  "put_call_info f p =
     (let i = nextMethodInfoToUse p; st = methodInfoStorage p in
      if i < length st
      then (MethodLog_increaseNextMethodInfoToUse (p\<lparr>methodInfoStorage := st[i := f (st ! i)]\<rparr>), i)
      else (MethodLog_increaseNextMethodInfoToUse (p\<lparr>methodInfoStorage := st @ [f MethodCallInfo_MethodCallInfo]\<rparr>),
            length st))"

definition VexThreadState_getNextMethodCallInfo ::
  "int \<Rightarrow> timers \<Rightarrow> profile \<times> measure_store \<Rightarrow> ((profile \<times> measure_store) \<times> nat) res" where
  "VexThreadState_getNextMethodCallInfo k t = (\<lambda>(p, h).
     if \<not> stackTraces p
     then let (p1, i) = put_call_info (MethodCallInfo_setInfo k t) p in Inr ((p1, h), i)
     else bindE (StackTraceThreadState_methodAlreadyCalledInStackTrace (currentStackTraceInfo p) k h) (\<lambda>isRecursive.
          bindE (StackTraceThreadState_getCurrentStackTraceInfo k (p, h)) (\<lambda>(p1, h1).
          let (p2, i) = put_call_info (\<lambda>c. (StackTraceInfo_setInfo k t (currentStackTraceInfo p1) c)
                                            \<lparr>call_recursive := isRecursive\<rparr>) p1
          in Inr ((p2, h1), i))))"

text \<open>The result is the answer whether the method is recursive.\<close>

definition VexThreadState_logMethodEntry ::
  "int \<Rightarrow> bool \<Rightarrow> timers \<Rightarrow> profile \<times> measure_store \<Rightarrow> ((profile \<times> measure_store) \<times> bool) res" where
  "VexThreadState_logMethodEntry k shouldChangeVTFactorOnExit t s =
     bindE (VexThreadState_getNextMethodCallInfo k t s) (\<lambda>((p, h), i).
     let p1 = p\<lparr>methodInfoStorage := (methodInfoStorage p)
                 [i := (methodInfoStorage p ! i)\<lparr>shouldResetVTFactor := shouldChangeVTFactorOnExit\<rparr>]\<rparr>;
         p2 = MethodLog_pushMethodEntryEventIntoThreadMethodStack i p1
     in Inr ((p2, h), call_recursive (methodInfoStorage p2 ! i)))"

text \<open>\<open>getExitingMethodPerformanceMeasure\<close> of a thread without and with stack traces.\<close>

definition VexThreadState_getExitingMethodPerformanceMeasure ::
  "profile \<times> measure_store \<Rightarrow> ((profile \<times> measure_store) \<times> nat) res" where
  "VexThreadState_getExitingMethodPerformanceMeasure = (\<lambda>(p, h).
     let k = call_methodId (exitingMethodInfo p) in
     if \<not> stackTraces p
     then (case methodMeasures p k of
             Some a \<Rightarrow> Inr ((p, h), a)
           | None \<Rightarrow> let (h1, a) = pm_new (PerformanceMeasure_PerformanceMeasure k None) h
                     in Inr ((p\<lparr>methodMeasures := (methodMeasures p)(k \<mapsto> a)\<rparr>, h1), a))
     else (case currentMethodInfo p of
             None \<Rightarrow> Inl NullDeref
           | Some i \<Rightarrow>
               bindE (at_idx (methodInfoStorage p) i) (\<lambda>c.
               case correspondingStackTraceMeasure c of
                 None \<Rightarrow> Inl NullDeref
               | Some a \<Rightarrow> bindE (pm_read a h) (\<lambda>pm. Inr ((p\<lparr>currentStackTraceInfo := callingMethod pm\<rparr>, h), a)))))"

text \<open>The result is the measure of the method, if an entry of the method was found on the stack.\<close>

fun log_exit :: "nat list \<Rightarrow> profile \<times> measure_store \<Rightarrow> ((profile \<times> measure_store) \<times> nat option) res" where
  "log_exit [] (p, h) = Inr ((p\<lparr>methodStack := [], currentMethodInfo := None\<rparr>, h), None)"
| "log_exit (i # stack) (p, h) =
     bindE (at_idx (methodInfoStorage p) i) (\<lambda>entry.
     if call_methodId entry \<noteq> call_methodId (exitingMethodInfo p) then log_exit stack (p, h)
     else let calling = (case stack of [] \<Rightarrow> None | j # _ \<Rightarrow> Some j) in
       bindE (VexThreadState_getExitingMethodPerformanceMeasure (p\<lparr>methodStack := stack\<rparr>, h)) (\<lambda>((p1, h1), a).
       bindE (pm_read a h1) (\<lambda>pm.
       let (caller, pm1) = MethodCallInfo_logTimesOnMethodExit (exitingMethodInfo p1) entry
             (map_option ((!) (methodInfoStorage p1)) calling) pm;
           p2 = (case (calling, caller) of
                   (Some j, Some c) \<Rightarrow> p1\<lparr>methodInfoStorage := (methodInfoStorage p1)[j := c]\<rparr>
                 | _ \<Rightarrow> p1)
       in Inr ((MethodLog_decreaseNextMethodInfoToUse (p2\<lparr>currentMethodInfo := calling\<rparr>), pm_write a pm1 h1), Some a))))"

definition VexThreadState_logMethodExit ::
  "profile \<times> measure_store \<Rightarrow> ((profile \<times> measure_store) \<times> nat option) res" where
  "VexThreadState_logMethodExit s = log_exit (methodStack (fst s)) s"

section \<open>Ending the profiling of a method\<close>

datatype invalidation_policy =
    ProfilingInvalidationPolicy nat
  | RelativePercentageProfilingInvalidationPolicy nat rat
  | AbsoluteTimeProfilingInvalidationPolicy nat int

text \<open>\<open>globalTime\<close> is the global virtual time. The absolute policy reads the measure before it tests that
  there is one, and divides by its limit of samples.\<close>

fun keepOnProfiling :: "invalidation_policy \<Rightarrow> int \<Rightarrow> performance_measure option \<Rightarrow> bool res" where
  "keepOnProfiling (ProfilingInvalidationPolicy samplesLimit) globalTime pm =
     Inr (case pm of
            None \<Rightarrow> True
          | Some m \<Rightarrow> \<not> (samples m > samplesLimit \<and> \<not> PerformanceMeasure_isTheInstrumentationProfilingMethod m))"
| "keepOnProfiling (RelativePercentageProfilingInvalidationPolicy samplesLimit percentage) globalTime pm =
     Inr (case pm of
            None \<Rightarrow> True
          | Some m \<Rightarrow>
              if samples m > samplesLimit \<and> \<not> PerformanceMeasure_isTheInstrumentationProfilingMethod m
              then \<not> f32 (of_int (estimatedRealTimeIncludingCalleeMethods m)) < f32 (percentage * f32 (of_int globalTime))
              else True)"
| "keepOnProfiling (AbsoluteTimeProfilingInvalidationPolicy samplesLimit minimumAcceptableTime) globalTime pm =
     (case pm of
        None \<Rightarrow> Inl NullDeref
      | Some m \<Rightarrow>
          if samples m = 0 then Inr True
          else if samplesLimit = 0 then Inl DivisionByZero
          else let ratio = samples m div samplesLimit in
            Inr (if ratio > 0 \<and> \<not> PerformanceMeasure_isTheInstrumentationProfilingMethod m
                 then \<not> estimatedRealTimeIncludingCalleeMethods m < int ratio * minimumAcceptableTime
                 else True))"

text \<open>The option is \<open>limit\<close> or \<open>limit:time\<close>. The limit is copied into an array of 32 characters without the
  terminating zero; \<open>garbage\<close> is what the array holds behind it. \<open>atof\<close> is the C function.\<close>

definition MethodEventsBehaviour_registerInvalidationPolicy ::
  "(string \<Rightarrow> rat) \<Rightarrow> string \<Rightarrow> string \<Rightarrow> invalidation_policy res" where
  "MethodEventsBehaviour_registerInvalidationPolicy atof garbage info =
     (let limit = takeWhile (\<lambda>c. c \<noteq> CHR '':'') info; secondInfo = drop (length limit + 1) info;
          u = (\<lambda>s. nat (atoi s mod 4294967296))
      in if length limit = length info then Inr (ProfilingInvalidationPolicy (u info))
         else if length limit > 32 then Inl OutOfBounds
         else let maxSamples = u (limit @ garbage) in
           Inr (if atoi secondInfo = 0
                then RelativePercentageProfilingInvalidationPolicy maxSamples (f32 (atof secondInfo))
                else AbsoluteTimeProfilingInvalidationPolicy maxSamples (atoi secondInfo)))"

section \<open>The measures of all threads\<close>

record method_data =
  md_name :: string
  md_methodId :: int
  methodIdOfFirstInstrumentedMethodOfClass :: int
  md_invalidated :: bool
  md_recursive :: bool

definition MethodData_MethodData :: "string \<Rightarrow> int \<Rightarrow> int \<Rightarrow> method_data" where
  "MethodData_MethodData fqName k method0 =
     \<lparr>md_name = fqName, md_methodId = k, methodIdOfFirstInstrumentedMethodOfClass = method0,
      md_invalidated = False, md_recursive = False\<rparr>"

definition MethodData_setInvalidated :: "method_data \<Rightarrow> method_data" where
  [vex_defs]: "MethodData_setInvalidated m = m\<lparr>md_invalidated := True\<rparr>"

definition MethodData_setRecursive :: "method_data \<Rightarrow> method_data" where
  [vex_defs]: "MethodData_setRecursive m = m\<lparr>md_recursive := True\<rparr>"

text \<open>A method may be registered without data: \<open>operator[]\<close> of the table inserts a null pointer for a
  method that it does not hold.\<close>

record event_logger =
  registeredMethodNames :: "int \<Rightarrow> method_data option option"
  globalMeasures :: "int \<Rightarrow> nat option"
  measuresRoots :: "nat list option"
  serializedExecutionTime :: int
  prunePercentage :: rat
  totalThreadsControlled :: nat
  allSignalsSent :: int
  allThreadsInvocationPoints :: int

definition EventLogger_setPrunePercentage :: "rat \<Rightarrow> event_logger \<Rightarrow> event_logger" where
  [vex_defs]: "EventLogger_setPrunePercentage pp l = l\<lparr>prunePercentage := pp\<rparr>"

definition EventLogger_reset :: "event_logger \<Rightarrow> event_logger" where
  "EventLogger_reset l = l\<lparr>globalMeasures := (\<lambda>_. None), allThreadsInvocationPoints := 0\<rparr>"

definition StackTraceLogger_reset :: "event_logger \<Rightarrow> event_logger" where
  "StackTraceLogger_reset l = l\<lparr>allThreadsInvocationPoints := 0, measuresRoots := None\<rparr>"

definition EventLogger_setRegistryStats :: "nat \<Rightarrow> int \<Rightarrow> int \<Rightarrow> event_logger \<Rightarrow> event_logger" where
  [vex_defs]: "EventLogger_setRegistryStats totalThreads signals points l =
     l\<lparr>totalThreadsControlled := totalThreads, allSignalsSent := signals, allThreadsInvocationPoints := points\<rparr>"

definition EventLogger_registerMethod :: "string \<Rightarrow> int \<Rightarrow> int \<Rightarrow> event_logger \<Rightarrow> event_logger" where
  "EventLogger_registerMethod fqName k method0 l =
     l\<lparr>registeredMethodNames := (registeredMethodNames l)(k := Some (Some (MethodData_MethodData fqName k method0)))\<rparr>"

text \<open>The search goes through the table in the order \<open>order\<close>; an entry without data is dereferenced.\<close>

fun registered_id :: "int list \<Rightarrow> string \<Rightarrow> event_logger \<Rightarrow> int res" where
  "registered_id [] fqName l = Inr 0"
| "registered_id (k # ks) fqName l =
     (case registeredMethodNames l k of
        Some (Some m) \<Rightarrow> if md_name m = fqName then Inr k else registered_id ks fqName l
      | Some None \<Rightarrow> Inl NullDeref
      | None \<Rightarrow> registered_id ks fqName l)"

definition EventLogger_getRegisteredMethodId :: "int list \<Rightarrow> string \<Rightarrow> event_logger \<Rightarrow> int res" where
  "EventLogger_getRegisteredMethodId = registered_id"

definition lookup_method :: "int \<Rightarrow> event_logger \<Rightarrow> event_logger \<times> method_data option" where
  "lookup_method k l =
     (case registeredMethodNames l k of
        Some m \<Rightarrow> (l, m)
      | None \<Rightarrow> (l\<lparr>registeredMethodNames := (registeredMethodNames l)(k := Some None)\<rparr>, None))"

text \<open>For an unknown method \<open>getMethodName\<close> returns a pointer into a string that was destroyed; \<open>freed\<close> is
  what is read through it.\<close>

definition EventLogger_getMethodName :: "string \<Rightarrow> int \<Rightarrow> event_logger \<Rightarrow> event_logger \<times> string" where
  "EventLogger_getMethodName freed k l =
     (let (l1, m) = lookup_method k l in (l1, case m of Some md \<Rightarrow> md_name md | None \<Rightarrow> freed))"

definition EventLogger_getMethodDataOf :: "int \<Rightarrow> event_logger \<Rightarrow> event_logger \<times> method_data option" where
  "EventLogger_getMethodDataOf = lookup_method"

definition EventLogger_getMethod0 :: "int \<Rightarrow> event_logger \<Rightarrow> event_logger \<times> int" where
  "EventLogger_getMethod0 k l =
     (let (l1, m) = lookup_method k l
      in (l1, case m of Some md \<Rightarrow> methodIdOfFirstInstrumentedMethodOfClass md | None \<Rightarrow> 0))"

text \<open>\<open>createMeasuresForThread\<close> goes through the measures of the thread in the order \<open>order\<close>.\<close>

definition merge_measure ::
  "string \<Rightarrow> int \<Rightarrow> nat \<Rightarrow> event_logger \<times> measure_store \<Rightarrow> (event_logger \<times> measure_store) res" where
  "merge_measure freed k a = (\<lambda>(l, h).
     bindE (pm_update a (\<lambda>pm. pm\<lparr>pm_methodId := k\<rparr>) h) (\<lambda>h1.
     case globalMeasures l k of
       Some g \<Rightarrow>
         bindE (pm_read a h1) (\<lambda>pm1.
         bindE (pm_update g (\<lambda>pm2. PerformanceMeasure_plus pm2 pm1) h1) (\<lambda>h2.
         Inr (l, pm_delete a h2)))
     | None \<Rightarrow>
         (case registeredMethodNames l k of
            None \<Rightarrow> Inr (l, h1)
          | Some m \<Rightarrow>
              let (l1, n) = (case m of Some md \<Rightarrow> (l, md_name md) | None \<Rightarrow> EventLogger_getMethodName freed k l)
              in bindE (pm_update a (\<lambda>pm. pm\<lparr>methodName := Some n\<rparr>) h1) (\<lambda>h2.
                 Inr (l1\<lparr>globalMeasures := (globalMeasures l1)(k \<mapsto> a)\<rparr>, h2)))))"

fun EventLogger_createMeasuresForThread ::
  "string \<Rightarrow> int list \<Rightarrow> profile \<Rightarrow> event_logger \<times> measure_store \<Rightarrow> (event_logger \<times> measure_store) res" where
  "EventLogger_createMeasuresForThread freed [] p s = Inr s"
| "EventLogger_createMeasuresForThread freed (k # ks) p s =
     bindE (case methodMeasures p k of None \<Rightarrow> Inr s | Some a \<Rightarrow> merge_measure freed k a s)
       (EventLogger_createMeasuresForThread freed ks p)"

text \<open>The trees of measures of stack traces. The recursion and the loop together visit every measure of the
  thread at most once.\<close>

definition named_measure :: "string \<Rightarrow> int \<Rightarrow> performance_measure \<Rightarrow> event_logger \<Rightarrow> event_logger \<times> performance_measure" where
  "named_measure freed k pm l =
     (case methodName pm of
        Some _ \<Rightarrow> (l, pm)
      | None \<Rightarrow> let (l1, n) = EventLogger_getMethodName freed k l in (l1, pm\<lparr>methodName := Some n\<rparr>))"

fun merge_trees ::
  "nat \<Rightarrow> string \<Rightarrow> nat list \<Rightarrow> nat list \<Rightarrow> event_logger \<times> measure_store \<Rightarrow> (nat list \<times> event_logger \<times> measure_store) res" where
  "merge_trees n freed nodes [] (l, h) = Inr (nodes, l, h)"
| "merge_trees 0 freed nodes (a # as) (l, h) = Inl StackOverflow"
| "merge_trees (Suc n) freed nodes (a # as) (l, h) =
     bindE (pm_read a h) (\<lambda>t.
     bindE (pm_find (pm_methodId t) nodes h) (\<lambda>found.
     case found of
       Some g \<Rightarrow>
         bindE (pm_read g h) (\<lambda>gp.
         let (l1, gp1) = named_measure freed (pm_methodId t) (PerformanceMeasure_plus gp t) l in
         bindE (case subMethods gp1 of
                  None \<Rightarrow> Inr (l1, pm_write g (gp1\<lparr>subMethods := subMethods t\<rparr>) h)
                | Some subs \<Rightarrow>
                    (case subMethods t of
                       None \<Rightarrow> Inr (l1, pm_write g gp1 h)
                     | Some ts \<Rightarrow>
                         bindE (merge_trees n freed subs ts (l1, pm_write g gp1 h)) (\<lambda>(subs1, l2, h2).
                         bindE (pm_update g (\<lambda>pm. pm\<lparr>subMethods := Some subs1\<rparr>) h2) (\<lambda>h3. Inr (l2, h3)))))
           (\<lambda>(l3, h3). merge_trees n freed nodes as (l3, pm_delete a h3)))
     | None \<Rightarrow>
         let (l1, t1) = named_measure freed (pm_methodId t) t l
         in merge_trees n freed (nodes @ [a]) as (l1, pm_write a t1 h)))"

definition StackTraceLogger_mergeMeasures ::
  "string \<Rightarrow> nat list \<Rightarrow> nat list option \<Rightarrow> event_logger \<times> measure_store \<Rightarrow> (nat list \<times> event_logger \<times> measure_store) res" where
  "StackTraceLogger_mergeMeasures freed nodes threadNode = (\<lambda>(l, h).
     case threadNode of None \<Rightarrow> Inr (nodes, l, h) | Some as \<Rightarrow> merge_trees (pm_free h) freed nodes as (l, h))"

definition StackTraceLogger_createMeasuresForThread ::
  "string \<Rightarrow> profile \<Rightarrow> event_logger \<times> measure_store \<Rightarrow> (event_logger \<times> measure_store) res" where
  "StackTraceLogger_createMeasuresForThread freed p = (\<lambda>(l, h).
     case measuresRoots l of
       None \<Rightarrow> Inr (l\<lparr>measuresRoots := rootStackTraceInfos p\<rparr>, h)
     | Some roots \<Rightarrow>
         bindE (StackTraceLogger_mergeMeasures freed roots (rootStackTraceInfos p) (l, h)) (\<lambda>(roots1, l1, h1).
         Inr (l1\<lparr>measuresRoots := Some roots1\<rparr>, h1)))"

section \<open>Reports\<close>

text \<open>The comparison functions; \<open>None\<close> is a null pointer.\<close>

definition compare_by :: "(performance_measure \<Rightarrow> int) \<Rightarrow> performance_measure option \<Rightarrow> performance_measure option \<Rightarrow> bool" where
  "compare_by f first second =
     (case (first, second) of
        (None, None) \<Rightarrow> True | (None, Some _) \<Rightarrow> False | (Some _, None) \<Rightarrow> False
      | (Some a, Some b) \<Rightarrow> f a > f b)"

definition compare_PerformanceMeasureExclusiveTimes :: "performance_measure option \<Rightarrow> performance_measure option \<Rightarrow> bool" where
  "compare_PerformanceMeasureExclusiveTimes = compare_by cpuTimeExcludingCalleeMethods"

definition compare_PerformanceMeasureInvocations :: "performance_measure option \<Rightarrow> performance_measure option \<Rightarrow> bool" where
  "compare_PerformanceMeasureInvocations = compare_by (\<lambda>pm. int (samples pm))"

definition compare_PerformanceMeasureTotalTime :: "performance_measure option \<Rightarrow> performance_measure option \<Rightarrow> bool" where
  "compare_PerformanceMeasureTotalTime = compare_by cpuTimeIncludingCalleeMethods"

text \<open>\<open>std::list::sort\<close> is stable.\<close>

fun insert_by :: "('a option \<Rightarrow> 'a option \<Rightarrow> bool) \<Rightarrow> 'a \<Rightarrow> 'a list \<Rightarrow> 'a list" where
  "insert_by before x [] = [x]"
| "insert_by before x (y # ys) = (if before (Some y) (Some x) then y # insert_by before x ys else x # y # ys)"

definition stable_sort :: "('a option \<Rightarrow> 'a option \<Rightarrow> bool) \<Rightarrow> 'a list \<Rightarrow> 'a list" where
  "stable_sort before xs = foldr (insert_by before) xs []"

fun read_measures :: "int list \<Rightarrow> event_logger \<times> measure_store \<Rightarrow> performance_measure list res" where
  "read_measures [] s = Inr []"
| "read_measures (k # ks) (l, h) =
     (case globalMeasures l k of
        None \<Rightarrow> read_measures ks (l, h)
      | Some a \<Rightarrow> bindE (pm_read a h) (\<lambda>pm. bindE (read_measures ks (l, h)) (\<lambda>pms. Inr (pm # pms))))"

text \<open>The rows of \<open>writeDataHprofStyle\<close>: the percentage of a method is undefined when the total is zero.\<close>

definition hprof_percentage :: "int \<Rightarrow> performance_measure \<Rightarrow> rat option" where
  "hprof_percentage aggregate pm =
     (if aggregate = 0 then None
      else Some (f64 (100 * f64 (f64 (of_int (cpuTimeExcludingCalleeMethods pm)) / f64 (of_int aggregate)))))"

definition EventLogger_writeDataHprofStyle ::
  "int list \<Rightarrow> event_logger \<times> measure_store \<Rightarrow> (event_logger \<times> (rat option \<times> nat \<times> string option) list) res" where
  "EventLogger_writeDataHprofStyle order = (\<lambda>(l, h).
     bindE (read_measures order (l, h)) (\<lambda>pms.
     let aggregate = sum_list (map cpuTimeExcludingCalleeMethods pms)
     in Inr (l\<lparr>serializedExecutionTime := aggregate\<rparr>,
             map (\<lambda>pm. (hprof_percentage aggregate pm, samples pm, methodName pm))
               (stable_sort compare_PerformanceMeasureExclusiveTimes pms))))"

section \<open>Runs of the profiler\<close>

datatype call_event = CallEntry int timers | CallExit int timers

fun profile_step :: "call_event \<Rightarrow> profile \<times> measure_store \<Rightarrow> (profile \<times> measure_store) res" where
  "profile_step (CallEntry k t) s = bindE (VexThreadState_logMethodEntry k False t s) (\<lambda>(s1, _). Inr s1)"
| "profile_step (CallExit k t) (p, h) =
     bindE (VexThreadState_logMethodExit (VexThreadState_updateExitingMethodInfo k t p, h)) (\<lambda>(s1, _). Inr s1)"

fun profile_run :: "call_event list \<Rightarrow> profile \<times> measure_store \<Rightarrow> (profile \<times> measure_store) res" where
  "profile_run [] s = Inr s"
| "profile_run (e # es) s = bindE (profile_step e s) (profile_run es)"

lemma profile_run_append: "profile_run (es @ fs) s = bindE (profile_run es s) (profile_run fs)"
  by (induction es arbitrary: s) (auto simp: bindE_def split: sum.splits)

text \<open>The call stack of a thread: different call infos, none of which is the next to be used.\<close>

definition call_stack_ok :: "profile \<Rightarrow> bool" where
  "call_stack_ok p \<longleftrightarrow> sorted_wrt (>) (methodStack p) \<and> (\<forall>i \<in> set (methodStack p). i < nextMethodInfoToUse p) \<and>
     nextMethodInfoToUse p \<le> length (methodInfoStorage p) \<and>
     currentMethodInfo p = (case methodStack p of [] \<Rightarrow> None | i # _ \<Rightarrow> Some i)"

definition measures_ok :: "profile \<times> measure_store \<Rightarrow> bool" where
  "measures_ok = (\<lambda>(p, h). \<not> stackTraces p \<and> inj_on (methodMeasures p) (dom (methodMeasures p)) \<and>
     (\<forall>k a. methodMeasures p k = Some a \<longrightarrow> a < pm_free h \<and> pm_at h a \<noteq> None))"

definition measure_of :: "profile \<times> measure_store \<Rightarrow> int \<Rightarrow> performance_measure option" where
  "measure_of = (\<lambda>(p, h) k. case methodMeasures p k of None \<Rightarrow> None | Some a \<Rightarrow> pm_at h a)"

definition call_times :: "call_info \<Rightarrow> timers \<Rightarrow> bool" where
  "call_times c t \<longleftrightarrow> entry_timestamp c = virtualTime t \<and> real_entry_timestamp c = estimatedRealTime t \<and>
     monitor_waiting_timestamp c = monitorWaitingTime t \<and> io_waiting_timestamp c = ioWaitingTime t"

definition adds_sample :: "int \<Rightarrow> (performance_measure \<Rightarrow> performance_measure) \<Rightarrow>
    (int \<Rightarrow> performance_measure option) \<Rightarrow> int \<Rightarrow> performance_measure option" where
  "adds_sample k f M = M(k \<mapsto> f (case M k of None \<Rightarrow> PerformanceMeasure_PerformanceMeasure k None | Some pm \<Rightarrow> pm))"

text \<open>What a call that took the times \<open>d\<close> does to the infos of the calls on the stack.\<close>

definition caller_update :: "int \<Rightarrow> int \<Rightarrow> int \<Rightarrow> int \<Rightarrow> profile \<Rightarrow> profile \<Rightarrow> bool" where
  "caller_update d1 d2 d3 d4 p p' \<longleftrightarrow> methodStack p' = methodStack p \<and>
     (\<forall>i \<in> set (methodStack p). methodInfoStorage p' ! i =
        (if i = hd (methodStack p) then MethodCallInfo_updateCalleeTime d1 d2 d3 d4 (methodInfoStorage p ! i)
         else methodInfoStorage p ! i))"

lemma updateCalleeTime_zero [simp]: "MethodCallInfo_updateCalleeTime 0 0 0 0 c = c"
  by (simp add: MethodCallInfo_updateCalleeTime_def)

lemma updateCalleeTime_twice [simp]:
  "MethodCallInfo_updateCalleeTime e1 e2 e3 e4 (MethodCallInfo_updateCalleeTime d1 d2 d3 d4 c) =
   MethodCallInfo_updateCalleeTime (d1 + e1) (d2 + e2) (d3 + e3) (d4 + e4) c"
  by (simp add: MethodCallInfo_updateCalleeTime_def)

lemma caller_update_refl: "caller_update 0 0 0 0 p p"
  by (simp add: caller_update_def)

lemma caller_update_trans:
  "caller_update d1 d2 d3 d4 p q \<Longrightarrow> caller_update e1 e2 e3 e4 q r \<Longrightarrow>
   caller_update (d1 + e1) (d2 + e2) (d3 + e3) (d4 + e4) p r"
  by (auto simp: caller_update_def)

lemma u32_succ_small [simp]: "n + 1 < 2 ^ 32 \<Longrightarrow> u32_succ n = n + 1"
  by (simp add: u32_succ_def)

lemma u32_pred_small [simp]: "0 < n \<Longrightarrow> n < 2 ^ 32 \<Longrightarrow> u32_pred n = n - 1"
  by (cases n) (simp_all add: u32_pred_def)

lemma entry_profile:
  assumes ok: "call_stack_ok p" and plain: "\<not> stackTraces p" and room: "nextMethodInfoToUse p + 1 < 2 ^ 32"
  shows "\<exists>p'. profile_step (CallEntry k t) (p, h) = Inr (p', h) \<and> call_stack_ok p' \<and>
    methodStack p' = nextMethodInfoToUse p # methodStack p \<and> nextMethodInfoToUse p' = nextMethodInfoToUse p + 1 \<and>
    methodMeasures p' = methodMeasures p \<and> stackTraces p' = stackTraces p \<and>
    (\<forall>i \<in> set (methodStack p). methodInfoStorage p' ! i = methodInfoStorage p ! i) \<and>
    (\<exists>c. methodInfoStorage p' ! nextMethodInfoToUse p = c \<and> call_methodId c = k \<and> call_times c t \<and>
       callee_time c = 0 \<and> real_callee_time c = 0 \<and> callee_monitor_waiting_timestamp c = 0 \<and> callee_io_waiting_timestamp c = 0)"
proof -
  let ?n = "nextMethodInfoToUse p" and ?st = "methodInfoStorage p"
  have n: "?n \<le> length ?st" "\<forall>i \<in> set (methodStack p). i < ?n" "sorted_wrt (>) (methodStack p)"
    using ok by (simp_all add: call_stack_ok_def)
  show ?thesis
  proof (cases "?n < length ?st")
    case True
    then show ?thesis using n plain room
      by (auto simp: VexThreadState_logMethodEntry_def VexThreadState_getNextMethodCallInfo_def put_call_info_def Let_def
          vex_defs MethodLog_pushMethodEntryEventIntoThreadMethodStack_def call_stack_ok_def call_times_def
          MethodCallInfo_setInfo_def)
  next
    case False
    then have "?n = length ?st" using n by simp
    then show ?thesis using n plain room
      by (auto simp: VexThreadState_logMethodEntry_def VexThreadState_getNextMethodCallInfo_def put_call_info_def Let_def
          vex_defs MethodLog_pushMethodEntryEventIntoThreadMethodStack_def call_stack_ok_def call_times_def
          MethodCallInfo_setInfo_def nth_append list_update_append)
  qed
qed

lemma measure_alloc:
  assumes ok: "measures_ok (p, h)"
  shows "\<exists>p' h' a pm. VexThreadState_getExitingMethodPerformanceMeasure (p, h) = Inr ((p', h'), a) \<and> measures_ok (p', h') \<and>
    methodMeasures p' (call_methodId (exitingMethodInfo p)) = Some a \<and> pm_at h' a = Some pm \<and>
    pm = (case measure_of (p, h) (call_methodId (exitingMethodInfo p)) of
            None \<Rightarrow> PerformanceMeasure_PerformanceMeasure (call_methodId (exitingMethodInfo p)) None | Some pm \<Rightarrow> pm) \<and>
    measure_of (p', h') = (measure_of (p, h))(call_methodId (exitingMethodInfo p) \<mapsto> pm) \<and>
    (\<exists>M. p' = p\<lparr>methodMeasures := M\<rparr>)"
proof (cases "methodMeasures p (call_methodId (exitingMethodInfo p))")
  case None
  let ?k = "call_methodId (exitingMethodInfo p)"
  let ?M = "(methodMeasures p)(?k \<mapsto> pm_free h)"
  have old: "methodMeasures p j = Some a \<Longrightarrow> a < pm_free h \<and> (\<exists>y. pm_at h a = Some y)" for j a
    using ok by (auto simp: measures_ok_def)
  have "inj_on ?M (dom ?M)"
    using ok old None by (fastforce simp: measures_ok_def inj_on_def)
  then show ?thesis using None ok old
    by (force simp: VexThreadState_getExitingMethodPerformanceMeasure_def Let_def pm_new_def measures_ok_def measure_of_def
        fun_eq_iff split: option.splits if_splits)
next
  case (Some a)
  then obtain pm where "pm_at h a = Some pm" using ok by (fastforce simp: measures_ok_def)
  then show ?thesis using Some ok
    by (auto simp: VexThreadState_getExitingMethodPerformanceMeasure_def Let_def measures_ok_def measure_of_def fun_eq_iff
        intro!: exI [of _ "methodMeasures p"])
qed

lemma measure_write:
  assumes ok: "measures_ok (p, h)" and a: "methodMeasures p k = Some a"
  shows "measures_ok (p, pm_write a pm h) \<and> measure_of (p, pm_write a pm h) = (measure_of (p, h))(k \<mapsto> pm)"
proof
  show "measures_ok (p, pm_write a pm h)" using ok by (simp add: measures_ok_def pm_write_def)
  have "methodMeasures p j \<noteq> Some a" if "j \<noteq> k" for j
    using ok a that by (auto simp: measures_ok_def inj_on_def dom_def)
  then have "measure_of (p, pm_write a pm h) j = ((measure_of (p, h))(k \<mapsto> pm)) j" for j
    using a by (cases "j = k"; cases "methodMeasures p j") (auto simp: measure_of_def pm_write_def)
  then show "measure_of (p, pm_write a pm h) = (measure_of (p, h))(k \<mapsto> pm)" ..
qed

lemma measures_ok_cong:
  "stackTraces p' = stackTraces p \<Longrightarrow> methodMeasures p' = methodMeasures p \<Longrightarrow>
   measures_ok (p', h) = measures_ok (p, h) \<and> measure_of (p', h) = measure_of (p, h)"
  by (simp add: measures_ok_def measure_of_def)

text \<open>The sample that the exit of a method at \<open>t'\<close> adds, when it was entered with the info \<open>c\<close>.\<close>

definition exit_sample :: "call_info \<Rightarrow> timers \<Rightarrow> performance_measure \<Rightarrow> performance_measure" where
  "exit_sample c t' pm = snd (MethodCallInfo_logTimesOnMethodExit (MethodCallInfo_setInfo (call_methodId c) t' c) c None pm)"

lemma exit_profile:
  assumes ok: "call_stack_ok p" "measures_ok (p, h)" and room: "nextMethodInfoToUse p < 2 ^ 32"
    and top: "methodStack p = i # stack" "call_methodId (methodInfoStorage p ! i) = k"
  shows "\<exists>p' h'. profile_step (CallExit k t') (p, h) = Inr (p', h') \<and> call_stack_ok p' \<and> measures_ok (p', h') \<and>
    nextMethodInfoToUse p' = nextMethodInfoToUse p - 1 \<and> stackTraces p' = stackTraces p \<and>
    caller_update (virtualTime t' - entry_timestamp (methodInfoStorage p ! i))
      (estimatedRealTime t' - real_entry_timestamp (methodInfoStorage p ! i))
      (monitorWaitingTime t' - monitor_waiting_timestamp (methodInfoStorage p ! i))
      (ioWaitingTime t' - io_waiting_timestamp (methodInfoStorage p ! i)) (p\<lparr>methodStack := stack\<rparr>) p' \<and>
    measure_of (p', h') = adds_sample k (exit_sample (methodInfoStorage p ! i) t') (measure_of (p, h))"
proof -
  let ?c = "methodInfoStorage p ! i"
  let ?p = "(VexThreadState_updateExitingMethodInfo k t' p)\<lparr>methodStack := stack\<rparr>"
  have i: "i < length (methodInfoStorage p)" "i < nextMethodInfoToUse p" "nextMethodInfoToUse p \<le> length (methodInfoStorage p)"
    "\<forall>j \<in> set stack. j < i" "sorted_wrt (>) stack"
    using ok(1) top by (auto simp: call_stack_ok_def)
  have x: "call_methodId (exitingMethodInfo ?p) = k" "exitingMethodInfo ?p = MethodCallInfo_setInfo k t' (exitingMethodInfo p)"
    by (simp_all add: VexThreadState_updateExitingMethodInfo_def MethodCallInfo_setInfo_def)
  have same: "methodMeasures ?p = methodMeasures p" "stackTraces ?p = stackTraces p" "methodInfoStorage ?p = methodInfoStorage p"
    "methodStack ?p = stack" "nextMethodInfoToUse ?p = nextMethodInfoToUse p"
    by (simp_all add: VexThreadState_updateExitingMethodInfo_def)
  have ok': "measures_ok (?p, h)" "measure_of (?p, h) = measure_of (p, h)"
    using measures_ok_cong [OF same(2,1)] ok(2) by simp_all
  from measure_alloc [OF ok'(1), unfolded x(1)] obtain p1 h1 a pm M where
    g: "VexThreadState_getExitingMethodPerformanceMeasure (?p, h) = Inr ((p1, h1), a)" and ok1: "measures_ok (p1, h1)"
    and a: "methodMeasures p1 k = Some a" "pm_at h1 a = Some pm"
    and pm: "pm = (case measure_of (?p, h) k of None \<Rightarrow> PerformanceMeasure_PerformanceMeasure k None | Some pm \<Rightarrow> pm)"
    and m1: "measure_of (p1, h1) = (measure_of (?p, h))(k \<mapsto> pm)" and p1: "p1 = ?p\<lparr>methodMeasures := M\<rparr>"
    by blast
  define caller where "caller = (case stack of [] \<Rightarrow> None | j # _ \<Rightarrow> Some j)"
  let ?st = "case stack of [] \<Rightarrow> methodInfoStorage p | j # _ \<Rightarrow> (methodInfoStorage p)[j :=
    MethodCallInfo_updateCalleeTime (virtualTime t' - entry_timestamp ?c) (estimatedRealTime t' - real_entry_timestamp ?c)
      (monitorWaitingTime t' - monitor_waiting_timestamp ?c) (ioWaitingTime t' - io_waiting_timestamp ?c) (methodInfoStorage p ! j)]"
  let ?p' = "p1\<lparr>methodInfoStorage := ?st, currentMethodInfo := caller, nextMethodInfoToUse := nextMethodInfoToUse p - 1\<rparr>"
  let ?h' = "pm_write a (exit_sample ?c t' pm) h1"
  have p1s: "methodInfoStorage p1 = methodInfoStorage p" "exitingMethodInfo p1 = exitingMethodInfo ?p" "methodStack p1 = stack"
    "nextMethodInfoToUse p1 = nextMethodInfoToUse p" "stackTraces p1 = stackTraces p"
    by (simp_all add: p1 VexThreadState_updateExitingMethodInfo_def)
  have step: "profile_step (CallExit k t') (p, h) = Inr (?p', ?h')"
    using g a i room top(2) x same p1s
    by (cases stack)
      (simp_all add: Let_def VexThreadState_logMethodExit_def VexThreadState_updateExitingMethodInfo_def top(1) pm_read_def
        MethodCallInfo_logTimesOnMethodExit_def exit_sample_def MethodCallInfo_setInfo_def vex_defs caller_def
        MethodCallInfo_getInclusiveCpuTimeDifferenceFrom_def MethodCallInfo_getInclusiveRealTimeDifferenceFrom_def
        MethodCallInfo_getInclusiveMonitorWaitDifferenceFrom_def MethodCallInfo_getInclusiveIoWaitDifferenceFrom_def)
  have stack: "call_stack_ok ?p'" using i p1s
    by (cases stack) (auto simp: call_stack_ok_def caller_def)
  have "measures_ok (p1, ?h')" "measure_of (p1, ?h') = (measure_of (p1, h1))(k \<mapsto> exit_sample ?c t' pm)"
    using measure_write [OF ok1 a(1)] by simp_all
  then have m: "measures_ok (?p', ?h')" "measure_of (?p', ?h') = adds_sample k (exit_sample ?c t') (measure_of (p, h))"
    using measures_ok_cong [of ?p' p1 ?h'] m1 ok'(2) pm by (simp_all add: adds_sample_def)
  have "caller_update (virtualTime t' - entry_timestamp ?c) (estimatedRealTime t' - real_entry_timestamp ?c)
      (monitorWaitingTime t' - monitor_waiting_timestamp ?c) (ioWaitingTime t' - io_waiting_timestamp ?c) (p\<lparr>methodStack := stack\<rparr>) ?p'"
    using i p1s by (cases stack) (auto simp: caller_update_def)
  then show ?thesis using step stack m p1s by (intro exI [of _ ?p'] exI [of _ ?h']) simp
qed

section \<open>Nested calls\<close>

text \<open>A call of a method with the clocks at its entry, the calls it makes and the clocks at its exit.\<close>

datatype call_tree = MethodCall int timers "call_tree list" timers

fun trace :: "call_tree \<Rightarrow> call_event list" and traces :: "call_tree list \<Rightarrow> call_event list" where
  "trace (MethodCall k t cs t') = CallEntry k t # traces cs @ [CallExit k t']"
| "traces [] = []"
| "traces (c # cs) = trace c @ traces cs"

fun inclusive :: "(timers \<Rightarrow> int) \<Rightarrow> call_tree \<Rightarrow> int" where
  "inclusive f (MethodCall k t cs t') = f t' - f t"

definition callees :: "(timers \<Rightarrow> int) \<Rightarrow> call_tree list \<Rightarrow> int" where
  "callees f cs = sum_list (map (inclusive f) cs)"

lemma callees_simps [simp]: "callees f [] = 0" "callees f (c # cs) = inclusive f c + callees f cs"
  by (simp_all add: callees_def)

text \<open>The reference: every call adds one sample to its method, its inclusive time and what remains of it
  without the inclusive times of the calls that it makes itself.\<close>

definition call_sample :: "timers \<Rightarrow> call_tree list \<Rightarrow> timers \<Rightarrow> performance_measure \<Rightarrow> performance_measure" where
  "call_sample t cs t' pm =
     (let own = (\<lambda>f. f t' - f t - callees f cs); all = (\<lambda>f. f t' - f t) in
      PerformanceMeasure_moreInfo (callees virtualTime cs) 0 0
        (PerformanceMeasure_add (own virtualTime) (own estimatedRealTime) (all virtualTime) (all estimatedRealTime)
          (own monitorWaitingTime) (own ioWaitingTime) (all monitorWaitingTime) (all ioWaitingTime) pm))"

fun account :: "call_tree \<Rightarrow> (int \<Rightarrow> performance_measure option) \<Rightarrow> int \<Rightarrow> performance_measure option"
  and accounts :: "call_tree list \<Rightarrow> (int \<Rightarrow> performance_measure option) \<Rightarrow> int \<Rightarrow> performance_measure option" where
  "account (MethodCall k t cs t') M = adds_sample k (call_sample t cs t') (accounts cs M)"
| "accounts [] M = M"
| "accounts (c # cs) M = accounts cs (account c M)"

definition runs_as ::
  "call_event list \<Rightarrow> ((timers \<Rightarrow> int) \<Rightarrow> int) \<Rightarrow> ((int \<Rightarrow> performance_measure option) \<Rightarrow> int \<Rightarrow> performance_measure option)
     \<Rightarrow> profile \<times> measure_store \<Rightarrow> bool" where
  "runs_as es d A = (\<lambda>(p, h). \<exists>p' h'. profile_run es (p, h) = Inr (p', h') \<and> call_stack_ok p' \<and> measures_ok (p', h') \<and>
     nextMethodInfoToUse p' = nextMethodInfoToUse p \<and>
     caller_update (d virtualTime) (d estimatedRealTime) (d monitorWaitingTime) (d ioWaitingTime) p p' \<and>
     measure_of (p', h') = A (measure_of (p, h)))"

lemma exit_sample_call:
  assumes "call_times c t" "callee_time c = callees virtualTime cs" "real_callee_time c = callees estimatedRealTime cs"
    "callee_monitor_waiting_timestamp c = callees monitorWaitingTime cs" "callee_io_waiting_timestamp c = callees ioWaitingTime cs"
  shows "exit_sample c t' = call_sample t cs t'"
  using assms
  by (simp add: fun_eq_iff exit_sample_def call_sample_def MethodCallInfo_logTimesOnMethodExit_def Let_def call_times_def
      MethodCallInfo_setInfo_def MethodCallInfo_getInclusiveCpuTimeDifferenceFrom_def
      MethodCallInfo_getInclusiveRealTimeDifferenceFrom_def MethodCallInfo_getInclusiveMonitorWaitDifferenceFrom_def
      MethodCallInfo_getInclusiveIoWaitDifferenceFrom_def)

lemma nested_calls:
  "call_stack_ok p \<Longrightarrow> measures_ok (p, h) \<Longrightarrow> nextMethodInfoToUse p + length (trace c) < 2 ^ 32 \<Longrightarrow>
     runs_as (trace c) (\<lambda>f. inclusive f c) (account c) (p, h)"
  "call_stack_ok p \<Longrightarrow> measures_ok (p, h) \<Longrightarrow> nextMethodInfoToUse p + length (traces cs) < 2 ^ 32 \<Longrightarrow>
     runs_as (traces cs) (\<lambda>f. callees f cs) (accounts cs) (p, h)"
proof (induction c and cs arbitrary: p h and p h rule: trace_traces.induct)
  case (1 k t cs t' p h)
  let ?n = "nextMethodInfoToUse p"
  have plain: "\<not> stackTraces p" using 1(3) by (simp add: measures_ok_def)
  have room: "?n + 1 < 2 ^ 32" using 1(4) by simp
  from entry_profile [OF 1(2) plain room, of k t h] obtain p1 c where
    e: "profile_step (CallEntry k t) (p, h) = Inr (p1, h)" "call_stack_ok p1" and s1: "methodStack p1 = ?n # methodStack p"
      "nextMethodInfoToUse p1 = ?n + 1" "methodMeasures p1 = methodMeasures p" "stackTraces p1 = stackTraces p"
    and kept: "\<forall>i \<in> set (methodStack p). methodInfoStorage p1 ! i = methodInfoStorage p ! i"
    and c: "methodInfoStorage p1 ! ?n = c" "call_methodId c = k" "call_times c t" "callee_time c = 0" "real_callee_time c = 0"
      "callee_monitor_waiting_timestamp c = 0" "callee_io_waiting_timestamp c = 0"
    by blast
  have m1: "measures_ok (p1, h)" "measure_of (p1, h) = measure_of (p, h)"
    using measures_ok_cong [OF s1(4,3)] 1(3) by simp_all
  have "runs_as (traces cs) (\<lambda>f. callees f cs) (accounts cs) (p1, h)"
    by (rule 1(1) [OF e(2) m1(1)]) (use 1(4) s1 in simp)
  then obtain p2 h2 where r: "profile_run (traces cs) (p1, h) = Inr (p2, h2)" and ok2: "call_stack_ok p2" "measures_ok (p2, h2)"
    and n2: "nextMethodInfoToUse p2 = nextMethodInfoToUse p1"
    and u2: "caller_update (callees virtualTime cs) (callees estimatedRealTime cs) (callees monitorWaitingTime cs)
       (callees ioWaitingTime cs) p1 p2"
    and m2: "measure_of (p2, h2) = accounts cs (measure_of (p1, h))"
    unfolding runs_as_def by auto
  let ?c = "methodInfoStorage p2 ! ?n"
  have s2: "methodStack p2 = ?n # methodStack p" using u2 s1 by (simp add: caller_update_def)
  have c2: "?c = MethodCallInfo_updateCalleeTime (callees virtualTime cs) (callees estimatedRealTime cs)
       (callees monitorWaitingTime cs) (callees ioWaitingTime cs) c"
    using u2 s1 c(1) by (simp add: caller_update_def)
  have kept2: "\<forall>i \<in> set (methodStack p). methodInfoStorage p2 ! i = methodInfoStorage p ! i"
    using u2 s1 kept 1(2) by (fastforce simp: caller_update_def call_stack_ok_def)
  have times: "entry_timestamp ?c = virtualTime t" "real_entry_timestamp ?c = estimatedRealTime t"
    "monitor_waiting_timestamp ?c = monitorWaitingTime t" "io_waiting_timestamp ?c = ioWaitingTime t" "call_methodId ?c = k"
    using c unfolding c2 by (simp_all add: MethodCallInfo_updateCalleeTime_def call_times_def)
  have sample: "exit_sample ?c t' = call_sample t cs t'"
    by (rule exit_sample_call) (use c in \<open>simp_all add: c2 MethodCallInfo_updateCalleeTime_def call_times_def\<close>)
  have room2: "nextMethodInfoToUse p2 < 2 ^ 32" using n2 s1 1(4) by simp
  from exit_profile [OF ok2 room2 s2 times(5), of t', unfolded sample times(1-4)]
  obtain p3 h3 where x: "profile_step (CallExit k t') (p2, h2) = Inr (p3, h3)" and ok3: "call_stack_ok p3" "measures_ok (p3, h3)"
    and n3: "nextMethodInfoToUse p3 = nextMethodInfoToUse p2 - 1"
    and u3: "caller_update (virtualTime t' - virtualTime t) (estimatedRealTime t' - estimatedRealTime t)
      (monitorWaitingTime t' - monitorWaitingTime t) (ioWaitingTime t' - ioWaitingTime t) (p2\<lparr>methodStack := methodStack p\<rparr>) p3"
    and m3: "measure_of (p3, h3) = adds_sample k (call_sample t cs t') (measure_of (p2, h2))"
    by blast
  have "profile_run (trace (MethodCall k t cs t')) (p, h) = Inr (p3, h3)"
    using e r x by (simp add: profile_run_append)
  moreover have "caller_update (virtualTime t' - virtualTime t) (estimatedRealTime t' - estimatedRealTime t)
      (monitorWaitingTime t' - monitorWaitingTime t) (ioWaitingTime t' - ioWaitingTime t) p p3"
    using u3 kept2 by (auto simp: caller_update_def)
  moreover have "nextMethodInfoToUse p3 = ?n" using n3 n2 s1 by simp
  ultimately show ?case using ok3 m3 m2 m1(2)
    unfolding runs_as_def prod.case by (intro exI [of _ p3] exI [of _ h3]) simp
next
  case (2 p h)
  then show ?case by (simp add: runs_as_def caller_update_refl)
next
  case (3 c cs p h)
  have "runs_as (trace c) (\<lambda>f. inclusive f c) (account c) (p, h)"
    by (rule 3(1) [OF 3(3,4)]) (use 3(5) in simp)
  then obtain p1 h1 where r1: "profile_run (trace c) (p, h) = Inr (p1, h1)" "call_stack_ok p1" "measures_ok (p1, h1)"
      "nextMethodInfoToUse p1 = nextMethodInfoToUse p" "measure_of (p1, h1) = account c (measure_of (p, h))"
    and u1: "caller_update (inclusive virtualTime c) (inclusive estimatedRealTime c) (inclusive monitorWaitingTime c)
      (inclusive ioWaitingTime c) p p1"
    unfolding runs_as_def by auto
  have "runs_as (traces cs) (\<lambda>f. callees f cs) (accounts cs) (p1, h1)"
    by (rule 3(2) [OF r1(2,3)]) (use 3(5) r1(4) in simp)
  then obtain p2 h2 where r2: "profile_run (traces cs) (p1, h1) = Inr (p2, h2)" "call_stack_ok p2" "measures_ok (p2, h2)"
      "nextMethodInfoToUse p2 = nextMethodInfoToUse p1" "measure_of (p2, h2) = accounts cs (measure_of (p1, h1))"
    and u2: "caller_update (callees virtualTime cs) (callees estimatedRealTime cs) (callees monitorWaitingTime cs)
      (callees ioWaitingTime cs) p1 p2"
    unfolding runs_as_def by auto
  show ?case using r1 r2 caller_update_trans [OF u1 u2]
    unfolding runs_as_def prod.case by (intro exI [of _ p2] exI [of _ h2]) (simp add: profile_run_append)
qed

text \<open>The exclusive times of all methods.\<close>

definition sum_of :: "(performance_measure \<Rightarrow> int) \<Rightarrow> (int \<Rightarrow> performance_measure option) \<Rightarrow> int" where
  "sum_of g M = (\<Sum>k \<in> dom M. g (the (M k)))"

lemma sum_of_adds_sample:
  assumes "finite (dom M)" "\<And>pm. g (f pm) = g pm + d" "g (PerformanceMeasure_PerformanceMeasure k None) = 0"
  shows "sum_of g (adds_sample k f M) = sum_of g M + d \<and> finite (dom (adds_sample k f M))"
proof -
  have "sum_of g (adds_sample k f M) = g (the (adds_sample k f M k)) + (\<Sum>j \<in> dom M - {k}. g (the (M j)))"
    using assms(1) by (simp add: sum_of_def adds_sample_def sum.insert_remove)
  moreover have "sum_of g M = (case M k of None \<Rightarrow> 0 | Some pm \<Rightarrow> g pm) + (\<Sum>j \<in> dom M - {k}. g (the (M j)))"
  proof (cases "M k")
    case None
    then have "dom M - {k} = dom M" by auto
    then show ?thesis using None by (simp add: sum_of_def)
  next
    case (Some pm)
    then show ?thesis using assms(1) sum.remove [of "dom M" k "\<lambda>k. g (the (M k))"] by (auto simp: sum_of_def)
  qed
  ultimately show ?thesis using assms by (auto simp: adds_sample_def split: option.splits)
qed

lemma sum_of_accounts:
  assumes g: "\<And>t cs t' pm. g (call_sample t cs t' pm) = g pm + (f t' - f t - callees f cs)"
    "\<And>k. g (PerformanceMeasure_PerformanceMeasure k None) = 0"
  shows "finite (dom M) \<Longrightarrow> sum_of g (account c M) = sum_of g M + inclusive f c \<and> finite (dom (account c M))"
    "finite (dom M) \<Longrightarrow> sum_of g (accounts cs M) = sum_of g M + callees f cs \<and> finite (dom (accounts cs M))"
proof (induction c M and cs M rule: account_accounts.induct)
  case (1 k t cs t' M)
  then show ?case using sum_of_adds_sample [where g = g and f = "call_sample t cs t'" and M = "accounts cs M", OF _ g(1) g(2)]
    by simp
qed simp_all

lemma exclusive_times_add_up:
  "sum_of cpuTimeExcludingCalleeMethods (accounts cs (\<lambda>_. None)) = callees virtualTime cs"
  "sum_of estimatedRealTimeExcludingCalleeMethods (accounts cs (\<lambda>_. None)) = callees estimatedRealTime cs"
  "sum_of monitorWaitExcludingCalleeMethods (accounts cs (\<lambda>_. None)) = callees monitorWaitingTime cs"
  "sum_of ioWaitExcludingCalleeMethods (accounts cs (\<lambda>_. None)) = callees ioWaitingTime cs"
proof -
  note defs = call_sample_def Let_def PerformanceMeasure_moreInfo_def PerformanceMeasure_add_def PerformanceMeasure_PerformanceMeasure_def
  have e: "sum_of g (\<lambda>_. None) = 0" for g by (simp add: sum_of_def)
  have "sum_of g (accounts cs (\<lambda>_. None)) = callees f cs"
    if "\<And>t cs t' pm. g (call_sample t cs t' pm) = g pm + (f t' - f t - callees f cs)"
      "\<And>k. g (PerformanceMeasure_PerformanceMeasure k None) = 0" for g f
    using sum_of_accounts(2) [OF that, of "\<lambda>_. None" cs] e by simp
  then show "sum_of cpuTimeExcludingCalleeMethods (accounts cs (\<lambda>_. None)) = callees virtualTime cs"
    "sum_of estimatedRealTimeExcludingCalleeMethods (accounts cs (\<lambda>_. None)) = callees estimatedRealTime cs"
    "sum_of monitorWaitExcludingCalleeMethods (accounts cs (\<lambda>_. None)) = callees monitorWaitingTime cs"
    "sum_of ioWaitExcludingCalleeMethods (accounts cs (\<lambda>_. None)) = callees ioWaitingTime cs"
    by (simp_all add: defs)
qed

lemma new_profile_ok:
  "call_stack_ok (MethodLog_MethodLog b)" "measures_ok (MethodLog_MethodLog False, h)"
  "measure_of (MethodLog_MethodLog b, h) = (\<lambda>_. None)" "nextMethodInfoToUse (MethodLog_MethodLog b) = 0"
  "methodStack (MethodLog_MethodLog b) = []"
  by (simp_all add: MethodLog_MethodLog_def call_stack_ok_def measures_ok_def measure_of_def)

text \<open>
  C37. The profile of a thread that makes properly nested calls: the run succeeds, no call is left
  on the stack, every method has the samples of its calls, and the exclusive CPU times, real times, waiting
  times and I/O times of all methods add up to the times between the entries and the exits of the outermost
  calls.\<close>

theorem profiled_times_add_up:
  assumes "length (traces cs) < 2 ^ 32"
  shows "\<exists>p h'. profile_run (traces cs) (MethodLog_MethodLog False, h) = Inr (p, h') \<and> methodStack p = [] \<and>
    nextMethodInfoToUse p = 0 \<and> measure_of (p, h') = accounts cs (\<lambda>_. None) \<and>
    sum_of cpuTimeExcludingCalleeMethods (measure_of (p, h')) = callees virtualTime cs \<and>
    sum_of estimatedRealTimeExcludingCalleeMethods (measure_of (p, h')) = callees estimatedRealTime cs \<and>
    sum_of monitorWaitExcludingCalleeMethods (measure_of (p, h')) = callees monitorWaitingTime cs \<and>
    sum_of ioWaitExcludingCalleeMethods (measure_of (p, h')) = callees ioWaitingTime cs"
proof -
  have "runs_as (traces cs) (\<lambda>f. callees f cs) (accounts cs) (MethodLog_MethodLog False, h)"
    by (rule nested_calls(2) [OF new_profile_ok(1,2)]) (use assms new_profile_ok(4) in simp)
  then show ?thesis
    unfolding runs_as_def prod.case new_profile_ok caller_update_def
    using exclusive_times_add_up [of cs] by auto
qed

section \<open>Calls that end without an exit\<close>

lemma log_exit_current:
  assumes "\<not> stackTraces p"
  shows "log_exit st (p, h) = log_exit st (p\<lparr>methodStack := ms, currentMethodInfo := x\<rparr>, h)"
proof (induction st)
  case (Cons i st)
  show ?case
    using assms Cons
    by (cases "methodMeasures p (call_methodId (exitingMethodInfo p))"; cases st)
      (auto simp: VexThreadState_getExitingMethodPerformanceMeasure_def Let_def pm_new_def MethodLog_decreaseNextMethodInfoToUse_def
        MethodCallInfo_logTimesOnMethodExit_def bindE_def split: sum.splits)
qed simp

text \<open>An exit may belong to no call on the stack, or to one below the top: the calls above it are dropped.\<close>

lemma log_exits:
  assumes "measures_ok (p, h)" "nextMethodInfoToUse p < 2 ^ 32"
  shows "call_stack_ok (p\<lparr>methodStack := st, currentMethodInfo := (case st of [] \<Rightarrow> None | i # _ \<Rightarrow> Some i)\<rparr>) \<Longrightarrow>
    \<exists>p' h' a. log_exit st (VexThreadState_updateExitingMethodInfo k t p, h) = Inr ((p', h'), a) \<and> call_stack_ok p' \<and>
      measures_ok (p', h') \<and> nextMethodInfoToUse p' \<le> nextMethodInfoToUse p"
proof (induction st)
  case Nil
  then show ?case
    using assms measures_ok_cong [of "(VexThreadState_updateExitingMethodInfo k t p)\<lparr>methodStack := [], currentMethodInfo := None\<rparr>" p h]
    by (simp add: call_stack_ok_def VexThreadState_updateExitingMethodInfo_def)
next
  case (Cons i st)
  let ?q = "p\<lparr>methodStack := i # st, currentMethodInfo := Some i\<rparr>"
  have ok: "call_stack_ok ?q" "measures_ok (?q, h)"
    using Cons(2) assms(1) measures_ok_cong [of ?q p h] by simp_all
  have i: "at_idx (methodInfoStorage p) i = Inr (methodInfoStorage p ! i)"
    using ok(1) by (simp add: call_stack_ok_def)
  have k: "call_methodId (exitingMethodInfo (VexThreadState_updateExitingMethodInfo k t p)) = k"
    "methodInfoStorage (VexThreadState_updateExitingMethodInfo k t p) = methodInfoStorage p"
    by (simp_all add: VexThreadState_updateExitingMethodInfo_def MethodCallInfo_setInfo_def)
  show ?case
  proof (cases "call_methodId (methodInfoStorage p ! i) = k")
    case False
    have "call_stack_ok (p\<lparr>methodStack := st, currentMethodInfo := (case st of [] \<Rightarrow> None | i # _ \<Rightarrow> Some i)\<rparr>)"
      using ok(1) by (simp add: call_stack_ok_def)
    from Cons(1) [OF this] show ?thesis using False i k by simp
  next
    case True
    from exit_profile [OF ok, of i st k t] obtain p' h' where
      s: "profile_step (CallExit k t) (?q, h) = Inr (p', h')" "call_stack_ok p'" "measures_ok (p', h')"
        "nextMethodInfoToUse p' = nextMethodInfoToUse p - 1"
      using True assms(2) by auto
    have "VexThreadState_updateExitingMethodInfo k t ?q =
        (VexThreadState_updateExitingMethodInfo k t p)\<lparr>methodStack := i # st, currentMethodInfo := Some i\<rparr>"
      by (simp add: VexThreadState_updateExitingMethodInfo_def)
    moreover have "\<not> stackTraces (VexThreadState_updateExitingMethodInfo k t p)"
      using assms(1) by (simp add: measures_ok_def VexThreadState_updateExitingMethodInfo_def)
    ultimately have "profile_step (CallExit k t) (?q, h) =
        bindE (log_exit (i # st) (VexThreadState_updateExitingMethodInfo k t p, h)) (\<lambda>(s1, _). Inr s1)"
      using log_exit_current [of "VexThreadState_updateExitingMethodInfo k t p" "i # st" h, where ms = "i # st" and x = "Some i"]
      by (simp del: log_exit.simps add: VexThreadState_logMethodExit_def)
    then show ?thesis using s by (fastforce simp: bindE_eq_Inr)
  qed
qed

lemma profile_step_ok:
  assumes ok: "call_stack_ok p" "measures_ok (p, h)" and room: "nextMethodInfoToUse p + 1 < 2 ^ 32"
  shows "\<exists>p' h'. profile_step e (p, h) = Inr (p', h') \<and> call_stack_ok p' \<and> measures_ok (p', h') \<and>
    nextMethodInfoToUse p' \<le> nextMethodInfoToUse p + 1"
proof (cases e)
  case (CallEntry k t)
  have "\<not> stackTraces p" using ok(2) by (simp add: measures_ok_def)
  from entry_profile [OF ok(1) this room, of k t h] show ?thesis
    using CallEntry measures_ok_cong [of _ p h] ok(2) by (metis order_refl)
next
  case (CallExit k t)
  have "p\<lparr>methodStack := methodStack p, currentMethodInfo := (case methodStack p of [] \<Rightarrow> None | i # _ \<Rightarrow> Some i)\<rparr> = p"
    using ok(1) by (simp add: call_stack_ok_def)
  then have "call_stack_ok (p\<lparr>methodStack := methodStack p, currentMethodInfo := (case methodStack p of [] \<Rightarrow> None | i # _ \<Rightarrow> Some i)\<rparr>)"
    using ok(1) by simp
  from log_exits [OF ok(2) _ this, of k t] room show ?thesis
    using CallExit
    by (auto simp: VexThreadState_logMethodExit_def VexThreadState_updateExitingMethodInfo_def)
qed

lemma profile_run_ok:
  "call_stack_ok p \<Longrightarrow> measures_ok (p, h) \<Longrightarrow> nextMethodInfoToUse p + length es < 2 ^ 32 \<Longrightarrow>
   \<exists>p' h'. profile_run es (p, h) = Inr (p', h') \<and> call_stack_ok p' \<and> measures_ok (p', h') \<and>
     nextMethodInfoToUse p' \<le> nextMethodInfoToUse p + length es"
proof (induction es arbitrary: p h)
  case (Cons e es)
  have "nextMethodInfoToUse p + 1 < 2 ^ 32" using Cons(4) by simp
  from profile_step_ok [OF Cons(2,3) this] obtain p1 h1 where
    s: "profile_step e (p, h) = Inr (p1, h1)" "call_stack_ok p1" "measures_ok (p1, h1)" "nextMethodInfoToUse p1 \<le> nextMethodInfoToUse p + 1"
    by blast
  have "nextMethodInfoToUse p1 + length es < 2 ^ 32" using s(4) Cons(4) by simp
  from Cons(1) [OF s(2,3) this] show ?case using s by fastforce
qed simp

text \<open>
  C38. Whatever entries and exits a thread reports, also exits without an entry and entries whose
  exit is missing, the profiler does not fail, and the call infos on the method stack are different objects
  of the storage that the next entries do not overwrite.\<close>

theorem method_stack_keeps_its_calls:
  assumes "length es < 2 ^ 32"
  shows "\<exists>p h'. profile_run es (MethodLog_MethodLog False, h) = Inr (p, h') \<and> distinct (methodStack p) \<and>
    (\<forall>i \<in> set (methodStack p). i < length (methodInfoStorage p) \<and> i < nextMethodInfoToUse p) \<and>
    currentMethodInfo p = (case methodStack p of [] \<Rightarrow> None | i # _ \<Rightarrow> Some i)"
proof -
  from profile_run_ok [OF new_profile_ok(1,2), of es] assms new_profile_ok(4) obtain p h' where
    r: "profile_run es (MethodLog_MethodLog False, h) = Inr (p, h')" "call_stack_ok p" by fastforce
  have "sorted_wrt (>) (methodStack p)" using r(2) by (simp add: call_stack_ok_def)
  then have "distinct (methodStack p)"
    by (induction "methodStack p" rule: rev_induct) (auto simp: sorted_wrt_iff_nth_less distinct_conv_nth linorder_neq_iff)
  then show ?thesis using r by (auto simp: call_stack_ok_def)
qed

text \<open>A method that calls another one twice, and two calls whose exits are missing.\<close>

definition clock :: "int \<Rightarrow> timers" where
  "clock t = example_timers\<lparr>virtualTime := t, estimatedRealTime := t\<rparr>"

definition no_measures :: measure_store where
  "no_measures = \<lparr>pm_at = (\<lambda>_. None), pm_free = 0\<rparr>"

theorem profiled_times_add_up_witness:
  "\<exists>p h. profile_run (traces [MethodCall 1 (clock 10) [MethodCall 2 (clock 12) [] (clock 15), MethodCall 2 (clock 16) [] (clock 18)] (clock 20)])
       (MethodLog_MethodLog False, no_measures) = Inr (p, h) \<and> sum_of cpuTimeExcludingCalleeMethods (measure_of (p, h)) = 10"
  using profiled_times_add_up
    [of "[MethodCall 1 (clock 10) [MethodCall 2 (clock 12) [] (clock 15), MethodCall 2 (clock 16) [] (clock 18)] (clock 20)]" no_measures]
  by (auto simp: callees_def clock_def)

theorem method_stack_keeps_its_calls_witness:
  "\<exists>p h. profile_run [CallEntry 1 (clock 1), CallEntry 2 (clock 2), CallExit 3 (clock 3), CallEntry 1 (clock 4)]
     (MethodLog_MethodLog False, no_measures) = Inr (p, h) \<and> distinct (methodStack p)"
  using method_stack_keeps_its_calls
    [of "[CallEntry 1 (clock 1), CallEntry 2 (clock 2), CallExit 3 (clock 3), CallEntry 1 (clock 4)]" no_measures]
  by auto

text \<open>
  In the profile with stack traces the exit of a method whose callee ended without an exit is
  charged to the measure of the callee, and the current position in the tree of traces stays at the method
  although the stack is empty.\<close>

theorem skipped_exit_charged_to_callee:
  assumes "a \<noteq> b"
  shows "\<exists>p h ma mb. profile_run [CallEntry a t1, CallEntry b t2, CallExit a t3] (MethodLog_MethodLog True, no_measures) = Inr (p, h) \<and>
    pm_at h 0 = Some ma \<and> pm_methodId ma = a \<and> samples ma = 0 \<and>
    pm_at h 1 = Some mb \<and> pm_methodId mb = b \<and> samples mb = 1 \<and>
    cpuTimeIncludingCalleeMethods mb = virtualTime t3 - virtualTime t1 \<and>
    methodStack p = [] \<and> currentStackTraceInfo p = Some 0"
  using assms
  by (simp add: VexThreadState_logMethodEntry_def VexThreadState_getNextMethodCallInfo_def MethodLog_MethodLog_def no_measures_def
      StackTraceThreadState_methodAlreadyCalledInStackTrace_def StackTraceThreadState_getCurrentStackTraceInfo_def
      pm_new_def pm_read_def pm_write_def pm_update_def put_call_info_def Let_def StackTraceInfo_setInfo_def MethodCallInfo_setInfo_def vex_defs
      MethodLog_pushMethodEntryEventIntoThreadMethodStack_def PerformanceMeasure_PerformanceMeasure_def u32_succ_def
      VexThreadState_logMethodExit_def VexThreadState_updateExitingMethodInfo_def
      VexThreadState_getExitingMethodPerformanceMeasure_def MethodCallInfo_logTimesOnMethodExit_def PerformanceMeasure_add_def
      PerformanceMeasure_moreInfo_def MethodCallInfo_getInclusiveCpuTimeDifferenceFrom_def)

theorem skipped_exit_charged_to_callee_witness:
  "\<exists>p h mb. profile_run [CallEntry 1 (clock 10), CallEntry 2 (clock 12), CallExit 1 (clock 20)] (MethodLog_MethodLog True, no_measures) = Inr (p, h) \<and>
    pm_at h 1 = Some mb \<and> pm_methodId mb = 2 \<and> cpuTimeIncludingCalleeMethods mb = 10"
  using skipped_exit_charged_to_callee [of 1 2 "clock 10" "clock 12" "clock 20"] by (auto simp: clock_def)

lemma limited_copy_returns: "limited_copy n m xs ys = Some zs \<Longrightarrow> \<not> n < MAXIMUM_SAMPLES_PER_MEASURE"
  by (erule limited_copy.raw_induct [rotated]) (auto split: if_splits)

text \<open>
  Adding limited storages of samples never returns when the left one is empty, the only case
  in which it would copy a sample.\<close>

theorem limited_samples_addition_diverges:
  "LimitedSamplesStorage_plus s t = None \<longleftrightarrow> limited_count s = 0"
proof (cases "limited_count s = 0")
  case True
  then have "limited_copy (limited_count s) 0 (storedSamples t) (storedSamples s) = None"
    using limited_copy_returns [of 0 0 "storedSamples t" "storedSamples s"]
    by (cases "limited_copy 0 0 (storedSamples t) (storedSamples s)") (auto simp: MAXIMUM_SAMPLES_PER_MEASURE_def)
  then show ?thesis using True by (simp add: LimitedSamplesStorage_plus_def)
next
  case False
  then show ?thesis
    by (simp add: LimitedSamplesStorage_plus_def limited_copy.simps [of "limited_count s"] MAXIMUM_SAMPLES_PER_MEASURE_def)
qed

section \<open>Merging the measures of threads\<close>

definition global_measure :: "event_logger \<times> measure_store \<Rightarrow> int \<Rightarrow> performance_measure option" where
  "global_measure = (\<lambda>(l, h) k. case globalMeasures l k of None \<Rightarrow> None | Some g \<Rightarrow> pm_at h g)"

definition registered_name :: "string \<Rightarrow> event_logger \<Rightarrow> int \<Rightarrow> string option" where
  "registered_name freed l k =
     (case registeredMethodNames l k of None \<Rightarrow> None | Some None \<Rightarrow> Some freed | Some (Some md) \<Rightarrow> Some (md_name md))"

text \<open>The measures of the logger and those of the thread that are still to be merged are different
  objects.\<close>

definition mergeable :: "int list \<Rightarrow> profile \<Rightarrow> event_logger \<times> measure_store \<Rightarrow> bool" where
  "mergeable ks p = (\<lambda>(l, h).
     (\<forall>k g. globalMeasures l k = Some g \<longrightarrow> pm_at h g \<noteq> None) \<and>
     inj_on (globalMeasures l) (dom (globalMeasures l)) \<and> inj_on (methodMeasures p) (dom (methodMeasures p)) \<and>
     (\<forall>k \<in> set ks. \<forall>a. methodMeasures p k = Some a \<longrightarrow> pm_at h a \<noteq> None \<and> a \<notin> ran (globalMeasures l)))"

text \<open>The sums of two measures of a method; the waiting times are those of the first one.\<close>

definition added :: "performance_measure \<Rightarrow> performance_measure \<Rightarrow> performance_measure" where
  "added g a =
     g\<lparr>methodName := (case methodName g of None \<Rightarrow> methodName a | Some n \<Rightarrow> Some n),
       samples := (samples g + samples a) mod 2 ^ 32,
       cpuTimeExcludingCalleeMethods := cpuTimeExcludingCalleeMethods g + cpuTimeExcludingCalleeMethods a,
       estimatedRealTimeExcludingCalleeMethods := estimatedRealTimeExcludingCalleeMethods g + estimatedRealTimeExcludingCalleeMethods a,
       cpuTimeIncludingCalleeMethods := cpuTimeIncludingCalleeMethods g + cpuTimeIncludingCalleeMethods a,
       estimatedRealTimeIncludingCalleeMethods := estimatedRealTimeIncludingCalleeMethods g + estimatedRealTimeIncludingCalleeMethods a\<rparr>"

lemma plus_added: "PerformanceMeasure_plus g a = added g a"
  by (cases "methodName g") (auto simp: PerformanceMeasure_plus_def added_def)

definition merged :: "string option \<Rightarrow> int \<Rightarrow> performance_measure option \<Rightarrow> performance_measure option \<Rightarrow> performance_measure option" where
  "merged name k G A =
     (case (G, A) of
        (G, None) \<Rightarrow> G
      | (Some g, Some a) \<Rightarrow> Some (added g a)
      | (None, Some a) \<Rightarrow> map_option (\<lambda>n. a\<lparr>pm_methodId := k, methodName := Some n\<rparr>) name)"

lemma plus_id [simp]: "PerformanceMeasure_plus g (a\<lparr>pm_methodId := k\<rparr>) = PerformanceMeasure_plus g a"
  by (simp add: PerformanceMeasure_plus_def)

lemma pm_update_ok: "pm_at h a = Some m \<Longrightarrow> pm_update a f h = Inr (pm_write a (f m) h)"
  by (simp add: pm_update_def pm_read_def)

lemma inj_table: "inj_on m (dom m) \<Longrightarrow> m j = Some a \<Longrightarrow> m k = Some a \<Longrightarrow> j = k"
  by (rule inj_onD [of m "dom m"]) auto

lemma merge_step:
  assumes ok: "mergeable (k # ks) p (l, h)" and k: "k \<notin> set ks" "methodMeasures p k = Some a"
  shows "\<exists>l' h'. merge_measure freed k a (l, h) = Inr (l', h') \<and> mergeable ks p (l', h') \<and>
    registeredMethodNames l' = registeredMethodNames l \<and>
    global_measure (l', h') = (global_measure (l, h))(k := merged (registered_name freed l k) k (global_measure (l, h) k) (pm_at h a)) \<and>
    (\<forall>j \<in> set ks. \<forall>b. methodMeasures p j = Some b \<longrightarrow> pm_at h' b = pm_at h b)"
proof -
  obtain A where A: "pm_at h a = Some A" "a \<notin> ran (globalMeasures l)" using ok k(2) by (auto simp: mergeable_def)
  have other: "b \<noteq> a" if "j \<in> set ks" "methodMeasures p j = Some b" for j b
    using ok k that inj_table [of "methodMeasures p" j a k] by (auto simp: mergeable_def)
  have glob: "g \<noteq> a" if "globalMeasures l j = Some g" for j g using A(2) that by (auto simp: ran_def)
  let ?h1 = "pm_write a (A\<lparr>pm_methodId := k\<rparr>) h"
  have h1: "pm_update a (\<lambda>pm. pm\<lparr>pm_methodId := k\<rparr>) h = Inr ?h1" "pm_at ?h1 a = Some (A\<lparr>pm_methodId := k\<rparr>)"
    "pm_at ?h1 b = pm_at h b" if "b \<noteq> a" for b
    using A(1) that by (simp_all add: pm_update_ok pm_write_def)
  show ?thesis
  proof (cases "globalMeasures l k")
    case (Some g)
    have g: "g \<noteq> a" using glob Some by blast
    obtain G where G: "pm_at h g = Some G" using ok Some by (fastforce simp: mergeable_def)
    let ?h = "pm_delete a (pm_write g (PerformanceMeasure_plus G (A\<lparr>pm_methodId := k\<rparr>)) ?h1)"
    have at: "pm_at ?h b = (if b = a then None else if b = g then Some (PerformanceMeasure_plus G A) else pm_at h b)" for b
      using g by (simp add: pm_delete_def pm_write_def)
    have "merge_measure freed k a (l, h) = Inr (l, ?h)"
      using Some g G h1 [OF g] by (simp add: merge_measure_def pm_update_ok pm_read_def)
    moreover have "mergeable ks p (l, ?h)"
      using ok other glob unfolding mergeable_def prod.case at by (auto simp: ran_def)
    moreover have "global_measure (l, ?h) j = ((global_measure (l, h))(k := merged (registered_name freed l k) k
        (global_measure (l, h) k) (pm_at h a))) j" for j
    proof (cases "j = k")
      case True
      then show ?thesis using Some g G A at by (simp add: global_measure_def merged_def plus_added)
    next
      case False
      then have "globalMeasures l j \<noteq> Some g"
        using ok Some inj_table [of "globalMeasures l" j g k] by (auto simp: mergeable_def)
      then show ?thesis using False glob at by (auto simp: global_measure_def split: option.split)
    qed
    moreover have "\<forall>j \<in> set ks. \<forall>b. methodMeasures p j = Some b \<longrightarrow> pm_at ?h b = pm_at h b"
    proof (intro ballI allI impI)
      fix j b assume j: "j \<in> set ks" "methodMeasures p j = Some b"
      then have "b \<notin> ran (globalMeasures l)" using ok by (auto simp: mergeable_def)
      then show "pm_at ?h b = pm_at h b" using other [OF j] Some at by (auto simp: ran_def)
    qed
    ultimately show ?thesis by blast
  next
    case None
    show ?thesis
    proof (cases "registered_name freed l k")
      case N: None
      have "merge_measure freed k a (l, h) = Inr (l, ?h1)"
        using None N h1(1) A(1) by (auto simp: merge_measure_def registered_name_def pm_update_ok split: option.splits)
      moreover have "mergeable ks p (l, ?h1)"
        using ok by (auto simp: mergeable_def pm_write_def)
      moreover have "global_measure (l, ?h1) = (global_measure (l, h))(k := merged None k (global_measure (l, h) k) (pm_at h a))"
        using None A glob by (auto simp: global_measure_def merged_def plus_added pm_write_def fun_eq_iff split: option.split)
      ultimately show ?thesis using N other by (intro exI [of _ l] exI [of _ ?h1]) (auto simp: pm_write_def)
    next
      case (Some n)
      let ?l = "l\<lparr>globalMeasures := (globalMeasures l)(k \<mapsto> a)\<rparr>"
      let ?h = "pm_write a (A\<lparr>pm_methodId := k, methodName := Some n\<rparr>) ?h1"
      have "merge_measure freed k a (l, h) = Inr (?l, ?h)"
        using None Some A(1)
        by (auto simp: merge_measure_def registered_name_def pm_update_ok EventLogger_getMethodName_def lookup_method_def
            pm_write_def split: option.splits)
      moreover have "mergeable ks p (?l, ?h)"
        using ok other None A by (auto simp: mergeable_def pm_write_def inj_on_def dom_def ran_def split: if_splits)
      moreover have "global_measure (?l, ?h) = (global_measure (l, h))(k := merged (Some n) k (global_measure (l, h) k) (pm_at h a))"
        using None A glob by (auto simp: global_measure_def merged_def plus_added pm_write_def fun_eq_iff split: option.split)
      ultimately show ?thesis using Some other by (intro exI [of _ ?l] exI [of _ ?h]) (auto simp: pm_write_def)
    qed
  qed
qed

text \<open>
  C39. At the end of a thread every method of the thread is merged into the measures of all threads:
  its samples and times are added to those of the method, or its measure becomes the measure of a registered
  method that had none, and a measure of a method that is not registered is dropped. The waiting times and
  the I/O times of the thread are lost when the method already had a measure.\<close>

theorem thread_measures_merged:
  assumes "mergeable ks p (l, h)" "distinct ks"
  shows "\<exists>l' h'. EventLogger_createMeasuresForThread freed ks p (l, h) = Inr (l', h') \<and>
    (\<forall>k. global_measure (l', h') k =
      (if k \<in> set ks then merged (registered_name freed l k) k (global_measure (l, h) k) (measure_of (p, h) k)
       else global_measure (l, h) k))"
  using assms
proof (induction ks arbitrary: l h)
  case (Cons k ks)
  show ?case
  proof (cases "methodMeasures p k")
    case None
    have "mergeable ks p (l, h)" using Cons(2) by (simp add: mergeable_def)
    from Cons(1) [OF this] Cons(3) None show ?thesis
      by (auto simp: measure_of_def merged_def plus_added split: option.split)
  next
    case (Some a)
    from merge_step [OF Cons(2) _ Some, of freed] Cons(3) obtain l1 h1 where
      s: "merge_measure freed k a (l, h) = Inr (l1, h1)" "mergeable ks p (l1, h1)" "registeredMethodNames l1 = registeredMethodNames l"
      and g: "global_measure (l1, h1) =
        (global_measure (l, h))(k := merged (registered_name freed l k) k (global_measure (l, h) k) (pm_at h a))"
      and kept: "\<forall>j \<in> set ks. \<forall>b. methodMeasures p j = Some b \<longrightarrow> pm_at h1 b = pm_at h b"
      by auto
    have m: "measure_of (p, h1) j = measure_of (p, h) j" if "j \<in> set ks" for j
      using kept that by (auto simp: measure_of_def split: option.split)
    have n: "registered_name freed l1 j = registered_name freed l j" for j
      using s(3) by (simp add: registered_name_def)
    from Cons(1) [OF s(2)] Cons(3) obtain l' h' where
      r: "EventLogger_createMeasuresForThread freed ks p (l1, h1) = Inr (l', h')"
        "\<forall>j. global_measure (l', h') j = (if j \<in> set ks then merged (registered_name freed l1 j) j (global_measure (l1, h1) j) (measure_of (p, h1) j)
           else global_measure (l1, h1) j)" by auto
    have "measure_of (p, h) k = pm_at h a" using Some by (simp add: measure_of_def)
    then have "\<forall>j. global_measure (l', h') j = (if j \<in> set (k # ks) then merged (registered_name freed l j) j (global_measure (l, h) j) (measure_of (p, h) j)
        else global_measure (l, h) j)"
      using r(2) g m n Cons(3) by auto
    then show ?thesis using Some s(1) r(1) by auto
  qed
qed (simp add: measure_of_def)

text \<open>One method that two threads called: the first measure has 4 units of I/O, the second 6.\<close>

definition example_measure :: "int \<Rightarrow> int \<Rightarrow> performance_measure" where
  "example_measure cpu io = PerformanceMeasure_add cpu cpu cpu cpu 0 io 0 io (PerformanceMeasure_PerformanceMeasure 1 None)"

definition example_store :: measure_store where
  "example_store = \<lparr>pm_at = [0 \<mapsto> example_measure 10 4, 1 \<mapsto> example_measure 20 6], pm_free = 2\<rparr>"

definition example_logger :: event_logger where
  "example_logger = \<lparr>registeredMethodNames = [1 \<mapsto> Some (MethodData_MethodData ''m'' 1 0)], globalMeasures = [1 \<mapsto> 0],
     measuresRoots = None, serializedExecutionTime = 0, prunePercentage = 0, totalThreadsControlled = 0,
     allSignalsSent = 0, allThreadsInvocationPoints = 0\<rparr>"

definition example_profile :: profile where
  "example_profile = (MethodLog_MethodLog False)\<lparr>methodMeasures := [1 \<mapsto> 1]\<rparr>"

theorem thread_measures_merged_witness:
  "\<exists>l h G. EventLogger_createMeasuresForThread [] [1] example_profile (example_logger, example_store) = Inr (l, h) \<and>
    global_measure (l, h) 1 = Some G \<and> samples G = 2 \<and> cpuTimeIncludingCalleeMethods G = 30 \<and> ioWaitIncludingCalleeMethods G = 4"
proof -
  have ok: "mergeable [1] example_profile (example_logger, example_store)"
    by (simp add: mergeable_def example_profile_def example_logger_def example_store_def)
  show ?thesis
    using thread_measures_merged [OF ok, of "[]"]
    by (fastforce simp: merged_def plus_added global_measure_def measure_of_def example_profile_def example_logger_def example_store_def
        example_measure_def added_def PerformanceMeasure_add_def PerformanceMeasure_PerformanceMeasure_def
        u32_succ_def)
qed

end
