(* ===== verification/Vex_MethodEvents.thy ===== *)
theory Vex_MethodEvents
  imports Vex_Events Vex_IoPredictor Vex_Profiler
begin

text \<open>
  Methods and I/O operations of simulated threads: the behaviours at the entry and the exit of a method
  (\<open>events/MethodEventsBehaviour.cpp\<close> and the methods of \<open>threads/ThreadState.cpp\<close> that they call), the
  simulation of I/O operations (\<open>io/IoSimulator.cpp\<close>), the protocols between a thread in I/O and the
  scheduler (\<open>io/IoProtocol.cpp\<close>) and their options (\<open>io/IoParameters.cpp\<close>).

  A behaviour is a list of steps of the calling thread. A step acts on the simulation, the predictors or the
  profile of the thread; it may block at a call that suspends the thread, and \<open>pendingSteps\<close> holds the steps
  that the thread still has to do after the frames that \<open>blockedIn\<close> holds.
\<close>

section \<open>Options\<close>

text \<open>The protocol of an \<open>IoProtocolEnforcer\<close> for cached calls and the one for the others.\<close>

datatype io_protocol =
    IoProtocol
  | IoProtocolSerial
  | IoProtocolStrict
  | IoProtocolLax
  | IoProtocolNormal
  | IoProtocolEnforcer io_protocol io_protocol

fun getTitle :: "io_protocol \<Rightarrow> string" where
  "getTitle IoProtocolSerial = ''Serial''"
| "getTitle IoProtocolStrict = ''Strict''"
| "getTitle IoProtocolLax = ''Lax''"
| "getTitle IoProtocolNormal = ''Normal''"
| "getTitle p = []"

text \<open>\<open>None\<close> is the null pointer that \<open>parseIoPolicy\<close> leaves as protocol after a wrong value.\<close>

record io_parameters =
  io_protocol :: "io_protocol option"
  predictionMethod :: string
  predictorType :: string
  predictionMethodBufferSize :: int
  io_recognizer :: "recognizer option"
  io_excluder :: "excluder option"
  modelFilename :: "string option"
  ioImportMeasurementsFilesPrefix :: "string option"

definition IoParameters_setDefaultValues :: io_parameters where
  "IoParameters_setDefaultValues =
     \<lparr>io_protocol = Some IoProtocolNormal, predictionMethod = ''avg'', predictorType = ''invpoint'',
      predictionMethodBufferSize = 16, io_recognizer = None, io_excluder = None, modelFilename = None,
      ioImportMeasurementsFilesPrefix = None\<rparr>"

definition IoParameters_parseIoPolicy :: "string \<Rightarrow> io_protocol option" where
  "IoParameters_parseIoPolicy s =
     (if s = ''serial'' then Some IoProtocolSerial
      else if s = ''strict'' then Some IoProtocolStrict
      else if s = ''lax'' then Some IoProtocolLax
      else if s = ''normal'' then Some IoProtocolNormal
      else if s = ''none'' then Some IoProtocol
      else None)"

definition IoParameters_parseIoLevel :: "string \<Rightarrow> io_parameters \<Rightarrow> io_parameters \<times> bool" where
  "IoParameters_parseIoLevel v ps =
     (if v \<in> {''global'', ''invpoint'', ''ioop'', ''none''} then (ps\<lparr>predictorType := v\<rparr>, True) else (ps, False))"

definition IoParameters_parseRandomIoRecognition :: "string \<Rightarrow> io_parameters \<Rightarrow> io_parameters \<times> bool" where
  "IoParameters_parseRandomIoRecognition v ps =
     (ps\<lparr>io_excluder := Some (if atoi v = 0 then AllIoExcluder else IoExcluder_of_percentage (atoi v))\<rparr>, True)"

definition IoParameters_parseThresholdIoRecognition :: "string \<Rightarrow> io_parameters \<Rightarrow> io_parameters \<times> bool" where
  "IoParameters_parseThresholdIoRecognition v ps = (ps\<lparr>io_recognizer := Some (EmpiricalRecognizer (atoi v))\<rparr>, True)"

definition IoParameters_setValue :: "string \<Rightarrow> string \<Rightarrow> io_parameters \<Rightarrow> io_parameters \<times> bool" where
  "IoParameters_setValue attr v ps =
     (if attr = ''io'' then (ps\<lparr>io_protocol := IoParameters_parseIoPolicy v\<rparr>, IoParameters_parseIoPolicy v \<noteq> None)
      else if attr = ''iopred'' then (ps\<lparr>predictionMethod := v\<rparr>, True)
      else if attr = ''iolevel'' then IoParameters_parseIoLevel v ps
      else if attr = ''iobuffer'' then (ps\<lparr>predictionMethodBufferSize := u32 (atoi v)\<rparr>, u32 (atoi v) > 0)
      else if attr = ''iomodel'' then (ps\<lparr>modelFilename := Some v\<rparr>, True)
      else if attr = ''iostats'' then (ps, False)
      else if attr = ''ioimport'' then (ps\<lparr>ioImportMeasurementsFilesPrefix := Some v\<rparr>, True)
      else if attr = ''ioexclude'' then IoParameters_parseRandomIoRecognition v ps
      else if attr = ''iodisregard'' then (ps\<lparr>io_excluder := Some AllIoExcluder\<rparr>, True)
      else if attr = ''iothreshold'' then IoParameters_parseThresholdIoRecognition v ps
      else (ps, False))"

text \<open>\<open>strtok\<close>: the tokens between delimiters.\<close>

fun split_at :: "char set \<Rightarrow> string \<Rightarrow> string \<Rightarrow> string list" where
  "split_at D acc [] = (if acc = [] then [] else [rev acc])"
| "split_at D acc (c # cs) =
     (if c \<in> D then (if acc = [] then split_at D [] cs else rev acc # split_at D [] cs) else split_at D (c # acc) cs)"

text \<open>The first token of an option ends at a hyphen, the second at one of the delimiters of the list.\<close>

definition IoParameters_parseOption :: "string \<Rightarrow> char set \<Rightarrow> io_parameters \<Rightarrow> io_parameters \<times> bool" where
  "IoParameters_parseOption option delims ps =
     (let s = dropWhile (\<lambda>c. c = CHR ''-'') option;
          attr = takeWhile (\<lambda>c. c \<noteq> CHR ''-'') s;
          values = split_at delims [] (drop (length attr + 1) s)
      in if attr = [] \<or> values = [] then (ps, False) else IoParameters_setValue attr (hd values) ps)"

text \<open>The list holds at most nine options, the others are dropped. Wrong options are printed.\<close>

definition IoParameters_IoParameters :: "string \<Rightarrow> string \<Rightarrow> io_parameters" where
  "IoParameters_IoParameters parameters separator =
     (let D = insert (CHR '' '') (set separator)
      in fold (\<lambda>option ps. fst (IoParameters_parseOption option D ps)) (take 9 (split_at D [] parameters))
           IoParameters_setDefaultValues)"

definition IoParameters_createPredictor :: "machine \<Rightarrow> factory \<Rightarrow> int \<Rightarrow> io_parameters \<Rightarrow> io_predictor res" where
  "IoParameters_createPredictor e f raw ps =
     bindE (IoPredictor_IoPredictor e
              (if predictorType ps = ''global'' then GlobalIoPrediction
               else if predictorType ps = ''ioop'' then OperationAwareIoPrediction
               else if predictorType ps = ''invpoint'' then StateAwareIoPrediction
               else NoIoPrediction) f raw) (\<lambda>P.
     Inr (P\<lparr>excluder := io_excluder ps, recognizer := io_recognizer ps\<rparr>))"

definition IoParameters_getIoProtocol :: "io_parameters \<Rightarrow> io_protocol res" where
  "IoParameters_getIoProtocol ps =
     (case io_protocol ps of
        None \<Rightarrow> Inl NullDeref
      | Some p \<Rightarrow> Inr (if io_excluder ps = None \<and> io_recognizer ps = None then p
                       else IoProtocolEnforcer IoProtocolSerial p))"

section \<open>State\<close>

datatype method_step =
    Code "frame list"
  | EnsureNotNative int
  | AssertManaged
  | MethodEntered int rat
  | MethodLeft int
  | CheckPolicy
  | OnVexExit
  | IoEntered int bool int
  | IoExited int
  | LogEntry int
  | LogExit
  | UpdateExiting int
  | AfterIo
  | StartIo
  | EndIo int
  | ProtocolStart nat io_protocol
  | ProtocolEnd nat io_protocol int
  | LaxIo nat
  | NormalIo nat bool
  | NormalReset nat
  | NormalCommit int
  | CommitIo int
  | ResetIoFlags

text \<open>The I/O simulator is one \<open>IoSimulator\<close>, of category 0, or a \<open>StandardCategoryIoSimulator\<close> with one
  simulator for block I/O (0), character I/O (1) and system calls (2). \<open>pendingIoCalls\<close> is the counter of
  the normal protocol of a category. Some behaviours answer: a method is recursive, or shall no longer be
  profiled.\<close>

record 'tl app =
  app_sim :: "'tl world"
  app_managers :: manager_registry
  app_machine :: machine
  app_predictor :: "nat \<Rightarrow> io_predictor"
  pendingIoCalls :: "nat \<Rightarrow> int"
  app_profile :: "thread_ptr \<Rightarrow> profile"
  app_measures :: measure_store
  exited_measure :: "thread_ptr \<Rightarrow> nat option"
  pendingSteps :: "thread_ptr \<Rightarrow> method_step list"
  app_answer :: "thread_ptr \<Rightarrow> bool"

record 'tl app_config =
  sim_config :: "'tl config"
  app_protocol :: "nat \<Rightarrow> io_protocol"
  ioCategories :: bool
  reportIoMethods :: bool
  bytecodeDelay :: int
  ioBytecodeDelay :: int
  methodTimeScalingFactors :: "int \<Rightarrow> rat option"
  defaultTimeScalingFactor :: rat
  invalidationPolicy :: "invalidation_policy option"
  samplingFuel :: nat

definition on_app :: "('tl world \<Rightarrow> 'tl world) \<Rightarrow> 'tl app \<Rightarrow> 'tl app" where
  [vex_defs]: "on_app f a = a\<lparr>app_sim := f (app_sim a)\<rparr>"

definition on_thread :: "thread_ptr \<Rightarrow> (vex_thread \<Rightarrow> vex_thread) \<Rightarrow> 'tl app \<Rightarrow> 'tl app" where
  [vex_defs]: "on_thread p f = on_app (upd_thr p f)"

definition in_app :: "('tl world \<Rightarrow> 'tl world res) \<Rightarrow> 'tl app \<Rightarrow> 'tl app res" where
  "in_app f a = bindE (f (app_sim a)) (\<lambda>w. Inr (a\<lparr>app_sim := w\<rparr>))"

section \<open>Protocols\<close>

definition VexThreadState_onVexExit :: "thread_ptr \<Rightarrow> 'tl world \<Rightarrow> 'tl world" where
  "VexThreadState_onVexExit p w =
     update_cpu_clock p (upd_thr p (upd_sched (\<lambda>sc. sc\<lparr>schedInVex := False\<rparr>)) (VexThreadState_exit p w))"

definition VexThreadState_onVexExitWithBothClocksUpdate :: "thread_ptr \<Rightarrow> 'tl world \<Rightarrow> 'tl world" where
  "VexThreadState_onVexExitWithBothClocksUpdate p w = update_clocks p (VexThreadState_exit p w)"

definition IoProtocol_onStart :: "thread_ptr \<Rightarrow> 'tl world \<Rightarrow> 'tl world" where
  "IoProtocol_onStart p w = update_clocks p (VexThreadState_onVexExit p w)"

definition IoProtocolSerial_onStart :: "'tl config \<Rightarrow> thread_ptr \<Rightarrow> 'tl world \<Rightarrow> 'tl world res" where
  "IoProtocolSerial_onStart cfg p w =
     (let w1 = VexThreadState_lockShareResourceAccessKey p w in
      bindE (managerOf (controllingManager p w1)) (\<lambda>m.
      bindE (ThreadManager_updateCurrentThreadVT cfg m p w1) (\<lambda>w2.
      Inr (VexThreadState_onVexExitWithBothClocksUpdate p (ThreadManager_setSystemCallThread p w2)))))"

definition set_ioFinishedBeforeLogging :: "bool \<Rightarrow> vex_thread \<Rightarrow> vex_thread" where
  [vex_defs]: "set_ioFinishedBeforeLogging b = upd_io (\<lambda>io. io\<lparr>ioFinishedBeforeLogging := b\<rparr>)"

definition IoProtocolSerial_onEnd :: "'tl config \<Rightarrow> thread_ptr \<Rightarrow> int \<Rightarrow> 'tl world \<Rightarrow> 'tl world res" where
  "IoProtocolSerial_onEnd cfg p actualIoDuration w =
     (let w1 = upd_thr p (set_ioFinishedBeforeLogging False) (VexThreadState_lockShareResourceAccessKey p
                 (upd_thr p (upd_timers (Timers_addGlobalTime actualIoDuration)) w))
      in case controllingManager p w1 of
           None \<Rightarrow> Inl AssertFailed
         | Some m \<Rightarrow> ThreadManager_updateCurrentThreadVT cfg m p (upd_thr p VexThreadState_setRunning w1))"

text \<open>The lax protocol keeps the manager that it had before the thread was suspended.\<close>

definition IoProtocolLax_onStart ::
  "'tl config \<Rightarrow> thread_ptr \<Rightarrow> 'tl world \<Rightarrow> ('tl world \<times> bool \<times> method_step list) res" where
  "IoProtocolLax_onStart cfg p w =
     (let dummyTime = lastCPUTime (thr_timers (thr p w)) + 1;
          w1 = VexThreadState_lockShareResourceAccessKey p w in
      bindE (managerOf (controllingManager p w1)) (\<lambda>m.
      bindE (ThreadManager_suspendCurrentThread cfg m p dummyTime 0 w1) (\<lambda>(w2, b).
      Inr (w2, b, [LaxIo m]))))"

definition IoProtocolLax_io :: "nat \<Rightarrow> thread_ptr \<Rightarrow> 'tl world \<Rightarrow> 'tl world res" where
  "IoProtocolLax_io m p w =
     bindE (ThreadManager_setIoThread m p True w) (\<lambda>w1.
     bindE (ThreadManager_conditionalWakeup m p w1) (\<lambda>w2.
     Inr (VexThreadState_onVexExitWithBothClocksUpdate p w2)))"

definition IoProtocolLax_onEnd ::
  "'tl config \<Rightarrow> thread_ptr \<Rightarrow> int \<Rightarrow> 'tl world \<Rightarrow> ('tl world \<times> bool \<times> method_step list) res" where
  "IoProtocolLax_onEnd cfg p actualIoDuration w =
     (let w1 = upd_thr p (set_ioFinishedBeforeLogging False) (VexThreadState_lockShareResourceAccessKey p
                 (upd_thr p (upd_timers (fst \<circ> Timers_addElapsedTime actualIoDuration)) w)) in
      bindE (managerOf (controllingManager p w1)) (\<lambda>m.
      bindE (ThreadManager_suspendCurrentThread cfg m p 0 SUSPEND_OPT_DONT_UPDATE_THREAD_TIME w1) (\<lambda>(w2, b).
      Inr (w2, b, [CommitIo actualIoDuration]))))"

definition IoProtocolNormal_minimizeSchedulerTimeslot :: "nat \<Rightarrow> nat \<Rightarrow> 'tl app \<Rightarrow> 'tl app" where
  "IoProtocolNormal_minimizeSchedulerTimeslot c m a =
     (let a1 = a\<lparr>pendingIoCalls := (pendingIoCalls a)(c := pendingIoCalls a c + 1)\<rparr>
      in if pendingIoCalls a c = 0 then on_app (upd_mgr m ThreadManager_minimizeSchedulerTimeslot) a1 else a1)"

fun reset_timeslots :: "nat option list \<Rightarrow> 'tl world \<Rightarrow> 'tl world res" where
  "reset_timeslots [] w = Inr w"
| "reset_timeslots (m # ms) w =
     bindE (managerOf m) (\<lambda>k. reset_timeslots ms (upd_mgr k ThreadManager_resetDefaultSchedulerTimeslot w))"

definition ThreadManagerRegistry_resetDefaultSchedulerTimeslot :: "manager_registry \<Rightarrow> 'tl world \<Rightarrow> 'tl world res" where
  "ThreadManagerRegistry_resetDefaultSchedulerTimeslot g = reset_timeslots (take (currentlyRegistered g) (managerList g))"

definition IoProtocolNormal_resetSchedulerTimeslot :: "nat \<Rightarrow> 'tl app \<Rightarrow> 'tl app res" where
  "IoProtocolNormal_resetSchedulerTimeslot c a =
     (let a1 = a\<lparr>pendingIoCalls := (pendingIoCalls a)(c := pendingIoCalls a c - 1)\<rparr>
      in if pendingIoCalls a1 c = 0
         then in_app (ThreadManagerRegistry_resetDefaultSchedulerTimeslot (app_managers a)) a1 else Inr a1)"

text \<open>A thread whose operation is predicted is queued at its predicted end; a thread that is slowed down is
  suspended until it is the earliest one, before its operation.\<close>

definition IoProtocolNormal_onStart ::
  "'tl config \<Rightarrow> nat \<Rightarrow> thread_ptr \<Rightarrow> 'tl world \<Rightarrow> ('tl world \<times> bool \<times> method_step list) res" where
  "IoProtocolNormal_onStart cfg c p w =
     (let w1 = VexThreadState_lockShareResourceAccessKey p w in
      bindE (managerOf (controllingManager p w1)) (\<lambda>m.
      bindE (ThreadManager_updateCurrentThreadVT cfg m p w1) (\<lambda>w2.
      if lastIoPrediction (ioHandler (thr p w2)) \<noteq> 0
      then let w3 = upd_thr p VexThreadState_addPredictionToEstimatedRealTime w2 in
        if virtualTimeSpeedup (thr_timers (thr p w3)) > 1
        then bindE (managerOf (controllingManager p w3)) (\<lambda>m1.
             bindE (ThreadManager_suspendCurrentThread cfg m1 p 0
                      (SUSPEND_OPT_DONT_UPDATE_THREAD_TIME OR SUSPEND_OPT_FORCE_SUSPEND) w3) (\<lambda>(w4, b).
             Inr (w4, b, [NormalIo c False])))
        else Inr (w3, False, [NormalIo c False])
      else Inr (w2, False, [NormalIo c True]))))"

definition IoProtocolNormal_io :: "nat \<Rightarrow> thread_ptr \<Rightarrow> bool \<Rightarrow> 'tl app \<Rightarrow> 'tl app res" where
  "IoProtocolNormal_io c p learning a =
     bindE (managerOf (controllingManager p (app_sim a))) (\<lambda>m.
     bindE (in_app (ThreadManager_setIoThread m p learning) a) (\<lambda>a1.
     bindE (managerOf (controllingManager p (app_sim a1))) (\<lambda>m1.
     bindE (in_app (ThreadManager_conditionalWakeup m1 p) (IoProtocolNormal_minimizeSchedulerTimeslot c m1 a1)) (\<lambda>a2.
     Inr (on_app (VexThreadState_onVexExitWithBothClocksUpdate p) a2)))))"

text \<open>The manager of the thread, or the default manager; only the calls on it need that it exists.\<close>

definition IoProtocolNormal_onEnd ::
  "'tl config \<Rightarrow> nat \<Rightarrow> nat option \<Rightarrow> thread_ptr \<Rightarrow> int \<Rightarrow> 'tl world \<Rightarrow> ('tl world \<times> bool \<times> method_step list) res" where
  "IoProtocolNormal_onEnd cfg c defaultManager p actualIoDuration w =
     (let w1 = VexThreadState_lockShareResourceAccessKey p w;
          stateManager = (case controllingManager p w1 of None \<Rightarrow> defaultManager | Some m \<Rightarrow> Some m);
          w2 = upd_thr p (set_ioFinishedBeforeLogging False) w1;
          rest = [NormalReset c, NormalCommit actualIoDuration];
          suspend = (\<lambda>options w3. bindE (managerOf stateManager) (\<lambda>m.
            bindE (ThreadManager_suspendCurrentThread cfg m p 0 options w3) (\<lambda>(w4, b). Inr (w4, b, rest))))
      in if inIoLearningPhase (thr p w2)
         then if timeout (thr_timers (thr p w2)) \<noteq> -1
              then bindE (assertE AssertFailed (stateManager \<noteq> None)) (\<lambda>_.
                   bindE (ThreadManager_updateRunnableQueue (upd_thr p (upd_timers
                      (fst \<circ> Timers_addElapsedTime actualIoDuration \<circ> Timers_rollbackFromTimeOutValue)) w2))
                     (suspend (SUSPEND_OPT_DONT_UPDATE_THREAD_TIME OR SUSPEND_OPT_THREAD_ALREADY_IN_LIST)))
              else bindE (assertE AssertFailed (stateManager \<noteq> None)) (\<lambda>_.
                   suspend SUSPEND_OPT_DONT_UPDATE_THREAD_TIME
                     (upd_thr p (upd_timers (Timers_addLocalIoTime actualIoDuration)) w2))
         else if inIoPredictionPhase (thr p w2)
         then bindE (managerOf stateManager) (\<lambda>_.
              bindE (ThreadManager_updateRunnableQueue
                (upd_thr p (VexThreadState_updateEstimatedRealTimeAfterIoPrediction actualIoDuration) w2))
                (suspend (SUSPEND_OPT_DONT_UPDATE_THREAD_TIME OR SUSPEND_OPT_THREAD_ALREADY_IN_LIST)))
         else Inr (w2, False, rest))"

section \<open>Methods\<close>

text \<open>\<open>ensureThreadIsNotInNativeWaitingStateWhenEnteringVex\<close>, and the update of the local time by its callers
  when the thread was not in native waiting.\<close>

definition VexThreadState_ensureThreadIsNotInNativeWaitingStateWhenEnteringVex ::
  "'tl config \<Rightarrow> thread_ptr \<Rightarrow> int \<Rightarrow> 'tl world \<Rightarrow> ('tl world \<times> bool) res" where
  "VexThreadState_ensureThreadIsNotInNativeWaitingStateWhenEnteringVex cfg p startingTime w =
     (let w1 = upd_thr p (\<lambda>s. s\<lparr>inVex := True\<rparr>) w
      in if \<not> isRunning (thr p w1) \<or> controllingManager p w1 = None
         then let w2 = VexThreadState_lockShareResourceAccessKey p (upd_thr p VexThreadState_setCustom2 w1)
              in bindE (managerOf (previouslyControllingManager (scheduling_of (thr p w2)))) (\<lambda>m.
                 ThreadManager_suspendLooseCurrentThread cfg m p startingTime w2)
         else Inr (upd_thr p (upd_timers (Timers_updateThreadLocalTimeSinceLastResumeTo (globalScalingFactor cfg) startingTime)) w1,
                   False))"

definition profile_thread ::
  "thread_ptr \<Rightarrow> (profile \<times> measure_store \<Rightarrow> ((profile \<times> measure_store) \<times> 'b) res) \<Rightarrow> 'tl app \<Rightarrow> ('tl app \<times> 'b) res" where
  "profile_thread p f a =
     bindE (f (app_profile a p, app_measures a)) (\<lambda>((P, h), x).
     Inr (a\<lparr>app_profile := (app_profile a)(p := P), app_measures := h\<rparr>, x))"

text \<open>\<open>logMethodEntry\<close> answers whether the method is recursive; \<open>logMethodExit\<close> returns the measure.\<close>

definition log_entry :: "thread_ptr \<Rightarrow> int \<Rightarrow> bool \<Rightarrow> 'tl app \<Rightarrow> 'tl app res" where
  "log_entry p k change a =
     bindE (profile_thread p (VexThreadState_logMethodEntry k change (thr_timers (thr p (app_sim a)))) a) (\<lambda>(a1, b).
     Inr (a1\<lparr>app_answer := (app_answer a1)(p := b)\<rparr>))"

definition log_exit_of :: "thread_ptr \<Rightarrow> 'tl app \<Rightarrow> 'tl app res" where
  "log_exit_of p a =
     bindE (profile_thread p VexThreadState_logMethodExit a) (\<lambda>(a1, m).
     Inr (a1\<lparr>exited_measure := (exited_measure a1)(p := m)\<rparr>))"

definition update_exiting :: "thread_ptr \<Rightarrow> int \<Rightarrow> 'tl app \<Rightarrow> 'tl app" where
  "update_exiting p k a =
     a\<lparr>app_profile := (app_profile a)(p := VexThreadState_updateExitingMethodInfo k (thr_timers (thr p (app_sim a))) (app_profile a p))\<rparr>"

text \<open>A method with a scaling factor changes that of the thread until its exit, unless the thread has one.\<close>

definition VexThreadState_onVexMethodEntry :: "thread_ptr \<Rightarrow> int \<Rightarrow> rat \<Rightarrow> 'tl app \<Rightarrow> 'tl app res" where
  "VexThreadState_onVexMethodEntry p k methodTimeScalingFactor a =
     bindE (assertE AssertFailed (controllingManager p (app_sim a) \<noteq> None)) (\<lambda>_.
     let a1 = on_thread p (VexThreadState_onEntry k) a;
         change = (virtualTimeSpeedup (thr_timers (thr p (app_sim a1))) = 1 \<and> methodTimeScalingFactor \<noteq> 1 \<and> methodTimeScalingFactor \<noteq> 0)
     in bindE (if change
               then bindE (managerOf (controllingManager p (app_sim a1))) (\<lambda>m.
                    Inr (on_app (ThreadManager_notifySchedulerForVirtualizedTime m p methodTimeScalingFactor \<circ>
                                 VexThreadState_lockShareResourceAccessKey p) a1))
               else Inr a1) (\<lambda>a2. log_entry p k change a2))"

definition VexThreadState_onVexMethodExit :: "thread_ptr \<Rightarrow> int \<Rightarrow> 'tl app \<Rightarrow> 'tl app res" where
  "VexThreadState_onVexMethodExit p k a =
     bindE (case currentMethodInfo (app_profile a p) of
              None \<Rightarrow> Inr a
            | Some i \<Rightarrow>
                bindE (at_idx (methodInfoStorage (app_profile a p)) i) (\<lambda>c.
                if shouldResetVTFactor c
                then bindE (managerOf (controllingManager p (app_sim a))) (\<lambda>m.
                     Inr (on_app (ThreadManager_notifySchedulerForVirtualizedTime m p 1 \<circ>
                                  VexThreadState_lockShareResourceAccessKey p) a))
                else Inr a)) (\<lambda>a1.
     log_exit_of p (update_exiting p k (on_thread p (VexThreadState_onExit k) a1)))"

section \<open>I/O operations\<close>

definition VexThreadState_onVexIoMethodEntry :: "int \<Rightarrow> bool \<Rightarrow> int \<Rightarrow> vex_thread \<Rightarrow> vex_thread" where
  "VexThreadState_onVexIoMethodEntry invocationPointHashValue possiblyBlocking startingTime s =
     upd_io (\<lambda>io. io\<lparr>ioInvocationPointHashValue := invocationPointHashValue\<rparr>)
       (upd_timers (Timers_setLastCPUTime startingTime) (VexThreadState_onIoEntry possiblyBlocking (s\<lparr>inVex := True\<rparr>)))"

definition VexThreadState_onVexIoMethodExit :: "rat \<Rightarrow> int \<Rightarrow> vex_thread \<Rightarrow> vex_thread" where
  "VexThreadState_onVexIoMethodExit globalScaling startingTime s =
     (let s1 = s\<lparr>inVex := True\<rparr>;
          s2 = (if ignoringIo (ioHandler s1)
                then upd_timers (Timers_updateThreadLocalTimeSinceLastResumeTo globalScaling startingTime) s1 else s1)
      in upd_sched Scheduling_increaseVtfInvocationsSinceLastResume
           (upd_io (\<lambda>io. io\<lparr>ioCpuTime := startingTime - lastCPUTime (thr_timers s2), ioFinishedBeforeLogging := True\<rparr>) s2))"

definition getCategorySimulator :: "bool \<Rightarrow> int \<Rightarrow> nat" where
  "getCategorySimulator categories ioMethodId =
     (if \<not> categories then 0
      else if ioMethodId \<ge> 15 \<and> ioMethodId < 31 then 2
      else if ioMethodId = 13 \<or> ioMethodId = 14 then 1 else 0)"

definition lift_app :: "'a res \<Rightarrow> 'a res option" where
  [vex_defs]: "lift_app r = Some r"

text \<open>The operation is known by the current method of the thread.\<close>

definition IoSimulator_startIo ::
  "'tl app_config \<Rightarrow> thread_ptr \<Rightarrow> 'tl app \<Rightarrow> ('tl app \<times> bool \<times> method_step list) res option" where
  "IoSimulator_startIo cfg p a =
     bindO (lift_app (MethodLog_getCurrentMethodId (app_profile a p))) (\<lambda>k.
     let c = getCategorySimulator (ioCategories cfg) k in
     bindO (IoPredictor_onIoEntryGetIoPrediction (samplingFuel cfg) p k (thr p (app_sim a)) (app_machine a) (app_predictor a c))
       (\<lambda>(e, P, s).
     Some (Inr (on_thread p (\<lambda>_. s) (a\<lparr>app_machine := e, app_predictor := (app_predictor a)(c := P)\<rparr>), False,
                [ProtocolStart c (app_protocol cfg c)]))))"

definition IoSimulator_endIo ::
  "'tl app_config \<Rightarrow> thread_ptr \<Rightarrow> int \<Rightarrow> 'tl app \<Rightarrow> ('tl app \<times> bool \<times> method_step list) res" where
  "IoSimulator_endIo cfg p realTimeValueOnExit a =
     bindE (MethodLog_getCurrentMethodId (app_profile a p)) (\<lambda>k.
     let c = getCategorySimulator (ioCategories cfg) k;
         s = thr p (app_sim a);
         actualIoDuration = ll_of_float (f32 (virtualTimeSpeedup (thr_timers s) *
           f32 (of_int (realTimeValueOnExit - lastRealTime (thr_timers s)))))
     in bindE (IoPredictor_onIoExitAddRealTimeMeasurement p k s actualIoDuration (app_machine a) (app_predictor a c)) (\<lambda>P.
        Inr (a\<lparr>app_predictor := (app_predictor a)(c := P)\<rparr>, False, [ProtocolEnd c (app_protocol cfg c) actualIoDuration])))"

section \<open>Execution of steps\<close>

definition onward :: "method_step list \<Rightarrow> 'tl app res \<Rightarrow> ('tl app \<times> bool \<times> method_step list) res" where
  [vex_defs]: "onward steps r = bindE r (\<lambda>a. Inr (a, False, steps))"

definition suspends :: "method_step list \<Rightarrow> ('tl world \<Rightarrow> ('tl world \<times> bool) res) \<Rightarrow> 'tl app \<Rightarrow> ('tl app \<times> bool \<times> method_step list) res" where
  [vex_defs]: "suspends steps f a = bindE (f (app_sim a)) (\<lambda>(w, b). Inr (a\<lparr>app_sim := w\<rparr>, b, steps))"

definition protocol_call ::
  "('tl world \<Rightarrow> ('tl world \<times> bool \<times> method_step list) res) \<Rightarrow> 'tl app \<Rightarrow> ('tl app \<times> bool \<times> method_step list) res" where
  [vex_defs]: "protocol_call f a = bindE (f (app_sim a)) (\<lambda>(w, b, steps). Inr (a\<lparr>app_sim := w\<rparr>, b, steps))"

fun protocol_start ::
  "'tl config \<Rightarrow> nat \<Rightarrow> thread_ptr \<Rightarrow> io_protocol \<Rightarrow> 'tl app \<Rightarrow> ('tl app \<times> bool \<times> method_step list) res" where
  "protocol_start cfg c p IoProtocol a = Inr (on_app (IoProtocol_onStart p) a, False, [])"
| "protocol_start cfg c p IoProtocolSerial a = onward [] (in_app (IoProtocolSerial_onStart cfg p) a)"
| "protocol_start cfg c p IoProtocolStrict a = Inr (a, False, [])"
| "protocol_start cfg c p IoProtocolLax a = protocol_call (IoProtocolLax_onStart cfg p) a"
| "protocol_start cfg c p IoProtocolNormal a = protocol_call (IoProtocolNormal_onStart cfg c p) a"
| "protocol_start cfg c p (IoProtocolEnforcer serial others) a =
     (if ignoringIo (ioHandler (thr p (app_sim a))) then Inr (a, False, [])
      else if recognizingIoAsCached (ioHandler (thr p (app_sim a))) then protocol_start cfg c p serial a
      else protocol_start cfg c p others a)"

fun protocol_end ::
  "'tl config \<Rightarrow> nat \<Rightarrow> thread_ptr \<Rightarrow> io_protocol \<Rightarrow> int \<Rightarrow> 'tl app \<Rightarrow> ('tl app \<times> bool \<times> method_step list) res" where
  "protocol_end cfg c p IoProtocol d a = Inr (a, False, [])"
| "protocol_end cfg c p IoProtocolSerial d a = onward [] (in_app (IoProtocolSerial_onEnd cfg p d) a)"
| "protocol_end cfg c p IoProtocolStrict d a = Inr (a, False, [])"
| "protocol_end cfg c p IoProtocolLax d a = protocol_call (IoProtocolLax_onEnd cfg p d) a"
| "protocol_end cfg c p IoProtocolNormal d a =
     protocol_call (IoProtocolNormal_onEnd cfg c (ThreadManagerRegistry_getDefaultManager (app_managers a)) p d) a"
| "protocol_end cfg c p (IoProtocolEnforcer serial others) d a =
     bindE (if ignoringIo (ioHandler (thr p (app_sim a))) then Inr (a, False, [])
            else if recognizingIoAsCached (ioHandler (thr p (app_sim a))) then protocol_end cfg c p serial d a
            else protocol_end cfg c p others d a) (\<lambda>(a1, b, steps). Inr (a1, b, steps @ [ResetIoFlags]))"

text \<open>The result says whether the thread blocked, and which steps it does next.\<close>

fun perform_step ::
  "'tl app_config \<Rightarrow> thread_ptr \<Rightarrow> method_step \<Rightarrow> 'tl app \<Rightarrow> ('tl app \<times> bool \<times> method_step list) res option" where
  "perform_step cfg p (Code fs) a = Some (suspends [] (run_frames (sim_config cfg) p fs) a)"
| "perform_step cfg p (EnsureNotNative t) a =
     Some (suspends [AssertManaged] (VexThreadState_ensureThreadIsNotInNativeWaitingStateWhenEnteringVex (sim_config cfg) p t) a)"
| "perform_step cfg p AssertManaged a =
     Some (bindE (assertE AssertFailed (controllingManager p (app_sim a) \<noteq> None)) (\<lambda>_. Inr (a, False, [])))"
| "perform_step cfg p (MethodEntered k factor) a = Some (onward [] (VexThreadState_onVexMethodEntry p k factor a))"
| "perform_step cfg p (MethodLeft k) a = Some (onward [] (VexThreadState_onVexMethodExit p k a))"
| "perform_step cfg p CheckPolicy a =
     Some (case invalidationPolicy cfg of
             None \<Rightarrow> Inr (a\<lparr>app_answer := (app_answer a)(p := False)\<rparr>, False, [])
           | Some policy \<Rightarrow>
               bindE (case exited_measure a p of
                        None \<Rightarrow> keepOnProfiling policy (ctrl_globalTime (controller (sim_config cfg)) (virtualTimeline (app_sim a))) None
                      | Some m \<Rightarrow> bindE (pm_read m (app_measures a)) (\<lambda>pm.
                          keepOnProfiling policy (ctrl_globalTime (controller (sim_config cfg)) (virtualTimeline (app_sim a))) (Some pm)))
                 (\<lambda>keep. Inr (a\<lparr>app_answer := (app_answer a)(p := \<not> keep)\<rparr>, False, [])))"
| "perform_step cfg p OnVexExit a = Some (Inr (on_app (VexThreadState_onVexExit p) a, False, []))"
| "perform_step cfg p (IoEntered hash blocking t) a =
     Some (Inr (on_thread p (VexThreadState_onVexIoMethodEntry hash blocking t) a, False, []))"
| "perform_step cfg p (IoExited t) a =
     Some (Inr (on_thread p (VexThreadState_onVexIoMethodExit (globalScalingFactor (sim_config cfg)) t) a, False, []))"
| "perform_step cfg p (LogEntry k) a = Some (onward [] (log_entry p k False a))"
| "perform_step cfg p LogExit a = Some (onward [] (log_exit_of p a))"
| "perform_step cfg p (UpdateExiting k) a = Some (Inr (update_exiting p k a, False, []))"
| "perform_step cfg p AfterIo a =
     Some (Inr (on_thread p (\<lambda>s. upd_timers (Timers_setCpuTimeClockAfterIo (cpuTime (app_sim a) p) (ioBytecodeDelay cfg))
                  (upd_sched (\<lambda>sc. sc\<lparr>schedInVex := False\<rparr>) (s\<lparr>inVex := False\<rparr>))) a, False, []))"
| "perform_step cfg p StartIo a = IoSimulator_startIo cfg p a"
| "perform_step cfg p (EndIo t) a = Some (IoSimulator_endIo cfg p t a)"
| "perform_step cfg p (ProtocolStart c protocol) a = Some (protocol_start (sim_config cfg) c p protocol a)"
| "perform_step cfg p (ProtocolEnd c protocol d) a = Some (protocol_end (sim_config cfg) c p protocol d a)"
| "perform_step cfg p (LaxIo m) a = Some (onward [] (in_app (IoProtocolLax_io m p) a))"
| "perform_step cfg p (NormalIo c learning) a = Some (onward [] (IoProtocolNormal_io c p learning a))"
| "perform_step cfg p (NormalReset c) a = Some (onward [] (IoProtocolNormal_resetSchedulerTimeslot c a))"
| "perform_step cfg p (NormalCommit d) a =
     Some (if controllingManager p (app_sim a) = None
           then bindE (managerOf (ThreadManagerRegistry_getDefaultManager (app_managers a))) (\<lambda>m.
                suspends [CommitIo d] (ThreadManager_suspendLooseCurrentThread (sim_config cfg) m p 0) a)
           else Inr (a, False, [CommitIo d]))"
| "perform_step cfg p (CommitIo d) a =
     Some (bindE (managerOf (controllingManager p (app_sim a))) (\<lambda>m.
           onward [] (in_app (ThreadManager_commitIoDuration (sim_config cfg) m p d) a)))"
| "perform_step cfg p ResetIoFlags a = Some (Inr (on_thread p (upd_io IoHandler_resetIoStateFlags) a, False, []))"

text \<open>At most \<open>n\<close> steps until the thread blocks.\<close>

fun run_steps :: "nat \<Rightarrow> 'tl app_config \<Rightarrow> thread_ptr \<Rightarrow> method_step list \<Rightarrow> 'tl app \<Rightarrow> ('tl app \<times> bool) res option" where
  "run_steps n cfg p [] a = Some (Inr (a, False))"
| "run_steps 0 cfg p (s # ss) a = Some (Inl StackOverflow)"
| "run_steps (Suc n) cfg p (s # ss) a =
     bindO (perform_step cfg p s a) (\<lambda>(a1, blocked, onward).
     if blocked then Some (Inr (a1\<lparr>pendingSteps := (pendingSteps a1)(p := onward @ ss)\<rparr>, True))
     else run_steps n cfg p (onward @ ss) a1)"

definition resume_steps :: "nat \<Rightarrow> 'tl app_config \<Rightarrow> thread_ptr \<Rightarrow> 'tl app \<Rightarrow> ('tl app \<times> bool) res option" where
  "resume_steps n cfg p a =
     bindO (lift_app (continue_thread_code (sim_config cfg) p (app_sim a))) (\<lambda>(w, blocked).
     let a1 = a\<lparr>app_sim := w\<rparr> in
     if blocked then Some (Inr (a1, True))
     else run_steps n cfg p (pendingSteps a1 p) (a1\<lparr>pendingSteps := (pendingSteps a1)(p := [])\<rparr>))"

section \<open>Behaviours\<close>

definition getTimeScalingFactorOfMethod :: "'tl app_config \<Rightarrow> int \<Rightarrow> rat" where
  "getTimeScalingFactorOfMethod cfg k =
     (case methodTimeScalingFactors cfg k of Some f \<Rightarrow> f | None \<Rightarrow> defaultTimeScalingFactor cfg)"

definition MethodEventsBehaviour_registerMethodTimeScalingFactor :: "int \<Rightarrow> rat \<Rightarrow> 'tl app_config \<Rightarrow> 'tl app_config" where
  "MethodEventsBehaviour_registerMethodTimeScalingFactor k speedup cfg =
     cfg\<lparr>methodTimeScalingFactors := (methodTimeScalingFactors cfg)(k \<mapsto> f32 speedup)\<rparr>"

definition MethodEventsBehaviour_afterMethodEntry :: "'tl app_config \<Rightarrow> thread_ptr \<Rightarrow> int \<Rightarrow> 'tl app \<Rightarrow> method_step list" where
  "MethodEventsBehaviour_afterMethodEntry cfg p k a =
     [EnsureNotNative (cpuTime (app_sim a) p - bytecodeDelay cfg), MethodEntered k (getTimeScalingFactorOfMethod cfg k), OnVexExit]"

definition MethodEventsBehaviour_beforeMethodExit :: "'tl app_config \<Rightarrow> thread_ptr \<Rightarrow> int \<Rightarrow> 'tl app \<Rightarrow> method_step list" where
  "MethodEventsBehaviour_beforeMethodExit cfg p k a =
     [EnsureNotNative (cpuTime (app_sim a) p - bytecodeDelay cfg), MethodLeft k, CheckPolicy, OnVexExit]"

definition MethodEventsBehaviour_afterIoMethodEntry ::
  "'tl app_config \<Rightarrow> thread_ptr \<Rightarrow> int \<Rightarrow> int \<Rightarrow> bool \<Rightarrow> 'tl app \<Rightarrow> method_step list" where
  "MethodEventsBehaviour_afterIoMethodEntry cfg p k invocationPointHashValue possiblyBlocking a =
     (if IoHandler_invalidIoInvocationPoint invocationPointHashValue (ioHandler (thr p (app_sim a))) then []
      else let startingTime = cpuTime (app_sim a) p - ioBytecodeDelay cfg in
        [EnsureNotNative startingTime, IoEntered invocationPointHashValue possiblyBlocking startingTime] @
        (if reportIoMethods cfg then [LogEntry k] else []) @ [StartIo])"

definition MethodEventsBehaviour_beforeIoMethodExit :: "'tl app_config \<Rightarrow> thread_ptr \<Rightarrow> int \<Rightarrow> 'tl app \<Rightarrow> method_step list" where
  "MethodEventsBehaviour_beforeIoMethodExit cfg p k a =
     (let s = thr p (app_sim a) in
      if IoHandler_invalidIoInvocationPoint (ioInvocationPointHashValue (ioHandler s)) (ioHandler s) then []
      else [IoExited (cpuTime (app_sim a) p - ioBytecodeDelay cfg), EndIo (realTime (app_sim a) - ioBytecodeDelay cfg), UpdateExiting k] @
        (if reportIoMethods cfg then [LogExit] else []) @ [AfterIo])"

end
