(* ===== verification/Vex_IoSoundness.thy ===== *)
theory Vex_IoSoundness
  imports Vex_MethodEvents
begin

text \<open>
  Threads in I/O operations. What the operations of the manager do to a thread that starts or ends an operation, a type
  system of the steps of \<open>Vex_MethodEvents\<close> over the modes of a thread (\<open>step_type\<close>), and its soundness: locale
  \<open>io_controller\<close> adds the commits of operations to the contract of a controller. The steps of the serial and the
  normal protocol are typed; those of the lax protocol are not, since they work with a manager that may be outdated.
\<close>

lemma setNewState_sees [simp]:
  "vex_thread.currentState (VexThreadState_setNewState c s) = c" "scheduling_of (VexThreadState_setNewState c s) = scheduling_of s"
  "timeout (thr_timers (VexThreadState_setNewState c s)) = timeout (thr_timers s)"
  "waitingInRealTime (VexThreadState_setNewState c s) = waitingInRealTime s" "ert (VexThreadState_setNewState c s) = ert s"
  "ioHandler (VexThreadState_setNewState c s) = ioHandler s"
  by (simp_all add: VexThreadState_setNewState_def upd_stats_def upd_timers_def Timers_setLastTimePerStateERT_def)

lemma unset_thr [simp]:
  "thr q (ThreadManager_unsetCurrentThreadFromRunningThread m p w) = thr q w"
  "runnableThreads (ThreadManager_unsetCurrentThreadFromRunningThread m p w) = runnableThreads w"
  "controllingManager q (ThreadManager_unsetCurrentThreadFromRunningThread m p w) = controllingManager q w"
  by (simp_all add: ThreadManager_unsetCurrentThreadFromRunningThread_def)

definition in_io :: "sched_view \<Rightarrow> sched_view" where
  "in_io t = t\<lparr>c_state := IN_IO, c_queued := True, c_running := {}\<rparr>"

lemma push_thr: "ThreadManager_pushIntoRunnableQueue p w = Inr w' \<Longrightarrow> thr q w' = thr q w \<and> controllingManager q w' = controllingManager q w"
  by (auto simp: ThreadManager_pushIntoRunnableQueue_def on_queue_def bindE_def thr_def controllingManager_def split: sum.splits)

text \<open>A predicted operation: the thread leaves its manager and enters the queue.\<close>

lemma set_io_acts:
  assumes "shared_ok ready w" "p \<notin> set (queued w)" "c_running (look p w) \<subseteq> {m}"
  shows "does (ThreadManager_setIoThread m p False w) (\<lambda>w'. acts ready p w w' in_io \<and> ert (thr p w') = ert (thr p w) \<and>
    ioHandler (thr p w') = ioHandler (thr p w) \<and> controllingManager p w' = controllingManager p w)"
proof -
  let ?w1 = "ThreadManager_unsetCurrentThreadFromRunningThread m p w"
  let ?w2 = "upd_thr p VexThreadState_setInIo ?w1"
  note u = unset_acts [OF assms(1), of p m]
  have a: "acts ready p w ?w2 (\<lambda>t. t\<lparr>c_state := IN_IO, c_running := c_running t - {m}\<rparr>)"
    by (rule acts_cong [OF acts_then_upd [OF u]])
      (auto simp: see_def look_def Let_def VexThreadState_setInIo_def)
  have q: "p \<notin> set (queued ?w2)" using not_queued_acts [OF a] assms(2) by simp
  obtain w' where w': "ThreadManager_pushIntoRunnableQueue p ?w2 = Inr w'" "acts ready p ?w2 w' (\<lambda>t. t\<lparr>c_queued := True\<rparr>)"
    using push_acts [OF acts_ok [OF a] q] by (auto simp: does_def)
  have "acts ready p w w' in_io"
    by (rule acts_cong [OF acts_trans [OF a w'(2)]]) (use assms(3) in \<open>auto simp: in_io_def\<close>)
  moreover have "ThreadManager_setIoThread m p False w = Inr w'"
    using w'(1)
    by (simp add: ThreadManager_setIoThread_def Let_def VexThreadState_setIoAndCheckIfOperationShouldBlockSimulationProgress_def
        upd_thr_def upd_state_def thr_def ThreadManager_unsetCurrentThreadFromRunningThread_def)
  moreover have "thr p w' = VexThreadState_setInIo (thr p w)" "controllingManager p w' = controllingManager p w"
    using push_thr [OF w'(1), of p] by (simp_all add: controllingManager_def thr_upd_thr VexThreadState_setInIo_def)
  ultimately show ?thesis by (simp add: VexThreadState_setInIo_def)
qed

lemma conditional_wakeup:
  "shared_ok ready w \<Longrightarrow> \<exists>w'. ThreadManager_conditionalWakeup m p w = Inr w' \<and> (w' = w \<or> w' = ThreadManager_unconditionalWakeup m w)"
  using reads_queue(1,2) [of ready w] by (auto simp: ThreadManager_conditionalWakeup_def)

lemma wakeup_thr [simp]: "thr q (ThreadManager_unconditionalWakeup m w) = thr q w"
  "controllingManager q (ThreadManager_unconditionalWakeup m w) = controllingManager q w"
  by (simp_all add: ThreadManager_unconditionalWakeup_def)

lemma conditional_wakeup_acts:
  assumes "shared_ok ready w"
  shows "does (ThreadManager_conditionalWakeup m p w) (\<lambda>w'. acts ready p w w' (\<lambda>t. t) \<and> thr p w' = thr p w)"
  using conditional_wakeup [OF assms, of m p] wakeup_acts [OF assms, of p m] acts_refl [OF assms, of p] by auto

lemma both_clocks_acts:
  assumes "shared_ok ready w"
  shows "acts ready p w (VexThreadState_onVexExitWithBothClocksUpdate p w) (\<lambda>t. t) \<and>
    ert (thr p (VexThreadState_onVexExitWithBothClocksUpdate p w)) = ert (thr p w) \<and>
    ioHandler (thr p (VexThreadState_onVexExitWithBothClocksUpdate p w)) = ioHandler (thr p w)"
proof -
  let ?w1 = "VexThreadState_exit p w"
  have a: "acts ready p w ?w1 (\<lambda>t. t)"
    unfolding VexThreadState_exit_def by (rule acts_unseen [OF assms]) (auto intro: unseen_facts)
  have "acts ready p ?w1 (update_clocks p ?w1) (\<lambda>t. t)"
    unfolding update_clocks_def by (rule acts_unseen [OF acts_ok [OF a]]) (auto intro!: unseen_facts)
  from acts_trans [OF a this] show ?thesis
    by (simp add: VexThreadState_onVexExitWithBothClocksUpdate_def update_clocks_def VexThreadState_exit_def upd_timers_def)
qed

text \<open>An operation without a prediction: the thread enters the queue only if it has a timeout.\<close>

definition in_learning :: "sched_view \<Rightarrow> sched_view" where
  "in_learning t = t\<lparr>c_state := LEARNING_IO, c_queued := (c_timeout t \<noteq> -1), c_running := {}\<rparr>"

lemma learning_acts:
  assumes "shared_ok ready w" "p \<notin> set (queued w)"
  shows "does (ThreadManager_setIoThread m p True w) (\<lambda>w'. acts ready p w w' (\<lambda>t. t\<lparr>c_state := LEARNING_IO,
    c_queued := (c_timeout t \<noteq> -1), c_running := c_running t - {m}\<rparr>) \<and> controllingManager p w' = controllingManager p w)"
proof -
  let ?g = "\<lambda>t. t\<lparr>c_state := LEARNING_IO, c_queued := (c_timeout t \<noteq> -1), c_running := c_running t - {m}\<rparr>"
  let ?w1 = "ThreadManager_unsetCurrentThreadFromRunningThread m p w"
  let ?f = "\<lambda>s. fst (VexThreadState_setIoAndCheckIfOperationShouldBlockSimulationProgress True s)"
  let ?w2 = "upd_thr p ?f ?w1"
  note u = unset_acts [OF assms(1), of p m]
  have a: "acts ready p w ?w2 (\<lambda>t. t\<lparr>c_state := LEARNING_IO, c_running := c_running t - {m}\<rparr>)"
    by (rule acts_cong [OF acts_then_upd [OF u]])
      (use assms(2) in \<open>auto simp: see_def look_def Let_def VexThreadState_setLearningIo_def upd_timers_def Timers_leapForwardBy_def
        VexThreadState_setIoAndCheckIfOperationShouldBlockSimulationProgress_def Timers_addElapsedTime_def vex_defs\<close>)
  have q: "p \<notin> set (queued ?w2)" using not_queued_acts [OF a] assms(2) by simp
  have m2: "controllingManager p ?w2 = controllingManager p w"
    by (simp add: controllingManager_def VexThreadState_setIoAndCheckIfOperationShouldBlockSimulationProgress_def
        VexThreadState_setLearningIo_def upd_timers_def Let_def)
  have io: "ThreadManager_setIoThread m p True w =
      (if timeout (thr_timers (thr p w)) \<noteq> -1 then ThreadManager_pushIntoRunnableQueue p ?w2 else Inr ?w2)"
    by (simp add: ThreadManager_setIoThread_def Let_def VexThreadState_setIoAndCheckIfOperationShouldBlockSimulationProgress_def
        upd_thr_def upd_state_def thr_def ThreadManager_unsetCurrentThreadFromRunningThread_def VexThreadState_setLearningIo_def)
  show ?thesis
  proof (cases "timeout (thr_timers (thr p w)) = -1")
    case True
    have "acts ready p w ?w2 ?g" by (rule acts_cong [OF a]) (use True assms(2) in auto)
    then show ?thesis using io True m2 by simp
  next
    case False
    obtain w' where w': "ThreadManager_pushIntoRunnableQueue p ?w2 = Inr w'" "acts ready p ?w2 w' (\<lambda>t. t\<lparr>c_queued := True\<rparr>)"
      using push_acts [OF acts_ok [OF a] q] by (auto simp: does_def)
    have "acts ready p w w' ?g" by (rule acts_cong [OF acts_trans [OF a w'(2)]]) (use False in auto)
    then show ?thesis using io False m2 w'(1) push_thr [OF w'(1), of p] by simp
  qed
qed

lemma set_learning_acts:
  assumes "shared_ok ready w" "p \<notin> set (queued w)" "c_running (look p w) \<subseteq> {m}"
  shows "does (ThreadManager_setIoThread m p True w) (\<lambda>w'. acts ready p w w' in_learning \<and> controllingManager p w' = controllingManager p w)"
proof -
  obtain w' where w': "ThreadManager_setIoThread m p True w = Inr w'" "controllingManager p w' = controllingManager p w"
      "acts ready p w w' (\<lambda>t. t\<lparr>c_state := LEARNING_IO, c_queued := (c_timeout t \<noteq> -1), c_running := c_running t - {m}\<rparr>)"
    using learning_acts [OF assms(1,2), of m] by (auto simp: does_def)
  have "acts ready p w w' in_learning" by (rule acts_cong [OF w'(3)]) (use assms(3) in \<open>auto simp: in_learning_def\<close>)
  with w' show ?thesis by simp
qed

lemma normal_io_acts:
  assumes set: "does (ThreadManager_setIoThread m p b (app_sim a)) (\<lambda>w. acts ready p (app_sim a) w g \<and> controllingManager p w = Some m)"
    and m: "controllingManager p (app_sim a) = Some m"
  shows "does (IoProtocolNormal_io c p b a) (\<lambda>a'. acts ready p (app_sim a) (app_sim a') g \<and> app_managers a' = app_managers a \<and>
    pendingIoCalls a' = (pendingIoCalls a)(c := pendingIoCalls a c + 1) \<and>
    (\<exists>w. ThreadManager_setIoThread m p b (app_sim a) = Inr w \<and> ert (thr p (app_sim a')) = ert (thr p w) \<and>
      ioHandler (thr p (app_sim a')) = ioHandler (thr p w)))"
proof -
  obtain w1 where w1: "ThreadManager_setIoThread m p b (app_sim a) = Inr w1" and a1: "acts ready p (app_sim a) w1 g"
    and f1: "controllingManager p w1 = Some m"
    using set by (auto simp: does_def)
  let ?b = "IoProtocolNormal_minimizeSchedulerTimeslot c m (a\<lparr>app_sim := w1\<rparr>)"
  have b: "acts ready p w1 (app_sim ?b) (\<lambda>t. t)" "thr p (app_sim ?b) = thr p w1"
    "pendingIoCalls ?b = (pendingIoCalls a)(c := pendingIoCalls a c + 1)" "app_managers ?b = app_managers a"
    using acts_refl [OF acts_ok [OF a1]] acts_upd_mgr [OF acts_ok [OF a1]]
    by (auto simp: IoProtocolNormal_minimizeSchedulerTimeslot_def on_app_def Let_def ThreadManager_minimizeSchedulerTimeslot_def)
  note a2 = acts_trans [OF a1 b(1)]
  obtain w2 where w2: "ThreadManager_conditionalWakeup m p (app_sim ?b) = Inr w2" "acts ready p (app_sim ?b) w2 (\<lambda>t. t)"
      "thr p w2 = thr p (app_sim ?b)"
    using conditional_wakeup_acts [OF acts_ok [OF a2]] by (auto simp: does_def)
  note a3 = acts_trans [OF a2 w2(2)]
  note e = both_clocks_acts [OF acts_ok [OF a3], of p]
  have "IoProtocolNormal_io c p b a = Inr (on_app (VexThreadState_onVexExitWithBothClocksUpdate p) (?b\<lparr>app_sim := w2\<rparr>))"
    using m w1 w2 f1 by (simp add: IoProtocolNormal_io_def managerOf_def in_app_def)
  moreover have "acts ready p (app_sim a) (VexThreadState_onVexExitWithBothClocksUpdate p w2) g"
    using acts_trans [OF a3 conjunct1 [OF e]] by simp
  ultimately show ?thesis using e w1 b w2(3) by (simp add: on_app_def)
qed

section \<open>Modes of a thread in an operation\<close>

datatype io_mode = In mode | InIo | InSystemCall

text \<open>A thread in an operation of which the duration is predicted, or which has a timeout, is queued.\<close>

fun io_fits :: "(nat \<Rightarrow> bool) \<Rightarrow> io_mode \<Rightarrow> sched_view \<Rightarrow> bool" where
  "io_fits core (In M) t \<longleftrightarrow> fits core M t"
| "io_fits core InIo t \<longleftrightarrow> c_blocked t = None \<and> managed core t \<and> c_running t = {} \<and>
     (c_state t = IN_IO \<and> c_queued t \<or> c_state t = LEARNING_IO \<and> (c_queued t \<longleftrightarrow> c_timeout t \<noteq> -1))"
| "io_fits core InSystemCall t \<longleftrightarrow> c_blocked t = None \<and> c_state t = IN_SYSTEM_CALL \<and> \<not> c_queued t \<and> managed core t \<and>
     c_running t = set_option (c_manager t)"

text \<open>The protocols that the code completes; the enforcer chooses among them by flags of the thread.\<close>

fun io_target :: "io_protocol \<Rightarrow> io_mode option" where
  "io_target IoProtocol = Some (In Running)"
| "io_target IoProtocolSerial = Some InSystemCall"
| "io_target IoProtocolNormal = Some InIo"
| "io_target P = None"

fun step_type :: "method_step \<Rightarrow> io_mode \<Rightarrow> io_mode option" where
  "step_type (EnsureNotNative t) M = (if M = In Running \<or> M = In Native then Some (In Running) else None)"
| "step_type AssertManaged M = (if M = In Running then Some (In Running) else None)"
| "step_type OnVexExit M = (if M = In Running then Some (In Running) else None)"
| "step_type (IoEntered h b t) M = (if M = In Running then Some (In Running) else None)"
| "step_type (IoExited t) M = (if M = In Running \<or> M = InSystemCall then Some M else None)"
| "step_type AfterIo M = (if M = In Running then Some (In Running) else None)"
| "step_type ResetIoFlags M = Some M"
| "step_type (ProtocolStart c P) M = (if M = In Running then io_target P else None)"
| "step_type (NormalIo c b) M = (if M = In Running then Some InIo else None)"
| "step_type (ProtocolEnd c P d) M = (if io_target P = Some M then Some (In Running) else None)"
| "step_type (NormalReset c) M = (if M = In Running then Some (In Running) else None)"
| "step_type (NormalCommit d) M = (if M = In Running then Some (In Running) else None)"
| "step_type (CommitIo d) M = (if M = In Running then Some (In Running) else None)"
| "step_type s M = None"

fun steps_type :: "method_step list \<Rightarrow> io_mode \<Rightarrow> io_mode option" where
  "steps_type [] M = Some M"
| "steps_type (s # ss) M = Option.bind (step_type s M) (steps_type ss)"

lemma steps_type_append: "steps_type (xs @ ys) M = Option.bind (steps_type xs M) (steps_type ys)"
  by (induction xs arbitrary: M) (auto split: bind_split)

text \<open>A bound for the steps that a step leads to.\<close>

fun weight :: "method_step \<Rightarrow> nat" where
  "weight (EnsureNotNative t) = 2"
| "weight (ProtocolStart c P) = 2"
| "weight (ProtocolEnd c P d) = 4"
| "weight (NormalCommit d) = 2"
| "weight s = 1"

section \<open>Suspension of a queued thread\<close>

lemma listed_options:
  "((SUSPEND_OPT_DONT_UPDATE_THREAD_TIME OR SUSPEND_OPT_THREAD_ALREADY_IN_LIST) AND SUSPEND_OPT_DONT_UPDATE_THREAD_TIME \<noteq> 0) = True"
  "((SUSPEND_OPT_DONT_UPDATE_THREAD_TIME OR SUSPEND_OPT_THREAD_ALREADY_IN_LIST) AND SUSPEND_OPT_THREAD_ALREADY_IN_LIST \<noteq> 0) = True"
  "((SUSPEND_OPT_DONT_UPDATE_THREAD_TIME OR SUSPEND_OPT_THREAD_ALREADY_IN_LIST) AND SUSPEND_OPT_FORCE_SUSPEND \<noteq> 0) = False"
  "((SUSPEND_OPT_DONT_UPDATE_THREAD_TIME OR SUSPEND_OPT_THREAD_ALREADY_IN_LIST) AND SUSPEND_OPT_DONT_WAKE_UP_SCHEDULER = 0) = True"
  by (simp_all add: SUSPEND_OPT_DONT_UPDATE_THREAD_TIME_def SUSPEND_OPT_THREAD_ALREADY_IN_LIST_def SUSPEND_OPT_FORCE_SUSPEND_def
      SUSPEND_OPT_DONT_WAKE_UP_SCHEDULER_def)

lemma suspended_listed_acts:
  assumes "shared_ok ready w"
  shows "acts ready p w (ThreadManager_blockCurrentThread p [] (ThreadManager_unconditionalWakeup m
      (upd_thr p VexThreadState_setSuspended (ThreadManager_unsetCurrentThreadFromRunningThread m p w))))
    (\<lambda>t. t\<lparr>c_state := SUSPENDED, c_awaken := False, c_running := c_running t - {m}, c_blocked := Some [SetRunning]\<rparr>)"
proof -
  note u = unset_acts [OF assms, of p m]
  note a = acts_then_upd [OF u, of VexThreadState_setSuspended, simplified]
  note b = acts_trans [OF a wakeup_acts [OF acts_ok [OF a], of p m]]
  note c = acts_trans [OF b block_acts [OF acts_ok [OF b], of p "[SetRunning]"]]
  show ?thesis
    unfolding ThreadManager_blockCurrentThread_def
    by (rule acts_cong [OF c]) (simp add: see_def look_def Let_def)
qed

context time_controller
begin

lemma suspend_listed_lands:
  assumes cfg: "controller cfg = ctrl" "0 < stackDepth cfg" and ok: "shared_ok ready w" and core: "core m"
    and view: "c_blocked (look p w) = None" "c_queued (look p w)" "c_running (look p w) = {}" "c_manager (look p w) = Some m"
  shows "lands ready core Running p w (ThreadManager_suspendCurrentThread cfg m p 0
    (SUSPEND_OPT_DONT_UPDATE_THREAD_TIME OR SUSPEND_OPT_THREAD_ALREADY_IN_LIST) w)"
proof -
  obtain w3 b where r3: "ThreadManager_shouldCurrentThreadSuspend m p w = Inr (w3, b)" and a: "acts ready p w w3 (\<lambda>t. t)"
    using should_acts [OF ok, of m p] by (auto simp: does_def)
  have "lands ready core Running p w3
      (if b
       then bindE (assertE AssertFailed (\<not> awaken (scheduling_of (thr p (ThreadManager_unconditionalWakeup m
             (upd_thr p VexThreadState_setSuspended (ThreadManager_unsetCurrentThreadFromRunningThread m p w3))))))) (\<lambda>_.
           Inr (ThreadManager_blockCurrentThread p [] (ThreadManager_unconditionalWakeup m
             (upd_thr p VexThreadState_setSuspended (ThreadManager_unsetCurrentThreadFromRunningThread m p w3))), True))
       else if ThreadManager_getRunningThread m w3 \<noteq> Some p
            then bindE (on_queue (\<lambda>st. ThreadQueue_erase st p) w3) (ThreadManager_setRunningThread cfg m p)
            else Inr (w3, False))"
  proof (cases b)
    case True
    have "parked_view core Running ((look p w3)\<lparr>c_state := SUSPENDED, c_awaken := False, c_running := c_running (look p w3) - {m},
        c_blocked := Some [SetRunning]\<rparr>)"
      using view acts_look [OF a] by (simp add: parked_view_def code_left_def runnable_view_def)
    from lands_parks [OF suspended_listed_acts [OF acts_ok [OF a]], OF this] True show ?thesis
      by (simp add: assertE_def)
  next
    case False
    have "ThreadManager_getRunningThread m w3 \<noteq> Some p"
      using view(3) acts_look [OF a] look_state(9) [of p w3] by (auto simp: ThreadManager_getRunningThread_def)
    moreover have "lands ready core Running p w3 (bindE (on_queue (\<lambda>st. ThreadQueue_erase st p) w3) (ThreadManager_setRunningThread cfg m p))"
    proof (rule lands_bind [OF erase_acts [OF acts_ok [OF a]]])
      fix w4 assume a4: "acts ready p w3 w4 (\<lambda>t. t\<lparr>c_queued := False\<rparr>)"
      have "suspendable core m (look p w4)"
        using view core acts_look [OF a] acts_look [OF a4] by (simp add: suspendable_def)
      then show "lands ready core Running p w4 (ThreadManager_setRunningThread cfg m p w4)"
        unfolding ThreadManager_setRunningThread_def by (rule setRunning_lands [OF cfg(1) acts_ok [OF a4] _ cfg(2)])
    qed
    ultimately show ?thesis using False by simp
  qed
  then have "lands ready core Running p w3 (ThreadManager_suspendCurrentThread cfg m p 0
      (SUSPEND_OPT_DONT_UPDATE_THREAD_TIME OR SUSPEND_OPT_THREAD_ALREADY_IN_LIST) w)"
    by (simp only: ThreadManager_suspendCurrentThread_def suspendCurrentThread_calling_def Let_def listed_options r3
        bindE_Inr prod.case if_True if_False not_True_eq_False simp_thms)
  then show ?thesis by (rule lands_after [OF a])
qed

end

section \<open>Commits of I/O operations\<close>

lemma io_waiting_timeout [simp]: "timeout (Timers_updateIoWaitingTimeFrom t d x) = timeout x"
  by (simp add: Timers_updateIoWaitingTimeFrom_def Let_def)

locale io_controller = time_controller ctrl ready core
  for ctrl :: "'tl controller" and ready core +
  assumes io_commits: "ready vt \<Longrightarrow> core m \<Longrightarrow>
    \<exists>vt' s'. ctrl_commit ctrl m (Io d) vt s = Inr (vt', s') \<and> ready vt' \<and> retimed s s'"

lemma single_io_controller: "io_controller single_controller (\<lambda>vt. \<not> mutex_held vt) (\<lambda>_. True)"
  by unfold_locales
    (simp add: single_controller_def Single_commitIoTimeProgress_def on_timeline_def VirtualTimeline_leapForwardTo_def
      with_mutex_def Let_def)

lemma multiple_io_controller: "io_controller multiple_controller (mc_ready n) (\<lambda>m. m < n)"
proof unfold_locales
  fix vt :: multicore and m d and s :: vex_thread assume r: "mc_ready n vt" "m < n"
  then have "m < length (localCoreVirtualTimes vt)" by (simp add: mc_ready_def)
  then show "\<exists>vt' s'. ctrl_commit multiple_controller m (Io d) vt s = Inr (vt', s') \<and> mc_ready n vt' \<and> retimed s s'"
    by (simp add: multiple_controller_def Multiple_commitIoTimeProgress_def Let_def on_timeline_retimed [OF r])
qed

interpretation single_io: io_controller single_controller "\<lambda>vt. \<not> mutex_held vt" "\<lambda>_. True"
  by (rule single_io_controller)

interpretation multiple_io: io_controller multiple_controller "mc_ready n" "\<lambda>m. m < n" for n
  by (rule multiple_io_controller)

section \<open>Steps\<close>

definition step_ok ::
  "('tl \<Rightarrow> bool) \<Rightarrow> (nat \<Rightarrow> bool) \<Rightarrow> io_mode \<Rightarrow> thread_ptr \<Rightarrow> 'tl app \<Rightarrow> 'tl app \<times> bool \<times> method_step list \<Rightarrow> bool" where
  "step_ok ready core N p a = (\<lambda>(a', blocked, steps).
     shared_ok ready (app_sim a') \<and> (\<forall>q. q \<noteq> p \<longrightarrow> look q (app_sim a') = look q (app_sim a)) \<and> app_managers a' = app_managers a \<and>
     (if blocked then parked_view core Running (look p (app_sim a')) \<and> steps_type steps (In Running) = Some N
      else \<exists>M. io_fits core M (look p (app_sim a')) \<and> steps_type steps M = Some N))"

lemma step_acts:
  assumes "acts ready p (app_sim a) (app_sim a') g" "app_managers a' = app_managers a"
    "io_fits core M (g (look p (app_sim a)))" "steps_type steps M = Some N"
  shows "step_ok ready core N p a (a', False, steps)"
  using assms acts_ok [OF assms(1)] acts_other [OF assms(1)] acts_look [OF assms(1)]
  by (auto simp: step_ok_def simp del: look_state)

lemma step_lands:
  assumes "lands ready core Running p (app_sim a) r" "steps_type steps (In Running) = Some N"
  shows "does (bindE r (\<lambda>(w, b). Inr (a\<lparr>app_sim := w\<rparr>, b, steps))) (step_ok ready core N p a)"
proof (rule does_bind [OF assms(1)])
  fix x assume o: "outcome ready core Running p (app_sim a) x"
  obtain w b where x: "x = (w, b)" by (cases x)
  have "fits core Running (look p w) \<Longrightarrow> \<exists>M. io_fits core M (look p w) \<and> steps_type steps M = Some N"
    using assms(2) by (intro exI [of _ "In Running"]) simp
  with o show "does (case x of (w, b) \<Rightarrow> Inr (a\<lparr>app_sim := w\<rparr>, b, steps)) (step_ok ready core N p a)"
    using assms(2) by (auto simp: x outcome_def step_ok_def)
qed

lemma step_unseen:
  assumes "shared_ok ready (app_sim a)" "io_fits core M (look p (app_sim a))" "unseen f"
    "p \<notin> set (queued (app_sim a)) \<or> ert (f (thr p (app_sim a))) = ert (thr p (app_sim a))"
  shows "step_ok ready core M p a (on_thread p f a, False, [])"
  by (rule step_acts [OF _ _ _, of _ _ _ _ "\<lambda>t. t" core M])
    (use assms acts_unseen [OF assms(1,3,4)] in \<open>simp_all add: on_thread_def on_app_def\<close>)

lemma unseen_io [unseen_facts]: "unseen (upd_io f)"
  by (simp add: unseen_def upd_io_def)

lemma unseen_prediction [unseen_facts]: "unseen VexThreadState_addPredictionToEstimatedRealTime"
  by (simp add: unseen_def VexThreadState_addPredictionToEstimatedRealTime_def upd_io_def upd_timers_def Timers_addElapsedTime_def)

lemma io_running: "io_fits core (In Running) t \<longleftrightarrow> fits core Running t"
  by simp

lemma not_queued_fits: "io_fits core (In Running) (look p w) \<Longrightarrow> p \<notin> set (queued w)"
  "io_fits core InSystemCall (look p w) \<Longrightarrow> p \<notin> set (queued w)"
  by simp_all

context io_controller
begin

lemma ensure_lands:
  assumes cfg: "controller cfg = ctrl" "0 < stackDepth cfg" and ok: "shared_ok ready w"
    and run: "fits core Running (look p w) \<or> fits core Native (look p w)"
  shows "lands ready core Running p w (VexThreadState_ensureThreadIsNotInNativeWaitingStateWhenEnteringVex cfg p t w)"
proof -
  let ?w1 = "upd_thr p (\<lambda>s. s\<lparr>inVex := True\<rparr>) w"
  have a1: "acts ready p w ?w1 (\<lambda>t. t)" by (rule acts_unseen [OF ok]) (simp_all add: unseen_facts)
  show ?thesis
  proof (cases "fits core Running (look p w)")
    case True
    obtain m where m: "controllingManager p w = Some m" "p \<notin> set (queued w)" using running_suspendable [OF True] by blast
    let ?w2 = "upd_thr p (upd_timers (Timers_updateThreadLocalTimeSinceLastResumeTo (globalScalingFactor cfg) t)) ?w1"
    have "acts ready p ?w1 ?w2 (\<lambda>t. t)" by (rule acts_unseen [OF acts_ok [OF a1]]) (use m in \<open>simp_all add: unseen_facts\<close>)
    note a2 = acts_trans [OF a1 this]
    have "isRunning (thr p ?w1)" "controllingManager p ?w1 \<noteq> None"
      using True m by (auto simp: isRunning_def controllingManager_def)
    then show ?thesis
      using lands_ends [OF a2 True]
      by (auto simp add: VexThreadState_ensureThreadIsNotInNativeWaitingStateWhenEnteringVex_def Let_def)
  next
    case False
    with run have native: "fits core Native (look p w)" by blast
    let ?w2 = "VexThreadState_lockShareResourceAccessKey p (upd_thr p VexThreadState_setCustom2 ?w1)"
    have "acts ready p ?w1 (upd_thr p VexThreadState_setCustom2 ?w1) (\<lambda>t. t)"
      by (rule acts_unseen [OF acts_ok [OF a1]]) (simp_all add: unseen_facts VexThreadState_setCustom2_def upd_stats_def)
    note a2 = acts_trans [OF a1 this]
    note a2 = acts_trans [OF a2 lock_key_acts [OF acts_ok [OF a2], of p]]
    have n2: "fits core Native (look p ?w2)" using native acts_look [OF a2] by (simp del: look_state)
    obtain m where m: "previouslyControllingManager (scheduling_of (thr p ?w2)) = Some m" "suspendable core m (look p ?w2)"
      using native_suspendable [OF n2] by blast
    have "\<not> isRunning (thr p ?w1)" using native by (auto simp: isRunning_def)
    then show ?thesis
      using lands_after [OF a2 loose_lands [OF cfg acts_ok [OF a2] m(2)]] m(1)
      by (simp add: VexThreadState_ensureThreadIsNotInNativeWaitingStateWhenEnteringVex_def Let_def managerOf_def)
  qed
qed

lemma call_lands:
  assumes "lands ready core Running p (app_sim a) r" "f (app_sim a) = bindE r (\<lambda>(w, b). Inr (w, b, steps))"
    "steps_type steps (In Running) = Some N"
  shows "does (protocol_call f a) (step_ok ready core N p a)"
  using step_lands [OF assms(1,3)] unfolding protocol_call_def assms(2) bindE_assoc
  by (auto simp: does_def bindE_def split: sum.splits prod.splits)

lemma call_acts:
  assumes "f (app_sim a) = Inr (w, False, steps)" "acts ready p (app_sim a) w g"
    "io_fits core M (g (look p (app_sim a)))" "steps_type steps M = Some N"
  shows "does (protocol_call f a) (step_ok ready core N p a)"
  using step_acts [of ready p a "a\<lparr>app_sim := w\<rparr>" g core M steps N] assms by (simp add: protocol_call_def)

lemma normal_start_ok:
  assumes cfg: "controller cfg = ctrl" "0 < stackDepth cfg" and ok: "shared_ok ready (app_sim a)"
    and run: "fits core Running (look p (app_sim a))"
  shows "does (protocol_call (IoProtocolNormal_onStart cfg c p) a) (step_ok ready core InIo p a)"
proof -
  let ?w1 = "VexThreadState_lockShareResourceAccessKey p (app_sim a)"
  obtain m where m: "controllingManager p (app_sim a) = Some m" "core m" "p \<notin> set (queued (app_sim a))"
    using running_suspendable [OF run] by blast
  note a1 = lock_key_acts [OF ok, of p]
  have m1: "controllingManager p ?w1 = Some m" "p \<notin> set (queued ?w1)"
    using acts_look [OF a1] m look_state(3,7) [of p] by metis+
  obtain w2 where w2: "ThreadManager_updateCurrentThreadVT cfg m p ?w1 = Inr w2" "acts ready p ?w1 w2 (\<lambda>t. t)"
    using updateVT_acts [OF cfg(1) acts_ok [OF a1] m(2) m1(2)] by (auto simp: does_def)
  note a2 = acts_trans [OF a1 w2(2)]
  have q2: "p \<notin> set (queued w2)" using not_queued_acts [OF a2] m(3) by simp
  show ?thesis
  proof (cases "lastIoPrediction (ioHandler (thr p w2)) = 0")
    case True
    show ?thesis
      by (rule call_acts [OF _ a2, where steps = "[NormalIo c True]" and M = "In Running"])
        (use run m1 w2(1) True in \<open>simp_all add: IoProtocolNormal_onStart_def Let_def managerOf_def\<close>)
  next
    case False
    let ?w3 = "upd_thr p VexThreadState_addPredictionToEstimatedRealTime w2"
    note a3 = acts_trans [OF a2 acts_unseen [OF acts_ok [OF a2] unseen_prediction disjI1 [OF q2]]]
    have m3: "controllingManager p ?w3 = Some m" using acts_look [OF a3] m look_state(3) [of p] by metis
    show ?thesis
    proof (cases "virtualTimeSpeedup (thr_timers (thr p ?w3)) > 1")
      case True
      have s: "suspendable core m (look p ?w3)" "c_running (look p ?w3) = {m}" "c_state (look p ?w3) = RUNNING"
        using acts_look [OF a3] run running_suspendable [OF run] m(1) by (auto simp del: look_state simp: look_state(3) [symmetric])
      have "lands ready core Running p ?w3 (ThreadManager_suspendCurrentThread cfg m p 0
          (SUSPEND_OPT_DONT_UPDATE_THREAD_TIME OR SUSPEND_OPT_FORCE_SUSPEND) ?w3)"
        by (rule suspend_lands [OF cfg acts_ok [OF a3] s(1)]) (use s m3 in \<open>simp_all del: look_state add: look_state(3)\<close>)
      note l = lands_after [OF a3 this]
      show ?thesis
        by (rule call_lands [OF l, where steps = "[NormalIo c False]"])
          (use m1 m3 w2(1) False True in \<open>simp_all add: IoProtocolNormal_onStart_def Let_def managerOf_def\<close>)
    next
      case slow: False
      show ?thesis
        by (rule call_acts [OF _ a3, where steps = "[NormalIo c False]" and M = "In Running"])
          (use run m1 w2(1) False slow in \<open>simp_all add: IoProtocolNormal_onStart_def Let_def managerOf_def\<close>)
    qed
  qed
qed

lemma normal_io_ok:
  assumes ok: "shared_ok ready (app_sim a)" and run: "fits core Running (look p (app_sim a))"
  shows "does (onward [] (IoProtocolNormal_io c p b a)) (step_ok ready core InIo p a)"
proof -
  obtain m where m: "controllingManager p (app_sim a) = Some m" "core m" "p \<notin> set (queued (app_sim a))"
      "c_running (look p (app_sim a)) \<subseteq> {m}" "blockedIn (app_sim a) p = None"
    using running_suspendable [OF run] by blast
  define g where "g = (if b then in_learning else in_io)"
  have set: "does (ThreadManager_setIoThread m p b (app_sim a)) (\<lambda>w. acts ready p (app_sim a) w g \<and> controllingManager p w = Some m)"
    using set_io_acts [OF ok m(3,4)] set_learning_acts [OF ok m(3,4)] m(1)
    by (cases b) (auto simp: g_def elim!: does_mono)
  obtain a' where a': "IoProtocolNormal_io c p b a = Inr a'" "acts ready p (app_sim a) (app_sim a') g" "app_managers a' = app_managers a"
    using normal_io_acts [OF set m(1)] by (auto simp: does_def)
  have "io_fits core InIo (g (look p (app_sim a)))"
    using m by (auto simp: g_def in_io_def in_learning_def managed_def)
  from step_acts [OF a'(2,3) this] a'(1) show ?thesis by (simp add: onward_def)
qed

lemma serial_start_ok:
  assumes cfg: "controller cfg = ctrl" and ok: "shared_ok ready (app_sim a)" and run: "fits core Running (look p (app_sim a))"
  shows "does (onward [] (in_app (IoProtocolSerial_onStart cfg p) a)) (step_ok ready core InSystemCall p a)"
proof -
  let ?w1 = "VexThreadState_lockShareResourceAccessKey p (app_sim a)"
  obtain m where m: "controllingManager p (app_sim a) = Some m" "core m" "p \<notin> set (queued (app_sim a))"
    using running_suspendable [OF run] by blast
  note a1 = lock_key_acts [OF ok, of p]
  have m1: "controllingManager p ?w1 = Some m" "p \<notin> set (queued ?w1)"
    using acts_look [OF a1] m look_state(3,7) [of p] by metis+
  obtain w2 where w2: "ThreadManager_updateCurrentThreadVT cfg m p ?w1 = Inr w2" "acts ready p ?w1 w2 (\<lambda>t. t)"
    using updateVT_acts [OF cfg(1) acts_ok [OF a1] m(2) m1(2)] by (auto simp: does_def)
  note a2 = acts_trans [OF a1 w2(2)]
  have a3: "acts ready p (app_sim a) (ThreadManager_setSystemCallThread p w2) (\<lambda>t. t\<lparr>c_state := IN_SYSTEM_CALL\<rparr>)"
    unfolding ThreadManager_setSystemCallThread_def
    by (rule acts_cong [OF acts_then_upd [OF a2, of VexThreadState_setInSystemCall]])
      (use acts_look [OF a2] in \<open>simp_all add: see_def look_def Let_def VexThreadState_setInSystemCall_def\<close>)
  note a4 = acts_trans [OF a3 conjunct1 [OF both_clocks_acts [OF acts_ok [OF a3], of p]]]
  have "io_fits core InSystemCall ((look p (app_sim a))\<lparr>c_state := IN_SYSTEM_CALL\<rparr>)"
    using run by (simp add: managed_def)
  then have "step_ok ready core InSystemCall p a
      (a\<lparr>app_sim := VexThreadState_onVexExitWithBothClocksUpdate p (ThreadManager_setSystemCallThread p w2)\<rparr>, False, [])"
    by (intro step_acts [where M = InSystemCall and g = "\<lambda>t. t\<lparr>c_state := IN_SYSTEM_CALL\<rparr>"]) (use a4 in simp_all)
  then show ?thesis
    using m1 w2(1) by (simp add: onward_def in_app_def IoProtocolSerial_onStart_def Let_def managerOf_def)
qed

lemma requeued_suspend:
  assumes cfg: "controller cfg = ctrl" "0 < stackDepth cfg" and ok: "shared_ok ready w" and core: "core m"
    and view: "c_blocked (look p w) = None" "c_queued (look p w)" "c_running (look p w) = {}" "c_manager (look p w) = Some m"
    and f: "\<And>s. scheduling_of (f s) = scheduling_of s"
  shows "lands ready core Running p w (bindE (ThreadManager_updateRunnableQueue (upd_thr p f w)) (\<lambda>w1.
    ThreadManager_suspendCurrentThread cfg m p 0 (SUSPEND_OPT_DONT_UPDATE_THREAD_TIME OR SUSPEND_OPT_THREAD_ALREADY_IN_LIST) w1))"
proof (rule lands_bind [OF requeue_acts [OF ok]])
  show "ready (virtualTimeline w)" using shared_okD(5) [OF ok] .
  show "upd_thr p f w = (upd_thr p f (w\<lparr>virtualTimeline := virtualTimeline w\<rparr>))\<lparr>objectRegistry := objectRegistry w\<rparr>"
    by (simp add: upd_thr_def)
  fix w1 assume a: "acts ready p w w1 (see (f (thr p w)))"
  show "lands ready core Running p w1 (ThreadManager_suspendCurrentThread cfg m p 0
      (SUSPEND_OPT_DONT_UPDATE_THREAD_TIME OR SUSPEND_OPT_THREAD_ALREADY_IN_LIST) w1)"
    by (rule suspend_listed_lands [OF cfg acts_ok [OF a] core])
      (use view acts_look [OF a] in \<open>simp_all add: see_def f controllingManager_def look_state(3) [symmetric] del: look_state\<close>,
       use view in \<open>simp add: look_def Let_def\<close>)
qed

lemma normal_end_ok:
  assumes cfg: "controller cfg = ctrl" "0 < stackDepth cfg" and ok: "shared_ok ready (app_sim a)"
    and io: "io_fits core InIo (look p (app_sim a))"
  shows "does (protocol_call (IoProtocolNormal_onEnd cfg c dm p d) a) (step_ok ready core (In Running) p a)"
proof -
  let ?w1 = "VexThreadState_lockShareResourceAccessKey p (app_sim a)"
  let ?w2 = "upd_thr p (set_ioFinishedBeforeLogging False) ?w1"
  let ?rest = "[NormalReset c, NormalCommit d]"
  obtain m where m: "c_manager (look p (app_sim a)) = Some m" "core m"
    using io by (auto simp: managed_def split: option.splits)
  note a1 = lock_key_acts [OF ok, of p]
  have "acts ready p ?w1 ?w2 (\<lambda>t. t)"
    by (rule acts_unseen [OF acts_ok [OF a1]]) (simp_all add: set_ioFinishedBeforeLogging_def unseen_io upd_io_def)
  note a2 = acts_trans [OF a1 this]
  have m1: "controllingManager p ?w1 = Some m" using acts_look [OF a1] m(1) look_state(3) [of p ?w1] by simp
  have view: "c_blocked (look p ?w2) = None" "c_running (look p ?w2) = {}" "c_manager (look p ?w2) = Some m"
    using acts_look [OF a2] io m by (simp_all del: look_state)
  have state: "(vex_thread.currentState (thr p ?w2) = IN_IO \<and> c_queued (look p ?w2)) \<or>
      (vex_thread.currentState (thr p ?w2) = LEARNING_IO \<and> (c_queued (look p ?w2) \<longleftrightarrow> timeout (thr_timers (thr p ?w2)) \<noteq> -1))"
    using acts_look [OF a2] io look_state(1,5) [of p ?w2] by simp
  have rest: "steps_type ?rest (In Running) = Some (In Running)" by simp
  consider (predicted) "vex_thread.currentState (thr p ?w2) = IN_IO" "c_queued (look p ?w2)"
    | (timed) "vex_thread.currentState (thr p ?w2) = LEARNING_IO" "c_queued (look p ?w2)" "timeout (thr_timers (thr p ?w2)) \<noteq> -1"
    | (learning) "vex_thread.currentState (thr p ?w2) = LEARNING_IO" "\<not> c_queued (look p ?w2)" "timeout (thr_timers (thr p ?w2)) = -1"
    using state by blast
  then show ?thesis
  proof cases
    case predicted
    note l = lands_after [OF a2 requeued_suspend [OF cfg acts_ok [OF a2] m(2) view(1) predicted(2) view(2,3),
          of "VexThreadState_updateEstimatedRealTimeAfterIoPrediction d"]]
    show ?thesis
      by (rule call_lands [OF l _ rest])
        (use m1 predicted(1) in \<open>simp_all add: IoProtocolNormal_onEnd_def Let_def managerOf_def inIoLearningPhase_def
          inIoPredictionPhase_def bindE_assoc VexThreadState_updateEstimatedRealTimeAfterIoPrediction_def upd_timers_def\<close>)
  next
    case timed
    note l = lands_after [OF a2 requeued_suspend [OF cfg acts_ok [OF a2] m(2) view(1) timed(2) view(2,3),
          of "upd_timers (fst \<circ> Timers_addElapsedTime d \<circ> Timers_rollbackFromTimeOutValue)"]]
    show ?thesis
      by (rule call_lands [OF l _ rest])
        (use m1 timed(1,3) in \<open>simp_all add: IoProtocolNormal_onEnd_def Let_def managerOf_def inIoLearningPhase_def
          bindE_assoc assertE_def upd_timers_def\<close>)
  next
    case learning
    let ?w3 = "upd_thr p (upd_timers (Timers_addLocalIoTime d)) ?w2"
    have "acts ready p ?w2 ?w3 (\<lambda>t. t)"
      by (rule acts_unseen [OF acts_ok [OF a2]]) (use learning(2) in \<open>simp_all add: unseen_timers Timers_addLocalIoTime_def Let_def\<close>)
    note a3 = acts_trans [OF a2 this]
    have s: "suspendable core m (look p ?w3)" "c_running (look p ?w3) = {}"
      using acts_look [OF a3] acts_look [OF a2] view learning(2) m(2) by (simp_all add: suspendable_def del: look_state)
    have "lands ready core Running p ?w3 (ThreadManager_suspendCurrentThread cfg m p 0 SUSPEND_OPT_DONT_UPDATE_THREAD_TIME ?w3)"
      by (rule suspend_lands [OF cfg acts_ok [OF a3] s(1)]) (use s(2) in simp_all)
    note l = lands_after [OF a3 this]
    show ?thesis
      by (rule call_lands [OF l _ rest])
        (use m1 learning(1,3) in \<open>simp_all add: IoProtocolNormal_onEnd_def Let_def managerOf_def inIoLearningPhase_def
          bindE_assoc assertE_def\<close>)
  qed
qed

lemma serial_end_ok:
  assumes cfg: "controller cfg = ctrl" and ok: "shared_ok ready (app_sim a)" and io: "io_fits core InSystemCall (look p (app_sim a))"
  shows "does (onward [] (in_app (IoProtocolSerial_onEnd cfg p d) a)) (step_ok ready core (In Running) p a)"
proof -
  let ?w0 = "upd_thr p (upd_timers (Timers_addGlobalTime d)) (app_sim a)"
  let ?w1 = "upd_thr p (set_ioFinishedBeforeLogging False) (VexThreadState_lockShareResourceAccessKey p ?w0)"
  let ?w2 = "upd_thr p VexThreadState_setRunning ?w1"
  obtain m where m: "c_manager (look p (app_sim a)) = Some m" "core m" "p \<notin> set (queued (app_sim a))"
    using io by (auto simp: managed_def split: option.splits)
  have a0: "acts ready p (app_sim a) ?w0 (\<lambda>t. t)"
    by (rule acts_unseen [OF ok]) (use m(3) in \<open>simp_all add: unseen_timers Timers_addGlobalTime_def Timers_addElapsedTime_def Let_def\<close>)
  note a1 = acts_trans [OF a0 lock_key_acts [OF acts_ok [OF a0], of p]]
  have "acts ready p (VexThreadState_lockShareResourceAccessKey p ?w0) ?w1 (\<lambda>t. t)"
    by (rule acts_unseen [OF acts_ok [OF a1]]) (simp_all add: set_ioFinishedBeforeLogging_def unseen_io upd_io_def)
  note a1 = acts_trans [OF a1 this]
  have m1: "controllingManager p ?w1 = Some m" using acts_look [OF a1] m(1) look_state(3) [of p ?w1] by simp
  have a2: "acts ready p (app_sim a) ?w2 (\<lambda>t. t\<lparr>c_state := RUNNING\<rparr>)"
    by (rule acts_cong [OF acts_then_upd [OF a1, of VexThreadState_setRunning]])
      (use acts_look [OF a1] in \<open>simp_all add: see_def look_def Let_def VexThreadState_setRunning_def\<close>)
  have q2: "p \<notin> set (queued ?w2)" using not_queued_acts [OF a2] m(3) by simp
  obtain w3 where w3: "ThreadManager_updateCurrentThreadVT cfg m p ?w2 = Inr w3" "acts ready p ?w2 w3 (\<lambda>t. t)"
    using updateVT_acts [OF cfg acts_ok [OF a2] m(2) q2] by (auto simp: does_def)
  note a3 = acts_trans [OF a2 w3(2)]
  have "io_fits core (In Running) ((look p (app_sim a))\<lparr>c_state := RUNNING\<rparr>)"
    using io by (simp add: managed_def)
  then have "step_ok ready core (In Running) p a (a\<lparr>app_sim := w3\<rparr>, False, [])"
    by (intro step_acts [where M = "In Running" and g = "\<lambda>t. t\<lparr>c_state := RUNNING\<rparr>"]) (use a3 in simp_all)
  then show ?thesis
    using m1 w3(1) by (simp add: onward_def in_app_def IoProtocolSerial_onEnd_def Let_def)
qed

lemma commit_io_ok:
  assumes cfg: "controller cfg = ctrl" and ok: "shared_ok ready (app_sim a)" and run: "fits core Running (look p (app_sim a))"
  shows "does (bindE (managerOf (controllingManager p (app_sim a))) (\<lambda>m.
    onward [] (in_app (ThreadManager_commitIoDuration cfg m p d) a))) (step_ok ready core (In Running) p a)"
proof -
  obtain m where m: "controllingManager p (app_sim a) = Some m" "core m" "p \<notin> set (queued (app_sim a))"
    using running_suspendable [OF run] by blast
  obtain w where w: "commit_progress cfg m (Io d) p (app_sim a) = Inr w" "acts ready p (app_sim a) w (\<lambda>t. t)"
    using on_timeline_acts [OF ok m(3), of "ctrl_commit ctrl m (Io d)"] io_commits [OF shared_okD(5) [OF ok] m(2)] cfg
    unfolding commit_progress_def by (auto simp: does_def)
  have "step_ok ready core (In Running) p a (a\<lparr>app_sim := w\<rparr>, False, [])"
    by (intro step_acts [where M = "In Running" and g = "\<lambda>t. t"]) (use run w in \<open>simp_all del: look_state\<close>)
  then show ?thesis using m w by (simp add: managerOf_def onward_def in_app_def ThreadManager_commitIoDuration_def)
qed

end

definition managers_registered :: "manager_registry \<Rightarrow> bool" where
  "managers_registered g \<longleftrightarrow> None \<notin> set (take (currentlyRegistered g) (managerList g))"

lemma reset_timeslots_acts:
  "shared_ok ready w \<Longrightarrow> None \<notin> set ms \<Longrightarrow> does (reset_timeslots ms w) (\<lambda>w'. acts ready p w w' (\<lambda>t. t))"
proof (induction ms arbitrary: w)
  case (Cons m ms)
  then obtain k where k: "m = Some k" by (cases m) auto
  have a: "acts ready p w (upd_mgr k ThreadManager_resetDefaultSchedulerTimeslot w) (\<lambda>t. t)"
    by (rule acts_upd_mgr [OF Cons(2)]) (simp add: ThreadManager_resetDefaultSchedulerTimeslot_def)
  from Cons(1) [OF acts_ok [OF a]] Cons(3) show ?case using acts_then [OF a] by (simp add: k managerOf_def)
qed (simp add: acts_refl)

lemma normal_reset_ok:
  assumes ok: "shared_ok ready (app_sim a)" and run: "fits core Running (look p (app_sim a))" and reg: "managers_registered (app_managers a)"
  shows "does (onward [] (IoProtocolNormal_resetSchedulerTimeslot c a)) (step_ok ready core (In Running) p a)"
proof -
  obtain w where w: "ThreadManagerRegistry_resetDefaultSchedulerTimeslot (app_managers a) (app_sim a) = Inr w"
      "acts ready p (app_sim a) w (\<lambda>t. t)"
    using reset_timeslots_acts [OF ok reg [unfolded managers_registered_def]]
    by (auto simp: does_def ThreadManagerRegistry_resetDefaultSchedulerTimeslot_def)
  obtain a' where a': "IoProtocolNormal_resetSchedulerTimeslot c a = Inr a'" "acts ready p (app_sim a) (app_sim a') (\<lambda>t. t)"
      "app_managers a' = app_managers a"
    using w acts_refl [OF ok]
    by (cases "pendingIoCalls a c = 1") (auto simp: IoProtocolNormal_resetSchedulerTimeslot_def in_app_def Let_def)
  have "step_ok ready core (In Running) p a (a', False, [])"
    by (intro step_acts [where M = "In Running" and g = "\<lambda>t. t"]) (use run a' in \<open>simp_all del: look_state\<close>)
  then show ?thesis using a'(1) by (simp add: onward_def)
qed

lemma unseen_step:
  assumes "shared_ok ready (app_sim a)" "io_fits core M (look p (app_sim a))" "unseen f"
    "p \<notin> set (queued (app_sim a)) \<or> ert (f (thr p (app_sim a))) = ert (thr p (app_sim a))"
  shows "does (Inr (on_thread p f a, False, [])) (step_ok ready core M p a)"
  using step_unseen [OF assms] by simp

lemma target_cases:
  assumes "io_target P = Some N"
  obtains "P = IoProtocol" "N = In Running" | "P = IoProtocolSerial" "N = InSystemCall" | "P = IoProtocolNormal" "N = InIo"
  using assms by (cases P) auto

lemma normal_start_steps:
  "IoProtocolNormal_onStart cfg c p w = Inr (w', b, steps) \<Longrightarrow> \<exists>l. steps = [NormalIo c l]"
  by (auto simp: IoProtocolNormal_onStart_def Let_def bindE_eq_Inr split: if_splits)

lemma normal_end_steps:
  "IoProtocolNormal_onEnd cfg c dm p d w = Inr (w', b, steps) \<Longrightarrow> steps = [NormalReset c, NormalCommit d]"
  by (auto simp: IoProtocolNormal_onEnd_def Let_def bindE_eq_Inr split: if_splits)

text \<open>The steps that a step leads to are fewer.\<close>

lemma weight_bound: "sum_list (map weight ss) \<le> 4 * length ss"
proof (induction ss)
  case (Cons s ss)
  have "weight s \<le> 4" by (cases s) auto
  with Cons show ?case by simp
qed simp

lemma perform_step_weight:
  assumes "perform_step cfg p s a = Some (Inr (a', b, steps))" "step_type s M = Some N"
  shows "sum_list (map weight steps) < weight s"
proof (cases s)
  case (ProtocolStart c P)
  with assms show ?thesis
    by (cases P) (auto simp: bindE_eq_Inr onward_def protocol_call_def dest!: normal_start_steps split: if_splits)
next
  case (ProtocolEnd c P d)
  with assms show ?thesis
    by (cases P) (auto simp: bindE_eq_Inr onward_def protocol_call_def dest!: normal_end_steps split: if_splits)
qed (use assms in \<open>auto simp: bindE_eq_Inr onward_def suspends_def split: if_splits option.splits\<close>)
lemma vex_exit_acts:
  assumes "shared_ok ready w"
  shows "acts ready p w (VexThreadState_onVexExit p w) (\<lambda>t. t)"
    "acts ready p w (IoProtocol_onStart p w) (\<lambda>t. t)"
proof -
  let ?w1 = "VexThreadState_exit p w"
  let ?w2 = "upd_thr p (upd_sched (\<lambda>sc. sc\<lparr>schedInVex := False\<rparr>)) ?w1"
  have a: "acts ready p w ?w1 (\<lambda>t. t)"
    unfolding VexThreadState_exit_def by (rule acts_unseen [OF assms]) (auto intro: unseen_facts)
  have "acts ready p ?w1 ?w2 (\<lambda>t. t)" by (rule acts_unseen [OF acts_ok [OF a]]) (auto intro!: unseen_facts)
  note a = acts_trans [OF a this]
  have "acts ready p ?w2 (update_cpu_clock p ?w2) (\<lambda>t. t)"
    unfolding update_cpu_clock_def by (rule acts_unseen [OF acts_ok [OF a]]) (auto intro!: unseen_facts)
  note a = acts_trans [OF a this]
  show x: "acts ready p w (VexThreadState_onVexExit p w) (\<lambda>t. t)" using a by (simp add: VexThreadState_onVexExit_def)
  have "acts ready p (VexThreadState_onVexExit p w) (update_clocks p (VexThreadState_onVexExit p w)) (\<lambda>t. t)"
    unfolding update_clocks_def by (rule acts_unseen [OF acts_ok [OF x]]) (auto intro!: unseen_facts)
  from acts_trans [OF x this] show "acts ready p w (IoProtocol_onStart p w) (\<lambda>t. t)" by (simp add: IoProtocol_onStart_def)
qed

lemma on_app_step:
  assumes "acts ready p (app_sim a) (f (app_sim a)) (\<lambda>t. t)" "io_fits core M (look p (app_sim a))"
  shows "does (Inr (on_app f a, False, [])) (step_ok ready core M p a)"
  using step_acts [of ready p a "on_app f a" "\<lambda>t. t" core M "[]" M] assms by (simp add: on_app_def)

lemma io_entered_acts:
  assumes "shared_ok ready w" "p \<notin> set (queued w)"
  shows "acts ready p w (upd_thr p (VexThreadState_onVexIoMethodEntry h b t) w) (\<lambda>v. v\<lparr>c_timeout := -1\<rparr>)"
  by (rule acts_cong [OF acts_upd_thr [OF assms(1)]])
    (use assms(2) in \<open>auto simp: see_def look_def Let_def VexThreadState_onVexIoMethodEntry_def VexThreadState_onIoEntry_def
      upd_io_def upd_sched_def upd_timers_def vex_defs Scheduling_increaseVtfInvocationsSinceLastResume_def
      Timers_setLastCPUTime_def Timers_setTimeout_def\<close>)

lemma unseen_io_exit [unseen_facts]: "unseen (VexThreadState_onVexIoMethodExit g t)"
  by (auto simp: unseen_def VexThreadState_onVexIoMethodExit_def Let_def upd_io_def upd_sched_def upd_timers_def
      Scheduling_increaseVtfInvocationsSinceLastResume_def)

context io_controller
begin

lemma perform_step_ok:
  assumes cfg: "controller (sim_config cfg) = ctrl" "0 < stackDepth (sim_config cfg)" and ok: "shared_ok ready (app_sim a)"
    and reg: "managers_registered (app_managers a)" and io: "io_fits core M (look p (app_sim a))" and t: "step_type s M = Some N"
  shows "\<exists>r. perform_step cfg p s a = Some r \<and> does r (step_ok ready core N p a)"
proof -
  have run: "fits core Running (look p (app_sim a))" "p \<notin> set (queued (app_sim a))" "controllingManager p (app_sim a) \<noteq> None"
    if "M = In Running" using io running_suspendable [of core p "app_sim a"] that by auto
  have stay: "step_ok ready core N' p a (a, False, steps)" if "steps_type steps M = Some N'" for steps N'
    by (rule step_acts [OF acts_refl [OF ok] _ io that]) simp
  show ?thesis
  proof (cases s)
    case (EnsureNotNative x)
    then have M: "M = In Running \<or> M = In Native" "N = In Running" using t by (auto split: if_splits)
    then have "fits core Running (look p (app_sim a)) \<or> fits core Native (look p (app_sim a))"
      using io by (auto simp del: fits.simps)
    from step_lands [OF ensure_lands [OF cfg ok this], of "[AssertManaged]" "In Running"] EnsureNotNative M(2) show ?thesis
      by (simp add: suspends_def)
  next
    case AssertManaged
    then have M: "M = In Running" "N = In Running" using t by (auto split: if_splits)
    show ?thesis using AssertManaged M run(3) [OF M(1)] stay [of "[]"] by (simp add: assertE_def)
  next
    case OnVexExit
    then have M: "M = In Running" "N = In Running" using t by (auto split: if_splits)
    show ?thesis using on_app_step [where f = "VexThreadState_onVexExit p", OF vex_exit_acts(1) [OF ok] io] OnVexExit M by simp
  next
    case (IoEntered h b x)
    then have M: "M = In Running" "N = In Running" using t by (auto split: if_splits)
    have "step_ok ready core (In Running) p a (on_thread p (VexThreadState_onVexIoMethodEntry h b x) a, False, [])"
      by (rule step_acts [where M = "In Running" and g = "\<lambda>v. v\<lparr>c_timeout := -1\<rparr>"])
        (use io_entered_acts [OF ok run(2) [OF M(1)]] run(1) [OF M(1)] in \<open>simp_all add: on_thread_def on_app_def managed_def\<close>)
    then show ?thesis using IoEntered M by simp
  next
    case (IoExited x)
    then have M: "M = N" "p \<notin> set (queued (app_sim a))" using t io not_queued_fits by (auto split: if_splits)
    show ?thesis using unseen_step [OF ok io unseen_io_exit disjI1 [OF M(2)]] IoExited M(1) by simp
  next
    case AfterIo
    then have M: "M = In Running" "N = In Running" using t by (auto split: if_splits)
    have "unseen (\<lambda>s. upd_timers (Timers_setCpuTimeClockAfterIo x y) (upd_sched (\<lambda>sc. sc\<lparr>schedInVex := False\<rparr>) (s\<lparr>inVex := False\<rparr>)))" for x y
      by (simp add: unseen_def upd_timers_def upd_sched_def Timers_setCpuTimeClockAfterIo_def)
    from unseen_step [OF ok io this disjI1 [OF run(2) [OF M(1)]]] show ?thesis using AfterIo M by simp
  next
    case (ProtocolStart c P)
    then have M: "M = In Running" and "io_target P = Some N" using t by (auto split: if_splits)
    from this(2) show ?thesis
      by (rule target_cases)
        (use ProtocolStart on_app_step [where f = "IoProtocol_onStart p", OF vex_exit_acts(2) [OF ok] io] M serial_start_ok [OF cfg(1) ok run(1) [OF M]]
          normal_start_ok [OF cfg ok run(1) [OF M]] in simp_all)
  next
    case (NormalIo c b)
    then have M: "M = In Running" "N = InIo" using t by (auto split: if_splits)
    show ?thesis using normal_io_ok [OF ok run(1) [OF M(1)]] NormalIo M by simp
  next
    case (ProtocolEnd c P d)
    then have M: "io_target P = Some M" "N = In Running" using t by (auto split: if_splits)
    from this(1) show ?thesis
      by (rule target_cases)
        (use ProtocolEnd M(2) io stay [of "[]"] serial_end_ok [OF cfg(1) ok, of p d] normal_end_ok [OF cfg ok, of p c _ d]
         in \<open>simp_all del: io_fits.simps\<close>)
  next
    case (NormalReset c)
    then have M: "M = In Running" "N = In Running" using t by (auto split: if_splits)
    show ?thesis using normal_reset_ok [OF ok run(1) [OF M(1)] reg] NormalReset M by simp
  next
    case (NormalCommit d)
    then have M: "M = In Running" "N = In Running" using t by (auto split: if_splits)
    show ?thesis using stay [of "[CommitIo d]"] run(3) [OF M(1)] NormalCommit M by auto
  next
    case (CommitIo d)
    then have M: "M = In Running" "N = In Running" using t by (auto split: if_splits)
    show ?thesis using commit_io_ok [OF cfg(1) ok run(1) [OF M(1)]] CommitIo M by simp
  next
    case ResetIoFlags
    have "ert (upd_io IoHandler_resetIoStateFlags (thr p (app_sim a))) = ert (thr p (app_sim a))" by (simp add: upd_io_def)
    from unseen_step [OF ok io unseen_io disjI2 [OF this]] show ?thesis using ResetIoFlags t by simp
  qed (use t in simp_all)
qed

text \<open>A run: the steps end, or the thread blocks and the steps that it has left lead to the same mode.\<close>

lemma run_steps_ok:
  assumes cfg: "controller (sim_config cfg) = ctrl" "0 < stackDepth (sim_config cfg)"
  shows "shared_ok ready (app_sim a) \<Longrightarrow> managers_registered (app_managers a) \<Longrightarrow> io_fits core M (look p (app_sim a)) \<Longrightarrow>
    steps_type ss M = Some N \<Longrightarrow> sum_list (map weight ss) \<le> n \<Longrightarrow>
    \<exists>a' b. run_steps n cfg p ss a = Some (Inr (a', b)) \<and> shared_ok ready (app_sim a') \<and> app_managers a' = app_managers a \<and>
      (\<forall>q. q \<noteq> p \<longrightarrow> look q (app_sim a') = look q (app_sim a)) \<and>
      (if b then parked_view core Running (look p (app_sim a')) \<and> steps_type (pendingSteps a' p) (In Running) = Some N
       else io_fits core N (look p (app_sim a')))"
proof (induction n arbitrary: a M ss)
  case 0
  have "weight s \<noteq> 0" for s by (cases s) auto
  with 0(5) have "ss = []" by (cases ss) auto
  with 0 show ?case by (intro exI [of _ a] exI [of _ False]) simp
next
  case (Suc n)
  show ?case
  proof (cases ss)
    case Nil
    with Suc show ?thesis by (intro exI [of _ a] exI [of _ False]) simp
  next
    case (Cons s ss')
    obtain K where K: "step_type s M = Some K" "steps_type ss' K = Some N" using Suc.prems(4) Cons by (auto split: bind_splits)
    obtain a1 b steps where r: "perform_step cfg p s a = Some (Inr (a1, b, steps))" and o: "step_ok ready core K p a (a1, b, steps)"
      using perform_step_ok [OF cfg Suc.prems(1-3) K(1)] by (fastforce simp: does_def)
    have w: "sum_list (map weight (steps @ ss')) \<le> n"
      using perform_step_weight [OF r K(1)] Suc.prems(5) Cons by simp
    show ?thesis
    proof (cases b)
      case True
      then show ?thesis using r o Cons K(2) by (auto simp: step_ok_def steps_type_append)
    next
      case False
      then obtain L where L: "io_fits core L (look p (app_sim a1))" "steps_type (steps @ ss') L = Some N"
        using o K(2) by (auto simp: step_ok_def steps_type_append)
      from Suc.IH [OF _ _ L w] o Suc.prems(2) show ?thesis using r Cons False by (auto simp: step_ok_def)
    qed
  qed
qed

text \<open>An awakened thread completes the call that it was blocked in and goes on with its steps.\<close>

lemma resume_steps_ok:
  assumes cfg: "controller (sim_config cfg) = ctrl" "0 < stackDepth (sim_config cfg)" and ok: "shared_ok ready (app_sim a)"
    and reg: "managers_registered (app_managers a)" and awake: "code_left core Running (look p (app_sim a))"
      "awakened_view core (look p (app_sim a))"
    and t: "steps_type (pendingSteps a p) (In Running) = Some N" "sum_list (map weight (pendingSteps a p)) \<le> n"
  shows "\<exists>a' b. resume_steps n cfg p a = Some (Inr (a', b)) \<and> shared_ok ready (app_sim a') \<and> app_managers a' = app_managers a \<and>
      (\<forall>q. q \<noteq> p \<longrightarrow> look q (app_sim a') = look q (app_sim a)) \<and>
      (if b then parked_view core Running (look p (app_sim a')) \<and> steps_type (pendingSteps a' p) (In Running) = Some N
       else io_fits core N (look p (app_sim a')))"
proof -
  obtain fs where fs: "blockedIn (app_sim a) p = Some fs" "code_type core fs Resumed = Some Running"
    using awake(1) by (auto simp: code_left_def split: option.splits)
  let ?w = "VexThreadState_lockShareResourceAccessKey p ((app_sim a)\<lparr>blockedIn := (blockedIn (app_sim a))(p := None)\<rparr>)"
  have "acts ready p (app_sim a) ((app_sim a)\<lparr>blockedIn := (blockedIn (app_sim a))(p := None)\<rparr>) (\<lambda>v. v\<lparr>c_blocked := None\<rparr>)"
    using ok by (auto simp: acts_def shared_ok_def look_def Let_def thr_def queued_def)
  note a = acts_trans [OF this lock_key_acts [OF acts_ok [OF this], of p]]
  have res: "fits core Resumed (look p ?w)"
    using awake(2) acts_look [OF a] by (simp add: awakened_view_def idle_view_def managed_def del: look_state)
  obtain w b where r: "continue_thread_code (sim_config cfg) p (app_sim a) = Inr (w, b)" and o: "outcome ready core Running p ?w (w, b)"
    using run_frames_lands [OF cfg acts_ok [OF a] res fs(2)] fs(1) by (auto simp: does_def continue_thread_code_def)
  have other: "look q w = look q (app_sim a)" if "q \<noteq> p" for q using o acts_other [OF a that] that by (simp add: outcome_def)
  show ?thesis
  proof (cases b)
    case True
    then show ?thesis using r o t(1) other by (auto simp: resume_steps_def lift_app_def outcome_def Let_def)
  next
    case False
    let ?a = "a\<lparr>app_sim := w, pendingSteps := (pendingSteps a)(p := [])\<rparr>"
    have "io_fits core (In Running) (look p (app_sim ?a))" using o False by (simp add: outcome_def)
    from run_steps_ok [OF cfg _ _ this t] o reg other show ?thesis
      using r False by (simp add: resume_steps_def lift_app_def outcome_def Let_def)
  qed
qed

end
section \<open>The time of a predicted operation\<close>

text \<open>The steps of a predicted operation of an unscaled thread.\<close>

lemma predicted_start_runs:
  assumes "controllingManager p (app_sim a) = Some m"
    "ThreadManager_updateCurrentThreadVT (sim_config cfg) m p (VexThreadState_lockShareResourceAccessKey p (app_sim a)) = Inr w"
    "lastIoPrediction (ioHandler (thr p w)) \<noteq> 0" "\<not> virtualTimeSpeedup (thr_timers (thr p w)) > 1"
    "IoProtocolNormal_io c p False (a\<lparr>app_sim := upd_thr p VexThreadState_addPredictionToEstimatedRealTime w\<rparr>) = Inr a'"
  shows "run_steps 2 cfg p [ProtocolStart c IoProtocolNormal] a = Some (Inr (a', False))"
proof -
  have "controllingManager p (VexThreadState_lockShareResourceAccessKey p (app_sim a)) = Some m"
    using assms(1) by (simp add: controllingManager_def VexThreadState_lockShareResourceAccessKey_def upd_sched_def)
  moreover have "virtualTimeSpeedup (thr_timers (VexThreadState_addPredictionToEstimatedRealTime (thr p w))) =
      virtualTimeSpeedup (thr_timers (thr p w))"
    by (simp add: VexThreadState_addPredictionToEstimatedRealTime_def upd_io_def upd_timers_def Timers_addElapsedTime_def)
  ultimately show ?thesis using assms(2-5)
    by (simp add: protocol_call_def IoProtocolNormal_onStart_def Let_def managerOf_def onward_def numeral_2_eq_2)
qed

lemma predicted_start:
  assumes w: "acts ready p (app_sim a) w (\<lambda>t. t)" and run: "fits core Running (look p (app_sim a))"
  shows "does (IoProtocolNormal_io c p False (a\<lparr>app_sim := upd_thr p VexThreadState_addPredictionToEstimatedRealTime w\<rparr>)) (\<lambda>a'.
    acts ready p (app_sim a) (app_sim a') in_io \<and> ert (thr p (app_sim a')) = ert (thr p w) + lastIoPrediction (ioHandler (thr p w)) \<and>
    predicting 0 (lastIoPrediction (ioHandler (thr p w))) (thr p (app_sim a')) \<and>
    pendingIoCalls a' = (pendingIoCalls a)(c := pendingIoCalls a c + 1))"
proof -
  let ?w = "upd_thr p VexThreadState_addPredictionToEstimatedRealTime w"
  let ?a = "a\<lparr>app_sim := ?w\<rparr>"
  obtain m where m: "controllingManager p (app_sim a) = Some m" "p \<notin> set (queued (app_sim a))"
      "c_running (look p (app_sim a)) = {m}"
    using running_suspendable [OF run] by blast
  have q: "p \<notin> set (queued w)" using not_queued_acts [OF w] m(2) by simp
  note a1 = acts_trans [OF w acts_unseen [OF acts_ok [OF w] unseen_prediction disjI1 [OF q]]]
  have v: "p \<notin> set (queued ?w)" "c_running (look p ?w) = {m}" "controllingManager p ?w = Some m"
    using acts_look [OF a1] m look_state(3,7) [of p ?w] look_state(3,7) [of p "app_sim a"] by metis+
  obtain w1 where w1: "ThreadManager_setIoThread m p False ?w = Inr w1" "acts ready p ?w w1 in_io" "ert (thr p w1) = ert (thr p ?w)"
      "ioHandler (thr p w1) = ioHandler (thr p ?w)" "controllingManager p w1 = Some m"
    using set_io_acts [OF acts_ok [OF a1] v(1), of m] v(2,3) by (auto simp: does_def)
  have set: "does (ThreadManager_setIoThread m p False (app_sim ?a)) (\<lambda>w. acts ready p (app_sim ?a) w in_io \<and> controllingManager p w = Some m)"
    using w1 by simp
  obtain a' where a': "IoProtocolNormal_io c p False ?a = Inr a'" "acts ready p ?w (app_sim a') in_io"
      "pendingIoCalls a' = (pendingIoCalls a)(c := pendingIoCalls a c + 1)" "ert (thr p (app_sim a')) = ert (thr p w1)"
      "ioHandler (thr p (app_sim a')) = ioHandler (thr p w1)"
    using normal_io_acts [OF set, of c] v(3) w1(1) by (auto simp: does_def)
  have "acts ready p (app_sim a) (app_sim a') in_io" using acts_trans [OF a1 a'(2)] .
  with a' w1(3,4) predicting_start [of "thr p w"] show ?thesis by (simp add: predicting_def)
qed

section \<open>Properties\<close>

text \<open>A thread of which the next operation is predicted, on the first of two managers.\<close>

definition example_app :: "'tl \<Rightarrow> 'tl app" where
  "example_app vt =
     \<lparr>app_sim = upd_thr 0 (\<lambda>s. vex_thread.currentState_update (\<lambda>_. RUNNING) (s\<lparr>ioHandler := example_io\<lparr>lastIoPrediction := 100\<rparr>,
          scheduling_of := example_sched\<lparr>threadCurrentlyControllingManager := Some 0\<rparr>\<rparr>))
        (upd_mgr 0 (\<lambda>g. g\<lparr>runningThread := Some 0\<rparr>) (example_world vt False)),
      app_managers = ThreadManagerRegistry_ThreadManagerRegistry 2,
      app_machine = \<lparr>libm_sqrt = (\<lambda>x. x), libm_log = (\<lambda>x. x), gsl_histogram_pdf_sample = (\<lambda>_ x. x), files = Map.empty,
        rand_at = (\<lambda>_. 0), rand_pos = 0, storedDeviate = None, memory_beyond = 0\<rparr>,
      app_predictor = (\<lambda>_. \<lparr>level = NoIoPrediction, threadsInIo = 0, recognizer = None, excluder = None,
        predictionMethodFactory = PredictionMethodFactory_default, predictionMethods = Map.empty, lastIoPredictionMethod = Map.empty\<rparr>),
      pendingIoCalls = (\<lambda>_. 0), app_profile = (\<lambda>_. example_profile), app_measures = no_measures, exited_measure = Map.empty,
      pendingSteps = (\<lambda>_. []), app_answer = (\<lambda>_. False)\<rparr>"

definition example_app_config :: "'tl controller \<Rightarrow> 'tl app_config" where
  "example_app_config c =
     \<lparr>sim_config = example_config c, app_protocol = (\<lambda>_. IoProtocolNormal), ioCategories = False, reportIoMethods = False,
      bytecodeDelay = 0, ioBytecodeDelay = 0, methodTimeScalingFactors = Map.empty, defaultTimeScalingFactor = 1,
      invalidationPolicy = None, samplingFuel = 10\<rparr>"

lemma example_app_running:
  "shared_ok (mc_ready 2) (app_sim (example_app two_cores))" "fits two_managers Running (look 0 (app_sim (example_app two_cores)))"
  "managers_registered (app_managers (example_app vt))" "sim_config (example_app_config c) = example_config c"
  using two_cores_ready
  by (auto simp: example_app_def example_app_config_def Let_def example_world_def upd_mgr_def upd_thr_def upd_state_def look_def thr_def
      queued_def shared_ok_def tq_ok_def ThreadQueue_ThreadQueue_def is_heap_def heap_from_def ThreadRegistry_ThreadRegistry_def
      example_manager_def managed_def managers_registered_def ThreadManagerRegistry_ThreadManagerRegistry_def
      split: if_splits)



text \<open>
  C7. A predicted operation takes the predicted time. A running thread that starts an operation with a prediction, and
  is not slowed down, does not block: it becomes \<open>IN_IO\<close> and is queued at its virtual time at the start plus the
  prediction, no manager runs it, the protocol counts one more pending operation, and no other thread changes.
\<close>

theorem predicted_operation_queued_at_its_end:
  assumes "controller (sim_config cfg) = multiple_controller" "shared_ok (mc_ready n) (app_sim a)"
    "fits (\<lambda>m. m < n) Running (look p (app_sim a))" "controllingManager p (app_sim a) = Some m"
    "ThreadManager_updateCurrentThreadVT (sim_config cfg) m p (VexThreadState_lockShareResourceAccessKey p (app_sim a)) = Inr w"
    "lastIoPrediction (ioHandler (thr p w)) \<noteq> 0" "virtualTimeSpeedup (thr_timers (thr p w)) \<le> 1"
  shows "\<exists>a'. run_steps 2 cfg p [ProtocolStart c IoProtocolNormal] a = Some (Inr (a', False)) \<and>
    vex_thread.currentState (thr p (app_sim a')) = IN_IO \<and> p \<in> set (queued (app_sim a')) \<and>
    ert (thr p (app_sim a')) = ert (thr p w) + lastIoPrediction (ioHandler (thr p w)) \<and>
    (\<forall>k. ThreadManager_getRunningThread k (app_sim a') \<noteq> Some p) \<and>
    pendingIoCalls a' = (pendingIoCalls a)(c := pendingIoCalls a c + 1) \<and>
    (\<forall>q. q \<noteq> p \<longrightarrow> look q (app_sim a') = look q (app_sim a))"
proof -
  note lock = lock_key_acts [OF assms(2), of p]
  have q: "p \<notin> set (queued (VexThreadState_lockShareResourceAccessKey p (app_sim a)))" and m: "m < n"
    using not_queued_acts [OF lock] assms(3,4) by (auto simp: managed_def)
  have "acts (mc_ready n) p (VexThreadState_lockShareResourceAccessKey p (app_sim a)) w (\<lambda>t. t)"
    using multiple_time.updateVT_acts [OF assms(1) acts_ok [OF lock] m q] assms(5) by (simp add: does_def)
  note w = acts_trans [OF lock this]
  obtain a' where a': "IoProtocolNormal_io c p False (a\<lparr>app_sim := upd_thr p VexThreadState_addPredictionToEstimatedRealTime w\<rparr>) = Inr a'"
      "acts (mc_ready n) p (app_sim a) (app_sim a') in_io"
      "ert (thr p (app_sim a')) = ert (thr p w) + lastIoPrediction (ioHandler (thr p w))"
      "pendingIoCalls a' = (pendingIoCalls a)(c := pendingIoCalls a c + 1)"
    using predicted_start [OF w assms(3), of c] by (auto simp: does_def)
  have v: "look p (app_sim a') = in_io (look p (app_sim a))" using acts_look [OF a'(2)] .
  have "vex_thread.currentState (thr p (app_sim a')) = IN_IO" "p \<in> set (queued (app_sim a'))"
    "\<forall>k. ThreadManager_getRunningThread k (app_sim a') \<noteq> Some p"
    using arg_cong [OF v, of c_state] arg_cong [OF v, of c_queued] arg_cong [OF v, of c_running]
    by (auto simp: in_io_def ThreadManager_getRunningThread_def)
  then show ?thesis
    using predicted_start_runs [OF assms(4,5,6) _ a'(1)] assms(7) a'(3,4) acts_other [OF a'(2)] by fastforce
qed

theorem predicted_operation_queued_at_its_end_witness:
  "\<exists>a'. run_steps 2 (example_app_config multiple_controller) 0 [ProtocolStart 0 IoProtocolNormal] (example_app two_cores) = Some (Inr (a', False)) \<and>
     0 \<in> set (queued (app_sim a')) \<and> ert (thr 0 (app_sim a')) = 100 \<and> pendingIoCalls a' 0 = 1"
proof -
  let ?w = "upd_thr 0 (upd_timers (Timers_setLastCPUTime 0)) (VexThreadState_lockShareResourceAccessKey 0 (app_sim (example_app two_cores)))"
  have m: "controllingManager 0 (app_sim (example_app two_cores)) = Some 0"
    by (simp add: example_app_def controllingManager_def)
  have u: "ThreadManager_updateCurrentThreadVT (sim_config (example_app_config multiple_controller)) 0 0
      (VexThreadState_lockShareResourceAccessKey 0 (app_sim (example_app two_cores))) = Inr ?w"
    by (simp add: ThreadManager_updateCurrentThreadVT_def Let_def VexThreadState_lockShareResourceAccessKey_def example_app_def
        upd_thr_def upd_state_def thr_def upd_mgr_def example_world_def example_thread_def example_timers_def upd_sched_def)
  have t: "ioHandler (thr 0 ?w) = example_io\<lparr>lastIoPrediction := 100\<rparr>" "virtualTimeSpeedup (thr_timers (thr 0 ?w)) = 1" "ert (thr 0 ?w) = 0"
    "pendingIoCalls (example_app two_cores) = (\<lambda>_. 0)"
    by (simp_all add: VexThreadState_lockShareResourceAccessKey_def example_app_def upd_thr_def upd_state_def thr_def upd_mgr_def
        example_world_def example_thread_def example_timers_def upd_sched_def upd_timers_def Timers_setLastCPUTime_def)
  from predicted_operation_queued_at_its_end [OF _ example_app_running(1,2) m u, of 0] t show ?thesis
    by (fastforce simp: example_app_running(4))
qed



end
