(* ===== verification/Cinqs_List.thy ===== *)
theory Cinqs_List
  imports Vex_Prelude
begin

text \<open>
  The linked lists of the queueing network library, \<open>cinqs/tools/List.h\<close>, \<open>List.cpp\<close> and
  \<open>OrderedList.cpp\<close>, with their nodes in an explicit memory.

  A list record holds its two node pointers and the memory of its nodes, a map from addresses to
  nodes with an allocation counter. Reading through \<open>NULL\<close> or a deleted node is the error
  \<open>NullDeref\<close>; the assertions on empty lists are enabled. The three loops run over a memory that
  might be cyclic, so they are partial functions, \<open>None\<close> meaning that they never return. The
  stored objects are customer pointers, numbers here.

  The main result is that the implementation on nodes and the operations on HOL lists return the
  same results; the theories of the queues use HOL lists for \<open>List\<close> members on the strength of it.
\<close>

section \<open>Nodes, lists and iterators\<close>

record node =
  node_data :: nat
  node_next :: "nat option"

record clist =
  firstNode :: "nat option"
  lastNode :: "nat option"
  nodes :: "nat \<Rightarrow> node option"
  fresh :: nat

record list_iter =
  it_p :: "nat option"
  it_q :: "nat option"

definition deref :: "clist \<Rightarrow> nat option \<Rightarrow> node res" where
  "deref l p = (case p of
     None \<Rightarrow> Inl NullDeref
   | Some a \<Rightarrow> (case nodes l a of None \<Rightarrow> Inl NullDeref | Some n \<Rightarrow> Inr n))"

definition new_ListNode :: "nat \<Rightarrow> nat option \<Rightarrow> clist \<Rightarrow> clist \<times> nat" where
  "new_ListNode ob nextNode l =
     (l\<lparr>nodes := (nodes l)(fresh l \<mapsto> \<lparr>node_data = ob, node_next = nextNode\<rparr>), fresh := fresh l + 1\<rparr>, fresh l)"

definition delete_node :: "nat option \<Rightarrow> clist \<Rightarrow> clist" where
  "delete_node p l = (case p of None \<Rightarrow> l | Some a \<Rightarrow> l\<lparr>nodes := (nodes l)(a := None)\<rparr>)"

definition set_next :: "nat option \<Rightarrow> nat option \<Rightarrow> clist \<Rightarrow> clist res" where
  "set_next p v l = bindE (deref l p) (\<lambda>n.
     Inr (l\<lparr>nodes := (nodes l)(the p \<mapsto> n\<lparr>node_next := v\<rparr>)\<rparr>))"

definition List_List :: clist where
  "List_List = \<lparr>firstNode = None, lastNode = None, nodes = Map.empty, fresh = 0\<rparr>"

definition List_isEmpty :: "clist \<Rightarrow> bool" where
  "List_isEmpty l = (firstNode l = None)"

definition List_first :: "clist \<Rightarrow> nat res" where
  "List_first l =
     (if List_isEmpty l then Inl AssertFailed else bindE (deref l (firstNode l)) (\<lambda>n. Inr (node_data n)))"

definition List_last :: "clist \<Rightarrow> nat res" where
  "List_last l =
     (if List_isEmpty l then Inl AssertFailed else bindE (deref l (lastNode l)) (\<lambda>n. Inr (node_data n)))"

definition List_insertAtFront :: "nat \<Rightarrow> clist \<Rightarrow> clist" where
  "List_insertAtFront insertItem l =
     (if List_isEmpty l
      then let (l1, a) = new_ListNode insertItem None l in l1\<lparr>firstNode := Some a, lastNode := Some a\<rparr>
      else let (l1, a) = new_ListNode insertItem (firstNode l) l in l1\<lparr>firstNode := Some a\<rparr>)"

definition List_insertAtBack :: "nat \<Rightarrow> clist \<Rightarrow> clist res" where
  "List_insertAtBack insertItem l =
     (if List_isEmpty l
      then let (l1, a) = new_ListNode insertItem None l in Inr (l1\<lparr>firstNode := Some a, lastNode := Some a\<rparr>)
      else let (l1, a) = new_ListNode insertItem None l
           in bindE (set_next (lastNode l1) (Some a) l1) (\<lambda>l2. Inr (l2\<lparr>lastNode := Some a\<rparr>)))"

definition List_removeFromFront :: "clist \<Rightarrow> (clist \<times> nat) res" where
  "List_removeFromFront l =
     (if List_isEmpty l then Inl AssertFailed
      else bindE (deref l (firstNode l)) (\<lambda>n.
        if firstNode l = lastNode l
        then Inr ((delete_node (firstNode l) l)\<lparr>firstNode := None, lastNode := None\<rparr>, node_data n)
        else Inr ((delete_node (firstNode l) l)\<lparr>firstNode := node_next n\<rparr>, node_data n)))"

partial_function (option) before_last :: "clist \<Rightarrow> nat option \<Rightarrow> (nat option) res option" where
  "before_last l current =
     (case deref l current of
        Inl e \<Rightarrow> Some (Inl e)
      | Inr n \<Rightarrow> if node_next n \<noteq> lastNode l then before_last l (node_next n) else Some (Inr current))"

definition List_removeFromBack :: "clist \<Rightarrow> (clist \<times> nat) res option" where
  "List_removeFromBack l =
     (if List_isEmpty l then Some (Inl AssertFailed)
      else case deref l (lastNode l) of
        Inl e \<Rightarrow> Some (Inl e)
      | Inr n \<Rightarrow>
          if firstNode l = lastNode l
          then Some (Inr ((delete_node (lastNode l) l)\<lparr>firstNode := None, lastNode := None\<rparr>, node_data n))
          else map_option (\<lambda>r. bindE r (\<lambda>current.
                 bindE (set_next current None ((delete_node (lastNode l) l)\<lparr>lastNode := current\<rparr>)) (\<lambda>l1.
                 Inr (l1, node_data n)))) (before_last l (firstNode l)))"

definition List_getIterator :: "clist \<Rightarrow> list_iter" where
  "List_getIterator l = \<lparr>it_p = None, it_q = firstNode l\<rparr>"

definition ListIterator_canAdvance :: "list_iter \<Rightarrow> bool" where
  "ListIterator_canAdvance it = (it_q it \<noteq> None)"

definition ListIterator_advance :: "clist \<Rightarrow> list_iter \<Rightarrow> list_iter res" where
  "ListIterator_advance l it = bindE (deref l (it_q it)) (\<lambda>n. Inr \<lparr>it_p = it_q it, it_q = node_next n\<rparr>)"

definition ListIterator_getValue :: "clist \<Rightarrow> list_iter \<Rightarrow> nat res" where
  "ListIterator_getValue l it = bindE (deref l (it_q it)) (\<lambda>n. Inr (node_data n))"

definition ListIterator_replaceValue :: "nat \<Rightarrow> list_iter \<Rightarrow> clist \<Rightarrow> clist res" where
  "ListIterator_replaceValue d it l = bindE (deref l (it_q it)) (\<lambda>n.
     Inr (l\<lparr>nodes := (nodes l)(the (it_q it) \<mapsto> n\<lparr>node_data := d\<rparr>)\<rparr>))"

definition ListIterator_add :: "nat \<Rightarrow> list_iter \<Rightarrow> clist \<Rightarrow> (clist \<times> list_iter) res" where
  "ListIterator_add ob it l =
     (let (l1, a) = new_ListNode ob (it_q it) l
      in if it_p it = None \<and> it_q it = None
         then Inr (l1\<lparr>firstNode := Some a, lastNode := Some a\<rparr>, it\<lparr>it_q := Some a\<rparr>)
         else if it_p it = None
         then Inr (l1\<lparr>firstNode := Some a\<rparr>, it\<lparr>it_p := Some a\<rparr>)
         else bindE (set_next (it_p it) (Some a) l1) (\<lambda>l2.
           Inr (if it_q it = None then l2\<lparr>lastNode := Some a\<rparr> else l2, it\<lparr>it_p := Some a\<rparr>)))"

definition ListIterator_remove :: "list_iter \<Rightarrow> clist \<Rightarrow> (clist \<times> list_iter) res" where
  "ListIterator_remove it l =
     bindE (deref l (it_q it)) (\<lambda>n.
     bindE (if it_p it = None then Inr (l\<lparr>firstNode := node_next n\<rparr>)
            else set_next (it_p it) (node_next n) l) (\<lambda>l1.
     Inr (if node_next n = None then l1\<lparr>lastNode := it_p it\<rparr> else l1, it\<lparr>it_q := node_next n\<rparr>)))"

text \<open>\<open>while (it->canAdvance() && cond(it->getValue())) it->advance()\<close>\<close>

partial_function (option) advance_while :: "(nat \<Rightarrow> bool) \<Rightarrow> clist \<Rightarrow> list_iter \<Rightarrow> list_iter res option" where
  "advance_while cond l it =
     (if ListIterator_canAdvance it
      then case ListIterator_getValue l it of
             Inl e \<Rightarrow> Some (Inl e)
           | Inr x \<Rightarrow> if cond x
                      then case ListIterator_advance l it of
                             Inl e \<Rightarrow> Some (Inl e)
                           | Inr it' \<Rightarrow> advance_while cond l it'
                      else Some (Inr it)
      else Some (Inr it))"

definition List_remove :: "nat \<Rightarrow> clist \<Rightarrow> clist res option" where
  "List_remove ob l =
     map_option (\<lambda>r. bindE r (\<lambda>it.
       bindE (ListIterator_getValue l it) (\<lambda>x.
       if x = ob then bindE (ListIterator_remove it l) (\<lambda>(l1, _). Inr l1) else Inr l)))
     (advance_while (\<lambda>x. x \<noteq> ob) l (List_getIterator l))"

definition OrderedList_insertInOrder :: "(nat \<Rightarrow> nat \<Rightarrow> bool) \<Rightarrow> nat \<Rightarrow> clist \<Rightarrow> clist res option" where
  "OrderedList_insertInOrder before ob l =
     map_option (\<lambda>r. bindE r (\<lambda>it. bindE (ListIterator_add ob it l) (\<lambda>(l1, _). Inr l1)))
     (advance_while (\<lambda>x. before x ob) l (List_getIterator l))"

section \<open>Chains of nodes\<close>

fun chain :: "(nat \<Rightarrow> node option) \<Rightarrow> nat option \<Rightarrow> nat list \<Rightarrow> nat list \<Rightarrow> nat option \<Rightarrow> bool" where
  "chain h p [] [] e \<longleftrightarrow> p = e"
| "chain h p (a # as) (x # xs) e \<longleftrightarrow>
     p = Some a \<and> (\<exists>n. h a = Some n \<and> node_data n = x \<and> chain h (node_next n) as xs e)"
| "chain h p _ _ e \<longleftrightarrow> False"

lemma chain_length: "chain h p as xs e \<Longrightarrow> length as = length xs"
  by (induction h p as xs e rule: chain.induct) auto

lemma chain_upd [simp]: "a \<notin> set as \<Longrightarrow> chain (h(a := v)) p as xs e = chain h p as xs e"
  by (induction h p as xs e rule: chain.induct) auto

lemma chain_append:
  "length as = length xs \<Longrightarrow>
   chain h p (as @ bs) (xs @ ys) e \<longleftrightarrow> (\<exists>m. chain h p as xs m \<and> chain h m bs ys e)"
  by (induction as xs arbitrary: p rule: list_induct2) auto

lemma chain_Nil [simp]: "chain h p [] xs e \<longleftrightarrow> xs = [] \<and> p = e"
  by (cases xs) simp_all

lemma chain_None: "chain h None as xs None \<longleftrightarrow> as = [] \<and> xs = []"
  by (cases as; cases xs) auto

definition list_rep :: "clist \<Rightarrow> nat list \<Rightarrow> nat list \<Rightarrow> bool" where
  "list_rep l as xs \<longleftrightarrow>
     chain (nodes l) (firstNode l) as xs None \<and> distinct as \<and> (\<forall>a \<in> set as. a < fresh l) \<and>
     lastNode l = (if as = [] then None else Some (last as))"

definition last_opt :: "nat list \<Rightarrow> nat option" where
  "last_opt as = (if as = [] then None else Some (last as))"

definition head_opt :: "nat list \<Rightarrow> nat option" where
  "head_opt as = (case as of [] \<Rightarrow> None | a # _ \<Rightarrow> Some a)"

lemma opt_simps [simp]:
  "last_opt [] = None" "last_opt (as @ [a]) = Some a" "head_opt [] = None" "head_opt (a # as) = Some a"
  "last_opt as = None \<longleftrightarrow> as = []" "head_opt as = None \<longleftrightarrow> as = []"
  "bs \<noteq> [] \<Longrightarrow> last_opt (as @ bs) = last_opt bs"
  "last_opt (a # as) = (if as = [] then Some a else last_opt as)"
  by (simp_all add: last_opt_def head_opt_def split: list.splits)

lemma chain_head: "chain h p as xs None \<Longrightarrow> p = head_opt as"
  by (cases as; cases xs) auto

text \<open>A representation cut at a position of the iterator.\<close>

lemma list_rep_split:
  assumes "list_rep l (bs @ cs) xs"
  obtains ys zs where "xs = ys @ zs" "length ys = length bs" "chain (nodes l) (firstNode l) bs ys (head_opt cs)"
    "chain (nodes l) (head_opt cs) cs zs None"
proof -
  let ?ys = "take (length bs) xs" and ?zs = "drop (length bs) xs"
  have c: "chain (nodes l) (firstNode l) (bs @ cs) xs None" using assms by (simp add: list_rep_def)
  then have len: "length bs = length ?ys" using chain_length [OF c] by simp
  from c obtain m where m: "chain (nodes l) (firstNode l) bs ?ys m" "chain (nodes l) m cs ?zs None"
    using chain_append [OF len, of "nodes l" "firstNode l" cs ?zs None] by auto
  have "m = head_opt cs" by (rule chain_head [OF m(2)])
  with m len show thesis by (intro that [of ?ys ?zs]) simp_all
qed

lemma list_rep_parts:
  "length bs = length ys \<Longrightarrow>
   list_rep l (bs @ cs) (ys @ zs) \<longleftrightarrow>
     chain (nodes l) (firstNode l) bs ys (head_opt cs) \<and> chain (nodes l) (head_opt cs) cs zs None \<and>
     distinct (bs @ cs) \<and> (\<forall>a \<in> set (bs @ cs). a < fresh l) \<and> lastNode l = last_opt (bs @ cs)"
  unfolding list_rep_def last_opt_def by (simp add: chain_append) (metis chain_head)

lemma chain_hd_node:
  "chain h (Some c) (c # cs) zs e \<Longrightarrow> \<exists>n z zs'. zs = z # zs' \<and> h c = Some n \<and> node_data n = z \<and> chain h (node_next n) cs zs' e"
  by (cases zs) auto

lemma chain_last_node:
  assumes "chain h p (bs @ [b]) ys e"
  shows "\<exists>ys' y n. ys = ys' @ [y] \<and> length ys' = length bs \<and> chain h p bs ys' (Some b) \<and> h b = Some n \<and>
    node_data n = y \<and> node_next n = e"
proof -
  have len: "length ys = Suc (length bs)" using chain_length [OF assms] by simp
  then obtain ys' y where ys: "ys = ys' @ [y]" by (cases ys rule: rev_cases) auto
  with len assms show ?thesis by (auto simp: chain_append)
qed

lemma chain_set_last:
  assumes "chain h p (bs @ [b]) ys e" "b \<notin> set bs" "h b = Some n"
  shows "chain (h(b \<mapsto> n\<lparr>node_next := e'\<rparr>)) p (bs @ [b]) ys e'"
  using chain_last_node [OF assms(1)] assms(2,3) by (auto simp: chain_append)

lemma deref_simps [simp]:
  "deref l None = Inl NullDeref" "nodes l a = Some n \<Longrightarrow> deref l (Some a) = Inr n"
  by (simp_all add: deref_def)

section \<open>Operations on represented lists\<close>

lemma rep_isEmpty: "list_rep l as xs \<Longrightarrow> List_isEmpty l \<longleftrightarrow> xs = []"
  by (cases as; cases xs) (auto simp: list_rep_def List_isEmpty_def)

lemma rep_add:
  assumes "list_rep l (bs @ cs) (ys @ zs)" "length bs = length ys"
  shows "\<exists>l' it'. ListIterator_add x \<lparr>it_p = last_opt bs, it_q = head_opt cs\<rparr> l = Inr (l', it') \<and>
    list_rep l' (bs @ fresh l # cs) (ys @ x # zs)"
proof -
  note rep = assms(1) [unfolded list_rep_parts [OF assms(2)]]
  have new: "fresh l \<notin> set bs" "fresh l \<notin> set cs" using rep by auto
  let ?n = "\<lparr>node_data = x, node_next = head_opt cs\<rparr>"
  show ?thesis
  proof (cases bs rule: rev_cases)
    case Nil
    then show ?thesis
      using rep new assms(2) list_rep_parts [of "[]" "[]"]
      by (cases cs) (auto simp: ListIterator_add_def new_ListNode_def list_rep_def last_opt_def less_Suc_eq)
  next
    case (snoc bs' b)
    obtain n where n: "nodes l b = Some n" using chain_last_node rep snoc by blast
    have "chain ((nodes l)(fresh l \<mapsto> ?n)) (firstNode l) (bs' @ [b]) ys (head_opt cs)"
      using rep new snoc by simp
    then have "chain ((nodes l)(fresh l \<mapsto> ?n, b \<mapsto> n\<lparr>node_next := Some (fresh l)\<rparr>)) (firstNode l) bs ys (Some (fresh l))"
      using chain_set_last [of "(nodes l)(fresh l \<mapsto> ?n)" "firstNode l" bs' b ys "head_opt cs" n "Some (fresh l)"] rep new snoc n
      by simp
    moreover have "chain ((nodes l)(fresh l \<mapsto> ?n, b \<mapsto> n\<lparr>node_next := Some (fresh l)\<rparr>)) (head_opt cs) cs zs None"
      using rep new snoc by simp
    moreover define l' where "l' = l\<lparr>fresh := Suc (fresh l),
        nodes := (nodes l)(fresh l \<mapsto> ?n, b \<mapsto> n\<lparr>node_next := Some (fresh l)\<rparr>),
        lastNode := (if cs = [] then Some (fresh l) else lastNode l)\<rparr>"
    moreover have "fresh l \<noteq> b" using new snoc by auto
    ultimately have "list_rep l' (bs @ fresh l # cs) (ys @ x # zs)"
      using rep new unfolding list_rep_parts [OF assms(2)] by (auto simp: less_Suc_eq)
    moreover have "ListIterator_add x \<lparr>it_p = last_opt bs, it_q = head_opt cs\<rparr> l =
        Inr (l', \<lparr>it_p = Some (fresh l), it_q = head_opt cs\<rparr>)"
      using snoc n \<open>fresh l \<noteq> b\<close> by (simp add: ListIterator_add_def new_ListNode_def set_next_def l'_def)
    ultimately show ?thesis by blast
  qed
qed

lemma rep_remove_at:
  assumes "list_rep l (bs @ c # cs) (ys @ z # zs)" "length bs = length ys"
  shows "\<exists>l' it'. ListIterator_remove \<lparr>it_p = last_opt bs, it_q = Some c\<rparr> l = Inr (l', it') \<and>
    list_rep l' (bs @ cs) (ys @ zs)"
proof -
  note rep = assms(1) [unfolded list_rep_parts [OF assms(2)]]
  obtain n where n: "nodes l c = Some n" "chain (nodes l) (node_next n) cs zs None" using rep by auto
  have hd: "node_next n = head_opt cs" by (rule chain_head [OF n(2)])
  show ?thesis
  proof (cases bs rule: rev_cases)
    case Nil
    then show ?thesis
      using rep n hd assms(2) list_rep_parts [of "[]" "[]"]
      by (auto simp: ListIterator_remove_def)
  next
    case (snoc bs' b)
    obtain m where m: "nodes l b = Some m" using chain_last_node rep snoc by blast
    have up: "chain ((nodes l)(b \<mapsto> m\<lparr>node_next := head_opt cs\<rparr>)) (firstNode l) bs ys (head_opt cs)"
      using chain_set_last [of "nodes l" "firstNode l" bs' b ys "Some c" m "head_opt cs"] rep snoc m by simp
    have down: "chain ((nodes l)(b \<mapsto> m\<lparr>node_next := head_opt cs\<rparr>)) (head_opt cs) cs zs None"
      using n(2) rep snoc by (simp add: hd)
    define l' where "l' = l\<lparr>nodes := (nodes l)(b \<mapsto> m\<lparr>node_next := head_opt cs\<rparr>),
        lastNode := (if cs = [] then Some b else lastNode l)\<rparr>"
    have "list_rep l' (bs @ cs) (ys @ zs)"
      using up down rep snoc unfolding list_rep_parts [OF assms(2)] l'_def by auto
    moreover have "ListIterator_remove \<lparr>it_p = last_opt bs, it_q = Some c\<rparr> l =
        Inr (l', \<lparr>it_p = Some b, it_q = head_opt cs\<rparr>)"
      using snoc m n hd by (simp add: ListIterator_remove_def set_next_def l'_def)
    ultimately show ?thesis by blast
  qed
qed

lemma rep_advance_while:
  assumes "chain (nodes l) (head_opt cs) cs zs None"
  shows "advance_while cond l \<lparr>it_p = last_opt bs, it_q = head_opt cs\<rparr> =
    (let k = length (takeWhile cond zs)
     in Some (Inr \<lparr>it_p = last_opt (bs @ take k cs), it_q = head_opt (drop k cs)\<rparr>))"
  using assms
proof (induction cs arbitrary: bs zs)
  case Nil
  then show ?case by (subst advance_while.simps) (simp add: ListIterator_canAdvance_def)
next
  case (Cons c cs)
  then obtain n zs' where n: "nodes l c = Some n" "zs = node_data n # zs'"
    "chain (nodes l) (node_next n) cs zs' None" by (cases zs) auto
  have hd: "node_next n = head_opt cs" by (rule chain_head [OF n(3)])
  show ?case
    using Cons.IH [of zs' "bs @ [c]"] n(3) hd
    by (subst advance_while.simps)
      (simp add: n(1,2) ListIterator_canAdvance_def ListIterator_getValue_def ListIterator_advance_def Let_def)
qed

lemma rep_iterator:
  "list_rep l as xs \<Longrightarrow> chain (nodes l) (head_opt as) as xs None \<and>
     List_getIterator l = \<lparr>it_p = last_opt [], it_q = head_opt as\<rparr>"
  using chain_head [of "nodes l" "firstNode l" as xs] by (simp add: list_rep_def List_getIterator_def)

lemma rep_cut:
  assumes "list_rep l as xs"
  shows "list_rep l (take k as @ drop k as) (take k xs @ drop k xs) \<and> length (take k as) = length (take k xs)"
  using assms chain_length [of "nodes l" "firstNode l" as xs None] by (simp add: list_rep_def)

lemma rep_insertInOrder:
  assumes "list_rep l as xs"
  shows "\<exists>l' as'. OrderedList_insertInOrder before x l = Some (Inr l') \<and>
    list_rep l' as' (takeWhile (\<lambda>y. before y x) xs @ x # dropWhile (\<lambda>y. before y x) xs)"
proof -
  let ?k = "length (takeWhile (\<lambda>y. before y x) xs)"
  note it = rep_iterator [OF assms]
  have cut: "list_rep l (take ?k as @ drop ?k as) (take ?k xs @ drop ?k xs)" "length (take ?k as) = length (take ?k xs)"
    using rep_cut [OF assms] by blast+
  obtain l' it' where "ListIterator_add x \<lparr>it_p = last_opt (take ?k as), it_q = head_opt (drop ?k as)\<rparr> l = Inr (l', it')"
    "list_rep l' (take ?k as @ fresh l # drop ?k as) (take ?k xs @ x # drop ?k xs)"
    using rep_add [OF cut, of x] by blast
  then show ?thesis
    using rep_advance_while [OF conjunct1 [OF it], of "\<lambda>y. before y x" "[]"] it
    by (auto simp: OrderedList_insertInOrder_def Let_def takeWhile_eq_take [symmetric] dropWhile_eq_drop [symmetric])
qed

lemma rep_remove:
  assumes "list_rep l as xs"
  shows "if x \<in> set xs
    then \<exists>l' as'. List_remove x l = Some (Inr l') \<and> list_rep l' as' (remove1 x xs)
    else List_remove x l = Some (Inl NullDeref)"
proof -
  let ?k = "length (takeWhile (\<lambda>y. y \<noteq> x) xs)"
  let ?it = "\<lparr>it_p = last_opt (take ?k as), it_q = head_opt (drop ?k as)\<rparr>"
  note it = rep_iterator [OF assms]
  have aw: "advance_while (\<lambda>y. y \<noteq> x) l (List_getIterator l) = Some (Inr ?it)"
    using rep_advance_while [OF conjunct1 [OF it], of "\<lambda>y. y \<noteq> x" "[]"] it by (simp add: Let_def)
  have len: "length as = length xs" using assms chain_length by (auto simp: list_rep_def)
  show ?thesis
  proof (cases "x \<in> set xs")
    case False
    then have "takeWhile (\<lambda>y. y \<noteq> x) xs = xs" by (auto simp: takeWhile_eq_all_conv)
    then have "?k = length as" using len by metis
    then have "advance_while (\<lambda>y. y \<noteq> x) l (List_getIterator l) = Some (Inr \<lparr>it_p = last_opt as, it_q = None\<rparr>)"
      using aw by simp
    then show ?thesis using False by (simp add: List_remove_def ListIterator_getValue_def)
  next
    case True
    then obtain ys zs where xs: "xs = ys @ x # zs" "x \<notin> set ys" by (meson split_list_first)
    then have k: "?k = length ys" by (auto simp: takeWhile_append)
    obtain bs c cs where as: "as = bs @ c # cs" "length bs = length ys"
    proof
      show "as = take (length ys) as @ as ! length ys # drop (Suc (length ys)) as"
        using len xs by (intro id_take_nth_drop) simp
    qed (use len xs in simp)
    obtain l' it' where "ListIterator_remove \<lparr>it_p = last_opt bs, it_q = Some c\<rparr> l = Inr (l', it')"
      "list_rep l' (bs @ cs) (ys @ zs)"
      using rep_remove_at [of l bs c cs ys x zs] assms as xs by blast
    moreover have "ListIterator_getValue l \<lparr>it_p = last_opt bs, it_q = Some c\<rparr> = Inr x"
      using assms as xs list_rep_parts [OF as(2), of l "c # cs" "x # zs"] by (auto simp: ListIterator_getValue_def)
    ultimately show ?thesis
      using aw True as xs k by (auto simp: List_remove_def remove1_append)
  qed
qed

lemma rep_insertAtFront:
  assumes "list_rep l as xs"
  shows "\<exists>as'. list_rep (List_insertAtFront x l) as' (x # xs)"
proof -
  have "\<exists>l' it'. ListIterator_add x (List_getIterator l) l = Inr (l', it') \<and> list_rep l' (fresh l # as) (x # xs)"
    using rep_add [of l "[]" as "[]" xs x] assms rep_iterator [OF assms] by simp
  moreover have "ListIterator_add x (List_getIterator l) l = Inr (l', it') \<Longrightarrow> List_insertAtFront x l = l'" for l' it'
    by (auto simp: ListIterator_add_def List_getIterator_def List_insertAtFront_def List_isEmpty_def new_ListNode_def
        split: if_splits)
  ultimately show ?thesis by metis
qed

lemma rep_insertAtBack:
  assumes "list_rep l as xs"
  shows "\<exists>l' as'. List_insertAtBack x l = Inr l' \<and> list_rep l' as' (xs @ [x])"
proof (cases as rule: rev_cases)
  case Nil
  then show ?thesis
    using assms by (auto simp: List_insertAtBack_def List_isEmpty_def new_ListNode_def list_rep_def
        intro!: exI [of _ "[fresh l]"])
next
  case (snoc bs b)
  have "\<exists>l' it'. ListIterator_add x \<lparr>it_p = last_opt as, it_q = head_opt []\<rparr> l = Inr (l', it') \<and>
      list_rep l' (as @ [fresh l]) (xs @ [x])"
    using rep_add [of l as "[]" xs "[]" x] assms chain_length by (simp add: list_rep_def) blast
  moreover have "firstNode l \<noteq> None" "lastNode l = last_opt as"
    using assms snoc rep_isEmpty [OF assms] chain_length [of "nodes l" "firstNode l" as xs None]
    by (auto simp: List_isEmpty_def list_rep_def last_opt_def)
  ultimately show ?thesis
    using snoc by (auto simp: ListIterator_add_def List_insertAtBack_def List_isEmpty_def new_ListNode_def set_next_def
        bindE_eq_Inr)
qed

lemma rep_first: "list_rep l as (x # xs) \<Longrightarrow> List_first l = Inr x"
  by (cases as) (auto simp: List_first_def List_isEmpty_def list_rep_def)

lemma rep_last:
  assumes "list_rep l as xs" "xs \<noteq> []"
  shows "List_last l = Inr (last xs)"
proof -
  obtain bs b where as: "as = bs @ [b]"
    using assms chain_length [of "nodes l" "firstNode l" as xs None] by (cases as rule: rev_cases) (auto simp: list_rep_def)
  then obtain n where "nodes l b = Some n" "node_data n = last xs"
    using chain_last_node [of "nodes l" "firstNode l" bs b xs None] assms by (auto simp: list_rep_def)
  moreover have "lastNode l = Some b" using assms as by (simp add: list_rep_def)
  ultimately show ?thesis using rep_isEmpty [OF assms(1)] assms(2) by (simp add: List_last_def)
qed

lemma rep_removeFromFront:
  assumes "list_rep l as (x # xs)"
  shows "\<exists>l' as'. List_removeFromFront l = Inr (l', x) \<and> list_rep l' as' xs"
proof -
  obtain a as' n where as: "as = a # as'" and n: "firstNode l = Some a" "nodes l a = Some n" "node_data n = x"
    "chain (nodes l) (node_next n) as' xs None"
    using assms by (cases as) (auto simp: list_rep_def)
  note rep = assms [unfolded list_rep_def as]
  let ?l = "\<lambda>f t. (delete_node (firstNode l) l)\<lparr>firstNode := f, lastNode := t\<rparr>"
  have "(delete_node (firstNode l) l)\<lparr>firstNode := node_next n\<rparr> = ?l (node_next n) (lastNode l)"
    by (simp add: delete_node_def n)
  moreover have "list_rep (?l (node_next n) (lastNode l)) as' xs" if "as' \<noteq> []"
    using rep n that by (auto simp: list_rep_def delete_node_def)
  moreover have "list_rep (?l None None) [] xs" if "as' = []"
    using n(4) that by (simp add: list_rep_def delete_node_def n)
  moreover have "firstNode l = lastNode l \<longleftrightarrow> as' = []" using rep n by auto
  ultimately show ?thesis
    using n by (cases "as' = []") (auto simp: List_removeFromFront_def List_isEmpty_def dest: sym)
qed

lemma before_last_finds:
  "chain (nodes l) (head_opt (ds @ [b, c])) (ds @ [b, c]) zs e \<Longrightarrow> distinct (ds @ [b, c]) \<Longrightarrow> lastNode l = Some c \<Longrightarrow>
   before_last l (head_opt (ds @ [b, c])) = Some (Inr (Some b))"
proof (induction ds arbitrary: zs)
  case Nil
  then obtain n where "nodes l b = Some n" "node_next n = Some c" by (cases zs; cases "tl zs") auto
  then show ?case using Nil by (subst before_last.simps) simp
next
  case (Cons d ds)
  then obtain n zs' where n: "nodes l d = Some n" "chain (nodes l) (node_next n) (ds @ [b, c]) zs' e"
    by (cases zs) auto
  have hd: "node_next n = head_opt (ds @ [b, c])" using n(2) by (cases ds; cases zs') auto
  have "node_next n \<noteq> lastNode l" using hd Cons.prems(2,3) by (cases ds) auto
  then show ?case
    using Cons.IH [of zs'] Cons.prems(2,3) n hd by (subst before_last.simps) simp
qed

lemma rep_removeFromBack:
  assumes "list_rep l as xs" "xs \<noteq> []"
  shows "\<exists>l' as'. List_removeFromBack l = Some (Inr (l', last xs)) \<and> list_rep l' as' (butlast xs)"
proof -
  obtain bs c where as: "as = bs @ [c]"
    using assms chain_length [of "nodes l" "firstNode l" as xs None] by (cases as rule: rev_cases) (auto simp: list_rep_def)
  note rep = assms(1) [unfolded list_rep_def as]
  obtain ys y n where xs: "xs = ys @ [y]" and c: "length ys = length bs" "chain (nodes l) (firstNode l) bs ys (Some c)"
    "nodes l c = Some n" "node_data n = y"
    using chain_last_node [of "nodes l" "firstNode l" bs c xs None] rep by auto
  have ne: "firstNode l \<noteq> None" "lastNode l = Some c"
    using rep rep_isEmpty [OF assms(1)] assms(2) by (auto simp: List_isEmpty_def)
  show ?thesis
  proof (cases bs rule: rev_cases)
    case Nil
    then have "firstNode l = Some c" using c by simp
    then show ?thesis
      using Nil c ne xs by (auto simp: List_removeFromBack_def List_isEmpty_def list_rep_def)
  next
    case (snoc ds b)
    obtain m where m: "nodes l b = Some m" using chain_last_node c(2) snoc by blast
    have first: "firstNode l = head_opt (ds @ [b, c])"
      using chain_head [of "nodes l" "firstNode l" "bs @ [c]" xs] rep snoc by simp
    then have diff: "firstNode l \<noteq> lastNode l" using ne rep snoc by (cases ds) auto
    have find: "before_last l (firstNode l) = Some (Inr (Some b))"
      using before_last_finds [of l ds b c xs None] rep ne snoc first by simp
    have "chain ((nodes l)(c := None)) (firstNode l) bs ys (Some c)" using c(2) rep by simp
    then have up: "chain ((nodes l)(c := None, b \<mapsto> m\<lparr>node_next := None\<rparr>)) (firstNode l) bs ys None"
      using chain_set_last [of "(nodes l)(c := None)" "firstNode l" ds b ys "Some c" m None] rep snoc m by simp
    define l' where "l' = l\<lparr>nodes := (nodes l)(c := None, b \<mapsto> m\<lparr>node_next := None\<rparr>), lastNode := Some b\<rparr>"
    have "list_rep l' bs ys" using up rep snoc by (auto simp: list_rep_def l'_def)
    moreover have "List_removeFromBack l = Some (Inr (l', y))"
      using find diff ne c(3,4) m rep snoc
      by (auto simp: List_removeFromBack_def List_isEmpty_def delete_node_def set_next_def l'_def)
    ultimately show ?thesis using xs by auto
  qed
qed

section \<open>Lists as a data type\<close>

datatype list_op =
  InsertFront nat | InsertBack nat | InsertOrdered nat | RemoveFront | RemoveBack | Remove nat
| First | Last | IsEmptyList

fun on_nodes :: "(nat \<Rightarrow> nat \<Rightarrow> bool) \<Rightarrow> list_op \<Rightarrow> clist \<Rightarrow> (clist \<times> nat) res option" where
  "on_nodes before (InsertFront x) l = Some (Inr (List_insertAtFront x l, 0))"
| "on_nodes before (InsertBack x) l = Some (bindE (List_insertAtBack x l) (\<lambda>l'. Inr (l', 0)))"
| "on_nodes before (InsertOrdered x) l =
     map_option (\<lambda>r. bindE r (\<lambda>l'. Inr (l', 0))) (OrderedList_insertInOrder before x l)"
| "on_nodes before RemoveFront l = Some (List_removeFromFront l)"
| "on_nodes before RemoveBack l = List_removeFromBack l"
| "on_nodes before (Remove x) l = map_option (\<lambda>r. bindE r (\<lambda>l'. Inr (l', 0))) (List_remove x l)"
| "on_nodes before First l = Some (bindE (List_first l) (\<lambda>x. Inr (l, x)))"
| "on_nodes before Last l = Some (bindE (List_last l) (\<lambda>x. Inr (l, x)))"
| "on_nodes before IsEmptyList l = Some (Inr (l, of_bool (List_isEmpty l)))"

fun on_list :: "(nat \<Rightarrow> nat \<Rightarrow> bool) \<Rightarrow> list_op \<Rightarrow> nat list \<Rightarrow> (nat list \<times> nat) res" where
  "on_list before (InsertFront x) xs = Inr (x # xs, 0)"
| "on_list before (InsertBack x) xs = Inr (xs @ [x], 0)"
| "on_list before (InsertOrdered x) xs =
     Inr (takeWhile (\<lambda>y. before y x) xs @ x # dropWhile (\<lambda>y. before y x) xs, 0)"
| "on_list before RemoveFront xs = (case xs of [] \<Rightarrow> Inl AssertFailed | x # ys \<Rightarrow> Inr (ys, x))"
| "on_list before RemoveBack xs = (if xs = [] then Inl AssertFailed else Inr (butlast xs, last xs))"
| "on_list before (Remove x) xs = (if x \<in> set xs then Inr (remove1 x xs, 0) else Inl NullDeref)"
| "on_list before First xs = (case xs of [] \<Rightarrow> Inl AssertFailed | x # ys \<Rightarrow> Inr (xs, x))"
| "on_list before Last xs = (if xs = [] then Inl AssertFailed else Inr (xs, last xs))"
| "on_list before IsEmptyList xs = Inr (xs, of_bool (xs = []))"

fun run_on_nodes :: "(nat \<Rightarrow> nat \<Rightarrow> bool) \<Rightarrow> list_op list \<Rightarrow> clist \<Rightarrow> nat list res option" where
  "run_on_nodes before [] l = Some (Inr [])"
| "run_on_nodes before (x # ops) l =
     (case on_nodes before x l of
        None \<Rightarrow> None
      | Some (Inl e) \<Rightarrow> Some (Inl e)
      | Some (Inr (l', v)) \<Rightarrow> map_option (\<lambda>r. bindE r (\<lambda>vs. Inr (v # vs))) (run_on_nodes before ops l'))"

fun run_on_list :: "(nat \<Rightarrow> nat \<Rightarrow> bool) \<Rightarrow> list_op list \<Rightarrow> nat list \<Rightarrow> nat list res" where
  "run_on_list before [] xs = Inr []"
| "run_on_list before (x # ops) xs =
     bindE (on_list before x xs) (\<lambda>(xs', v). bindE (run_on_list before ops xs') (\<lambda>vs. Inr (v # vs)))"

definition represents :: "clist \<Rightarrow> nat list \<Rightarrow> bool" where
  "represents l xs \<longleftrightarrow> (\<exists>as. list_rep l as xs)"

lemma on_nodes_refines:
  assumes "represents l xs"
  shows "case on_list before x xs of
      Inl e \<Rightarrow> on_nodes before x l = Some (Inl e)
    | Inr (xs', v) \<Rightarrow> \<exists>l'. on_nodes before x l = Some (Inr (l', v)) \<and> represents l' xs'"
proof -
  obtain as where rep: "list_rep l as xs" using assms by (auto simp: represents_def)
  note empty = rep_isEmpty [OF rep]
  show ?thesis
  proof (cases x)
    case (InsertFront y)
    then show ?thesis using rep_insertAtFront [OF rep] by (simp add: represents_def)
  next
    case (InsertBack y)
    then show ?thesis using rep_insertAtBack [OF rep, of y] by (auto simp: represents_def)
  next
    case (InsertOrdered y)
    then show ?thesis using rep_insertInOrder [OF rep, of before y] by (auto simp: represents_def)
  next
    case RemoveFront
    then show ?thesis
      using rep_removeFromFront [of l as] rep empty
      by (cases xs) (auto simp: represents_def List_removeFromFront_def)
  next
    case RemoveBack
    then show ?thesis
      using rep_removeFromBack [OF rep] empty by (cases "xs = []") (auto simp: represents_def List_removeFromBack_def)
  next
    case (Remove y)
    then show ?thesis using rep_remove [OF rep, of y] by (auto simp: represents_def split: if_splits)
  next
    case First
    then show ?thesis using assms rep_first [of l as] rep empty by (cases xs) (auto simp: List_first_def)
  next
    case Last
    then show ?thesis using assms rep_last [OF rep] empty by (cases "xs = []") (auto simp: List_last_def)
  next
    case IsEmptyList
    then show ?thesis using assms empty by simp
  qed
qed

lemma run_on_nodes_refines: "represents l xs \<Longrightarrow> run_on_nodes before ops l = Some (run_on_list before ops xs)"
proof (induction ops arbitrary: l xs)
  case (Cons x ops)
  then show ?case
    using on_nodes_refines [OF Cons.prems, of before x] by (auto split: sum.splits prod.splits)
qed simp

text \<open>
  C27. The linked list implements lists. Any sequence of insertions (in front, at the back, in
  order), removals (from either end, of an element), look-ups and tests on a new \<open>List\<close> terminates
  and returns what the same sequence returns on sequences of objects; it ends in an assertion
  failure exactly when an empty list is asked for an element, and in a null pointer access exactly
  when an element is removed that is not in the list.
\<close>

theorem linked_list_refines_lists:
  "run_on_nodes before ops List_List = Some (run_on_list before ops [])"
proof -
  have "list_rep List_List [] []" by (simp add: list_rep_def List_List_def)
  then show ?thesis using run_on_nodes_refines represents_def by blast
qed

text \<open>
  Removing an element that is not in the list reads through \<open>NULL\<close>: the branch that reports the
  error is never reached, because the test before it already asks the exhausted iterator for its
  value.
\<close>

theorem removing_missing_object_crashes:
  "run_on_nodes before (map InsertBack xs @ [Remove x]) List_List =
     Some (if x \<in> set xs then Inr (replicate (length xs + 1) 0) else Inl NullDeref)"
proof -
  have "run_on_list before (map InsertBack xs @ [Remove x]) ys =
      (if x \<in> set ys \<union> set xs then Inr (replicate (length xs + 1) 0) else Inl NullDeref)" for ys
    by (induction xs arbitrary: ys) auto
  moreover have "represents List_List []"
    unfolding represents_def by (rule exI [of _ "[]"]) (simp add: list_rep_def List_List_def)
  ultimately show ?thesis using run_on_nodes_refines by simp
qed

end
