(* ===== verification/Cinqs_Measures.thy ===== *)
theory Cinqs_Measures
  imports Vex_Prelude
begin

text \<open>
  The measures and resources of the queueing network library: \<open>cinqs/tools/Measure.cpp\<close>,
  \<open>SystemMeasure.cpp\<close>, \<open>CustomerMeasure.cpp\<close> and \<open>Resource.cpp\<close>.

  A \<open>double\<close> is a rational number and every arithmetic operation on doubles is followed by the
  rounding \<open>f64\<close>; \<open>pow\<close> is the correctly rounded power. The virtual time \<open>Sim::now()\<close> is the
  argument \<open>now\<close>. The array of moments is a map from its indices, of which the code uses those up
  to \<open>moments \<le> 10\<close>. Divisions by zero are the error \<open>CheckFailed\<close>: the code yields an
  infinity or a NaN there.
\<close>

section \<open>Measures\<close>

record measure =
  moments :: nat
  m_count :: int
  moment :: "nat \<Rightarrow> rat"
  resetTime :: rat

record system_measure = measure +
  lastChange :: rat
  currentVal :: rat

definition Measure_Measure :: measure where
  "Measure_Measure = \<lparr>moments = 2, m_count = 0, moment = (\<lambda>_. 0), resetTime = 0\<rparr>"

text \<open>\<open>Measure(int m)\<close> leaves the new array uninitialised; \<open>raw\<close> is its content.\<close>

definition Measure_Measure_int :: "(nat \<Rightarrow> rat) \<Rightarrow> int \<Rightarrow> measure" where
  "Measure_Measure_int raw m =
     \<lparr>moments = (if m > 10 then 10 else if m < 2 then 2 else nat m), m_count = 0, moment = raw, resetTime = 0\<rparr>"

definition Measure_getMoment :: "nat \<Rightarrow> ('a) measure_scheme \<Rightarrow> rat" where
  "Measure_getMoment i m = moment m i"

text \<open>\<open>for (i = 1; i <= moments; i++) moment[i] = f(i, moment[i])\<close>\<close>

definition each_moment :: "nat \<Rightarrow> (nat \<Rightarrow> rat \<Rightarrow> rat) \<Rightarrow> (nat \<Rightarrow> rat) \<Rightarrow> nat \<Rightarrow> rat" where
  "each_moment k f a = fold (\<lambda>i b. b(i := f i (b i))) [1..<Suc k] a"

definition Measure_resetMeasures :: "rat \<Rightarrow> 'a measure_scheme \<Rightarrow> 'a measure_scheme" where
  "Measure_resetMeasures now m =
     m\<lparr>resetTime := now, m_count := 0, moment := each_moment (moments m) (\<lambda>_ _. 0) (moment m)\<rparr>"

definition SystemMeasure_SystemMeasure :: system_measure where
  "SystemMeasure_SystemMeasure =
     measure.extend Measure_Measure \<lparr>lastChange = 0, currentVal = 0\<rparr>"

definition SystemMeasure_add :: "rat \<Rightarrow> rat \<Rightarrow> system_measure \<Rightarrow> system_measure" where
  "SystemMeasure_add now x m =
     m\<lparr>moment := each_moment (moments m)
          (\<lambda>i b. f64 (b + f64 (f64 (currentVal m ^ i) * f64 (now - lastChange m)))) (moment m),
       currentVal := x, lastChange := now, m_count := m_count m + 1\<rparr>"

definition double_div :: "rat \<Rightarrow> rat \<Rightarrow> rat res" where
  "double_div a b = (if b = 0 then Inl CheckFailed else Inr (f64 (a / b)))"

definition SystemMeasure_mean :: "rat \<Rightarrow> system_measure \<Rightarrow> rat res" where
  "SystemMeasure_mean now m = double_div (moment m 1) (f64 (now - resetTime m))"

definition SystemMeasure_variance :: "rat \<Rightarrow> system_measure \<Rightarrow> rat res" where
  "SystemMeasure_variance now m =
     bindE (SystemMeasure_mean now m) (\<lambda>mean.
     bindE (double_div (moment m 2) (f64 (now - resetTime m))) (\<lambda>q.
     Inr (f64 (q - f64 (mean * mean)))))"

definition CustomerMeasure_add :: "rat \<Rightarrow> measure \<Rightarrow> measure" where
  "CustomerMeasure_add x m =
     m\<lparr>moment := each_moment (moments m) (\<lambda>i b. f64 (b + f64 (x ^ i))) (moment m),
       m_count := m_count m + 1\<rparr>"

definition CustomerMeasure_mean :: "measure \<Rightarrow> rat res" where
  "CustomerMeasure_mean m = double_div (moment m 1) (of_int (m_count m))"

definition CustomerMeasure_variance :: "measure \<Rightarrow> rat res" where
  "CustomerMeasure_variance m =
     bindE (CustomerMeasure_mean m) (\<lambda>mean.
     double_div (f64 (moment m 2 - f64 (f64 (of_int (m_count m) * mean) * mean))) (of_int (m_count m - 1)))"

section \<open>Resources\<close>

record resource =
  resourceCount :: system_measure
  resources :: int
  nresources :: int

definition Resource_Resource :: "int \<Rightarrow> resource" where
  "Resource_Resource n = \<lparr>resourceCount = SystemMeasure_SystemMeasure, resources = n, nresources = n\<rparr>"

definition Resource_resourceIsAvailable :: "resource \<Rightarrow> bool" where
  "Resource_resourceIsAvailable r = (resources r > 0)"

definition Check_check :: "bool \<Rightarrow> unit res" where
  "Check_check b = (if \<not> b then Inl CheckFailed else Inr ())"

definition Resource_claim :: "rat \<Rightarrow> resource \<Rightarrow> resource res" where
  "Resource_claim now r =
     bindE (Check_check (Resource_resourceIsAvailable r)) (\<lambda>_.
     let r1 = r\<lparr>resources := resources r - 1\<rparr>
     in Inr (r1\<lparr>resourceCount :=
          SystemMeasure_add now (f32 (of_int (nresources r1 - resources r1))) (resourceCount r1)\<rparr>))"

definition Resource_release :: "rat \<Rightarrow> resource \<Rightarrow> resource res" where
  "Resource_release now r =
     bindE (Check_check (resources r < nresources r)) (\<lambda>_.
     let r1 = r\<lparr>resources := resources r + 1\<rparr>
     in Inr (r1\<lparr>resourceCount :=
          SystemMeasure_add now (f32 (of_int (nresources r1 - resources r1))) (resourceCount r1)\<rparr>))"

definition Resource_utilisation :: "rat \<Rightarrow> resource \<Rightarrow> rat res" where
  "Resource_utilisation now r =
     bindE (SystemMeasure_mean now (resourceCount r)) (\<lambda>mean. double_div mean (of_int (nresources r)))"

definition Resource_resetMeasures :: "rat \<Rightarrow> resource \<Rightarrow> resource" where
  "Resource_resetMeasures now r = r\<lparr>resourceCount := Measure_resetMeasures now (resourceCount r)\<rparr>"

section \<open>Time averages\<close>

lemma each_moment_apply: "each_moment k f a i = (if 1 \<le> i \<and> i \<le> k then f i (a i) else a i)"
proof -
  have "fold (\<lambda>i b. b(i := f i (b i))) is a i = (if i \<in> set is then f i (a i) else a i)" if "distinct is" for "is"
    using that by (induction "is" arbitrary: a) auto
  from this [of "[1..<Suc k]"] show ?thesis by (simp add: each_moment_def)
qed

text \<open>The area under a step function that is \<open>v\<close> since time \<open>t0\<close> and takes the given values at the
  given times.\<close>

fun area :: "int \<Rightarrow> int \<Rightarrow> (int \<times> int) list \<Rightarrow> int" where
  "area v t0 [] = 0"
| "area v t0 ((t, x) # rest) = v * (t - t0) + area x t rest"

fun last_time :: "int \<Rightarrow> (int \<times> int) list \<Rightarrow> int" where
  "last_time t0 [] = t0"
| "last_time t0 ((t, x) # rest) = last_time t rest"

fun in_order :: "int \<Rightarrow> (int \<times> int) list \<Rightarrow> bool" where
  "in_order t0 [] \<longleftrightarrow> True"
| "in_order t0 ((t, x) # rest) \<longleftrightarrow> t0 \<le> t \<and> t < 2 ^ 53 \<and> 0 \<le> x \<and> x < 2 ^ 53 \<and> in_order t rest"

fun record_all :: "(int \<times> int) list \<Rightarrow> system_measure \<Rightarrow> system_measure" where
  "record_all [] m = m"
| "record_all ((t, x) # rest) m = record_all rest (SystemMeasure_add (of_int t) (of_int x) m)"

lemma area_nonneg: "in_order t0 xs \<Longrightarrow> 0 \<le> v \<Longrightarrow> 0 \<le> area v t0 xs"
  by (induction v t0 xs rule: area.induct) simp_all

lemma record_all_area:
  "in_order t0 xs \<Longrightarrow> 0 \<le> t0 \<Longrightarrow> 0 \<le> v \<Longrightarrow> v < 2 ^ 53 \<Longrightarrow> 0 \<le> a \<Longrightarrow> a + area v t0 xs < 2 ^ 53 \<Longrightarrow>
   1 \<le> moments m \<Longrightarrow> moment m 1 = of_int a \<Longrightarrow> currentVal m = of_int v \<Longrightarrow> lastChange m = of_int t0 \<Longrightarrow>
   moment (record_all xs m) 1 = of_int (a + area v t0 xs)"
proof (induction xs arbitrary: v t0 a m)
  case (Cons p rest)
  obtain t x where p: "p = (t, x)" by fastforce
  let ?d = "v * (t - t0)"
  note prems = Cons.prems [unfolded p]
  have nn: "0 \<le> ?d" "0 \<le> area x t rest" using prems area_nonneg by auto
  have e1: "f64 (of_int v) = of_int v" using prems by (intro fl_of_int) simp
  have e2: "f64 (of_int t - of_int t0) = of_int (t - t0)"
    using fl_of_int [of "t - t0" 53] prems by simp
  have e3: "f64 (of_int v * of_int (t - t0)) = of_int ?d"
    using fl_of_int [of ?d 53] prems nn by simp
  have e4: "f64 (of_int a + of_int ?d) = of_int (a + ?d)"
    using fl_of_int [of "a + ?d" 53] prems nn by simp
  have mom: "moment (SystemMeasure_add (of_int t) (of_int x) m) 1 = of_int (a + ?d)"
    using prems e1 e2 e3 e4 by (simp add: SystemMeasure_add_def each_moment_apply)
  show ?case
    using Cons.IH [of t x "a + ?d" "SystemMeasure_add (of_int t) (of_int x) m"] prems mom nn
    by (simp add: p SystemMeasure_add_def algebra_simps)
qed simp

text \<open>
  The first moment of a system measure is the exact area under the recorded value: for integer
  times and values that are recorded in the order of time, whose times, values and total area are
  below \<open>2 ^ 53\<close>, no rounding occurs, and the mean at the last change is the area divided by the
  elapsed time, rounded once.
\<close>

theorem system_measure_mean_is_time_average:
  assumes "in_order 0 xs" "area 0 0 xs < 2 ^ 53" "0 < last_time 0 xs"
  shows "moment (record_all xs SystemMeasure_SystemMeasure) 1 = of_int (area 0 0 xs) \<and>
    SystemMeasure_mean (of_int (last_time 0 xs)) (record_all xs SystemMeasure_SystemMeasure) =
      Inr (f64 (of_int (area 0 0 xs) / of_int (last_time 0 xs)))"
proof -
  have m: "moment (record_all xs SystemMeasure_SystemMeasure) 1 = of_int (0 + area 0 0 xs)"
    using assms
    by (intro record_all_area) (simp_all add: SystemMeasure_SystemMeasure_def Measure_Measure_def measure.defs)
  have r: "resetTime (record_all xs m) = resetTime m" for m
    by (induction xs m rule: record_all.induct) (simp_all add: SystemMeasure_add_def)
  have "in_order t0 xs \<Longrightarrow> t0 < 2 ^ 53 \<Longrightarrow> last_time t0 xs < 2 ^ 53" for t0
    by (induction t0 xs rule: last_time.induct) simp_all
  then have "\<bar>last_time 0 xs\<bar> < 2 ^ 53" using assms by simp
  then show ?thesis
    using m assms(3) fl_of_int [of "last_time 0 xs" 53]
    by (simp add: SystemMeasure_mean_def double_div_def r)
      (simp add: SystemMeasure_SystemMeasure_def Measure_Measure_def measure.defs)
qed

theorem system_measure_mean_is_time_average_witness:
  "moment (record_all [(2, 3), (6, 1), (10, 0)] SystemMeasure_SystemMeasure) 1 = 16"
  using system_measure_mean_is_time_average [of "[(2, 3), (6, 1), (10, 0)]"] by simp

text \<open>
  Resetting the measures at the end of the warm-up does not restart the current period: the time
  before the reset in which the value did not change is counted again after it. A value of 4 held
  from time 0 on gives, reset at time 10 and recorded at time 11, a mean of 44.
\<close>

theorem reset_counts_time_before_reset:
  "SystemMeasure_mean 11 (SystemMeasure_add 11 4
     (Measure_resetMeasures 10 (SystemMeasure_add 0 4 SystemMeasure_SystemMeasure))) = Inr 44"
  by code_simp

section \<open>Counting resources\<close>

lemma Resource_claim_cases:
  "Resource_claim now r = (if 0 < resources r
     then Inr (r\<lparr>resources := resources r - 1, resourceCount := SystemMeasure_add now
       (f32 (of_int (nresources r - (resources r - 1)))) (resourceCount r)\<rparr>) else Inl CheckFailed)"
  by (simp add: Resource_claim_def Check_check_def Resource_resourceIsAvailable_def)

lemma Resource_release_cases:
  "Resource_release now r = (if resources r < nresources r
     then Inr (r\<lparr>resources := resources r + 1, resourceCount := SystemMeasure_add now
       (f32 (of_int (nresources r - (resources r + 1)))) (resourceCount r)\<rparr>) else Inl CheckFailed)"
  by (simp add: Resource_release_def Check_check_def)

end
