(* ===== verification/Cinqs_Queues.thy ===== *)
theory Cinqs_Queues
  imports Cinqs_List Cinqs_Measures
begin

text \<open>
  The queues of customers: \<open>cinqs/network/Queue.cpp\<close> and its disciplines \<open>FIFOQueue\<close>,
  \<open>LIFOQueue\<close>, \<open>OrderedQueue\<close>, \<open>RandomQueue\<close> and \<open>PriorityQueue\<close>.

  The four virtual methods of \<open>Queue\<close> are the fields of a record, a table of the methods of one
  discipline over its own state; the methods of \<open>Queue\<close> take that table. A \<open>List\<close> member is a HOL
  list of customers (\<open>Cinqs_List\<close> shows that the linked lists implement them), a customer is a
  record by value, since only the queue touches it while it is queued. \<open>rand()\<close> is an argument of
  the random discipline.
\<close>

section \<open>Customers and lists of customers\<close>

record customer =
  cust_id :: int
  cust_type :: int
  cust_priority :: int
  arrivalTime :: rat
  serviceDemand :: rat
  queueInsertionTime :: rat

definition Customer_setQueueInsertionTime :: "rat \<Rightarrow> customer \<Rightarrow> customer" where
  "Customer_setQueueInsertionTime d c = c\<lparr>queueInsertionTime := d\<rparr>"

definition Customer_smallerThan :: "customer \<Rightarrow> customer \<Rightarrow> bool" where
  "Customer_smallerThan x e = (cust_type x \<le> cust_type e)"

definition list_first :: "'a list \<Rightarrow> 'a res" where
  "list_first q = (case q of [] \<Rightarrow> Inl AssertFailed | x # _ \<Rightarrow> Inr x)"

definition list_removeFromFront :: "'a list \<Rightarrow> ('a list \<times> 'a) res" where
  "list_removeFromFront q = (case q of [] \<Rightarrow> Inl AssertFailed | x # r \<Rightarrow> Inr (r, x))"

definition list_insertInOrder :: "('a \<Rightarrow> 'a \<Rightarrow> bool) \<Rightarrow> 'a \<Rightarrow> 'a list \<Rightarrow> 'a list" where
  "list_insertInOrder before x q = takeWhile (\<lambda>y. before y x) q @ x # dropWhile (\<lambda>y. before y x) q"

section \<open>Queue\<close>

record queue_base =
  pop :: int
  capacity :: int
  queueingTime :: measure
  popMeasure :: system_measure

record 'd discipline =
  insertIntoQueue :: "rat \<Rightarrow> int \<Rightarrow> customer \<Rightarrow> 'd \<Rightarrow> 'd res"
  insertAtHeadOfQueue :: "rat \<Rightarrow> customer \<Rightarrow> 'd \<Rightarrow> 'd res"
  headOfQueue :: "'d \<Rightarrow> customer res"
  removeFromQueue :: "rat \<Rightarrow> 'd \<Rightarrow> ('d \<times> customer) res"

definition INT_MAX :: int where
  "INT_MAX = 2147483647"

definition Queue_Queue :: "int \<Rightarrow> queue_base" where
  "Queue_Queue cap =
     \<lparr>pop = 0, capacity = cap, queueingTime = Measure_Measure, popMeasure = SystemMeasure_SystemMeasure\<rparr>"

definition Queue_isInfinite :: "queue_base \<Rightarrow> bool" where
  "Queue_isInfinite b = (capacity b = INT_MAX)"

definition Queue_isEmpty :: "queue_base \<Rightarrow> bool" where
  "Queue_isEmpty b = (pop b = 0)"

definition Queue_canAccept :: "queue_base \<Rightarrow> bool" where
  "Queue_canAccept b = (pop b < capacity b)"

definition Queue_enqueue ::
  "'d discipline \<Rightarrow> rat \<Rightarrow> customer \<Rightarrow> queue_base \<times> 'd \<Rightarrow> (queue_base \<times> 'd) res" where
  "Queue_enqueue v now c q =
     bindE (Check_check (Queue_canAccept (fst q))) (\<lambda>_.
     bindE (insertIntoQueue v now (pop (fst q)) (Customer_setQueueInsertionTime now c) (snd q)) (\<lambda>d.
     let b1 = (fst q)\<lparr>pop := pop (fst q) + 1\<rparr>
     in Inr (b1\<lparr>popMeasure := SystemMeasure_add now (f32 (of_int (pop b1))) (popMeasure b1)\<rparr>, d)))"

definition Queue_enqueueAtHead ::
  "'d discipline \<Rightarrow> rat \<Rightarrow> customer \<Rightarrow> queue_base \<times> 'd \<Rightarrow> (queue_base \<times> 'd) res" where
  "Queue_enqueueAtHead v now c q =
     bindE (Check_check (Queue_canAccept (fst q))) (\<lambda>_.
     bindE (insertAtHeadOfQueue v now (Customer_setQueueInsertionTime now c) (snd q)) (\<lambda>d.
     let b1 = (fst q)\<lparr>pop := pop (fst q) + 1\<rparr>
     in Inr (b1\<lparr>popMeasure := SystemMeasure_add now (f32 (of_int (pop b1))) (popMeasure b1)\<rparr>, d)))"

definition Queue_head :: "'d discipline \<Rightarrow> queue_base \<times> 'd \<Rightarrow> customer res" where
  "Queue_head v q = bindE (Check_check (pop (fst q) > 0)) (\<lambda>_. headOfQueue v (snd q))"

definition Queue_dequeue ::
  "'d discipline \<Rightarrow> rat \<Rightarrow> queue_base \<times> 'd \<Rightarrow> ((queue_base \<times> 'd) \<times> customer) res" where
  "Queue_dequeue v now q =
     bindE (Check_check (pop (fst q) > 0)) (\<lambda>_.
     bindE (removeFromQueue v now (snd q)) (\<lambda>(d, c).
     let b1 = (fst q)\<lparr>pop := pop (fst q) - 1\<rparr>;
         b2 = b1\<lparr>popMeasure := SystemMeasure_add now (f32 (of_int (pop b1))) (popMeasure b1)\<rparr>;
         b3 = b2\<lparr>queueingTime := CustomerMeasure_add (f64 (now - queueInsertionTime c)) (queueingTime b2)\<rparr>
     in Inr ((b3, d), c)))"

definition Queue_resetMeasures :: "rat \<Rightarrow> queue_base \<Rightarrow> queue_base" where
  "Queue_resetMeasures now b =
     b\<lparr>queueingTime := Measure_resetMeasures now (queueingTime b),
       popMeasure := Measure_resetMeasures now (popMeasure b)\<rparr>"

definition Queue_meanQueueLength :: "rat \<Rightarrow> queue_base \<Rightarrow> rat res" where
  "Queue_meanQueueLength now b = SystemMeasure_mean now (popMeasure b)"

definition Queue_varQueueLength :: "rat \<Rightarrow> queue_base \<Rightarrow> rat res" where
  "Queue_varQueueLength now b = SystemMeasure_variance now (popMeasure b)"

definition Queue_meanTimeInQueue :: "queue_base \<Rightarrow> rat res" where
  "Queue_meanTimeInQueue b = CustomerMeasure_mean (queueingTime b)"

definition Queue_varTimeInQueue :: "queue_base \<Rightarrow> rat res" where
  "Queue_varTimeInQueue b = CustomerMeasure_variance (queueingTime b)"

section \<open>Disciplines\<close>

definition FIFOQueue :: "customer list discipline" where
  "FIFOQueue = \<lparr>insertIntoQueue = (\<lambda>_ _ e q. Inr (q @ [e])), insertAtHeadOfQueue = (\<lambda>_ e q. Inr (e # q)),
     headOfQueue = list_first, removeFromQueue = (\<lambda>_. list_removeFromFront)\<rparr>"

definition LIFOQueue :: "customer list discipline" where
  "LIFOQueue = \<lparr>insertIntoQueue = (\<lambda>_ _ e q. Inr (e # q)), insertAtHeadOfQueue = (\<lambda>_ e q. Inr (e # q)),
     headOfQueue = list_first, removeFromQueue = (\<lambda>_. list_removeFromFront)\<rparr>"

definition OrderedQueue :: "(customer \<Rightarrow> customer \<Rightarrow> bool) \<Rightarrow> customer list discipline" where
  "OrderedQueue smallerThan =
     \<lparr>insertIntoQueue = (\<lambda>_ _ e q. Inr (list_insertInOrder smallerThan e q)),
      insertAtHeadOfQueue = (\<lambda>_ e q. Inr (e # q)),
      headOfQueue = list_first, removeFromQueue = (\<lambda>_. list_removeFromFront)\<rparr>"

definition RAND_MAX :: int where
  "RAND_MAX = 2147483647"

definition random_index :: "int \<Rightarrow> int \<Rightarrow> int" where
  "random_index rnd n = trunc_int (f64 (f64 (of_int rnd / of_int RAND_MAX) * of_int (n + 1)))"

text \<open>\<open>index\<close> calls of \<open>advance()\<close>, which reads through the iterator's \<open>NULL\<close> at the end of the
  list, then \<open>add\<close>.\<close>

fun advance_and_add :: "nat \<Rightarrow> 'a \<Rightarrow> 'a list \<Rightarrow> 'a list res" where
  "advance_and_add 0 e q = Inr (e # q)"
| "advance_and_add (Suc i) e [] = Inl NullDeref"
| "advance_and_add (Suc i) e (x # q) = bindE (advance_and_add i e q) (\<lambda>q'. Inr (x # q'))"

definition RandomQueue :: "int \<Rightarrow> customer list discipline" where
  "RandomQueue rnd =
     \<lparr>insertIntoQueue = (\<lambda>_ n e q. advance_and_add (nat (random_index rnd n)) e q),
      insertAtHeadOfQueue = (\<lambda>_ e q. Inr (e # q)),
      headOfQueue = list_first, removeFromQueue = (\<lambda>_. list_removeFromFront)\<rparr>"

text \<open>The priority queue owns an array of \<open>FIFOQueue\<close> objects, one per priority.\<close>

type_synonym fifo_queue = "queue_base \<times> customer list"

definition PriorityQueue_buildPriorityQueue :: "nat \<Rightarrow> fifo_queue list" where
  "PriorityQueue_buildPriorityQueue nqueues = replicate nqueues (Queue_Queue INT_MAX, [])"

definition class_queue :: "customer \<Rightarrow> fifo_queue list \<Rightarrow> fifo_queue res" where
  "class_queue e qs = (if cust_priority e < 0 then Inl OutOfBounds else at_idx qs (nat (cust_priority e)))"

fun first_nonempty :: "fifo_queue list \<Rightarrow> nat option" where
  "first_nonempty [] = None"
| "first_nonempty (q # qs) = (if pop (fst q) > 0 then Some 0 else map_option Suc (first_nonempty qs))"

definition PriorityQueue :: "fifo_queue list discipline" where
  "PriorityQueue =
     \<lparr>insertIntoQueue = (\<lambda>now _ e qs. bindE (class_queue e qs) (\<lambda>q.
        bindE (Queue_enqueue FIFOQueue now e q) (\<lambda>q'. Inr (qs[nat (cust_priority e) := q'])))),
      insertAtHeadOfQueue = (\<lambda>now e qs. bindE (class_queue e qs) (\<lambda>q.
        bindE (Queue_enqueueAtHead FIFOQueue now e q) (\<lambda>q'. Inr (qs[nat (cust_priority e) := q'])))),
      headOfQueue = (\<lambda>qs. case first_nonempty qs of
          None \<Rightarrow> Inl CheckFailed
        | Some i \<Rightarrow> Queue_head FIFOQueue (qs ! i)),
      removeFromQueue = (\<lambda>now qs. case first_nonempty qs of
          None \<Rightarrow> Inl CheckFailed
        | Some i \<Rightarrow> bindE (Queue_dequeue FIFOQueue now (qs ! i)) (\<lambda>(q', c). Inr (qs[i := q'], c)))\<rparr>"

definition PriorityQueue_canAccept :: "customer \<Rightarrow> fifo_queue list \<Rightarrow> bool res" where
  "PriorityQueue_canAccept c qs = bindE (class_queue c qs) (\<lambda>q. Inr (Queue_canAccept (fst q)))"

section \<open>The contract of a discipline\<close>

datatype queue_op = Enqueue customer | EnqueueAtHead customer | Dequeue | Head

fun run_queue :: "'d discipline \<Rightarrow> (rat \<times> queue_op) list \<Rightarrow> queue_base \<times> 'd \<Rightarrow> customer list res" where
  "run_queue v [] q = Inr []"
| "run_queue v ((now, Enqueue c) # ops) q = bindE (Queue_enqueue v now c q) (run_queue v ops)"
| "run_queue v ((now, EnqueueAtHead c) # ops) q = bindE (Queue_enqueueAtHead v now c q) (run_queue v ops)"
| "run_queue v ((now, Dequeue) # ops) q =
     bindE (Queue_dequeue v now q) (\<lambda>(q', c). bindE (run_queue v ops q') (\<lambda>cs. Inr (c # cs)))"
| "run_queue v ((now, Head) # ops) q =
     bindE (Queue_head v q) (\<lambda>c. bindE (run_queue v ops q) (\<lambda>cs. Inr (c # cs)))"

text \<open>The same on the list of the customers in the order in which they will be served.\<close>

fun run_line ::
  "(customer \<Rightarrow> customer list \<Rightarrow> customer list) \<Rightarrow> (customer \<Rightarrow> customer list \<Rightarrow> customer list) \<Rightarrow> int \<Rightarrow>
   (rat \<times> queue_op) list \<Rightarrow> customer list \<Rightarrow> customer list res" where
  "run_line ins insh cap [] xs = Inr []"
| "run_line ins insh cap ((now, Enqueue c) # ops) xs =
     (if int (length xs) < cap
      then run_line ins insh cap ops (ins (c\<lparr>queueInsertionTime := now\<rparr>) xs) else Inl CheckFailed)"
| "run_line ins insh cap ((now, EnqueueAtHead c) # ops) xs =
     (if int (length xs) < cap
      then run_line ins insh cap ops (insh (c\<lparr>queueInsertionTime := now\<rparr>) xs) else Inl CheckFailed)"
| "run_line ins insh cap ((now, Dequeue) # ops) xs =
     (case xs of [] \<Rightarrow> Inl CheckFailed
      | x # r \<Rightarrow> bindE (run_line ins insh cap ops r) (\<lambda>cs. Inr (x # cs)))"
| "run_line ins insh cap ((now, Head) # ops) xs =
     (case xs of [] \<Rightarrow> Inl CheckFailed
      | x # r \<Rightarrow> bindE (run_line ins insh cap ops xs) (\<lambda>cs. Inr (x # cs)))"

fun op_admits :: "(customer \<Rightarrow> bool) \<Rightarrow> queue_op \<Rightarrow> bool" where
  "op_admits P (Enqueue c) = P c"
| "op_admits P (EnqueueAtHead c) = P c"
| "op_admits P _ = True"

locale queue_discipline =
  fixes v :: "'d discipline"
    and line :: "'d \<Rightarrow> customer list"
    and ok :: "'d \<Rightarrow> bool"
    and ins :: "customer \<Rightarrow> customer list \<Rightarrow> customer list"
    and insh :: "customer \<Rightarrow> customer list \<Rightarrow> customer list"
    and admits :: "customer \<Rightarrow> bool"
  assumes insert_law: "ok d \<Longrightarrow> admits c \<Longrightarrow> queueInsertionTime c = now \<Longrightarrow> int (length (line d)) < INT_MAX \<Longrightarrow>
      \<exists>d'. insertIntoQueue v now (int (length (line d))) c d = Inr d' \<and> ok d' \<and> line d' = ins c (line d)"
    and insert_head_law: "ok d \<Longrightarrow> admits c \<Longrightarrow> queueInsertionTime c = now \<Longrightarrow> int (length (line d)) < INT_MAX \<Longrightarrow>
      \<exists>d'. insertAtHeadOfQueue v now c d = Inr d' \<and> ok d' \<and> line d' = insh c (line d)"
    and head_law: "ok d \<Longrightarrow> line d = x # xs \<Longrightarrow> headOfQueue v d = Inr x"
    and remove_law: "ok d \<Longrightarrow> line d = x # xs \<Longrightarrow>
      \<exists>d'. removeFromQueue v now d = Inr (d', x) \<and> ok d' \<and> line d' = xs"
    and ins_mset: "mset (ins c xs) = add_mset c (mset xs)"
    and insh_mset: "mset (insh c xs) = add_mset c (mset xs)"
    and admits_time: "admits (c\<lparr>queueInsertionTime := t\<rparr>) = admits c"
begin

definition queue_inv :: "queue_base \<times> 'd \<Rightarrow> bool" where
  "queue_inv q \<longleftrightarrow> ok (snd q) \<and> pop (fst q) = int (length (line (snd q))) \<and> capacity (fst q) \<le> INT_MAX"

lemma ins_length: "length (ins c xs) = Suc (length xs)" "length (insh c xs) = Suc (length xs)"
  using ins_mset [of c xs] insh_mset [of c xs] by (metis size_add_mset size_mset)+

lemma enqueue_spec:
  assumes "queue_inv q" "admits c"
  shows "if int (length (line (snd q))) < capacity (fst q)
    then \<exists>q'. Queue_enqueue v now c q = Inr q' \<and> queue_inv q' \<and> capacity (fst q') = capacity (fst q) \<and>
      line (snd q') = ins (c\<lparr>queueInsertionTime := now\<rparr>) (line (snd q))
    else Queue_enqueue v now c q = Inl CheckFailed"
proof (cases "int (length (line (snd q))) < capacity (fst q)")
  case True
  obtain d' where "insertIntoQueue v now (pop (fst q)) (c\<lparr>queueInsertionTime := now\<rparr>) (snd q) = Inr d'" "ok d'"
    "line d' = ins (c\<lparr>queueInsertionTime := now\<rparr>) (line (snd q))"
    using insert_law [of "snd q" "c\<lparr>queueInsertionTime := now\<rparr>" now] assms True admits_time
    by (auto simp: queue_inv_def)
  with True assms show ?thesis
    by (simp add: Queue_enqueue_def Check_check_def Queue_canAccept_def Customer_setQueueInsertionTime_def
        queue_inv_def ins_length)
qed (use assms in \<open>simp add: Queue_enqueue_def Check_check_def Queue_canAccept_def queue_inv_def\<close>)

lemma enqueueAtHead_spec:
  assumes "queue_inv q" "admits c"
  shows "if int (length (line (snd q))) < capacity (fst q)
    then \<exists>q'. Queue_enqueueAtHead v now c q = Inr q' \<and> queue_inv q' \<and> capacity (fst q') = capacity (fst q) \<and>
      line (snd q') = insh (c\<lparr>queueInsertionTime := now\<rparr>) (line (snd q))
    else Queue_enqueueAtHead v now c q = Inl CheckFailed"
proof (cases "int (length (line (snd q))) < capacity (fst q)")
  case True
  obtain d' where "insertAtHeadOfQueue v now (c\<lparr>queueInsertionTime := now\<rparr>) (snd q) = Inr d'" "ok d'"
    "line d' = insh (c\<lparr>queueInsertionTime := now\<rparr>) (line (snd q))"
    using insert_head_law [of "snd q" "c\<lparr>queueInsertionTime := now\<rparr>" now] assms True admits_time
    by (auto simp: queue_inv_def)
  with True assms show ?thesis
    by (simp add: Queue_enqueueAtHead_def Check_check_def Queue_canAccept_def Customer_setQueueInsertionTime_def
        queue_inv_def ins_length)
qed (use assms in \<open>simp add: Queue_enqueueAtHead_def Check_check_def Queue_canAccept_def queue_inv_def\<close>)

lemma dequeue_spec:
  assumes "queue_inv q"
  shows "case line (snd q) of
      [] \<Rightarrow> Queue_dequeue v now q = Inl CheckFailed
    | x # r \<Rightarrow> \<exists>q'. Queue_dequeue v now q = Inr (q', x) \<and> queue_inv q' \<and> capacity (fst q') = capacity (fst q) \<and>
        line (snd q') = r"
proof (cases "line (snd q)")
  case (Cons x r)
  then obtain d' where "removeFromQueue v now (snd q) = Inr (d', x)" "ok d'" "line d' = r"
    using remove_law [of "snd q" x r now] assms by (auto simp: queue_inv_def)
  with Cons assms show ?thesis by (simp add: Queue_dequeue_def Check_check_def queue_inv_def Let_def)
qed (use assms in \<open>simp add: Queue_dequeue_def Check_check_def queue_inv_def\<close>)

lemma head_spec:
  assumes "queue_inv q"
  shows "Queue_head v q = (case line (snd q) of [] \<Rightarrow> Inl CheckFailed | x # r \<Rightarrow> Inr x)"
  using assms head_law [of "snd q"]
  by (cases "line (snd q)") (auto simp: Queue_head_def Check_check_def queue_inv_def)

lemma run_queue_line:
  "queue_inv q \<Longrightarrow> \<forall>(t, x) \<in> set ops. op_admits admits x \<Longrightarrow>
   run_queue v ops q = run_line ins insh (capacity (fst q)) ops (line (snd q))"
proof (induction ops arbitrary: q)
  case (Cons a ops)
  obtain now x where a: "a = (now, x)" by fastforce
  show ?case
  proof (cases x)
    case (Enqueue c)
    then show ?thesis using Cons a enqueue_spec [of q c now] by (auto split: if_splits)
  next
    case (EnqueueAtHead c)
    then show ?thesis using Cons a enqueueAtHead_spec [of q c now] by (auto split: if_splits)
  next
    case Dequeue
    then show ?thesis using Cons a dequeue_spec [of q now] by (cases "line (snd q)") auto
  next
    case Head
    then show ?thesis using Cons a head_spec [of q] by (cases "line (snd q)") auto
  qed
qed simp

end

section \<open>The disciplines of the library\<close>

lemma list_simps [simp]:
  "list_first (x # xs) = Inr x" "list_removeFromFront (x # xs) = Inr (xs, x)"
  by (simp_all add: list_first_def list_removeFromFront_def)

definition line_before :: "(customer \<Rightarrow> customer \<Rightarrow> bool) \<Rightarrow> customer \<Rightarrow> customer list \<Rightarrow> customer list" where
  "line_before before c xs = takeWhile (\<lambda>y. before y c) xs @ c # dropWhile (\<lambda>y. before y c) xs"

lemma line_before_mset: "mset (line_before before c xs) = add_mset c (mset xs)"
proof -
  have "mset (takeWhile (\<lambda>y. before y c) xs) + mset (dropWhile (\<lambda>y. before y c) xs) = mset xs"
    by (metis mset_append takeWhile_dropWhile_id)
  then show ?thesis by (simp add: line_before_def)
qed

lemma insertInOrder_line: "list_insertInOrder before c q = line_before before c q"
  by (simp add: list_insertInOrder_def line_before_def)

interpretation fifo: queue_discipline FIFOQueue "\<lambda>q. q" "\<lambda>_. True" "\<lambda>c xs. xs @ [c]" "\<lambda>c xs. c # xs" "\<lambda>_. True"
  by unfold_locales (simp_all add: FIFOQueue_def)

interpretation lifo: queue_discipline LIFOQueue "\<lambda>q. q" "\<lambda>_. True" "\<lambda>c xs. c # xs" "\<lambda>c xs. c # xs" "\<lambda>_. True"
  by unfold_locales (simp_all add: LIFOQueue_def)

interpretation ordered: queue_discipline "OrderedQueue before" "\<lambda>q. q" "\<lambda>_. True"
  "line_before before" "\<lambda>c xs. c # xs" "\<lambda>_. True" for before
  by unfold_locales (simp_all add: OrderedQueue_def line_before_mset insertInOrder_line)

definition priority_ok :: "nat \<Rightarrow> fifo_queue list \<Rightarrow> bool" where
  "priority_ok n qs \<longleftrightarrow> length qs = n \<and>
     (\<forall>i < n. fifo.queue_inv (qs ! i) \<and> capacity (fst (qs ! i)) = INT_MAX \<and>
        (\<forall>c \<in> set (snd (qs ! i)). cust_priority c = int i))"

definition priority_line :: "fifo_queue list \<Rightarrow> customer list" where
  "priority_line qs = concat (map snd qs)"

definition in_classes :: "nat \<Rightarrow> customer \<Rightarrow> bool" where
  "in_classes n c \<longleftrightarrow> 0 \<le> cust_priority c \<and> cust_priority c < int n"

lemma priority_line_update:
  "i < length qs \<Longrightarrow> priority_line (qs[i := q]) =
     priority_line (take i qs) @ snd q @ priority_line (drop (Suc i) qs)"
  by (simp add: priority_line_def upd_conv_take_nth_drop)

lemma priority_line_split:
  "i < length qs \<Longrightarrow> priority_line qs = priority_line (take i qs) @ snd (qs ! i) @ priority_line (drop (Suc i) qs)"
  using priority_line_update [of i qs "qs ! i"] by simp

lemma priority_classes:
  assumes "priority_ok n qs" "i < n"
  shows "c \<in> set (priority_line (take i qs)) \<Longrightarrow> cust_priority c < int i"
    and "c \<in> set (snd (qs ! i)) \<Longrightarrow> cust_priority c = int i"
    and "c \<in> set (priority_line (drop (Suc i) qs)) \<Longrightarrow> int i < cust_priority c"
proof -
  have cls: "j < n \<Longrightarrow> c \<in> set (snd (qs ! j)) \<Longrightarrow> cust_priority c = int j" for j
    using assms(1) by (simp add: priority_ok_def)
  have len: "length qs = n" using assms(1) by (simp add: priority_ok_def)
  show "c \<in> set (snd (qs ! i)) \<Longrightarrow> cust_priority c = int i" using cls assms(2) by blast
  assume "c \<in> set (priority_line (take i qs))"
  then obtain q where "q \<in> set (take i qs)" "c \<in> set (snd q)" by (auto simp: priority_line_def)
  moreover from this obtain j where "j < length (take i qs)" "take i qs ! j = q"
    by (metis in_set_conv_nth)
  ultimately obtain j where "j < i" "c \<in> set (snd (qs ! j))" by auto
  then show "cust_priority c < int i" using cls [of j] assms(2) by simp
next
  have cls: "j < n \<Longrightarrow> c \<in> set (snd (qs ! j)) \<Longrightarrow> cust_priority c = int j" for j
    using assms(1) by (simp add: priority_ok_def)
  have len: "length qs = n" using assms(1) by (simp add: priority_ok_def)
  assume "c \<in> set (priority_line (drop (Suc i) qs))"
  then obtain q where "q \<in> set (drop (Suc i) qs)" "c \<in> set (snd q)" by (auto simp: priority_line_def)
  moreover from \<open>q \<in> _\<close> obtain j where "j < length (drop (Suc i) qs)" "drop (Suc i) qs ! j = q"
    by (metis in_set_conv_nth)
  ultimately have "Suc (i + j) < n \<and> c \<in> set (snd (qs ! Suc (i + j)))"
    using len by auto
  then obtain j where "Suc (i + j) < n" "c \<in> set (snd (qs ! Suc (i + j)))" by blast
  then show "int i < cust_priority c" using cls [of "Suc (i + j)"] by simp
qed

lemma priority_ok_update:
  "priority_ok n qs \<Longrightarrow> i < n \<Longrightarrow> fifo.queue_inv q \<Longrightarrow> capacity (fst q) = INT_MAX \<Longrightarrow>
   \<forall>c \<in> set (snd q). cust_priority c = int i \<Longrightarrow> priority_ok n (qs[i := q])"
  by (auto simp: priority_ok_def nth_list_update)

lemma takeWhile_blocks:
  assumes "\<And>y. y \<in> set xs \<Longrightarrow> P y" "\<And>y. y \<in> set ys \<Longrightarrow> \<not> P y"
  shows "takeWhile P (xs @ ys) = xs" "dropWhile P (xs @ ys) = ys"
  using assms by (cases ys; simp add: takeWhile_append2 dropWhile_append2)+

lemma first_nonempty_cases:
  "\<forall>q \<in> set qs. fifo.queue_inv q \<Longrightarrow>
   (case first_nonempty qs of
      None \<Rightarrow> priority_line qs = []
    | Some i \<Rightarrow> i < length qs \<and> snd (qs ! i) \<noteq> [] \<and> priority_line (take i qs) = [])"
proof (induction qs)
  case (Cons q qs)
  have pop: "pop (fst q) = int (length (snd q))" using Cons.prems by (simp add: fifo.queue_inv_def)
  show ?case
    using Cons pop by (cases "snd q") (auto simp: priority_line_def split: option.splits)
qed (simp add: priority_line_def)

lemma priority_insert:
  assumes ok: "priority_ok n qs" and c: "in_classes n c" and now: "queueInsertionTime c = now"
    and len: "int (length (priority_line qs)) < INT_MAX"
  shows "\<exists>qs'. insertIntoQueue PriorityQueue now m c qs = Inr qs' \<and> priority_ok n qs' \<and>
      priority_line qs' = line_before (\<lambda>y z. cust_priority y \<le> cust_priority z) c (priority_line qs)"
    and "\<exists>qs'. insertAtHeadOfQueue PriorityQueue now c qs = Inr qs' \<and> priority_ok n qs' \<and>
      priority_line qs' = line_before (\<lambda>y z. cust_priority y < cust_priority z) c (priority_line qs)"
proof -
  define i where "i = nat (cust_priority c)"
  have i: "i < n" "cust_priority c = int i" "i < length qs" using c ok by (auto simp: i_def in_classes_def priority_ok_def)
  have cls: "class_queue c qs = Inr (qs ! i)" using i by (simp add: class_queue_def)
  have inv: "fifo.queue_inv (qs ! i)" "capacity (fst (qs ! i)) = INT_MAX" using ok i by (simp_all add: priority_ok_def)
  have room: "int (length (snd (qs ! i))) < INT_MAX"
    using len priority_line_split [OF i(3)] by simp
  have same: "c\<lparr>queueInsertionTime := now\<rparr> = c" using now by simp
  note split = priority_line_split [OF i(3)]
  note p = priority_classes [OF ok i(1)]
  have own: "\<forall>y \<in> set (snd (qs ! i)). cust_priority y = int i" using p(2) by blast
  obtain q' where q': "Queue_enqueue FIFOQueue now c (qs ! i) = Inr q'" "fifo.queue_inv q'"
    "capacity (fst q') = INT_MAX" "snd q' = snd (qs ! i) @ [c]"
    using fifo.enqueue_spec [OF inv(1), where c = c and now = now] inv(2) room same by auto
  have "line_before (\<lambda>y z. cust_priority y \<le> cust_priority z) c (priority_line qs) =
      (priority_line (take i qs) @ snd (qs ! i)) @ c # priority_line (drop (Suc i) qs)"
    unfolding line_before_def split append.assoc [symmetric]
    by (subst takeWhile_blocks, use p i in force, use p i in force, subst takeWhile_blocks,
        use p i in force, use p i in force) simp
  then show "\<exists>qs'. insertIntoQueue PriorityQueue now m c qs = Inr qs' \<and> priority_ok n qs' \<and>
      priority_line qs' = line_before (\<lambda>y z. cust_priority y \<le> cust_priority z) c (priority_line qs)"
    using q' cls i own priority_ok_update [OF ok i(1) q'(2,3)]
    by (simp add: PriorityQueue_def priority_line_update)
  obtain q' where q': "Queue_enqueueAtHead FIFOQueue now c (qs ! i) = Inr q'" "fifo.queue_inv q'"
    "capacity (fst q') = INT_MAX" "snd q' = c # snd (qs ! i)"
    using fifo.enqueueAtHead_spec [OF inv(1), where c = c and now = now] inv(2) room same by auto
  have "line_before (\<lambda>y z. cust_priority y < cust_priority z) c (priority_line qs) =
      priority_line (take i qs) @ c # (snd (qs ! i) @ priority_line (drop (Suc i) qs))"
    unfolding line_before_def split
    by (subst takeWhile_blocks, use p i in force, use p i in force, subst takeWhile_blocks,
        use p i in force, use p i in force) simp
  then show "\<exists>qs'. insertAtHeadOfQueue PriorityQueue now c qs = Inr qs' \<and> priority_ok n qs' \<and>
      priority_line qs' = line_before (\<lambda>y z. cust_priority y < cust_priority z) c (priority_line qs)"
    using q' cls i own priority_ok_update [OF ok i(1) q'(2,3)]
    by (simp add: PriorityQueue_def priority_line_update)
qed

lemma priority_remove:
  assumes ok: "priority_ok n qs" and line: "priority_line qs = x # xs"
  shows "headOfQueue PriorityQueue qs = Inr x"
    and "\<exists>qs'. removeFromQueue PriorityQueue now qs = Inr (qs', x) \<and> priority_ok n qs' \<and> priority_line qs' = xs"
proof -
  have "\<forall>q \<in> set qs. fifo.queue_inv q" using ok unfolding priority_ok_def by (metis in_set_conv_nth)
  from first_nonempty_cases [OF this] line obtain i where
    i: "first_nonempty qs = Some i" "i < length qs" "snd (qs ! i) \<noteq> []" "priority_line (take i qs) = []"
    by (cases "first_nonempty qs") auto
  have n: "i < n" using i ok by (simp add: priority_ok_def)
  have inv: "fifo.queue_inv (qs ! i)" "capacity (fst (qs ! i)) = INT_MAX" using ok n by (simp_all add: priority_ok_def)
  obtain r where r: "snd (qs ! i) = x # r" "xs = r @ priority_line (drop (Suc i) qs)"
    using priority_line_split [OF i(2)] i(3,4) line by (cases "snd (qs ! i)") auto
  show "headOfQueue PriorityQueue qs = Inr x"
    using i r fifo.head_spec [OF inv(1)] by (simp add: PriorityQueue_def)
  obtain q' where q': "Queue_dequeue FIFOQueue now (qs ! i) = Inr (q', x)" "fifo.queue_inv q'"
    "capacity (fst q') = INT_MAX" "snd q' = r"
    using fifo.dequeue_spec [OF inv(1), of now] r inv(2) by auto
  have "\<forall>y \<in> set (snd q'). cust_priority y = int i"
    using priority_classes(2) [OF ok n] r q'(4) by auto
  then show "\<exists>qs'. removeFromQueue PriorityQueue now qs = Inr (qs', x) \<and> priority_ok n qs' \<and> priority_line qs' = xs"
    using q' i r priority_ok_update [OF ok n q'(2,3)] by (simp add: PriorityQueue_def priority_line_update)
qed

interpretation priority: queue_discipline PriorityQueue priority_line "priority_ok n"
  "line_before (\<lambda>y z. cust_priority y \<le> cust_priority z)" "line_before (\<lambda>y z. cust_priority y < cust_priority z)"
  "in_classes n" for n
proof unfold_locales
  show "in_classes n (c\<lparr>queueInsertionTime := t\<rparr>) = in_classes n c" for c t by (simp add: in_classes_def)
qed (fact priority_insert priority_remove line_before_mset)+

text \<open>
  C26. The queue disciplines. Any sequence of enqueue, enqueue-at-head, dequeue and head calls on a
  new queue of capacity \<open>cap\<close> behaves as on a line of waiting customers: \<open>FIFOQueue\<close> appends and
  \<open>LIFOQueue\<close> prepends a customer, \<open>OrderedQueue\<close> inserts it behind all customers that the order
  puts before it, and \<open>PriorityQueue\<close> behind all customers of its own and more urgent priorities
  (at the head of its own class for the at-head call); a full line refuses customers and an empty
  one is an error, and customers leave in the order of the line with the time they were queued at.
\<close>

theorem queue_disciplines_refine_lines:
  assumes "cap \<le> INT_MAX"
  shows "run_queue FIFOQueue ops (Queue_Queue cap, []) = run_line (\<lambda>c xs. xs @ [c]) (\<lambda>c xs. c # xs) cap ops [] \<and>
    run_queue LIFOQueue ops (Queue_Queue cap, []) = run_line (\<lambda>c xs. c # xs) (\<lambda>c xs. c # xs) cap ops [] \<and>
    run_queue (OrderedQueue before) ops (Queue_Queue cap, []) =
      run_line (line_before before) (\<lambda>c xs. c # xs) cap ops [] \<and>
    ((\<forall>(t, x) \<in> set ops. op_admits (in_classes n) x) \<longrightarrow>
      run_queue PriorityQueue ops (Queue_Queue cap, PriorityQueue_buildPriorityQueue n) =
        run_line (line_before (\<lambda>y z. cust_priority y \<le> cust_priority z))
                 (line_before (\<lambda>y z. cust_priority y < cust_priority z)) cap ops [])"
proof -
  have "op_admits (\<lambda>_. True) x" for x by (cases x) simp_all
  then have all: "\<forall>(t, x) \<in> set ops. op_admits (\<lambda>_. True) x" by auto
  have new: "fifo.queue_inv (Queue_Queue cap, [])" using assms by (simp add: fifo.queue_inv_def Queue_Queue_def)
  have cap: "capacity (Queue_Queue cap) = cap" by (simp add: Queue_Queue_def)
  have "fifo.queue_inv (Queue_Queue INT_MAX, [])" by (simp add: fifo.queue_inv_def Queue_Queue_def)
  then have "priority.queue_inv n (Queue_Queue cap, PriorityQueue_buildPriorityQueue n)"
    using assms by (simp add: priority.queue_inv_def Queue_Queue_def PriorityQueue_buildPriorityQueue_def
        priority_ok_def priority_line_def)
  from priority.run_queue_line [OF this, of ops]
  have "(\<forall>(t, x) \<in> set ops. op_admits (in_classes n) x) \<longrightarrow>
      run_queue PriorityQueue ops (Queue_Queue cap, PriorityQueue_buildPriorityQueue n) =
        run_line (line_before (\<lambda>y z. cust_priority y \<le> cust_priority z))
                 (line_before (\<lambda>y z. cust_priority y < cust_priority z)) cap ops []"
    by (simp add: cap PriorityQueue_buildPriorityQueue_def priority_line_def)
  then show ?thesis
    using fifo.run_queue_line [OF new all] lifo.run_queue_line [OF new all]
      ordered.run_queue_line [OF new all, of before] by (simp add: cap)
qed

definition example_customer :: "int \<Rightarrow> customer" where
  "example_customer k = \<lparr>cust_id = k, cust_type = 0, cust_priority = k mod 2,
     arrivalTime = 0, serviceDemand = 1, queueInsertionTime = 0\<rparr>"

theorem queue_disciplines_refine_lines_witness:
  "run_queue LIFOQueue [(1, Enqueue (example_customer 1)), (2, Enqueue (example_customer 2)), (3, Dequeue)]
     (Queue_Queue 2, []) = Inr [(example_customer 2)\<lparr>queueInsertionTime := 2\<rparr>] \<and>
   run_queue PriorityQueue [(1, Enqueue (example_customer 1)), (2, Enqueue (example_customer 2)), (3, Dequeue)]
     (Queue_Queue 2, PriorityQueue_buildPriorityQueue 2) = Inr [(example_customer 2)\<lparr>queueInsertionTime := 2\<rparr>]"
  using queue_disciplines_refine_lines [where cap = 2 and n = 2 and
      ops = "[(1, Enqueue (example_customer 1)), (2, Enqueue (example_customer 2)), (3, Dequeue)]"]
  by (simp del: run_queue.simps add: INT_MAX_def in_classes_def example_customer_def line_before_def)

section \<open>Random insertion\<close>

lemma random_index_bounds:
  assumes "0 \<le> rnd" "rnd < RAND_MAX" "0 \<le> n"
  shows "0 \<le> random_index rnd n \<and> random_index rnd n \<le> n"
proof -
  define x :: rat where "x = of_int rnd / of_int RAND_MAX"
  define u :: rat where "u = 1 / 2 ^ 53"
  define z where "z = f64 x * of_int (n + 1)"
  have "x \<le> of_int (RAND_MAX - 1) / of_int RAND_MAX"
    unfolding x_def using assms(2) by (intro divide_right_mono) (simp_all add: RAND_MAX_def)
  then have x: "0 \<le> x" "x \<le> 1 - 1 / 2147483647"
    using assms(1) by (simp_all add: x_def RAND_MAX_def)
  have u: "0 < u" "(1 - 1 / 2147483647) * (1 + u) * (1 + u) < 1" by (simp_all add: u_def)
  have y: "0 \<le> f64 x" "f64 x \<le> x * (1 + u)"
    unfolding u_def by (rule fl_nonneg [OF x(1)], rule fl_upper [OF x(1)])
  have n: "(0::rat) < of_int (n + 1)" using assms(3) by (simp only: of_int_0_less_iff)
  have z: "0 \<le> z" "z \<le> x * (1 + u) * of_int (n + 1)"
    using y n by (simp_all add: z_def mult_right_mono del: of_int_add)
  have "f64 z \<le> z * (1 + u)"
    unfolding u_def by (rule fl_upper [OF z(1)])
  also have "\<dots> \<le> x * (1 + u) * of_int (n + 1) * (1 + u)"
    using z(2) u(1) by (intro mult_right_mono) auto
  also have "\<dots> = (x * (1 + u) * (1 + u)) * of_int (n + 1)" by simp
  also have "\<dots> < 1 * of_int (n + 1)"
  proof (rule mult_strict_right_mono [OF _ n])
    have "x * (1 + u) * (1 + u) \<le> (1 - 1 / 2147483647) * (1 + u) * (1 + u)"
      using x(2) u(1) by (intro mult_right_mono) auto
    then show "x * (1 + u) * (1 + u) < 1" using u(2) by linarith
  qed
  finally have "f64 z < of_int (n + 1)" by simp
  then have "\<lfloor>f64 z\<rfloor> < n + 1" by (simp only: floor_less_iff)
  moreover have "0 \<le> f64 z" by (rule fl_nonneg [OF z(1)])
  moreover have "random_index rnd n = trunc_int (f64 z)" by (simp add: random_index_def z_def x_def)
  ultimately show ?thesis by (simp add: trunc_int_def)
qed

lemma advance_and_add_take: "i \<le> length q \<Longrightarrow> advance_and_add i e q = Inr (take i q @ e # drop i q)"
  by (induction i e q rule: advance_and_add.induct) simp_all

lemma advance_and_add_past: "length q < i \<Longrightarrow> advance_and_add i e q = Inl NullDeref"
  by (induction i e q rule: advance_and_add.induct) simp_all

definition random_ins :: "int \<Rightarrow> customer \<Rightarrow> customer list \<Rightarrow> customer list" where
  "random_ins rnd c xs =
     (let i = nat (random_index rnd (int (length xs))) in take i xs @ c # drop i xs)"

lemma random_ins_mset: "mset (random_ins rnd c xs) = add_mset c (mset xs)"
  by (simp add: random_ins_def Let_def) (metis append_take_drop_id mset_append)

text \<open>The values of \<open>rand()\<close> below \<open>RAND_MAX\<close>.\<close>

interpretation random: queue_discipline "RandomQueue (rnd mod RAND_MAX)" "\<lambda>q. q" "\<lambda>_. True"
  "random_ins (rnd mod RAND_MAX)" "\<lambda>c xs. c # xs" "\<lambda>_. True" for rnd
proof unfold_locales
  fix d :: "customer list" and c now
  have "nat (random_index (rnd mod RAND_MAX) (int (length d))) \<le> length d"
    using random_index_bounds [of "rnd mod RAND_MAX" "int (length d)"] by (simp add: nat_le_iff RAND_MAX_def)
  then show "\<exists>d'. insertIntoQueue (RandomQueue (rnd mod RAND_MAX)) now (int (length d)) c d = Inr d' \<and> True \<and>
      d' = random_ins (rnd mod RAND_MAX) c d"
    by (simp add: RandomQueue_def random_ins_def advance_and_add_take Let_def)
qed (simp_all add: RandomQueue_def random_ins_mset)

text \<open>
  Insertion at a random position. For every value of \<open>rand()\<close> below \<open>RAND_MAX\<close> a customer is
  inserted into a random queue of any length without error, at a position of the list, keeping the
  order of the others; for \<open>rand() = RAND_MAX\<close>, which the C library may return, the iterator is
  advanced past the end of the list and \<open>NULL\<close> is dereferenced.
\<close>

theorem random_insertion_position:
  assumes "0 \<le> rnd" "rnd \<le> RAND_MAX" "int (length q) < INT_MAX"
  shows "insertIntoQueue (RandomQueue rnd) now (int (length q)) e q =
      (if rnd < RAND_MAX
       then Inr (take (nat (random_index rnd (int (length q)))) q @ e # drop (nat (random_index rnd (int (length q)))) q)
       else Inl NullDeref) \<and>
    (rnd < RAND_MAX \<longrightarrow> 0 \<le> random_index rnd (int (length q)) \<and> random_index rnd (int (length q)) \<le> int (length q))"
proof (cases "rnd < RAND_MAX")
  case True
  then show ?thesis
    using random_index_bounds [of rnd "int (length q)"] assms(1)
    by (simp add: RandomQueue_def advance_and_add_take nat_le_iff)
next
  case False
  then have rnd: "rnd = RAND_MAX" using assms(2) by simp
  have one: "f64 1 = 1" using fl_of_int [of 1 53] by simp
  have "f64 (of_int (int (length q) + 1)) = of_int (int (length q) + 1)"
    using assms(3) by (intro fl_of_int) (simp add: INT_MAX_def)
  then have "random_index RAND_MAX (int (length q)) = int (length q) + 1"
    using trunc_int_of_int [of "int (length q) + 1"] by (simp add: random_index_def RAND_MAX_def one)
  then show ?thesis using rnd advance_and_add_past [of q "length q + 1" e]
    by (simp add: RandomQueue_def nat_add_distrib)
qed

theorem random_insertion_position_witness:
  "insertIntoQueue (RandomQueue RAND_MAX) 0 0 (example_customer 1) [] = Inl NullDeref"
  using random_insertion_position [of RAND_MAX "[]" 0 "example_customer 1"] by (simp add: RAND_MAX_def INT_MAX_def)

end
