(* ===== verification/Cinqs_Sim.thy ===== *)
theory Cinqs_Sim
  imports Cinqs_Queues
begin

text \<open>
  The event-driven simulation of the queueing network library: the diary of events and the main
  loop (\<open>cinqs/tools/Diary.cpp\<close>, \<open>Sim.cpp\<close>), and networks of nodes and links
  (\<open>cinqs/network/Node.cpp\<close>, \<open>Link.cpp\<close>, \<open>ClassDependentBranch.cpp\<close>,
  \<open>InfiniteServerNode.cpp\<close>, \<open>ResourcePool.cpp\<close>, \<open>QueueingNode.cpp\<close>, \<open>Source.cpp\<close>,
  \<open>Sink.cpp\<close>, \<open>Network.cpp\<close>).

  The virtual methods \<open>enter\<close>, \<open>accept\<close> and \<open>forward\<close> are one definition each with a case per
  class of node. A node pointer is its index in the array of the network, \<open>Network::nullNode\<close> is
  \<open>None\<close>. Two reads of uninitialised memory are the error \<open>NullDeref\<close>: the field \<open>network\<close> of
  \<open>Link::earth\<close>, and the identifier of the null node, which belongs to no network. The values
  that the distribution samplers return are the argument \<open>smp\<close>, indexed by node and by the number
  of values drawn so far. The calls may not return (a cycle of nodes that only forward), so they
  are partial functions. Names, results and traces are left out.
\<close>

section \<open>Diary and main loop\<close>

record 'e event =
  invokeTime :: rat
  ev_kind :: 'e

record 'e sim =
  vtime :: rat
  diary :: "'e event list"

definition Diary_before :: "'e event \<Rightarrow> 'e event \<Rightarrow> bool" where
  "Diary_before x y = (invokeTime x \<le> invokeTime y)"

definition Sim_schedule :: "'e event \<Rightarrow> ('e, 'w) sim_scheme \<Rightarrow> ('e, 'w) sim_scheme" where
  "Sim_schedule e s = s\<lparr>diary := list_insertInOrder Diary_before e (diary s)\<rparr>"

definition Sim_deschedule :: "'e event \<Rightarrow> ('e, 'w) sim_scheme \<Rightarrow> ('e, 'w) sim_scheme res" where
  "Sim_deschedule e s =
     (if e \<in> set (diary s) then Inr (s\<lparr>diary := remove1 e (diary s)\<rparr>) else Inl NullDeref)"

text \<open>One round of the loop of \<open>go()\<close>; \<open>stop\<close> and \<open>invoke\<close> are the virtual methods of the
  simulation and of the event.\<close>

definition Sim_round ::
  "(('e, 'w) sim_scheme \<Rightarrow> bool) \<Rightarrow> ('e event \<Rightarrow> ('e, 'w) sim_scheme \<Rightarrow> ('e, 'w) sim_scheme res option) \<Rightarrow>
   ('e, 'w) sim_scheme \<Rightarrow> ('e, 'w) sim_scheme res option" where
  "Sim_round stop invoke s =
     (case diary s of
        [] \<Rightarrow> Some (Inl AssertFailed)
      | e # rest \<Rightarrow>
          let s1 = s\<lparr>diary := rest, vtime := invokeTime e\<rparr>
          in if \<not> stop s1 then invoke e s1 else Some (Inr s1))"

partial_function (option) Sim_go ::
  "(('e, 'w) sim_scheme \<Rightarrow> bool) \<Rightarrow> ('e event \<Rightarrow> ('e, 'w) sim_scheme \<Rightarrow> ('e, 'w) sim_scheme res option) \<Rightarrow>
   ('e, 'w) sim_scheme \<Rightarrow> ('e, 'w) sim_scheme res option" where
  "Sim_go stop invoke s =
     (if diary s \<noteq> [] \<and> \<not> stop s
      then Option.bind (Sim_round stop invoke s) (\<lambda>r.
        case r of Inl e \<Rightarrow> Some (Inl e) | Inr s' \<Rightarrow> Sim_go stop invoke s')
      else Some (Inr s))"

section \<open>Networks\<close>

datatype node_class = BaseNode | SinkNode | SourceNode | InfiniteServerNode | ResourcePoolNode | QueueingNode

datatype node_link = Earth | LinkTo nat | ClassDependentBranch "(int \<times> nat) list"

datatype net_event = EndServiceEvent customer nat | Arrival nat

record net_node =
  node_class :: node_class
  node_link :: node_link
  arrivals :: int
  node_queue :: "queue_base \<times> customer list"
  node_discipline :: "customer list discipline"
  node_resources :: resource
  losses :: int
  lossNode :: "nat option"

record network = "net_event sim" +
  net_nodes :: "net_node list"
  completions :: int
  responseTime :: measure
  customerId :: int
  draws :: nat

type_synonym sampler = "nat \<Rightarrow> nat \<Rightarrow> rat"

definition upd_node :: "nat \<Rightarrow> (net_node \<Rightarrow> net_node) \<Rightarrow> network \<Rightarrow> network" where
  "upd_node n f s = s\<lparr>net_nodes := (net_nodes s)[n := f (net_nodes s ! n)]\<rparr>"

definition draw :: "sampler \<Rightarrow> nat \<Rightarrow> network \<Rightarrow> network \<times> rat" where
  "draw smp n s = (s\<lparr>draws := draws s + 1\<rparr>, smp n (draws s))"

definition CinqsNode_arrive :: "nat \<Rightarrow> network \<Rightarrow> network" where
  "CinqsNode_arrive n = upd_node n (\<lambda>nd. nd\<lparr>arrivals := arrivals nd + 1\<rparr>)"

definition InfiniteServerNode_invokeService :: "nat \<Rightarrow> customer \<Rightarrow> network \<Rightarrow> network" where
  "InfiniteServerNode_invokeService n c s =
     Sim_schedule \<lparr>invokeTime = f64 (vtime s + serviceDemand c), ev_kind = EndServiceEvent c n\<rparr> s"

definition Sink_accept :: "customer \<Rightarrow> network \<Rightarrow> network" where
  "Sink_accept c s =
     s\<lparr>completions := completions s + 1,
       responseTime := CustomerMeasure_add (f64 (vtime s - arrivalTime c)) (responseTime s)\<rparr>"

fun ClassDependentBranch_nextNode :: "(int \<times> nat) list \<Rightarrow> customer \<Rightarrow> nat option" where
  "ClassDependentBranch_nextNode [] c = None"
| "ClassDependentBranch_nextNode ((cls, n) # rest) c =
     (if cls = cust_type c then Some n else ClassDependentBranch_nextNode rest c)"

definition Link_target :: "node_link \<Rightarrow> customer \<Rightarrow> nat res" where
  "Link_target l c =
     (case l of
        Earth \<Rightarrow> Inl NullDeref
      | LinkTo n \<Rightarrow> Inr n
      | ClassDependentBranch classes \<Rightarrow>
          (case ClassDependentBranch_nextNode classes c of None \<Rightarrow> Inl NullDeref | Some n \<Rightarrow> Inr n))"

text \<open>\<open>ResourcePool::accept\<close>, up to the call of \<open>lossNode->enter(c)\<close>: \<open>True\<close> if the customer is lost.\<close>

definition ResourcePool_accept :: "nat \<Rightarrow> customer \<Rightarrow> network \<Rightarrow> (network \<times> bool) res" where
  "ResourcePool_accept n c s =
     (let nd = net_nodes s ! n
      in if Resource_resourceIsAvailable (node_resources nd)
         then bindE (Resource_claim (vtime s) (node_resources nd)) (\<lambda>r.
           Inr (InfiniteServerNode_invokeService n c (upd_node n (\<lambda>nd. nd\<lparr>node_resources := r\<rparr>) s), False))
         else if Queue_canAccept (fst (node_queue nd))
         then bindE (Queue_enqueue (node_discipline nd) (vtime s) c (node_queue nd)) (\<lambda>q.
           Inr (upd_node n (\<lambda>nd. nd\<lparr>node_queue := q\<rparr>) s, False))
         else Inr (upd_node n (\<lambda>nd. nd\<lparr>losses := losses nd + 1\<rparr>) s, True))"

definition ResourcePool_releaseResource :: "nat \<Rightarrow> network \<Rightarrow> network res" where
  "ResourcePool_releaseResource n s =
     (let nd = net_nodes s ! n
      in if \<not> Queue_isEmpty (fst (node_queue nd))
         then bindE (Queue_dequeue (node_discipline nd) (vtime s) (node_queue nd)) (\<lambda>(q, c).
           Inr (InfiniteServerNode_invokeService n c (upd_node n (\<lambda>nd. nd\<lparr>node_queue := q\<rparr>) s)))
         else bindE (Resource_release (vtime s) (node_resources nd)) (\<lambda>r.
           Inr (upd_node n (\<lambda>nd. nd\<lparr>node_resources := r\<rparr>) s)))"

text \<open>\<open>Network::enterNode\<close> and the \<open>enter\<close> and \<open>accept\<close> methods of the node classes.\<close>

partial_function (option) enterNode :: "sampler \<Rightarrow> nat \<Rightarrow> customer \<Rightarrow> network \<Rightarrow> network res option" where
  "enterNode smp n c s =
     (case at_idx (net_nodes s) n of
        Inl e \<Rightarrow> Some (Inl e)
      | Inr nd \<Rightarrow>
          if node_class nd = SinkNode then Some (Inr (Sink_accept c (CinqsNode_arrive n s)))
          else if node_class nd = BaseNode \<or> node_class nd = SourceNode
          then case Link_target (node_link nd) c of
                 Inl e \<Rightarrow> Some (Inl e)
               | Inr m \<Rightarrow> enterNode smp m c (CinqsNode_arrive n s)
          else let (s1, d) = draw smp n s; c1 = c\<lparr>serviceDemand := d\<rparr>; s2 = CinqsNode_arrive n s1
               in if node_class nd = InfiniteServerNode
                  then Some (Inr (InfiniteServerNode_invokeService n c1 s2))
                  else case ResourcePool_accept n c1 s2 of
                         Inl e \<Rightarrow> Some (Inl e)
                       | Inr (s3, lost) \<Rightarrow>
                           if lost then case lossNode nd of None \<Rightarrow> Some (Inr s3) | Some m \<Rightarrow> enterNode smp m c1 s3
                           else Some (Inr s3))"

definition CinqsNode_forward :: "sampler \<Rightarrow> nat \<Rightarrow> customer \<Rightarrow> network \<Rightarrow> network res option" where
  "CinqsNode_forward smp n c s =
     (case bindE (at_idx (net_nodes s) n) (\<lambda>nd. Link_target (node_link nd) c) of
        Inl e \<Rightarrow> Some (Inl e)
      | Inr m \<Rightarrow> enterNode smp m c s)"

definition then_do :: "'a res option \<Rightarrow> ('a \<Rightarrow> 'b res option) \<Rightarrow> 'b res option" where
  "then_do r f = Option.bind r (\<lambda>x. case x of Inl e \<Rightarrow> Some (Inl e) | Inr a \<Rightarrow> f a)"

text \<open>\<open>EndServiceEvent::invoke\<close> calls \<open>node->forward(customer)\<close>.\<close>

definition node_forward :: "sampler \<Rightarrow> nat \<Rightarrow> customer \<Rightarrow> network \<Rightarrow> network res option" where
  "node_forward smp n c s =
     (case at_idx (net_nodes s) n of
        Inl e \<Rightarrow> Some (Inl e)
      | Inr nd \<Rightarrow>
          if node_class nd = QueueingNode
          then then_do (CinqsNode_forward smp n c s) (\<lambda>s1. Some (ResourcePool_releaseResource n s1))
          else CinqsNode_forward smp n c s)"

definition Customer_Customer :: "network \<Rightarrow> network \<times> customer" where
  "Customer_Customer s =
     (s\<lparr>customerId := customerId s + 1\<rparr>,
      \<lparr>cust_id = customerId s, cust_type = 0, cust_priority = 0, arrivalTime = vtime s,
       serviceDemand = 0, queueInsertionTime = 0\<rparr>)"

definition Source_injectCustomer :: "sampler \<Rightarrow> nat \<Rightarrow> network \<Rightarrow> network res option" where
  "Source_injectCustomer smp n s =
     (let (s1, c) = Customer_Customer s in CinqsNode_forward smp n c s1)"

primrec Source_injectCustomers :: "sampler \<Rightarrow> nat \<Rightarrow> nat \<Rightarrow> network \<Rightarrow> network res option" where
  "Source_injectCustomers smp n 0 s = Some (Inr s)"
| "Source_injectCustomers smp n (Suc k) s =
     then_do (Source_injectCustomer smp n s) (Source_injectCustomers smp n k)"

definition Source_schedule :: "sampler \<Rightarrow> nat \<Rightarrow> network \<Rightarrow> network" where
  "Source_schedule smp n s =
     (let (s1, d) = draw smp n s
      in Sim_schedule \<lparr>invokeTime = f64 (vtime s1 + d), ev_kind = Arrival n\<rparr> s1)"

definition Source_invoke :: "sampler \<Rightarrow> nat \<Rightarrow> network \<Rightarrow> network res option" where
  "Source_invoke smp n s =
     (let (s1, b) = draw smp n s
      in then_do (Source_injectCustomers smp n (nat (trunc_int b)) s1) (\<lambda>s2. Some (Inr (Source_schedule smp n s2))))"

definition Event_invoke :: "sampler \<Rightarrow> net_event event \<Rightarrow> network \<Rightarrow> network res option" where
  "Event_invoke smp e s =
     (case ev_kind e of
        EndServiceEvent c n \<Rightarrow> node_forward smp n c s
      | Arrival n \<Rightarrow> Source_invoke smp n s)"

section \<open>The diary\<close>

definition sched_ok :: "('e, 'w) sim_scheme \<Rightarrow> bool" where
  "sched_ok s \<longleftrightarrow>
     sorted_wrt Diary_before (diary s) \<and> 0 \<le> vtime s \<and> f64 (vtime s) = vtime s \<and>
     (\<forall>e \<in> set (diary s). vtime s \<le> invokeTime e \<and> f64 (invokeTime e) = invokeTime e)"

lemma insertInOrder_set: "set (list_insertInOrder before e xs) = insert e (set xs)"
  by (auto simp: list_insertInOrder_def dest: set_takeWhileD set_dropWhileD)
    (metis Un_iff set_append takeWhile_dropWhile_id)

lemma insertInOrder_sorted:
  "sorted_wrt Diary_before xs \<Longrightarrow> sorted_wrt Diary_before (list_insertInOrder Diary_before e xs)"
proof (induction xs)
  case (Cons x xs)
  show ?case
  proof (cases "Diary_before x e")
    case True
    then have "list_insertInOrder Diary_before e (x # xs) = x # list_insertInOrder Diary_before e xs"
      by (simp add: list_insertInOrder_def)
    then show ?thesis using Cons True by (simp add: insertInOrder_set)
  next
    case False
    then have "list_insertInOrder Diary_before e (x # xs) = e # x # xs"
      by (simp add: list_insertInOrder_def)
    moreover have "sorted_wrt Diary_before (e # x # xs)"
      using Cons.prems False by (auto simp: Diary_before_def [abs_def])
    ultimately show ?thesis by simp
  qed
qed (simp add: list_insertInOrder_def)

lemma schedule_ok:
  assumes "sched_ok s" "0 \<le> d"
  shows "sched_ok (Sim_schedule \<lparr>invokeTime = f64 (vtime s + d), ev_kind = k\<rparr> s)"
proof -
  have v: "0 \<le> vtime s" "f64 (vtime s) = vtime s" using assms(1) by (simp_all add: sched_ok_def)
  have "vtime s \<le> f64 (vtime s + d)" using fl_mono [of "vtime s" "vtime s + d" 53] v assms(2) by simp
  moreover have "f64 (f64 (vtime s + d)) = f64 (vtime s + d)" using v assms(2) by (intro fl_idem) simp_all
  ultimately show ?thesis
    using assms(1) by (simp add: sched_ok_def Sim_schedule_def insertInOrder_set insertInOrder_sorted)
qed

lemma next_event_ok:
  assumes "sched_ok s" "diary s = e # rest"
  shows "sched_ok (s\<lparr>diary := rest, vtime := invokeTime e\<rparr>)" and "vtime s \<le> invokeTime e"
  using assms by (auto simp: sched_ok_def Diary_before_def)

text \<open>The rounds that the main loop executes.\<close>

inductive sim_step ::
  "(('e, 'w) sim_scheme \<Rightarrow> bool) \<Rightarrow> ('e event \<Rightarrow> ('e, 'w) sim_scheme \<Rightarrow> ('e, 'w) sim_scheme res option) \<Rightarrow>
   ('e, 'w) sim_scheme \<Rightarrow> ('e, 'w) sim_scheme \<Rightarrow> bool"
  for stop invoke where
  "diary s \<noteq> [] \<Longrightarrow> \<not> stop s \<Longrightarrow> Sim_round stop invoke s = Some (Inr s') \<Longrightarrow> sim_step stop invoke s s'"

text \<open>What the main loop relies on: an event handler that keeps the invariant of the model and the
  clock, and fails only in the allowed ways.\<close>

locale event_handler =
  fixes invoke :: "'e event \<Rightarrow> ('e, 'w) sim_scheme \<Rightarrow> ('e, 'w) sim_scheme res option"
    and inv :: "('e, 'w) sim_scheme \<Rightarrow> bool"
    and allowed :: "vex_error \<Rightarrow> bool"
  assumes inv_sched: "inv s \<Longrightarrow> sched_ok s"
    and handled: "inv s \<Longrightarrow> diary s = e # rest \<Longrightarrow>
      invoke e (s\<lparr>diary := rest, vtime := invokeTime e\<rparr>) = Some r \<Longrightarrow>
      (case r of Inl er \<Rightarrow> allowed er | Inr s' \<Rightarrow> inv s' \<and> vtime s' = invokeTime e)"
begin

lemma round_ok:
  assumes "inv s" "diary s \<noteq> []" "Sim_round stop invoke s = Some r"
  shows "case r of Inl er \<Rightarrow> allowed er | Inr s' \<Rightarrow> (inv s' \<or> stop s') \<and> vtime s \<le> vtime s'"
proof -
  obtain e rest where d: "diary s = e # rest" using assms(2) by (cases "diary s") auto
  let ?s = "s\<lparr>diary := rest, vtime := invokeTime e\<rparr>"
  have le: "vtime s \<le> invokeTime e" using next_event_ok(2) [OF inv_sched [OF assms(1)] d] .
  show ?thesis
  proof (cases "stop ?s")
    case True
    then have "r = Inr ?s" using assms(3) d by (simp add: Sim_round_def)
    then show ?thesis using True le by simp
  next
    case False
    then have "invoke e ?s = Some r" using assms(3) d by (simp add: Sim_round_def)
    then show ?thesis using handled [OF assms(1) d] le by (auto split: sum.splits)
  qed
qed

lemma steps_ok:
  "(sim_step stop invoke)\<^sup>*\<^sup>* s s' \<Longrightarrow> inv s \<Longrightarrow> (inv s' \<or> stop s') \<and> vtime s \<le> vtime s'"
proof (induction rule: rtranclp_induct)
  case (step s1 s2)
  from step.hyps(2) have "diary s1 \<noteq> []" "\<not> stop s1" "Sim_round stop invoke s1 = Some (Inr s2)"
    by (auto elim: sim_step.cases)
  then show ?case using round_ok [of s1 stop "Inr s2"] step by auto
qed simp

definition go_result :: "(('e, 'w) sim_scheme \<Rightarrow> bool) \<Rightarrow> ('e, 'w) sim_scheme \<Rightarrow> ('e, 'w) sim_scheme res \<Rightarrow> bool" where
  "go_result stop s r =
     (case r of Inl er \<Rightarrow> allowed er
      | Inr s' \<Rightarrow> vtime s \<le> vtime s' \<and> (diary s' = [] \<or> stop s') \<and> (inv s' \<or> stop s'))"

lemma go_ok:
  assumes "Sim_go stop invoke s = Some r" "inv s \<or> stop s"
  shows "go_result stop s r"
proof -
  have "Sim_go stop0 invoke0 s = Some r \<Longrightarrow>
      stop0 = stop \<longrightarrow> invoke0 = invoke \<longrightarrow> inv s \<or> stop s \<longrightarrow> go_result stop s r" for stop0 invoke0 s r
  proof (rule Sim_go.raw_induct [where P = "\<lambda>stop0 invoke0 s r. stop0 = stop \<longrightarrow> invoke0 = invoke \<longrightarrow>
        inv s \<or> stop s \<longrightarrow> go_result stop s r", rotated], assumption, intro impI)
    fix go stop0 invoke0 s r
    assume ih: "\<And>stop0 invoke0 s r. go stop0 invoke0 s = Some r \<Longrightarrow>
        stop0 = stop \<longrightarrow> invoke0 = invoke \<longrightarrow> inv s \<or> stop s \<longrightarrow> go_result stop s r"
      and body: "(if diary s \<noteq> [] \<and> \<not> stop0 s
        then Option.bind (Sim_round stop0 invoke0 s) (\<lambda>r. case r of Inl e \<Rightarrow> Some (Inl e) | Inr s' \<Rightarrow> go stop0 invoke0 s')
        else Some (Inr s)) = Some r"
      and eqs: "stop0 = stop" "invoke0 = invoke" and s: "inv s \<or> stop s"
    show "go_result stop s r"
    proof (cases "diary s \<noteq> [] \<and> \<not> stop s")
      case True
      with s have inv: "inv s" by blast
      from True body eqs obtain r1 where r1: "Sim_round stop invoke s = Some r1"
        and rest: "(case r1 of Inl e \<Rightarrow> Some (Inl e) | Inr s' \<Rightarrow> go stop invoke s') = Some r"
        by (auto simp: bind_eq_Some_conv)
      note ok = round_ok [OF inv _ r1]
      show ?thesis
      proof (cases r1)
        case (Inl er)
        then show ?thesis using rest ok True by (auto simp: go_result_def)
      next
        case (Inr s1)
        then have "go stop invoke s1 = Some r" "inv s1 \<or> stop s1" "vtime s \<le> vtime s1"
          using rest ok True by auto
        then show ?thesis using ih [of stop invoke s1 r] by (auto simp: go_result_def split: sum.splits)
      qed
    next
      case False
      then show ?thesis using body eqs s by (auto simp: go_result_def)
    qed
  qed
  then show ?thesis using assms by blast
qed

end

section \<open>Invariant of a network\<close>

text \<open>The disciplines over a plain list.\<close>

definition list_discipline :: "customer list discipline \<Rightarrow> bool" where
  "list_discipline v \<longleftrightarrow> v = FIFOQueue \<or> v = LIFOQueue \<or> (\<exists>before. v = OrderedQueue before)"

lemma list_discipline_enqueue:
  assumes v: "list_discipline v" and q: "fifo.queue_inv q" and room: "Queue_canAccept (fst q)"
  shows "\<exists>q'. Queue_enqueue v now c q = Inr q' \<and> fifo.queue_inv q' \<and>
    mset (snd q') = add_mset (c\<lparr>queueInsertionTime := now\<rparr>) (mset (snd q))"
proof -
  have room': "int (length (snd q)) < capacity (fst q)"
    using q room by (simp add: fifo.queue_inv_def Queue_canAccept_def)
  from v consider "v = FIFOQueue" | "v = LIFOQueue" | before where "v = OrderedQueue before"
    unfolding list_discipline_def by blast
  then show ?thesis
  proof cases
    case 1
    then show ?thesis using fifo.enqueue_spec [OF q, where c = c and now = now] room' by auto
  next
    case 2
    then show ?thesis using lifo.enqueue_spec [OF q, where c = c and now = now] room' by auto
  next
    case 3
    then show ?thesis
      using ordered.enqueue_spec [OF q, where c = c and now = now and before = before] room'
      by (auto simp: line_before_mset)
  qed
qed

lemma list_discipline_dequeue:
  assumes v: "list_discipline v" and q: "fifo.queue_inv q" and ne: "\<not> Queue_isEmpty (fst q)"
  shows "\<exists>q' c. Queue_dequeue v now q = Inr (q', c) \<and> fifo.queue_inv q' \<and> mset (snd q) = add_mset c (mset (snd q'))"
proof -
  obtain x r where x: "snd q = x # r"
    using q ne by (cases "snd q") (auto simp: fifo.queue_inv_def Queue_isEmpty_def)
  from v consider "v = FIFOQueue" | "v = LIFOQueue" | before where "v = OrderedQueue before"
    unfolding list_discipline_def by blast
  then show ?thesis
  proof cases
    case 1
    then show ?thesis using fifo.dequeue_spec [OF q, where now = now] x by auto
  next
    case 2
    then show ?thesis using lifo.dequeue_spec [OF q, where now = now] x by auto
  next
    case 3
    then show ?thesis using ordered.dequeue_spec [OF q, where now = now and before = before] x by auto
  qed
qed

definition serves :: "nat \<Rightarrow> net_event event \<Rightarrow> bool" where
  "serves n e = (case ev_kind e of EndServiceEvent c m \<Rightarrow> m = n | Arrival m \<Rightarrow> False)"

definition in_service :: "nat \<Rightarrow> network \<Rightarrow> int" where
  "in_service n s = int (length (filter (serves n) (diary s)))"

text \<open>A node with \<open>srv\<close> customers in service. A resource is free only if nobody waits, and in a
  queueing node the resources in use are the customers in service.\<close>

definition node_inv :: "int \<Rightarrow> net_node \<Rightarrow> bool" where
  "node_inv srv nd \<longleftrightarrow>
     list_discipline (node_discipline nd) \<and> fifo.queue_inv (node_queue nd) \<and>
     (\<forall>c \<in> set (snd (node_queue nd)). 0 \<le> serviceDemand c) \<and>
     0 \<le> resources (node_resources nd) \<and>
     (0 < resources (node_resources nd) \<longrightarrow> snd (node_queue nd) = []) \<and>
     (node_class nd = QueueingNode \<longrightarrow>
        srv = nresources (node_resources nd) - resources (node_resources nd))"

text \<open>\<open>pend n\<close> services have ended at node \<open>n\<close> whose resource is not yet released.\<close>

definition net_inv :: "(nat \<Rightarrow> int) \<Rightarrow> network \<Rightarrow> bool" where
  "net_inv pend s \<longleftrightarrow> sched_ok s \<and>
     (\<forall>n < length (net_nodes s). node_inv (in_service n s + pend n) (net_nodes s ! n))"

definition same_net :: "network \<Rightarrow> network \<Rightarrow> bool" where
  "same_net s s' \<longleftrightarrow> vtime s' = vtime s \<and> map node_class (net_nodes s') = map node_class (net_nodes s)"

lemma same_net_trans: "same_net s t \<Longrightarrow> same_net t u \<Longrightarrow> same_net s u"
  by (simp add: same_net_def)

lemma same_net_refl [simp]: "same_net s s"
  by (simp add: same_net_def)

lemma same_net_length: "same_net s s' \<Longrightarrow> length (net_nodes s') = length (net_nodes s)"
  unfolding same_net_def by (metis length_map)

lemma same_net_class:
  assumes "same_net s s'" "n < length (net_nodes s)"
  shows "node_class (net_nodes s' ! n) = node_class (net_nodes s ! n)"
  using assms same_net_length [OF assms(1)] unfolding same_net_def by (metis nth_map)

lemma in_service_nonneg: "0 \<le> in_service n s"
  by (simp add: in_service_def)

lemma upd_node_simps [simp]:
  "diary (upd_node n f s) = diary s" "vtime (upd_node n f s) = vtime s"
  "length (net_nodes (upd_node n f s)) = length (net_nodes s)"
  "in_service m (upd_node n f s) = in_service m s"
  "sched_ok (upd_node n f s) = sched_ok s"
  by (simp_all add: upd_node_def in_service_def sched_ok_def)

lemma upd_node_nth:
  "m < length (net_nodes s) \<Longrightarrow>
   net_nodes (upd_node n f s) ! m = (if m = n then f (net_nodes s ! n) else net_nodes s ! m)"
  by (simp add: upd_node_def nth_list_update)

lemma upd_node_same:
  "(\<And>nd. node_class (f nd) = node_class nd) \<Longrightarrow> same_net s (upd_node n f s)"
  by (auto simp: same_net_def upd_node_def list_update_id map_update)
    (metis list_update_beyond list_update_id map_update not_le_imp_less nth_map length_map)

lemma filter_insertInOrder:
  "length (filter P (list_insertInOrder before e xs)) = length (filter P xs) + (if P e then 1 else 0)"
proof -
  have "length (filter P xs) = length (filter P (takeWhile (\<lambda>y. before y e) xs)) +
      length (filter P (dropWhile (\<lambda>y. before y e) xs))"
    by (metis filter_append length_append takeWhile_dropWhile_id)
  then show ?thesis by (simp add: list_insertInOrder_def)
qed

lemma invokeService_simps [simp]:
  "vtime (InfiniteServerNode_invokeService n c s) = vtime s"
  "net_nodes (InfiniteServerNode_invokeService n c s) = net_nodes s"
  "in_service m (InfiniteServerNode_invokeService n c s) = in_service m s + (if m = n then 1 else 0)"
  by (simp_all add: InfiniteServerNode_invokeService_def Sim_schedule_def in_service_def
      filter_insertInOrder serves_def)

lemma invokeService_sched: "sched_ok s \<Longrightarrow> 0 \<le> serviceDemand c \<Longrightarrow> sched_ok (InfiniteServerNode_invokeService n c s)"
  unfolding InfiniteServerNode_invokeService_def by (rule schedule_ok)

lemma invokeService_same [simp]: "same_net s (InfiniteServerNode_invokeService n c s)"
  by (simp add: same_net_def)

lemma net_inv_upd:
  assumes "net_inv pend s" "n < length (net_nodes s)"
    and "sched_ok s'" "length (net_nodes s') = length (net_nodes s)"
    and "\<And>m. m < length (net_nodes s) \<Longrightarrow> m \<noteq> n \<Longrightarrow> net_nodes s' ! m = net_nodes s ! m \<and> pend' m + in_service m s' = pend m + in_service m s"
    and "node_inv (in_service n s' + pend' n) (net_nodes s' ! n)"
  shows "net_inv pend' s'"
  unfolding net_inv_def
proof (intro conjI allI impI)
  fix m assume m: "m < length (net_nodes s')"
  show "node_inv (in_service m s' + pend' m) (net_nodes s' ! m)"
    using assms m by (cases "m = n") (auto simp: net_inv_def add.commute)
qed (rule assms(3))

lemma arrive_ok: "n < length (net_nodes s) \<Longrightarrow> net_inv pend s \<Longrightarrow> net_inv pend (CinqsNode_arrive n s)"
  unfolding CinqsNode_arrive_def
  by (rule net_inv_upd) (auto simp: upd_node_nth net_inv_def node_inv_def add.commute)

lemma arrive_same [simp]: "same_net s (CinqsNode_arrive n s)"
  unfolding CinqsNode_arrive_def by (rule upd_node_same) simp

lemma untouched_ok:
  assumes "diary s' = diary s" "vtime s' = vtime s" "net_nodes s' = net_nodes s"
  shows "net_inv pend s' = net_inv pend s" and "same_net s s'"
  using assms by (simp_all add: net_inv_def sched_ok_def in_service_def same_net_def)

lemma sink_ok [simp]:
  "net_inv pend (Sink_accept c s) = net_inv pend s" "same_net s (Sink_accept c s)"
  by (rule untouched_ok; simp add: Sink_accept_def)+

lemma draw_ok:
  assumes "draw smp n s = (s', d)"
  shows "net_inv pend s' = net_inv pend s" and "same_net s s'" and "d = smp n (draws s)"
proof -
  have *: "diary s' = diary s" "vtime s' = vtime s" "net_nodes s' = net_nodes s" "d = smp n (draws s)"
    using assms by (auto simp: draw_def)
  show "net_inv pend s' = net_inv pend s" "same_net s s'" by (rule untouched_ok [OF *(1-3)])+
  show "d = smp n (draws s)" by (rule *(4))
qed

lemma customer_ok:
  assumes "Customer_Customer s = (s', c)"
  shows "net_inv pend s' = net_inv pend s" and "same_net s s'"
proof -
  have *: "diary s' = diary s" "vtime s' = vtime s" "net_nodes s' = net_nodes s"
    using assms by (auto simp: Customer_Customer_def)
  show "net_inv pend s' = net_inv pend s" "same_net s s'" by (rule untouched_ok [OF *])+
qed

lemma accept_ok:
  assumes inv: "net_inv pend s" and n: "n < length (net_nodes s)" and d: "0 \<le> serviceDemand c"
  shows "\<exists>s' lost. ResourcePool_accept n c s = Inr (s', lost) \<and> net_inv pend s' \<and> same_net s s'"
proof -
  let ?nd = "net_nodes s ! n"
  have nd: "node_inv (in_service n s + pend n) ?nd" and sched: "sched_ok s" using inv n by (auto simp: net_inv_def)
  then have disc: "list_discipline (node_discipline ?nd)" "fifo.queue_inv (node_queue ?nd)" by (simp_all add: node_inv_def)
  show ?thesis
  proof (cases "0 < resources (node_resources ?nd)")
    case True
    obtain r where r: "Resource_claim (vtime s) (node_resources ?nd) = Inr r"
      "resources r = resources (node_resources ?nd) - 1" "nresources r = nresources (node_resources ?nd)"
      using True by (simp add: Resource_claim_cases)
    let ?s = "InfiniteServerNode_invokeService n c (upd_node n (\<lambda>nd. nd\<lparr>node_resources := r\<rparr>) s)"
    have "net_inv pend ?s"
      by (rule net_inv_upd [OF inv n])
        (use nd True r n sched d in \<open>auto simp: invokeService_sched upd_node_nth node_inv_def\<close>)
    moreover have "same_net s ?s" by (rule same_net_trans [OF upd_node_same invokeService_same]) simp
    ultimately show ?thesis
      using True r by (intro exI [of _ ?s] exI [of _ False]) (simp add: ResourcePool_accept_def Resource_resourceIsAvailable_def Let_def)
  next
    case False
    show ?thesis
    proof (cases "Queue_canAccept (fst (node_queue ?nd))")
      case True
      obtain q where q: "Queue_enqueue (node_discipline ?nd) (vtime s) c (node_queue ?nd) = Inr q" "fifo.queue_inv q"
        "mset (snd q) = add_mset (c\<lparr>queueInsertionTime := vtime s\<rparr>) (mset (snd (node_queue ?nd)))"
        using list_discipline_enqueue [OF disc True, of "vtime s" c] by blast
      have set: "set (snd q) = insert (c\<lparr>queueInsertionTime := vtime s\<rparr>) (set (snd (node_queue ?nd)))"
        using q(3) by (metis set_mset_add_mset_insert set_mset_mset)
      let ?s = "upd_node n (\<lambda>nd. nd\<lparr>node_queue := q\<rparr>) s"
      have "net_inv pend ?s"
        by (rule net_inv_upd [OF inv n]) (use nd False q(2) set n sched d in \<open>auto simp: upd_node_nth node_inv_def\<close>)
      moreover have "same_net s ?s" by (rule upd_node_same) simp
      ultimately show ?thesis
        using True False q
        by (intro exI [of _ ?s] exI [of _ False]) (simp add: ResourcePool_accept_def Resource_resourceIsAvailable_def Let_def)
    next
      case full: False
      let ?s = "upd_node n (\<lambda>nd. nd\<lparr>losses := losses nd + 1\<rparr>) s"
      have "net_inv pend ?s"
        by (rule net_inv_upd [OF inv n]) (use nd n sched in \<open>auto simp: upd_node_nth node_inv_def\<close>)
      moreover have "same_net s ?s" by (rule upd_node_same) simp
      ultimately show ?thesis
        using full False
        by (intro exI [of _ ?s] exI [of _ True]) (simp add: ResourcePool_accept_def Resource_resourceIsAvailable_def Let_def)
    qed
  qed
qed

lemma release_ok:
  assumes inv: "net_inv pend s" and n: "n < length (net_nodes s)" "node_class (net_nodes s ! n) = QueueingNode"
    and pend: "1 \<le> pend n"
  shows "\<exists>s'. ResourcePool_releaseResource n s = Inr s' \<and> net_inv (pend(n := pend n - 1)) s' \<and> same_net s s'"
proof -
  let ?nd = "net_nodes s ! n"
  have nd: "node_inv (in_service n s + pend n) ?nd" and sched: "sched_ok s" using inv n by (auto simp: net_inv_def)
  then have disc: "list_discipline (node_discipline ?nd)" "fifo.queue_inv (node_queue ?nd)" by (simp_all add: node_inv_def)
  show ?thesis
  proof (cases "Queue_isEmpty (fst (node_queue ?nd))")
    case False
    obtain q c where q: "Queue_dequeue (node_discipline ?nd) (vtime s) (node_queue ?nd) = Inr (q, c)" "fifo.queue_inv q"
      "mset (snd (node_queue ?nd)) = add_mset c (mset (snd q))"
      using list_discipline_dequeue [OF disc False, of "vtime s"] by blast
    have set: "set (snd (node_queue ?nd)) = insert c (set (snd q))"
      using q(3) by (metis set_mset_add_mset_insert set_mset_mset)
    then have busy: "resources (node_resources ?nd) = 0" using nd by (auto simp: node_inv_def)
    let ?s = "InfiniteServerNode_invokeService n c (upd_node n (\<lambda>nd. nd\<lparr>node_queue := q\<rparr>) s)"
    have "net_inv (pend(n := pend n - 1)) ?s"
      by (rule net_inv_upd [OF inv n(1)])
        (use nd q(2) set busy n sched in \<open>auto simp: invokeService_sched upd_node_nth node_inv_def\<close>)
    moreover have "same_net s ?s" by (rule same_net_trans [OF upd_node_same invokeService_same]) simp
    ultimately show ?thesis using False q by (simp add: ResourcePool_releaseResource_def Let_def)
  next
    case True
    then have empty: "snd (node_queue ?nd) = []" using nd by (simp add: node_inv_def fifo.queue_inv_def Queue_isEmpty_def)
    have "resources (node_resources ?nd) < nresources (node_resources ?nd)"
      using nd n(2) pend in_service_nonneg [of n s] by (simp add: node_inv_def)
    then obtain r where r: "Resource_release (vtime s) (node_resources ?nd) = Inr r"
      "resources r = resources (node_resources ?nd) + 1" "nresources r = nresources (node_resources ?nd)"
      by (simp add: Resource_release_cases)
    let ?s = "upd_node n (\<lambda>nd. nd\<lparr>node_resources := r\<rparr>) s"
    have "net_inv (pend(n := pend n - 1)) ?s"
      by (rule net_inv_upd [OF inv n(1)]) (use nd empty r n sched in \<open>auto simp: upd_node_nth node_inv_def\<close>)
    moreover have "same_net s ?s" by (rule upd_node_same) simp
    ultimately show ?thesis using True r by (simp add: ResourcePool_releaseResource_def Let_def)
  qed
qed

text \<open>What a call on a network may do: it keeps the invariant and the clock, or it runs into a node
  or link that does not exist.\<close>

definition wiring_error :: "vex_error \<Rightarrow> bool" where
  "wiring_error e \<longleftrightarrow> e = OutOfBounds \<or> e = NullDeref"

definition call_result :: "(nat \<Rightarrow> int) \<Rightarrow> network \<Rightarrow> network res \<Rightarrow> bool" where
  "call_result pend s r = (case r of Inl e \<Rightarrow> wiring_error e | Inr s' \<Rightarrow> net_inv pend s' \<and> same_net s s')"

lemma call_result_trans: "same_net s t \<Longrightarrow> call_result pend t r \<Longrightarrow> call_result pend s r"
  by (auto simp: call_result_def split: sum.splits intro: same_net_trans)

lemma Link_target_error: "Link_target l c = Inl e \<Longrightarrow> wiring_error e"
  by (auto simp: Link_target_def wiring_error_def split: node_link.splits option.splits)

lemma at_idx_error: "at_idx xs n = Inl e \<Longrightarrow> wiring_error e"
  by (auto simp: at_idx_def wiring_error_def split: if_splits)

lemma invokeService_other_ok:
  assumes "net_inv pend s" "n < length (net_nodes s)" "node_class (net_nodes s ! n) \<noteq> QueueingNode" "0 \<le> serviceDemand c"
  shows "net_inv pend (InfiniteServerNode_invokeService n c s)"
  by (rule net_inv_upd [OF assms(1,2)])
    (use assms in \<open>auto simp: invokeService_sched node_inv_def net_inv_def\<close>)

definition nonneg_samples :: "sampler \<Rightarrow> bool" where
  "nonneg_samples smp \<longleftrightarrow> (\<forall>n k. 0 \<le> smp n k)"

lemma enterNode_ok:
  assumes smp: "nonneg_samples smp"
  shows "enterNode smp n c s = Some r \<Longrightarrow> net_inv pend s \<Longrightarrow> call_result pend s r"
proof -
  have "enterNode smp0 n c s = Some r \<Longrightarrow> smp0 = smp \<longrightarrow> net_inv pend s \<longrightarrow> call_result pend s r" for smp0 n c s r
  proof (rule enterNode.raw_induct [where P = "\<lambda>smp0 n c s r. smp0 = smp \<longrightarrow> net_inv pend s \<longrightarrow> call_result pend s r", rotated],
      assumption, intro impI)
    fix enter smp0 n c s r
    assume ih: "\<And>smp0 n c s r. enter smp0 n c s = Some r \<Longrightarrow> smp0 = smp \<longrightarrow> net_inv pend s \<longrightarrow> call_result pend s r"
      and body: "(case at_idx (net_nodes s) n of
        Inl e \<Rightarrow> Some (Inl e)
      | Inr nd \<Rightarrow>
          if node_class nd = SinkNode then Some (Inr (Sink_accept c (CinqsNode_arrive n s)))
          else if node_class nd = BaseNode \<or> node_class nd = SourceNode
          then case Link_target (node_link nd) c of
                 Inl e \<Rightarrow> Some (Inl e)
               | Inr m \<Rightarrow> enter smp0 m c (CinqsNode_arrive n s)
          else let (s1, d) = draw smp0 n s; c1 = c\<lparr>serviceDemand := d\<rparr>; s2 = CinqsNode_arrive n s1
               in if node_class nd = InfiniteServerNode
                  then Some (Inr (InfiniteServerNode_invokeService n c1 s2))
                  else case ResourcePool_accept n c1 s2 of
                         Inl e \<Rightarrow> Some (Inl e)
                       | Inr (s3, lost) \<Rightarrow>
                           if lost then case lossNode nd of None \<Rightarrow> Some (Inr s3) | Some m \<Rightarrow> enter smp0 m c1 s3
                           else Some (Inr s3)) = Some r"
      and "smp0 = smp" and inv: "net_inv pend s"
    note ih = ih [of smp, simplified]
    show "call_result pend s r"
    proof (cases "n < length (net_nodes s)")
      case False
      then show ?thesis using body by (auto simp: at_idx_def call_result_def wiring_error_def)
    next
      case n: True
      let ?nd = "net_nodes s ! n" let ?a = "CinqsNode_arrive n s"
      obtain s1 d where dr: "draw smp n s = (s1, d)" by fastforce
      note body = body [unfolded at_idx_Inr [OF n] \<open>smp0 = smp\<close> dr, simplified]
      have a: "net_inv pend ?a" "same_net s ?a" using arrive_ok [OF n inv] by simp_all
      let ?c = "c\<lparr>serviceDemand := d\<rparr>" let ?b = "CinqsNode_arrive n s1"
      have s1: "net_inv pend s1" "same_net s s1" using draw_ok [OF dr] inv by simp_all
      have len: "n < length (net_nodes s1)" using same_net_length [OF s1(2)] n by simp
      have b: "net_inv pend ?b" "same_net s ?b"
        using arrive_ok [OF len s1(1)] same_net_trans [OF s1(2) arrive_same] by simp_all
      have lenb: "n < length (net_nodes ?b)" using same_net_length [OF b(2)] n by simp
      have d: "0 \<le> serviceDemand ?c" using draw_ok(3) [OF dr] smp by (simp add: nonneg_samples_def)
      have cls: "node_class (net_nodes ?b ! n) = node_class ?nd" using same_net_class [OF b(2) n] .
      consider (sink) "node_class ?nd = SinkNode"
        | (base) "node_class ?nd = BaseNode \<or> node_class ?nd = SourceNode"
        | (inf) "node_class ?nd = InfiniteServerNode"
        | (pool) "node_class ?nd = ResourcePoolNode \<or> node_class ?nd = QueueingNode"
        by (cases "node_class ?nd") auto
      then show ?thesis
      proof cases
        case sink
        then have r: "r = Inr (Sink_accept c ?a)" using body by simp
        have "same_net s (Sink_accept c ?a)" by (rule same_net_trans [OF a(2)]) simp
        then show ?thesis using a(1) by (simp add: r call_result_def)
      next
        case base
        show ?thesis
        proof (cases "Link_target (node_link ?nd) c")
          case (Inl e)
          then show ?thesis using base body Link_target_error by (auto simp: call_result_def)
        next
          case (Inr m)
          then have "enter smp m c ?a = Some r" using base body by auto
          then show ?thesis using ih a call_result_trans by blast
        qed
      next
        case inf
        then have r: "r = Inr (InfiniteServerNode_invokeService n ?c ?b)" using body by simp
        have "same_net s (InfiniteServerNode_invokeService n ?c ?b)" by (rule same_net_trans [OF b(2)]) simp
        then show ?thesis
          using invokeService_other_ok [OF b(1) lenb _ d] inf cls by (simp add: r call_result_def)
      next
        case pool
        obtain s3 lost where acc: "ResourcePool_accept n ?c ?b = Inr (s3, lost)" "net_inv pend s3" "same_net ?b s3"
          using accept_ok [OF b(1) lenb d] by blast
        have s3: "same_net s s3" using same_net_trans [OF b(2) acc(3)] .
        have eq: "(if lost then case lossNode ?nd of None \<Rightarrow> Some (Inr s3) | Some m \<Rightarrow> enter smp m ?c s3
            else Some (Inr s3)) = Some r"
          using pool body acc(1) by auto
        show ?thesis
        proof (cases "r = Inr s3")
          case True
          then show ?thesis using acc(2) s3 by (simp add: call_result_def)
        next
          case False
          then obtain m where "enter smp m ?c s3 = Some r" using eq by (auto split: if_splits option.splits)
          then show ?thesis using ih acc(2) call_result_trans [OF s3] by blast
        qed
      qed
    qed
  qed
  then show "enterNode smp n c s = Some r \<Longrightarrow> net_inv pend s \<Longrightarrow> call_result pend s r" by blast
qed

lemma forward_ok:
  assumes smp: "nonneg_samples smp" and r: "CinqsNode_forward smp n c s = Some r" and inv: "net_inv pend s"
  shows "call_result pend s r"
proof (cases "bindE (at_idx (net_nodes s) n) (\<lambda>nd. Link_target (node_link nd) c)")
  case (Inl e)
  then have "wiring_error e"
    by (cases "at_idx (net_nodes s) n") (auto dest: at_idx_error Link_target_error)
  then show ?thesis using r Inl by (auto simp: CinqsNode_forward_def call_result_def)
next
  case (Inr m)
  then have "enterNode smp m c s = Some r" using r by (simp add: CinqsNode_forward_def)
  then show ?thesis using enterNode_ok [OF smp] inv by blast
qed

lemma then_do_ok:
  assumes r: "then_do p f = Some r"
    and p: "\<And>q. p = Some q \<Longrightarrow> call_result pend s q"
    and f: "\<And>s1 r1. same_net s s1 \<Longrightarrow> net_inv pend s1 \<Longrightarrow> f s1 = Some r1 \<Longrightarrow> call_result pend' s1 r1"
  shows "call_result pend' s r"
proof -
  obtain q where q: "p = Some q" using r by (auto simp: then_do_def bind_eq_Some_conv)
  show ?thesis
  proof (cases q)
    case (Inl e)
    then show ?thesis using r q p by (auto simp: then_do_def call_result_def)
  next
    case (Inr s1)
    then have "same_net s s1" "net_inv pend s1" "f s1 = Some r"
      using r q p by (auto simp: then_do_def call_result_def)
    then show ?thesis using f call_result_trans by blast
  qed
qed

lemma pend_irrelevant:
  assumes "net_inv pend s" "n < length (net_nodes s) \<longrightarrow> node_class (net_nodes s ! n) \<noteq> QueueingNode"
    and "\<And>m. m \<noteq> n \<Longrightarrow> pend' m = pend m"
  shows "net_inv pend' s"
proof -
  have "node_inv (in_service m s + pend' m) (net_nodes s ! m)" if "m < length (net_nodes s)" for m
    using assms that by (cases "m = n") (auto simp: net_inv_def node_inv_def)
  then show ?thesis using assms(1) by (simp add: net_inv_def)
qed

lemma node_forward_ok:
  assumes smp: "nonneg_samples smp" and r: "node_forward smp n c s = Some r"
    and inv: "net_inv (\<lambda>m. if m = n then 1 else 0) s"
  shows "call_result (\<lambda>_. 0) s r"
proof (cases "n < length (net_nodes s) \<and> node_class (net_nodes s ! n) = QueueingNode")
  case True
  then have td: "then_do (CinqsNode_forward smp n c s) (\<lambda>s1. Some (ResourcePool_releaseResource n s1)) = Some r"
    using r by (simp add: node_forward_def)
  show ?thesis
  proof (rule then_do_ok [OF td])
    show "call_result (\<lambda>m. if m = n then 1 else 0) s q" if "CinqsNode_forward smp n c s = Some q" for q
      using forward_ok [OF smp that inv] .
    fix s1 r1
    assume same: "same_net s s1" and inv1: "net_inv (\<lambda>m. if m = n then 1 else 0) s1"
      and r1: "Some (ResourcePool_releaseResource n s1) = Some r1"
    have n1: "n < length (net_nodes s1)" "node_class (net_nodes s1 ! n) = QueueingNode"
      using True same_net_length [OF same] same_net_class [OF same] by simp_all
    have "(\<lambda>m. if m = n then 1 else 0)(n := (if n = n then 1 else 0) - 1) = (\<lambda>_. 0 :: int)" by auto
    then show "call_result (\<lambda>_. 0) s1 r1"
      using release_ok [OF inv1 n1] r1 by (auto simp: call_result_def)
  qed
next
  case False
  then have inv0: "net_inv (\<lambda>_. 0) s" using pend_irrelevant [OF inv, of n "\<lambda>_. 0"] by auto
  show ?thesis
  proof (cases "n < length (net_nodes s)")
    case True
    then have "CinqsNode_forward smp n c s = Some r" using r False by (simp add: node_forward_def)
    then show ?thesis by (rule forward_ok [OF smp _ inv0])
  next
    case False
    then have "r = Inl OutOfBounds" using r by (simp add: node_forward_def at_idx_def)
    then show ?thesis by (simp add: call_result_def wiring_error_def)
  qed
qed

lemma inject_ok:
  assumes smp: "nonneg_samples smp"
  shows "Source_injectCustomers smp n k s = Some r \<Longrightarrow> net_inv pend s \<Longrightarrow> call_result pend s r"
proof (induction k arbitrary: s r)
  case (Suc k)
  have td: "then_do (Source_injectCustomer smp n s) (Source_injectCustomers smp n k) = Some r"
    using Suc.prems(1) by simp
  show ?case
  proof (rule then_do_ok [OF td])
    fix q assume q: "Source_injectCustomer smp n s = Some q"
    obtain s1 c where c: "Customer_Customer s = (s1, c)" by fastforce
    have "call_result pend s1 q"
      using q c forward_ok [OF smp] customer_ok(1) [OF c] Suc.prems(2) by (simp add: Source_injectCustomer_def)
    then show "call_result pend s q" by (rule call_result_trans [OF customer_ok(2) [OF c]])
  qed (use Suc.IH in blast)
qed (simp add: call_result_def)

lemma source_schedule_ok:
  assumes smp: "nonneg_samples smp" and inv: "net_inv pend s"
  shows "net_inv pend (Source_schedule smp n s) \<and> same_net s (Source_schedule smp n s)"
proof -
  obtain s1 d where dr: "draw smp n s = (s1, d)" by fastforce
  let ?s = "Sim_schedule \<lparr>invokeTime = f64 (vtime s1 + d), ev_kind = Arrival n\<rparr> s1"
  have s1: "net_inv pend s1" "same_net s s1" "0 \<le> d" using draw_ok [OF dr] inv smp by (simp_all add: nonneg_samples_def)
  have "sched_ok ?s" using s1 by (intro schedule_ok) (simp_all add: net_inv_def)
  moreover have "net_nodes ?s = net_nodes s1" "vtime ?s = vtime s1" "in_service m ?s = in_service m s1" for m
    by (simp_all add: Sim_schedule_def in_service_def filter_insertInOrder serves_def)
  ultimately have "net_inv pend ?s" "same_net s1 ?s" using s1(1) by (simp_all add: net_inv_def same_net_def)
  then show ?thesis using same_net_trans [OF s1(2)] by (simp add: Source_schedule_def dr)
qed

lemma source_ok:
  assumes smp: "nonneg_samples smp" and r: "Source_invoke smp n s = Some r" and inv: "net_inv pend s"
  shows "call_result pend s r"
proof -
  obtain s1 b where dr: "draw smp n s = (s1, b)" by fastforce
  have td: "then_do (Source_injectCustomers smp n (nat (trunc_int b)) s1) (\<lambda>s2. Some (Inr (Source_schedule smp n s2))) = Some r"
    using r by (simp add: Source_invoke_def dr)
  have "call_result pend s1 r"
  proof (rule then_do_ok [OF td])
    show "call_result pend s1 q" if "Source_injectCustomers smp n (nat (trunc_int b)) s1 = Some q" for q
      using inject_ok [OF smp that] draw_ok(1) [OF dr] inv by simp
    show "call_result pend s2 r2" if "net_inv pend s2" "Some (Inr (Source_schedule smp n s2)) = Some r2" for s2 r2
      using source_schedule_ok [OF smp that(1)] that(2) by (auto simp: call_result_def)
  qed
  then show ?thesis by (rule call_result_trans [OF draw_ok(2) [OF dr]])
qed

lemma event_ok:
  assumes smp: "nonneg_samples smp" and inv: "net_inv (\<lambda>_. 0) s" and d: "diary s = e # rest"
    and r: "Event_invoke smp e (s\<lparr>diary := rest, vtime := invokeTime e\<rparr>) = Some r"
  shows "call_result (\<lambda>_. 0) (s\<lparr>diary := rest, vtime := invokeTime e\<rparr>) r"
proof -
  let ?s = "s\<lparr>diary := rest, vtime := invokeTime e\<rparr>"
  have sched: "sched_ok ?s" using next_event_ok(1) [OF _ d] inv by (simp add: net_inv_def)
  have srv: "in_service m s = in_service m ?s + (if serves m e then 1 else 0)" for m
    by (simp add: in_service_def d)
  have inv1: "net_inv (\<lambda>m. if serves m e then 1 else 0) ?s"
    using inv sched srv by (simp add: net_inv_def)
  show ?thesis
  proof (cases "ev_kind e")
    case (EndServiceEvent c n)
    then have "(\<lambda>m. if serves m e then 1 else 0) = (\<lambda>m. if m = n then 1 else (0::int))"
      by (auto simp: serves_def)
    then show ?thesis
      using node_forward_ok [OF smp, of n c ?s r] inv1 r EndServiceEvent by (simp add: Event_invoke_def)
  next
    case (Arrival n)
    then have "(\<lambda>m. if serves m e then 1 else 0) = (\<lambda>m. 0 :: int)" by (auto simp: serves_def)
    then show ?thesis
      using source_ok [OF smp, of n ?s r "\<lambda>_. 0"] inv1 r Arrival by (simp add: Event_invoke_def)
  qed
qed

text \<open>The samplers with non-negative values are those of the form \<open>\<bar>smp n k\<bar>\<close>.\<close>

interpretation net_events: event_handler "Event_invoke (\<lambda>n k. \<bar>smp n k\<bar>)" "net_inv (\<lambda>_. 0)" wiring_error for smp
proof unfold_locales
  show "sched_ok s" if "net_inv (\<lambda>_. 0) s" for s :: network using that by (simp add: net_inv_def)
  fix s :: network and e rest r
  assume "net_inv (\<lambda>_. 0) s" "diary s = e # rest"
    "Event_invoke (\<lambda>n k. \<bar>smp n k\<bar>) e (s\<lparr>diary := rest, vtime := invokeTime e\<rparr>) = Some r"
  moreover have "nonneg_samples (\<lambda>n k. \<bar>smp n k\<bar>)" by (simp add: nonneg_samples_def)
  ultimately have "call_result (\<lambda>_. 0) (s\<lparr>diary := rest, vtime := invokeTime e\<rparr>) r" by (intro event_ok)
  then show "case r of Inl er \<Rightarrow> wiring_error er
      | Inr s' \<Rightarrow> net_inv (\<lambda>_. 0) s' \<and> vtime s' = invokeTime e"
    by (auto simp: call_result_def same_net_def split: sum.splits)
qed

section \<open>Simulations\<close>

text \<open>Newly built nodes and networks: the constructors of \<open>ResourcePool\<close> (the fields of the other
  node classes are a part of it) and of \<open>Network\<close>; building a \<open>Source\<close> schedules its first arrival.\<close>

definition new_node ::
  "node_class \<Rightarrow> node_link \<Rightarrow> customer list discipline \<Rightarrow> int \<Rightarrow> int \<Rightarrow> nat option \<Rightarrow> net_node" where
  "new_node cls lnk v cap n loss =
     \<lparr>node_class = cls, node_link = lnk, arrivals = 0, node_queue = (Queue_Queue cap, []),
      node_discipline = v, node_resources = Resource_Resource n, losses = 0, lossNode = loss\<rparr>"

definition Network_Network :: "net_node list \<Rightarrow> network" where
  "Network_Network ns =
     \<lparr>vtime = 0, diary = [], net_nodes = ns, completions = 0, responseTime = Measure_Measure,
      customerId = 0, draws = 0\<rparr>"

definition built_node :: "net_node \<Rightarrow> bool" where
  "built_node nd \<longleftrightarrow> (\<exists>cls lnk v cap n loss.
     list_discipline v \<and> cap \<le> INT_MAX \<and> 0 \<le> n \<and> nd = new_node cls lnk v cap n loss)"

definition built_network :: "sampler \<Rightarrow> net_node list \<Rightarrow> nat list \<Rightarrow> network" where
  "built_network smp ns sources = fold (Source_schedule smp) sources (Network_Network ns)"

lemma built_network_ok:
  assumes "\<forall>nd \<in> set ns. built_node nd" "nonneg_samples smp"
  shows "net_inv (\<lambda>_. 0) (built_network smp ns sources)"
    and "same_net (Network_Network ns) (built_network smp ns sources)"
proof -
  have "node_inv 0 (ns ! n)" if "n < length ns" for n
  proof -
    have "built_node (ns ! n)" using assms(1) that by simp
    then show ?thesis
      by (auto simp: built_node_def node_inv_def new_node_def fifo.queue_inv_def Queue_Queue_def Resource_Resource_def)
  qed
  then have init: "net_inv (\<lambda>_. 0) (Network_Network ns)"
    by (simp add: net_inv_def Network_Network_def sched_ok_def in_service_def)
  have "net_inv (\<lambda>_. 0) (fold (Source_schedule smp) sources s) \<and> same_net s (fold (Source_schedule smp) sources s)"
    if "net_inv (\<lambda>_. 0) s" for s
    using that
  proof (induction sources arbitrary: s)
    case (Cons n sources)
    have "net_inv (\<lambda>_. 0) (Source_schedule smp n s)" "same_net s (Source_schedule smp n s)"
      using source_schedule_ok [OF assms(2) Cons.prems] by simp_all
    then show ?case using Cons.IH [of "Source_schedule smp n s"] same_net_trans by fastforce
  qed simp
  then show "net_inv (\<lambda>_. 0) (built_network smp ns sources)"
    "same_net (Network_Network ns) (built_network smp ns sources)"
    using init by (simp_all add: built_network_def)
qed

lemma abs_samples: "nonneg_samples smp \<Longrightarrow> (\<lambda>n k. \<bar>smp n k\<bar>) = smp"
  by (simp add: nonneg_samples_def fun_eq_iff)

text \<open>The servers of a queueing node are used and accounted for.\<close>

definition work_conserving :: "network \<Rightarrow> bool" where
  "work_conserving s \<longleftrightarrow> (\<forall>n < length (net_nodes s). node_class (net_nodes s ! n) = QueueingNode \<longrightarrow>
     (let nd = net_nodes s ! n in
      0 \<le> resources (node_resources nd) \<and>
      in_service n s = nresources (node_resources nd) - resources (node_resources nd) \<and>
      (0 < resources (node_resources nd) \<longrightarrow> snd (node_queue nd) = []) \<and>
      pop (fst (node_queue nd)) = int (length (snd (node_queue nd)))))"

lemma net_inv_work_conserving: "net_inv (\<lambda>_. 0) s \<Longrightarrow> work_conserving s"
  by (auto simp: net_inv_def work_conserving_def node_inv_def fifo.queue_inv_def Let_def)

text \<open>A source, a queueing node with one server and a sink; every sampled value is 1.\<close>

definition example_nodes :: "net_node list" where
  "example_nodes =
     [new_node SourceNode (LinkTo 1) FIFOQueue INT_MAX 1 None,
      new_node QueueingNode (LinkTo 2) FIFOQueue INT_MAX 1 None,
      new_node SinkNode Earth FIFOQueue INT_MAX 1 None]"

definition example_samples :: sampler where
  "example_samples n k = 1"

lemma example_built: "\<forall>nd \<in> set example_nodes. built_node nd"
proof -
  have "built_node (new_node cls lnk FIFOQueue INT_MAX 1 None)" for cls lnk
    unfolding built_node_def
    by (intro exI [of _ cls] exI [of _ lnk] exI [of _ FIFOQueue] exI [of _ INT_MAX] exI [of _ 1] exI [of _ None])
      (simp add: list_discipline_def)
  then show ?thesis by (simp add: example_nodes_def)
qed

lemma example_nonneg: "nonneg_samples example_samples"
  by (simp add: nonneg_samples_def example_samples_def)

text \<open>
  C22. Queueing networks conserve work, in the order of time. In a network built from its
  constructors, with any wiring, any FIFO, LIFO or ordered queues, any sampled non-negative service
  and arrival times and any stopping condition, after every round of the main loop that does not
  stop it: in each queueing node the resources in use are exactly the customers in service, no
  customer waits while a resource is free, and the population counter is the number of waiting
  customers. The virtual time never decreases, and a round can fail only at a missing node or link,
  never at a check of a queue or a resource.
\<close>

theorem queueing_network_work_conserving:
  assumes "\<forall>nd \<in> set ns. built_node nd" "nonneg_samples smp"
    and "(sim_step stop (Event_invoke smp))\<^sup>*\<^sup>* (built_network smp ns sources) s" "\<not> stop s"
  shows "work_conserving s \<and> 0 \<le> vtime s \<and> sorted_wrt Diary_before (diary s) \<and>
    (\<forall>r. diary s \<noteq> [] \<longrightarrow> Sim_round stop (Event_invoke smp) s = Some r \<longrightarrow>
      (case r of Inl e \<Rightarrow> e = OutOfBounds \<or> e = NullDeref | Inr s' \<Rightarrow> vtime s \<le> vtime s'))"
proof -
  note init = built_network_ok [OF assms(1,2), of sources]
  note abs = abs_samples [OF assms(2)]
  have "vtime (built_network smp ns sources) = 0" using init(2) by (simp add: same_net_def Network_Network_def)
  then have inv: "net_inv (\<lambda>_. 0) s" "0 \<le> vtime s"
    using net_events.steps_ok [of stop smp, unfolded abs, OF assms(3) init(1)] assms(4) by auto
  moreover have "case r of Inl e \<Rightarrow> e = OutOfBounds \<or> e = NullDeref | Inr s' \<Rightarrow> vtime s \<le> vtime s'"
    if "diary s \<noteq> []" "Sim_round stop (Event_invoke smp) s = Some r" for r
    using net_events.round_ok [of s stop smp, unfolded abs, OF inv(1) that]
    by (auto simp: wiring_error_def split: sum.splits)
  ultimately show ?thesis using net_inv_work_conserving by (simp add: net_inv_def sched_ok_def)
qed

lemma f64_small [simp]: "f64 1 = 1" "f64 2 = 2" "f64 3 = 3" "f64 4 = 4"
  using fl_of_int [of 1 53] fl_of_int [of 2 53] fl_of_int [of 3 53] fl_of_int [of 4 53] by simp_all

lemmas example_defs = example_nodes_def example_samples_def new_node_def Network_Network_def built_network_def
  Source_schedule_def draw_def Sim_schedule_def list_insertInOrder_def Diary_before_def Sim_round_def
  Event_invoke_def Source_invoke_def Source_injectCustomer_def Customer_Customer_def CinqsNode_forward_def
  Link_target_def node_forward_def then_do_def CinqsNode_arrive_def upd_node_def Sink_accept_def
  InfiniteServerNode_invokeService_def ResourcePool_accept_def ResourcePool_releaseResource_def
  Resource_resourceIsAvailable_def Resource_claim_cases Resource_release_cases Resource_Resource_def
  Queue_isEmpty_def Queue_Queue_def Let_def at_idx_def trunc_int_def

lemma example_round:
  "\<exists>s. Sim_round (\<lambda>_. False) (Event_invoke example_samples) (built_network example_samples example_nodes [0]) =
     Some (Inr s) \<and> diary s \<noteq> []"
  by (simp add: example_defs enterNode.simps)

theorem queueing_network_work_conserving_witness:
  "\<exists>s. (sim_step (\<lambda>_. False) (Event_invoke example_samples))\<^sup>*\<^sup>*
         (built_network example_samples example_nodes [0]) s \<and> diary s \<noteq> [] \<and> work_conserving s"
proof -
  let ?s = "built_network example_samples example_nodes [0]"
  obtain s where "Sim_round (\<lambda>_. False) (Event_invoke example_samples) ?s = Some (Inr s)"
    and s: "diary s \<noteq> []" using example_round by blast
  moreover have "diary ?s \<noteq> []" by (simp add: example_defs)
  ultimately have "sim_step (\<lambda>_. False) (Event_invoke example_samples) ?s s" by (intro sim_step.intros) simp_all
  then have "(sim_step (\<lambda>_. False) (Event_invoke example_samples))\<^sup>*\<^sup>* ?s s" by blast
  from queueing_network_work_conserving [OF example_built example_nonneg this] this s show ?thesis by blast
qed

text \<open>
  A simulation whose diary runs empty leaves nobody behind: if the main loop on a built network
  returns without an error and the stopping condition does not hold, then every resource of every
  queueing node is free, and no customer waits at a node with at least one resource. Otherwise it
  ends because the stopping condition holds; an error is only ever a missing node or link.
\<close>

theorem exhausted_simulation_leaves_no_customer:
  assumes "\<forall>nd \<in> set ns. built_node nd" "nonneg_samples smp"
    and "Sim_go stop (Event_invoke smp) (built_network smp ns sources) = Some r"
  shows "case r of
      Inl e \<Rightarrow> e = OutOfBounds \<or> e = NullDeref
    | Inr s \<Rightarrow> stop s \<or> (\<forall>n < length (net_nodes s). node_class (net_nodes s ! n) = QueueingNode \<longrightarrow>
        resources (node_resources (net_nodes s ! n)) = nresources (node_resources (net_nodes s ! n)) \<and>
        (0 < nresources (node_resources (net_nodes s ! n)) \<longrightarrow> snd (node_queue (net_nodes s ! n)) = []))"
proof -
  note abs = abs_samples [OF assms(2)]
  have go: "net_events.go_result stop (built_network smp ns sources) r"
    using net_events.go_ok [of stop smp, unfolded abs, OF assms(3)] built_network_ok(1) [OF assms(1,2)] by blast
  have "\<forall>n < length (net_nodes s). node_class (net_nodes s ! n) = QueueingNode \<longrightarrow>
        resources (node_resources (net_nodes s ! n)) = nresources (node_resources (net_nodes s ! n)) \<and>
        (0 < nresources (node_resources (net_nodes s ! n)) \<longrightarrow> snd (node_queue (net_nodes s ! n)) = [])"
    if "net_inv (\<lambda>_. 0) s" "diary s = []" for s
    using net_inv_work_conserving [OF that(1)] that(2)
    by (auto simp: work_conserving_def in_service_def Let_def)
  then show ?thesis
    using go by (auto simp: net_events.go_result_def wiring_error_def split: sum.splits)
qed

theorem exhausted_simulation_leaves_no_customer_witness:
  "\<exists>r. Sim_go (\<lambda>s. completions s \<ge> 2) (Event_invoke example_samples)
         (built_network example_samples example_nodes [0]) = Some r \<and>
     (case r of Inl e \<Rightarrow> e = OutOfBounds \<or> e = NullDeref
      | Inr s \<Rightarrow> completions s \<ge> 2 \<or> resources (node_resources (net_nodes s ! 1)) = nresources (node_resources (net_nodes s ! 1))
          \<or> node_class (net_nodes s ! 1) \<noteq> QueueingNode \<or> length (net_nodes s) \<le> 1)"
proof -
  have "Sim_go (\<lambda>s. completions s \<ge> 2) (Event_invoke example_samples)
         (built_network example_samples example_nodes [0]) \<noteq> None"
    by (simp add: example_defs enterNode.simps Sim_go.simps)
  then obtain r where r: "Sim_go (\<lambda>s. completions s \<ge> 2) (Event_invoke example_samples)
         (built_network example_samples example_nodes [0]) = Some r" by blast
  from exhausted_simulation_leaves_no_customer [OF example_built example_nonneg r] r
  show ?thesis by (fastforce simp: not_le split: sum.splits)
qed

end
