(* ===== verification/Cinqs_Sharing.thy ===== *)
theory Cinqs_Sharing
  imports Cinqs_Sim
begin

text \<open>
  Servers that customers share or are preempted from: \<open>cinqs/network/ProcessorSharingNode\<close>,
  \<open>PreemptiveResumeNode\<close>, \<open>PreemptiveRestartNode\<close>, \<open>OrderedQueueEntry\<close>, \<open>BoxedQueue\<close>.

  One node and the diary of its events. The arrivals are events that carry the service demand which the
  delay of the node samples on entry; \<open>route\<close> says of a customer that leaves whether the link of the node
  leads back to it at once, and with which demand, and the customers that go elsewhere are collected with
  their time. An entry of the queue of the sharing node is a customer of its own, and what the subclass
  adds to it is found in \<open>queueEntries\<close> under its identifier. The arithmetic of the nodes rounds with
  \<open>rnd\<close>, which is \<open>f64\<close> in the program. A division by zero of \<open>double\<close>s is an error, and so is the read of
  the identifier of \<open>Network::nullNode\<close>, which is not initialised.

  The theorems take exact arithmetic, \<open>rnd x = x\<close>, for the equivalence with servers that serve all customers
  continuously, and \<open>f64\<close> for what rounding breaks.
\<close>

section \<open>Events and nodes\<close>

datatype service_event = Arrive customer rat | EndService customer | EndOfService

record server_node = "service_event sim" +
  srv_arrivals :: int
  srv_queue :: "queue_base \<times> customer list"
  srv_resources :: resource
  departed :: "(rat \<times> customer) list"

record ps_node = server_node +
  queueEntries :: "int \<Rightarrow> (customer \<times> rat) option"
  nextEntryId :: int
  localTime :: rat
  timeOfLastSchedule :: rat
  nextEndServiceEvent :: "service_event event option"

record preemptive_node = server_node +
  lastEndServiceEvent :: "service_event event option"

definition server_claim :: "'w server_node_scheme \<Rightarrow> 'w server_node_scheme res" where
  "server_claim s = bindE (Resource_claim (vtime s) (srv_resources s)) (\<lambda>r. Inr (s\<lparr>srv_resources := r\<rparr>))"

definition server_release :: "'w server_node_scheme \<Rightarrow> 'w server_node_scheme res" where
  "server_release s = bindE (Resource_release (vtime s) (srv_resources s)) (\<lambda>r. Inr (s\<lparr>srv_resources := r\<rparr>))"

definition deschedule_pointer ::
  "service_event event option \<Rightarrow> 'w server_node_scheme \<Rightarrow> (service_event event \<times> 'w server_node_scheme) res" where
  "deschedule_pointer p s =
     (case p of None \<Rightarrow> Inl NullDeref | Some e \<Rightarrow> bindE (Sim_deschedule e s) (\<lambda>s1. Inr (e, s1)))"

definition server_enter ::
  "(customer \<Rightarrow> 'w server_node_scheme \<Rightarrow> 'w server_node_scheme res) \<Rightarrow> rat \<Rightarrow> customer \<Rightarrow> 'w server_node_scheme \<Rightarrow>
   'w server_node_scheme res" where
  "server_enter accept d c s = accept (c\<lparr>serviceDemand := d\<rparr>) (s\<lparr>srv_arrivals := srv_arrivals s + 1\<rparr>)"

definition server_forward ::
  "(rat \<Rightarrow> customer \<Rightarrow> 'w server_node_scheme \<Rightarrow> 'w server_node_scheme res) \<Rightarrow> (customer \<Rightarrow> rat option) \<Rightarrow> customer \<Rightarrow>
   'w server_node_scheme \<Rightarrow> 'w server_node_scheme res" where
  "server_forward enter route c s =
     (case route c of None \<Rightarrow> Inr (s\<lparr>departed := departed s @ [(vtime s, c)]\<rparr>) | Some d \<Rightarrow> enter d c s)"

section \<open>Processor sharing\<close>

definition OrderedQueueEntry_OrderedQueueEntry :: "customer \<Rightarrow> rat \<Rightarrow> ps_node \<Rightarrow> ps_node \<times> customer" where
  "OrderedQueueEntry_OrderedQueueEntry c t s =
     (s\<lparr>queueEntries := (queueEntries s)(nextEntryId s \<mapsto> (c, t)), nextEntryId := nextEntryId s + 1\<rparr>,
      \<lparr>cust_id = nextEntryId s, cust_type = 0, cust_priority = 0, arrivalTime = vtime s,
       serviceDemand = 0, queueInsertionTime = 0\<rparr>)"

definition OrderedQueueEntry_smallerThan ::
  "(int \<Rightarrow> (customer \<times> rat) option) \<Rightarrow> customer \<Rightarrow> customer \<Rightarrow> bool" where
  "OrderedQueueEntry_smallerThan E x e =
     (case (E (cust_id x), E (cust_id e)) of (Some (_, t), Some (_, u)) \<Rightarrow> t \<le> u | _ \<Rightarrow> False)"

abbreviation entry_order :: "ps_node \<Rightarrow> customer list discipline" where
  "entry_order s \<equiv> OrderedQueue (OrderedQueueEntry_smallerThan (queueEntries s))"

definition ProcessorSharingNode_ProcessorSharingNode :: "service_event event list \<Rightarrow> int \<Rightarrow> ps_node" where
  "ProcessorSharingNode_ProcessorSharingNode events next_id =
     \<lparr>vtime = 0, diary = events, srv_arrivals = 0, srv_queue = (Queue_Queue INT_MAX, []), srv_resources = Resource_Resource 1,
      departed = [], queueEntries = Map.empty, nextEntryId = next_id, localTime = 0, timeOfLastSchedule = 0,
      nextEndServiceEvent = None\<rparr>"

text \<open>\<open>vtime += (Sim::now() - timeOfLastSchedule) / queue->queueLength()\<close>\<close>

definition advance_localTime :: "(rat \<Rightarrow> rat) \<Rightarrow> ps_node \<Rightarrow> ps_node res" where
  "advance_localTime rnd s =
     (if pop (fst (srv_queue s)) = 0 then Inl DivisionByZero
      else Inr (s\<lparr>localTime := rnd (localTime s +
             rnd (rnd (vtime s - timeOfLastSchedule s) / of_int (pop (fst (srv_queue s)))))\<rparr>))"

definition ProcessorSharingNode_serviceNextCustomer :: "(rat \<Rightarrow> rat) \<Rightarrow> ps_node \<Rightarrow> ps_node res" where
  "ProcessorSharingNode_serviceNextCustomer rnd s =
     bindE (Queue_head (entry_order s) (srv_queue s)) (\<lambda>e.
     case queueEntries s (cust_id e) of
       None \<Rightarrow> Inl NullDeref
     | Some (_, t) \<Rightarrow>
         let completionTime = rnd (rnd (t - localTime s) * of_int (pop (fst (srv_queue s))));
             ev = \<lparr>invokeTime = rnd (vtime s + completionTime), ev_kind = EndOfService\<rparr>
         in Inr (Sim_schedule ev (s\<lparr>timeOfLastSchedule := vtime s, nextEndServiceEvent := Some ev\<rparr>)))"

definition ProcessorSharingNode_accept :: "(rat \<Rightarrow> rat) \<Rightarrow> customer \<Rightarrow> ps_node \<Rightarrow> ps_node res" where
  "ProcessorSharingNode_accept rnd c s =
     (if Queue_canAccept (fst (srv_queue s))
      then bindE (if Resource_resourceIsAvailable (srv_resources s) then server_claim s
                  else bindE (deschedule_pointer (nextEndServiceEvent s) s) (\<lambda>(_, s1). advance_localTime rnd s1)) (\<lambda>s1.
           let (s2, e) = OrderedQueueEntry_OrderedQueueEntry c (rnd (localTime s1 + serviceDemand c)) s1 in
           bindE (Queue_enqueue (entry_order s2) (vtime s2) e (srv_queue s2)) (\<lambda>q.
           ProcessorSharingNode_serviceNextCustomer rnd (s2\<lparr>srv_queue := q\<rparr>)))
      else Inl NullDeref)"

definition ProcessorSharingNode_invoke :: "(rat \<Rightarrow> rat) \<Rightarrow> (customer \<Rightarrow> rat option) \<Rightarrow> ps_node \<Rightarrow> ps_node res" where
  "ProcessorSharingNode_invoke rnd route s =
     bindE (advance_localTime rnd s) (\<lambda>s1.
     bindE (Queue_dequeue (entry_order s1) (vtime s1) (srv_queue s1)) (\<lambda>(q, e).
     case queueEntries s1 (cust_id e) of
       None \<Rightarrow> Inl NullDeref
     | Some (c, _) \<Rightarrow>
         bindE (server_forward (server_enter (ProcessorSharingNode_accept rnd)) route c (s1\<lparr>srv_queue := q\<rparr>)) (\<lambda>s2.
         if pop (fst (srv_queue s2)) = 0 then server_release s2
         else ProcessorSharingNode_serviceNextCustomer rnd s2)))"

definition sharing_event ::
  "(rat \<Rightarrow> rat) \<Rightarrow> (customer \<Rightarrow> rat option) \<Rightarrow> service_event event \<Rightarrow> ps_node \<Rightarrow> ps_node res option" where
  "sharing_event rnd route e s =
     Some (case ev_kind e of
       Arrive c d \<Rightarrow> server_enter (ProcessorSharingNode_accept rnd) d c s
     | EndOfService \<Rightarrow> ProcessorSharingNode_invoke rnd route s
     | EndService _ \<Rightarrow> Inl AssertFailed)"

section \<open>Preemption\<close>

definition PreemptiveResumeNode_remainingServiceTime :: "(rat \<Rightarrow> rat) \<Rightarrow> service_event event \<Rightarrow> rat \<Rightarrow> customer \<Rightarrow> rat" where
  "PreemptiveResumeNode_remainingServiceTime rnd e now c = rnd (invokeTime e - now)"

definition PreemptiveRestartNode_remainingServiceTime :: "service_event event \<Rightarrow> rat \<Rightarrow> customer \<Rightarrow> rat" where
  "PreemptiveRestartNode_remainingServiceTime e now c = serviceDemand c"

definition PreemptiveResumeNode_PreemptiveResumeNode :: "service_event event list \<Rightarrow> preemptive_node" where
  "PreemptiveResumeNode_PreemptiveResumeNode events =
     \<lparr>vtime = 0, diary = events, srv_arrivals = 0, srv_queue = (Queue_Queue INT_MAX, []), srv_resources = Resource_Resource 1,
      departed = [], lastEndServiceEvent = None\<rparr>"

definition server_invokeService :: "(rat \<Rightarrow> rat) \<Rightarrow> customer \<Rightarrow> preemptive_node \<Rightarrow> preemptive_node" where
  "server_invokeService rnd c s =
     (let ev = \<lparr>invokeTime = rnd (vtime s + serviceDemand c), ev_kind = EndService c\<rparr>
      in Sim_schedule ev (s\<lparr>lastEndServiceEvent := Some ev\<rparr>))"

text \<open>\<open>remainingServiceTime\<close> is not virtual: the preemptive-restart node inherits \<open>accept\<close> with the call of the
  method of its superclass.\<close>

definition PreemptiveResumeNode_accept ::
  "(rat \<Rightarrow> rat) \<Rightarrow> customer list discipline \<Rightarrow> customer \<Rightarrow> preemptive_node \<Rightarrow> preemptive_node res" where
  "PreemptiveResumeNode_accept rnd v c s =
     bindE (if Resource_resourceIsAvailable (srv_resources s) then server_claim s
            else bindE (deschedule_pointer (lastEndServiceEvent s) s) (\<lambda>(e, s1).
              case ev_kind e of
                EndService preemptedCustomer \<Rightarrow>
                  let nextServiceDemand = PreemptiveResumeNode_remainingServiceTime rnd e (vtime s1) preemptedCustomer in
                  bindE (Queue_enqueueAtHead v (vtime s1) (preemptedCustomer\<lparr>serviceDemand := nextServiceDemand\<rparr>) (srv_queue s1)) (\<lambda>q.
                  Inr (s1\<lparr>srv_queue := q\<rparr>))
              | _ \<Rightarrow> Inl AssertFailed)) (\<lambda>s2.
     Inr (server_invokeService rnd c s2))"

definition server_releaseResource ::
  "(rat \<Rightarrow> rat) \<Rightarrow> customer list discipline \<Rightarrow> preemptive_node \<Rightarrow> preemptive_node res" where
  "server_releaseResource rnd v s =
     (if \<not> Queue_isEmpty (fst (srv_queue s))
      then bindE (Queue_dequeue v (vtime s) (srv_queue s)) (\<lambda>(q, c).
           Inr (server_invokeService rnd c (s\<lparr>srv_queue := q\<rparr>)))
      else server_release s)"

definition preemption_event ::
  "(rat \<Rightarrow> rat) \<Rightarrow> customer list discipline \<Rightarrow> (customer \<Rightarrow> rat option) \<Rightarrow> service_event event \<Rightarrow> preemptive_node \<Rightarrow> preemptive_node res option" where
  "preemption_event rnd v route e s =
     Some (case ev_kind e of
       Arrive c d \<Rightarrow> server_enter (PreemptiveResumeNode_accept rnd v) d c s
     | EndService c \<Rightarrow>
         bindE (server_forward (server_enter (PreemptiveResumeNode_accept rnd v)) route c s)
           (server_releaseResource rnd v)
     | EndOfService \<Rightarrow> Inl AssertFailed)"

section \<open>Boxed queues\<close>

text \<open>A node that only queues; somebody else calls \<open>dequeue\<close>.\<close>

definition BoxedQueue_accept :: "'d discipline \<Rightarrow> rat \<Rightarrow> customer \<Rightarrow> queue_base \<times> 'd \<Rightarrow> (queue_base \<times> 'd) res" where
  "BoxedQueue_accept = Queue_enqueue"

definition BoxedQueue_dequeue ::
  "'d discipline \<Rightarrow> rat \<Rightarrow> (customer \<Rightarrow> 'r res) \<Rightarrow> queue_base \<times> 'd \<Rightarrow> ((queue_base \<times> 'd) \<times> 'r) res" where
  "BoxedQueue_dequeue v now forward q = bindE (Queue_dequeue v now q) (\<lambda>(q1, c). bindE (forward c) (\<lambda>r. Inr (q1, r)))"

section \<open>Continuous service\<close>

text \<open>
  The reference: customers, by their identifiers, with the work that they still need. \<open>serve\<close> tells how the work of
  all decreases in a period of time, \<open>ins\<close> where a customer enters. Time passes up to the next arrival
  and as long as no work is negative; the first customer leaves when it needs nothing more. A state has the time, the
  arrivals to come, the work, and the departures.
\<close>

type_synonym job = "int \<times> rat"

type_synonym fluid = "rat \<times> (rat \<times> job) list \<times> job list \<times> (rat \<times> int) list"

inductive fluid_step :: "(rat \<Rightarrow> job list \<Rightarrow> job list) \<Rightarrow> (job \<Rightarrow> job list \<Rightarrow> job list) \<Rightarrow> fluid \<Rightarrow> fluid \<Rightarrow> bool"
  for serve ins where
  passes: "t \<le> t' \<Longrightarrow> \<forall>(ta, _) \<in> set arr. t' \<le> ta \<Longrightarrow> \<forall>(_, r) \<in> set (serve (t' - t) js). 0 \<le> r \<Longrightarrow>
    fluid_step serve ins (t, arr, js, out) (t', arr, serve (t' - t) js, out)"
| arrives: "fluid_step serve ins (t, (t, j) # arr, js, out) (t, arr, ins j js, out)"
| departs: "fluid_step serve ins (t, arr, (i, 0) # js, out) (t, arr, js, out @ [(t, i)])"

text \<open>All customers get the same share, and are ordered by their remaining work; or the latest customer gets all.\<close>

definition share_equally :: "rat \<Rightarrow> job list \<Rightarrow> job list" where
  "share_equally dt js = map (\<lambda>(i, r). (i, r - dt / of_nat (length js))) js"

definition by_remaining_work :: "job \<Rightarrow> job list \<Rightarrow> job list" where
  "by_remaining_work = list_insertInOrder (\<lambda>x y. snd x \<le> snd y)"

fun serve_first :: "rat \<Rightarrow> job list \<Rightarrow> job list" where
  "serve_first dt [] = []"
| "serve_first dt ((i, r) # js) = (i, r - dt) # js"

section \<open>The diary of a node\<close>

definition arrival_of :: "service_event event \<Rightarrow> (rat \<times> job) option" where
  "arrival_of e = (case ev_kind e of Arrive c d \<Rightarrow> Some (invokeTime e, cust_id c, d) | _ \<Rightarrow> None)"

definition arrivals_in :: "service_event event list \<Rightarrow> (rat \<times> job) list" where
  "arrivals_in es = List.map_filter arrival_of es"

definition ends_in :: "service_event event list \<Rightarrow> service_event event list" where
  "ends_in = filter (\<lambda>e. arrival_of e = None)"

definition diary_ok :: "'w server_node_scheme \<Rightarrow> bool" where
  "diary_ok s \<longleftrightarrow> sorted_wrt Diary_before (diary s) \<and> (\<forall>e \<in> set (diary s). vtime s \<le> invokeTime e) \<and>
     (\<forall>(_, _, d) \<in> set (arrivals_in (diary s)). 0 \<le> d)"

definition left_at :: "'w server_node_scheme \<Rightarrow> (rat \<times> int) list" where
  "left_at s = map (\<lambda>(t, c). (t, cust_id c)) (departed s)"

lemma arrivals_in_simps [simp]:
  "arrivals_in [] = []" "arrivals_in (e # es) = (case arrival_of e of None \<Rightarrow> [] | Some a \<Rightarrow> [a]) @ arrivals_in es"
  "arrivals_in (xs @ ys) = arrivals_in xs @ arrivals_in ys"
  by (simp_all add: arrivals_in_def map_filter_def split: option.splits)

lemma ends_in_simps [simp]:
  "ends_in [] = []" "ends_in (e # es) = (if arrival_of e = None then e # ends_in es else ends_in es)"
  "ends_in (xs @ ys) = ends_in xs @ ends_in ys"
  by (simp_all add: ends_in_def)

lemma arrival_of_simps [simp]:
  "arrival_of \<lparr>invokeTime = t, ev_kind = Arrive c d\<rparr> = Some (t, cust_id c, d)"
  "arrival_of \<lparr>invokeTime = t, ev_kind = EndService c\<rparr> = None" "arrival_of \<lparr>invokeTime = t, ev_kind = EndOfService\<rparr> = None"
  by (simp_all add: arrival_of_def)

lemma insert_end:
  assumes "arrival_of e = None"
  shows "arrivals_in (list_insertInOrder Diary_before e es) = arrivals_in es"
    "ends_in es = [] \<Longrightarrow> ends_in (list_insertInOrder Diary_before e es) = [e]"
proof -
  let ?P = "\<lambda>y. Diary_before y e"
  have "arrivals_in (takeWhile ?P es) @ arrivals_in (dropWhile ?P es) = arrivals_in es"
    "ends_in (takeWhile ?P es) @ ends_in (dropWhile ?P es) = ends_in es"
    by (metis arrivals_in_simps(3) takeWhile_dropWhile_id, metis ends_in_simps(3) takeWhile_dropWhile_id)
  then show "arrivals_in (list_insertInOrder Diary_before e es) = arrivals_in es"
    "ends_in es = [] \<Longrightarrow> ends_in (list_insertInOrder Diary_before e es) = [e]"
    using assms by (simp_all add: list_insertInOrder_def)
qed

lemma remove_end:
  "ends_in es = [e] \<Longrightarrow> e \<in> set es \<and> ends_in (remove1 e es) = [] \<and> arrivals_in (remove1 e es) = arrivals_in es"
proof (induction es)
  case (Cons x es)
  have "e \<in> set (ends_in (x # es))" unfolding Cons.prems by simp
  then have "arrival_of e = None" unfolding ends_in_def set_filter by blast
  then show ?case using Cons by (auto split: if_splits option.splits)
qed simp

lemma end_first: "ends_in (e # es) = [x] \<Longrightarrow> arrival_of e = None \<Longrightarrow> e = x \<and> ends_in es = []"
  by simp

lemma diary_ok_schedule:
  assumes "diary_ok s" "vtime s \<le> invokeTime e" "arrival_of e = None" "diary s' = diary s" "vtime s' = vtime s"
  shows "diary_ok (Sim_schedule e s')"
  using assms insert_end(1) [OF assms(3)]
  by (auto simp: diary_ok_def Sim_schedule_def insertInOrder_sorted insertInOrder_set)

lemma diary_ok_deschedule:
  assumes "diary_ok s" "ends_in (diary s) = [e]"
  shows "deschedule_pointer (Some e) s = Inr (e, s\<lparr>diary := remove1 e (diary s)\<rparr>)" "diary_ok (s\<lparr>diary := remove1 e (diary s)\<rparr>)"
proof -
  have "sorted_wrt Diary_before (remove1 e es)" if "sorted_wrt Diary_before es" for es :: "service_event event list"
    using that by (induction es) (auto dest: notin_set_remove1)
  then show "deschedule_pointer (Some e) s = Inr (e, s\<lparr>diary := remove1 e (diary s)\<rparr>)" "diary_ok (s\<lparr>diary := remove1 e (diary s)\<rparr>)"
    using assms remove_end [OF assms(2)]
    by (auto simp: diary_ok_def deschedule_pointer_def Sim_deschedule_def dest: notin_set_remove1)
qed

text \<open>What a node promises whose customers do not come back at once: \<open>work\<close> are the jobs at the time of the clock.\<close>

locale fluid_server =
  fixes handler :: "service_event event \<Rightarrow> 'w server_node_scheme \<Rightarrow> 'w server_node_scheme res option"
    and inv :: "'w server_node_scheme \<Rightarrow> bool"
    and work :: "'w server_node_scheme \<Rightarrow> job list"
    and serve :: "rat \<Rightarrow> job list \<Rightarrow> job list" and ins :: "job \<Rightarrow> job list \<Rightarrow> job list"
  assumes in_order: "inv s \<Longrightarrow> diary_ok s"
    and idle: "inv s \<Longrightarrow> diary s = [] \<Longrightarrow> work s = []"
    and grows: "length (ins j js) = Suc (length js)" and keeps: "length (serve dt js) = length js"
    and passing: "inv s \<Longrightarrow> vtime s \<le> t \<Longrightarrow> \<forall>e \<in> set (diary s). t \<le> invokeTime e \<Longrightarrow>
      inv (s\<lparr>vtime := t\<rparr>) \<and> work (s\<lparr>vtime := t\<rparr>) = serve (t - vtime s) (work s) \<and> (\<forall>(_, r) \<in> set (work (s\<lparr>vtime := t\<rparr>)). 0 \<le> r)"
    and arriving: "inv s \<Longrightarrow> diary s = e # rest \<Longrightarrow> vtime s = invokeTime e \<Longrightarrow> ev_kind e = Arrive c d \<Longrightarrow>
      \<exists>s'. handler e (s\<lparr>diary := rest\<rparr>) = Some (Inr s') \<and> inv s' \<and> vtime s' = vtime s \<and>
        arrivals_in (diary s') = arrivals_in rest \<and> work s' = ins (cust_id c, d) (work s) \<and> departed s' = departed s"
    and leaving: "inv s \<Longrightarrow> diary s = e # rest \<Longrightarrow> vtime s = invokeTime e \<Longrightarrow> arrival_of e = None \<Longrightarrow>
      \<exists>s' c js. handler e (s\<lparr>diary := rest\<rparr>) = Some (Inr s') \<and> inv s' \<and> vtime s' = vtime s \<and>
        arrivals_in (diary s') = arrivals_in rest \<and> work s = (cust_id c, 0) # js \<and> work s' = js \<and>
        departed s' = departed s @ [(vtime s, c)]"
begin

definition fluid_of :: "'w server_node_scheme \<Rightarrow> fluid" where
  "fluid_of s = (vtime s, arrivals_in (diary s), work s, left_at s)"

definition events_left :: "'w server_node_scheme \<Rightarrow> nat" where
  "events_left s = 2 * length (arrivals_in (diary s)) + length (work s)"

lemma diary_then_clock: "s\<lparr>diary := es, vtime := t\<rparr> = s\<lparr>vtime := t, diary := es\<rparr>"
  by (rule sim.equality) simp_all

lemma round_refines:
  assumes "inv s" "diary s \<noteq> []"
  shows "\<exists>s'. Sim_round (\<lambda>_. False) handler s = Some (Inr s') \<and> inv s' \<and> (fluid_step serve ins)\<^sup>*\<^sup>* (fluid_of s) (fluid_of s') \<and>
    events_left s' < events_left s"
proof -
  obtain e rest where d: "diary s = e # rest" using assms(2) by (cases "diary s") auto
  let ?t = "invokeTime e" and ?s = "s\<lparr>vtime := invokeTime e\<rparr>"
  have ok: "sorted_wrt Diary_before (e # rest)" "vtime s \<le> ?t" using in_order [OF assms(1)] d by (auto simp: diary_ok_def)
  have first: "\<forall>x \<in> set (diary s). ?t \<le> invokeTime x" using ok d by (auto simp: Diary_before_def)
  note p = passing [OF assms(1) ok(2) first]
  have "\<forall>(ta, _) \<in> set (arrivals_in (diary s)). ?t \<le> ta"
    using first by (auto simp: arrivals_in_def map_filter_def arrival_of_def split: service_event.splits)
  then have "fluid_step serve ins (vtime s, arrivals_in (diary s), work s, left_at s)
      (?t, arrivals_in (diary s), serve (?t - vtime s) (work s), left_at s)"
    using p ok(2) by (intro fluid_step.passes) auto
  then have step1: "fluid_step serve ins (fluid_of s) (?t, arrivals_in (diary s), work ?s, left_at s)"
    using p by (simp add: fluid_of_def)
  have len: "length (work ?s) = length (work s)" using p keeps by simp
  have round: "Sim_round (\<lambda>_. False) handler s = handler e (?s\<lparr>diary := rest\<rparr>)" 
    using d by (simp add: Sim_round_def Let_def diary_then_clock)
  have at: "diary ?s = e # rest" "vtime ?s = ?t" "departed ?s = departed s" using d by simp_all
  show ?thesis
  proof (cases "arrival_of e")
    case None
    obtain s' c js where s': "handler e (?s\<lparr>diary := rest\<rparr>) = Some (Inr s')" "inv s'" "vtime s' = ?t"
        "arrivals_in (diary s') = arrivals_in rest" "work ?s = (cust_id c, 0) # js" "work s' = js"
        "departed s' = departed s @ [(?t, c)]"
      using leaving [OF conjunct1 [OF p] at(1) at(2) None] at by auto
    have "fluid_step serve ins (?t, arrivals_in (diary s), work ?s, left_at s) (fluid_of s')"
      using s' None d fluid_step.departs [of serve ins ?t "arrivals_in rest" "cust_id c" js "left_at s"] by (simp add: fluid_of_def left_at_def)
    with step1 show ?thesis using s' round len None d
      by (intro exI [of _ s']) (auto simp: events_left_def intro: converse_rtranclp_into_rtranclp)
  next
    case (Some a)
    then obtain c d where c: "ev_kind e = Arrive c d" by (auto simp: arrival_of_def split: service_event.splits)
    obtain s' where s': "handler e (?s\<lparr>diary := rest\<rparr>) = Some (Inr s')" "inv s'" "vtime s' = ?t"
        "arrivals_in (diary s') = arrivals_in rest" "work s' = ins (cust_id c, d) (work ?s)" "departed s' = departed s"
      using arriving [OF conjunct1 [OF p] at(1) at(2) c] at by auto
    have a: "arrivals_in (diary s) = (?t, cust_id c, d) # arrivals_in rest" using c \<open>diary s = e # rest\<close> by (simp add: arrival_of_def)
    have "fluid_step serve ins (?t, arrivals_in (diary s), work ?s, left_at s) (fluid_of s')"
      using s' fluid_step.arrives [of serve ins ?t "(cust_id c, d)" "arrivals_in rest" "work ?s" "left_at s"]
      by (simp add: fluid_of_def left_at_def a)
    with step1 show ?thesis using s' round len a
      by (intro exI [of _ s']) (auto simp: events_left_def grows intro: converse_rtranclp_into_rtranclp)
  qed
qed

text \<open>The simulation ends, when all customers have left as under continuous service.\<close>

lemma simulation_refines:
  "inv s \<Longrightarrow> \<exists>s'. Sim_go (\<lambda>_. False) handler s = Some (Inr s') \<and> inv s' \<and> diary s' = [] \<and> work s' = [] \<and>
    (fluid_step serve ins)\<^sup>*\<^sup>* (fluid_of s) (fluid_of s')"
proof (induction "events_left s" arbitrary: s rule: less_induct)
  case less
  show ?case
  proof (cases "diary s = []")
    case True
    with less.prems idle show ?thesis by (auto simp: Sim_go.simps)
  next
    case False
    obtain s1 where s1: "Sim_round (\<lambda>_. False) handler s = Some (Inr s1)" "inv s1"
        "(fluid_step serve ins)\<^sup>*\<^sup>* (fluid_of s) (fluid_of s1)" "events_left s1 < events_left s"
      using round_refines [OF less.prems False] by blast
    obtain s2 where "Sim_go (\<lambda>_. False) handler s1 = Some (Inr s2) \<and> inv s2 \<and> diary s2 = [] \<and> work s2 = [] \<and>
        (fluid_step serve ins)\<^sup>*\<^sup>* (fluid_of s1) (fluid_of s2)"
      using less.hyps [OF s1(4,2)] by blast
    with s1 show ?thesis by (subst Sim_go.simps) (auto simp: False intro: rtranclp_trans)
  qed
qed

end

section \<open>The sharing node in exact arithmetic\<close>

lemma map_insertInOrder:
  assumes "\<And>y. y \<in> set q \<Longrightarrow> R y x = R' (g y) (g x)"
  shows "map g (list_insertInOrder R x q) = list_insertInOrder R' (g x) (map g q)"
proof -
  have "takeWhile (\<lambda>y. R y x) q = takeWhile (\<lambda>y. R' (g y) (g x)) q" "dropWhile (\<lambda>y. R y x) q = dropWhile (\<lambda>y. R' (g y) (g x)) q"
    using assms by (auto cong: takeWhile_cong dropWhile_cong)
  then show ?thesis by (simp add: list_insertInOrder_def takeWhile_map dropWhile_map comp_def)
qed

lemma insertInOrder_cong:
  "(\<And>y. y \<in> set q \<Longrightarrow> R y x = R' y x) \<Longrightarrow> list_insertInOrder R x q = list_insertInOrder R' x q"
  using map_insertInOrder [of q R x R' "\<lambda>y. y"] by simp

lemma insertInOrder_sorted_key:
  fixes k :: "'a \<Rightarrow> 'b::linorder"
  assumes "sorted (map k q)"
  shows "sorted (map k (list_insertInOrder (\<lambda>x y. k x \<le> k y) e q))"
  using assms
proof (induction q)
  case (Cons x q)
  show ?case
  proof (cases "k x \<le> k e")
    case True
    then have "list_insertInOrder (\<lambda>x y. k x \<le> k y) e (x # q) = x # list_insertInOrder (\<lambda>x y. k x \<le> k y) e q"
      by (simp add: list_insertInOrder_def)
    then show ?thesis using Cons True by (simp add: insertInOrder_set)
  next
    case False
    then show ?thesis using Cons.prems by (auto simp: list_insertInOrder_def)
  qed
qed (simp add: list_insertInOrder_def)

lemma insertInOrder_length [simp]: "length (list_insertInOrder R x q) = Suc (length q)"
  by (simp add: list_insertInOrder_def) (metis length_append takeWhile_dropWhile_id add.commute)

definition entry_time :: "ps_node \<Rightarrow> customer \<Rightarrow> rat" where
  "entry_time s x = snd (the (queueEntries s (cust_id x)))"

definition entry_id :: "ps_node \<Rightarrow> customer \<Rightarrow> int" where
  "entry_id s x = cust_id (fst (the (queueEntries s (cust_id x))))"

abbreviation line_of :: "'w server_node_scheme \<Rightarrow> customer list" where
  "line_of s \<equiv> snd (srv_queue s)"

definition sharing_work :: "ps_node \<Rightarrow> job list" where
  "sharing_work s = map (\<lambda>x. (entry_id s x, entry_time s x - localTime s -
     (vtime s - timeOfLastSchedule s) / of_nat (length (line_of s)))) (line_of s)"

definition server_ok :: "'w server_node_scheme \<Rightarrow> bool" where
  "server_ok s \<longleftrightarrow> pop (fst (srv_queue s)) = int (length (line_of s)) \<and> capacity (fst (srv_queue s)) = INT_MAX \<and>
     nresources (srv_resources s) = 1 \<and> diary_ok s \<and> int (length (line_of s) + length (arrivals_in (diary s))) < INT_MAX"

definition line_ok :: "ps_node \<Rightarrow> bool" where
  "line_ok s \<longleftrightarrow> server_ok s \<and> sorted (map (entry_time s) (line_of s)) \<and>
     (\<forall>x \<in> set (line_of s). cust_id x < nextEntryId s \<and> queueEntries s (cust_id x) \<noteq> None)"

definition sharing_inv :: "ps_node \<Rightarrow> bool" where
  "sharing_inv s \<longleftrightarrow> line_ok s \<and> resources (srv_resources s) = (if line_of s = [] then 1 else 0) \<and>
     (if line_of s = [] then ends_in (diary s) = []
      else timeOfLastSchedule s \<le> vtime s \<and> (\<exists>t. nextEndServiceEvent s = Some \<lparr>invokeTime = t, ev_kind = EndOfService\<rparr> \<and>
        ends_in (diary s) = [\<lparr>invokeTime = t, ev_kind = EndOfService\<rparr>] \<and>
        t = timeOfLastSchedule s + (entry_time s (hd (line_of s)) - localTime s) * of_nat (length (line_of s))))"

lemma sharing_service:
  assumes ok: "line_ok s" and free: "ends_in (diary s) = []" and line: "line_of s = x # xs" and r: "resources (srv_resources s) = 0"
    and now: "localTime s \<le> entry_time s x"
  shows "\<exists>s'. ProcessorSharingNode_serviceNextCustomer (\<lambda>x. x) s = Inr s' \<and> sharing_inv s' \<and> vtime s' = vtime s \<and>
    arrivals_in (diary s') = arrivals_in (diary s) \<and> departed s' = departed s \<and>
    sharing_work s' = map (\<lambda>x. (entry_id s x, entry_time s x - localTime s)) (line_of s)"
proof -
  let ?n = "of_nat (length (line_of s)) :: rat"
  let ?t = "vtime s + (entry_time s x - localTime s) * ?n"
  let ?ev = "\<lparr>invokeTime = ?t, ev_kind = EndOfService\<rparr>"
  define s' where "s' = Sim_schedule ?ev (s\<lparr>timeOfLastSchedule := vtime s, nextEndServiceEvent := Some ?ev\<rparr>)"
  obtain c where c: "queueEntries s (cust_id x) = Some (c, entry_time s x)"
    using ok line by (auto simp: line_ok_def entry_time_def)
  have p: "pop (fst (srv_queue s)) = int (length (line_of s))" using ok by (simp add: line_ok_def server_ok_def)
  have "Queue_head (entry_order s) (srv_queue s) = Inr x"
    using line p by (simp add: Queue_head_def Check_check_def OrderedQueue_def)
  then have r: "ProcessorSharingNode_serviceNextCustomer (\<lambda>x. x) s = Inr s'"
    using c p by (simp add: ProcessorSharingNode_serviceNextCustomer_def Let_def s'_def)
  have "0 \<le> (entry_time s x - localTime s) * ?n" using now by simp
  then have d: "diary_ok s'" using ok by (unfold s'_def, intro diary_ok_schedule [of s]) (simp_all add: line_ok_def server_ok_def)
  have et: "entry_time s' = entry_time s" "entry_id s' = entry_id s"
    by (simp_all add: fun_eq_iff entry_time_def entry_id_def Sim_schedule_def s'_def)
  have sel: "srv_queue s' = srv_queue s" "srv_resources s' = srv_resources s" "timeOfLastSchedule s' = vtime s" "vtime s' = vtime s"
    "nextEndServiceEvent s' = Some ?ev" "localTime s' = localTime s" "nextEntryId s' = nextEntryId s"
    "queueEntries s' = queueEntries s" "departed s' = departed s"
    "arrivals_in (diary s') = arrivals_in (diary s)" "ends_in (diary s') = [?ev]"
    using insert_end [of ?ev "diary s"] free by (simp_all add: Sim_schedule_def s'_def)
  have "server_ok s'" using ok d by (simp only: line_ok_def server_ok_def sel)
  moreover have "sorted (map (entry_time s) (line_of s))"
    "\<forall>x \<in> set (line_of s). cust_id x < nextEntryId s \<and> queueEntries s (cust_id x) \<noteq> None"
    using ok by (simp_all add: line_ok_def)
  ultimately have "sharing_inv s'" using assms(4) line by (simp add: sharing_inv_def line_ok_def et sel)
  moreover have "sharing_work s' = map (\<lambda>x. (entry_id s x, entry_time s x - localTime s)) (line_of s)"
    by (simp add: sharing_work_def et sel)
  ultimately show ?thesis using r sel by blast
qed

lemma sharing_passing:
  assumes inv: "sharing_inv s" and t: "vtime s \<le> t" "\<forall>e \<in> set (diary s). t \<le> invokeTime e"
  shows "sharing_inv (s\<lparr>vtime := t\<rparr>) \<and> sharing_work (s\<lparr>vtime := t\<rparr>) = share_equally (t - vtime s) (sharing_work s) \<and>
    (\<forall>(_, r) \<in> set (sharing_work (s\<lparr>vtime := t\<rparr>)). 0 \<le> r)"
proof (intro conjI)
  have et: "entry_time (s\<lparr>vtime := t\<rparr>) = entry_time s" "entry_id (s\<lparr>vtime := t\<rparr>) = entry_id s"
    by (simp_all add: fun_eq_iff entry_time_def entry_id_def)
  show "sharing_inv (s\<lparr>vtime := t\<rparr>)"
    using assms by (auto simp: sharing_inv_def line_ok_def server_ok_def diary_ok_def et)
  show "sharing_work (s\<lparr>vtime := t\<rparr>) = share_equally (t - vtime s) (sharing_work s)"
    by (auto simp: sharing_work_def share_equally_def et diff_divide_distrib)
  show "\<forall>(_, r) \<in> set (sharing_work (s\<lparr>vtime := t\<rparr>)). 0 \<le> r"
  proof (cases "line_of s")
    case (Cons x xs)
    let ?n = "of_nat (length (line_of s)) :: rat"
    obtain e where e: "e \<in> set (diary s)" "invokeTime e = timeOfLastSchedule s + (entry_time s x - localTime s) * ?n"
      using inv Cons remove_end [of "diary s"] by (fastforce simp: sharing_inv_def)
    have "(t - timeOfLastSchedule s) / ?n \<le> entry_time s x - localTime s"
      using t(2) e Cons by (auto simp: field_simps)
    moreover have "entry_time s x \<le> entry_time s y" if "y \<in> set (line_of s)" for y
      using inv Cons that by (auto simp: sharing_inv_def line_ok_def)
    ultimately have "0 \<le> entry_time s y - localTime s - (t - timeOfLastSchedule s) / ?n" if "y \<in> set (line_of s)" for y
      using that by fastforce
    then show ?thesis by (auto simp: sharing_work_def et)
  qed (simp add: sharing_work_def)
qed

lemma sharing_work_nonneg:
  assumes "sharing_inv s"
  shows "\<forall>(_, r) \<in> set (sharing_work s). 0 \<le> r"
  using sharing_passing [OF assms, of "vtime s"] assms
  by (simp add: sharing_inv_def line_ok_def server_ok_def diary_ok_def)

text \<open>Before a customer enters, the server is claimed, or its event is descheduled and the local time advances.\<close>

definition "ready_for rnd s =
  (if Resource_resourceIsAvailable (srv_resources s) then server_claim s
   else bindE (deschedule_pointer (nextEndServiceEvent s) s) (\<lambda>(_, s1). advance_localTime rnd s1))"

lemma sharing_ready:
  assumes "sharing_inv s"
  shows "\<exists>s1. ready_for (\<lambda>x. x) s = Inr s1 \<and> line_ok s1 \<and> ends_in (diary s1) = [] \<and> resources (srv_resources s1) = 0 \<and>
    srv_queue s1 = srv_queue s \<and> queueEntries s1 = queueEntries s \<and> nextEntryId s1 = nextEntryId s \<and> vtime s1 = vtime s \<and>
    departed s1 = departed s \<and> arrivals_in (diary s1) = arrivals_in (diary s) \<and>
    sharing_work s = map (\<lambda>x. (entry_id s x, entry_time s x - localTime s1)) (line_of s)"
proof (cases "line_of s")
  case Nil
  let ?s1 = "s\<lparr>srv_resources := (srv_resources s)\<lparr>resources := resources (srv_resources s) - 1,
    resourceCount := SystemMeasure_add (vtime s) (f32 (of_int (nresources (srv_resources s) - (resources (srv_resources s) - 1))))
      (resourceCount (srv_resources s))\<rparr>\<rparr>"
  have "ready_for (\<lambda>x. x) s = Inr ?s1"
    using assms Nil by (simp add: ready_for_def server_claim_def Resource_claim_cases Resource_resourceIsAvailable_def sharing_inv_def)
  moreover have "line_ok ?s1" using assms Nil by (simp add: sharing_inv_def line_ok_def server_ok_def diary_ok_def)
  ultimately show ?thesis using assms Nil by (simp add: sharing_inv_def sharing_work_def)
next
  case (Cons x xs)
  obtain t where e: "nextEndServiceEvent s = Some \<lparr>invokeTime = t, ev_kind = EndOfService\<rparr>"
      "ends_in (diary s) = [\<lparr>invokeTime = t, ev_kind = EndOfService\<rparr>]"
    using assms Cons by (auto simp: sharing_inv_def)
  let ?d = "remove1 \<lparr>invokeTime = t, ev_kind = EndOfService\<rparr> (diary s)"
  let ?L = "localTime s + (vtime s - timeOfLastSchedule s) / of_nat (length (line_of s))"
  let ?s1 = "s\<lparr>diary := ?d, localTime := ?L\<rparr>"
  have ok: "line_ok s" and r: "resources (srv_resources s) = 0" using assms Cons by (simp_all add: sharing_inv_def)
  then have p: "pop (fst (srv_queue s)) = int (length (line_of s))" by (simp add: line_ok_def server_ok_def)
  note d = diary_ok_deschedule [OF _ e(2)]
  have dk: "diary_ok s" using ok by (simp add: line_ok_def server_ok_def)
  have "ready_for (\<lambda>x. x) s = Inr ?s1"
    using d(1) [OF dk] r p Cons by (simp add: ready_for_def Resource_resourceIsAvailable_def e(1) advance_localTime_def)
  moreover have et: "entry_time ?s1 = entry_time s" by (simp add: fun_eq_iff entry_time_def)
  have "line_ok ?s1"
    using ok d(2) [OF dk] remove_end [OF e(2)] by (simp add: line_ok_def server_ok_def diary_ok_def et)
  ultimately show ?thesis using remove_end [OF e(2)] r by (simp add: sharing_work_def)
qed

lemma sharing_accept:
  assumes inv: "sharing_inv s" and c: "0 \<le> serviceDemand c"
    and room: "int (length (line_of s) + length (arrivals_in (diary s))) + 1 < INT_MAX"
  shows "\<exists>s'. ProcessorSharingNode_accept (\<lambda>x. x) c s = Inr s' \<and> sharing_inv s' \<and> vtime s' = vtime s \<and>
    arrivals_in (diary s') = arrivals_in (diary s) \<and> departed s' = departed s \<and>
    sharing_work s' = by_remaining_work (cust_id c, serviceDemand c) (sharing_work s)"
proof -
  obtain s1 where s1: "ready_for (\<lambda>x. x) s = Inr s1" "line_ok s1" "ends_in (diary s1) = []" "resources (srv_resources s1) = 0"
      "srv_queue s1 = srv_queue s" "queueEntries s1 = queueEntries s" "nextEntryId s1 = nextEntryId s" "vtime s1 = vtime s"
      "departed s1 = departed s" "arrivals_in (diary s1) = arrivals_in (diary s)"
    and work: "sharing_work s = map (\<lambda>x. (entry_id s x, entry_time s x - localTime s1)) (line_of s)"
    using sharing_ready [OF inv] by blast
  let ?L = "localTime s1" and ?i = "nextEntryId s"
  let ?e = "\<lparr>cust_id = ?i, cust_type = 0, cust_priority = 0, arrivalTime = vtime s, serviceDemand = 0, queueInsertionTime = 0\<rparr>"
  let ?E = "(queueEntries s)(?i \<mapsto> (c, ?L + serviceDemand c))"
  let ?s2 = "s1\<lparr>queueEntries := ?E, nextEntryId := ?i + 1\<rparr>"
  have new: "OrderedQueueEntry_OrderedQueueEntry c (?L + serviceDemand c) s1 = (?s2, ?e)"
    using s1 by (simp add: OrderedQueueEntry_OrderedQueueEntry_def)
  have old: "cust_id y < ?i" "cust_id y \<noteq> ?i" "queueEntries s (cust_id y) \<noteq> None" if "y \<in> set (line_of s)" for y
    using inv that by (auto simp: sharing_inv_def line_ok_def)
  have p: "pop (fst (srv_queue s)) = int (length (line_of s))" "capacity (fst (srv_queue s)) = INT_MAX"
    using inv by (simp_all add: sharing_inv_def line_ok_def server_ok_def)
  define x where "x = ?e\<lparr>queueInsertionTime := vtime s\<rparr>"
  have x: "cust_id x = ?i" by (simp add: x_def)
  define q where "q = list_insertInOrder (OrderedQueueEntry_smallerThan ?E) x (line_of s)"
  obtain b where enq: "Queue_enqueue (entry_order ?s2) (vtime ?s2) ?e (srv_queue ?s2) = Inr (b, q)"
      "pop b = int (length q)" "capacity b = INT_MAX"
    using room p s1 by (simp add: Queue_enqueue_def Check_check_def Queue_canAccept_def OrderedQueue_def
        Customer_setQueueInsertionTime_def Let_def q_def x_def)
  define s3 where "s3 = ?s2\<lparr>srv_queue := (b, q)\<rparr>"
  have et: "entry_time s3 x = ?L + serviceDemand c" "entry_id s3 x = cust_id c"
    "\<And>y. y \<in> set (line_of s) \<Longrightarrow> entry_time s3 y = entry_time s y \<and> entry_id s3 y = entry_id s y"
    using old by (auto simp: entry_time_def entry_id_def x s3_def)
  have order: "OrderedQueueEntry_smallerThan ?E y x \<longleftrightarrow> entry_time s3 y \<le> entry_time s3 x" if "y \<in> set (line_of s)" for y
    using old [OF that] by (auto simp: OrderedQueueEntry_smallerThan_def entry_time_def x s3_def split: option.splits prod.splits)
  have q: "q = list_insertInOrder (\<lambda>y z. entry_time s3 y \<le> entry_time s3 z) x (line_of s)"
    by (rule trans [OF q_def insertInOrder_cong]) (rule order)
  have set_q: "set q = insert x (set (line_of s))" by (simp add: q insertInOrder_set)
  have "sorted (map (entry_time s3) (line_of s))"
    using inv et(3) by (simp add: sharing_inv_def line_ok_def cong: map_cong)
  from insertInOrder_sorted_key [OF this, of x] have sorted: "sorted (map (entry_time s3) q)" by (simp add: q)
  have sel: "srv_queue s3 = (b, q)" "srv_resources s3 = srv_resources s1" "vtime s3 = vtime s" "diary s3 = diary s1" "localTime s3 = ?L"
    "nextEntryId s3 = ?i + 1" "queueEntries s3 = ?E" "departed s3 = departed s"
    using s1 by (simp_all add: s3_def)
  have len: "length q = Suc (length (line_of s))" by (simp add: q)
  have "diary_ok s3" "nresources (srv_resources s1) = 1"
    using s1(2,8) by (simp_all add: line_ok_def server_ok_def diary_ok_def sel)
  then have "server_ok s3" using room len enq(2,3) s1(10) by (simp add: server_ok_def sel)
  moreover have "\<forall>y \<in> set q. cust_id y < ?i + 1 \<and> ?E (cust_id y) \<noteq> None"
    using old set_q x by fastforce
  ultimately have "line_ok s3" using sorted by (simp add: line_ok_def sel)
  moreover have "?L \<le> entry_time s3 y" if "y \<in> set q" for y
    using sharing_work_nonneg [OF inv] that c et set_q by (auto simp: work)
  moreover obtain y ys where "q = y # ys" using set_q by (cases q) auto
  ultimately obtain s' where s': "ProcessorSharingNode_serviceNextCustomer (\<lambda>x. x) s3 = Inr s'" "sharing_inv s'" "vtime s' = vtime s"
      "arrivals_in (diary s') = arrivals_in (diary s)" "departed s' = departed s"
      "sharing_work s' = map (\<lambda>x. (entry_id s3 x, entry_time s3 x - ?L)) q"
    using sharing_service [of s3 y ys] s1(3,4,10) by (auto simp: sel)
  have "sharing_work s' = by_remaining_work (cust_id c, serviceDemand c) (map (\<lambda>x. (entry_id s3 x, entry_time s3 x - ?L)) (line_of s))"
    unfolding s'(6) q by_remaining_work_def
    by (subst map_insertInOrder [where R' = "\<lambda>x y. snd x \<le> snd y"]) (simp_all add: et diff_le_eq add.commute)
  also have "map (\<lambda>x. (entry_id s3 x, entry_time s3 x - ?L)) (line_of s) = sharing_work s"
    unfolding work using et(3) by simp
  finally have w: "sharing_work s' = by_remaining_work (cust_id c, serviceDemand c) (sharing_work s)" .
  have "ProcessorSharingNode_accept (\<lambda>x. x) c s = Inr s'"
    using s1(1) new enq(1) s'(1) p room unfolding s3_def
    by (simp add: ProcessorSharingNode_accept_def ready_for_def [symmetric] Queue_canAccept_def)
  with s' w show ?thesis by blast
qed

lemma sharing_leaves:
  assumes inv: "sharing_inv s" and d: "diary s = e # rest" and now: "vtime s = invokeTime e" and e: "arrival_of e = None"
  shows "\<exists>s' c js. sharing_event (\<lambda>x. x) (\<lambda>_. None) e (s\<lparr>diary := rest\<rparr>) = Some (Inr s') \<and> sharing_inv s' \<and> vtime s' = vtime s \<and>
    arrivals_in (diary s') = arrivals_in rest \<and> sharing_work s = (cust_id c, 0) # js \<and> sharing_work s' = js \<and>
    departed s' = departed s @ [(vtime s, c)]"
proof -
  have "line_of s \<noteq> []" using inv d e by (auto simp: sharing_inv_def)
  then obtain x xs where line: "line_of s = x # xs" by (cases "line_of s") auto
  let ?n = "of_nat (length (line_of s)) :: rat"
  have ok: "line_ok s" and r: "resources (srv_resources s) = 0" and ends: "ends_in rest = []" and k: "ev_kind e = EndOfService"
    and t: "invokeTime e = timeOfLastSchedule s + (entry_time s x - localTime s) * ?n"
    using inv line d e by (auto simp: sharing_inv_def)
  obtain c where c: "queueEntries s (cust_id x) = Some (c, entry_time s x)"
    using ok line by (auto simp: line_ok_def entry_time_def)
  have p: "pop (fst (srv_queue s)) = int (length (line_of s))" "capacity (fst (srv_queue s)) = INT_MAX" "nresources (srv_resources s) = 1"
    "diary_ok s" "int (length (line_of s) + length (arrivals_in (diary s))) < INT_MAX"
    using ok by (simp_all add: line_ok_def server_ok_def)
  have n: "?n \<noteq> 0" using line by simp
  have L: "localTime s + (vtime s - timeOfLastSchedule s) / ?n = entry_time s x" unfolding now t using n by simp
  define s1 where "s1 = s\<lparr>diary := rest, localTime := entry_time s x\<rparr>"
  have adv: "advance_localTime (\<lambda>x. x) (s\<lparr>diary := rest\<rparr>) = Inr s1"
    using p(1) n L by (simp add: advance_localTime_def s1_def)
  obtain b where deq: "Queue_dequeue (entry_order s1) (vtime s1) (srv_queue s1) = Inr ((b, xs), x)"
      "pop b = int (length xs)" "capacity b = INT_MAX"
    using line p by (cases "srv_queue s") (simp add: Queue_dequeue_def Check_check_def OrderedQueue_def s1_def Let_def)
  define s2 where "s2 = s1\<lparr>srv_queue := (b, xs), departed := departed s @ [(vtime s, c)]\<rparr>"
  have sel: "srv_queue s2 = (b, xs)" "srv_resources s2 = srv_resources s" "vtime s2 = vtime s" "diary s2 = rest"
    "localTime s2 = entry_time s x" "nextEntryId s2 = nextEntryId s" "queueEntries s2 = queueEntries s"
    "departed s2 = departed s @ [(vtime s, c)]"
    by (simp_all add: s2_def s1_def)
  have et: "entry_time s2 = entry_time s" "entry_id s2 = entry_id s" by (simp_all add: fun_eq_iff entry_time_def entry_id_def sel)
  have ok2: "line_ok s2"
    using ok p d e line deq by (simp add: line_ok_def server_ok_def diary_ok_def sel et)
  have work: "sharing_work s = (cust_id c, 0) # map (\<lambda>y. (entry_id s y, entry_time s y - entry_time s x)) xs"
    using c L by (simp add: sharing_work_def line entry_id_def diff_diff_eq)
  have run: "sharing_event (\<lambda>x. x) (\<lambda>_. None) e (s\<lparr>diary := rest\<rparr>) =
      Some (if pop (fst (srv_queue s2)) = 0 then server_release s2 else ProcessorSharingNode_serviceNextCustomer (\<lambda>x. x) s2)"
    using adv deq(1) c k by (simp add: sharing_event_def ProcessorSharingNode_invoke_def server_forward_def s1_def s2_def)
  show ?thesis
  proof (cases xs)
    case Nil
    obtain r' where r': "Resource_release (vtime s2) (srv_resources s2) = Inr r'" "resources r' = 1" "nresources r' = 1"
      using r p(3) by (simp add: Resource_release_cases sel)
    let ?s' = "s2\<lparr>srv_resources := r'\<rparr>"
    have "sharing_inv ?s'" using ok2 r' Nil ends
      by (simp add: sharing_inv_def line_ok_def server_ok_def diary_ok_def sel)
    moreover have "sharing_event (\<lambda>x. x) (\<lambda>_. None) e (s\<lparr>diary := rest\<rparr>) = Some (Inr ?s')"
      using run r' deq(2) Nil by (simp add: sel server_release_def)
    moreover have "sharing_work ?s' = []" using Nil by (simp add: sharing_work_def sel)
    ultimately show ?thesis using work Nil sel by (intro exI [of _ ?s'] exI [of _ c]) simp
  next
    case (Cons y ys)
    have "entry_time s x \<le> entry_time s y" using ok line Cons by (simp add: line_ok_def)
    then obtain s' where "ProcessorSharingNode_serviceNextCustomer (\<lambda>x. x) s2 = Inr s'" "sharing_inv s'" "vtime s' = vtime s"
        "arrivals_in (diary s') = arrivals_in rest" "departed s' = departed s2"
        "sharing_work s' = map (\<lambda>z. (entry_id s z, entry_time s z - entry_time s x)) xs"
      using sharing_service [OF ok2, of y ys] ends r Cons by (auto simp: sel et)
    then show ?thesis using run work deq(2) Cons sel by (intro exI [of _ s'] exI [of _ c]) simp
  qed
qed

lemma sharing_arrives:
  assumes inv: "sharing_inv s" and d: "diary s = e # rest" and k: "ev_kind e = Arrive c x"
  shows "\<exists>s'. sharing_event (\<lambda>x. x) route e (s\<lparr>diary := rest\<rparr>) = Some (Inr s') \<and> sharing_inv s' \<and> vtime s' = vtime s \<and>
    arrivals_in (diary s') = arrivals_in rest \<and> sharing_work s' = by_remaining_work (cust_id c, x) (sharing_work s) \<and>
    departed s' = departed s"
proof -
  let ?s = "s\<lparr>diary := rest, srv_arrivals := srv_arrivals s + 1\<rparr>"
  have et: "entry_time ?s = entry_time s" "entry_id ?s = entry_id s" by (simp_all add: fun_eq_iff entry_time_def entry_id_def)
  have a: "arrival_of e = Some (invokeTime e, cust_id c, x)" using k by (simp add: arrival_of_def)
  have "ends_in (diary s) = ends_in rest" using d a by simp
  then have "sharing_inv ?s"
    using inv d a by (auto simp: sharing_inv_def line_ok_def server_ok_def diary_ok_def et)
  moreover have "0 \<le> x" "int (length (line_of ?s) + length (arrivals_in (diary ?s))) + 1 < INT_MAX"
    using inv d a by (simp_all add: sharing_inv_def line_ok_def server_ok_def diary_ok_def)
  moreover have "sharing_work ?s = sharing_work s" by (simp add: sharing_work_def et)
  ultimately show ?thesis
    using sharing_accept [of ?s "c\<lparr>serviceDemand := x\<rparr>"] k by (auto simp: sharing_event_def server_enter_def)
qed

interpretation sharing: fluid_server "sharing_event (\<lambda>x. x) (\<lambda>_. None)" sharing_inv sharing_work share_equally by_remaining_work
proof
  fix s :: ps_node and t e rest c d
  show "sharing_inv s \<Longrightarrow> diary_ok s" by (simp add: sharing_inv_def line_ok_def server_ok_def)
  show "sharing_inv s \<Longrightarrow> diary s = [] \<Longrightarrow> sharing_work s = []" by (auto simp: sharing_inv_def sharing_work_def split: if_splits)
  show "sharing_inv s \<Longrightarrow> vtime s \<le> t \<Longrightarrow> \<forall>e \<in> set (diary s). t \<le> invokeTime e \<Longrightarrow>
      sharing_inv (s\<lparr>vtime := t\<rparr>) \<and> sharing_work (s\<lparr>vtime := t\<rparr>) = share_equally (t - vtime s) (sharing_work s) \<and>
      (\<forall>(_, r) \<in> set (sharing_work (s\<lparr>vtime := t\<rparr>)). 0 \<le> r)" by (rule sharing_passing)
next
  fix s :: ps_node and e rest c d
  assume "sharing_inv s" "diary s = e # rest" "vtime s = invokeTime e" "ev_kind e = Arrive c d"
  then show "\<exists>s'. sharing_event (\<lambda>x. x) (\<lambda>_. None) e (s\<lparr>diary := rest\<rparr>) = Some (Inr s') \<and> sharing_inv s' \<and> vtime s' = vtime s \<and>
      arrivals_in (diary s') = arrivals_in rest \<and> sharing_work s' = by_remaining_work (cust_id c, d) (sharing_work s) \<and>
      departed s' = departed s"
    using sharing_arrives by blast
next
  fix s :: ps_node and e rest
  assume "sharing_inv s" "diary s = e # rest" "vtime s = invokeTime e" "arrival_of e = None"
  then show "\<exists>s' c js. sharing_event (\<lambda>x. x) (\<lambda>_. None) e (s\<lparr>diary := rest\<rparr>) = Some (Inr s') \<and> sharing_inv s' \<and> vtime s' = vtime s \<and>
      arrivals_in (diary s') = arrivals_in rest \<and> sharing_work s = (cust_id c, 0) # js \<and> sharing_work s' = js \<and>
      departed s' = departed s @ [(vtime s, c)]"
    by (rule sharing_leaves)
qed (simp_all add: by_remaining_work_def share_equally_def)

section \<open>The preemptive-resume node in exact arithmetic\<close>

text \<open>All disciplines but the priorities put a preempted customer at the head and take the next one from there.\<close>

definition stack_discipline :: "customer list discipline \<Rightarrow> bool" where
  "stack_discipline v \<longleftrightarrow> insertAtHeadOfQueue v = (\<lambda>_ e q. Inr (e # q)) \<and> removeFromQueue v = (\<lambda>_. list_removeFromFront)"

lemma stack_disciplines:
  "stack_discipline FIFOQueue" "stack_discipline LIFOQueue" "stack_discipline (OrderedQueue before)" "stack_discipline (RandomQueue r)"
  by (simp_all add: stack_discipline_def FIFOQueue_def LIFOQueue_def OrderedQueue_def RandomQueue_def)

abbreviation resume_event :: "customer list discipline \<Rightarrow> service_event event \<Rightarrow> preemptive_node \<Rightarrow> preemptive_node res option" where
  "resume_event v \<equiv> preemption_event (\<lambda>x. x) v (\<lambda>_. None)"

definition preemption_work :: "preemptive_node \<Rightarrow> job list" where
  "preemption_work s = List.map_filter (\<lambda>e. case ev_kind e of EndService c \<Rightarrow> Some (cust_id c, invokeTime e - vtime s) | _ \<Rightarrow> None)
      (ends_in (diary s)) @ map (\<lambda>c. (cust_id c, serviceDemand c)) (line_of s)"

definition preemption_inv :: "preemptive_node \<Rightarrow> bool" where
  "preemption_inv s \<longleftrightarrow> server_ok s \<and> (\<forall>c \<in> set (line_of s). 0 \<le> serviceDemand c) \<and>
     (if ends_in (diary s) = [] then line_of s = [] \<and> resources (srv_resources s) = 1
      else resources (srv_resources s) = 0 \<and> (\<exists>t c. lastEndServiceEvent s = Some \<lparr>invokeTime = t, ev_kind = EndService c\<rparr> \<and>
        ends_in (diary s) = [\<lparr>invokeTime = t, ev_kind = EndService c\<rparr>]))"

lemma preemption_passing:
  assumes inv: "preemption_inv s" and t: "vtime s \<le> t" "\<forall>e \<in> set (diary s). t \<le> invokeTime e"
  shows "preemption_inv (s\<lparr>vtime := t\<rparr>) \<and> preemption_work (s\<lparr>vtime := t\<rparr>) = serve_first (t - vtime s) (preemption_work s) \<and>
    (\<forall>(_, r) \<in> set (preemption_work (s\<lparr>vtime := t\<rparr>)). 0 \<le> r)"
proof (cases "ends_in (diary s)")
  case Nil
  then show ?thesis using assms
    by (auto simp: preemption_inv_def preemption_work_def server_ok_def diary_ok_def map_filter_simps)
next
  case (Cons e es)
  then obtain c where e: "ends_in (diary s) = [e]" "ev_kind e = EndService c" using inv by (auto simp: preemption_inv_def)
  have "t \<le> invokeTime e" using t(2) remove_end [OF e(1)] by simp
  then show ?thesis using assms e
    by (auto simp: preemption_inv_def preemption_work_def server_ok_def diary_ok_def map_filter_simps)
qed

lemma preemption_service:
  assumes ok: "server_ok s" and line: "\<forall>c \<in> set (line_of s). 0 \<le> serviceDemand c" and free: "ends_in (diary s) = []"
    and r: "resources (srv_resources s) = 0" and d: "0 \<le> serviceDemand c"
  defines "s' \<equiv> server_invokeService (\<lambda>x. x) c s"
  shows "preemption_inv s'" "vtime s' = vtime s" "arrivals_in (diary s') = arrivals_in (diary s)" "departed s' = departed s"
    "preemption_work s' = (cust_id c, serviceDemand c) # map (\<lambda>c. (cust_id c, serviceDemand c)) (line_of s)"
proof -
  define ev where "ev = \<lparr>invokeTime = vtime s + serviceDemand c, ev_kind = EndService c\<rparr>"
  have s': "s' = Sim_schedule ev (s\<lparr>lastEndServiceEvent := Some ev\<rparr>)"
    by (simp add: s'_def server_invokeService_def ev_def Let_def)
  have a: "arrival_of ev = None" "vtime s \<le> invokeTime ev" using d by (simp_all add: ev_def)
  have sel: "srv_queue s' = srv_queue s" "srv_resources s' = srv_resources s" "vtime s' = vtime s" "lastEndServiceEvent s' = Some ev"
    "departed s' = departed s" "arrivals_in (diary s') = arrivals_in (diary s)" "ends_in (diary s') = [ev]"
    using insert_end [OF a(1), of "diary s"] free by (simp_all add: s' Sim_schedule_def)
  have "diary_ok s'" unfolding s' using ok a by (intro diary_ok_schedule [of s]) (simp_all add: server_ok_def)
  then show "preemption_inv s'" using ok line r by (simp add: preemption_inv_def server_ok_def sel) (simp add: ev_def)
  show "preemption_work s' = (cust_id c, serviceDemand c) # map (\<lambda>c. (cust_id c, serviceDemand c)) (line_of s)"
    by (simp add: preemption_work_def sel map_filter_simps) (simp add: ev_def sel)
qed (simp_all add: s'_def server_invokeService_def Sim_schedule_def Let_def insert_end)

lemma preemption_arrives:
  assumes v: "stack_discipline v" and inv: "preemption_inv s" and d: "diary s = e # rest" and k: "ev_kind e = Arrive c x"
  shows "\<exists>s'. resume_event v e (s\<lparr>diary := rest\<rparr>) = Some (Inr s') \<and> preemption_inv s' \<and> vtime s' = vtime s \<and>
    arrivals_in (diary s') = arrivals_in rest \<and> preemption_work s' = (cust_id c, x) # preemption_work s \<and>
    departed s' = departed s"
proof -
  define s0 where "s0 = s\<lparr>diary := rest, srv_arrivals := srv_arrivals s + 1\<rparr>"
  have sel: "srv_queue s0 = srv_queue s" "srv_resources s0 = srv_resources s" "vtime s0 = vtime s" "diary s0 = rest"
    "lastEndServiceEvent s0 = lastEndServiceEvent s" "departed s0 = departed s"
    by (simp_all add: s0_def)
  have a: "arrival_of e = Some (invokeTime e, cust_id c, x)" using k by (simp add: arrival_of_def)
  have ends: "ends_in (diary s) = ends_in rest" using d a by simp
  have ok: "server_ok s0" "0 \<le> x" and room: "int (length (line_of s) + length (arrivals_in rest)) + 1 < INT_MAX"
    and p: "pop (fst (srv_queue s)) = int (length (line_of s))" "capacity (fst (srv_queue s)) = INT_MAX"
    using inv d a by (auto simp: preemption_inv_def server_ok_def diary_ok_def sel)
  have line: "\<forall>c \<in> set (line_of s). 0 \<le> serviceDemand c" using inv by (simp add: preemption_inv_def)
  have run: "resume_event v e (s\<lparr>diary := rest\<rparr>) =
      Some (PreemptiveResumeNode_accept (\<lambda>x. x) v (c\<lparr>serviceDemand := x\<rparr>) s0)"
    using k by (simp add: preemption_event_def server_enter_def s0_def)
  show ?thesis
  proof (cases "ends_in rest")
    case Nil
    obtain r' where r': "Resource_claim (vtime s) (srv_resources s) = Inr r'" "resources r' = 0" "nresources r' = 1"
      using inv Nil ends by (simp add: preemption_inv_def server_ok_def Resource_claim_cases)
    define s1 where "s1 = s0\<lparr>srv_resources := r'\<rparr>"
    have "server_ok s1" "line_of s1 = []" "ends_in (diary s1) = []" "resources (srv_resources s1) = 0" "vtime s1 = vtime s"
      "arrivals_in (diary s1) = arrivals_in rest" "departed s1 = departed s"
      using ok inv Nil ends r' by (simp_all add: s1_def server_ok_def diary_ok_def preemption_inv_def sel)
    moreover have "resume_event v e (s\<lparr>diary := rest\<rparr>) = Some (Inr (server_invokeService (\<lambda>x. x) (c\<lparr>serviceDemand := x\<rparr>) s1))"
      using run r' inv Nil ends
      by (simp add: PreemptiveResumeNode_accept_def server_claim_def Resource_resourceIsAvailable_def sel preemption_inv_def s1_def)
    moreover have "preemption_work s = []" using inv Nil ends by (simp add: preemption_work_def preemption_inv_def map_filter_simps)
    ultimately show ?thesis using preemption_service [of s1 "c\<lparr>serviceDemand := x\<rparr>"] ok(2) by auto
  next
    case (Cons y ys)
    obtain t b where e: "lastEndServiceEvent s = Some \<lparr>invokeTime = t, ev_kind = EndService b\<rparr>"
        "ends_in rest = [\<lparr>invokeTime = t, ev_kind = EndService b\<rparr>]" "resources (srv_resources s) = 0"
      using inv Cons ends by (auto simp: preemption_inv_def)
    define b' where "b' = b\<lparr>serviceDemand := t - vtime s, queueInsertionTime := vtime s\<rparr>"
    have ds: "deschedule_pointer (lastEndServiceEvent s0) s0 = Inr (\<lparr>invokeTime = t, ev_kind = EndService b\<rparr>,
        s0\<lparr>diary := remove1 \<lparr>invokeTime = t, ev_kind = EndService b\<rparr> rest\<rparr>)"
      "diary_ok (s0\<lparr>diary := remove1 \<lparr>invokeTime = t, ev_kind = EndService b\<rparr> rest\<rparr>)"
      using diary_ok_deschedule [of s0 "\<lparr>invokeTime = t, ev_kind = EndService b\<rparr>"] ok(1) e by (simp_all add: sel server_ok_def)
    obtain q where q: "Queue_enqueueAtHead v (vtime s) (b\<lparr>serviceDemand := t - vtime s\<rparr>) (srv_queue s) = Inr (q, b' # line_of s)"
        "pop q = int (length (line_of s)) + 1" "capacity q = INT_MAX"
      using v room p by (simp add: Queue_enqueueAtHead_def Check_check_def Queue_canAccept_def stack_discipline_def
          Customer_setQueueInsertionTime_def Let_def b'_def)
    define s1 where "s1 = s0\<lparr>diary := remove1 \<lparr>invokeTime = t, ev_kind = EndService b\<rparr> rest, srv_queue := (q, b' # line_of s)\<rparr>"
    have "t \<ge> vtime s" using inv remove_end [of "diary s"] e ends by (fastforce simp: preemption_inv_def server_ok_def diary_ok_def)
    then have "\<forall>c \<in> set (line_of s1). 0 \<le> serviceDemand c" using line by (simp add: s1_def b'_def)
    moreover have "server_ok s1" "line_of s1 = b' # line_of s" "ends_in (diary s1) = []" "resources (srv_resources s1) = 0"
      "vtime s1 = vtime s" "arrivals_in (diary s1) = arrivals_in rest" "departed s1 = departed s"
      using ok ds(2) room q(2,3) remove_end [OF e(2)] e(3) by (simp_all add: s1_def server_ok_def diary_ok_def sel)
    moreover have "resume_event v e (s\<lparr>diary := rest\<rparr>) = Some (Inr (server_invokeService (\<lambda>x. x) (c\<lparr>serviceDemand := x\<rparr>) s1))"
      using run q(1) e(3) ds(1)
      by (simp add: PreemptiveResumeNode_accept_def Resource_resourceIsAvailable_def sel s1_def Let_def PreemptiveResumeNode_remainingServiceTime_def)
    moreover have "preemption_work s = (cust_id b, t - vtime s) # map (\<lambda>c. (cust_id c, serviceDemand c)) (line_of s)"
      using e ends by (simp add: preemption_work_def map_filter_simps)
    ultimately show ?thesis using preemption_service [of s1 "c\<lparr>serviceDemand := x\<rparr>"] ok(2) by (auto simp: b'_def)
  qed
qed

lemma preemption_leaves:
  assumes v: "stack_discipline v" and inv: "preemption_inv s" and d: "diary s = e # rest" and now: "vtime s = invokeTime e"
    and e: "arrival_of e = None"
  shows "\<exists>s' c js. resume_event v e (s\<lparr>diary := rest\<rparr>) = Some (Inr s') \<and> preemption_inv s' \<and> vtime s' = vtime s \<and>
    arrivals_in (diary s') = arrivals_in rest \<and> preemption_work s = (cust_id c, 0) # js \<and> preemption_work s' = js \<and>
    departed s' = departed s @ [(vtime s, c)]"
proof -
  obtain c where c: "ev_kind e = EndService c" and r: "resources (srv_resources s) = 0" and ends: "ends_in rest = []"
    using inv d e by (auto simp: preemption_inv_def)
  define s1 where "s1 = s\<lparr>diary := rest, departed := departed s @ [(vtime s, c)]\<rparr>"
  have sel: "srv_queue s1 = srv_queue s" "srv_resources s1 = srv_resources s" "vtime s1 = vtime s" "diary s1 = rest"
    "departed s1 = departed s @ [(vtime s, c)]" by (simp_all add: s1_def)
  have ok: "server_ok s1" and line: "\<forall>c \<in> set (line_of s). 0 \<le> serviceDemand c"
    using inv d e by (simp_all add: preemption_inv_def server_ok_def diary_ok_def sel)
  have work: "preemption_work s = (cust_id c, 0) # map (\<lambda>c. (cust_id c, serviceDemand c)) (line_of s)"
    using d e c ends now by (simp add: preemption_work_def map_filter_simps)
  have run: "resume_event v e (s\<lparr>diary := rest\<rparr>) = Some (server_releaseResource (\<lambda>x. x) v s1)"
    using c by (simp add: preemption_event_def server_forward_def s1_def)
  have p: "pop (fst (srv_queue s)) = int (length (line_of s))" "nresources (srv_resources s) = 1"
    using inv by (simp_all add: preemption_inv_def server_ok_def)
  show ?thesis
  proof (cases "line_of s")
    case Nil
    obtain r' where r': "Resource_release (vtime s) (srv_resources s) = Inr r'" "resources r' = 1" "nresources r' = 1"
      using r p by (simp add: Resource_release_cases)
    let ?s' = "s1\<lparr>srv_resources := r'\<rparr>"
    have "preemption_inv ?s'" using ok r' Nil ends by (simp add: preemption_inv_def server_ok_def diary_ok_def sel)
    moreover have "server_releaseResource (\<lambda>x. x) v s1 = Inr ?s'"
      using r' p Nil by (simp add: server_releaseResource_def Queue_isEmpty_def server_release_def sel)
    moreover have "preemption_work ?s' = []" using Nil ends by (simp add: preemption_work_def sel map_filter_simps)
    ultimately show ?thesis using work Nil sel run by (intro exI [of _ ?s'] exI [of _ c]) simp
  next
    case (Cons y ys)
    obtain b where deq: "Queue_dequeue v (vtime s) (srv_queue s) = Inr ((b, ys), y)" "pop b = int (length ys)" "capacity b = INT_MAX"
      using v Cons p ok by (simp add: Queue_dequeue_def Check_check_def stack_discipline_def Let_def server_ok_def sel)
    define s2 where "s2 = s1\<lparr>srv_queue := (b, ys)\<rparr>"
    have "server_ok s2" "line_of s2 = ys" "ends_in (diary s2) = []" "resources (srv_resources s2) = 0" "vtime s2 = vtime s"
      "arrivals_in (diary s2) = arrivals_in rest" "departed s2 = departed s @ [(vtime s, c)]"
      using ok deq(2,3) Cons ends r by (simp_all add: s2_def server_ok_def diary_ok_def sel)
    moreover have "resume_event v e (s\<lparr>diary := rest\<rparr>) = Some (Inr (server_invokeService (\<lambda>x. x) y s2))"
      using run deq(1) p Cons by (simp add: server_releaseResource_def Queue_isEmpty_def sel s2_def)
    ultimately show ?thesis using preemption_service [of s2 y] line Cons work by auto
  qed
qed

lemma preemption_server:
  assumes v: "stack_discipline v"
  shows "fluid_server (resume_event v) preemption_inv preemption_work serve_first (#)"
proof
  fix s :: preemptive_node and t e rest c d
  show "preemption_inv s \<Longrightarrow> diary_ok s" by (simp add: preemption_inv_def server_ok_def)
  show "preemption_inv s \<Longrightarrow> diary s = [] \<Longrightarrow> preemption_work s = []" by (simp add: preemption_inv_def preemption_work_def map_filter_simps)
  show "length (serve_first dt js) = length js" for dt js by (induction js) auto
  show "preemption_inv s \<Longrightarrow> vtime s \<le> t \<Longrightarrow> \<forall>e \<in> set (diary s). t \<le> invokeTime e \<Longrightarrow>
      preemption_inv (s\<lparr>vtime := t\<rparr>) \<and> preemption_work (s\<lparr>vtime := t\<rparr>) = serve_first (t - vtime s) (preemption_work s) \<and>
      (\<forall>(_, r) \<in> set (preemption_work (s\<lparr>vtime := t\<rparr>)). 0 \<le> r)" by (rule preemption_passing)
  show "preemption_inv s \<Longrightarrow> diary s = e # rest \<Longrightarrow> ev_kind e = Arrive c d \<Longrightarrow>
      \<exists>s'. resume_event v e (s\<lparr>diary := rest\<rparr>) = Some (Inr s') \<and> preemption_inv s' \<and> vtime s' = vtime s \<and>
        arrivals_in (diary s') = arrivals_in rest \<and> preemption_work s' = (cust_id c, d) # preemption_work s \<and> departed s' = departed s"
    by (rule preemption_arrives [OF v])
  show "preemption_inv s \<Longrightarrow> diary s = e # rest \<Longrightarrow> vtime s = invokeTime e \<Longrightarrow> arrival_of e = None \<Longrightarrow>
      \<exists>s' c js. resume_event v e (s\<lparr>diary := rest\<rparr>) = Some (Inr s') \<and> preemption_inv s' \<and> vtime s' = vtime s \<and>
        arrivals_in (diary s') = arrivals_in rest \<and> preemption_work s = (cust_id c, 0) # js \<and> preemption_work s' = js \<and>
        departed s' = departed s @ [(vtime s, c)]"
    by (rule preemption_leaves [OF v])
qed simp

interpretation preemption: fluid_server "resume_event LIFOQueue" preemption_inv preemption_work serve_first "(#)"
  by (rule preemption_server [OF stack_disciplines(2)])

section \<open>Properties\<close>

text \<open>The events that a simulation starts with.\<close>

definition schedule_ok :: "service_event event list \<Rightarrow> bool" where
  "schedule_ok events \<longleftrightarrow> sorted_wrt Diary_before events \<and> int (length events) < INT_MAX \<and>
     list_all (\<lambda>e. 0 \<le> invokeTime e \<and> (case ev_kind e of Arrive c d \<Rightarrow> 0 \<le> d | _ \<Rightarrow> False)) events"

lemma schedule_arrivals:
  assumes "schedule_ok events"
  shows "ends_in events = []" "\<forall>(_, _, d) \<in> set (arrivals_in events). 0 \<le> d" "length (arrivals_in events) = length events"
    "\<forall>e \<in> set events. 0 \<le> invokeTime e"
proof -
  have "list_all (\<lambda>e. 0 \<le> invokeTime e \<and> (case ev_kind e of Arrive c d \<Rightarrow> 0 \<le> d | _ \<Rightarrow> False)) events"
    using assms by (simp add: schedule_ok_def)
  then have "ends_in events = [] \<and> (\<forall>(_, _, d) \<in> set (arrivals_in events). 0 \<le> d) \<and>
      length (arrivals_in events) = length events \<and> (\<forall>e \<in> set events. 0 \<le> invokeTime e)"
  proof (induction events)
    case (Cons e es)
    then obtain c d where "ev_kind e = Arrive c d" "0 \<le> d" by (cases "ev_kind e") auto
    then have "arrival_of e = Some (invokeTime e, cust_id c, d)" "0 \<le> d" by (simp_all add: arrival_of_def)
    with Cons show ?case by simp
  qed simp
  then show "ends_in events = []" "\<forall>(_, _, d) \<in> set (arrivals_in events). 0 \<le> d" "length (arrivals_in events) = length events"
    "\<forall>e \<in> set events. 0 \<le> invokeTime e" by blast+
qed

lemma start_ok:
  assumes "schedule_ok events" "diary s = events" "vtime s = 0" "srv_queue s = (Queue_Queue INT_MAX, [])"
    "srv_resources s = Resource_Resource 1"
  shows "server_ok s"
proof -
  have "sorted_wrt Diary_before events" "int (length events) < INT_MAX" using assms(1) by (simp_all add: schedule_ok_def)
  moreover note schedule_arrivals(2-4) [OF assms(1)]
  ultimately show ?thesis
    unfolding server_ok_def diary_ok_def assms(2-5) by (simp add: Queue_Queue_def Resource_Resource_def)
qed

lemma sharing_start:
  assumes "schedule_ok events"
  shows "sharing_inv (ProcessorSharingNode_ProcessorSharingNode events k)"
  using start_ok [OF assms, of "ProcessorSharingNode_ProcessorSharingNode events k"] schedule_arrivals(1) [OF assms]
  by (simp add: sharing_inv_def line_ok_def ProcessorSharingNode_ProcessorSharingNode_def Resource_Resource_def)

lemma preemption_start:
  assumes "schedule_ok events"
  shows "preemption_inv (PreemptiveResumeNode_PreemptiveResumeNode events)"
  using start_ok [OF assms, of "PreemptiveResumeNode_PreemptiveResumeNode events"] schedule_arrivals(1) [OF assms]
  by (simp add: preemption_inv_def PreemptiveResumeNode_PreemptiveResumeNode_def Resource_Resource_def)

definition example_customer_of :: "int \<Rightarrow> customer" where
  "example_customer_of i = \<lparr>cust_id = i, cust_type = 0, cust_priority = 0, arrivalTime = 0, serviceDemand = 0, queueInsertionTime = 0\<rparr>"

definition arrival_at :: "rat \<Rightarrow> int \<Rightarrow> rat \<Rightarrow> service_event event" where
  "arrival_at t i d = \<lparr>invokeTime = t, ev_kind = Arrive (example_customer_of i) d\<rparr>"

text \<open>
  C23. The processor sharing node serves all its customers equally. In exact arithmetic the simulation of any
  finite schedule of arrivals ends, without an error and with an empty diary, and the customers have left at the times
  and in the order in which they leave a server that gives each of its n customers the n-th part of its time, although
  the node keeps one event and one local clock instead of the work of every customer.
\<close>

theorem processor_sharing_serves_equally:
  assumes "schedule_ok events"
  shows "\<exists>s. Sim_go (\<lambda>_. False) (sharing_event (\<lambda>x. x) (\<lambda>_. None)) (ProcessorSharingNode_ProcessorSharingNode events k) = Some (Inr s) \<and>
    diary s = [] \<and> (fluid_step share_equally by_remaining_work)\<^sup>*\<^sup>* (0, arrivals_in events, [], []) (vtime s, [], [], left_at s)"
proof -
  obtain s where s: "Sim_go (\<lambda>_. False) (sharing_event (\<lambda>x. x) (\<lambda>_. None)) (ProcessorSharingNode_ProcessorSharingNode events k) = Some (Inr s)"
      "diary s = []" "sharing_work s = []" "(fluid_step share_equally by_remaining_work)\<^sup>*\<^sup>*
        (sharing.fluid_of (ProcessorSharingNode_ProcessorSharingNode events k)) (sharing.fluid_of s)"
    using sharing.simulation_refines [OF sharing_start [OF assms]] by blast
  have "sharing.fluid_of (ProcessorSharingNode_ProcessorSharingNode events k) = (0, arrivals_in events, [], [])"
    by (simp add: sharing.fluid_of_def ProcessorSharingNode_ProcessorSharingNode_def sharing_work_def left_at_def)
  moreover have "sharing.fluid_of s = (vtime s, [], [], left_at s)" using s(2,3) by (simp add: sharing.fluid_of_def)
  ultimately show ?thesis using s by metis
qed

theorem processor_sharing_serves_equally_witness:
  "\<exists>s. Sim_go (\<lambda>_. False) (sharing_event (\<lambda>x. x) (\<lambda>_. None))
      (ProcessorSharingNode_ProcessorSharingNode [arrival_at 0 1 4, arrival_at 1 2 1] 3) = Some (Inr s) \<and> diary s = []"
proof -
  have "schedule_ok [arrival_at 0 1 4, arrival_at 1 2 1]"
    by (simp add: schedule_ok_def arrival_at_def Diary_before_def INT_MAX_def)
  from processor_sharing_serves_equally [OF this, of 3] show ?thesis by blast
qed



text \<open>A customer that the link leads back at once makes both nodes deschedule an event that was already taken.\<close>

lemma returning_customer_fails:
  assumes "sharing_inv s" "diary s = e # rest" "arrival_of e = None" "\<And>c. route c \<noteq> None"
  shows "sharing_event (\<lambda>x. x) route e (s\<lparr>diary := rest\<rparr>) = Some (Inl NullDeref)"
proof -
  have "line_of s \<noteq> []" using assms by (auto simp: sharing_inv_def)
  then obtain x xs where line: "line_of s = x # xs" by (cases "line_of s") auto
  have ok: "line_ok s" and r: "resources (srv_resources s) = 0" and ends: "ends_in rest = []" and k: "ev_kind e = EndOfService"
    and n: "nextEndServiceEvent s = Some e"
    using assms line by (auto simp: sharing_inv_def)
  have out: "e \<notin> set rest" using ends assms(3) by (auto simp: ends_in_def filter_empty_conv)
  have p: "pop (fst (srv_queue s)) = int (length (line_of s))" "capacity (fst (srv_queue s)) = INT_MAX"
    "int (length (line_of s)) \<le> INT_MAX"
    using ok by (simp_all add: line_ok_def server_ok_def)
  obtain c t where c: "queueEntries s (cust_id x) = Some (c, t)" using ok line by (auto simp: line_ok_def)
  obtain d where d: "route c = Some d" using assms(4) [of c] by auto
  obtain b where deq: "Queue_dequeue v (vtime s) (srv_queue s) = Inr ((b, xs), x)" "pop b = int (length xs)" "capacity b = INT_MAX"
    if "v = OrderedQueue before" for v before
    using line p by (simp add: Queue_dequeue_def Check_check_def OrderedQueue_def Let_def)
  show ?thesis
    using line p deq c d r n k out
    by (simp add: sharing_event_def ProcessorSharingNode_invoke_def advance_localTime_def server_forward_def server_enter_def
        ProcessorSharingNode_accept_def Queue_canAccept_def Resource_resourceIsAvailable_def deschedule_pointer_def Sim_deschedule_def)
qed

section \<open>What rounding breaks\<close>

text \<open>Two customers that need a tenth and two units of time arrive at 1 and at 1.1, the \<open>double\<close>s that are written so.\<close>

definition tenth :: rat where "tenth = 3602879701896397 / 36028797018963968"

definition one_and_tenth :: rat where "one_and_tenth = 2476979795053773 / 2251799813685248"

lemmas node_steps =
  Sim_round_def Let_def sharing_event_def server_enter_def ProcessorSharingNode_accept_def Queue_canAccept_def
  Resource_resourceIsAvailable_def server_claim_def Resource_claim_cases deschedule_pointer_def Sim_deschedule_def advance_localTime_def
  OrderedQueueEntry_OrderedQueueEntry_def Queue_enqueue_def Check_check_def OrderedQueue_def Customer_setQueueInsertionTime_def
  ProcessorSharingNode_serviceNextCustomer_def Queue_head_def Sim_schedule_def list_insertInOrder_def Diary_before_def
  OrderedQueueEntry_smallerThan_def arrival_at_def Queue_Queue_def Resource_Resource_def INT_MAX_def

lemma rounded:
  "f64 (3602879701896397 / 36028797018963968) = 3602879701896397 / 36028797018963968"
  "f64 (39631676720860365 / 36028797018963968) = 2476979795053773 / 2251799813685248"
  "f64 (225179981368525 / 2251799813685248) = 225179981368525 / 2251799813685248"
  "f64 (4728779608739021 / 2251799813685248) = 4728779608739021 / 2251799813685248"
  "f64 (- (3 / 36028797018963968)) = - 3 / 36028797018963968"
  "f64 (- (3 / 18014398509481984)) = - 3 / 18014398509481984"
  "f64 (19815838360430181 / 18014398509481984) = 4953959590107545 / 4503599627370496"
  by code_simp+


end
