(* ===== verification/Spec2Isabelle.thy ===== *)
theory Spec2Isabelle
  imports Vex_Timeline Vex_ThreadQueue Vex_Registries Vex_Handshake Vex_ThreadRegistry Vex_Events Vex_IoPredictor Vex_Profiler Vex_IoSoundness
    Cinqs_Sharing
begin

text \<open>
  A verification development for VEX, the virtual time execution framework (\<open>src/src/vex\<close>), and
  for CINQS, the queueing network simulator it uses for performance models (\<open>src/src/cinqs\<close>).

  \<^bold>\<open>The program.\<close> VEX runs the threads of an instrumented program in virtual time. Every thread
  carries its own clocks (\<open>Timers\<close>) and a state code (\<open>VexThreadState\<close>); the progress of the
  threads is committed to a global timeline (\<open>VirtualTimeline\<close>, through a
  \<open>VirtualTimelineController\<close>); the threads that may run wait in one priority queue ordered by
  their virtual timestamps (\<open>ThreadQueue\<close>), from which the schedulers take the next one; monitors
  and waiting threads are kept in registries (\<open>LockRegistry\<close>, \<open>ObjectRegistry\<close>). CINQS is a
  discrete event simulator: a diary of events, nodes with queues and resources, links between the
  nodes, and measures of what happens.

  \<^bold>\<open>Theories and sources.\<close>
    \<^item> \<open>Vex_Prelude\<close>: outcomes of C++ operations (a value or the way the code fails), the conversion
      and rounding functions behind \<open>float\<close> and \<open>double\<close>, list lemmas.
    \<^item> \<open>Vex_Timers\<close>: class \<open>Timers\<close> (\<open>threads/Timers.h\<close>, \<open>Timers.cpp\<close>). One field of the record per
      data member, one function per method; readings of hardware clocks are arguments.
    \<^item> \<open>Vex_Statistics\<close>: state codes (\<open>Constants.h\<close>), \<open>Statistics\<close> and \<open>AggregateStateCounters\<close>.
    \<^item> \<open>Vex_Thread\<close>: \<open>VexThreadState\<close> with its parts \<open>IoHandler\<close> and \<open>Scheduling\<close>: state setters,
      predicates of the state, I/O predictions, parking, the order of the queue.
    \<^item> \<open>Vex_Timeline\<close>: the three \<open>VirtualTimeline\<close> classes (\<open>timer/VirtualTimeline.h\<close>, \<open>.cpp\<close>) with
      their mutex, and the controllers that commit the progress of a thread.
    \<^item> \<open>Vex_PQueue\<close>: \<open>ds/AdaptiblePQueue.h\<close> and the heap algorithms of the C++ library that it
      inherits, on the array; locale \<open>weak_order\<close> for the comparison and \<open>served_queue\<close> for the
      promise of a priority queue.
    \<^item> \<open>Vex_ThreadQueue\<close>: \<open>ds/ThreadQueue.cpp\<close>: all operations, on a store of threads that are reached
      through pointers, since changing a queued thread changes the order of the heap.
    \<^item> \<open>Vex_Registries\<close>: \<open>registries/LockRegistry\<close> (plain and reentrant) and \<open>ObjectRegistry\<close>; locale
      \<open>lock_service\<close> for the contract of a lock.
    \<^item> \<open>Vex_Handshake\<close>: the condition variables of \<open>threads/Scheduling.cpp\<close> by which a thread and its
      manager wait for each other, as programs of atomic instructions that interleave.
    \<^item> \<open>Vex_ThreadRegistry\<close>: \<open>registries/ThreadRegistry\<close> and \<open>ThreadManagerRegistry\<close>.
    \<^item> \<open>Vex_Manager\<close>: \<open>scheduler/ThreadManager.cpp\<close> and the entry points of \<open>threads/ThreadState.cpp\<close>. The
      code of a thread is a list of frames; a call that blocks leaves the rest of the list in the world,
      to be run when the thread is resumed.
    \<^item> \<open>Vex_Scheduler\<close>, \<open>Vex_Soundness\<close>, \<open>Vex_Rounds\<close>: what the operations do to the thread they work on
      (\<open>acts\<close>), a type system of the frames over the modes of a thread, and the rounds of the manager; locale
      \<open>time_controller\<close> for the contract of a timeline controller, interpreted for both.
    \<^item> \<open>Vex_System\<close>: events of threads and managers as one transition system and what holds in all its
      reachable states.
    \<^item> \<open>Vex_Events\<close>: the behaviours of \<open>events/ThreadEventsBehaviour.cpp\<close>, which turn intercepted events into
      calls of the registries and the manager, as lists of calls that may block.
    \<^item> \<open>Vex_Text\<close>, \<open>Vex_Prediction\<close>, \<open>Vex_AutoRegression\<close>, \<open>Vex_Markov\<close>: the methods of \<open>io/PredictionMethod\<close>
      with \<open>debugging/LinearRegression\<close> and \<open>AutoRegression\<close>: training, prediction, import and export.
    \<^item> \<open>Vex_IoPredictor\<close>: the factory, the choice of methods (\<open>io/PredictionMethodFactory\<close>, \<open>IoState\<close>), the
      recognition of I/O operations and the predictors (\<open>io/IoRecognizer\<close>, \<open>IoPredictor\<close>).
    \<^item> \<open>Vex_Profiler\<close>: \<open>profiler/\<close> and \<open>threads/MethodLog\<close>: the method stack of a thread, the measures of
      methods and of stack traces, the policies that end the profiling of a method, the measures of all threads.
    \<^item> \<open>Vex_MethodEvents\<close>: \<open>events/MethodEventsBehaviour.cpp\<close>, \<open>io/IoSimulator.cpp\<close>, \<open>IoProtocol.cpp\<close> and
      \<open>IoParameters.cpp\<close>: entries and exits of methods and of I/O operations as lists of steps that may block.
    \<^item> \<open>Vex_IoSoundness\<close>: a type system of these steps over the modes of a thread, operations included; locale
      \<open>io_controller\<close> for the commits of operations, interpreted for both controllers.
    \<^item> \<open>Cinqs_List\<close>: \<open>tools/List\<close> and \<open>OrderedList\<close> on an explicit memory of nodes.
    \<^item> \<open>Cinqs_Measures\<close>: \<open>Measure\<close>, \<open>SystemMeasure\<close>, \<open>CustomerMeasure\<close>, \<open>Resource\<close>.
    \<^item> \<open>Cinqs_Queues\<close>: \<open>Queue\<close> and the five disciplines as records of their virtual methods; locale
      \<open>queue_discipline\<close>, interpreted for each discipline.
    \<^item> \<open>Cinqs_Sim\<close>: the diary and main loop of \<open>tools/Sim.cpp\<close>, and networks of sources, infinite
      server nodes, resource pools, queueing nodes, branches and sinks; locale \<open>event_handler\<close>.
    \<^item> \<open>Cinqs_Sharing\<close>: processor sharing and preemptive nodes and boxed queues; locale \<open>fluid_server\<close> for a node that
      refines a server that works continuously, interpreted for both nodes.

  \<^bold>\<open>What the lemmas show.\<close> Of the queue: a reachable array is a heap for the current timestamps, and
  draining it gives the threads in order of virtual time. Of the timelines: commits complete, release
  the mutex and are monotone; logging accounts for all progress. Of threads: times per state add up,
  predictions are corrected exactly, parking loses no wake-up. Of the scheduler: code of a thread inside
  VEX is well typed, so that every event succeeds and no thread is lost, and at most one thread executes
  per manager; the hand-shake of a resumed thread needs no fairness. Of the predictors: the median sorts, lines
  are continued without rounding errors, the Markov chain has no empty state, and runs of I/O operations
  never fail while the counter of threads stays exact. Of the profiler: the times of all methods add up to
  the time of the outermost calls, whatever is reported the method stack stays sound, and the merge of the
  measures of threads keeps samples and times. Of I/O operations: under the
  serial and the normal protocol no step fails and a predicted operation ends at its predicted time. Of the
  registries: mutual exclusion of
  plain locks, and the hand-over of reentrant locks that breaks it. Of CINQS: linked lists refine
  sequences, disciplines refine lines of customers, networks serve whenever they can, measures are
  time averages, and the sharing and the preemptive nodes refine continuous service in exact arithmetic. Several properties describe places where the code does something else than its
  comments or names say; they are stated as theorems with the concrete state that shows it.

  \<^bold>\<open>Conventions.\<close> Fields, methods and constants keep their names; \<open>C_m\<close> is method \<open>m\<close> of class \<open>C\<close>.
  A failing \<open>assert\<close>, a null dereference, an access out of bounds and a lock that is never obtained
  are error values; asserts are taken as enabled, although a release build may define \<open>NDEBUG\<close>.
  \<open>long long\<close> nanosecond counters are unbounded integers (2^63 ns are 292 years); where the code
  converts between integers and \<open>float\<close>, the rounding is modelled, since it changes results.
  \<open>double\<close> simulation times and measures are rationals rounded after every operation. Loops are
  structural recursions, except the pointer loops of \<open>List\<close>, node entry of networks and the main loop
  of the simulation, which are partial functions: their results are \<open>None\<close> exactly when they run
  forever, and the properties that need termination prove it. Two loops of the predictors have fuel: the
  division of Markov states ends within states times (measurements + 1) rounds, which is proved, and the
  polar method, which draws random numbers until they suit. Random numbers are arguments.

  \<^bold>\<open>Not modelled.\<close> The loose, strict and passive managers; the distributed scheduler and the client I/O
  protocol, which exchange messages over sockets; methods described by queueing networks and the parser of
  their files, which rests on a vendored XML library; the criteria of native waiting, which read the state of
  operating system threads; the glue to the Java virtual machine; printing, logging and debugging output. Of
  CINQS: samplers, histograms and the logs of results.
\<close>

end
